(* ===== verification/Py_Prelude.thy ===== *)
theory Py_Prelude
  imports Complex_Main "HOL-Library.Char_ord" "HOL-Library.List_Lexorder" "HOL-Library.Product_Lexorder"
    "HOL-Library.AList" "HOL-Library.Multiset"
begin

section \<open>Shared vocabulary of the development\<close>

text \<open>
  The Python values and idioms that every component uses:
  \<^item> text is \<open>string\<close>, ordered by code point (characters stand for code points below 256);
  \<^item> a UTC-aware datetime is an \<open>instant\<close>, the number of microseconds since the epoch, so that
    comparison and subtraction of datetimes are those of \<open>int\<close>;
  \<^item> an exception is a value of \<open>py_error\<close>, and a fallible function returns a \<open>result\<close>; \<open>NumericUnsafe\<close> and
    \<open>UnsafeSolverResult\<close> are the subclasses of \<open>ValueError\<close> that the solver defines; \<open>OutOfFuel\<close> is no
    exception of the program but the bound of a loop of the model, which theorems show is not met;
  \<^item> a dict is an association list: \<open>AList.update\<close> keeps the position of a known key and appends
    a new one, as \<open>d[k] = v\<close> does, and \<open>map_of\<close> is \<open>d.get\<close>;
  \<^item> \<open>keyed_store\<close> is the contract of the tables and dicts that components read back.
\<close>

named_theorems py_defs \<open>definitions that component proofs unfold\<close>

type_synonym instant = int

abbreviation usec_per_second :: int where
  "usec_per_second \<equiv> 1000000"

subsection \<open>Exceptions as values\<close>

datatype py_error =
    OverflowError
  | ValueError string
  | KeyError string
  | IndexError
  | TypeError
  | VersionConflict string
  | IntegrityError
  | NumericUnsafe string
  | UnsafeSolverResult string
  | ModuleNotFoundError
  | AssertionError
  | AttributeError
  | ArithmeticError
  | OutOfFuel

type_synonym 'a result = "py_error + 'a"

definition rbind :: "'a result \<Rightarrow> ('a \<Rightarrow> 'b result) \<Rightarrow> 'b result" where
  "rbind m f = (case m of Inl e \<Rightarrow> Inl e | Inr x \<Rightarrow> f x)"

text \<open>\<open>except ValueError\<close> catches the subclasses too.\<close>

fun is_value_error :: "py_error \<Rightarrow> bool" where
  "is_value_error (ValueError _) = True"
| "is_value_error (NumericUnsafe _) = True"
| "is_value_error (UnsafeSolverResult _) = True"
| "is_value_error _ = False"

lemma rbind_simps [simp]:
  "rbind (Inl e) f = Inl e"
  "rbind (Inr x) f = f x"
  by (simp_all add: rbind_def)

lemma rbind_Inr_iff [simp]: "rbind m f = Inr y \<longleftrightarrow> (\<exists>x. m = Inr x \<and> f x = Inr y)"
  by (cases m) auto

lemma rbind_Inl_iff: "rbind m f = Inl e \<longleftrightarrow> m = Inl e \<or> (\<exists>x. m = Inr x \<and> f x = Inl e)"
  by (cases m) auto

lemma rbind_cong [fundef_cong]:
  "m = m' \<Longrightarrow> (\<And>x. m' = Inr x \<Longrightarrow> f x = g x) \<Longrightarrow> rbind m f = rbind m' g"
  by (cases m') auto

text \<open>A loop that calls a fallible function on each element and collects the results.\<close>

fun result_map :: "('a \<Rightarrow> 'b result) \<Rightarrow> 'a list \<Rightarrow> 'b list result" where
  "result_map f [] = Inr []"
| "result_map f (x # xs) = rbind (f x) (\<lambda>y. rbind (result_map f xs) (\<lambda>ys. Inr (y # ys)))"

lemma result_map_Inr_iff: "result_map f xs = Inr ys \<longleftrightarrow> list_all2 (\<lambda>x y. f x = Inr y) xs ys"
  by (induction xs arbitrary: ys) (auto simp: list_all2_Cons1)

lemma result_map_total: "(\<And>x. x \<in> set xs \<Longrightarrow> f x = Inr (g x)) \<Longrightarrow> result_map f xs = Inr (map g xs)"
  by (induction xs) auto

text \<open>A comprehension with a fallible filter.\<close>

fun result_filter :: "('a \<Rightarrow> bool result) \<Rightarrow> 'a list \<Rightarrow> 'a list result" where
  "result_filter f [] = Inr []"
| "result_filter f (x # xs) =
     rbind (f x) (\<lambda>b. rbind (result_filter f xs) (\<lambda>ys. Inr (if b then x # ys else ys)))"

lemma result_filter_total:
  "(\<And>x. x \<in> set xs \<Longrightarrow> f x = Inr (P x)) \<Longrightarrow> result_filter f xs = Inr (filter P xs)"
  by (induction xs) auto

lemma result_filter_Inr:
  "result_filter f xs = Inr ys \<Longrightarrow>
     (\<forall>x \<in> set xs. \<exists>b. f x = Inr b) \<and> ys = filter (\<lambda>x. f x = Inr True) xs"
  by (induction xs arbitrary: ys) auto

text \<open>A loop that threads a state through a fallible step.\<close>

fun result_fold :: "('a \<Rightarrow> 's \<Rightarrow> 's result) \<Rightarrow> 'a list \<Rightarrow> 's \<Rightarrow> 's result" where
  "result_fold f [] s = Inr s"
| "result_fold f (x # xs) s = rbind (f x s) (\<lambda>s'. result_fold f xs s')"

lemma result_fold_cong [fundef_cong]:
  "xs = ys \<Longrightarrow> s = t \<Longrightarrow> (\<And>x u. x \<in> set ys \<Longrightarrow> f x u = g x u) \<Longrightarrow> result_fold f xs s = result_fold g ys t"
proof (induction xs arbitrary: ys s t)
  case (Cons x xs)
  then show ?case
    by (cases "g x t") (auto simp: rbind_def)
qed simp

lemma result_fold_append:
  "result_fold f (xs @ ys) s = rbind (result_fold f xs s) (\<lambda>s'. result_fold f ys s')"
  by (induction xs arbitrary: s) (auto simp: rbind_def split: sum.splits)

lemma result_fold_invariant:
  assumes "result_fold f xs s = Inr t" "I s" "\<And>x s s'. x \<in> set xs \<Longrightarrow> I s \<Longrightarrow> f x s = Inr s' \<Longrightarrow> I s'"
  shows "I t"
  using assms by (induction xs arbitrary: s) auto

text \<open>A loop body that passes an early answer on: the loop went through when the answer was not taken.\<close>

lemma outcome_case_Inr_iff:
  "(case x of Inl r \<Rightarrow> Inr (Inl r) | Inr v \<Rightarrow> g v) = Inr (Inr y) \<longleftrightarrow> (\<exists>v. x = Inr v \<and> g v = Inr (Inr y))"
  by (cases x) auto

subsection \<open>Tables and dicts\<close>

text \<open>
  What a client of a keyed table relies on: a value read back under the key it was written with,
  every other key untouched.
\<close>

locale keyed_store =
  fixes put :: "'k \<Rightarrow> 'v \<Rightarrow> 's \<Rightarrow> 's"
    and get :: "'s \<Rightarrow> 'k \<Rightarrow> 'v option"
  assumes get_put_same: "get (put k v s) k = Some v"
    and get_put_other: "k' \<noteq> k \<Longrightarrow> get (put k v s) k' = get s k'"
begin

lemma get_put: "get (put k v s) k' = (if k' = k then Some v else get s k')"
  by (simp add: get_put_same get_put_other)

lemma get_put_cases:
  assumes "get (put k v s) k' = Some w"
  obtains "k' = k" "w = v" | "k' \<noteq> k" "get s k' = Some w"
  using assms by (auto simp: get_put split: if_splits)

lemma all_put:
  assumes "P k v" and "\<And>k' w. get s k' = Some w \<Longrightarrow> P k' w" and "get (put k v s) k' = Some w"
  shows "P k' w"
  using assms by (auto elim: get_put_cases)

end

interpretation dict: keyed_store AList.update map_of
  by unfold_locales (auto simp: update_conv')

lemma AList_update_keys [simp]: "fst ` set (AList.update k v xs) = insert k (fst ` set xs)"
  by (induction xs) auto

lemma AList_update_absent: "k \<notin> fst ` set xs \<Longrightarrow> AList.update k v xs = xs @ [(k, v)]"
  by (induction xs) auto

lemma distinct_AList_update [simp]: "distinct (map fst xs) \<Longrightarrow> distinct (map fst (AList.update k v xs))"
  by (rule distinct_update)

subsection \<open>Text\<close>

text \<open>\<open>str.isspace\<close> on code points below 256, and \<open>not value.strip()\<close>.\<close>

definition py_space :: "char \<Rightarrow> bool" where
  "py_space ch \<longleftrightarrow> (let n = of_char ch :: nat in 9 \<le> n \<and> n \<le> 13 \<or> 28 \<le> n \<and> n \<le> 32 \<or> n = 133 \<or> n = 160)"

definition blank :: "string \<Rightarrow> bool" where
  "blank s \<longleftrightarrow> list_all py_space s"

lemma blank_Nil [simp]: "blank []"
  by (simp add: blank_def)

fun string_of_nat :: "nat \<Rightarrow> string" where
  "string_of_nat n =
     (if n < 10 then [char_of (48 + n)]
      else string_of_nat (n div 10) @ [char_of (48 + n mod 10)])"

declare string_of_nat.simps [simp del]

definition string_of_int :: "int \<Rightarrow> string" where
  "string_of_int i = (if i < 0 then CHR ''-'' # string_of_nat (nat (- i)) else string_of_nat (nat i))"

text \<open>\<open>sep.join(xs)\<close>.\<close>

fun join_text :: "string \<Rightarrow> string list \<Rightarrow> string" where
  "join_text sep [] = []"
| "join_text sep [x] = x"
| "join_text sep (x # y # xs) = x @ sep @ join_text sep (y # xs)"

subsection \<open>Signed 64-bit range\<close>

definition INT64_MIN :: int where
  "INT64_MIN = - (2 ^ 63)"

definition INT64_MAX :: int where
  "INT64_MAX = 2 ^ 63 - 1"

definition in_int64 :: "int \<Rightarrow> bool" where
  "in_int64 x \<longleftrightarrow> INT64_MIN \<le> x \<and> x \<le> INT64_MAX"

lemmas int64_defs = in_int64_def INT64_MIN_def INT64_MAX_def

subsection \<open>Sorted copies and first occurrences\<close>

text \<open>The keys of a dict filled by a loop: first occurrences, in order.\<close>

fun first_occurrences :: "'a list \<Rightarrow> 'a list" where
  "first_occurrences [] = []"
| "first_occurrences (x # xs) = x # filter (\<lambda>y. y \<noteq> x) (first_occurrences xs)"

lemma set_first_occurrences [simp]: "set (first_occurrences xs) = set xs"
  by (induction xs) auto

lemma distinct_first_occurrences [simp]: "distinct (first_occurrences xs)"
  by (induction xs) auto

lemma first_occurrences_distinct: "distinct xs \<Longrightarrow> first_occurrences xs = xs"
  by (induction xs) (auto intro: filter_True)

lemma sort_key_sorted_id: "sorted (map f xs) \<Longrightarrow> sort_key f xs = xs"
  by (induction xs) (auto simp: insort_is_Cons)

lemma sort_key_idem [simp]: "sort_key f (sort_key f xs) = sort_key f xs"
  by (rule sort_key_sorted_id) simp

lemma distinct_map_sort: "distinct (map f (sort_key g xs)) \<longleftrightarrow> distinct (map f xs)"
  by (simp add: distinct_map)

text \<open>With distinct keys the sorted copy depends on the elements only, not on their order.\<close>

lemma sort_key_mset_cong:
  assumes "mset xs = mset ys" "distinct (map f xs)"
  shows "sort_key f xs = sort_key f ys"
  using assms by (intro sort_key_inj_key_eq) (simp_all add: distinct_map)

end
