(* ===== verification/Episodes.thy ===== *)
theory Episodes
  imports Py_Prelude
begin

section \<open>Opportunity episodes\<close>

text \<open>
  The episode tracker of \<^verbatim>\<open>prediction_n_leg_episodes.py\<close>: one record per component, opened by
  the first qualified snapshot, closed by a window of fresh negative proofs or by the retirement of
  the component, and mirrored into the episode table. Every public method runs under the tracker's
  lock, so a run is a sequence of whole operations.

  \<^item> Datetimes are \<open>instant\<close>s; \<open>would_submit_ready_seconds\<close> and durations are counted in
    microseconds, the exact value behind the floats of the source; \<open>gap_seconds\<close> is the whole number that the safety configuration gives.
  \<^item> Profits are finite decimals that the code only compares: \<open>rat\<close>.
  \<^item> The plan snapshot is the text \<open>json.dumps\<close> returns; a fresh \<open>uuid4().hex\<close> is the argument
    \<open>new_id\<close> of the operation that draws it.
  \<^item> A row of the table is the record it was written from (the text encoding of the columns is
    the identity here); the upsert keeps the row's position, a new row goes to the end.
\<close>

subsection \<open>Data\<close>

datatype CloseReason = CLOSE_NO_QUALIFIED_OPPORTUNITY | CLOSE_COMPONENT_RETIRED

datatype EpisodeStatus = STATUS_ONGOING | STATUS_CLOSED

record EpisodeRecord =
  opportunity_episode_id :: string
  episode_lineage_id :: string
  component_id :: string
  component_generation :: int
  model_fingerprint :: "string option"
  quote_fingerprint :: "string option"
  qualification_fingerprint :: "string option"
  qualification_policy_version :: "string option"
  opened_at :: instant
  last_seen_at :: instant
  updated_at :: instant
  closed_at :: "instant option"
  close_reason :: "CloseReason option"
  best_guaranteed_profit :: "rat option"
  worst_guaranteed_profit :: "rat option"
  would_submit_ready_seconds :: int
  would_submit_ready_since :: "instant option"
  would_submit_plan_snapshot :: "string option"
  negative_close_started_at :: "instant option"

definition status :: "EpisodeRecord \<Rightarrow> EpisodeStatus" where
  "status r = (if closed_at r \<noteq> None then STATUS_CLOSED else STATUS_ONGOING)"

record ProofRow =
  proof_episode_id :: string
  proof_recorded_at :: instant
  proof_fingerprint :: string
  proof_generation :: "int option"
  proof_model_fingerprint :: "string option"
  proof_quote_fingerprint :: "string option"
  proof_qualification_fingerprint :: "string option"

record EpisodeStore =
  episode_rows :: "(string \<times> EpisodeRecord) list"
  proof_rows :: "ProofRow list"

record EpisodeTracker =
  store :: "EpisodeStore option"
  episodes :: "(string \<times> EpisodeRecord) list"

text \<open>The identity facts a qualified observation carries (\<open>fingerprints.get(...)\<close>).\<close>

record Fingerprints =
  fp_component_generation :: "int option"
  fp_model_fingerprint :: "string option"
  fp_quote_fingerprint :: "string option"
  fp_qualification_fingerprint :: "string option"
  fp_qualification_policy_version :: "string option"

text \<open>The keyword arguments of \<open>observe_negative\<close>.\<close>

record NegativeProof =
  np_proof_fingerprint :: string
  np_generation :: "int option"
  np_model_fingerprint :: "string option"
  np_quote_fingerprint :: "string option"
  np_qualification_fingerprint :: "string option"
  np_binding_matches :: bool
  np_quote_fresh :: bool
  np_gap_seconds :: int
  np_qualification_policy_version :: "string option"

subsection \<open>The table\<close>

definition save_episode :: "EpisodeRecord \<Rightarrow> EpisodeStore \<Rightarrow> EpisodeStore" where
  "save_episode r s =
     s\<lparr>episode_rows := AList.update (opportunity_episode_id r) r (episode_rows s)\<rparr>"

definition record_proof :: "ProofRow \<Rightarrow> EpisodeStore \<Rightarrow> EpisodeStore" where
  "record_proof p s = s\<lparr>proof_rows := proof_rows s @ [p]\<rparr>"

definition store_load_open :: "EpisodeStore \<Rightarrow> (string \<times> EpisodeRecord) list" where
  "store_load_open s =
     fold (\<lambda>r m. AList.update (component_id r) r m)
       (filter (\<lambda>r. closed_at r = None) (map snd (episode_rows s))) []"

definition proofs_for_episode :: "EpisodeStore \<Rightarrow> string \<Rightarrow> ProofRow list" where
  "proofs_for_episode s e = filter (\<lambda>p. proof_episode_id p = e) (proof_rows s)"

subsection \<open>Internals of the tracker\<close>

definition persist :: "EpisodeRecord \<Rightarrow> EpisodeTracker \<Rightarrow> EpisodeTracker" where
  "persist r t = (case store t of None \<Rightarrow> t | Some s \<Rightarrow> t\<lparr>store := Some (save_episode r s)\<rparr>)"

text \<open>The dict holds the record that the operations mutate: writing a field writes the dict entry.\<close>

definition put_episode :: "string \<Rightarrow> EpisodeRecord \<Rightarrow> EpisodeTracker \<Rightarrow> EpisodeTracker" where
  "put_episode c r t = t\<lparr>episodes := AList.update c r (episodes t)\<rparr>"

definition episode :: "EpisodeTracker \<Rightarrow> string \<Rightarrow> EpisodeRecord option" where
  "episode t c = map_of (episodes t) c"

definition open_episode :: "EpisodeTracker \<Rightarrow> string \<Rightarrow> EpisodeRecord option" where
  "open_episode t c =
     (case episode t c of
        None \<Rightarrow> None
      | Some r \<Rightarrow> if closed_at r \<noteq> None then None else Some r)"

definition apply_would_submit :: "EpisodeRecord \<Rightarrow> bool \<Rightarrow> instant \<Rightarrow> EpisodeRecord" where
  "apply_would_submit r would_submit now =
     (if would_submit \<and> would_submit_ready_since r = None
      then r\<lparr>would_submit_ready_since := Some now\<rparr>
      else if \<not> would_submit
      then (case would_submit_ready_since r of
              None \<Rightarrow> r
            | Some since \<Rightarrow>
                r\<lparr>would_submit_ready_seconds := would_submit_ready_seconds r + (now - since),
                  would_submit_ready_since := None\<rparr>)
      else r)"

definition reset_negative_timer :: "EpisodeRecord \<Rightarrow> EpisodeRecord" where
  "reset_negative_timer r = r\<lparr>negative_close_started_at := None\<rparr>"

definition close_episode ::
  "string \<Rightarrow> EpisodeRecord \<Rightarrow> CloseReason \<Rightarrow> instant \<Rightarrow> EpisodeTracker \<Rightarrow> EpisodeTracker" where
  "close_episode c r reason now t =
     (let r1 = r\<lparr>closed_at := Some now, close_reason := Some reason, updated_at := now\<rparr>;
          r2 = apply_would_submit r1 False now;
          r3 = r2\<lparr>negative_close_started_at := None\<rparr>
      in persist r3 (put_episode c r3 t))"

definition rebind_generation_or_policy :: "EpisodeRecord \<Rightarrow> NegativeProof \<Rightarrow> EpisodeRecord" where
  "rebind_generation_or_policy r p =
     (let generation_changed =
            (case np_generation p of None \<Rightarrow> False | Some g \<Rightarrow> g \<noteq> component_generation r);
          r1 = (if generation_changed then r\<lparr>component_generation := the (np_generation p)\<rparr> else r);
          policy_changed =
            (np_qualification_policy_version p \<noteq> None
             \<and> np_qualification_policy_version p \<noteq> qualification_policy_version r1);
          r2 = (if policy_changed
                then r1\<lparr>qualification_policy_version := np_qualification_policy_version p\<rparr> else r1)
      in if generation_changed \<or> policy_changed
         then r2\<lparr>model_fingerprint := np_model_fingerprint p,
                 quote_fingerprint := np_quote_fingerprint p,
                 qualification_fingerprint := np_qualification_fingerprint p,
                 negative_close_started_at := None\<rparr>
         else r2)"

subsection \<open>State transitions\<close>

definition observe_qualified ::
  "string \<Rightarrow> string \<Rightarrow> rat \<Rightarrow> bool \<Rightarrow> string option \<Rightarrow> Fingerprints \<Rightarrow> string \<Rightarrow> instant
     \<Rightarrow> EpisodeTracker \<Rightarrow> EpisodeTracker" where
  "observe_qualified c lineage_id profit would_submit plan_snapshot fps new_id now t =
     (let generation = (case fp_component_generation fps of None \<Rightarrow> 0 | Some g \<Rightarrow> g);
          r = (case open_episode t c of
                 None \<Rightarrow>
                   \<lparr>opportunity_episode_id = new_id,
                    episode_lineage_id = (if lineage_id = [] then c else lineage_id),
                    component_id = c,
                    component_generation = generation,
                    model_fingerprint = fp_model_fingerprint fps,
                    quote_fingerprint = fp_quote_fingerprint fps,
                    qualification_fingerprint = fp_qualification_fingerprint fps,
                    qualification_policy_version = fp_qualification_policy_version fps,
                    opened_at = now, last_seen_at = now, updated_at = now,
                    closed_at = None, close_reason = None,
                    best_guaranteed_profit = Some profit,
                    worst_guaranteed_profit = Some profit,
                    would_submit_ready_seconds = 0,
                    would_submit_ready_since = None,
                    would_submit_plan_snapshot = plan_snapshot,
                    negative_close_started_at = None\<rparr>
               | Some r \<Rightarrow>
                   r\<lparr>last_seen_at := now, updated_at := now,
                     component_generation := generation,
                     model_fingerprint := fp_model_fingerprint fps,
                     quote_fingerprint := fp_quote_fingerprint fps,
                     qualification_fingerprint := fp_qualification_fingerprint fps,
                     qualification_policy_version := fp_qualification_policy_version fps,
                     best_guaranteed_profit :=
                       (case best_guaranteed_profit r of
                          None \<Rightarrow> Some profit
                        | Some b \<Rightarrow> if profit > b then Some profit else Some b),
                     worst_guaranteed_profit :=
                       (case worst_guaranteed_profit r of
                          None \<Rightarrow> Some profit
                        | Some w \<Rightarrow> if profit < w then Some profit else Some w)\<rparr>);
          r1 = r\<lparr>negative_close_started_at := None\<rparr>;
          r2 = apply_would_submit r1 would_submit now
      in persist r2 (put_episode c r2 t))"

definition accepted :: "NegativeProof \<Rightarrow> bool" where
  "accepted p \<longleftrightarrow> np_binding_matches p \<and> np_quote_fresh p"

definition observe_negative ::
  "string \<Rightarrow> NegativeProof \<Rightarrow> instant \<Rightarrow> EpisodeTracker \<Rightarrow> EpisodeTracker" where
  "observe_negative c p now t =
     (case open_episode t c of
        None \<Rightarrow> t
      | Some r \<Rightarrow>
          if \<not> accepted p then
            (if negative_close_started_at r \<noteq> None
             then let r1 = (reset_negative_timer r)\<lparr>updated_at := now\<rparr>
                  in persist r1 (put_episode c r1 t)
             else t)
          else
            (let r1 = rebind_generation_or_policy r p;
                 row = \<lparr>proof_episode_id = opportunity_episode_id r1,
                        proof_recorded_at = now,
                        proof_fingerprint = np_proof_fingerprint p,
                        proof_generation = np_generation p,
                        proof_model_fingerprint = np_model_fingerprint p,
                        proof_quote_fingerprint = np_quote_fingerprint p,
                        proof_qualification_fingerprint = np_qualification_fingerprint p\<rparr>;
                 t1 = put_episode c r1
                        (t\<lparr>store := map_option (record_proof row) (store t)\<rparr>)
             in case negative_close_started_at r1 of
                  None \<Rightarrow>
                    (let r2 = r1\<lparr>negative_close_started_at := Some now, updated_at := now\<rparr>
                     in persist r2 (put_episode c r2 t1))
                | Some started \<Rightarrow>
                    (if now - started \<ge> np_gap_seconds p * usec_per_second
                     then close_episode c r1 CLOSE_NO_QUALIFIED_OPPORTUNITY now t1
                     else t1)))"

definition observe_would_submit ::
  "string \<Rightarrow> bool \<Rightarrow> instant \<Rightarrow> EpisodeTracker \<Rightarrow> EpisodeTracker" where
  "observe_would_submit c would_submit now t =
     (case open_episode t c of
        None \<Rightarrow> t
      | Some r \<Rightarrow>
          (let r1 = apply_would_submit r would_submit now
           in if would_submit_ready_since r1 \<noteq> would_submit_ready_since r
              then (let r2 = r1\<lparr>updated_at := now\<rparr> in persist r2 (put_episode c r2 t))
              else t))"

definition clear_negative_window :: "string \<Rightarrow> instant \<Rightarrow> EpisodeTracker \<Rightarrow> EpisodeTracker" where
  "clear_negative_window c now t =
     (case open_episode t c of
        None \<Rightarrow> t
      | Some r \<Rightarrow>
          if negative_close_started_at r = None then t
          else (let r1 = (reset_negative_timer r)\<lparr>updated_at := now\<rparr>
                in persist r1 (put_episode c r1 t)))"

definition mark_quote_stale :: "string \<Rightarrow> instant \<Rightarrow> EpisodeTracker \<Rightarrow> EpisodeTracker" where
  "mark_quote_stale c now t = clear_negative_window c now t"

definition observe_unknown :: "string \<Rightarrow> instant \<Rightarrow> EpisodeTracker \<Rightarrow> EpisodeTracker" where
  "observe_unknown c now t = clear_negative_window c now t"

definition component_retired :: "string \<Rightarrow> instant \<Rightarrow> EpisodeTracker \<Rightarrow> EpisodeTracker" where
  "component_retired c now t =
     (case open_episode t c of
        None \<Rightarrow> t
      | Some r \<Rightarrow> close_episode c r CLOSE_COMPONENT_RETIRED now t)"

definition loaded_record :: "instant \<Rightarrow> string \<Rightarrow> EpisodeRecord \<Rightarrow> EpisodeRecord" where
  "loaded_record load_at c row =
     row\<lparr>component_id := c, updated_at := load_at, closed_at := None, close_reason := None,
         would_submit_ready_since := None, negative_close_started_at := None\<rparr>"

definition load_open ::
  "instant \<Rightarrow> EpisodeTracker \<Rightarrow> EpisodeTracker \<times> (string \<times> EpisodeRecord) list" where
  "load_open load_at t =
     (let rows = (case store t of None \<Rightarrow> [] | Some s \<Rightarrow> store_load_open s);
          loaded = map (\<lambda>(c, row). (c, loaded_record load_at c row)) rows
      in (fold (\<lambda>(c, r) t'. put_episode c r t') loaded t, loaded))"

subsection \<open>Read seams\<close>

definition open_component_ids :: "EpisodeTracker \<Rightarrow> string list" where
  "open_component_ids t = sort (map fst (filter (\<lambda>(c, r). closed_at r = None) (episodes t)))"

record EpisodeProjection =
  pj_opportunity_episode_id :: string
  pj_episode_lineage_id :: string
  pj_status :: EpisodeStatus
  pj_opened_at :: instant
  pj_duration_seconds :: int
  pj_would_submit_ready_seconds :: int
  pj_best_guaranteed_profit :: "rat option"
  pj_close_reason :: "CloseReason option"

definition project_record :: "instant \<Rightarrow> EpisodeRecord \<Rightarrow> EpisodeProjection" where
  "project_record now r =
     \<lparr>pj_opportunity_episode_id = opportunity_episode_id r,
      pj_episode_lineage_id = episode_lineage_id r,
      pj_status = status r,
      pj_opened_at = opened_at r,
      pj_duration_seconds =
        (case closed_at r of Some c \<Rightarrow> c - opened_at r | None \<Rightarrow> now - opened_at r),
      pj_would_submit_ready_seconds =
        (case closed_at r of
           Some c \<Rightarrow> would_submit_ready_seconds r
         | None \<Rightarrow> would_submit_ready_seconds r
             + (case would_submit_ready_since r of None \<Rightarrow> 0 | Some since \<Rightarrow> now - since)),
      pj_best_guaranteed_profit = best_guaranteed_profit r,
      pj_close_reason = close_reason r\<rparr>"

definition project :: "instant \<Rightarrow> EpisodeTracker \<Rightarrow> (string \<times> EpisodeProjection) list" where
  "project now t = map (\<lambda>(c, r). (c, project_record now r)) (episodes t)"

subsection \<open>Runs\<close>

text \<open>
  A run is a list of tracker calls. \<open>Restart\<close> is a new process on the same table: the constructor's
  empty dict followed by \<open>load_open\<close>.
\<close>

datatype event =
    Qualified string string rat bool "string option" Fingerprints string instant
  | Negative string NegativeProof instant
  | WouldSubmit string bool instant
  | QuoteStale string instant
  | Unknown string instant
  | Retired string instant
  | Restart instant

fun step :: "event \<Rightarrow> EpisodeTracker \<Rightarrow> EpisodeTracker" where
  "step (Qualified c l p w s f i now) t = observe_qualified c l p w s f i now t"
| "step (Negative c p now) t = observe_negative c p now t"
| "step (WouldSubmit c w now) t = observe_would_submit c w now t"
| "step (QuoteStale c now) t = mark_quote_stale c now t"
| "step (Unknown c now) t = observe_unknown c now t"
| "step (Retired c now) t = component_retired c now t"
| "step (Restart now) t = fst (load_open now (t\<lparr>episodes := []\<rparr>))"

fun event_time :: "event \<Rightarrow> instant" where
  "event_time (Qualified c l p w s f i now) = now"
| "event_time (Negative c p now) = now"
| "event_time (WouldSubmit c w now) = now"
| "event_time (QuoteStale c now) = now"
| "event_time (Unknown c now) = now"
| "event_time (Retired c now) = now"
| "event_time (Restart now) = now"

text \<open>The episode ids the table knows: an opening draws an id outside them (\<open>uuid4\<close>).\<close>

definition rows :: "EpisodeTracker \<Rightarrow> string \<Rightarrow> EpisodeRecord option" where
  "rows t = (case store t of None \<Rightarrow> Map.empty | Some s \<Rightarrow> map_of (episode_rows s))"

fun fresh_event :: "EpisodeTracker \<Rightarrow> event \<Rightarrow> bool" where
  "fresh_event t (Qualified c l p w s f i now) \<longleftrightarrow> rows t i = None"
| "fresh_event t e \<longleftrightarrow> True"

definition empty_tracker :: EpisodeTracker where
  "empty_tracker = \<lparr>store = Some \<lparr>episode_rows = [], proof_rows = []\<rparr>, episodes = []\<rparr>"

text \<open>Reachable trackers: the events so far, the time of the last one, and the tracker they lead to.\<close>

inductive reachable :: "event list \<Rightarrow> instant \<Rightarrow> EpisodeTracker \<Rightarrow> bool" where
  start: "reachable [] T empty_tracker"
| step: "reachable es T t \<Longrightarrow> fresh_event t e \<Longrightarrow> T \<le> event_time e
    \<Longrightarrow> reachable (es @ [e]) (event_time e) (step e t)"

subsection \<open>What the operations read back\<close>

lemma store_put_episode [simp]: "store (put_episode c r t) = store t"
  by (simp add: put_episode_def)

lemma store_persist [simp]: "store (persist r t) = map_option (save_episode r) (store t)"
  by (simp add: persist_def split: option.splits)

lemma episode_persist [simp]: "episode (persist r t) = episode t"
  by (simp add: persist_def episode_def fun_eq_iff split: option.splits)

interpretation episode_dict: keyed_store put_episode episode
  by unfold_locales (auto simp: put_episode_def episode_def update_conv')

lemma rows_put_episode [simp]: "rows (put_episode c r t) = rows t"
  by (simp add: rows_def)

lemma rows_persist:
  "rows (persist r t) = (if store t = None then rows t else (rows t)(opportunity_episode_id r \<mapsto> r))"
  by (auto simp: rows_def save_episode_def fun_eq_iff dict.get_put split: option.splits)

lemma rows_record_proof [simp]:
  "rows (t\<lparr>store := map_option (record_proof p) (store t)\<rparr>) = rows t"
  "store t = Some s \<Longrightarrow> rows (t\<lparr>store := Some (record_proof p s)\<rparr>) = rows t"
  by (simp_all add: rows_def record_proof_def split: option.splits)

lemma episode_store_update [simp]: "episode (t\<lparr>store := s\<rparr>) = episode t"
  by (simp add: episode_def fun_eq_iff)

lemma open_episode_Some_iff:
  "open_episode t c = Some r \<longleftrightarrow> episode t c = Some r \<and> closed_at r = None"
  by (auto simp: open_episode_def split: option.splits)

lemma open_episode_cong: "episode t c = episode t' c \<Longrightarrow> open_episode t c = open_episode t' c"
  by (simp add: open_episode_def)

text \<open>The mutated record goes to the dict and to the table in one step.\<close>

abbreviation save :: "string \<Rightarrow> EpisodeRecord \<Rightarrow> EpisodeTracker \<Rightarrow> EpisodeTracker" where
  "save c r t \<equiv> persist r (put_episode c r t)"

lemma rebind_running_window:
  "negative_close_started_at (rebind_generation_or_policy r p) = Some s
     \<Longrightarrow> rebind_generation_or_policy r p = r"
  by (auto simp: rebind_generation_or_policy_def Let_def split: if_splits option.splits)

lemma rebind_frame [simp]:
  "opportunity_episode_id (rebind_generation_or_policy r p) = opportunity_episode_id r"
  "episode_lineage_id (rebind_generation_or_policy r p) = episode_lineage_id r"
  "component_id (rebind_generation_or_policy r p) = component_id r"
  "opened_at (rebind_generation_or_policy r p) = opened_at r"
  "last_seen_at (rebind_generation_or_policy r p) = last_seen_at r"
  "closed_at (rebind_generation_or_policy r p) = closed_at r"
  "close_reason (rebind_generation_or_policy r p) = close_reason r"
  "best_guaranteed_profit (rebind_generation_or_policy r p) = best_guaranteed_profit r"
  "worst_guaranteed_profit (rebind_generation_or_policy r p) = worst_guaranteed_profit r"
  "would_submit_ready_seconds (rebind_generation_or_policy r p) = would_submit_ready_seconds r"
  "would_submit_ready_since (rebind_generation_or_policy r p) = would_submit_ready_since r"
  "would_submit_plan_snapshot (rebind_generation_or_policy r p) = would_submit_plan_snapshot r"
  by (simp_all add: rebind_generation_or_policy_def Let_def)

lemma apply_would_submit_frame [simp]:
  "opportunity_episode_id (apply_would_submit r w now) = opportunity_episode_id r"
  "episode_lineage_id (apply_would_submit r w now) = episode_lineage_id r"
  "component_id (apply_would_submit r w now) = component_id r"
  "component_generation (apply_would_submit r w now) = component_generation r"
  "qualification_policy_version (apply_would_submit r w now) = qualification_policy_version r"
  "opened_at (apply_would_submit r w now) = opened_at r"
  "last_seen_at (apply_would_submit r w now) = last_seen_at r"
  "updated_at (apply_would_submit r w now) = updated_at r"
  "closed_at (apply_would_submit r w now) = closed_at r"
  "close_reason (apply_would_submit r w now) = close_reason r"
  "best_guaranteed_profit (apply_would_submit r w now) = best_guaranteed_profit r"
  "worst_guaranteed_profit (apply_would_submit r w now) = worst_guaranteed_profit r"
  "negative_close_started_at (apply_would_submit r w now) = negative_close_started_at r"
  by (simp_all add: apply_would_submit_def split: option.splits)

lemma apply_would_submit_False_since [simp]:
  "would_submit_ready_since (apply_would_submit r False now) = None"
  by (simp add: apply_would_submit_def split: option.splits)

subsection \<open>The record invariant\<close>

text \<open>
  A closed record names its cause and has neither a running negative window nor running ready time;
  the best profit is never below the worst; the ready time that was counted fits between the opening
  and now (or the closing).
\<close>

definition lifecycle_ok :: "EpisodeRecord \<Rightarrow> bool" where
  "lifecycle_ok r \<longleftrightarrow>
     (case closed_at r of
        None \<Rightarrow> close_reason r = None
      | Some _ \<Rightarrow> close_reason r \<noteq> None \<and> negative_close_started_at r = None
                    \<and> would_submit_ready_since r = None)"

definition profits_ok :: "EpisodeRecord \<Rightarrow> bool" where
  "profits_ok r \<longleftrightarrow>
     (case (best_guaranteed_profit r, worst_guaranteed_profit r) of
        (Some b, Some w) \<Rightarrow> w \<le> b | _ \<Rightarrow> False)"

definition ready_time_ok :: "instant \<Rightarrow> EpisodeRecord \<Rightarrow> bool" where
  "ready_time_ok T r \<longleftrightarrow>
     0 \<le> would_submit_ready_seconds r \<and>
     (case closed_at r of
        Some c \<Rightarrow> c \<le> T \<and> would_submit_ready_seconds r \<le> c - opened_at r
      | None \<Rightarrow> opened_at r \<le> T \<and>
          (case would_submit_ready_since r of
             None \<Rightarrow> would_submit_ready_seconds r \<le> T - opened_at r
           | Some since \<Rightarrow> since \<le> T \<and> would_submit_ready_seconds r \<le> since - opened_at r))"

definition record_ok :: "instant \<Rightarrow> EpisodeRecord \<Rightarrow> bool" where
  "record_ok T r \<longleftrightarrow> lifecycle_ok r \<and> profits_ok r \<and> ready_time_ok T r"

lemmas record_ok_defs = record_ok_def lifecycle_ok_def profits_ok_def ready_time_ok_def

lemma record_ok_mono: "record_ok T r \<Longrightarrow> T \<le> T' \<Longrightarrow> record_ok T' r"
  by (auto simp: record_ok_defs split: option.splits)

lemma record_ok_apply_would_submit:
  assumes "record_ok T r" "T \<le> now" "closed_at r = None"
  shows "record_ok now (apply_would_submit r w now)"
  using assms by (auto simp: record_ok_defs apply_would_submit_def split: option.splits)

lemma record_ok_rebind: "record_ok T r \<Longrightarrow> record_ok T (rebind_generation_or_policy r p)"
  by (cases "closed_at r")
     (auto simp: record_ok_defs rebind_generation_or_policy_def Let_def split: option.splits)

text \<open>How an operation at time \<open>now\<close> may change the open record of a component.\<close>

definition evolves :: "instant \<Rightarrow> EpisodeRecord \<Rightarrow> EpisodeRecord \<Rightarrow> bool" where
  "evolves now r r' \<longleftrightarrow>
     opportunity_episode_id r' = opportunity_episode_id r
     \<and> component_id r' = component_id r
     \<and> opened_at r' = opened_at r
     \<and> (\<forall>T. record_ok T r \<longrightarrow> closed_at r = None \<longrightarrow> T \<le> now \<longrightarrow> record_ok now r')"

lemma evolves_close:
  "evolves now r
     ((apply_would_submit (r\<lparr>closed_at := Some now, close_reason := Some x, updated_at := now\<rparr>) False now)
       \<lparr>negative_close_started_at := None\<rparr>)"
  by (auto simp: evolves_def record_ok_defs apply_would_submit_def split: option.splits)

subsection \<open>Every operation writes at most one record\<close>

inductive tracker_change :: "instant \<Rightarrow> EpisodeTracker \<Rightarrow> EpisodeTracker \<Rightarrow> bool"
  for now :: instant and t t' :: EpisodeTracker where
  same: "episode t' = episode t \<Longrightarrow> rows t' = rows t \<Longrightarrow> tracker_change now t t'"
| opened: "open_episode t c = None \<Longrightarrow> rows t (opportunity_episode_id r) = None
    \<Longrightarrow> component_id r = c \<Longrightarrow> closed_at r = None \<Longrightarrow> record_ok now r
    \<Longrightarrow> episode t' = (episode t)(c \<mapsto> r)
    \<Longrightarrow> rows t' = (rows t)(opportunity_episode_id r \<mapsto> r) \<Longrightarrow> tracker_change now t t'"
| evolved: "open_episode t c = Some r \<Longrightarrow> evolves now r r'
    \<Longrightarrow> episode t' = (episode t)(c \<mapsto> r')
    \<Longrightarrow> rows t' = (rows t)(opportunity_episode_id r \<mapsto> r') \<Longrightarrow> tracker_change now t t'"

lemma episode_put_episode [simp]: "episode (put_episode c r t) = (episode t)(c \<mapsto> r)"
  by (auto simp: episode_dict.get_put)

lemma tracker_change_save:
  assumes "open_episode t c = Some r" "evolves now r r'"
    and other: "(episode t')(c := None) = (episode t)(c := None)"
    and "rows t' = rows t" "store t' \<noteq> None"
  shows "tracker_change now t (save c r' t')"
proof -
  from other have "(episode t')(c \<mapsto> r') = (episode t)(c \<mapsto> r')"
    by (metis fun_upd_upd)
  with assms show ?thesis
    by (intro tracker_change.evolved [of t c r now r']) (auto simp: rows_persist evolves_def)
qed

lemma evolves_reset:
  "evolves now r ((reset_negative_timer r)\<lparr>updated_at := now\<rparr>)"
  by (auto simp: evolves_def reset_negative_timer_def record_ok_defs split: option.splits)

lemma evolves_ready: "evolves now r ((apply_would_submit r w now)\<lparr>updated_at := now\<rparr>)"
  by (auto simp: evolves_def record_ok_defs apply_would_submit_def split: option.splits)

lemma evolves_start_window:
  "evolves now r ((rebind_generation_or_policy r p)\<lparr>negative_close_started_at := Some now, updated_at := now\<rparr>)"
  by (auto simp: evolves_def record_ok_defs split: option.splits)

lemma evolves_qualified:
  "evolves now r (apply_would_submit (r\<lparr>last_seen_at := now, updated_at := now,
     component_generation := g, model_fingerprint := m, quote_fingerprint := q,
     qualification_fingerprint := k, qualification_policy_version := v,
     best_guaranteed_profit := (case best_guaranteed_profit r of None \<Rightarrow> Some p
        | Some b \<Rightarrow> if p > b then Some p else Some b),
     worst_guaranteed_profit := (case worst_guaranteed_profit r of None \<Rightarrow> Some p
        | Some b \<Rightarrow> if p < b then Some p else Some b),
     negative_close_started_at := None\<rparr>) w now)"
  unfolding evolves_def
proof (intro conjI allI impI)
  fix T assume ok: "record_ok T r" and op: "closed_at r = None" and le: "T \<le> now"
  let ?r = "r\<lparr>last_seen_at := now, updated_at := now,
     component_generation := g, model_fingerprint := m, quote_fingerprint := q,
     qualification_fingerprint := k, qualification_policy_version := v,
     best_guaranteed_profit := (case best_guaranteed_profit r of None \<Rightarrow> Some p
        | Some b \<Rightarrow> if p > b then Some p else Some b),
     worst_guaranteed_profit := (case worst_guaranteed_profit r of None \<Rightarrow> Some p
        | Some b \<Rightarrow> if p < b then Some p else Some b),
     negative_close_started_at := None\<rparr>"
  from ok op have "record_ok T ?r"
    by (auto simp: record_ok_defs split: option.splits)
  then show "record_ok now (apply_would_submit ?r w now)"
    by (rule record_ok_apply_would_submit) (use le op in auto)
qed auto

lemma step_shape:
  assumes st: "store t \<noteq> None" and fresh: "fresh_event t e" and nr: "\<forall>now. e \<noteq> Restart now"
  shows "tracker_change (event_time e) t (step e t)"
proof (cases e)
  case (Qualified c l p w sn f i now)
  show ?thesis
  proof (cases "open_episode t c")
    case None
    then show ?thesis
      using Qualified st fresh
      by (auto simp: observe_qualified_def Let_def rows_persist record_ok_defs apply_would_submit_def
          intro!: tracker_change.opened [of t c])
  next
    case (Some r)
    have "tracker_change now t (observe_qualified c l p w sn f i now t)"
      unfolding observe_qualified_def Let_def Some option.case
      using tracker_change_save [OF Some evolves_qualified] st by simp
    then show ?thesis using Qualified by simp
  qed
next
  case (Negative c p now)
  have "tracker_change now t (observe_negative c p now t)"
  proof (cases "open_episode t c")
    case None
    then show ?thesis by (auto simp: observe_negative_def intro: tracker_change.same)
  next
    case (Some r)
    note op = this
    let ?r1 = "rebind_generation_or_policy r p"
    show ?thesis
    proof (cases "accepted p")
      case False
      then show ?thesis
        using tracker_change_save [OF op evolves_reset, of t] op st
        by (auto simp: observe_negative_def Let_def intro: tracker_change.same)
    next
      case True
      show ?thesis
      proof (cases "negative_close_started_at ?r1")
        case None
        then show ?thesis
          using True op st
          by (auto simp: observe_negative_def Let_def intro!: tracker_change_save [OF op evolves_start_window])
      next
        case (Some started)
        then have r1: "?r1 = r" by (rule rebind_running_window)
        have ep: "(episode t)(c \<mapsto> r) = episode t"
          using op by (auto simp: open_episode_Some_iff)
        show ?thesis
        proof (cases "np_gap_seconds p * usec_per_second \<le> now - started")
          case True
          then show ?thesis
            using \<open>accepted p\<close> op st Some
            by (auto simp: observe_negative_def Let_def r1 close_episode_def
                intro!: tracker_change_save [OF op evolves_close])
        next
          case False
          then show ?thesis
            using \<open>accepted p\<close> op st Some
            by (auto simp: observe_negative_def Let_def r1 ep intro!: tracker_change.same)
        qed
      qed
    qed
  qed
  then show ?thesis using Negative by simp
next
  case (WouldSubmit c w now)
  then show ?thesis
    using st by (auto simp: observe_would_submit_def Let_def split: option.splits
        intro: tracker_change.same intro!: tracker_change_save [OF _ evolves_ready])
next
  case (QuoteStale c now)
  then show ?thesis
    using st by (auto simp: mark_quote_stale_def clear_negative_window_def Let_def split: option.splits
        intro: tracker_change.same intro!: tracker_change_save [OF _ evolves_reset])
next
  case (Unknown c now)
  then show ?thesis
    using st by (auto simp: observe_unknown_def clear_negative_window_def Let_def split: option.splits
        intro: tracker_change.same intro!: tracker_change_save [OF _ evolves_reset])
next
  case (Retired c now)
  then show ?thesis
    using st by (auto simp: component_retired_def close_episode_def Let_def split: option.splits
        intro: tracker_change.same intro!: tracker_change_save [OF _ evolves_close])
next
  case (Restart now)
  with nr show ?thesis by blast
qed

subsection \<open>The table mirrors the tracker\<close>

text \<open>
  \<open>durable\<close> is what a restart keeps: the fields it resets are the write time, the running ready
  period and the running negative window.
\<close>

definition forget :: "EpisodeRecord \<Rightarrow> EpisodeRecord" where
  "forget r = r\<lparr>updated_at := 0, would_submit_ready_since := None, negative_close_started_at := None\<rparr>"

definition durable :: "EpisodeRecord \<Rightarrow> EpisodeRecord \<Rightarrow> bool" where
  "durable row r \<longleftrightarrow> forget row = forget r"

lemma durable_refl [simp]: "durable r r"
  by (simp add: durable_def)

lemma durable_fields:
  assumes "durable row r"
  shows "opportunity_episode_id row = opportunity_episode_id r" "component_id row = component_id r"
    "closed_at row = closed_at r"
proof -
  from assms have f: "forget row = forget r" by (simp add: durable_def)
  show "opportunity_episode_id row = opportunity_episode_id r"
    using arg_cong [OF f, of opportunity_episode_id] by (simp add: forget_def)
  show "component_id row = component_id r"
    using arg_cong [OF f, of component_id] by (simp add: forget_def)
  show "closed_at row = closed_at r"
    using arg_cong [OF f, of closed_at] by (simp add: forget_def)
qed

lemma loaded_record_forget: "loaded_record now c (forget r) = loaded_record now c r"
  by (simp add: loaded_record_def forget_def)

lemma durable_loaded: "durable row r \<Longrightarrow> loaded_record now c row = loaded_record now c r"
  by (metis durable_def loaded_record_forget)

lemma durable_loaded_record:
  "component_id row = c \<Longrightarrow> closed_at row = None \<Longrightarrow> close_reason row = None
     \<Longrightarrow> durable row (loaded_record now c row)"
  by (simp add: durable_def forget_def loaded_record_def)

definition dict_ok :: "instant \<Rightarrow> EpisodeTracker \<Rightarrow> bool" where
  "dict_ok T t \<longleftrightarrow>
     (\<forall>c r. episode t c = Some r \<longrightarrow>
        component_id r = c \<and> record_ok T r
        \<and> (\<exists>row. rows t (opportunity_episode_id r) = Some row \<and> durable row r))"

definition table_ok :: "instant \<Rightarrow> EpisodeTracker \<Rightarrow> bool" where
  "table_ok T t \<longleftrightarrow>
     (\<forall>i row. rows t i = Some row \<longrightarrow>
        opportunity_episode_id row = i \<and> record_ok T row
        \<and> (closed_at row = None \<longrightarrow>
             (\<exists>r. open_episode t (component_id row) = Some r \<and> opportunity_episode_id r = i)))"

lemma dict_row_component:
  assumes "dict_ok T t" "episode t c = Some r" "episode t c' = Some r'"
    and "opportunity_episode_id r = opportunity_episode_id r'"
  shows "c = c'"
proof -
  from assms(1,2) obtain row where row: "rows t (opportunity_episode_id r) = Some row" "durable row r"
    and c: "component_id r = c"
    by (auto simp: dict_ok_def)
  from assms(1,3) obtain row' where row': "rows t (opportunity_episode_id r') = Some row'" "durable row' r'"
    and c': "component_id r' = c'"
    by (auto simp: dict_ok_def)
  from row(1) row'(1) assms(4) have "row = row'" by simp
  with row(2) row'(2) c c' show ?thesis by (metis durable_fields(2))
qed

lemma dict_ok_mono: "dict_ok T t \<Longrightarrow> T \<le> T' \<Longrightarrow> dict_ok T' t"
  unfolding dict_ok_def by (meson record_ok_mono)

lemma table_ok_mono: "table_ok T t \<Longrightarrow> T \<le> T' \<Longrightarrow> table_ok T' t"
  unfolding table_ok_def by (meson record_ok_mono)

lemma table_ok_open:
  assumes "table_ok T t" "rows t i = Some row" "closed_at row = None"
  obtains r where "open_episode t (component_id row) = Some r" "opportunity_episode_id r = i"
  using assms unfolding table_ok_def by blast

lemma dict_ok_opened:
  assumes "dict_ok now t" "rows t (opportunity_episode_id r) = None" "component_id r = c" "record_ok now r"
    and "episode t' = (episode t)(c \<mapsto> r)" "rows t' = (rows t)(opportunity_episode_id r \<mapsto> r)"
  shows "dict_ok now t'"
  unfolding dict_ok_def
proof (intro allI impI)
  fix c' r' assume "episode t' c' = Some r'"
  with assms(5) consider "c' = c" "r' = r" | "c' \<noteq> c" "episode t c' = Some r'"
    by (auto split: if_splits)
  then show "component_id r' = c' \<and> record_ok now r' \<and>
      (\<exists>row. rows t' (opportunity_episode_id r') = Some row \<and> durable row r')"
  proof cases
    case 1
    then show ?thesis using assms by auto
  next
    case 2
    with assms(1) obtain row where "rows t (opportunity_episode_id r') = Some row" "durable row r'"
      "component_id r' = c'" "record_ok now r'"
      by (auto simp: dict_ok_def)
    with assms(2,6) show ?thesis by auto
  qed
qed

lemma dict_ok_evolved:
  assumes d: "dict_ok now t" and op: "episode t c = Some r" and ok: "record_ok now r'"
    and id: "opportunity_episode_id r' = opportunity_episode_id r" "component_id r' = c"
    and ep: "episode t' = (episode t)(c \<mapsto> r')" and rw: "rows t' = (rows t)(opportunity_episode_id r \<mapsto> r')"
  shows "dict_ok now t'"
  unfolding dict_ok_def
proof (intro allI impI)
  fix c' r'' assume "episode t' c' = Some r''"
  with ep consider "c' = c" "r'' = r'" | "c' \<noteq> c" "episode t c' = Some r''"
    by (auto split: if_splits)
  then show "component_id r'' = c' \<and> record_ok now r'' \<and>
      (\<exists>row. rows t' (opportunity_episode_id r'') = Some row \<and> durable row r'')"
  proof cases
    case 1
    then show ?thesis using ok id rw by auto
  next
    case 2
    then have "opportunity_episode_id r'' \<noteq> opportunity_episode_id r"
      using dict_row_component [OF d _ op] by blast
    with 2 d rw show ?thesis by (auto simp: dict_ok_def)
  qed
qed

lemma table_ok_put:
  assumes tb: "table_ok now t" and r: "record_ok now r" "component_id r = c"
    and prev: "\<And>r0. open_episode t c = Some r0 \<Longrightarrow> opportunity_episode_id r0 = opportunity_episode_id r"
    and ep: "episode t' = (episode t)(c \<mapsto> r)" and rw: "rows t' = (rows t)(opportunity_episode_id r \<mapsto> r)"
  shows "table_ok now t'"
  unfolding table_ok_def
proof (intro allI impI)
  fix i row assume "rows t' i = Some row"
  with rw consider "i = opportunity_episode_id r" "row = r"
    | "i \<noteq> opportunity_episode_id r" "rows t i = Some row"
    by (auto split: if_splits)
  then show "opportunity_episode_id row = i \<and> record_ok now row \<and> (closed_at row = None \<longrightarrow>
      (\<exists>r. open_episode t' (component_id row) = Some r \<and> opportunity_episode_id r = i))"
  proof cases
    case 1
    then show ?thesis using r ep by (auto simp: open_episode_Some_iff)
  next
    case 2
    have "\<exists>r. open_episode t' (component_id row) = Some r \<and> opportunity_episode_id r = i"
      if "closed_at row = None"
    proof -
      from tb 2 that obtain r0 where r0: "open_episode t (component_id row) = Some r0"
        "opportunity_episode_id r0 = i"
        by (auto simp: table_ok_def)
      with 2 prev have "component_id row \<noteq> c" by auto
      with r0 ep show ?thesis by (auto simp: open_episode_Some_iff)
    qed
    with 2 tb show ?thesis by (auto simp: table_ok_def)
  qed
qed

lemma tracker_change_inv:
  assumes ch: "tracker_change now t t'" and d: "dict_ok T t" and tb: "table_ok T t" and le: "T \<le> now"
  shows "dict_ok now t' \<and> table_ok now t'"
proof -
  from d le have d': "dict_ok now t" by (rule dict_ok_mono)
  from tb le have tb': "table_ok now t" by (rule table_ok_mono)
  from ch show ?thesis
  proof cases
    case same
    then have "open_episode t' c = open_episode t c" for c
      by (simp add: open_episode_def)
    with same d' tb' show ?thesis by (auto simp: dict_ok_def table_ok_def)
  next
    case (opened c r)
    then show ?thesis
      using dict_ok_opened [OF d'] table_ok_put [OF tb' _ _ _ opened(6,7)] by auto
  next
    case (evolved c r r')
    then have op: "episode t c = Some r" "closed_at r = None"
      by (auto simp: open_episode_Some_iff)
    with d evolved le have r': "record_ok now r'" "component_id r' = c"
      "opportunity_episode_id r' = opportunity_episode_id r"
      by (auto simp: evolves_def dict_ok_def)
    show ?thesis
      using dict_ok_evolved [OF d' op(1) r'(1) r'(3,2) evolved(3,4)]
        table_ok_put [OF tb' r'(1,2) _ evolved(3)] evolved r' by auto
  qed
qed

subsection \<open>Restart\<close>

lemma map_of_fold_update:
  "map_of (fold (\<lambda>r m. AList.update (f r) r m) rs m) c =
     (case filter (\<lambda>r. f r = c) rs of [] \<Rightarrow> map_of m c | ys \<Rightarrow> Some (last ys))"
proof (induction rs arbitrary: m)
  case Nil
  then show ?case by simp
next
  case (Cons r rs)
  then show ?case
    by (auto simp: dict.get_put split: list.splits)
qed

lemma map_of_store_load_open:
  assumes dist: "distinct (map fst (episode_rows s))"
    and ids: "\<And>i row i' row'. map_of (episode_rows s) i = Some row \<Longrightarrow> map_of (episode_rows s) i' = Some row'
        \<Longrightarrow> closed_at row = None \<Longrightarrow> closed_at row' = None \<Longrightarrow> component_id row = component_id row'
        \<Longrightarrow> row = row'"
  shows "map_of (store_load_open s) c = Some row \<longleftrightarrow>
     (\<exists>i. map_of (episode_rows s) i = Some row) \<and> closed_at row = None \<and> component_id row = c"
proof -
  let ?rs = "filter (\<lambda>r. component_id r = c) (filter (\<lambda>r. closed_at r = None) (map snd (episode_rows s)))"
  have mem: "r \<in> set ?rs \<longleftrightarrow>
      (\<exists>i. map_of (episode_rows s) i = Some r) \<and> closed_at r = None \<and> component_id r = c" for r
    using dist by (force simp: map_of_eq_Some_iff)
  have "map_of (store_load_open s) c = (case ?rs of [] \<Rightarrow> None | ys \<Rightarrow> Some (last ys))"
    by (simp only: store_load_open_def map_of_fold_update map_of.simps(1))
  also have "\<dots> = Some row \<longleftrightarrow> row \<in> set ?rs"
  proof (cases ?rs)
    case Nil
    then show ?thesis by simp
  next
    case (Cons r ys)
    then have last: "last ?rs \<in> set ?rs" by (metis last_in_set list.distinct(1))
    moreover have "row = last ?rs" if "row \<in> set ?rs"
      using that last ids unfolding mem by metis
    ultimately show ?thesis using Cons by (metis list.simps(5) option.inject)
  qed
  finally show ?thesis using mem by simp
qed

lemma distinct_store_load_open: "distinct (map fst (store_load_open s))"
proof -
  have "distinct (map fst m) \<Longrightarrow> distinct (map fst (fold (\<lambda>r m. AList.update (component_id r) r m) rs m))"
    for rs and m :: "(string \<times> EpisodeRecord) list"
    by (induction rs arbitrary: m) auto
  then show ?thesis by (simp add: store_load_open_def)
qed

lemma episode_fold_put:
  "distinct (map fst rs) \<Longrightarrow>
     episode (fold (\<lambda>(c, r) t'. put_episode c r t') rs t) c =
       (case map_of rs c of None \<Rightarrow> episode t c | Some r \<Rightarrow> Some r)"
proof (induction rs arbitrary: t)
  case Nil
  then show ?case by simp
next
  case (Cons p rs)
  obtain k r where p: "p = (k, r)" by (cases p)
  from Cons.prems p have "k \<notin> fst ` set rs" by simp
  then have "map_of rs k = None" by (simp add: map_of_eq_None_iff)
  with Cons p show ?case by (auto split: option.splits)
qed

lemma store_fold_put [simp]: "store (fold (\<lambda>(c, r) t'. put_episode c r t') rs t) = store t"
  by (induction rs arbitrary: t) auto

lemma map_of_map_value: "map_of (map (\<lambda>(c, v). (c, f c v)) xs) c = map_option (f c) (map_of xs c)"
  by (induction xs) auto

definition rows_distinct :: "EpisodeTracker \<Rightarrow> bool" where
  "rows_distinct t \<longleftrightarrow> (case store t of None \<Rightarrow> True | Some s \<Rightarrow> distinct (map fst (episode_rows s)))"

definition tracker_inv :: "instant \<Rightarrow> EpisodeTracker \<Rightarrow> bool" where
  "tracker_inv T t \<longleftrightarrow> store t \<noteq> None \<and> rows_distinct t \<and> dict_ok T t \<and> table_ok T t"

lemma table_open_unique:
  assumes "table_ok T t" "rows t i = Some row" "rows t i' = Some row'"
    "closed_at row = None" "closed_at row' = None" "component_id row = component_id row'"
  shows "row = row'"
  using assms unfolding table_ok_def by (metis option.inject)

lemma restart_episode:
  assumes inv: "tracker_inv T t"
  shows "episode (step (Restart now) t) c = map_option (loaded_record now c) (open_episode t c)"
proof -
  from inv obtain s where s: "store t = Some s" by (auto simp: tracker_inv_def)
  then have rows: "rows t = map_of (episode_rows s)" by (simp add: rows_def)
  from inv have d: "dict_ok T t" and tb: "table_ok T t" and "rows_distinct t"
    by (auto simp: tracker_inv_def)
  with s have dist: "distinct (map fst (episode_rows s))" by (simp add: rows_distinct_def)
  have "map_of (store_load_open s) c = Some row \<longleftrightarrow>
      (\<exists>i. rows t i = Some row) \<and> closed_at row = None \<and> component_id row = c" for row
    unfolding rows using table_open_unique [OF tb] by (intro map_of_store_load_open dist) (auto simp: rows)
  note lookup = this
  have new: "episode (step (Restart now) t) c = map_option (loaded_record now c) (map_of (store_load_open s) c)"
  proof -
    let ?loaded = "map (\<lambda>(c, row). (c, loaded_record now c row)) (store_load_open s)"
    have "map fst ?loaded = map fst (store_load_open s)"
      by (simp add: comp_def case_prod_beta)
    then have "distinct (map fst ?loaded)" by (simp only: distinct_store_load_open)
    moreover have "episode (t\<lparr>episodes := []\<rparr>) c = None" by (simp add: episode_def)
    ultimately show ?thesis
      using s episode_fold_put [of ?loaded "t\<lparr>episodes := []\<rparr>" c]
      by (simp add: load_open_def Let_def map_of_map_value split: option.splits)
  qed
  show ?thesis
  proof (cases "open_episode t c")
    case (Some r)
    then have r: "episode t c = Some r" "closed_at r = None" by (auto simp: open_episode_Some_iff)
    with d obtain row where row: "rows t (opportunity_episode_id r) = Some row" "durable row r"
      "component_id r = c"
      by (auto simp: dict_ok_def)
    with r have "map_of (store_load_open s) c = Some row"
      using lookup [of row] durable_fields [OF row(2)] by auto
    with new Some row(2) show ?thesis by (simp add: durable_loaded)
  next
    case None
    have "map_of (store_load_open s) c = None"
    proof (rule ccontr)
      assume "map_of (store_load_open s) c \<noteq> None"
      then obtain row i where "rows t i = Some row" "closed_at row = None" "component_id row = c"
        using lookup by blast
      with None show False by (metis table_ok_open [OF tb] option.distinct(1))
    qed
    with new None show ?thesis by simp
  qed
qed

lemma store_restart [simp]: "store (step (Restart now) t) = store t"
  by (simp add: load_open_def Let_def)

lemma rows_restart [simp]: "rows (step (Restart now) t) = rows t"
  by (simp only: rows_def store_restart)

lemma record_ok_loaded:
  "record_ok T r \<Longrightarrow> closed_at r = None \<Longrightarrow> T \<le> now \<Longrightarrow> record_ok now (loaded_record now c r)"
  by (auto simp: record_ok_defs loaded_record_def split: option.splits)

lemma loaded_record_frame [simp]:
  "opportunity_episode_id (loaded_record now c r) = opportunity_episode_id r"
  "component_id (loaded_record now c r) = c"
  "closed_at (loaded_record now c r) = None"
  by (simp_all add: loaded_record_def)

lemma restart_inv:
  assumes inv: "tracker_inv T t" and le: "T \<le> now"
  shows "tracker_inv now (step (Restart now) t)"
proof -
  let ?t' = "step (Restart now) t"
  from inv have d: "dict_ok T t" and tb: "table_ok T t" and st: "store t \<noteq> None" "rows_distinct t"
    by (auto simp: tracker_inv_def)
  note ep = restart_episode [OF inv, of now]
  have op: "open_episode ?t' c = map_option (loaded_record now c) (open_episode t c)" for c
    by (auto simp: open_episode_def ep simp del: step.simps split: option.splits)
  have "dict_ok now ?t'"
    unfolding dict_ok_def
  proof (intro allI impI)
    fix c r' assume "episode ?t' c = Some r'"
    then obtain r where r: "episode t c = Some r" "closed_at r = None" "r' = loaded_record now c r"
      by (auto simp: ep open_episode_Some_iff simp del: step.simps)
    with d obtain row where row: "rows t (opportunity_episode_id r) = Some row" "durable row r"
      "component_id r = c" "record_ok T r"
      by (auto simp: dict_ok_def)
    have "close_reason r = None" using row(4) r(2) by (simp add: record_ok_defs)
    then have "durable r r'" using r row by (auto intro: durable_loaded_record)
    with row r le show "component_id r' = c \<and> record_ok now r' \<and>
        (\<exists>row. rows ?t' (opportunity_episode_id r') = Some row \<and> durable row r')"
      by (auto simp: durable_def record_ok_loaded simp del: step.simps)
  qed
  moreover have "table_ok now ?t'"
    unfolding table_ok_def
  proof (intro allI impI)
    fix i row assume "rows ?t' i = Some row"
    then have row: "rows t i = Some row" by (simp only: rows_restart)
    have "\<exists>r. open_episode ?t' (component_id row) = Some r \<and> opportunity_episode_id r = i"
      if "closed_at row = None"
      using table_ok_open [OF tb row that] op [of "component_id row"]
      by (metis loaded_record_frame(1) option.simps(9))
    with row table_ok_mono [OF tb le] show "opportunity_episode_id row = i \<and> record_ok now row \<and>
        (closed_at row = None \<longrightarrow>
          (\<exists>r. open_episode ?t' (component_id row) = Some r \<and> opportunity_episode_id r = i))"
      unfolding table_ok_def by blast
  qed
  moreover have "rows_distinct ?t'"
    using st(2) by (simp add: rows_distinct_def del: step.simps)
  ultimately show ?thesis using st(1) by (simp add: tracker_inv_def del: step.simps)
qed

lemma rows_distinct_save:
  assumes "rows_distinct t" shows "rows_distinct (save c r t)"
  using assms by (auto simp: rows_distinct_def save_episode_def split: option.splits)

lemma rows_distinct_proof:
  "rows_distinct t \<Longrightarrow> rows_distinct (t\<lparr>store := map_option (record_proof p) (store t)\<rparr>)"
  by (auto simp: rows_distinct_def record_proof_def split: option.splits)

lemma rows_distinct_put: "rows_distinct (put_episode c r t) = rows_distinct t"
  by (simp add: rows_distinct_def)

lemmas rows_distinct_rules = rows_distinct_save rows_distinct_proof rows_distinct_put

lemma step_rows_distinct:
  assumes "rows_distinct t" shows "rows_distinct (step e t)"
  using assms
  by (cases e)
     (auto simp: observe_qualified_def observe_negative_def observe_would_submit_def mark_quote_stale_def
       observe_unknown_def clear_negative_window_def component_retired_def close_episode_def Let_def
       rows_distinct_def load_open_def save_episode_def record_proof_def
       split: option.splits)

lemma step_store_None: "store (step e t) = None \<longleftrightarrow> store t = None"
  by (cases e)
     (auto simp: observe_qualified_def observe_negative_def observe_would_submit_def mark_quote_stale_def
       observe_unknown_def clear_negative_window_def component_retired_def close_episode_def Let_def
       load_open_def split: option.splits)

lemma step_inv:
  assumes inv: "tracker_inv T t" and fresh: "fresh_event t e" and le: "T \<le> event_time e"
  shows "tracker_inv (event_time e) (step e t)"
proof (cases "\<exists>now. e = Restart now")
  case True
  then show ?thesis using restart_inv [OF inv] le by (auto simp del: step.simps)
next
  case False
  with inv fresh have "tracker_change (event_time e) t (step e t)"
    by (intro step_shape) (auto simp: tracker_inv_def)
  then have "dict_ok (event_time e) (step e t) \<and> table_ok (event_time e) (step e t)"
    using inv le by (intro tracker_change_inv [of _ t _ T]) (auto simp: tracker_inv_def)
  then show ?thesis
    using inv step_store_None [of e t] step_rows_distinct [of t e] by (simp add: tracker_inv_def)
qed

lemma reachable_inv: "reachable es T t \<Longrightarrow> tracker_inv T t"
proof (induction rule: reachable.induct)
  case (start T)
  show ?case
    by (simp add: tracker_inv_def empty_tracker_def rows_distinct_def dict_ok_def table_ok_def
        episode_def rows_def)
next
  case (step es T t e)
  then show ?case by (blast intro: step_inv)
qed

subsection \<open>The negative window\<close>

lemma open_episodeD:
  assumes "open_episode t c = Some r"
  shows "episode t c = Some r" "closed_at r = None"
  using assms by (auto simp: open_episode_Some_iff)

lemma open_episode_persist [simp]: "open_episode (persist r t) = open_episode t"
  by (simp add: open_episode_def fun_eq_iff)

lemma open_episode_store [simp]: "open_episode (t\<lparr>store := s\<rparr>) = open_episode t"
  by (simp add: open_episode_def fun_eq_iff)

lemma open_episode_put [simp]:
  "open_episode (put_episode c r t) c' =
     (if c' = c then if closed_at r = None then Some r else None else open_episode t c')"
  by (auto simp: open_episode_def)

text \<open>
  A running window started with an accepted proof of the record's own generation and policy, and
  since then the component has seen nothing but accepted proofs of the same identity and
  would-submit ticks.
\<close>

definition same_identity :: "EpisodeRecord \<Rightarrow> NegativeProof \<Rightarrow> bool" where
  "same_identity r p \<longleftrightarrow>
     (np_generation p = None \<or> np_generation p = Some (component_generation r))
     \<and> (np_qualification_policy_version p = None
         \<or> np_qualification_policy_version p = qualification_policy_version r)"

fun neutral :: "EpisodeRecord \<Rightarrow> string \<Rightarrow> event \<Rightarrow> bool" where
  "neutral r c (Qualified c' l p w s f i now) \<longleftrightarrow> c' \<noteq> c"
| "neutral r c (Negative c' p now) \<longleftrightarrow> c' \<noteq> c \<or> accepted p \<and> same_identity r p"
| "neutral r c (WouldSubmit c' w now) \<longleftrightarrow> True"
| "neutral r c (QuoteStale c' now) \<longleftrightarrow> c' \<noteq> c"
| "neutral r c (Unknown c' now) \<longleftrightarrow> c' \<noteq> c"
| "neutral r c (Retired c' now) \<longleftrightarrow> c' \<noteq> c"
| "neutral r c (Restart now) \<longleftrightarrow> False"

definition window_since :: "event list \<Rightarrow> string \<Rightarrow> EpisodeRecord \<Rightarrow> instant \<Rightarrow> bool" where
  "window_since es c r s \<longleftrightarrow>
     (\<exists>es1 p es2. es = es1 @ Negative c p s # es2 \<and> accepted p \<and> same_identity r p
        \<and> (\<forall>e\<in>set es2. neutral r c e))"

lemma same_identity_rebind: "same_identity (rebind_generation_or_policy r p) p"
  by (auto simp: same_identity_def rebind_generation_or_policy_def Let_def split: option.splits)

lemma rebind_same: "same_identity r p \<Longrightarrow> rebind_generation_or_policy r p = r"
  by (auto simp: same_identity_def rebind_generation_or_policy_def Let_def split: option.splits)

lemma same_identity_cong:
  "component_generation r = component_generation r' \<Longrightarrow>
     qualification_policy_version r = qualification_policy_version r' \<Longrightarrow>
     same_identity r = same_identity r'"
  by (simp add: same_identity_def fun_eq_iff)

lemma neutral_cong: "same_identity r = same_identity r' \<Longrightarrow> neutral r c e = neutral r' c e"
  by (cases e) simp_all

lemma window_since_cong:
  "same_identity r = same_identity r' \<Longrightarrow> window_since es c r s = window_since es c r' s"
  using neutral_cong [of r r'] by (simp add: window_since_def)

lemma window_since_snoc: "window_since es c r s \<Longrightarrow> neutral r c e \<Longrightarrow> window_since (es @ [e]) c r s"
  unfolding window_since_def by fastforce

lemma window_since_start:
  "accepted p \<Longrightarrow> same_identity r p \<Longrightarrow> window_since (es @ [Negative c p s]) c r s"
  unfolding window_since_def by fastforce

fun event_component :: "event \<Rightarrow> string option" where
  "event_component (Qualified c l p w s f i now) = Some c"
| "event_component (Negative c p now) = Some c"
| "event_component (WouldSubmit c w now) = Some c"
| "event_component (QuoteStale c now) = Some c"
| "event_component (Unknown c now) = Some c"
| "event_component (Retired c now) = Some c"
| "event_component (Restart now) = None"

lemma step_other_component:
  assumes "event_component e = Some c'" "c' \<noteq> c"
  shows "episode (step e t) c = episode t c"
  using assms
  by (cases e)
     (auto simp: observe_qualified_def observe_negative_def observe_would_submit_def mark_quote_stale_def
       observe_unknown_def clear_negative_window_def component_retired_def close_episode_def Let_def
       split: option.splits)

lemma neutral_other: "event_component e = Some c' \<Longrightarrow> c' \<noteq> c \<Longrightarrow> neutral r c e"
  by (cases e) auto

text \<open>The open record of the component an operation addresses, after the operation.\<close>

lemma episode_observe_negative:
  assumes "open_episode t c = Some r"
  shows "episode (observe_negative c p now t) c = Some
     (if \<not> accepted p then
        (if negative_close_started_at r \<noteq> None then (reset_negative_timer r)\<lparr>updated_at := now\<rparr> else r)
      else
        (let r1 = rebind_generation_or_policy r p in
         case negative_close_started_at r1 of
           None \<Rightarrow> r1\<lparr>negative_close_started_at := Some now, updated_at := now\<rparr>
         | Some s \<Rightarrow>
             if np_gap_seconds p * usec_per_second \<le> now - s
             then (apply_would_submit (r1\<lparr>closed_at := Some now,
                     close_reason := Some CLOSE_NO_QUALIFIED_OPPORTUNITY, updated_at := now\<rparr>) False now)
                   \<lparr>negative_close_started_at := None\<rparr>
             else r1))"
  using assms open_episodeD [OF assms]
  by (simp add: observe_negative_def close_episode_def Let_def split: option.split)

lemma window_step_negative:
  assumes op: "open_episode t c = Some r" and op': "open_episode (observe_negative c p now t) c = Some r'"
    and w: "negative_close_started_at r' = Some s"
    and IH: "\<And>s. negative_close_started_at r = Some s \<Longrightarrow> window_since es c r s"
  shows "window_since (es @ [Negative c p now]) c r' s"
proof -
  let ?r1 = "rebind_generation_or_policy r p"
  from op' w have ep: "episode (observe_negative c p now t) c = Some r'" and nc: "closed_at r' = None"
    by (auto simp: open_episode_Some_iff)
  with w have acc: "accepted p"
    unfolding episode_observe_negative [OF op]
    by (auto simp: reset_negative_timer_def split: if_splits)
  show ?thesis
  proof (cases "negative_close_started_at ?r1")
    case None
    with ep acc have r': "r' = ?r1\<lparr>negative_close_started_at := Some now, updated_at := now\<rparr>"
      by (simp add: episode_observe_negative [OF op] Let_def)
    have "same_identity r' = same_identity ?r1"
      by (rule same_identity_cong) (simp_all add: r')
    with r' w acc show ?thesis
      using same_identity_rebind [of r p] by (auto intro: window_since_start)
  next
    case (Some s')
    then have r1: "?r1 = r" by (rule rebind_running_window)
    with ep acc Some nc have "r' = r"
      by (auto simp: episode_observe_negative [OF op] Let_def split: if_splits)
    moreover have "same_identity r p" using same_identity_rebind [of r p] r1 by simp
    ultimately show ?thesis using IH w acc by (auto intro: window_since_snoc)
  qed
qed

lemma would_submit_episode:
  assumes "open_episode t c = Some r"
  shows "\<exists>r'. episode (observe_would_submit c w now t) c = Some r'
     \<and> negative_close_started_at r' = negative_close_started_at r \<and> same_identity r' = same_identity r"
  using assms open_episodeD [OF assms]
  by (auto simp: observe_would_submit_def Let_def intro!: same_identity_cong)

lemma reachable_window:
  assumes "reachable es T t" "open_episode t c = Some r" "negative_close_started_at r = Some s"
  shows "window_since es c r s"
  using assms
proof (induction arbitrary: c r s rule: reachable.induct)
  case (start T)
  then show ?case by (simp add: empty_tracker_def open_episode_def episode_def)
next
  case (step es T t e)
  show ?case
  proof (cases "event_component e")
    case None
    then obtain now where e: "e = Restart now" by (cases e) auto
    have "tracker_inv T t" using step.hyps(1) by (rule reachable_inv)
    with step.prems show ?thesis
      unfolding e open_episode_Some_iff restart_episode [OF \<open>tracker_inv T t\<close>]
      by (auto simp: loaded_record_def)
  next
    case (Some c')
    show ?thesis
    proof (cases "c' = c")
      case False
      with Some step.prems have "open_episode t c = Some r"
        by (simp add: open_episode_Some_iff step_other_component)
      with step False Some show ?thesis by (auto intro: window_since_snoc neutral_other)
    next
      case True
      show ?thesis
      proof (cases "open_episode t c")
        case None
        with step.prems True Some show ?thesis
          by (cases e) (auto simp: observe_qualified_def observe_negative_def observe_would_submit_def
            mark_quote_stale_def observe_unknown_def clear_negative_window_def component_retired_def
            Let_def split: if_splits)
      next
        case op: (Some r0)
        then have IH: "negative_close_started_at r0 = Some s \<Longrightarrow> window_since es c r0 s" for s
          by (rule step.IH)
        show ?thesis
        proof (cases e)
          case (Negative c'' p now)
          with step.prems True Some show ?thesis
            using window_step_negative [OF op _ _ IH] by auto
        next
          case (WouldSubmit c'' w now)
          with True Some have e: "e = WouldSubmit c w now" by simp
          obtain r' where r': "episode (observe_would_submit c w now t) c = Some r'"
            "negative_close_started_at r' = negative_close_started_at r0" "same_identity r' = same_identity r0"
            using would_submit_episode [OF op] by blast
          with step.prems e have "r' = r" by (simp add: open_episode_Some_iff)
          with r' step.prems IH show ?thesis
            unfolding e by (intro window_since_snoc) (simp_all add: window_since_cong [of r r0])
        qed (use step.prems True Some op in \<open>auto simp: observe_qualified_def mark_quote_stale_def
            observe_unknown_def clear_negative_window_def component_retired_def close_episode_def Let_def
            reset_negative_timer_def split: if_splits\<close>)
      qed
    qed
  qed
qed

subsection \<open>Concrete runs\<close>

fun valid_run :: "instant \<Rightarrow> EpisodeTracker \<Rightarrow> event list \<Rightarrow> bool" where
  "valid_run T t [] \<longleftrightarrow> True"
| "valid_run T t (e # es) \<longleftrightarrow>
     fresh_event t e \<and> T \<le> event_time e \<and> valid_run (event_time e) (step e t) es"

lemma reachable_run:
  "reachable es0 T t \<Longrightarrow> valid_run T t es
     \<Longrightarrow> reachable (es0 @ es) (last (T # map event_time es)) (fold step es t)"
proof (induction es arbitrary: es0 T t)
  case Nil
  then show ?case by simp
next
  case (Cons e es)
  then have "reachable (es0 @ [e]) (event_time e) (step e t)"
    by (auto intro: reachable.step)
  from Cons.IH [OF this] Cons.prems(2) show ?case by simp
qed

definition demo_fingerprints :: Fingerprints where
  "demo_fingerprints = \<lparr>fp_component_generation = Some 3, fp_model_fingerprint = Some ''m'',
     fp_quote_fingerprint = Some ''q'', fp_qualification_fingerprint = Some ''k'',
     fp_qualification_policy_version = Some ''1''\<rparr>"

definition demo_proof :: NegativeProof where
  "demo_proof = \<lparr>np_proof_fingerprint = ''p'', np_generation = Some 3, np_model_fingerprint = Some ''m'',
     np_quote_fingerprint = Some ''q'', np_qualification_fingerprint = Some ''k'',
     np_binding_matches = True, np_quote_fresh = True, np_gap_seconds = 300,
     np_qualification_policy_version = Some ''1''\<rparr>"

definition demo_events :: "event list" where
  "demo_events = [Qualified ''c'' [] 2 True None demo_fingerprints ''e1'' 0,
     Negative ''c'' demo_proof 10000000, WouldSubmit ''c'' False 20000000]"

definition demo_tracker :: EpisodeTracker where
  "demo_tracker = fold step demo_events empty_tracker"

lemmas demo_defs = demo_tracker_def demo_events_def demo_proof_def demo_fingerprints_def
  empty_tracker_def observe_qualified_def observe_negative_def observe_would_submit_def
  component_retired_def close_episode_def
  open_episode_def episode_def put_episode_def persist_def save_episode_def record_proof_def
  apply_would_submit_def accepted_def rebind_generation_or_policy_def Let_def rows_def

lemma demo_reachable: "reachable demo_events 20000000 demo_tracker"
proof -
  have "valid_run 0 empty_tracker demo_events"
    by (simp add: demo_defs)
  from reachable_run [OF reachable.start this] show ?thesis
    by (simp add: demo_tracker_def demo_events_def)
qed

definition demo_record :: EpisodeRecord where
  "demo_record = \<lparr>opportunity_episode_id = ''e1'', episode_lineage_id = ''c'', component_id = ''c'',
     component_generation = 3, model_fingerprint = Some ''m'', quote_fingerprint = Some ''q'',
     qualification_fingerprint = Some ''k'', qualification_policy_version = Some ''1'',
     opened_at = 0, last_seen_at = 0, updated_at = 20000000, closed_at = None, close_reason = None,
     best_guaranteed_profit = Some 2, worst_guaranteed_profit = Some 2,
     would_submit_ready_seconds = 20000000, would_submit_ready_since = None,
     would_submit_plan_snapshot = None, negative_close_started_at = Some 10000000\<rparr>"

lemma demo_open: "open_episode demo_tracker ''c'' = Some demo_record"
  by (simp add: demo_defs demo_record_def)

subsection \<open>Properties\<close>

text \<open>
  C33. An episode closes for want of a qualified opportunity only after an unbroken window of
  negative proofs. If a negative proof closes the open episode of a component, that proof is bound
  and fresh and carries the record's generation and policy version, and some earlier bound and fresh
  proof of the same identity, at least \<open>gap_seconds\<close> before, started the window; between the two
  the component saw no qualified, unknown, stale, mismatched or rebinding event and no restart.
\<close>

theorem close_requires_unbroken_window:
  assumes "reachable es T t" "open_episode t c = Some r"
    and "episode (observe_negative c p now t) c = Some r'" "closed_at r' \<noteq> None"
  shows "accepted p \<and> same_identity r p \<and> close_reason r' = Some CLOSE_NO_QUALIFIED_OPPORTUNITY
    \<and> (\<exists>es1 p0 s es2. es = es1 @ Negative c p0 s # es2 \<and> accepted p0 \<and> same_identity r p0
         \<and> np_gap_seconds p * usec_per_second \<le> now - s \<and> (\<forall>e\<in>set es2. neutral r c e))"
proof -
  let ?r1 = "rebind_generation_or_policy r p"
  note ep = assms(3) [unfolded episode_observe_negative [OF assms(2)] Let_def]
  have nc: "closed_at r = None" using open_episodeD [OF assms(2)] by simp
  from ep assms(4) nc have acc: "accepted p" by (auto simp: reset_negative_timer_def split: if_splits)
  from ep assms(4) nc acc obtain s where s: "negative_close_started_at ?r1 = Some s"
    by (auto split: option.splits)
  then have r1: "?r1 = r" by (rule rebind_running_window)
  then have id: "same_identity r p" using same_identity_rebind [of r p] by simp
  from ep acc s r1 nc assms(4) have gap: "np_gap_seconds p * usec_per_second \<le> now - s"
    by (auto split: if_splits)
  with ep acc s r1 have "close_reason r' = Some CLOSE_NO_QUALIFIED_OPPORTUNITY" by auto
  moreover have "window_since es c r s"
    using reachable_window [OF assms(1,2)] s r1 by simp
  ultimately show ?thesis using acc id gap unfolding window_since_def by blast
qed

theorem close_requires_unbroken_window_witness:
  "reachable demo_events 20000000 demo_tracker \<and> open_episode demo_tracker ''c'' = Some demo_record
   \<and> (\<exists>r'. episode (observe_negative ''c'' demo_proof 310000000 demo_tracker) ''c'' = Some r'
         \<and> close_reason r' = Some CLOSE_NO_QUALIFIED_OPPORTUNITY)"
proof -
  have "\<exists>r'. episode (observe_negative ''c'' demo_proof 310000000 demo_tracker) ''c'' = Some r'
      \<and> closed_at r' \<noteq> None"
    by (simp add: episode_observe_negative [OF demo_open] demo_record_def demo_proof_def accepted_def
        rebind_generation_or_policy_def apply_would_submit_def)
  then show ?thesis
    using close_requires_unbroken_window [OF demo_reachable demo_open] demo_reachable demo_open by blast
qed

text \<open>
  A restart resumes every open episode and nothing else: the record of a component after the
  restart is the open record it had before with the running ready period and the running negative
  window cleared (downtime never counts), and a component without an open episode has none.
\<close>

theorem restart_resumes_open_episodes:
  assumes "reachable es T t"
  shows "episode (step (Restart now) t) c =
    map_option (\<lambda>r. r\<lparr>updated_at := now, would_submit_ready_since := None,
                      negative_close_started_at := None\<rparr>) (open_episode t c)"
proof (cases "open_episode t c")
  case None
  then show ?thesis
    by (simp only: restart_episode [OF reachable_inv [OF assms]] option.map)
next
  case (Some r)
  from reachable_inv [OF assms] open_episodeD [OF Some]
  have c: "component_id r = c" "closed_at r = None" and "record_ok T r"
    by (auto simp: tracker_inv_def dict_ok_def)
  then have "close_reason r = None" by (simp add: record_ok_defs)
  with c have "loaded_record now c r = r\<lparr>updated_at := now, would_submit_ready_since := None,
      negative_close_started_at := None\<rparr>"
    by (simp add: loaded_record_def)
  then show ?thesis
    by (simp only: restart_episode [OF reachable_inv [OF assms]] Some option.map)
qed

theorem restart_resumes_open_episodes_witness:
  "reachable demo_events 20000000 demo_tracker
   \<and> episode (step (Restart 50000000) demo_tracker) ''c'' =
       Some (demo_record\<lparr>updated_at := 50000000, negative_close_started_at := None\<rparr>)"
  using restart_resumes_open_episodes [OF demo_reachable, of 50000000 "''c''"] demo_reachable
  by (simp add: demo_open demo_record_def del: step.simps)

text \<open>
  A closed episode is final: no later operation and no restart changes the row of an episode
  that the table holds as closed.
\<close>

theorem closed_row_is_final:
  assumes "reachable es T t" "fresh_event t e" "rows t i = Some row" "closed_at row \<noteq> None"
  shows "rows (step e t) i = Some row"
proof (cases "\<exists>now. e = Restart now")
  case True
  then show ?thesis using assms(3) by (auto simp del: step.simps)
next
  case False
  have inv: "tracker_inv T t" using assms(1) by (rule reachable_inv)
  with False assms(2) have "tracker_change (event_time e) t (step e t)"
    by (intro step_shape) (auto simp: tracker_inv_def)
  then show ?thesis
  proof cases
    case (evolved c r r')
    with inv obtain row' where "rows t (opportunity_episode_id r) = Some row'" "durable row' r"
      by (auto simp: tracker_inv_def dict_ok_def open_episode_Some_iff)
    with evolved(1) assms(3,4) have "i \<noteq> opportunity_episode_id r"
      by (auto dest: durable_fields(3) simp: open_episode_Some_iff)
    with evolved(4) assms(3) show ?thesis by simp
  qed (use assms(3) in auto)
qed

definition demo_closed :: EpisodeTracker where
  "demo_closed = step (Retired ''c'' 30000000) demo_tracker"

lemma demo_closed_reachable: "reachable (demo_events @ [Retired ''c'' 30000000]) 30000000 demo_closed"
  using reachable.step [OF demo_reachable, of "Retired ''c'' 30000000"] by (simp add: demo_closed_def)

theorem closed_row_is_final_witness:
  "\<exists>row. rows demo_closed ''e1'' = Some row \<and> close_reason row = Some CLOSE_COMPONENT_RETIRED
     \<and> rows (step (Qualified ''c'' [] 5 False None demo_fingerprints ''e2'' 40000000) demo_closed) ''e1''
         = Some row"
proof -
  have fresh: "fresh_event demo_closed (Qualified ''c'' [] 5 False None demo_fingerprints ''e2'' 40000000)"
    by (simp add: demo_closed_def demo_defs)
  have "\<exists>row. rows demo_closed ''e1'' = Some row \<and> close_reason row = Some CLOSE_COMPONENT_RETIRED
      \<and> closed_at row \<noteq> None"
    by (simp add: demo_closed_def demo_defs)
  then show ?thesis
    using closed_row_is_final [OF demo_closed_reachable fresh] by blast
qed

text \<open>
  What the projection shows is consistent in every reachable state: the status is CLOSED exactly
  when a close reason is shown, and the ready time lies between zero and the duration of the episode.
\<close>

theorem projection_consistent:
  assumes "reachable es T t" "T \<le> now" "map_of (project now t) c = Some pj"
  shows "(pj_status pj = STATUS_CLOSED \<longleftrightarrow> pj_close_reason pj \<noteq> None)
    \<and> 0 \<le> pj_would_submit_ready_seconds pj
    \<and> pj_would_submit_ready_seconds pj \<le> pj_duration_seconds pj"
proof -
  from assms(3) obtain r where r: "episode t c = Some r" "pj = project_record now r"
    by (auto simp: project_def map_of_map_value [of "\<lambda>_. project_record now"] episode_def)
  with reachable_inv [OF assms(1)] assms(2) have "record_ok now r"
    by (auto simp: tracker_inv_def dict_ok_def intro: record_ok_mono)
  with r show ?thesis
    by (auto simp: project_record_def status_def record_ok_defs split: option.splits)
qed

theorem projection_consistent_witness:
  "\<exists>pj. map_of (project 60000000 demo_tracker) ''c'' = Some pj \<and> pj_status pj = STATUS_ONGOING
     \<and> pj_would_submit_ready_seconds pj \<le> pj_duration_seconds pj"
proof -
  have "\<exists>pj. map_of (project 60000000 demo_tracker) ''c'' = Some pj \<and> pj_status pj = STATUS_ONGOING"
    by (simp add: project_def project_record_def status_def demo_defs)
  then show ?thesis
    using projection_consistent [OF demo_reachable, of 60000000 "''c''"] by auto
qed

end
