(* ===== verification/NLeg_Model.thy ===== *)
theory NLeg_Model
  imports Py_Prelude
begin

section \<open>The N-leg problem model\<close>

text \<open>
  The dataclasses and enums of \<^verbatim>\<open>prediction_n_leg.py\<close> and its pure transformations of a
  problem: \<open>normalize_problem\<close> (legacy units to micro-dollars), \<open>sorted_problem\<close> (the canonical
  order) and \<open>canonicalize_directional_actions\<close> (direction-aware action identities).

  A field name that several dataclasses share carries the name of its class as a prefix
  (\<open>payout_action_id\<close> is \<open>ActionPayout.action_id\<close>). Values are the typed ones the decoder builds:
  integers are unbounded \<open>int\<close>s (the 64-bit range is a check of the code, not a property of the
  type), datetimes are UTC \<open>instant\<close>s, tuples are lists.
\<close>

subsection \<open>Enums\<close>

datatype ActionSide = BUY_YES | BUY_NO

datatype TerminalKind = NORMAL_YES | NORMAL_NO | VOID | REFUND | SPLIT

datatype RelationKind = IMPLIES | MUTUALLY_EXCLUSIVE | EXACTLY_ONE | NATIVE_COMPLEMENT

datatype QualificationMetric =
    GUARANTEED_PROFIT_UNITS
  | NET_MARGIN_PPM
  | RETURN_ON_COST_PPM
  | ANNUALIZED_RETURN_PPM
  | MAX_CAPITAL_RELEASE_DELAY_SECONDS

datatype Comparison = GREATER_THAN_OR_EQUAL | LESS_THAN_OR_EQUAL

datatype SearchMode = ADMISSION | OPTIMIZATION | RAW_ARBITRAGE_DIAGNOSTIC

datatype SolveStatus = SOLVE_FEASIBLE | SOLVE_INFEASIBLE | SOLVE_UNKNOWN

datatype ProofStatus = PROOF_PROVEN | PROOF_UNKNOWN

datatype BusinessStatus =
    QUALIFIED_FEASIBLE
  | NO_QUALIFIED_OPPORTUNITY
  | NO_ARBITRAGE
  | BUSINESS_UNKNOWN

datatype ProofResultKind =
    PORTFOLIO_RESULT
  | NO_QUALIFIED_OPPORTUNITY_RESULT
  | NO_ARBITRAGE_RESULT

datatype OptimalityStatus = OPTIMAL | NOT_PROVEN | NOT_APPLICABLE

datatype UnknownReason =
    INVALID_MODEL
  | UNKNOWN_TERMINAL_DATA
  | UNKNOWN_VALUATION
  | NUMERIC_OVERFLOW
  | CONTRADICTORY_CONSTRAINT_MODEL
  | ORACLE_DECISION_LIMIT_EXCEEDED
  | ORACLE_STATE_LIMIT_EXCEEDED
  | ORACLE_SUPPORT_LIMIT_EXCEEDED

fun side_value :: "ActionSide \<Rightarrow> string" where
  "side_value BUY_YES = ''BUY_YES''"
| "side_value BUY_NO = ''BUY_NO''"

fun kind_value :: "TerminalKind \<Rightarrow> string" where
  "kind_value NORMAL_YES = ''NORMAL_YES''"
| "kind_value NORMAL_NO = ''NORMAL_NO''"
| "kind_value VOID = ''VOID''"
| "kind_value REFUND = ''REFUND''"
| "kind_value SPLIT = ''SPLIT''"

fun unknown_reason_value :: "UnknownReason \<Rightarrow> string" where
  "unknown_reason_value INVALID_MODEL = ''INVALID_MODEL''"
| "unknown_reason_value UNKNOWN_TERMINAL_DATA = ''UNKNOWN_TERMINAL_DATA''"
| "unknown_reason_value UNKNOWN_VALUATION = ''UNKNOWN_VALUATION''"
| "unknown_reason_value NUMERIC_OVERFLOW = ''NUMERIC_OVERFLOW''"
| "unknown_reason_value CONTRADICTORY_CONSTRAINT_MODEL = ''CONTRADICTORY_CONSTRAINT_MODEL''"
| "unknown_reason_value ORACLE_DECISION_LIMIT_EXCEEDED = ''ORACLE_DECISION_LIMIT_EXCEEDED''"
| "unknown_reason_value ORACLE_STATE_LIMIT_EXCEEDED = ''ORACLE_STATE_LIMIT_EXCEEDED''"
| "unknown_reason_value ORACLE_SUPPORT_LIMIT_EXCEEDED = ''ORACLE_SUPPORT_LIMIT_EXCEEDED''"

subsection \<open>Dataclasses of the problem\<close>

record SettlementObservationKey =
  obs_schema_version :: string
  oracle_id :: string
  indicator_id :: string
  observation_start :: instant
  observation_end :: instant
  obs_timezone :: string
  obs_rule_version :: string

record ExecutableCostSlice =
  first_lot :: int
  last_lot :: int
  incremental_cost_upper_bound_units :: int

record CandidateAction =
  action_id :: string
  venue_id :: string
  account_id :: string
  chain_id :: string
  market_contract_id :: string
  settlement_observation_key :: SettlementObservationKey
  side :: ActionSide
  lot_step_units :: int
  quantity_scale :: int
  min_quantity_lots :: int
  max_quantity_lots :: int
  settlement_asset_id :: string
  valuation_unit_id :: string
  asset_valuation_rule_id :: string
  cost_slices :: "ExecutableCostSlice list"

record ActionPayout =
  payout_action_id :: string
  payout_lower_bound_per_lot_units :: int

record TerminalAtom =
  atom_id :: string
  atom_kind :: TerminalKind
  atom_rule_version :: "string option"
  payouts :: "ActionPayout list"
  capital_release_at :: "instant option"

record TerminalStateSet =
  state_contract_id :: string
  state_observation_key :: SettlementObservationKey
  state_rule_version :: string
  atoms :: "TerminalAtom list"

record RelationConstraint =
  relation_constraint_id :: string
  relation_kind :: RelationKind
  contract_ids :: "string list"
  relation_rule_version :: string

record ForbiddenAtomCombination =
  forbidden_constraint_id :: string
  forbidden_atom_ids :: "string list"
  forbidden_rule_version :: string

record ConstraintModel =
  relations :: "RelationConstraint list"
  forbidden_atom_combinations :: "ForbiddenAtomCombination list"

record QualificationConstraint =
  qualification_id :: string
  qualification_rule_version :: string
  metric :: QualificationMetric
  comparison :: Comparison
  threshold_numerator :: int
  threshold_denominator :: int

record ArbitrageProblem =
  schema_version :: string
  problem_id :: string
  as_of :: instant
  problem_valuation_unit_id :: string
  actions :: "CandidateAction list"
  terminal_state_sets :: "TerminalStateSet list"
  constraint_model :: ConstraintModel
  qualification_constraints :: "QualificationConstraint list"

subsection \<open>Dataclasses of requests, proofs and results\<close>

record ActionQuantity =
  quantity_action_id :: string
  quantity_lots :: int

record PortfolioCandidate =
  candidate_quantities :: "ActionQuantity list"
  claimed_guaranteed_profit_units :: int

record SelectedAtom =
  selected_contract_id :: string
  selected_atom_id :: string

record SettlementScenario =
  scenario_atoms :: "SelectedAtom list"

record WorstStateCut =
  cut_id :: string
  cut_scenario :: SettlementScenario
  payout_per_lot :: "ActionPayout list"

record SelectedSupportGraph =
  support_action_ids :: "string list"
  support_contract_ids :: "string list"
  support_constraint_ids :: "string list"
  hyperedges :: "(string \<times> string list) list"

record PayoutProof =
  proof_schema_version :: string
  result_kind :: ProofResultKind
  problem_fingerprint :: string
  portfolio_fingerprint :: "string option"
  proof_worst_scenario :: "SettlementScenario option"
  proof_worst_state_cut :: "WorstStateCut option"
  proof_payout_lower_bound_units :: "int option"
  proof_cost_upper_bound_units :: "int option"
  proof_guaranteed_profit_units :: "int option"
  proof_conservative_capital_release_at :: "instant option"
  selected_support_graph :: "SelectedSupportGraph option"
  proof_method :: string
  request_fingerprint :: "string option"
  source_problem_fingerprint :: "string option"
  qualification_fingerprint :: "string option"
  proof_quantity_vectors_total :: "int option"
  proof_quantity_vectors_examined :: "int option"
  proof_joint_states_per_vector :: "int option"
  proof_rejection_counts :: "(string \<times> int) list"

record PortfolioSolution =
  solution_quantities :: "ActionQuantity list"
  payout_proof :: PayoutProof

record ObjectiveBounds =
  lower_bound_units :: "int option"
  upper_bound_units :: "int option"
  gap_units :: "int option"
  bounds_closed :: bool

record OracleBudget =
  max_quantity_vectors :: int
  max_joint_states :: int
  max_support_rechecks :: int

record OracleRequest =
  request_schema_version :: string
  request_mode :: SearchMode
  request_problem :: ArbitrageProblem
  request_budget :: OracleBudget

record OracleResult =
  solve_status :: SolveStatus
  proof_status :: ProofStatus
  business_status :: BusinessStatus
  optimality_status :: OptimalityStatus
  objective_bounds :: ObjectiveBounds
  result_solution :: "PortfolioSolution option"
  negative_proof :: "PayoutProof option"
  unknown_reason :: "UnknownReason option"

subsection \<open>Constants\<close>

definition REQUEST_SCHEMA_V1 :: string where
  "REQUEST_SCHEMA_V1 = ''open_trader.prediction_n_leg.request.v1''"

definition PROBLEM_SCHEMA_V1 :: string where
  "PROBLEM_SCHEMA_V1 = ''open_trader.prediction_n_leg.problem.v1''"

definition OBSERVATION_SCHEMA_V1 :: string where
  "OBSERVATION_SCHEMA_V1 = ''open_trader.prediction_n_leg.observation.v1''"

definition PAYOUT_PROOF_SCHEMA_V1 :: string where
  "PAYOUT_PROOF_SCHEMA_V1 = ''open_trader.prediction_n_leg.payout_proof.v1''"

definition USD_UNITS_PER_DOLLAR :: int where
  "USD_UNITS_PER_DOLLAR = 1000000"

subsection \<open>Normalisation of legacy units\<close>

definition normalize_legacy_payout :: "ActionPayout \<Rightarrow> ActionPayout result" where
  "normalize_legacy_payout p =
     (let v = payout_lower_bound_per_lot_units p in
      if v = 0 then Inr \<lparr>payout_action_id = payout_action_id p, payout_lower_bound_per_lot_units = 0\<rparr>
      else if v = 1
      then Inr \<lparr>payout_action_id = payout_action_id p,
                payout_lower_bound_per_lot_units = USD_UNITS_PER_DOLLAR\<rparr>
      else Inl (ValueError (''unsupported payout scale: '' @ string_of_int v)))"

definition normalize_legacy_atom :: "TerminalAtom \<Rightarrow> TerminalAtom result" where
  "normalize_legacy_atom a =
     rbind (result_map normalize_legacy_payout (payouts a)) (\<lambda>ps. Inr (a\<lparr>payouts := ps\<rparr>))"

definition normalize_legacy_action :: "CandidateAction \<Rightarrow> CandidateAction" where
  "normalize_legacy_action a =
     a\<lparr>settlement_asset_id := ''usd-micro'', valuation_unit_id := ''usd-micro'',
       asset_valuation_rule_id := ''usd-micro-v1'',
       cost_slices := map (\<lambda>c. c\<lparr>incremental_cost_upper_bound_units :=
         incremental_cost_upper_bound_units c * USD_UNITS_PER_DOLLAR\<rparr>) (cost_slices a)\<rparr>"

definition normalize_legacy_qualification :: "QualificationConstraint \<Rightarrow> QualificationConstraint" where
  "normalize_legacy_qualification q =
     q\<lparr>threshold_numerator :=
        (if metric q = GUARANTEED_PROFIT_UNITS then threshold_numerator q * USD_UNITS_PER_DOLLAR
         else threshold_numerator q)\<rparr>"

definition normalize_problem :: "ArbitrageProblem \<Rightarrow> ArbitrageProblem result" where
  "normalize_problem p =
     (let unit = problem_valuation_unit_id p in
      if unit = ''usd-micro'' then Inr p
      else if unit \<notin> {''USD'', ''usd-cents''}
      then Inl (ValueError (''unsupported valuation unit: '' @ unit))
      else
        rbind (result_map (\<lambda>s. rbind (result_map normalize_legacy_atom (atoms s))
                 (\<lambda>as. Inr (s\<lparr>atoms := as\<rparr>))) (terminal_state_sets p)) (\<lambda>states.
        Inr (p\<lparr>problem_valuation_unit_id := ''usd-micro'',
               actions := map normalize_legacy_action (actions p),
               terminal_state_sets := states,
               qualification_constraints :=
                 map normalize_legacy_qualification (qualification_constraints p)\<rparr>)))"

subsection \<open>The canonical order\<close>

definition sorted_atom :: "TerminalAtom \<Rightarrow> TerminalAtom" where
  "sorted_atom a = a\<lparr>payouts := sort_key payout_action_id (payouts a)\<rparr>"

definition sorted_state_set :: "TerminalStateSet \<Rightarrow> TerminalStateSet" where
  "sorted_state_set s = s\<lparr>atoms := sort_key atom_id (map sorted_atom (atoms s))\<rparr>"

definition sorted_relation :: "RelationConstraint \<Rightarrow> RelationConstraint" where
  "sorted_relation r =
     r\<lparr>contract_ids := (if relation_kind r = IMPLIES then contract_ids r else sort (contract_ids r))\<rparr>"

definition sorted_forbidden :: "ForbiddenAtomCombination \<Rightarrow> ForbiddenAtomCombination" where
  "sorted_forbidden f = f\<lparr>forbidden_atom_ids := sort (forbidden_atom_ids f)\<rparr>"

definition sorted_problem :: "ArbitrageProblem \<Rightarrow> ArbitrageProblem" where
  "sorted_problem p =
     p\<lparr>actions := sort_key action_id (actions p),
       terminal_state_sets := sort_key state_contract_id (map sorted_state_set (terminal_state_sets p)),
       constraint_model :=
         \<lparr>relations = sort_key relation_constraint_id
            (map sorted_relation (relations (constraint_model p))),
          forbidden_atom_combinations = sort_key forbidden_constraint_id
            (map sorted_forbidden (forbidden_atom_combinations (constraint_model p)))\<rparr>,
       qualification_constraints := sort_key qualification_id (qualification_constraints p)\<rparr>"

subsection \<open>Direction-aware action identities\<close>

fun directional_payouts :: "TerminalKind \<Rightarrow> (int \<times> int) option" where
  "directional_payouts NORMAL_YES = Some (1, 0)"
| "directional_payouts NORMAL_NO = Some (0, 1)"
| "directional_payouts VOID = Some (0, 0)"
| "directional_payouts _ = None"

definition directional_prefix :: "CandidateAction \<Rightarrow> string" where
  "directional_prefix a = venue_id a @ '':'' @ market_contract_id a"

definition directional_id :: "CandidateAction \<Rightarrow> ActionSide \<Rightarrow> string" where
  "directional_id a s = directional_prefix a @ '':'' @ side_value s"

text \<open>What a group of the actions of one contract becomes: a pair, or an action left as it is.\<close>

datatype directional_group = DirectedPair CandidateAction CandidateAction | Passthrough CandidateAction

definition starts_with :: "string \<Rightarrow> string \<Rightarrow> bool" where
  "starts_with s pre \<longleftrightarrow> take (length pre) s = pre"

definition single_action_group :: "CandidateAction \<Rightarrow> directional_group result" where
  "single_action_group a =
     (if action_id a \<in> {directional_prefix a, directional_id a (side a)}
      then Inr (DirectedPair (a\<lparr>action_id := directional_id a BUY_YES, side := BUY_YES\<rparr>)
                             (a\<lparr>action_id := directional_id a BUY_NO, side := BUY_NO\<rparr>))
      else if starts_with (action_id a) (directional_prefix a @ '':'')
      then Inl (ValueError ''direction-suffixed id whose side does not match'')
      else Inr (Passthrough a))"

text \<open>The side an action of a larger group names by its id, in the order of the enum.\<close>

definition named_side :: "CandidateAction \<Rightarrow> ActionSide option" where
  "named_side a = find (\<lambda>s. action_id a = directional_id a s) [BUY_YES, BUY_NO]"

fun pair_group ::
  "CandidateAction list \<Rightarrow> (ActionSide \<times> CandidateAction) list
     \<Rightarrow> (ActionSide \<times> CandidateAction) list result" where
  "pair_group [] pair = Inr pair"
| "pair_group (a # as) pair =
     (case named_side a of
        None \<Rightarrow> Inl (ValueError ''without a canonical BUY_YES/BUY_NO direction pair'')
      | Some s \<Rightarrow>
          if side a \<noteq> s \<or> s \<in> fst ` set pair
          then Inl (ValueError ''without a canonical BUY_YES/BUY_NO direction pair'')
          else pair_group as (pair @ [(s, a)]))"

definition action_group :: "CandidateAction list \<Rightarrow> directional_group result" where
  "action_group g =
     (case g of
        [a] \<Rightarrow> single_action_group a
      | _ \<Rightarrow>
          rbind (pair_group g []) (\<lambda>pair.
          case (map_of pair BUY_YES, map_of pair BUY_NO) of
            (Some y, Some n) \<Rightarrow> Inr (DirectedPair y n)
          | _ \<Rightarrow> Inl (KeyError ''BUY_YES'')))"

definition directional_atom ::
  "CandidateAction \<Rightarrow> CandidateAction \<Rightarrow> TerminalAtom \<Rightarrow> TerminalAtom result" where
  "directional_atom y n a =
     (case directional_payouts (atom_kind a) of
        None \<Rightarrow> Inl (ValueError ''non-settlement kind'')
      | Some (yes_units, no_units) \<Rightarrow>
          Inr (a\<lparr>payouts :=
            [\<lparr>payout_action_id = action_id y, payout_lower_bound_per_lot_units = yes_units\<rparr>,
             \<lparr>payout_action_id = action_id n, payout_lower_bound_per_lot_units = no_units\<rparr>]\<rparr>))"

definition directional_state_set ::
  "(string \<times> directional_group) list \<Rightarrow> TerminalStateSet \<Rightarrow> TerminalStateSet result" where
  "directional_state_set groups s =
     (case map_of groups (state_contract_id s) of
        Some (DirectedPair y n) \<Rightarrow>
          rbind (result_map (directional_atom y n) (atoms s)) (\<lambda>as. Inr (s\<lparr>atoms := as\<rparr>))
      | _ \<Rightarrow> Inr s)"

fun directed_actions :: "(string \<times> directional_group) list \<Rightarrow> CandidateAction list" where
  "directed_actions [] = []"
| "directed_actions ((c, DirectedPair y n) # gs) = y # n # directed_actions gs"
| "directed_actions ((c, Passthrough a) # gs) = directed_actions gs"

fun passthrough_actions :: "(string \<times> directional_group) list \<Rightarrow> CandidateAction list" where
  "passthrough_actions [] = []"
| "passthrough_actions ((c, DirectedPair y n) # gs) = passthrough_actions gs"
| "passthrough_actions ((c, Passthrough a) # gs) = a # passthrough_actions gs"

definition directional_groups :: "ArbitrageProblem \<Rightarrow> (string \<times> directional_group) list result" where
  "directional_groups p =
     result_map (\<lambda>c. rbind (action_group (filter (\<lambda>a. market_contract_id a = c) (actions p)))
                        (\<lambda>g. Inr (c, g)))
       (first_occurrences (map market_contract_id (actions p)))"

definition canonicalize_directional_actions :: "ArbitrageProblem \<Rightarrow> ArbitrageProblem result" where
  "canonicalize_directional_actions p =
     (if \<not> list_ex (\<lambda>r. relation_kind r = IMPLIES) (relations (constraint_model p)) then Inr p
      else
        rbind (directional_groups p) (\<lambda>groups.
        rbind (result_map (directional_state_set groups) (terminal_state_sets p)) (\<lambda>states.
        Inr (p\<lparr>actions := sort_key action_id (directed_actions groups @ passthrough_actions groups),
               terminal_state_sets := states\<rparr>))))"

end
