(* ===== verification/NLeg_Validate.thy ===== *)
theory NLeg_Validate
  imports NLeg_Model
begin

section \<open>Validation of a problem\<close>

text \<open>
  \<open>validate_problem\<close> of \<^verbatim>\<open>prediction_n_leg.py\<close>, split at its loops: every loop is a recursive
  function over the index, the ids seen so far and the remaining elements, and returns the issues in
  the order the code appends them. The checks that only ask for the Python type of a value
  (\<open>isinstance\<close>, naive or non-UTC datetimes) have no counterpart: the fields are typed. The
  declarative side is \<open>wf_problem\<close>; \<open>validate_problem_iff\<close> says the two agree.
\<close>

datatype issue_code =
    DERIVED_INTEGER_OUT_OF_RANGE
  | DUPLICATE_ID
  | INTEGER_OUT_OF_RANGE
  | INVALID_IDENTIFIER
  | INVALID_OBSERVATION_WINDOW
  | INVALID_QUANTITY_BOUNDS
  | INVALID_RELATION_ARITY
  | INVALID_SCHEMA_VERSION
  | MISSING_ACTION_PAYOUT
  | MISSING_ASSET_VALUATION_RULE
  | MISSING_CAPITAL_RELEASE_AT
  | MISSING_COST_SLICES
  | MISSING_TERMINAL_ATOMS
  | MISSING_TERMINAL_RULE_IDENTITY
  | MISSING_TERMINAL_STATE_SET
  | NATIVE_COMPLEMENT_ACTION_ARITY
  | NATIVE_COMPLEMENT_ACTION_SIDES
  | NATIVE_COMPLEMENT_CONTRACTS_NOT_DISTINCT
  | NATIVE_COMPLEMENT_OBSERVATION_MISMATCH
  | NATIVE_COMPLEMENT_TERMINAL_KINDS
  | NON_CONTIGUOUS_COST_SLICES
  | NON_POSITIVE_DENOMINATOR
  | NON_POSITIVE_LOT_STEP
  | NON_POSITIVE_QUANTITY_SCALE
  | OBSERVATION_KEY_MISMATCH
  | QUANTITY_BOUNDS_EXCEED_COST_SLICES
  | STALE_CAPITAL_RELEASE_AT
  | TERMINAL_RULE_VERSION_MISMATCH
  | UNKNOWN_ACTION_REFERENCE
  | UNKNOWN_ATOM_REFERENCE
  | UNKNOWN_CONTRACT_REFERENCE
  | VALUATION_UNIT_MISMATCH

fun issue_code_value :: "issue_code \<Rightarrow> string" where
  "issue_code_value DERIVED_INTEGER_OUT_OF_RANGE = ''DERIVED_INTEGER_OUT_OF_RANGE''"
| "issue_code_value DUPLICATE_ID = ''DUPLICATE_ID''"
| "issue_code_value INTEGER_OUT_OF_RANGE = ''INTEGER_OUT_OF_RANGE''"
| "issue_code_value INVALID_IDENTIFIER = ''INVALID_IDENTIFIER''"
| "issue_code_value INVALID_OBSERVATION_WINDOW = ''INVALID_OBSERVATION_WINDOW''"
| "issue_code_value INVALID_QUANTITY_BOUNDS = ''INVALID_QUANTITY_BOUNDS''"
| "issue_code_value INVALID_RELATION_ARITY = ''INVALID_RELATION_ARITY''"
| "issue_code_value INVALID_SCHEMA_VERSION = ''INVALID_SCHEMA_VERSION''"
| "issue_code_value MISSING_ACTION_PAYOUT = ''MISSING_ACTION_PAYOUT''"
| "issue_code_value MISSING_ASSET_VALUATION_RULE = ''MISSING_ASSET_VALUATION_RULE''"
| "issue_code_value MISSING_CAPITAL_RELEASE_AT = ''MISSING_CAPITAL_RELEASE_AT''"
| "issue_code_value MISSING_COST_SLICES = ''MISSING_COST_SLICES''"
| "issue_code_value MISSING_TERMINAL_ATOMS = ''MISSING_TERMINAL_ATOMS''"
| "issue_code_value MISSING_TERMINAL_RULE_IDENTITY = ''MISSING_TERMINAL_RULE_IDENTITY''"
| "issue_code_value MISSING_TERMINAL_STATE_SET = ''MISSING_TERMINAL_STATE_SET''"
| "issue_code_value NATIVE_COMPLEMENT_ACTION_ARITY = ''NATIVE_COMPLEMENT_ACTION_ARITY''"
| "issue_code_value NATIVE_COMPLEMENT_ACTION_SIDES = ''NATIVE_COMPLEMENT_ACTION_SIDES''"
| "issue_code_value NATIVE_COMPLEMENT_CONTRACTS_NOT_DISTINCT = ''NATIVE_COMPLEMENT_CONTRACTS_NOT_DISTINCT''"
| "issue_code_value NATIVE_COMPLEMENT_OBSERVATION_MISMATCH = ''NATIVE_COMPLEMENT_OBSERVATION_MISMATCH''"
| "issue_code_value NATIVE_COMPLEMENT_TERMINAL_KINDS = ''NATIVE_COMPLEMENT_TERMINAL_KINDS''"
| "issue_code_value NON_CONTIGUOUS_COST_SLICES = ''NON_CONTIGUOUS_COST_SLICES''"
| "issue_code_value NON_POSITIVE_DENOMINATOR = ''NON_POSITIVE_DENOMINATOR''"
| "issue_code_value NON_POSITIVE_LOT_STEP = ''NON_POSITIVE_LOT_STEP''"
| "issue_code_value NON_POSITIVE_QUANTITY_SCALE = ''NON_POSITIVE_QUANTITY_SCALE''"
| "issue_code_value OBSERVATION_KEY_MISMATCH = ''OBSERVATION_KEY_MISMATCH''"
| "issue_code_value QUANTITY_BOUNDS_EXCEED_COST_SLICES = ''QUANTITY_BOUNDS_EXCEED_COST_SLICES''"
| "issue_code_value STALE_CAPITAL_RELEASE_AT = ''STALE_CAPITAL_RELEASE_AT''"
| "issue_code_value TERMINAL_RULE_VERSION_MISMATCH = ''TERMINAL_RULE_VERSION_MISMATCH''"
| "issue_code_value UNKNOWN_ACTION_REFERENCE = ''UNKNOWN_ACTION_REFERENCE''"
| "issue_code_value UNKNOWN_ATOM_REFERENCE = ''UNKNOWN_ATOM_REFERENCE''"
| "issue_code_value UNKNOWN_CONTRACT_REFERENCE = ''UNKNOWN_CONTRACT_REFERENCE''"
| "issue_code_value VALUATION_UNIT_MISMATCH = ''VALUATION_UNIT_MISMATCH''"

record ModelIssue =
  code :: issue_code
  path :: string
  message :: string

definition issue_if :: "bool \<Rightarrow> issue_code \<Rightarrow> string \<Rightarrow> string \<Rightarrow> ModelIssue list" where
  "issue_if b c p m = (if b then [\<lparr>code = c, path = p, message = m\<rparr>] else [])"

lemma issue_if_Nil [simp]: "issue_if b c p m = [] \<longleftrightarrow> \<not> b"
  by (simp add: issue_if_def)

lemma issue_if_False [simp]: "issue_if False c p m = []"
  by (simp add: issue_if_def)

subsection \<open>Leaf checks\<close>

definition validate_int :: "int \<Rightarrow> string \<Rightarrow> ModelIssue list" where
  "validate_int v p = issue_if (\<not> in_int64 v) INTEGER_OUT_OF_RANGE p ''must fit signed 64-bit range''"

definition validate_product :: "int \<Rightarrow> int \<Rightarrow> string \<Rightarrow> ModelIssue list" where
  "validate_product l r p =
     issue_if (\<not> in_int64 (l * r)) DERIVED_INTEGER_OUT_OF_RANGE p
       ''derived product must fit signed 64-bit range''"

definition identifier_issues :: "string \<Rightarrow> string \<Rightarrow> ModelIssue list" where
  "identifier_issues v p = issue_if (blank v) INVALID_IDENTIFIER p ''must be a non-empty string''"

definition identifier_value :: "string \<Rightarrow> string option" where
  "identifier_value v = (if blank v then None else Some v)"

definition validate_observation_key :: "SettlementObservationKey \<Rightarrow> string \<Rightarrow> ModelIssue list" where
  "validate_observation_key k p =
     identifier_issues (obs_schema_version k) (p @ ''.schema_version'')
     @ identifier_issues (oracle_id k) (p @ ''.oracle_id'')
     @ identifier_issues (indicator_id k) (p @ ''.indicator_id'')
     @ identifier_issues (obs_timezone k) (p @ ''.timezone'')
     @ identifier_issues (obs_rule_version k) (p @ ''.rule_version'')
     @ issue_if (obs_schema_version k \<noteq> OBSERVATION_SCHEMA_V1) INVALID_SCHEMA_VERSION
         (p @ ''.schema_version'') (''must equal '' @ OBSERVATION_SCHEMA_V1)"

definition indexed :: "string \<Rightarrow> nat \<Rightarrow> string" where
  "indexed name i = name @ ''['' @ string_of_nat i @ '']''"

subsection \<open>Actions\<close>

fun validate_cost_slices :: "string \<Rightarrow> nat \<Rightarrow> int \<Rightarrow> ExecutableCostSlice list \<Rightarrow> ModelIssue list" where
  "validate_cost_slices prefix i previous_last [] = []"
| "validate_cost_slices prefix i previous_last (c # cs) =
     (let slice_path = indexed (prefix @ ''.cost_slices'') i in
      validate_int (first_lot c) (slice_path @ ''.first_lot'')
      @ validate_int (last_lot c) (slice_path @ ''.last_lot'')
      @ validate_int (incremental_cost_upper_bound_units c)
          (slice_path @ ''.incremental_cost_upper_bound_units'')
      @ issue_if (first_lot c \<noteq> previous_last + 1 \<or> last_lot c < first_lot c)
          NON_CONTIGUOUS_COST_SLICES slice_path ''cost slices must start at one and be contiguous''
      @ validate_product (last_lot c) (incremental_cost_upper_bound_units c) (slice_path @ ''.total_cost'')
      @ validate_cost_slices prefix (Suc i) (last_lot c) cs)"

definition validate_action ::
  "ArbitrageProblem \<Rightarrow> string \<Rightarrow> string list \<Rightarrow> CandidateAction \<Rightarrow> ModelIssue list" where
  "validate_action p prefix seen a =
     identifier_issues (action_id a) (prefix @ ''.action_id'')
     @ identifier_issues (venue_id a) (prefix @ ''.venue_id'')
     @ identifier_issues (account_id a) (prefix @ ''.account_id'')
     @ identifier_issues (chain_id a) (prefix @ ''.chain_id'')
     @ identifier_issues (market_contract_id a) (prefix @ ''.market_contract_id'')
     @ issue_if (\<not> blank (action_id a) \<and> action_id a \<in> set seen) DUPLICATE_ID
         (prefix @ ''.action_id'') ''action_id must be unique''
     @ identifier_issues (settlement_asset_id a) (prefix @ ''.settlement_asset_id'')
     @ identifier_issues (valuation_unit_id a) (prefix @ ''.valuation_unit_id'')
     @ issue_if (identifier_value (valuation_unit_id a) \<noteq> identifier_value (problem_valuation_unit_id p))
         VALUATION_UNIT_MISMATCH (prefix @ ''.valuation_unit_id'') ''must equal problem valuation_unit_id''
     @ identifier_issues (asset_valuation_rule_id a) (prefix @ ''.asset_valuation_rule_id'')
     @ validate_int (lot_step_units a) (prefix @ ''.lot_step_units'')
     @ validate_int (quantity_scale a) (prefix @ ''.quantity_scale'')
     @ validate_int (min_quantity_lots a) (prefix @ ''.min_quantity_lots'')
     @ validate_int (max_quantity_lots a) (prefix @ ''.max_quantity_lots'')
     @ issue_if (lot_step_units a \<le> 0) NON_POSITIVE_LOT_STEP (prefix @ ''.lot_step_units'')
         ''must be positive''
     @ issue_if (quantity_scale a \<le> 0) NON_POSITIVE_QUANTITY_SCALE (prefix @ ''.quantity_scale'')
         ''must be positive''
     @ validate_product (lot_step_units a) (quantity_scale a) (prefix @ ''.lot_step_units*quantity_scale'')
     @ issue_if (settlement_asset_id a \<noteq> problem_valuation_unit_id p \<and> blank (asset_valuation_rule_id a))
         MISSING_ASSET_VALUATION_RULE (prefix @ ''.asset_valuation_rule_id'')
         ''non-native settlement assets require a versioned valuation rule''
     @ validate_observation_key (settlement_observation_key a) (prefix @ ''.settlement_observation_key'')
     @ issue_if (observation_start (settlement_observation_key a) > observation_end (settlement_observation_key a))
         INVALID_OBSERVATION_WINDOW (prefix @ ''.settlement_observation_key'')
         ''observation_start must not be after observation_end''
     @ issue_if (cost_slices a = []) MISSING_COST_SLICES (prefix @ ''.cost_slices'')
         ''must contain at least one executable cost slice''
     @ issue_if (\<not> (0 < min_quantity_lots a \<and> min_quantity_lots a \<le> max_quantity_lots a))
         INVALID_QUANTITY_BOUNDS (prefix @ ''.min_quantity_lots'')
         ''must satisfy 0 < min_quantity_lots <= max_quantity_lots''
     @ issue_if (cost_slices a \<noteq> [] \<and> max_quantity_lots a > last_lot (last (cost_slices a)))
         QUANTITY_BOUNDS_EXCEED_COST_SLICES (prefix @ ''.max_quantity_lots'')
         ''must not exceed the final executable cost slice''
     @ validate_cost_slices prefix 0 0 (cost_slices a)"

fun validate_actions ::
  "ArbitrageProblem \<Rightarrow> nat \<Rightarrow> string list \<Rightarrow> CandidateAction list \<Rightarrow> ModelIssue list" where
  "validate_actions p i seen [] = []"
| "validate_actions p i seen (a # as) =
     validate_action p (indexed ''actions'' i) seen a
     @ validate_actions p (Suc i) (if blank (action_id a) then seen else action_id a # seen) as"

text \<open>The dict \<open>actions_by_contract\<close> after the loop over the actions, and the set \<open>action_ids\<close>.\<close>

definition grouped_actions :: "ArbitrageProblem \<Rightarrow> CandidateAction list" where
  "grouped_actions p =
     filter (\<lambda>a. \<not> blank (action_id a) \<and> \<not> blank (market_contract_id a)) (actions p)"

definition actions_by_contract :: "ArbitrageProblem \<Rightarrow> string \<Rightarrow> CandidateAction list" where
  "actions_by_contract p c = filter (\<lambda>a. market_contract_id a = c) (grouped_actions p)"

definition known_action_ids :: "ArbitrageProblem \<Rightarrow> string list" where
  "known_action_ids p = filter (\<lambda>i. \<not> blank i) (map action_id (actions p))"

subsection \<open>Terminal state sets\<close>

fun validate_payouts ::
  "ArbitrageProblem \<Rightarrow> string list \<Rightarrow> string \<Rightarrow> nat \<Rightarrow> ActionPayout list \<Rightarrow> ModelIssue list" where
  "validate_payouts p required atom_path i [] = []"
| "validate_payouts p required atom_path i (x # xs) =
     (let payout_path = indexed (atom_path @ ''.payouts'') i in
      validate_int (payout_lower_bound_per_lot_units x) (payout_path @ ''.payout_lower_bound_per_lot_units'')
      @ identifier_issues (payout_action_id x) (payout_path @ ''.action_id'')
      @ (if blank (payout_action_id x) then []
         else if payout_action_id x \<notin> set (known_action_ids p)
         then issue_if True UNKNOWN_ACTION_REFERENCE (payout_path @ ''.action_id'') ''must reference an action''
         else issue_if (payout_action_id x \<notin> set required) UNKNOWN_ACTION_REFERENCE
                (payout_path @ ''.action_id'') ''must reference an action on this contract'')
      @ validate_payouts p required atom_path (Suc i) xs)"

definition payout_ids :: "TerminalAtom \<Rightarrow> string list" where
  "payout_ids a = filter (\<lambda>i. \<not> blank i) (map payout_action_id (payouts a))"

definition validate_atom ::
  "ArbitrageProblem \<Rightarrow> TerminalStateSet \<Rightarrow> string list \<Rightarrow> string list \<Rightarrow> string \<Rightarrow> TerminalAtom
     \<Rightarrow> ModelIssue list" where
  "validate_atom p s required seen atom_path a =
     identifier_issues (atom_id a) (atom_path @ ''.atom_id'')
     @ issue_if (\<not> blank (atom_id a) \<and> atom_id a \<in> set seen) DUPLICATE_ID (atom_path @ ''.atom_id'')
         ''atom_id must be globally unique''
     @ (case atom_rule_version a of
          None \<Rightarrow> issue_if True MISSING_TERMINAL_RULE_IDENTITY (atom_path @ ''.rule_version'')
            ''must identify the terminal rule''
        | Some v \<Rightarrow>
            if blank v
            then issue_if True MISSING_TERMINAL_RULE_IDENTITY (atom_path @ ''.rule_version'')
              ''must identify the terminal rule''
            else issue_if (v \<noteq> state_rule_version s) TERMINAL_RULE_VERSION_MISMATCH
              (atom_path @ ''.rule_version'') ''must equal terminal state-set rule_version'')
     @ (case capital_release_at a of
          None \<Rightarrow> issue_if True MISSING_CAPITAL_RELEASE_AT (atom_path @ ''.capital_release_at'')
            ''must identify capital release time''
        | Some t \<Rightarrow> issue_if (t < as_of p) STALE_CAPITAL_RELEASE_AT (atom_path @ ''.capital_release_at'')
            ''must be after problem as_of'')
     @ concat (map (\<lambda>x. identifier_issues (payout_action_id x) (atom_path @ ''.payouts.action_id'')) (payouts a))
     @ issue_if (\<not> set required \<subseteq> set (payout_ids a)) MISSING_ACTION_PAYOUT (atom_path @ ''.payouts'')
         ''must include every action for this contract''
     @ issue_if (length (remdups (payout_ids a)) \<noteq> length (payouts a)) DUPLICATE_ID (atom_path @ ''.payouts'')
         ''action payouts must be unique''
     @ validate_payouts p required atom_path 0 (payouts a)"

fun validate_atoms ::
  "ArbitrageProblem \<Rightarrow> TerminalStateSet \<Rightarrow> string list \<Rightarrow> string \<Rightarrow> nat \<Rightarrow> string list \<Rightarrow> TerminalAtom list
     \<Rightarrow> ModelIssue list" where
  "validate_atoms p s required prefix i seen [] = []"
| "validate_atoms p s required prefix i seen (a # as) =
     validate_atom p s required seen (indexed (prefix @ ''.atoms'') i) a
     @ validate_atoms p s required prefix (Suc i) (if blank (atom_id a) then seen else atom_id a # seen) as"

text \<open>The atom ids seen after a state set has been processed.\<close>

definition seen_atoms :: "string list \<Rightarrow> TerminalAtom list \<Rightarrow> string list" where
  "seen_atoms seen as = rev (filter (\<lambda>i. \<not> blank i) (map atom_id as)) @ seen"

definition validate_state_set ::
  "ArbitrageProblem \<Rightarrow> string \<Rightarrow> string list \<Rightarrow> string list \<Rightarrow> TerminalStateSet \<Rightarrow> ModelIssue list" where
  "validate_state_set p prefix seen_contracts atoms_seen s =
     (let state_actions = (if blank (state_contract_id s) then []
                           else actions_by_contract p (state_contract_id s))
      in
      identifier_issues (state_contract_id s) (prefix @ ''.market_contract_id'')
      @ issue_if (\<not> blank (state_contract_id s) \<and> state_contract_id s \<in> set seen_contracts) DUPLICATE_ID
          (prefix @ ''.market_contract_id'') ''market_contract_id must be unique''
      @ issue_if (\<not> blank (state_contract_id s) \<and> actions_by_contract p (state_contract_id s) = [])
          UNKNOWN_CONTRACT_REFERENCE (prefix @ ''.market_contract_id'') ''must reference an action contract''
      @ validate_observation_key (state_observation_key s) (prefix @ ''.settlement_observation_key'')
      @ identifier_issues (state_rule_version s) (prefix @ ''.rule_version'')
      @ issue_if (atoms s = []) MISSING_TERMINAL_ATOMS (prefix @ ''.atoms'')
          ''must contain at least one terminal atom''
      @ concat (map (\<lambda>a. issue_if (settlement_observation_key a \<noteq> state_observation_key s)
            OBSERVATION_KEY_MISMATCH (prefix @ ''.settlement_observation_key'')
            ''must match each action for this contract'') state_actions)
      @ validate_atoms p s (map action_id state_actions) prefix 0 atoms_seen (atoms s))"

fun validate_state_sets ::
  "ArbitrageProblem \<Rightarrow> nat \<Rightarrow> string list \<Rightarrow> string list \<Rightarrow> TerminalStateSet list \<Rightarrow> ModelIssue list" where
  "validate_state_sets p i seen_contracts atoms_seen [] = []"
| "validate_state_sets p i seen_contracts atoms_seen (s # ss) =
     validate_state_set p (indexed ''terminal_state_sets'' i) seen_contracts atoms_seen s
     @ validate_state_sets p (Suc i)
         (if blank (state_contract_id s) then seen_contracts else state_contract_id s # seen_contracts)
         (seen_atoms atoms_seen (atoms s)) ss"

definition known_contract_ids :: "ArbitrageProblem \<Rightarrow> string list" where
  "known_contract_ids p = filter (\<lambda>i. \<not> blank i) (map state_contract_id (terminal_state_sets p))"

definition known_atom_ids :: "ArbitrageProblem \<Rightarrow> string list" where
  "known_atom_ids p =
     filter (\<lambda>i. \<not> blank i) (map atom_id (concat (map atoms (terminal_state_sets p))))"

definition validate_coverage :: "ArbitrageProblem \<Rightarrow> ModelIssue list" where
  "validate_coverage p =
     concat (map (\<lambda>c. issue_if (c \<notin> set (known_contract_ids p)) MISSING_TERMINAL_STATE_SET
         ''terminal_state_sets'' (''missing terminal states for '' @ c))
       (first_occurrences (map market_contract_id (grouped_actions p))))"

subsection \<open>Constraints\<close>

definition state_of_contract :: "ArbitrageProblem \<Rightarrow> string \<Rightarrow> TerminalStateSet option" where
  "state_of_contract p c = find (\<lambda>s. state_contract_id s = c) (terminal_state_sets p)"

definition validate_native_complement :: "ArbitrageProblem \<Rightarrow> string \<Rightarrow> string \<Rightarrow> string \<Rightarrow> ModelIssue list" where
  "validate_native_complement p rpath left right =
     (let refs = rpath @ ''.contract_ids'';
          native_kinds = {NORMAL_YES, NORMAL_NO, SPLIT} in
      issue_if (left = right) NATIVE_COMPLEMENT_CONTRACTS_NOT_DISTINCT refs
        ''NATIVE_COMPLEMENT requires two distinct contracts''
      @ (case (actions_by_contract p left, actions_by_contract p right) of
           ([l], [r]) \<Rightarrow>
             issue_if ({side l, side r} \<noteq> {BUY_YES, BUY_NO}) NATIVE_COMPLEMENT_ACTION_SIDES refs
               ''NATIVE_COMPLEMENT requires one BUY_YES and one BUY_NO action''
         | _ \<Rightarrow> issue_if True NATIVE_COMPLEMENT_ACTION_ARITY refs
               ''NATIVE_COMPLEMENT requires one action per contract'')
      @ (case (state_of_contract p left, state_of_contract p right) of
           (Some l, Some r) \<Rightarrow>
             issue_if (state_observation_key l \<noteq> state_observation_key r)
               NATIVE_COMPLEMENT_OBSERVATION_MISMATCH refs
               ''NATIVE_COMPLEMENT contracts must share settlement observation identity''
             @ issue_if (length (atoms l) \<noteq> 3 \<or> length (atoms r) \<noteq> 3
                   \<or> atom_kind ` set (atoms l) \<noteq> native_kinds \<or> atom_kind ` set (atoms r) \<noteq> native_kinds)
                 NATIVE_COMPLEMENT_TERMINAL_KINDS refs
                 ''NATIVE_COMPLEMENT requires NORMAL_YES, NORMAL_NO, and SPLIT atoms per contract''
         | _ \<Rightarrow> []))"

fun validate_contract_references ::
  "ArbitrageProblem \<Rightarrow> string \<Rightarrow> nat \<Rightarrow> string list \<Rightarrow> ModelIssue list" where
  "validate_contract_references p rpath i [] = []"
| "validate_contract_references p rpath i (c # cs) =
     identifier_issues c (indexed (rpath @ ''.contract_ids'') i)
     @ issue_if (\<not> blank c \<and> c \<notin> set (known_contract_ids p)) UNKNOWN_CONTRACT_REFERENCE
         (rpath @ ''.contract_ids'') ''must reference a terminal contract''
     @ validate_contract_references p rpath (Suc i) cs"

definition validate_relation ::
  "ArbitrageProblem \<Rightarrow> string \<Rightarrow> string list \<Rightarrow> RelationConstraint \<Rightarrow> ModelIssue list" where
  "validate_relation p rpath seen r =
     identifier_issues (relation_constraint_id r) (rpath @ ''.constraint_id'')
     @ issue_if (\<not> blank (relation_constraint_id r) \<and> relation_constraint_id r \<in> set seen) DUPLICATE_ID
         (rpath @ ''.constraint_id'') ''constraint_id must be unique''
     @ identifier_issues (relation_rule_version r) (rpath @ ''.rule_version'')
     @ issue_if (relation_kind r = IMPLIES \<and> length (contract_ids r) \<noteq> 2) INVALID_RELATION_ARITY
         (rpath @ ''.contract_ids'') ''IMPLIES requires ordered antecedent and consequent''
     @ (if relation_kind r = NATIVE_COMPLEMENT \<and> length (contract_ids r) \<noteq> 2
        then issue_if True INVALID_RELATION_ARITY (rpath @ ''.contract_ids'')
          ''NATIVE_COMPLEMENT requires exactly two contracts''
        else issue_if (relation_kind r \<notin> {IMPLIES, NATIVE_COMPLEMENT} \<and> length (contract_ids r) < 2)
          INVALID_RELATION_ARITY (rpath @ ''.contract_ids'') ''relation requires at least two contracts'')
     @ validate_contract_references p rpath 0 (contract_ids r)
     @ (case contract_ids r of
          [left, right] \<Rightarrow>
            if relation_kind r = NATIVE_COMPLEMENT then validate_native_complement p rpath left right else []
        | _ \<Rightarrow> [])"

fun validate_relations ::
  "ArbitrageProblem \<Rightarrow> nat \<Rightarrow> string list \<Rightarrow> RelationConstraint list \<Rightarrow> ModelIssue list" where
  "validate_relations p i seen [] = []"
| "validate_relations p i seen (r # rs) =
     validate_relation p (indexed ''constraint_model.relations'' i) seen r
     @ validate_relations p (Suc i)
         (if blank (relation_constraint_id r) then seen else relation_constraint_id r # seen) rs"

fun validate_atom_references :: "ArbitrageProblem \<Rightarrow> string \<Rightarrow> nat \<Rightarrow> string list \<Rightarrow> ModelIssue list" where
  "validate_atom_references p fpath i [] = []"
| "validate_atom_references p fpath i (a # as) =
     identifier_issues a (indexed (fpath @ ''.atom_ids'') i)
     @ issue_if (\<not> blank a \<and> a \<notin> set (known_atom_ids p)) UNKNOWN_ATOM_REFERENCE
         (fpath @ ''.atom_ids'') ''must reference a terminal atom''
     @ validate_atom_references p fpath (Suc i) as"

definition validate_forbidden ::
  "ArbitrageProblem \<Rightarrow> string \<Rightarrow> string list \<Rightarrow> ForbiddenAtomCombination \<Rightarrow> ModelIssue list" where
  "validate_forbidden p fpath seen f =
     identifier_issues (forbidden_constraint_id f) (fpath @ ''.constraint_id'')
     @ issue_if (\<not> blank (forbidden_constraint_id f) \<and> forbidden_constraint_id f \<in> set seen) DUPLICATE_ID
         (fpath @ ''.constraint_id'') ''constraint_id must be unique''
     @ identifier_issues (forbidden_rule_version f) (fpath @ ''.rule_version'')
     @ validate_atom_references p fpath 0 (forbidden_atom_ids f)"

fun validate_forbidden_combinations ::
  "ArbitrageProblem \<Rightarrow> nat \<Rightarrow> string list \<Rightarrow> ForbiddenAtomCombination list \<Rightarrow> ModelIssue list" where
  "validate_forbidden_combinations p i seen [] = []"
| "validate_forbidden_combinations p i seen (f # fs) =
     validate_forbidden p (indexed ''constraint_model.forbidden_atom_combinations'' i) seen f
     @ validate_forbidden_combinations p (Suc i)
         (if blank (forbidden_constraint_id f) then seen else forbidden_constraint_id f # seen) fs"

definition relation_ids :: "ArbitrageProblem \<Rightarrow> string list" where
  "relation_ids p = filter (\<lambda>i. \<not> blank i) (map relation_constraint_id (relations (constraint_model p)))"

subsection \<open>Qualification constraints\<close>

definition validate_qualification :: "string \<Rightarrow> string list \<Rightarrow> QualificationConstraint \<Rightarrow> ModelIssue list" where
  "validate_qualification qpath seen q =
     identifier_issues (qualification_id q) (qpath @ ''.constraint_id'')
     @ issue_if (\<not> blank (qualification_id q) \<and> qualification_id q \<in> set seen) DUPLICATE_ID
         (qpath @ ''.constraint_id'') ''qualification constraint_id must be unique''
     @ identifier_issues (qualification_rule_version q) (qpath @ ''.rule_version'')
     @ validate_int (threshold_numerator q) (qpath @ ''.threshold_numerator'')
     @ validate_int (threshold_denominator q) (qpath @ ''.threshold_denominator'')
     @ issue_if (in_int64 (threshold_denominator q) \<and> threshold_denominator q \<le> 0) NON_POSITIVE_DENOMINATOR
         (qpath @ ''.threshold_denominator'') ''must be positive''"

fun validate_qualifications ::
  "nat \<Rightarrow> string list \<Rightarrow> QualificationConstraint list \<Rightarrow> ModelIssue list" where
  "validate_qualifications i seen [] = []"
| "validate_qualifications i seen (q # qs) =
     validate_qualification (indexed ''qualification_constraints'' i) seen q
     @ validate_qualifications (Suc i)
         (if blank (qualification_id q) then seen else qualification_id q # seen) qs"

subsection \<open>The whole check\<close>

definition validate_problem :: "ArbitrageProblem \<Rightarrow> ModelIssue list" where
  "validate_problem p =
     identifier_issues (schema_version p) ''schema_version''
     @ issue_if (schema_version p \<noteq> PROBLEM_SCHEMA_V1) INVALID_SCHEMA_VERSION ''schema_version''
         (''must equal '' @ PROBLEM_SCHEMA_V1)
     @ identifier_issues (problem_id p) ''problem_id''
     @ identifier_issues (problem_valuation_unit_id p) ''valuation_unit_id''
     @ validate_actions p 0 [] (actions p)
     @ validate_state_sets p 0 [] [] (terminal_state_sets p)
     @ validate_coverage p
     @ validate_relations p 0 [] (relations (constraint_model p))
     @ validate_forbidden_combinations p 0 (rev (relation_ids p))
         (forbidden_atom_combinations (constraint_model p))
     @ validate_qualifications 0 [] (qualification_constraints p)"


subsection \<open>What a valid problem is\<close>

text \<open>
  The declarative counterpart: every identifier is set, ids are unique, quantity bounds and cost
  slices fit together, every contract has exactly one terminal state set whose atoms pay every action
  of the contract, and every constraint refers to known contracts and atoms.
\<close>

definition wf_observation_key :: "SettlementObservationKey \<Rightarrow> bool" where
  "wf_observation_key k \<longleftrightarrow>
     obs_schema_version k = OBSERVATION_SCHEMA_V1 \<and> \<not> blank (oracle_id k) \<and> \<not> blank (indicator_id k)
     \<and> \<not> blank (obs_timezone k) \<and> \<not> blank (obs_rule_version k)"

fun wf_cost_slices :: "int \<Rightarrow> ExecutableCostSlice list \<Rightarrow> bool" where
  "wf_cost_slices previous_last [] \<longleftrightarrow> True"
| "wf_cost_slices previous_last (c # cs) \<longleftrightarrow>
     first_lot c = previous_last + 1 \<and> first_lot c \<le> last_lot c
     \<and> in_int64 (first_lot c) \<and> in_int64 (last_lot c) \<and> in_int64 (incremental_cost_upper_bound_units c)
     \<and> in_int64 (last_lot c * incremental_cost_upper_bound_units c) \<and> wf_cost_slices (last_lot c) cs"

definition wf_action :: "string \<Rightarrow> CandidateAction \<Rightarrow> bool" where
  "wf_action unit a \<longleftrightarrow>
     \<not> blank (action_id a) \<and> \<not> blank (venue_id a) \<and> \<not> blank (account_id a) \<and> \<not> blank (chain_id a)
     \<and> \<not> blank (market_contract_id a) \<and> \<not> blank (settlement_asset_id a) \<and> \<not> blank (asset_valuation_rule_id a)
     \<and> valuation_unit_id a = unit
     \<and> 0 < lot_step_units a \<and> 0 < quantity_scale a
     \<and> in_int64 (lot_step_units a) \<and> in_int64 (quantity_scale a)
     \<and> in_int64 (lot_step_units a * quantity_scale a)
     \<and> wf_observation_key (settlement_observation_key a)
     \<and> observation_start (settlement_observation_key a) \<le> observation_end (settlement_observation_key a)
     \<and> cost_slices a \<noteq> [] \<and> wf_cost_slices 0 (cost_slices a)
     \<and> 0 < min_quantity_lots a \<and> min_quantity_lots a \<le> max_quantity_lots a
     \<and> max_quantity_lots a \<le> last_lot (last (cost_slices a))"

definition wf_atom :: "instant \<Rightarrow> string \<Rightarrow> string list \<Rightarrow> TerminalAtom \<Rightarrow> bool" where
  "wf_atom now rule required a \<longleftrightarrow>
     \<not> blank (atom_id a) \<and> \<not> blank rule \<and> atom_rule_version a = Some rule
     \<and> (\<exists>t. capital_release_at a = Some t \<and> now \<le> t)
     \<and> distinct (map payout_action_id (payouts a))
     \<and> payout_action_id ` set (payouts a) = set required
     \<and> (\<forall>x \<in> set (payouts a). in_int64 (payout_lower_bound_per_lot_units x))"

definition contract_actions :: "ArbitrageProblem \<Rightarrow> string \<Rightarrow> CandidateAction list" where
  "contract_actions p c = filter (\<lambda>a. market_contract_id a = c) (actions p)"

definition wf_state_set :: "ArbitrageProblem \<Rightarrow> TerminalStateSet \<Rightarrow> bool" where
  "wf_state_set p s \<longleftrightarrow>
     \<not> blank (state_contract_id s) \<and> \<not> blank (state_rule_version s) \<and> atoms s \<noteq> []
     \<and> wf_observation_key (state_observation_key s)
     \<and> (\<forall>a \<in> set (contract_actions p (state_contract_id s)).
          settlement_observation_key a = state_observation_key s)
     \<and> (\<forall>a \<in> set (atoms s). wf_atom (as_of p) (state_rule_version s)
          (map action_id (contract_actions p (state_contract_id s))) a)"

definition wf_native_complement :: "ArbitrageProblem \<Rightarrow> string \<Rightarrow> string \<Rightarrow> bool" where
  "wf_native_complement p left right \<longleftrightarrow>
     left \<noteq> right
     \<and> (\<exists>l r. contract_actions p left = [l] \<and> contract_actions p right = [r]
          \<and> {side l, side r} = {BUY_YES, BUY_NO})
     \<and> (\<exists>l r. state_of_contract p left = Some l \<and> state_of_contract p right = Some r
          \<and> state_observation_key l = state_observation_key r
          \<and> length (atoms l) = 3 \<and> length (atoms r) = 3
          \<and> atom_kind ` set (atoms l) = {NORMAL_YES, NORMAL_NO, SPLIT}
          \<and> atom_kind ` set (atoms r) = {NORMAL_YES, NORMAL_NO, SPLIT})"

definition wf_relation :: "ArbitrageProblem \<Rightarrow> RelationConstraint \<Rightarrow> bool" where
  "wf_relation p r \<longleftrightarrow>
     \<not> blank (relation_constraint_id r) \<and> \<not> blank (relation_rule_version r)
     \<and> set (contract_ids r) \<subseteq> state_contract_id ` set (terminal_state_sets p)
     \<and> (case relation_kind r of
          IMPLIES \<Rightarrow> length (contract_ids r) = 2
        | NATIVE_COMPLEMENT \<Rightarrow>
            \<exists>left right. contract_ids r = [left, right] \<and> wf_native_complement p left right
        | _ \<Rightarrow> 2 \<le> length (contract_ids r))"

definition wf_forbidden :: "ArbitrageProblem \<Rightarrow> ForbiddenAtomCombination \<Rightarrow> bool" where
  "wf_forbidden p f \<longleftrightarrow>
     \<not> blank (forbidden_constraint_id f) \<and> \<not> blank (forbidden_rule_version f)
     \<and> set (forbidden_atom_ids f) \<subseteq> atom_id ` (\<Union>s \<in> set (terminal_state_sets p). set (atoms s))"

definition wf_qualification :: "QualificationConstraint \<Rightarrow> bool" where
  "wf_qualification q \<longleftrightarrow>
     \<not> blank (qualification_id q) \<and> \<not> blank (qualification_rule_version q)
     \<and> in_int64 (threshold_numerator q) \<and> in_int64 (threshold_denominator q) \<and> 0 < threshold_denominator q"

definition wf_problem :: "ArbitrageProblem \<Rightarrow> bool" where
  "wf_problem p \<longleftrightarrow>
     schema_version p = PROBLEM_SCHEMA_V1 \<and> \<not> blank (problem_id p) \<and> \<not> blank (problem_valuation_unit_id p)
     \<and> distinct (map action_id (actions p))
     \<and> (\<forall>a \<in> set (actions p). wf_action (problem_valuation_unit_id p) a)
     \<and> distinct (map state_contract_id (terminal_state_sets p))
     \<and> distinct (map atom_id (concat (map atoms (terminal_state_sets p))))
     \<and> (\<forall>s \<in> set (terminal_state_sets p). wf_state_set p s)
     \<and> state_contract_id ` set (terminal_state_sets p) = market_contract_id ` set (actions p)
     \<and> distinct (map relation_constraint_id (relations (constraint_model p))
          @ map forbidden_constraint_id (forbidden_atom_combinations (constraint_model p)))
     \<and> (\<forall>r \<in> set (relations (constraint_model p)). wf_relation p r)
     \<and> (\<forall>f \<in> set (forbidden_atom_combinations (constraint_model p)). wf_forbidden p f)
     \<and> distinct (map qualification_id (qualification_constraints p))
     \<and> (\<forall>q \<in> set (qualification_constraints p). wf_qualification q)"

subsection \<open>The check and the declaration agree\<close>

lemma schema_constants_not_blank [simp]:
  "\<not> blank PROBLEM_SCHEMA_V1" "\<not> blank OBSERVATION_SCHEMA_V1"
  by (simp_all add: blank_def py_space_def PROBLEM_SCHEMA_V1_def OBSERVATION_SCHEMA_V1_def)

lemma identifier_issues_Nil [simp]: "identifier_issues v p = [] \<longleftrightarrow> \<not> blank v"
  by (simp add: identifier_issues_def)

lemma validate_int_Nil [simp]: "validate_int v p = [] \<longleftrightarrow> in_int64 v"
  by (simp add: validate_int_def)

lemma validate_product_Nil [simp]: "validate_product l r p = [] \<longleftrightarrow> in_int64 (l * r)"
  by (simp add: validate_product_def)

lemma validate_observation_key_Nil [simp]: "validate_observation_key k p = [] \<longleftrightarrow> wf_observation_key k"
  by (auto simp: validate_observation_key_def wf_observation_key_def)

lemma validate_cost_slices_Nil [simp]: "validate_cost_slices prefix i prev cs = [] \<longleftrightarrow> wf_cost_slices prev cs"
  by (induction cs arbitrary: i prev) (auto simp: Let_def)

text \<open>Contiguous slices: the quantity bounds are in range without a check of their own.\<close>

lemma wf_cost_slices_last:
  "wf_cost_slices prev cs \<Longrightarrow> cs \<noteq> [] \<Longrightarrow> prev < last_lot (last cs) \<and> in_int64 (last_lot (last cs))"
  by (induction cs arbitrary: prev) (auto, fastforce)

lemma int64_between: "in_int64 u \<Longrightarrow> 0 < v \<Longrightarrow> v \<le> u \<Longrightarrow> in_int64 v"
  by (auto simp: int64_defs)

lemma validate_action_Nil:
  assumes "\<not> blank (problem_valuation_unit_id p)"
  shows "validate_action p prefix seen a = []
           \<longleftrightarrow> wf_action (problem_valuation_unit_id p) a \<and> action_id a \<notin> set seen"
proof -
  have "cost_slices a \<noteq> [] \<Longrightarrow> wf_cost_slices 0 (cost_slices a) \<Longrightarrow> 0 < v
      \<Longrightarrow> v \<le> last_lot (last (cost_slices a)) \<Longrightarrow> in_int64 v" for v
    using wf_cost_slices_last int64_between by blast
  then show ?thesis
    using assms by (fastforce simp: validate_action_def wf_action_def identifier_value_def not_less not_le)
qed


text \<open>The loops over elements with unique ids: each element is well formed and its id is new.\<close>

lemma validate_actions_Nil:
  assumes "\<not> blank (problem_valuation_unit_id p)"
  shows "validate_actions p i seen as = []
           \<longleftrightarrow> (\<forall>a \<in> set as. wf_action (problem_valuation_unit_id p) a) \<and> distinct (map action_id as)
             \<and> action_id ` set as \<inter> set seen = {}"
  using assms
  by (induction as arbitrary: i seen) (auto simp: validate_action_Nil wf_action_def)

lemma validate_payouts_Nil:
  assumes "set required \<subseteq> set (known_action_ids p)"
  shows "validate_payouts p required prefix i xs = []
           \<longleftrightarrow> (\<forall>x \<in> set xs. in_int64 (payout_lower_bound_per_lot_units x) \<and> payout_action_id x \<in> set required
                  \<and> \<not> blank (payout_action_id x))"
  using assms by (induction xs arbitrary: i) (auto simp: Let_def)

lemma concat_map_Nil: "concat (map f xs) = [] \<longleftrightarrow> (\<forall>x \<in> set xs. f x = [])"
  by (induction xs) auto

lemma length_filter_eq_iff: "length (filter P xs) = length xs \<longleftrightarrow> (\<forall>x \<in> set xs. P x)"
  by (induction xs) (auto, metis Suc_n_not_le_n length_filter_le)

lemma set_payout_ids: "set (payout_ids a) = {i \<in> payout_action_id ` set (payouts a). \<not> blank i}"
  by (auto simp: payout_ids_def)

lemma payout_ids_distinct:
  "length (remdups (payout_ids a)) = length (payouts a)
     \<longleftrightarrow> distinct (map payout_action_id (payouts a)) \<and> (\<forall>x \<in> set (payouts a). \<not> blank (payout_action_id x))"
    (is "?L \<longleftrightarrow> ?D \<and> ?B")
proof -
  let ?ids = "map payout_action_id (payouts a)"
  have same: "payout_ids a = ?ids" if ?B
    using that by (simp add: payout_ids_def filter_id_conv)
  have "length (payout_ids a) = length ?ids" if ?L
    using that length_remdups_leq[of "payout_ids a"] length_filter_le[of "\<lambda>i. \<not> blank i" ?ids]
    unfolding payout_ids_def length_map by linarith
  then have "?B" if ?L
    using that by (simp only: payout_ids_def length_filter_eq_iff) simp
  then show ?thesis
    using same by (metis distinct_remdups_id length_map length_remdups_eq distinct_remdups)
qed

lemma validate_atom_Nil:
  assumes "set required \<subseteq> set (known_action_ids p)" and "\<not> blank (state_rule_version s)"
  shows "validate_atom p s required seen prefix a = []
           \<longleftrightarrow> wf_atom (as_of p) (state_rule_version s) required a \<and> atom_id a \<notin> set seen"
proof -
  have known: "\<not> blank i" if "i \<in> set required" for i
    using that assms(1) by (auto simp: known_action_ids_def)
  show ?thesis
    unfolding validate_atom_def wf_atom_def
    using assms(2) known
    by (cases "atom_rule_version a"; cases "capital_release_at a")
      (auto simp: validate_payouts_Nil[OF assms(1)] payout_ids_distinct concat_map_Nil set_payout_ids not_less)
qed

lemma validate_atoms_Nil:
  assumes "set required \<subseteq> set (known_action_ids p)" and "\<not> blank (state_rule_version s)"
  shows "validate_atoms p s required prefix i seen as = []
           \<longleftrightarrow> (\<forall>a \<in> set as. wf_atom (as_of p) (state_rule_version s) required a) \<and> distinct (map atom_id as)
             \<and> atom_id ` set as \<inter> set seen = {}"
  by (induction as arbitrary: i seen) (auto simp: validate_atom_Nil[OF assms] wf_atom_def)

lemma set_seen_atoms [simp]: "set (seen_atoms seen as) = {i \<in> atom_id ` set as. \<not> blank i} \<union> set seen"
  by (auto simp: seen_atoms_def)

text \<open>Once the actions are well formed, grouping them by contract drops none.\<close>

lemma grouped_actions_wf:
  assumes "\<forall>a \<in> set (actions p). wf_action (problem_valuation_unit_id p) a"
  shows "grouped_actions p = actions p" "actions_by_contract p = contract_actions p"
    "known_action_ids p = map action_id (actions p)"
  using assms
  by (auto simp: grouped_actions_def actions_by_contract_def contract_actions_def known_action_ids_def
      wf_action_def filter_id_conv fun_eq_iff)

lemma validate_state_set_Nil:
  assumes "\<forall>a \<in> set (actions p). wf_action (problem_valuation_unit_id p) a"
  shows "validate_state_set p prefix seen atoms_seen s = []
           \<longleftrightarrow> wf_state_set p s \<and> state_contract_id s \<notin> set seen
             \<and> state_contract_id s \<in> market_contract_id ` set (actions p)
             \<and> distinct (map atom_id (atoms s)) \<and> atom_id ` set (atoms s) \<inter> set atoms_seen = {}"
proof (cases "blank (state_contract_id s) \<or> blank (state_rule_version s)")
  case True
  then show ?thesis
    by (auto simp: validate_state_set_def wf_state_set_def Let_def)
next
  case False
  have known: "set (map action_id (contract_actions p c)) \<subseteq> set (known_action_ids p)" for c
    by (auto simp: grouped_actions_wf[OF assms] contract_actions_def)
  have empty: "contract_actions p c = [] \<longleftrightarrow> c \<notin> market_contract_id ` set (actions p)" for c
    by (auto simp: contract_actions_def filter_empty_conv)
  show ?thesis
    using False
    by (simp add: validate_state_set_def wf_state_set_def Let_def grouped_actions_wf[OF assms]
        validate_atoms_Nil[OF known] concat_map_Nil empty) blast
qed

lemma validate_state_sets_Nil:
  assumes "\<forall>a \<in> set (actions p). wf_action (problem_valuation_unit_id p) a"
  shows "validate_state_sets p i seen atoms_seen ss = []
           \<longleftrightarrow> (\<forall>s \<in> set ss. wf_state_set p s) \<and> state_contract_id ` set ss \<subseteq> market_contract_id ` set (actions p)
             \<and> distinct (map state_contract_id ss) \<and> state_contract_id ` set ss \<inter> set seen = {}
             \<and> distinct (map atom_id (concat (map atoms ss)))
             \<and> atom_id ` set (concat (map atoms ss)) \<inter> set atoms_seen = {}"
proof (induction ss arbitrary: i seen atoms_seen)
  case (Cons s ss)
  show ?case
  proof (cases "wf_state_set p s")
    case False
    then show ?thesis
      by (simp add: validate_state_set_Nil[OF assms])
  next
    case True
    then have named: "\<not> blank (state_contract_id s)"
      and atoms_named: "set (seen_atoms atoms_seen (atoms s)) = atom_id ` set (atoms s) \<union> set atoms_seen"
      by (auto simp: wf_state_set_def wf_atom_def)
    show ?thesis
      using True named
      by (simp add: validate_state_set_Nil[OF assms] Cons.IH atoms_named Int_Un_distrib Int_Un_distrib2
          Int_commute Int_insert_right del: set_seen_atoms)
        (simp add: conj_ac image_Un Int_Un_distrib)
  qed
qed simp

lemma validate_contract_references_Nil [simp]:
  "validate_contract_references p prefix i cs = []
     \<longleftrightarrow> (\<forall>c \<in> set cs. \<not> blank c \<and> c \<in> set (known_contract_ids p))"
  by (induction cs arbitrary: i) auto

lemma validate_atom_references_Nil [simp]:
  "validate_atom_references p prefix i as = []
     \<longleftrightarrow> (\<forall>a \<in> set as. \<not> blank a \<and> a \<in> set (known_atom_ids p))"
  by (induction as arbitrary: i) auto

lemma validate_forbidden_combinations_Nil:
  "validate_forbidden_combinations p i seen fs = []
     \<longleftrightarrow> (\<forall>f \<in> set fs. \<not> blank (forbidden_constraint_id f) \<and> \<not> blank (forbidden_rule_version f)
            \<and> set (forbidden_atom_ids f) \<subseteq> set (known_atom_ids p))
       \<and> distinct (map forbidden_constraint_id fs) \<and> forbidden_constraint_id ` set fs \<inter> set seen = {}"
  by (induction fs arbitrary: i seen) (auto simp: validate_forbidden_def known_atom_ids_def)

lemma validate_qualifications_Nil:
  "validate_qualifications i seen qs = []
     \<longleftrightarrow> (\<forall>q \<in> set qs. wf_qualification q) \<and> distinct (map qualification_id qs)
       \<and> qualification_id ` set qs \<inter> set seen = {}"
  by (induction qs arbitrary: i seen) (auto simp: validate_qualification_def wf_qualification_def)

lemma validate_native_complement_Nil:
  assumes "\<forall>a \<in> set (actions p). wf_action (problem_valuation_unit_id p) a"
    and "left \<in> state_contract_id ` set (terminal_state_sets p)"
    and "right \<in> state_contract_id ` set (terminal_state_sets p)"
  shows "validate_native_complement p prefix left right = [] \<longleftrightarrow> wf_native_complement p left right"
proof -
  have found: "\<exists>s. state_of_contract p c = Some s" if "c \<in> state_contract_id ` set (terminal_state_sets p)" for c
    using that
    by (cases "state_of_contract p c") (auto simp: state_of_contract_def find_None_iff)
  show ?thesis
    using found[OF assms(2)] found[OF assms(3)]
    by (auto simp: validate_native_complement_def wf_native_complement_def Let_def grouped_actions_wf[OF assms(1)]
        split: list.splits)
qed

lemma validate_relation_Nil:
  assumes "\<forall>a \<in> set (actions p). wf_action (problem_valuation_unit_id p) a"
    and "\<forall>s \<in> set (terminal_state_sets p). \<not> blank (state_contract_id s)"
  shows "validate_relation p prefix seen r = [] \<longleftrightarrow> wf_relation p r \<and> relation_constraint_id r \<notin> set seen"
proof -
  have known: "(\<forall>c \<in> set cs. \<not> blank c \<and> c \<in> set (known_contract_ids p))
      \<longleftrightarrow> set cs \<subseteq> state_contract_id ` set (terminal_state_sets p)" for cs
    using assms(2) by (auto simp: known_contract_ids_def)
  have pair: "length (contract_ids r) = 2 \<longleftrightarrow> (\<exists>left right. contract_ids r = [left, right])"
    by (auto simp: numeral_2_eq_2 length_Suc_conv)
  show ?thesis
  proof (cases "set (contract_ids r) \<subseteq> state_contract_id ` set (terminal_state_sets p)")
    case True
    then show ?thesis
      using validate_native_complement_Nil[OF assms(1)]
      by (cases "relation_kind r")
        (auto simp: validate_relation_def wf_relation_def known pair not_less split: list.splits)
  next
    case False
    then show ?thesis
      by (auto simp: validate_relation_def wf_relation_def known)
  qed
qed

lemma validate_relations_Nil:
  assumes "\<forall>a \<in> set (actions p). wf_action (problem_valuation_unit_id p) a"
    and "\<forall>s \<in> set (terminal_state_sets p). \<not> blank (state_contract_id s)"
  shows "validate_relations p i seen rs = []
           \<longleftrightarrow> (\<forall>r \<in> set rs. wf_relation p r) \<and> distinct (map relation_constraint_id rs)
             \<and> relation_constraint_id ` set rs \<inter> set seen = {}"
  by (induction rs arbitrary: i seen) (auto simp: validate_relation_Nil[OF assms] wf_relation_def)

text \<open>The checks behind the actions and the state sets, once these are known to be well formed.\<close>

lemma validate_constraints_Nil:
  assumes acts: "\<forall>a \<in> set (actions p). wf_action (problem_valuation_unit_id p) a"
    and states: "\<forall>s \<in> set (terminal_state_sets p). wf_state_set p s"
  shows "validate_relations p 0 [] (relations (constraint_model p)) = []
      \<and> validate_forbidden_combinations p 0 (rev (relation_ids p)) (forbidden_atom_combinations (constraint_model p)) = []
    \<longleftrightarrow> distinct (map relation_constraint_id (relations (constraint_model p))
          @ map forbidden_constraint_id (forbidden_atom_combinations (constraint_model p)))
      \<and> (\<forall>r \<in> set (relations (constraint_model p)). wf_relation p r)
      \<and> (\<forall>f \<in> set (forbidden_atom_combinations (constraint_model p)). wf_forbidden p f)"
proof -
  have named: "\<forall>s \<in> set (terminal_state_sets p). \<not> blank (state_contract_id s)"
    using states by (auto simp: wf_state_set_def)
  have atoms_named: "set (known_atom_ids p) = atom_id ` (\<Union>s \<in> set (terminal_state_sets p). set (atoms s))"
    using states by (auto simp: known_atom_ids_def wf_state_set_def wf_atom_def)
  have ids: "\<forall>r \<in> set (relations (constraint_model p)). wf_relation p r \<Longrightarrow>
      set (relation_ids p) = relation_constraint_id ` set (relations (constraint_model p))"
    by (auto simp: relation_ids_def wf_relation_def)
  show ?thesis
    using ids
    by (auto simp: validate_relations_Nil[OF acts named] validate_forbidden_combinations_Nil atoms_named
        wf_forbidden_def)
      (metis (no_types, lifting) disjoint_iff image_eqI)
qed

text \<open>The constraints of a valid problem can be replaced by other well-formed ones.\<close>

lemma wf_with_constraints:
  assumes "wf_problem p"
    and "distinct (map relation_constraint_id (relations m) @ map forbidden_constraint_id (forbidden_atom_combinations m))"
    and "\<And>r. r \<in> set (relations m) \<Longrightarrow> wf_relation p r"
    and "\<And>f. f \<in> set (forbidden_atom_combinations m) \<Longrightarrow> wf_forbidden p f"
  shows "wf_problem (p\<lparr>constraint_model := m\<rparr>)"
proof -
  have native: "wf_native_complement (p\<lparr>constraint_model := m\<rparr>) l r = wf_native_complement p l r" for l r
    by (simp add: wf_native_complement_def contract_actions_def state_of_contract_def)
  have "wf_state_set (p\<lparr>constraint_model := m\<rparr>) s = wf_state_set p s" for s
    by (simp add: wf_state_set_def contract_actions_def)
  moreover have "wf_relation (p\<lparr>constraint_model := m\<rparr>) r = wf_relation p r" for r
    by (simp add: wf_relation_def native cong: RelationKind.case_cong)
  moreover have "wf_forbidden (p\<lparr>constraint_model := m\<rparr>) f = wf_forbidden p f" for f
    by (simp add: wf_forbidden_def)
  ultimately show ?thesis
    using assms by (simp add: wf_problem_def)
qed

lemma validate_problem_Nil_iff: "validate_problem p = [] \<longleftrightarrow> wf_problem p"
proof (cases "\<not> blank (problem_valuation_unit_id p) \<and> (\<forall>a \<in> set (actions p). wf_action (problem_valuation_unit_id p) a)
    \<and> (\<forall>s \<in> set (terminal_state_sets p). wf_state_set p s)")
  case True
  then have acts: "\<forall>a \<in> set (actions p). wf_action (problem_valuation_unit_id p) a"
    and states: "\<forall>s \<in> set (terminal_state_sets p). wf_state_set p s"
    by auto
  have coverage: "validate_coverage p = [] \<longleftrightarrow> market_contract_id ` set (actions p) \<subseteq> state_contract_id ` set (terminal_state_sets p)"
    using states
    by (auto simp: validate_coverage_def known_contract_ids_def grouped_actions_wf[OF acts] wf_state_set_def
        concat_map_Nil)
  then show ?thesis
    using True validate_constraints_Nil[OF acts states]
    by (cases "schema_version p = PROBLEM_SCHEMA_V1")
      (simp_all add: validate_problem_def wf_problem_def validate_actions_Nil validate_state_sets_Nil[OF acts]
        validate_qualifications_Nil coverage set_eq_subset del: distinct_append distinct_map, argo)
next
  case False
  then show ?thesis
    by (auto simp: validate_problem_def wf_problem_def validate_actions_Nil validate_state_sets_Nil)
qed

text \<open>C36. \<open>validate_problem\<close> reports no issue exactly when the problem is well formed: the loops with
  their running sets of seen ids, the early skips and the cross checks between actions, terminal state
  sets and constraints amount to the declarative \<open>wf_problem\<close>.\<close>

theorem validate_problem_iff: "validate_problem p = [] \<longleftrightarrow> wf_problem p"
  by (rule validate_problem_Nil_iff)

end
