(* ===== verification/NLeg_Sample.thy ===== *)
theory NLeg_Sample
  imports NLeg_Validate
begin

section \<open>A concrete problem\<close>

text \<open>
  The problem at which theorems with hypotheses are applied: contract A implies contract B, the
  portfolio buys NO on A and YES on B, so that every world the implication allows pays at least one
  leg. Two cost slices on the first leg make the marginal price of a lot matter.
\<close>

definition sample_key :: SettlementObservationKey where
  "sample_key = \<lparr>obs_schema_version = OBSERVATION_SCHEMA_V1, oracle_id = ''oracle'', indicator_id = ''x'',
     observation_start = 0, observation_end = 10, obs_timezone = ''UTC'', obs_rule_version = ''v1''\<rparr>"

definition sample_action :: "string \<Rightarrow> string \<Rightarrow> ActionSide \<Rightarrow> ExecutableCostSlice list \<Rightarrow> CandidateAction" where
  "sample_action i c s slices = \<lparr>action_id = i, venue_id = ''poly'', account_id = ''acct'', chain_id = ''137'',
     market_contract_id = c, settlement_observation_key = sample_key, side = s, lot_step_units = 1,
     quantity_scale = 1, min_quantity_lots = 1, max_quantity_lots = 5, settlement_asset_id = ''usd-micro'',
     valuation_unit_id = ''usd-micro'', asset_valuation_rule_id = ''usd-micro-v1'', cost_slices = slices\<rparr>"

definition sample_slice :: "int \<Rightarrow> int \<Rightarrow> int \<Rightarrow> ExecutableCostSlice" where
  "sample_slice f l c = \<lparr>first_lot = f, last_lot = l, incremental_cost_upper_bound_units = c\<rparr>"

definition sample_atom :: "string \<Rightarrow> TerminalKind \<Rightarrow> string \<Rightarrow> int \<Rightarrow> instant \<Rightarrow> TerminalAtom" where
  "sample_atom i k act v t = \<lparr>atom_id = i, atom_kind = k, atom_rule_version = Some ''v1'',
     payouts = [\<lparr>payout_action_id = act, payout_lower_bound_per_lot_units = v\<rparr>], capital_release_at = Some t\<rparr>"

definition sample_a :: CandidateAction where
  "sample_a = sample_action ''a-no'' ''A'' BUY_NO [sample_slice 1 2 400000, sample_slice 3 5 450000]"

definition sample_b :: CandidateAction where
  "sample_b = sample_action ''b-yes'' ''B'' BUY_YES [sample_slice 1 5 420000]"

definition sample_state_a :: TerminalStateSet where
  "sample_state_a = \<lparr>state_contract_id = ''A'', state_observation_key = sample_key, state_rule_version = ''v1'',
     atoms = [sample_atom ''a1'' NORMAL_YES ''a-no'' 0 5000000, sample_atom ''a2'' NORMAL_NO ''a-no'' 1000000 6000000]\<rparr>"

definition sample_state_b :: TerminalStateSet where
  "sample_state_b = \<lparr>state_contract_id = ''B'', state_observation_key = sample_key, state_rule_version = ''v1'',
     atoms = [sample_atom ''b1'' NORMAL_YES ''b-yes'' 990000 5000000, sample_atom ''b2'' NORMAL_NO ''b-yes'' 0 7000000]\<rparr>"

definition sample_relation :: RelationConstraint where
  "sample_relation = \<lparr>relation_constraint_id = ''r1'', relation_kind = IMPLIES, contract_ids = [''A'', ''B''],
     relation_rule_version = ''v1''\<rparr>"

definition sample_qualification :: QualificationConstraint where
  "sample_qualification = \<lparr>qualification_id = ''q1'', qualification_rule_version = ''v1'',
     metric = RETURN_ON_COST_PPM, comparison = GREATER_THAN_OR_EQUAL, threshold_numerator = 10000,
     threshold_denominator = 1\<rparr>"

definition sample_problem :: ArbitrageProblem where
  "sample_problem = \<lparr>schema_version = PROBLEM_SCHEMA_V1, problem_id = ''p1'', as_of = 0,
     problem_valuation_unit_id = ''usd-micro'', actions = [sample_a, sample_b],
     terminal_state_sets = [sample_state_a, sample_state_b],
     constraint_model = \<lparr>relations = [sample_relation], forbidden_atom_combinations = []\<rparr>,
     qualification_constraints = [sample_qualification]\<rparr>"

definition sample_quantities :: "ActionQuantity list" where
  "sample_quantities = [\<lparr>quantity_action_id = ''a-no'', quantity_lots = 3\<rparr>,
                        \<lparr>quantity_action_id = ''b-yes'', quantity_lots = 3\<rparr>]"

definition sample_budget :: OracleBudget where
  "sample_budget = \<lparr>max_quantity_vectors = 100, max_joint_states = 100, max_support_rechecks = 10\<rparr>"

lemmas sample_defs = sample_key_def sample_action_def sample_slice_def sample_atom_def sample_a_def
  sample_b_def sample_state_a_def sample_state_b_def sample_relation_def sample_qualification_def
  sample_problem_def sample_quantities_def sample_budget_def

lemma sample_wf_key: "wf_observation_key sample_key"
  by (simp add: wf_observation_key_def sample_key_def blank_def py_space_def)

lemma sample_wf_actions: "wf_action ''usd-micro'' sample_a" "wf_action ''usd-micro'' sample_b"
  using sample_wf_key
  by (simp_all add: wf_action_def sample_a_def sample_b_def sample_action_def sample_slice_def int64_defs
      blank_def py_space_def) (simp_all add: sample_key_def)

lemma sample_wf_states: "wf_state_set sample_problem sample_state_a" "wf_state_set sample_problem sample_state_b"
  using sample_wf_key
  by (simp_all add: wf_state_set_def wf_atom_def contract_actions_def sample_problem_def sample_state_a_def
      sample_state_b_def sample_atom_def sample_a_def sample_b_def sample_action_def int64_defs blank_def py_space_def)

lemma sample_wf: "wf_problem sample_problem"
  using sample_wf_actions sample_wf_states
  by (simp add: wf_problem_def)
    (simp add: sample_problem_def sample_state_a_def sample_state_b_def sample_atom_def sample_a_def sample_b_def
      sample_action_def sample_relation_def sample_qualification_def wf_relation_def wf_qualification_def
      int64_defs blank_def py_space_def)

end
