(* ===== verification/Sha256.thy ===== *)
theory Sha256
  imports Py_Prelude "HOL-Library.Word"
begin

section \<open>SHA-256\<close>

text \<open>
  \<open>hashlib.sha256(text.encode()).hexdigest()\<close>: the UTF-8 bytes of a string of code points below 256,
  the FIPS 180-4 padding, message schedule and compression on 32-bit words, and the hexadecimal
  digest. The fingerprints of \<^verbatim>\<open>prediction_n_leg.py\<close> are built on it; no theorem assumes that two
  digests differ.
\<close>

unbundle bit_operations_syntax

type_synonym w32 = "32 word"

definition utf8_bytes :: "string \<Rightarrow> nat list" where
  "utf8_bytes s = concat (map (\<lambda>ch. let n = of_char ch :: nat in
     if n < 128 then [n] else [192 + n div 64, 128 + n mod 64]) s)"

text \<open>
  The constants of the standard, by their definition: the first 32 bits of the fractional parts of
  the cube roots of the first 64 primes and of the square roots of the first eight. \<open>root_bits\<close>
  computes an integer root bit by bit.
\<close>

fun root_bits :: "nat \<Rightarrow> nat \<Rightarrow> nat \<Rightarrow> nat \<Rightarrow> nat" where
  "root_bits k n r 0 = r"
| "root_bits k n r (Suc i) = root_bits k n (if (r + 2 ^ i) ^ k \<le> n then r + 2 ^ i else r) i"

definition fractional_root :: "nat \<Rightarrow> nat \<Rightarrow> w32" where
  "fractional_root k q = of_nat (root_bits k (q * 2 ^ (32 * k)) 0 40)"

definition small_primes :: "nat list" where
  "small_primes = filter (\<lambda>n. list_all (\<lambda>d. n mod d \<noteq> 0) [2..<n]) [2..<312]"

definition sha256_k :: "w32 list" where
  "sha256_k = map (fractional_root 3) small_primes"

definition sha256_h0 :: "w32 list" where
  "sha256_h0 = map (fractional_root 2) [2, 3, 5, 7, 11, 13, 17, 19]"

fun big_endian :: "nat \<Rightarrow> nat \<Rightarrow> nat list" where
  "big_endian 0 v = []"
| "big_endian (Suc n) v = big_endian n (v div 256) @ [v mod 256]"

definition sha256_pad :: "nat list \<Rightarrow> nat list" where
  "sha256_pad bs =
     (let l = length bs in bs @ [128] @ replicate ((119 - l mod 64) mod 64) 0 @ big_endian 8 (8 * l))"

fun word_of_bytes :: "nat list \<Rightarrow> w32 list" where
  "word_of_bytes (a # b # c # d # bs) = of_nat (((a * 256 + b) * 256 + c) * 256 + d) # word_of_bytes bs"
| "word_of_bytes _ = []"

definition small_sigma0 :: "w32 \<Rightarrow> w32" where
  "small_sigma0 x = word_rotr 7 x XOR word_rotr 18 x XOR drop_bit 3 x"

definition small_sigma1 :: "w32 \<Rightarrow> w32" where
  "small_sigma1 x = word_rotr 17 x XOR word_rotr 19 x XOR drop_bit 10 x"

definition big_sigma0 :: "w32 \<Rightarrow> w32" where
  "big_sigma0 x = word_rotr 2 x XOR word_rotr 13 x XOR word_rotr 22 x"

definition big_sigma1 :: "w32 \<Rightarrow> w32" where
  "big_sigma1 x = word_rotr 6 x XOR word_rotr 11 x XOR word_rotr 25 x"

fun sha256_schedule :: "nat \<Rightarrow> w32 list \<Rightarrow> w32 list" where
  "sha256_schedule 0 ws = ws"
| "sha256_schedule (Suc n) ws =
     (let t = length ws in
      sha256_schedule n (ws @ [small_sigma1 (ws ! (t - 2)) + ws ! (t - 7)
                               + small_sigma0 (ws ! (t - 15)) + ws ! (t - 16)]))"

fun sha256_round :: "w32 list \<Rightarrow> w32 \<times> w32 \<Rightarrow> w32 list" where
  "sha256_round [a, b, c, d, e, f, g, h] (k, w) =
     (let t1 = h + big_sigma1 e + ((e AND f) XOR (NOT e AND g)) + k + w;
          t2 = big_sigma0 a + ((a AND b) XOR (a AND c) XOR (b AND c))
      in [t1 + t2, a, b, c, d + t1, e, f, g])"
| "sha256_round s _ = s"

definition sha256_block :: "w32 list \<Rightarrow> w32 list \<Rightarrow> w32 list" where
  "sha256_block hs ws = map2 (+) hs (foldl sha256_round hs (zip sha256_k (sha256_schedule 48 ws)))"

fun sha256_blocks :: "nat \<Rightarrow> w32 list \<Rightarrow> w32 list \<Rightarrow> w32 list" where
  "sha256_blocks 0 hs ws = hs"
| "sha256_blocks (Suc n) hs ws = sha256_blocks n (sha256_block hs (take 16 ws)) (drop 16 ws)"

definition hex_digit :: "nat \<Rightarrow> char" where
  "hex_digit n = (if n < 10 then char_of (48 + n) else char_of (87 + n))"

definition hex_of_word :: "w32 \<Rightarrow> string" where
  "hex_of_word w = concat (map (\<lambda>b. [hex_digit (b div 16), hex_digit (b mod 16)]) (big_endian 4 (unat w)))"

definition sha256_hexdigest :: "string \<Rightarrow> string" where
  "sha256_hexdigest s =
     (let ws = word_of_bytes (sha256_pad (utf8_bytes s)) in
      concat (map hex_of_word (sha256_blocks (length ws div 16) sha256_h0 ws)))"

text \<open>The digest has 64 hexadecimal characters whatever the message.\<close>

lemma length_big_endian [simp]: "length (big_endian n v) = n"
  by (induction n arbitrary: v) auto

lemma length_hex_of_word [simp]: "length (hex_of_word w) = 8"
  by (simp add: hex_of_word_def length_concat comp_def sum_list_triv)

lemma length_sha256_round: "length (sha256_round s kw) = length s"
  by (cases "(s, kw)" rule: sha256_round.cases) (auto simp: Let_def)

lemma length_fold_rounds: "length (foldl sha256_round s kws) = length s"
  by (induction kws arbitrary: s) (auto simp: length_sha256_round)

lemma length_sha256_blocks: "length hs = 8 \<Longrightarrow> length (sha256_blocks n hs ws) = 8"
  by (induction n arbitrary: hs ws) (auto simp: sha256_block_def length_fold_rounds)

lemma length_sha256_hexdigest: "length (sha256_hexdigest s) = 64"
  by (simp add: sha256_hexdigest_def Let_def length_concat comp_def sum_list_triv length_sha256_blocks sha256_h0_def)

end
