(* ===== verification/NLeg_Canonical.thy ===== *)
theory NLeg_Canonical
  imports NLeg_Model Sha256
begin

section \<open>Canonical JSON and fingerprints\<close>

text \<open>
  \<open>canonical_payload\<close>, \<open>canonical_json\<close> and \<open>fingerprint\<close> of \<^verbatim>\<open>prediction_n_leg.py\<close>. The reflective
  \<open>_canonical_value\<close> is one encoder per dataclass here, each with the order that \<open>_sort_values\<close> gives
  its sequences; \<open>json_dumps\<close> is \<open>json.dumps(..., ensure_ascii=False, sort_keys=True,
  separators=(",", ":"))\<close>. A sequence of dataclasses that the code encodes and then sorts by an
  encoded id field is sorted by the field and then encoded.
\<close>

datatype json =
    JNull
  | JBool bool
  | JInt int
  | JStr string
  | JList "json list"
  | JObj "(string \<times> json) list"

subsection \<open>Serialisation\<close>

definition json_escape_char :: "char \<Rightarrow> string" where
  "json_escape_char ch =
     (let n = of_char ch :: nat in
      if n = 34 then [CHR 0x5C, CHR 0x22]
      else if n = 92 then [CHR 0x5C, CHR 0x5C]
      else if n = 10 then [CHR 0x5C, CHR ''n'']
      else if n = 13 then [CHR 0x5C, CHR ''r'']
      else if n = 9 then [CHR 0x5C, CHR ''t'']
      else if n = 12 then [CHR 0x5C, CHR ''f'']
      else if n = 8 then [CHR 0x5C, CHR ''b'']
      else if n < 32 then [CHR 0x5C] @ ''u00'' @ [hex_digit (n div 16), hex_digit (n mod 16)]
      else [ch])"

definition json_string :: "string \<Rightarrow> string" where
  "json_string s = [CHR 0x22] @ concat (map json_escape_char s) @ [CHR 0x22]"

text \<open>\<open>sort_keys\<close> orders the members of every object; keys of an object are distinct.\<close>

fun json_dumps :: "json \<Rightarrow> string" where
  "json_dumps JNull = ''null''"
| "json_dumps (JBool b) = (if b then ''true'' else ''false'')"
| "json_dumps (JInt i) = string_of_int i"
| "json_dumps (JStr s) = json_string s"
| "json_dumps (JList xs) = ''['' @ join_text '','' (map json_dumps xs) @ '']''"
| "json_dumps (JObj kvs) =
     ''{'' @ join_text '','' (map (\<lambda>(k, t). json_string k @ '':'' @ t)
       (sort_key fst (map (\<lambda>(k, v). (k, json_dumps v)) kvs))) @ ''}''"

subsection \<open>Datetimes\<close>

text \<open>
  The proleptic Gregorian calendar of \<open>datetime\<close>: \<open>ymd_of_ordinal\<close> counts days from 1 January of
  year 1 (ordinal 1), as \<open>date.fromordinal\<close> does; the epoch has ordinal 719163.
\<close>

definition leap_year :: "int \<Rightarrow> bool" where
  "leap_year y \<longleftrightarrow> y mod 4 = 0 \<and> (y mod 100 \<noteq> 0 \<or> y mod 400 = 0)"

definition month_lengths :: "int \<Rightarrow> int list" where
  "month_lengths y = [31, if leap_year y then 29 else 28, 31, 30, 31, 30, 31, 31, 30, 31, 30, 31]"

fun month_day :: "int \<Rightarrow> int \<Rightarrow> int list \<Rightarrow> int \<times> int" where
  "month_day m d [] = (m, d + 1)"
| "month_day m d (l # ls) = (if d < l \<or> ls = [] then (m, d + 1) else month_day (m + 1) (d - l) ls)"

definition ymd_of_ordinal :: "int \<Rightarrow> int \<times> int \<times> int" where
  "ymd_of_ordinal n =
     (let d = n - 1;
          n400 = d div 146097; d = d mod 146097;
          n100 = d div 36524; d = d mod 36524;
          n4 = d div 1461; d = d mod 1461;
          n1 = d div 365; d = d mod 365;
          y = n400 * 400 + n100 * 100 + n4 * 4 + n1 + 1
      in if n1 = 4 \<or> n100 = 4 then (y - 1, 12, 31) else (y, month_day 1 d (month_lengths y)))"

definition zero_padded :: "nat \<Rightarrow> int \<Rightarrow> string" where
  "zero_padded width i = (let s = string_of_int i in replicate (width - length s) (CHR ''0'') @ s)"

definition usec_per_day :: int where
  "usec_per_day = 86400 * usec_per_second"

text \<open>\<open>value.isoformat()\<close> of a UTC datetime, with \<open>+00:00\<close> written \<open>Z\<close>.\<close>

definition canonical_datetime :: "instant \<Rightarrow> string" where
  "canonical_datetime t =
     (let (y, m, d) = ymd_of_ordinal (719163 + t div usec_per_day);
          usec = t mod usec_per_day;
          sec = usec div usec_per_second;
          micro = usec mod usec_per_second
      in zero_padded 4 y @ ''-'' @ zero_padded 2 m @ ''-'' @ zero_padded 2 d @ ''T''
         @ zero_padded 2 (sec div 3600) @ '':'' @ zero_padded 2 (sec div 60 mod 60) @ '':''
         @ zero_padded 2 (sec mod 60)
         @ (if micro = 0 then [] else ''.'' @ zero_padded 6 micro) @ ''Z'')"

definition json_option :: "('a \<Rightarrow> json) \<Rightarrow> 'a option \<Rightarrow> json" where
  "json_option f v = (case v of None \<Rightarrow> JNull | Some x \<Rightarrow> f x)"

abbreviation json_datetime :: "instant \<Rightarrow> json" where
  "json_datetime t \<equiv> JStr (canonical_datetime t)"

abbreviation json_strings :: "string list \<Rightarrow> json" where
  "json_strings xs \<equiv> JList (map JStr xs)"

subsection \<open>Enum values\<close>

fun relation_kind_value :: "RelationKind \<Rightarrow> string" where
  "relation_kind_value IMPLIES = ''IMPLIES''"
| "relation_kind_value MUTUALLY_EXCLUSIVE = ''MUTUALLY_EXCLUSIVE''"
| "relation_kind_value EXACTLY_ONE = ''EXACTLY_ONE''"
| "relation_kind_value NATIVE_COMPLEMENT = ''NATIVE_COMPLEMENT''"

fun metric_value :: "QualificationMetric \<Rightarrow> string" where
  "metric_value GUARANTEED_PROFIT_UNITS = ''GUARANTEED_PROFIT_UNITS''"
| "metric_value NET_MARGIN_PPM = ''NET_MARGIN_PPM''"
| "metric_value RETURN_ON_COST_PPM = ''RETURN_ON_COST_PPM''"
| "metric_value ANNUALIZED_RETURN_PPM = ''ANNUALIZED_RETURN_PPM''"
| "metric_value MAX_CAPITAL_RELEASE_DELAY_SECONDS = ''MAX_CAPITAL_RELEASE_DELAY_SECONDS''"

fun comparison_value :: "Comparison \<Rightarrow> string" where
  "comparison_value GREATER_THAN_OR_EQUAL = ''GREATER_THAN_OR_EQUAL''"
| "comparison_value LESS_THAN_OR_EQUAL = ''LESS_THAN_OR_EQUAL''"

fun search_mode_value :: "SearchMode \<Rightarrow> string" where
  "search_mode_value ADMISSION = ''ADMISSION''"
| "search_mode_value OPTIMIZATION = ''OPTIMIZATION''"
| "search_mode_value RAW_ARBITRAGE_DIAGNOSTIC = ''RAW_ARBITRAGE_DIAGNOSTIC''"

subsection \<open>Encoders\<close>

definition observation_payload :: "SettlementObservationKey \<Rightarrow> json" where
  "observation_payload k = JObj
     [(''schema_version'', JStr (obs_schema_version k)), (''oracle_id'', JStr (oracle_id k)),
      (''indicator_id'', JStr (indicator_id k)),
      (''observation_start'', json_datetime (observation_start k)),
      (''observation_end'', json_datetime (observation_end k)), (''timezone'', JStr (obs_timezone k)),
      (''rule_version'', JStr (obs_rule_version k))]"

definition cost_slice_payload :: "ExecutableCostSlice \<Rightarrow> json" where
  "cost_slice_payload c = JObj
     [(''first_lot'', JInt (first_lot c)), (''last_lot'', JInt (last_lot c)),
      (''incremental_cost_upper_bound_units'', JInt (incremental_cost_upper_bound_units c))]"

definition action_payload :: "CandidateAction \<Rightarrow> json" where
  "action_payload a = JObj
     [(''action_id'', JStr (action_id a)), (''venue_id'', JStr (venue_id a)),
      (''account_id'', JStr (account_id a)), (''chain_id'', JStr (chain_id a)),
      (''market_contract_id'', JStr (market_contract_id a)),
      (''settlement_observation_key'', observation_payload (settlement_observation_key a)),
      (''side'', JStr (side_value (side a))), (''lot_step_units'', JInt (lot_step_units a)),
      (''quantity_scale'', JInt (quantity_scale a)), (''min_quantity_lots'', JInt (min_quantity_lots a)),
      (''max_quantity_lots'', JInt (max_quantity_lots a)),
      (''settlement_asset_id'', JStr (settlement_asset_id a)),
      (''valuation_unit_id'', JStr (valuation_unit_id a)),
      (''asset_valuation_rule_id'', JStr (asset_valuation_rule_id a)),
      (''cost_slices'', JList (map cost_slice_payload (cost_slices a)))]"

definition payout_payload :: "ActionPayout \<Rightarrow> json" where
  "payout_payload x = JObj
     [(''action_id'', JStr (payout_action_id x)),
      (''payout_lower_bound_per_lot_units'', JInt (payout_lower_bound_per_lot_units x))]"

definition atom_payload :: "TerminalAtom \<Rightarrow> json" where
  "atom_payload a = JObj
     [(''atom_id'', JStr (atom_id a)), (''kind'', JStr (kind_value (atom_kind a))),
      (''rule_version'', json_option JStr (atom_rule_version a)),
      (''payouts'', JList (map payout_payload (sort_key payout_action_id (payouts a)))),
      (''capital_release_at'', json_option json_datetime (capital_release_at a))]"

definition state_set_payload :: "TerminalStateSet \<Rightarrow> json" where
  "state_set_payload s = JObj
     [(''market_contract_id'', JStr (state_contract_id s)),
      (''settlement_observation_key'', observation_payload (state_observation_key s)),
      (''rule_version'', JStr (state_rule_version s)),
      (''atoms'', JList (map atom_payload (sort_key atom_id (atoms s))))]"

definition relation_payload :: "RelationConstraint \<Rightarrow> json" where
  "relation_payload r = JObj
     [(''constraint_id'', JStr (relation_constraint_id r)),
      (''kind'', JStr (relation_kind_value (relation_kind r))),
      (''contract_ids'', json_strings
         (if relation_kind r = IMPLIES then contract_ids r else sort (contract_ids r))),
      (''rule_version'', JStr (relation_rule_version r))]"

definition forbidden_payload :: "ForbiddenAtomCombination \<Rightarrow> json" where
  "forbidden_payload f = JObj
     [(''constraint_id'', JStr (forbidden_constraint_id f)),
      (''atom_ids'', json_strings (sort (forbidden_atom_ids f))),
      (''rule_version'', JStr (forbidden_rule_version f))]"

definition constraint_model_payload :: "ConstraintModel \<Rightarrow> json" where
  "constraint_model_payload m = JObj
     [(''relations'', JList (map relation_payload (sort_key relation_constraint_id (relations m)))),
      (''forbidden_atom_combinations'', JList (map forbidden_payload
         (sort_key forbidden_constraint_id (forbidden_atom_combinations m))))]"

definition qualification_payload :: "QualificationConstraint \<Rightarrow> json" where
  "qualification_payload q = JObj
     [(''constraint_id'', JStr (qualification_id q)), (''rule_version'', JStr (qualification_rule_version q)),
      (''metric'', JStr (metric_value (metric q))), (''comparison'', JStr (comparison_value (comparison q))),
      (''threshold_numerator'', JInt (threshold_numerator q)),
      (''threshold_denominator'', JInt (threshold_denominator q))]"

definition problem_payload :: "ArbitrageProblem \<Rightarrow> json" where
  "problem_payload p = JObj
     [(''schema_version'', JStr (schema_version p)), (''problem_id'', JStr (problem_id p)),
      (''as_of'', json_datetime (as_of p)), (''valuation_unit_id'', JStr (problem_valuation_unit_id p)),
      (''actions'', JList (map action_payload (sort_key action_id (actions p)))),
      (''terminal_state_sets'', JList (map state_set_payload
         (sort_key state_contract_id (terminal_state_sets p)))),
      (''constraint_model'', constraint_model_payload (constraint_model p)),
      (''qualification_constraints'', JList (map qualification_payload
         (sort_key qualification_id (qualification_constraints p))))]"

definition quantity_payload :: "ActionQuantity \<Rightarrow> json" where
  "quantity_payload q = JObj
     [(''action_id'', JStr (quantity_action_id q)), (''quantity_lots'', JInt (quantity_lots q))]"

definition selected_atom_payload :: "SelectedAtom \<Rightarrow> json" where
  "selected_atom_payload a = JObj
     [(''market_contract_id'', JStr (selected_contract_id a)), (''atom_id'', JStr (selected_atom_id a))]"

definition scenario_payload :: "SettlementScenario \<Rightarrow> json" where
  "scenario_payload s = JObj
     [(''atoms'', JList (map selected_atom_payload (sort_key selected_contract_id (scenario_atoms s))))]"

definition budget_payload :: "OracleBudget \<Rightarrow> json" where
  "budget_payload b = JObj
     [(''max_quantity_vectors'', JInt (max_quantity_vectors b)),
      (''max_joint_states'', JInt (max_joint_states b)),
      (''max_support_rechecks'', JInt (max_support_rechecks b))]"

definition request_payload :: "OracleRequest \<Rightarrow> json" where
  "request_payload r = JObj
     [(''schema_version'', JStr (request_schema_version r)),
      (''mode'', JStr (search_mode_value (request_mode r))),
      (''problem'', problem_payload (request_problem r)), (''budget'', budget_payload (request_budget r))]"

subsection \<open>Fingerprints\<close>

definition fingerprint :: "json \<Rightarrow> string" where
  "fingerprint payload = ''sha256:'' @ sha256_hexdigest (json_dumps payload)"

text \<open>Every fingerprint is a \<open>sha256:\<close> tag followed by 64 characters.\<close>

lemma length_fingerprint: "length (fingerprint j) = 71"
  by (simp add: fingerprint_def length_sha256_hexdigest)

end
