(* ===== verification/Oracle_Eval.thy ===== *)
theory Oracle_Eval
  imports NLeg_Sample NLeg_Canonical
begin

section \<open>The exact oracle: evaluating a fixed portfolio\<close>

text \<open>
  The first half of \<^verbatim>\<open>prediction_n_leg_oracle.py\<close>: 64-bit checked arithmetic, the enumeration of the
  joint terminal states that the constraints allow, the payout cut of a scenario, the cost of the
  selected lots, the qualification rules and \<open>_evaluate_portfolio\<close>, which puts them together. Every
  lookup that raises in the code is an error value here, so that a theorem about a valid problem
  proves that the lookup succeeds. Dicts built by a comprehension keep the last value of a key.
\<close>

subsection \<open>Checked arithmetic\<close>

definition checked :: "int \<Rightarrow> int result" where
  "checked v = (if \<not> (INT64_MIN \<le> v \<and> v \<le> INT64_MAX) then Inl OverflowError else Inr v)"

definition checked_add :: "int \<Rightarrow> int \<Rightarrow> int result" where
  "checked_add l r = checked (l + r)"

definition checked_subtract :: "int \<Rightarrow> int \<Rightarrow> int result" where
  "checked_subtract l r = checked (l - r)"

definition checked_multiply :: "int \<Rightarrow> int \<Rightarrow> int result" where
  "checked_multiply l r = checked (l * r)"

definition checked_product :: "int list \<Rightarrow> int result" where
  "checked_product vs = result_fold (\<lambda>v acc. checked_multiply acc v) vs 1"

subsection \<open>State of an evaluation\<close>

record ScenarioEnumeration =
  scenarios :: "SettlementScenario list option"
  raw_joint_state_count :: int
  enumeration_unknown_reason :: "UnknownReason option"

record PortfolioEvaluation =
  evaluation_quantities :: "ActionQuantity list"
  payout_lower_bound_units :: int
  cost_upper_bound_units :: int
  guaranteed_profit_units :: int
  worst_scenario :: SettlementScenario
  worst_state_cut :: WorstStateCut
  conservative_capital_release_at :: "instant option"
  failed_qualification_ids :: "string list"
  time_qualification :: string

definition invalid_problem_message :: "ModelIssue list \<Rightarrow> string" where
  "invalid_problem_message issues =
     ''invalid problem: '' @ join_text ''; '' (map (\<lambda>i. issue_code_value (code i)) issues)"

definition require_valid :: "ArbitrageProblem \<Rightarrow> unit result" where
  "require_valid p =
     (let issues = validate_problem p in
      if issues \<noteq> [] then Inl (ValueError (invalid_problem_message issues)) else Inr ())"

definition input_unknown_reason :: "ArbitrageProblem \<Rightarrow> UnknownReason option" where
  "input_unknown_reason p =
     (let issues = validate_problem p in
      if list_ex (\<lambda>i. code i \<in> {MISSING_ACTION_PAYOUT, MISSING_TERMINAL_RULE_IDENTITY,
                              MISSING_CAPITAL_RELEASE_AT}) issues
      then Some UNKNOWN_TERMINAL_DATA
      else if list_ex (\<lambda>i. code i = MISSING_ASSET_VALUATION_RULE) issues
              \<or> list_ex (\<lambda>a. settlement_asset_id a \<noteq> problem_valuation_unit_id p) (actions p)
      then Some UNKNOWN_VALUATION
      else if issues \<noteq> [] then Some INVALID_MODEL else None)"

text \<open>The check that opens enumeration and evaluation: issues that are not tolerated.\<close>

definition tolerated :: "bool \<Rightarrow> ModelIssue list \<Rightarrow> bool" where
  "tolerated allow_unknown_release issues \<longleftrightarrow>
     \<not> (issues \<noteq> [] \<and> \<not> (allow_unknown_release
          \<and> list_all (\<lambda>i. code i = MISSING_CAPITAL_RELEASE_AT) issues))"

subsection \<open>Dicts of a problem\<close>

definition last_wins :: "('k \<times> 'v) list \<Rightarrow> 'k \<Rightarrow> 'v option" where
  "last_wins kvs = map_of (rev kvs)"

definition lookup_or_key_error :: "(string \<Rightarrow> 'v option) \<Rightarrow> string \<Rightarrow> 'v result" where
  "lookup_or_key_error d k = (case d k of None \<Rightarrow> Inl (KeyError k) | Some v \<Rightarrow> Inr v)"

definition actions_by_id :: "ArbitrageProblem \<Rightarrow> string \<Rightarrow> CandidateAction option" where
  "actions_by_id p = last_wins (map (\<lambda>a. (action_id a, a)) (actions p))"

definition atoms_by_id :: "TerminalStateSet \<Rightarrow> string \<Rightarrow> TerminalAtom option" where
  "atoms_by_id s = last_wins (map (\<lambda>a. (atom_id a, a)) (atoms s))"

definition states_by_contract :: "ArbitrageProblem \<Rightarrow> string \<Rightarrow> TerminalStateSet option" where
  "states_by_contract p = last_wins (map (\<lambda>s. (state_contract_id s, s)) (terminal_state_sets p))"

definition atom_of_selection :: "ArbitrageProblem \<Rightarrow> SelectedAtom \<Rightarrow> TerminalAtom result" where
  "atom_of_selection p sel =
     rbind (lookup_or_key_error (states_by_contract p) (selected_contract_id sel)) (\<lambda>s.
     lookup_or_key_error (atoms_by_id s) (selected_atom_id sel))"

subsection \<open>Enumeration of allowed scenarios\<close>

fun relation_violated :: "RelationKind \<Rightarrow> TerminalKind list \<Rightarrow> bool result" where
  "relation_violated NATIVE_COMPLEMENT kinds =
     Inr (kinds \<notin> {[NORMAL_YES, NORMAL_NO], [NORMAL_NO, NORMAL_YES], [SPLIT, SPLIT]})"
| "relation_violated kind kinds =
     (if list_ex (\<lambda>k. k \<notin> {NORMAL_YES, NORMAL_NO}) kinds then Inr False
      else
        let yes_count = length (filter (\<lambda>k. k = NORMAL_YES) kinds) in
        case kind of
          IMPLIES \<Rightarrow>
            (case kinds of
               NORMAL_YES # k # _ \<Rightarrow> Inr (k = NORMAL_NO)
             | [NORMAL_YES] \<Rightarrow> Inl IndexError
             | [] \<Rightarrow> Inl IndexError
             | _ \<Rightarrow> Inr False)
        | MUTUALLY_EXCLUSIVE \<Rightarrow> Inr (yes_count > 1)
        | _ \<Rightarrow> Inr (yes_count \<noteq> 1))"

fun violates_relations ::
  "RelationConstraint list \<Rightarrow> (string \<Rightarrow> TerminalAtom option) \<Rightarrow> bool result" where
  "violates_relations [] atoms_by_contract = Inr False"
| "violates_relations (r # rs) atoms_by_contract =
     rbind (result_map (lookup_or_key_error atoms_by_contract) (contract_ids r)) (\<lambda>as.
     rbind (relation_violated (relation_kind r) (map atom_kind as)) (\<lambda>violated.
     if violated then Inr True else violates_relations rs atoms_by_contract))"

definition violates_normal_relation ::
  "ArbitrageProblem \<Rightarrow> (string \<Rightarrow> TerminalAtom option) \<Rightarrow> bool result" where
  "violates_normal_relation p atoms_by_contract =
     violates_relations (relations (constraint_model p)) atoms_by_contract"

definition violates_forbidden :: "ArbitrageProblem \<Rightarrow> TerminalAtom list \<Rightarrow> bool" where
  "violates_forbidden p as \<longleftrightarrow>
     list_ex (\<lambda>f. set (forbidden_atom_ids f) \<subseteq> atom_id ` set as)
       (forbidden_atom_combinations (constraint_model p))"

definition sorted_states :: "ArbitrageProblem \<Rightarrow> TerminalStateSet list" where
  "sorted_states p = sort_key state_contract_id (terminal_state_sets p)"

definition joint_allowed :: "ArbitrageProblem \<Rightarrow> TerminalAtom list \<Rightarrow> bool result" where
  "joint_allowed p as =
     rbind (violates_normal_relation p
              (last_wins (zip (map state_contract_id (sorted_states p)) as)))
       (\<lambda>violated. Inr (\<not> violated \<and> \<not> violates_forbidden p as))"

definition scenario_of :: "ArbitrageProblem \<Rightarrow> TerminalAtom list \<Rightarrow> SettlementScenario" where
  "scenario_of p as =
     \<lparr>scenario_atoms = map2 (\<lambda>s a. \<lparr>selected_contract_id = state_contract_id s, selected_atom_id = atom_id a\<rparr>)
        (sorted_states p) as\<rparr>"

definition joint_states :: "ArbitrageProblem \<Rightarrow> TerminalAtom list list" where
  "joint_states p = product_lists (map (\<lambda>s. sort_key atom_id (atoms s)) (sorted_states p))"

definition enumerate_scenarios :: "bool \<Rightarrow> ArbitrageProblem \<Rightarrow> OracleBudget \<Rightarrow> ScenarioEnumeration result" where
  "enumerate_scenarios allow_unknown_release p budget =
     (if \<not> tolerated allow_unknown_release (validate_problem p)
      then Inr \<lparr>scenarios = None, raw_joint_state_count = 0, enumeration_unknown_reason = Some INVALID_MODEL\<rparr>
      else
        case result_fold (\<lambda>s n. checked_multiply n (int (length (atoms s)))) (sorted_states p) 1 of
          Inl _ \<Rightarrow>
            Inr \<lparr>scenarios = None, raw_joint_state_count = 0,
                 enumeration_unknown_reason = Some NUMERIC_OVERFLOW\<rparr>
        | Inr raw \<Rightarrow>
            if raw > max_joint_states budget
            then Inr \<lparr>scenarios = None, raw_joint_state_count = raw,
                      enumeration_unknown_reason = Some ORACLE_STATE_LIMIT_EXCEEDED\<rparr>
            else
              rbind (result_filter (joint_allowed p) (joint_states p)) (\<lambda>allowed.
              if allowed = []
              then Inr \<lparr>scenarios = None, raw_joint_state_count = raw,
                        enumeration_unknown_reason = Some CONTRADICTORY_CONSTRAINT_MODEL\<rparr>
              else Inr \<lparr>scenarios = Some (map (scenario_of p) allowed), raw_joint_state_count = raw,
                        enumeration_unknown_reason = None\<rparr>))"

definition enumerate_allowed_scenarios ::
  "ArbitrageProblem \<Rightarrow> OracleBudget \<Rightarrow> ScenarioEnumeration result" where
  "enumerate_allowed_scenarios p budget = enumerate_scenarios False p budget"

subsection \<open>The payout cut of a scenario\<close>

definition cut_atom :: "(string \<Rightarrow> string option) \<Rightarrow> TerminalStateSet \<Rightarrow> TerminalAtom result" where
  "cut_atom selected s =
     (case selected (state_contract_id s) of
        None \<Rightarrow> Inl (ValueError (''scenario is missing '' @ state_contract_id s))
      | Some i \<Rightarrow>
          (case find (\<lambda>a. atom_id a = i) (atoms s) of
             None \<Rightarrow> Inl (ValueError (''scenario selects unknown atom '' @ i))
           | Some a \<Rightarrow> Inr a))"

definition cut_from_scenario_unchecked :: "ArbitrageProblem \<Rightarrow> SettlementScenario \<Rightarrow> WorstStateCut result" where
  "cut_from_scenario_unchecked p sc =
     (let entries = map (\<lambda>a. (selected_contract_id a, selected_atom_id a)) (scenario_atoms sc);
          selected = last_wins entries
      in
      if length (remdups (map fst entries)) \<noteq> length (scenario_atoms sc)
      then Inl (ValueError ''scenario selects a contract more than once'')
      else
        rbind (result_map (cut_atom selected) (terminal_state_sets p)) (\<lambda>as.
        if length (remdups (map fst entries)) \<noteq> length (terminal_state_sets p)
        then Inl (ValueError ''scenario selects an unknown contract'')
        else Inr \<lparr>cut_id = ''cut:'' @ fingerprint (scenario_payload sc), cut_scenario = sc,
                  payout_per_lot = sort_key payout_action_id (concat (map payouts as))\<rparr>))"

definition cut_from_scenario :: "ArbitrageProblem \<Rightarrow> SettlementScenario \<Rightarrow> WorstStateCut result" where
  "cut_from_scenario p sc = rbind (require_valid p) (\<lambda>_. cut_from_scenario_unchecked p sc)"

subsection \<open>Selected quantities and their cost\<close>

definition select_quantity ::
  "ArbitrageProblem \<Rightarrow> ActionQuantity \<Rightarrow> string list \<times> (string \<times> int) list
     \<Rightarrow> (string list \<times> (string \<times> int) list) result" where
  "select_quantity p q st =
     (case actions_by_id p (quantity_action_id q) of
        None \<Rightarrow> Inl (ValueError (''unknown action quantity: '' @ quantity_action_id q))
      | Some a \<Rightarrow>
          if \<not> (0 \<le> quantity_lots q \<and> quantity_lots q \<le> INT64_MAX)
          then Inl (ValueError (''invalid action quantity: '' @ quantity_action_id q))
          else if quantity_action_id q \<in> set (fst st)
          then Inl (ValueError (''duplicate action quantity: '' @ quantity_action_id q))
          else if quantity_lots q \<noteq> 0
                  \<and> \<not> (min_quantity_lots a \<le> quantity_lots q \<and> quantity_lots q \<le> max_quantity_lots a)
          then Inl (ValueError (''action quantity outside selected quantity range: '' @ quantity_action_id q))
          else Inr (quantity_action_id q # fst st,
                    if quantity_lots q \<noteq> 0
                    then AList.update (quantity_action_id q) (quantity_lots q) (snd st) else snd st))"

definition selected_quantities :: "ArbitrageProblem \<Rightarrow> ActionQuantity list \<Rightarrow> ActionQuantity list result" where
  "selected_quantities p qs =
     rbind (result_fold (select_quantity p) qs ([], [])) (\<lambda>st.
     Inr (map (\<lambda>(i, n). \<lparr>quantity_action_id = i, quantity_lots = n\<rparr>) (sort_key fst (snd st))))"

fun slices_cost :: "int \<Rightarrow> ExecutableCostSlice list \<Rightarrow> int \<Rightarrow> int result" where
  "slices_cost remaining [] acc = Inr acc"
| "slices_cost remaining (c # cs) acc =
     (if remaining < first_lot c then Inr acc
      else
        rbind (checked_subtract (min remaining (last_lot c)) (first_lot c)) (\<lambda>d.
        rbind (checked_add d 1) (\<lambda>covered_lots.
        rbind (checked_multiply covered_lots (incremental_cost_upper_bound_units c)) (\<lambda>cost.
        rbind (checked_add acc cost) (\<lambda>acc'. slices_cost remaining cs acc')))))"

definition quantity_cost :: "ArbitrageProblem \<Rightarrow> ActionQuantity \<Rightarrow> int \<Rightarrow> int result" where
  "quantity_cost p q acc =
     rbind (lookup_or_key_error (actions_by_id p) (quantity_action_id q)) (\<lambda>a.
     rbind (slices_cost (quantity_lots q) (cost_slices a) acc) (\<lambda>acc'.
     if cost_slices a = [] then Inl IndexError
     else if quantity_lots q > last_lot (last (cost_slices a))
     then Inl (ValueError (''quantity exceeds executable cost slices: '' @ quantity_action_id q))
     else Inr acc'))"

definition cost_upper_bound_for_selected :: "ArbitrageProblem \<Rightarrow> ActionQuantity list \<Rightarrow> int result" where
  "cost_upper_bound_for_selected p qs = result_fold (quantity_cost p) qs 0"

definition cost_upper_bound :: "ArbitrageProblem \<Rightarrow> ActionQuantity list \<Rightarrow> int result" where
  "cost_upper_bound p qs =
     rbind (require_valid p) (\<lambda>_. rbind (selected_quantities p qs) (cost_upper_bound_for_selected p))"

subsection \<open>Qualification rules\<close>

definition release_delay_seconds :: "ArbitrageProblem \<Rightarrow> PortfolioEvaluation \<Rightarrow> int result" where
  "release_delay_seconds p e =
     (case conservative_capital_release_at e of
        None \<Rightarrow> Inl (ValueError ''capital release time is unknown'')
      | Some release_at \<Rightarrow>
          let delay = release_at - as_of p;
              days = delay div usec_per_day;
              seconds = delay mod usec_per_day div usec_per_second;
              microseconds = delay mod usec_per_second
          in
          rbind (checked_multiply days (24 * 60 * 60)) (\<lambda>d.
          rbind (checked_add d seconds) (\<lambda>whole_seconds.
          checked_add whole_seconds (if microseconds \<noteq> 0 then 1 else 0))))"

definition occupied_days :: "ArbitrageProblem \<Rightarrow> PortfolioEvaluation \<Rightarrow> int result" where
  "occupied_days p e =
     rbind (release_delay_seconds p e) (\<lambda>seconds.
     rbind (checked_add seconds 86399) (\<lambda>s. Inr (max 1 (s div 86400))))"

definition compare_sides :: "Comparison \<Rightarrow> int \<Rightarrow> int \<Rightarrow> bool" where
  "compare_sides c left right = (if c = GREATER_THAN_OR_EQUAL then left \<ge> right else left \<le> right)"

definition qualification_passes ::
  "ArbitrageProblem \<Rightarrow> QualificationConstraint \<Rightarrow> PortfolioEvaluation \<Rightarrow> bool result" where
  "qualification_passes p q e =
     (case metric q of
        GUARANTEED_PROFIT_UNITS \<Rightarrow>
          rbind (checked_multiply (guaranteed_profit_units e) (threshold_denominator q)) (\<lambda>left.
          Inr (compare_sides (comparison q) left (threshold_numerator q)))
      | NET_MARGIN_PPM \<Rightarrow>
          if threshold_numerator q > 0 \<and> payout_lower_bound_units e \<le> 0 then Inr False
          else
            rbind (checked_product [guaranteed_profit_units e, 1000000, threshold_denominator q]) (\<lambda>left.
            rbind (checked_multiply (threshold_numerator q) (payout_lower_bound_units e)) (\<lambda>right.
            Inr (compare_sides (comparison q) left right)))
      | RETURN_ON_COST_PPM \<Rightarrow>
          if threshold_numerator q > 0 \<and> cost_upper_bound_units e \<le> 0 then Inr False
          else
            rbind (checked_product [guaranteed_profit_units e, 1000000, threshold_denominator q]) (\<lambda>left.
            rbind (checked_multiply (threshold_numerator q) (cost_upper_bound_units e)) (\<lambda>right.
            Inr (compare_sides (comparison q) left right)))
      | ANNUALIZED_RETURN_PPM \<Rightarrow>
          rbind (occupied_days p e) (\<lambda>days.
          rbind (checked_product [guaranteed_profit_units e, 365, 1000000, threshold_denominator q]) (\<lambda>left.
          rbind (checked_product [threshold_numerator q, cost_upper_bound_units e, days]) (\<lambda>right.
          Inr (compare_sides (comparison q) left right))))
      | MAX_CAPITAL_RELEASE_DELAY_SECONDS \<Rightarrow>
          rbind (release_delay_seconds p e) (\<lambda>seconds.
          rbind (checked_multiply seconds (threshold_denominator q)) (\<lambda>left.
          Inr (compare_sides (comparison q) left (threshold_numerator q)))))"

subsection \<open>Evaluation of a fixed portfolio\<close>

definition lots_of :: "ActionQuantity list \<Rightarrow> string \<Rightarrow> int option" where
  "lots_of qs = last_wins (map (\<lambda>q. (quantity_action_id q, quantity_lots q)) qs)"

definition add_payout :: "(string \<Rightarrow> int option) \<Rightarrow> ActionPayout \<Rightarrow> int \<Rightarrow> int result" where
  "add_payout lots x acc =
     rbind (checked_multiply (payout_lower_bound_per_lot_units x)
              (case lots (payout_action_id x) of None \<Rightarrow> 0 | Some n \<Rightarrow> n)) (\<lambda>v. checked_add acc v)"

definition scenario_payout ::
  "ArbitrageProblem \<Rightarrow> (string \<Rightarrow> int option) \<Rightarrow> SettlementScenario \<Rightarrow> int result" where
  "scenario_payout p lots sc =
     rbind (cut_from_scenario_unchecked p sc) (\<lambda>cut. result_fold (add_payout lots) (payout_per_lot cut) 0)"

text \<open>
  \<open>min\<close> over the triples (payout, fingerprint, scenario): a later triple replaces the current one when
  it is smaller; two different scenarios with the same payout and fingerprint cannot be compared.
\<close>

definition keep_worst ::
  "ArbitrageProblem \<Rightarrow> (string \<Rightarrow> int option) \<Rightarrow> SettlementScenario
     \<Rightarrow> (int \<times> string \<times> SettlementScenario) option \<Rightarrow> (int \<times> string \<times> SettlementScenario) option result" where
  "keep_worst p lots sc best =
     rbind (scenario_payout p lots sc) (\<lambda>v.
     let fp = fingerprint (scenario_payload sc) in
     case best of
       None \<Rightarrow> Inr (Some (v, fp, sc))
     | Some (v', fp', sc') \<Rightarrow>
         if v \<noteq> v' then Inr (if v < v' then Some (v, fp, sc) else best)
         else if fp \<noteq> fp' then Inr (if fp < fp' then Some (v, fp, sc) else best)
         else if sc \<noteq> sc' then Inl TypeError else Inr best)"

definition worst_of ::
  "ArbitrageProblem \<Rightarrow> (string \<Rightarrow> int option) \<Rightarrow> SettlementScenario list \<Rightarrow> (int \<times> SettlementScenario) result" where
  "worst_of p lots scs =
     rbind (result_fold (keep_worst p lots) scs None) (\<lambda>best.
     case best of
       None \<Rightarrow> Inl (ValueError ''min() arg is an empty sequence'')
     | Some (v, _, sc) \<Rightarrow> Inr (v, sc))"

definition selected_contracts :: "ArbitrageProblem \<Rightarrow> ActionQuantity list \<Rightarrow> string set" where
  "selected_contracts p qs =
     market_contract_id ` {a \<in> set (actions p). action_id a \<in> quantity_action_id ` set qs}"

definition selected_releases ::
  "ArbitrageProblem \<Rightarrow> ActionQuantity list \<Rightarrow> SettlementScenario list \<Rightarrow> instant option list result" where
  "selected_releases p qs scs =
     rbind (result_map (atom_of_selection p)
              (filter (\<lambda>a. selected_contract_id a \<in> selected_contracts p qs) (concat (map scenario_atoms scs))))
       (\<lambda>as. Inr (map capital_release_at as))"

definition conservative_release :: "instant option list \<Rightarrow> instant option result" where
  "conservative_release rs =
     (if None \<in> set rs then Inr None
      else if rs = [] then Inl (ValueError ''max() arg is an empty sequence'')
      else Inr (Some (Max (the ` set rs))))"

definition time_constrained :: "QualificationConstraint \<Rightarrow> bool" where
  "time_constrained q \<longleftrightarrow> metric q \<in> {ANNUALIZED_RETURN_PPM, MAX_CAPITAL_RELEASE_DELAY_SECONDS}"

definition failed_qualifications :: "ArbitrageProblem \<Rightarrow> PortfolioEvaluation \<Rightarrow> string list result" where
  "failed_qualifications p e =
     rbind (result_filter (\<lambda>q. rbind (qualification_passes p q e) (\<lambda>b. Inr (\<not> b)))
              (filter (\<lambda>q. \<not> (conservative_capital_release_at e = None \<and> time_constrained q))
                 (sort_key qualification_id (qualification_constraints p))))
       (\<lambda>qs. Inr (map qualification_id qs))"

definition evaluate_portfolio ::
  "bool \<Rightarrow> ArbitrageProblem \<Rightarrow> ActionQuantity list \<Rightarrow> OracleBudget \<Rightarrow> PortfolioEvaluation result" where
  "evaluate_portfolio allow_unknown_release p quantities budget =
     (if \<not> tolerated allow_unknown_release (validate_problem p)
      then Inl (ValueError (invalid_problem_message (validate_problem p)))
      else
        rbind (selected_quantities p quantities) (\<lambda>selected.
        if selected = [] then Inl (ValueError ''fixed portfolio must select at least one action'')
        else
          rbind (enumerate_scenarios allow_unknown_release p budget) (\<lambda>enumeration.
          case scenarios enumeration of
            None \<Rightarrow>
              Inl (ValueError (case enumeration_unknown_reason enumeration of
                                 Some r \<Rightarrow> unknown_reason_value r | None \<Rightarrow> ''scenario enumeration failed''))
          | Some scs \<Rightarrow>
              rbind (worst_of p (lots_of selected) scs) (\<lambda>(payout, worst).
              rbind (selected_releases p selected scs) (\<lambda>releases.
              rbind (conservative_release releases) (\<lambda>release.
              rbind (cost_upper_bound_for_selected p selected) (\<lambda>cost.
              rbind (checked_subtract payout cost) (\<lambda>profit.
              rbind (cut_from_scenario_unchecked p worst) (\<lambda>cut.
              let provisional =
                    \<lparr>evaluation_quantities = selected, payout_lower_bound_units = payout,
                     cost_upper_bound_units = cost, guaranteed_profit_units = profit,
                     worst_scenario = worst, worst_state_cut = cut,
                     conservative_capital_release_at = release, failed_qualification_ids = [],
                     time_qualification = (if release = None then ''UNKNOWN'' else ''KNOWN'')\<rparr>
              in
              rbind (failed_qualifications p provisional) (\<lambda>failed.
              Inr (provisional\<lparr>failed_qualification_ids := failed\<rparr>)))))))))))"

definition evaluate_fixed_portfolio ::
  "ArbitrageProblem \<Rightarrow> ActionQuantity list \<Rightarrow> OracleBudget \<Rightarrow> PortfolioEvaluation result" where
  "evaluate_fixed_portfolio p quantities budget = evaluate_portfolio False p quantities budget"

definition evaluate_paper_portfolio ::
  "ArbitrageProblem \<Rightarrow> ActionQuantity list \<Rightarrow> OracleBudget \<Rightarrow> PortfolioEvaluation result" where
  "evaluate_paper_portfolio p quantities budget = evaluate_portfolio True p quantities budget"


subsection \<open>Checked arithmetic never wraps\<close>

lemma checked_Inr_iff [simp]: "checked v = Inr w \<longleftrightarrow> w = v \<and> in_int64 v"
  by (auto simp: checked_def in_int64_def)

lemma checked_op_Inr_iff [simp]:
  "checked_add l r = Inr v \<longleftrightarrow> v = l + r \<and> in_int64 (l + r)"
  "checked_subtract l r = Inr v \<longleftrightarrow> v = l - r \<and> in_int64 (l - r)"
  "checked_multiply l r = Inr v \<longleftrightarrow> v = l * r \<and> in_int64 (l * r)"
  by (simp_all add: checked_add_def checked_subtract_def checked_multiply_def)

lemma checked_Inl_iff: "checked v = Inl e \<longleftrightarrow> e = OverflowError \<and> \<not> in_int64 v"
  by (auto simp: checked_def in_int64_def)

lemma checked_op_in_range:
  "in_int64 (l + r) \<Longrightarrow> checked_add l r = Inr (l + r)"
  "in_int64 (l - r) \<Longrightarrow> checked_subtract l r = Inr (l - r)"
  "in_int64 (l * r) \<Longrightarrow> checked_multiply l r = Inr (l * r)"
  by simp_all

text \<open>A loop of checked steps computes the exact sum or product, or stops.\<close>

lemma result_fold_sum:
  fixes g :: "'a \<Rightarrow> int"
  assumes "\<And>x s s'. x \<in> set xs \<Longrightarrow> f x s = Inr s' \<Longrightarrow> s' = s + g x" and "result_fold f xs a = Inr v"
  shows "v = a + sum_list (map g xs)"
  using assms
proof (induction xs arbitrary: a)
  case (Cons x xs)
  then obtain s where "f x a = Inr s" "result_fold f xs s = Inr v"
    by auto
  then show ?case
    using Cons.IH[of s] Cons.prems(1) by fastforce
qed simp

lemma result_fold_prod:
  fixes g :: "'a \<Rightarrow> int"
  assumes "\<And>x s s'. x \<in> set xs \<Longrightarrow> f x s = Inr s' \<Longrightarrow> s' = s * g x" and "result_fold f xs a = Inr v"
  shows "v = a * prod_list (map g xs)"
  using assms
proof (induction xs arbitrary: a)
  case (Cons x xs)
  then obtain s where "f x a = Inr s" "result_fold f xs s = Inr v"
    by auto
  then show ?case
    using Cons.IH[of s] Cons.prems(1) by (fastforce simp: mult.assoc)
qed simp

lemma checked_product_Inr: "checked_product vs = Inr v \<Longrightarrow> v = prod_list vs"
  unfolding checked_product_def by (drule result_fold_prod[rotated, where g = id]) auto

subsection \<open>Dicts of a valid problem\<close>

lemma last_wins_distinct: "distinct (map fst kvs) \<Longrightarrow> last_wins kvs = map_of kvs"
proof -
  assume dist: "distinct (map fst kvs)"
  then have "distinct (map fst (rev kvs))"
    by (simp flip: rev_map)
  then have "map_of (rev kvs) k = Some v \<longleftrightarrow> map_of kvs k = Some v" for k v
    by (simp add: map_of_eq_Some_iff dist)
  then show ?thesis
    unfolding last_wins_def by (metis not_None_eq ext)
qed

lemma last_wins_keyed:
  assumes "distinct (map f xs)"
  shows "last_wins (map (\<lambda>x. (f x, g x)) xs) k = Some y \<longleftrightarrow> (\<exists>x \<in> set xs. f x = k \<and> y = g x)"
proof -
  have dist: "distinct (map fst (map (\<lambda>x. (f x, g x)) xs))"
    using assms by (simp add: comp_def)
  show ?thesis
    unfolding last_wins_distinct[OF dist] map_of_eq_Some_iff[OF dist] by auto
qed

lemma lookup_or_key_error_Inr [simp]: "lookup_or_key_error d k = Inr v \<longleftrightarrow> d k = Some v"
  by (auto simp: lookup_or_key_error_def split: option.splits)

lemma require_valid_Inr [simp]: "require_valid p = Inr u \<longleftrightarrow> wf_problem p"
  by (simp add: require_valid_def Let_def flip: validate_problem_Nil_iff)

lemma tolerated_False [simp]: "tolerated False (validate_problem p) \<longleftrightarrow> wf_problem p"
  by (simp add: tolerated_def flip: validate_problem_Nil_iff)

lemma wf_problem_distinct:
  assumes "wf_problem p"
  shows "distinct (map action_id (actions p))" "distinct (map state_contract_id (terminal_state_sets p))"
    "distinct (map atom_id (concat (map atoms (terminal_state_sets p))))"
    "distinct (map qualification_id (qualification_constraints p))"
  using assms by (auto simp: wf_problem_def)

lemma wf_problem_atoms_distinct:
  assumes "wf_problem p" "s \<in> set (terminal_state_sets p)"
  shows "distinct (map atom_id (atoms s))"
proof -
  have "distinct (concat (map (\<lambda>s. map atom_id (atoms s)) (terminal_state_sets p)))"
    using wf_problem_distinct(3)[OF assms(1)] by (simp add: map_concat comp_def)
  then show ?thesis
    using assms(2) by (auto simp: distinct_concat_iff)
qed

lemma actions_by_id_iff:
  assumes "wf_problem p"
  shows "actions_by_id p i = Some a \<longleftrightarrow> a \<in> set (actions p) \<and> action_id a = i"
  unfolding actions_by_id_def by (subst last_wins_keyed) (auto simp: wf_problem_distinct[OF assms])

lemma states_by_contract_iff:
  assumes "wf_problem p"
  shows "states_by_contract p c = Some s \<longleftrightarrow> s \<in> set (terminal_state_sets p) \<and> state_contract_id s = c"
  unfolding states_by_contract_def by (subst last_wins_keyed) (auto simp: wf_problem_distinct[OF assms])

lemma atoms_by_id_iff:
  assumes "wf_problem p" "s \<in> set (terminal_state_sets p)"
  shows "atoms_by_id s i = Some a \<longleftrightarrow> a \<in> set (atoms s) \<and> atom_id a = i"
  unfolding atoms_by_id_def by (subst last_wins_keyed) (auto simp: wf_problem_atoms_distinct[OF assms])

subsection \<open>Worlds: what the constraints allow\<close>

text \<open>
  A world settles every contract in one atom. It is allowed when every relation holds of the kinds of
  the atoms and no forbidden combination is contained in them; a relation between contracts other than
  a native complement says nothing once a contract settles abnormally.
\<close>

fun relation_holds :: "RelationKind \<Rightarrow> TerminalKind list \<Rightarrow> bool" where
  "relation_holds NATIVE_COMPLEMENT kinds \<longleftrightarrow>
     kinds = [NORMAL_YES, NORMAL_NO] \<or> kinds = [NORMAL_NO, NORMAL_YES] \<or> kinds = [SPLIT, SPLIT]"
| "relation_holds IMPLIES kinds \<longleftrightarrow> \<not> (kinds ! 0 = NORMAL_YES \<and> kinds ! 1 = NORMAL_NO)"
| "relation_holds MUTUALLY_EXCLUSIVE kinds \<longleftrightarrow>
     (set kinds \<subseteq> {NORMAL_YES, NORMAL_NO} \<longrightarrow> length (filter (\<lambda>k. k = NORMAL_YES) kinds) \<le> 1)"
| "relation_holds EXACTLY_ONE kinds \<longleftrightarrow>
     (set kinds \<subseteq> {NORMAL_YES, NORMAL_NO} \<longrightarrow> length (filter (\<lambda>k. k = NORMAL_YES) kinds) = 1)"

definition world_of :: "ArbitrageProblem \<Rightarrow> (string \<Rightarrow> TerminalAtom) \<Rightarrow> bool" where
  "world_of p w \<longleftrightarrow> (\<forall>s \<in> set (terminal_state_sets p). w (state_contract_id s) \<in> set (atoms s))"

definition allowed_world :: "ArbitrageProblem \<Rightarrow> (string \<Rightarrow> TerminalAtom) \<Rightarrow> bool" where
  "allowed_world p w \<longleftrightarrow>
     world_of p w
     \<and> (\<forall>r \<in> set (relations (constraint_model p)).
          relation_holds (relation_kind r) (map (\<lambda>c. atom_kind (w c)) (contract_ids r)))
     \<and> (\<forall>f \<in> set (forbidden_atom_combinations (constraint_model p)).
          \<not> set (forbidden_atom_ids f) \<subseteq> (\<lambda>s. atom_id (w (state_contract_id s))) ` set (terminal_state_sets p))"

definition world_atoms :: "ArbitrageProblem \<Rightarrow> (string \<Rightarrow> TerminalAtom) \<Rightarrow> TerminalAtom list" where
  "world_atoms p w = map (\<lambda>s. w (state_contract_id s)) (sorted_states p)"

definition scenario_of_world :: "ArbitrageProblem \<Rightarrow> (string \<Rightarrow> TerminalAtom) \<Rightarrow> SettlementScenario" where
  "scenario_of_world p w = scenario_of p (world_atoms p w)"

lemma set_sorted_states [simp]: "set (sorted_states p) = set (terminal_state_sets p)"
  by (simp add: sorted_states_def)

lemma distinct_sorted_states:
  "wf_problem p \<Longrightarrow> distinct (map state_contract_id (sorted_states p))"
  using wf_problem_distinct(2)[of p]
  by (metis sorted_states_def distinct_map distinct_sort mset_sort set_sort)

text \<open>Every joint state of the enumeration is a world, and every world is one of them.\<close>

lemma in_joint_states:
  "as \<in> set (joint_states p) \<longleftrightarrow> list_all2 (\<lambda>a s. a \<in> set (atoms s)) as (sorted_states p)"
  by (auto simp: joint_states_def product_lists_set list_all2_map2)

lemma world_atoms_joint: "world_of p w \<Longrightarrow> world_atoms p w \<in> set (joint_states p)"
  by (auto simp: in_joint_states world_atoms_def world_of_def list_all2_map1 intro!: list.rel_refl_strong)

lemma joint_state_world:
  assumes wf: "wf_problem p" and joint: "as \<in> set (joint_states p)"
  obtains w where "world_of p w" "as = world_atoms p w"
proof -
  let ?cs = "map state_contract_id (sorted_states p)"
  let ?w = "\<lambda>c. the (map_of (zip ?cs as) c)"
  have len: "length as = length (sorted_states p)"
    using joint by (simp add: in_joint_states list_all2_lengthD)
  have at: "?w (?cs ! i) = as ! i" if "i < length as" for i
    using that len map_of_zip_nth[of ?cs as i] distinct_sorted_states[OF wf] by simp
  have eq: "as = world_atoms p ?w"
    using len at by (intro nth_equalityI) (auto simp: world_atoms_def)
  moreover have "world_of p ?w"
    unfolding world_of_def
  proof
    fix s assume "s \<in> set (terminal_state_sets p)"
    then obtain i where i: "i < length (sorted_states p)" "sorted_states p ! i = s"
      by (metis in_set_conv_nth set_sorted_states)
    then have "as ! i \<in> set (atoms s)"
      using joint by (auto simp: in_joint_states list_all2_conv_all_nth)
    then show "?w (state_contract_id s) \<in> set (atoms s)"
      using at[of i] i len by simp
  qed
  ultimately show thesis
    using that by blast
qed

lemma relation_violated_exact:
  assumes "relation_kind r = IMPLIES \<Longrightarrow> length kinds = 2"
  shows "relation_violated (relation_kind r) kinds = Inr (\<not> relation_holds (relation_kind r) kinds)"
proof (cases "relation_kind r")
  case IMPLIES
  then obtain k1 k2 where "kinds = [k1, k2]"
    using assms by (auto simp: numeral_2_eq_2 length_Suc_conv)
  then show ?thesis
    using IMPLIES by (cases k1; cases k2) auto
qed (auto simp: list_ex_iff not_le not_less Let_def)

lemma violates_relations_exact:
  assumes "\<And>r c. r \<in> set rs \<Longrightarrow> c \<in> set (contract_ids r) \<Longrightarrow> d c = Some (w c)"
    and "\<And>r. r \<in> set rs \<Longrightarrow> relation_kind r = IMPLIES \<Longrightarrow> length (contract_ids r) = 2"
  shows "violates_relations rs d
           = Inr (\<not> (\<forall>r \<in> set rs. relation_holds (relation_kind r) (map (\<lambda>c. atom_kind (w c)) (contract_ids r))))"
  using assms
proof (induction rs)
  case (Cons r rs)
  have "result_map (lookup_or_key_error d) (contract_ids r) = Inr (map w (contract_ids r))"
    by (rule result_map_total) (use Cons.prems(1)[of r] in simp)
  moreover have "violates_relations rs d
      = Inr (\<not> (\<forall>r \<in> set rs. relation_holds (relation_kind r) (map (\<lambda>c. atom_kind (w c)) (contract_ids r))))"
    using Cons by auto
  moreover have "relation_violated (relation_kind r) (map (\<lambda>c. atom_kind (w c)) (contract_ids r))
      = Inr (\<not> relation_holds (relation_kind r) (map (\<lambda>c. atom_kind (w c)) (contract_ids r)))"
    using Cons.prems(2)[of r] by (intro relation_violated_exact) simp
  ultimately show ?case
    by (simp add: comp_def)
qed simp

lemma wf_problem_relation:
  "wf_problem p \<Longrightarrow> r \<in> set (relations (constraint_model p)) \<Longrightarrow> wf_relation p r"
  by (simp add: wf_problem_def)

lemma wf_relation_known:
  assumes "wf_problem p" "r \<in> set (relations (constraint_model p))" "c \<in> set (contract_ids r)"
  shows "\<exists>s \<in> set (terminal_state_sets p). state_contract_id s = c"
  using wf_problem_relation[OF assms(1,2)] assms(3) by (auto simp: wf_relation_def)

lemma wf_relation_implies_arity:
  assumes "wf_problem p" "r \<in> set (relations (constraint_model p))" "relation_kind r = IMPLIES"
  shows "length (contract_ids r) = 2"
  using wf_problem_relation[OF assms(1,2)] assms(3) by (simp add: wf_relation_def)

lemma zip_map_dict:
  assumes "wf_problem p" "s \<in> set (terminal_state_sets p)"
  shows "last_wins (zip (map state_contract_id (sorted_states p)) (world_atoms p w)) (state_contract_id s)
           = Some (w (state_contract_id s))"
proof -
  have "zip (map state_contract_id (sorted_states p)) (world_atoms p w)
      = map (\<lambda>s. (state_contract_id s, w (state_contract_id s))) (sorted_states p)"
    by (simp add: world_atoms_def zip_map_map zip_same_conv_map)
  then show ?thesis
    by (simp add: last_wins_keyed[OF distinct_sorted_states[OF assms(1)]]) (use assms(2) in blast)
qed

text \<open>The test of a joint state never fails on a valid problem and decides \<open>allowed_world\<close>.\<close>

lemma joint_allowed_exact:
  assumes wf: "wf_problem p" and "world_of p w"
  shows "joint_allowed p (world_atoms p w) = Inr (allowed_world p w)"
proof -
  have "violates_normal_relation p (last_wins (zip (map state_contract_id (sorted_states p)) (world_atoms p w)))
      = Inr (\<not> (\<forall>r \<in> set (relations (constraint_model p)).
               relation_holds (relation_kind r) (map (\<lambda>c. atom_kind (w c)) (contract_ids r))))"
    unfolding violates_normal_relation_def
    using wf_relation_known[OF wf] wf_relation_implies_arity[OF wf] zip_map_dict[OF wf]
    by (intro violates_relations_exact) blast+
  moreover have "set (world_atoms p w) = (\<lambda>s. w (state_contract_id s)) ` set (terminal_state_sets p)"
    by (simp add: world_atoms_def)
  ultimately show ?thesis
    using assms(2)
    by (auto simp: joint_allowed_def allowed_world_def violates_forbidden_def list_ex_iff image_image)
qed

lemma result_filter_joint_allowed:
  assumes "wf_problem p"
  shows "result_filter (joint_allowed p) (joint_states p)
           = Inr (filter (\<lambda>as. joint_allowed p as = Inr True) (joint_states p))"
proof (rule result_filter_total)
  fix as assume "as \<in> set (joint_states p)"
  then obtain w where "world_of p w" "as = world_atoms p w"
    using joint_state_world[OF assms] by blast
  then show "joint_allowed p as = Inr (joint_allowed p as = Inr True)"
    using joint_allowed_exact[OF assms] by simp
qed

lemma allowed_joint_states:
  assumes "wf_problem p"
  shows "set (filter (\<lambda>as. joint_allowed p as = Inr True) (joint_states p)) = world_atoms p ` {w. allowed_world p w}"
    (is "?L = ?R")
proof
  show "?L \<subseteq> ?R"
  proof
    fix as assume "as \<in> ?L"
    then obtain w where "world_of p w" "as = world_atoms p w" "joint_allowed p as = Inr True"
      using joint_state_world[OF assms] by auto
    then show "as \<in> ?R"
      using joint_allowed_exact[OF assms] by auto
  qed
  show "?R \<subseteq> ?L"
    using joint_allowed_exact[OF assms] world_atoms_joint by (auto simp: allowed_world_def)
qed

definition joint_state_count :: "ArbitrageProblem \<Rightarrow> int" where
  "joint_state_count p = prod_list (map (\<lambda>s. int (length (atoms s))) (terminal_state_sets p))"

lemma joint_count_fold:
  "result_fold (\<lambda>s n. checked_multiply n (int (length (atoms s)))) ss a = Inr v
     \<Longrightarrow> v = a * prod_list (map (\<lambda>s. int (length (atoms s))) ss)"
  by (drule result_fold_prod[rotated]) auto

lemma prod_list_sorted: "prod_list (map f (sorted_states p)) = prod_list (map f (terminal_state_sets p))"
  for f :: "TerminalStateSet \<Rightarrow> int"
  by (metis sorted_states_def mset_map mset_sort prod_mset_prod_list)

text \<open>Partial products are bounded by the whole product, so only the whole one can overflow.\<close>

lemma atom_counts_pos:
  "(\<And>s. s \<in> set ss \<Longrightarrow> atoms s \<noteq> []) \<Longrightarrow> 0 < prod_list (map (\<lambda>s. int (length (atoms s))) ss)"
  by (induction ss) (simp_all add: zero_less_mult_iff)

lemma joint_count_fold_total:
  assumes "\<And>s. s \<in> set ss \<Longrightarrow> atoms s \<noteq> []" and "0 < a"
    and "in_int64 (a * prod_list (map (\<lambda>s. int (length (atoms s))) ss))"
  shows "result_fold (\<lambda>s n. checked_multiply n (int (length (atoms s)))) ss a
           = Inr (a * prod_list (map (\<lambda>s. int (length (atoms s))) ss))"
  using assms
proof (induction ss arbitrary: a)
  case (Cons s ss)
  let ?n = "int (length (atoms s))" and ?rest = "prod_list (map (\<lambda>s. int (length (atoms s))) ss)"
  have pos: "0 < a * ?n"
    using Cons.prems(1,2) by simp
  have "0 < ?rest"
    using Cons.prems(1) by (intro atom_counts_pos) simp
  then have "a * ?n \<le> a * ?n * ?rest"
    using pos by (simp add: mult_le_cancel_left1)
  then have "in_int64 (a * ?n)"
    using Cons.prems(3) pos by (auto simp: int64_defs mult.assoc)
  then show ?case
    using Cons.IH[of "a * ?n"] Cons.prems pos by (simp add: mult.assoc checked_op_in_range)
qed simp

lemma wf_problem_state: "wf_problem p \<Longrightarrow> s \<in> set (terminal_state_sets p) \<Longrightarrow> wf_state_set p s"
  by (simp add: wf_problem_def)

lemma enumerate_scenarios_Some:
  assumes "wf_problem p" "enumerate_scenarios allow p b = Inr en" "scenarios en = Some scs"
  shows "scs = map (scenario_of p) (filter (\<lambda>as. joint_allowed p as = Inr True) (joint_states p))"
    "scs \<noteq> []" "raw_joint_state_count en = joint_state_count p" "joint_state_count p \<le> max_joint_states b"
  using assms
  by (auto simp: enumerate_scenarios_def result_filter_joint_allowed joint_state_count_def
      split: if_splits sum.splits dest!: joint_count_fold simp: prod_list_sorted)

lemma enumerated_scenarios:
  assumes "wf_problem p" "enumerate_scenarios allow p b = Inr en" "scenarios en = Some scs"
  shows "set scs = scenario_of_world p ` {w. allowed_world p w}"
  using enumerate_scenarios_Some(1)[OF assms] allowed_joint_states[OF assms(1)]
  by (simp add: scenario_of_world_def image_image)

lemma scenario_of_inj:
  assumes wf: "wf_problem p"
  shows "inj_on (scenario_of p) (set (joint_states p))"
proof (rule inj_onI)
  fix as bs assume mem: "as \<in> set (joint_states p)" "bs \<in> set (joint_states p)"
    and eq: "scenario_of p as = scenario_of p bs"
  have len: "length as = length (sorted_states p)" "length bs = length (sorted_states p)"
    using mem by (auto simp: in_joint_states list_all2_lengthD)
  have "as ! i = bs ! i" if i: "i < length as" for i
  proof -
    let ?s = "sorted_states p ! i"
    have "atom_id (as ! i) = atom_id (bs ! i)"
      using arg_cong[OF eq, of "\<lambda>sc. selected_atom_id (scenario_atoms sc ! i)"] i len
      by (simp add: scenario_of_def)
    moreover have "as ! i \<in> set (atoms ?s)" "bs ! i \<in> set (atoms ?s)"
      using mem i len by (auto simp: in_joint_states list_all2_conv_all_nth)
    moreover have "distinct (map atom_id (atoms ?s))"
      using wf_problem_atoms_distinct[OF wf, of ?s] i len nth_mem[of i "sorted_states p"] by simp
    ultimately show ?thesis
      by (auto simp: distinct_map inj_on_def)
  qed
  then show "as = bs"
    using len by (intro nth_equalityI) auto
qed

lemma distinct_joint_states:
  assumes "wf_problem p"
  shows "distinct (joint_states p)"
proof -
  have "distinct (atoms s)" if "s \<in> set (terminal_state_sets p)" for s
    using wf_problem_atoms_distinct[OF assms that] by (simp add: distinct_map)
  then show ?thesis
    unfolding joint_states_def by (intro distinct_product_lists) auto
qed

text \<open>C35. Enumeration is exact: for a valid problem whose number of joint states is in range and
  within the budget, the oracle lists exactly the scenarios of the allowed worlds, each once, or
  reports a contradictory constraint model, and then no world is allowed.\<close>

theorem enumerate_allowed_scenarios_exact:
  assumes wf: "wf_problem p" and "in_int64 (joint_state_count p)" "joint_state_count p \<le> max_joint_states b"
  shows "\<exists>en. enumerate_allowed_scenarios p b = Inr en \<and> raw_joint_state_count en = joint_state_count p \<and>
    (case scenarios en of
       Some scs \<Rightarrow> distinct scs \<and> set scs = scenario_of_world p ` {w. allowed_world p w}
                   \<and> enumeration_unknown_reason en = None
     | None \<Rightarrow> enumeration_unknown_reason en = Some CONTRADICTORY_CONSTRAINT_MODEL \<and> {w. allowed_world p w} = {})"
proof -
  let ?allowed = "filter (\<lambda>as. joint_allowed p as = Inr True) (joint_states p)"
  have "result_fold (\<lambda>s n. checked_multiply n (int (length (atoms s)))) (sorted_states p) 1
      = Inr (joint_state_count p)"
    using joint_count_fold_total[of "sorted_states p" 1] wf_problem_state[OF wf] assms(2)
    by (auto simp: prod_list_sorted joint_state_count_def wf_state_set_def)
  moreover have "distinct (map (scenario_of p) ?allowed)"
    using distinct_joint_states[OF wf] scenario_of_inj[OF wf]
    by (auto simp: distinct_map intro: inj_on_subset)
  ultimately show ?thesis
    using assms(3) wf allowed_joint_states[OF wf]
    by (auto simp: enumerate_allowed_scenarios_def enumerate_scenarios_def result_filter_joint_allowed
        scenario_of_world_def image_image image_Collect filter_empty_conv simp flip: set_empty2)
qed

subsection \<open>The cut and the payout of a world\<close>

lemma scenario_of_world_atoms:
  "scenario_atoms (scenario_of_world p w)
     = map (\<lambda>s. \<lparr>selected_contract_id = state_contract_id s, selected_atom_id = atom_id (w (state_contract_id s))\<rparr>)
         (sorted_states p)"
  by (simp add: scenario_of_world_def scenario_of_def world_atoms_def zip_map2 zip_same_conv_map)

lemma find_unique:
  assumes "distinct (map f xs)" "x \<in> set xs"
  shows "find (\<lambda>y. f y = f x) xs = Some x"
  using assms by (induction xs) (auto simp: image_iff)

lemma cut_of_world:
  assumes wf: "wf_problem p" and w: "world_of p w"
  shows "cut_from_scenario_unchecked p (scenario_of_world p w)
     = Inr \<lparr>cut_id = ''cut:'' @ fingerprint (scenario_payload (scenario_of_world p w)),
            cut_scenario = scenario_of_world p w,
            payout_per_lot = sort_key payout_action_id
              (concat (map (\<lambda>s. payouts (w (state_contract_id s))) (terminal_state_sets p)))\<rparr>"
proof -
  let ?sel = "map (\<lambda>s. (state_contract_id s, atom_id (w (state_contract_id s)))) (sorted_states p)"
  have entries: "map (\<lambda>a. (selected_contract_id a, selected_atom_id a)) (scenario_atoms (scenario_of_world p w)) = ?sel"
    by (simp add: scenario_of_world_atoms comp_def)
  have dist: "distinct (map fst ?sel)"
    using distinct_sorted_states[OF wf] by (simp add: comp_def)
  have "cut_atom (last_wins ?sel) s = Inr (w (state_contract_id s))" if s: "s \<in> set (terminal_state_sets p)" for s
  proof -
    have "last_wins ?sel (state_contract_id s) = Some (atom_id (w (state_contract_id s)))"
      using s by (subst last_wins_keyed[OF distinct_sorted_states[OF wf]]) auto
    moreover have "find (\<lambda>a. atom_id a = atom_id (w (state_contract_id s))) (atoms s) = Some (w (state_contract_id s))"
      using find_unique[OF wf_problem_atoms_distinct[OF wf s]] w s by (auto simp: world_of_def)
    ultimately show ?thesis
      by (simp add: cut_atom_def)
  qed
  then have "result_map (cut_atom (last_wins ?sel)) (terminal_state_sets p)
      = Inr (map (\<lambda>s. w (state_contract_id s)) (terminal_state_sets p))"
    by (rule result_map_total)
  moreover have "length (sorted_states p) = length (terminal_state_sets p)"
    by (simp add: sorted_states_def)
  ultimately show ?thesis
    using dist unfolding cut_from_scenario_unchecked_def Let_def entries
    by (simp add: distinct_remdups_id comp_def scenario_of_world_atoms)
qed

definition held_lots :: "(string \<Rightarrow> int option) \<Rightarrow> string \<Rightarrow> int" where
  "held_lots lots i = (case lots i of None \<Rightarrow> 0 | Some n \<Rightarrow> n)"

lemma add_payout_fold_Inr:
  "result_fold (add_payout lots) xs a = Inr v
     \<Longrightarrow> v = a + sum_list (map (\<lambda>x. payout_lower_bound_per_lot_units x * held_lots lots (payout_action_id x)) xs)"
  by (drule result_fold_sum[rotated]) (auto simp: add_payout_def held_lots_def)

text \<open>
  The reference payout of a portfolio in a world: over the actions of the problem, the lots held times
  what the atom of the action's contract pays the action.
\<close>

definition payout_in :: "TerminalAtom \<Rightarrow> string \<Rightarrow> int" where
  "payout_in a i =
     (case map_of (map (\<lambda>x. (payout_action_id x, payout_lower_bound_per_lot_units x)) (payouts a)) i of
        None \<Rightarrow> 0 | Some n \<Rightarrow> n)"

definition portfolio_payout ::
  "ArbitrageProblem \<Rightarrow> ActionQuantity list \<Rightarrow> (string \<Rightarrow> TerminalAtom) \<Rightarrow> int" where
  "portfolio_payout p qs w =
     (\<Sum>a \<leftarrow> actions p. held_lots (lots_of qs) (action_id a) * payout_in (w (market_contract_id a)) (action_id a))"

lemma sum_list_keyed:
  fixes g :: "'k \<Rightarrow> int"
  assumes "distinct (map f xs)"
  shows "sum_list (map (\<lambda>x. g (f x)) xs) = sum g (f ` set xs)"
  using assms by (induction xs) auto

lemma atom_payout_sum:
  assumes "distinct (map payout_action_id (payouts a))"
    and "payout_action_id ` set (payouts a) = action_id ` set as" and "distinct (map action_id as)"
  shows "sum_list (map (\<lambda>x. payout_lower_bound_per_lot_units x * h (payout_action_id x)) (payouts a))
           = sum_list (map (\<lambda>b. h (action_id b) * payout_in a (action_id b)) as)"
proof -
  have "payout_in a (payout_action_id x) = payout_lower_bound_per_lot_units x" if "x \<in> set (payouts a)" for x
  proof -
    have dist: "distinct (map fst (map (\<lambda>x. (payout_action_id x, payout_lower_bound_per_lot_units x)) (payouts a)))"
      using assms(1) by (simp add: comp_def)
    show ?thesis
      using that map_of_is_SomeI[OF dist, of "payout_action_id x" "payout_lower_bound_per_lot_units x"]
      by (simp add: payout_in_def)
  qed
  then have "sum_list (map (\<lambda>x. payout_lower_bound_per_lot_units x * h (payout_action_id x)) (payouts a))
      = sum_list (map (\<lambda>x. (\<lambda>i. h i * payout_in a i) (payout_action_id x)) (payouts a))"
    by (intro arg_cong[of _ _ sum_list] map_cong) auto
  also have "\<dots> = sum (\<lambda>i. h i * payout_in a i) (payout_action_id ` set (payouts a))"
    by (rule sum_list_keyed) (rule assms(1))
  also have "\<dots> = sum_list (map (\<lambda>b. (\<lambda>i. h i * payout_in a i) (action_id b)) as)"
    unfolding assms(2) by (rule sum_list_keyed[symmetric]) (rule assms(3))
  finally show ?thesis .
qed

lemma sum_by_contract:
  assumes wf: "wf_problem p"
  shows "(\<Sum>s \<leftarrow> terminal_state_sets p. \<Sum>a \<leftarrow> contract_actions p (state_contract_id s). (f a :: int))
           = (\<Sum>a \<leftarrow> actions p. f a)"
proof -
  have acts: "distinct (actions p)" and states: "distinct (map state_contract_id (terminal_state_sets p))"
    using wf_problem_distinct[OF wf] by (auto simp: distinct_map)
  have ids: "state_contract_id ` set (terminal_state_sets p) = market_contract_id ` set (actions p)"
    using wf by (simp add: wf_problem_def)
  have inner: "(\<Sum>a \<leftarrow> contract_actions p c. f a) = (\<Sum>a \<in> {a \<in> set (actions p). market_contract_id a = c}. f a)" for c
    using acts by (simp add: contract_actions_def sum_list_distinct_conv_sum_set)
  have "(\<Sum>s \<leftarrow> terminal_state_sets p. \<Sum>a \<leftarrow> contract_actions p (state_contract_id s). f a)
      = (\<Sum>c \<in> market_contract_id ` set (actions p). \<Sum>a \<in> {a \<in> set (actions p). market_contract_id a = c}. f a)"
    using sum_list_keyed[OF states, of "\<lambda>c. \<Sum>a \<leftarrow> contract_actions p c. f a"] by (simp add: inner ids)
  also have "\<dots> = sum f (set (actions p))"
    by (rule sum.group) auto
  finally show ?thesis
    using acts by (simp add: sum_list_distinct_conv_sum_set)
qed

lemma sum_list_concat_map: "sum_list (map g (concat xss)) = (\<Sum>xs \<leftarrow> xss. sum_list (map (g :: 'a \<Rightarrow> int) xs))"
  by (induction xss) auto

lemma sum_list_sort_key: "sum_list (map g (sort_key f xs)) = sum_list (map (g :: 'a \<Rightarrow> int) xs)"
  by (metis mset_map mset_sort sum_mset_sum_list)

text \<open>Whenever the payout of a world is returned, it is the reference payout.\<close>

lemma scenario_payout_world:
  assumes wf: "wf_problem p" and w: "world_of p w"
    and v: "scenario_payout p (lots_of qs) (scenario_of_world p w) = Inr v"
  shows "v = portfolio_payout p qs w"
proof -
  let ?h = "held_lots (lots_of qs)"
  let ?pay = "\<lambda>x. payout_lower_bound_per_lot_units x * ?h (payout_action_id x)"
  have per_state: "sum_list (map ?pay (payouts (w (state_contract_id s))))
      = (\<Sum>a \<leftarrow> contract_actions p (state_contract_id s).
           ?h (action_id a) * payout_in (w (market_contract_id a)) (action_id a))"
    if s: "s \<in> set (terminal_state_sets p)" for s
  proof -
    have "wf_atom (as_of p) (state_rule_version s) (map action_id (contract_actions p (state_contract_id s)))
        (w (state_contract_id s))"
      using wf_problem_state[OF wf s] w s by (auto simp: wf_state_set_def world_of_def)
    moreover have "distinct (map action_id (contract_actions p (state_contract_id s)))"
      using wf_problem_distinct(1)[OF wf] by (simp add: contract_actions_def distinct_map_filter)
    ultimately have "sum_list (map ?pay (payouts (w (state_contract_id s))))
        = (\<Sum>a \<leftarrow> contract_actions p (state_contract_id s).
             ?h (action_id a) * payout_in (w (state_contract_id s)) (action_id a))"
      by (intro atom_payout_sum) (auto simp: wf_atom_def)
    then show ?thesis
      by (auto simp: contract_actions_def intro!: arg_cong[of _ _ sum_list] map_cong)
  qed
  have "v = sum_list (map ?pay (concat (map (\<lambda>s. payouts (w (state_contract_id s))) (terminal_state_sets p))))"
    using v by (auto simp: scenario_payout_def cut_of_world[OF wf w] sum_list_sort_key dest!: add_payout_fold_Inr)
  also have "\<dots> = (\<Sum>s \<leftarrow> terminal_state_sets p. sum_list (map ?pay (payouts (w (state_contract_id s)))))"
    by (simp add: sum_list_concat_map comp_def)
  also have "\<dots> = (\<Sum>s \<leftarrow> terminal_state_sets p. \<Sum>a \<leftarrow> contract_actions p (state_contract_id s).
      ?h (action_id a) * payout_in (w (market_contract_id a)) (action_id a))"
    by (intro arg_cong[of _ _ sum_list] map_cong refl per_state)
  finally show ?thesis
    by (simp add: sum_by_contract[OF wf] portfolio_payout_def)
qed

lemma keep_worst_Inr:
  assumes "keep_worst p lots sc best = Inr r"
  shows "\<exists>v v0 fp0 sc0. scenario_payout p lots sc = Inr v \<and> r = Some (v0, fp0, sc0) \<and> v0 \<le> v
    \<and> (\<forall>b. best = Some b \<longrightarrow> v0 \<le> fst b)
    \<and> (r = best \<or> (v0 = v \<and> fp0 = fingerprint (scenario_payload sc) \<and> sc0 = sc))"
proof -
  obtain v where v: "scenario_payout p lots sc = Inr v"
    using assms by (auto simp: keep_worst_def)
  show ?thesis
  proof (cases best)
    case None
    then show ?thesis
      using assms v by (auto simp: keep_worst_def Let_def)
  next
    case (Some b)
    obtain v' fp' sc' where "b = (v', fp', sc')"
      by (cases b)
    then show ?thesis
      using assms v Some by (auto simp: keep_worst_def Let_def split: if_splits)
  qed
qed

lemma keep_worst_fold:
  assumes "result_fold (keep_worst p lots) scs best = Inr (Some (v0, fp0, sc0))"
  shows "(\<forall>sc \<in> set scs. \<exists>v. scenario_payout p lots sc = Inr v \<and> v0 \<le> v)
    \<and> (\<forall>b. best = Some b \<longrightarrow> v0 \<le> fst b)
    \<and> (best = Some (v0, fp0, sc0) \<or> (sc0 \<in> set scs \<and> scenario_payout p lots sc0 = Inr v0))"
  using assms
proof (induction scs arbitrary: best)
  case (Cons sc scs)
  then obtain r where r: "keep_worst p lots sc best = Inr r"
    "result_fold (keep_worst p lots) scs r = Inr (Some (v0, fp0, sc0))"
    by auto
  obtain v v1 fp1 sc1 where step: "scenario_payout p lots sc = Inr v" "r = Some (v1, fp1, sc1)" "v1 \<le> v"
    "\<And>b. best = Some b \<Longrightarrow> v1 \<le> fst b" "r = best \<or> v1 = v \<and> sc1 = sc"
    using keep_worst_Inr[OF r(1)] by blast
  have "v0 \<le> v1" and "\<forall>sc \<in> set scs. \<exists>v. scenario_payout p lots sc = Inr v \<and> v0 \<le> v"
    and "r = Some (v0, fp0, sc0) \<or> (sc0 \<in> set scs \<and> scenario_payout p lots sc0 = Inr v0)"
    using Cons.IH[OF r(2)] step(2) by auto
  then show ?case
    using step by (auto intro: order_trans)
qed auto

lemma worst_of_Inr:
  assumes "worst_of p lots scs = Inr (v, sc)"
  shows "sc \<in> set scs" "scenario_payout p lots sc = Inr v"
    "\<And>sc'. sc' \<in> set scs \<Longrightarrow> \<exists>v'. scenario_payout p lots sc' = Inr v' \<and> v \<le> v'"
  using assms keep_worst_fold[where best = None]
  by (auto simp: worst_of_def split: option.splits)

subsection \<open>Selected quantities\<close>

definition selectable :: "ArbitrageProblem \<Rightarrow> ActionQuantity \<Rightarrow> bool" where
  "selectable p q \<longleftrightarrow>
     (\<exists>a. actions_by_id p (quantity_action_id q) = Some a \<and> 0 \<le> quantity_lots q \<and> quantity_lots q \<le> INT64_MAX
        \<and> (quantity_lots q = 0 \<or> min_quantity_lots a \<le> quantity_lots q \<and> quantity_lots q \<le> max_quantity_lots a))"

lemma select_quantity_Inr:
  "select_quantity p q st = Inr st' \<longleftrightarrow> selectable p q \<and> quantity_action_id q \<notin> set (fst st)
     \<and> st' = (quantity_action_id q # fst st,
              if quantity_lots q \<noteq> 0 then AList.update (quantity_action_id q) (quantity_lots q) (snd st) else snd st)"
  by (auto simp: select_quantity_def selectable_def split: option.splits)

lemma select_quantity_fold:
  assumes "fst ` set sel \<subseteq> set seen"
  shows "result_fold (select_quantity p) qs (seen, sel) = Inr st
     \<longleftrightarrow> (\<forall>q \<in> set qs. selectable p q) \<and> distinct (map quantity_action_id qs)
       \<and> quantity_action_id ` set qs \<inter> set seen = {}
       \<and> st = (rev (map quantity_action_id qs) @ seen,
               sel @ map (\<lambda>q. (quantity_action_id q, quantity_lots q)) (filter (\<lambda>q. quantity_lots q \<noteq> 0) qs))"
  using assms
proof (induction qs arbitrary: seen sel)
  case (Cons q qs)
  show ?case
  proof (cases "selectable p q \<and> quantity_action_id q \<notin> set seen")
    case True
    let ?sel = "if quantity_lots q \<noteq> 0 then AList.update (quantity_action_id q) (quantity_lots q) sel else sel"
    have sub: "fst ` set ?sel \<subseteq> set (quantity_action_id q # seen)"
      using Cons.prems by auto
    have "quantity_action_id q \<notin> fst ` set sel"
      using True Cons.prems by auto
    then have "?sel = sel @ map (\<lambda>q. (quantity_action_id q, quantity_lots q)) (filter (\<lambda>q. quantity_lots q \<noteq> 0) [q])"
      by (simp add: AList_update_absent)
    then show ?thesis
      using True Cons.IH[OF sub] by (auto simp: select_quantity_Inr)
  next
    case False
    then show ?thesis
      by (auto simp: select_quantity_Inr)
  qed
qed auto

lemma sort_key_map: "sort_key f (map g xs) = map g (sort_key (\<lambda>x. f (g x)) xs)"
proof (induction xs)
  case (Cons x xs)
  have "insort_key f (g x) (map g ys) = map g (insort_key (\<lambda>x. f (g x)) x ys)" for ys
    by (induction ys) auto
  then show ?case
    using Cons by simp
qed simp


lemma selected_quantities_iff:
  "selected_quantities p qs = Inr sel
     \<longleftrightarrow> (\<forall>q \<in> set qs. selectable p q) \<and> distinct (map quantity_action_id qs)
       \<and> sel = sort_key quantity_action_id (filter (\<lambda>q. quantity_lots q \<noteq> 0) qs)"
proof -
  have "map (\<lambda>(i, n). \<lparr>quantity_action_id = i, quantity_lots = n\<rparr>)
      (sort_key fst (map (\<lambda>q. (quantity_action_id q, quantity_lots q)) xs)) = sort_key quantity_action_id xs" for xs
    by (simp add: sort_key_map comp_def map_idI)
  then show ?thesis
    by (auto simp: selected_quantities_def select_quantity_fold)
qed

lemma selected_quantities_props:
  assumes "selected_quantities p qs = Inr sel"
  shows "distinct (map quantity_action_id sel)" "sorted (map quantity_action_id sel)"
    "\<And>q. q \<in> set sel \<Longrightarrow> 0 < quantity_lots q \<and> selectable p q"
proof -
  have sel: "sel = sort_key quantity_action_id (filter (\<lambda>q. quantity_lots q \<noteq> 0) qs)"
    and "distinct (map quantity_action_id qs)"
    using assms by (auto simp: selected_quantities_iff)
  then have "distinct (map quantity_action_id (filter (\<lambda>q. quantity_lots q \<noteq> 0) qs))"
    by (simp add: distinct_map_filter)
  then show "distinct (map quantity_action_id sel)"
    unfolding sel by (metis distinct_map distinct_sort set_sort)
  show "sorted (map quantity_action_id sel)"
    unfolding sel by simp
  show "0 < quantity_lots q \<and> selectable p q" if "q \<in> set sel" for q
    using that assms by (auto simp: selected_quantities_iff selectable_def)
qed

text \<open>Selecting again changes nothing: the selection of a selection is itself.\<close>

lemma selected_quantities_idem:
  assumes "selected_quantities p qs = Inr sel"
  shows "selected_quantities p sel = Inr sel"
proof -
  have "filter (\<lambda>q. quantity_lots q \<noteq> 0) sel = sel"
    using selected_quantities_props(3)[OF assms] by (fastforce simp: filter_id_conv)
  then show ?thesis
    using selected_quantities_props[OF assms] by (auto simp: selected_quantities_iff sort_key_sorted_id)
qed

subsection \<open>The cost of the selected lots\<close>

text \<open>The reference cost: every lot pays the price of the slice it falls in.\<close>

definition lot_cost :: "ExecutableCostSlice list \<Rightarrow> int \<Rightarrow> int" where
  "lot_cost cs n =
     (case find (\<lambda>c. first_lot c \<le> n \<and> n \<le> last_lot c) cs of
        None \<Rightarrow> 0 | Some c \<Rightarrow> incremental_cost_upper_bound_units c)"

definition action_cost :: "CandidateAction \<Rightarrow> int \<Rightarrow> int" where
  "action_cost a lots = (\<Sum>n \<in> {1..lots}. lot_cost (cost_slices a) n)"

definition portfolio_cost :: "ArbitrageProblem \<Rightarrow> ActionQuantity list \<Rightarrow> int" where
  "portfolio_cost p qs =
     (\<Sum>q \<leftarrow> qs. case actions_by_id p (quantity_action_id q) of
        None \<Rightarrow> 0 | Some a \<Rightarrow> action_cost a (quantity_lots q))"

lemma lot_cost_Cons:
  "lot_cost (c # cs) n = (if first_lot c \<le> n \<and> n \<le> last_lot c then incremental_cost_upper_bound_units c else lot_cost cs n)"
  by (simp add: lot_cost_def)

lemma sum_split_at:
  fixes f :: "int \<Rightarrow> int"
  assumes "a \<le> m + 1" "m \<le> b"
  shows "sum f {a..b} = sum f {a..m} + sum f {m + 1..b}"
proof -
  have "{a..b} = {a..m} \<union> {m + 1..b}"
    using assms by auto
  then show ?thesis
    by (simp add: sum.union_disjoint ivl_disj_int)
qed

lemma slices_cost_exact:
  assumes "wf_cost_slices prev cs" "slices_cost lots cs acc = Inr v"
  shows "v = acc + (\<Sum>n \<in> {prev + 1..lots}. lot_cost cs n)"
  using assms
proof (induction cs arbitrary: prev acc)
  case Nil
  then show ?case
    by (simp add: lot_cost_def)
next
  case (Cons c cs)
  have c: "first_lot c = prev + 1" "first_lot c \<le> last_lot c" "wf_cost_slices (last_lot c) cs"
    using Cons.prems(1) by auto
  let ?u = "incremental_cost_upper_bound_units c"
  show ?case
  proof (cases "lots < first_lot c")
    case True
    then show ?thesis
      using Cons.prems(2) c by simp
  next
    case False
    let ?m = "min lots (last_lot c)"
    have "v = acc + (?m - first_lot c + 1) * ?u + (\<Sum>n \<in> {last_lot c + 1..lots}. lot_cost cs n)"
      using Cons.prems(2) False Cons.IH[OF c(3)] by auto
    moreover have "(\<Sum>n \<in> {prev + 1..?m}. lot_cost (c # cs) n) = (?m - first_lot c + 1) * ?u"
      using c False by (simp add: lot_cost_Cons)
    moreover have "(\<Sum>n \<in> {?m + 1..lots}. lot_cost (c # cs) n) = (\<Sum>n \<in> {last_lot c + 1..lots}. lot_cost cs n)"
      by (rule sum.cong) (auto simp: lot_cost_Cons min_def)
    ultimately show ?thesis
      using sum_split_at[of "prev + 1" ?m lots "lot_cost (c # cs)"] c False by simp
  qed
qed

lemma wf_problem_action: "wf_problem p \<Longrightarrow> a \<in> set (actions p) \<Longrightarrow> wf_action (problem_valuation_unit_id p) a"
  by (simp add: wf_problem_def)

lemma cost_upper_bound_exact:
  assumes wf: "wf_problem p" and "cost_upper_bound_for_selected p qs = Inr v"
  shows "v = portfolio_cost p qs"
proof -
  have step: "s' = s + (case actions_by_id p (quantity_action_id q) of
      None \<Rightarrow> 0 | Some a \<Rightarrow> action_cost a (quantity_lots q))" if cost: "quantity_cost p q s = Inr s'" for q s s'
  proof -
    obtain a where a: "actions_by_id p (quantity_action_id q) = Some a"
      "slices_cost (quantity_lots q) (cost_slices a) s = Inr s'"
      using cost by (auto simp: quantity_cost_def split: if_splits)
    then have "wf_cost_slices 0 (cost_slices a)"
      using wf_problem_action[OF wf] by (auto simp: actions_by_id_iff[OF wf] wf_action_def)
    then show ?thesis
      using a slices_cost_exact by (fastforce simp: action_cost_def)
  qed
  then show ?thesis
    using assms(2) result_fold_sum[of qs "quantity_cost p"] unfolding cost_upper_bound_for_selected_def portfolio_cost_def
    by (metis (no_types, lifting) add_0)
qed

subsection \<open>Evaluation is sound\<close>

text \<open>Everything a successful evaluation has established, in the order of the code.\<close>

lemma evaluate_fixed_Inr:
  assumes "evaluate_fixed_portfolio p qs b = Inr e"
  obtains en scs rs where "wf_problem p" "selected_quantities p qs = Inr (evaluation_quantities e)"
    "evaluation_quantities e \<noteq> []" "enumerate_scenarios False p b = Inr en" "scenarios en = Some scs"
    "worst_of p (lots_of (evaluation_quantities e)) scs = Inr (payout_lower_bound_units e, worst_scenario e)"
    "selected_releases p (evaluation_quantities e) scs = Inr rs"
    "conservative_release rs = Inr (conservative_capital_release_at e)"
    "cost_upper_bound_for_selected p (evaluation_quantities e) = Inr (cost_upper_bound_units e)"
    "guaranteed_profit_units e = payout_lower_bound_units e - cost_upper_bound_units e"
    "in_int64 (guaranteed_profit_units e)"
    "cut_from_scenario_unchecked p (worst_scenario e) = Inr (worst_state_cut e)"
    "failed_qualifications p (e\<lparr>failed_qualification_ids := []\<rparr>) = Inr (failed_qualification_ids e)"
  using assms
  by (auto simp: evaluate_fixed_portfolio_def evaluate_portfolio_def Let_def split: if_splits option.splits)

lemma world_atom_of_selection:
  assumes wf: "wf_problem p" and w: "world_of p w" and sel: "sel \<in> set (scenario_atoms (scenario_of_world p w))"
  shows "atom_of_selection p sel = Inr (w (selected_contract_id sel))"
proof -
  obtain s where s: "s \<in> set (terminal_state_sets p)" "selected_contract_id sel = state_contract_id s"
    "selected_atom_id sel = atom_id (w (state_contract_id s))"
    using sel by (auto simp: scenario_of_world_atoms)
  moreover have "w (state_contract_id s) \<in> set (atoms s)"
    using w s(1) by (auto simp: world_of_def)
  ultimately show ?thesis
    using states_by_contract_iff[OF wf, of _ s] atoms_by_id_iff[OF wf s(1)]
    by (auto simp: atom_of_selection_def)
qed

text \<open>The release times collected are those of the selected contracts in the allowed worlds.\<close>

lemma selected_contracts_known:
  assumes "wf_problem p" "c \<in> selected_contracts p qs"
  shows "\<exists>s \<in> set (terminal_state_sets p). state_contract_id s = c"
proof -
  have "c \<in> state_contract_id ` set (terminal_state_sets p)"
    using assms by (auto simp: selected_contracts_def wf_problem_def)
  then show ?thesis
    by auto
qed

lemma list_all2_images:
  assumes "list_all2 (\<lambda>x y. f x = Inr y) xs ys"
  shows "set ys = {y. \<exists>x \<in> set xs. f x = Inr y}"
  using assms by (induction rule: list_all2_induct) auto

lemma selected_releases_exact:
  assumes wf: "wf_problem p" and scs: "set scs = scenario_of_world p ` {w. allowed_world p w}"
    and "selected_releases p qs scs = Inr rs"
  shows "set rs = {capital_release_at (w c) | w c. allowed_world p w \<and> c \<in> selected_contracts p qs}"
proof -
  let ?sels = "filter (\<lambda>a. selected_contract_id a \<in> selected_contracts p qs) (concat (map scenario_atoms scs))"
  obtain as where as: "list_all2 (\<lambda>x y. atom_of_selection p x = Inr y) ?sels as" and rs: "rs = map capital_release_at as"
    using assms(3) by (auto simp: selected_releases_def result_map_Inr_iff)
  have world: "allowed_world p w \<Longrightarrow> world_of p w" for w
    by (simp add: allowed_world_def)
  have "set as = {a. \<exists>x \<in> set ?sels. atom_of_selection p x = Inr a}"
    using list_all2_images[OF as] .
  also have "\<dots> = {w c | w c. allowed_world p w \<and> c \<in> selected_contracts p qs}" (is "?A = ?B")
  proof
    show "?A \<subseteq> ?B"
    proof
      fix a assume "a \<in> ?A"
      then obtain x w where x: "x \<in> set (scenario_atoms (scenario_of_world p w))" "allowed_world p w"
        "selected_contract_id x \<in> selected_contracts p qs" "atom_of_selection p x = Inr a"
        using scs by auto
      then have "a = w (selected_contract_id x)"
        using world_atom_of_selection[OF wf world[OF x(2)] x(1)] by simp
      then show "a \<in> ?B"
        using x by blast
    qed
    show "?B \<subseteq> ?A"
    proof
      fix a assume "a \<in> ?B"
      then obtain w c where w: "allowed_world p w" "c \<in> selected_contracts p qs" "a = w c"
        by auto
      let ?x = "\<lparr>selected_contract_id = c, selected_atom_id = atom_id (w c)\<rparr>"
      have x: "?x \<in> set (scenario_atoms (scenario_of_world p w))"
        using selected_contracts_known[OF wf w(2)] by (auto simp: scenario_of_world_atoms)
      have "?x \<in> set ?sels"
        using x w scs by auto
      then show "a \<in> ?A"
        using world_atom_of_selection[OF wf world[OF w(1)] x] w(3) by force
    qed
  qed
  finally show ?thesis
    by (auto simp: rs)
qed

lemma evaluate_fixed_worlds:
  assumes "evaluate_fixed_portfolio p qs b = Inr e"
  shows "\<exists>w. allowed_world p w \<and> worst_scenario e = scenario_of_world p w
           \<and> payout_lower_bound_units e = portfolio_payout p (evaluation_quantities e) w"
    and "\<And>w. allowed_world p w \<Longrightarrow> payout_lower_bound_units e \<le> portfolio_payout p (evaluation_quantities e) w"
proof -
  obtain en scs where wf: "wf_problem p" and en: "enumerate_scenarios False p b = Inr en" "scenarios en = Some scs"
    and worst: "worst_of p (lots_of (evaluation_quantities e)) scs = Inr (payout_lower_bound_units e, worst_scenario e)"
    using evaluate_fixed_Inr[OF assms] by blast
  have scs: "set scs = scenario_of_world p ` {w. allowed_world p w}"
    by (rule enumerated_scenarios[OF wf en])
  have world: "allowed_world p w \<Longrightarrow> world_of p w" for w
    by (simp add: allowed_world_def)
  show "\<exists>w. allowed_world p w \<and> worst_scenario e = scenario_of_world p w
      \<and> payout_lower_bound_units e = portfolio_payout p (evaluation_quantities e) w"
    using worst_of_Inr(1,2)[OF worst] scs world scenario_payout_world[OF wf] by auto
  show "payout_lower_bound_units e \<le> portfolio_payout p (evaluation_quantities e) w" if w: "allowed_world p w" for w
    using worst_of_Inr(3)[OF worst, of "scenario_of_world p w"] scs w scenario_payout_world[OF wf world[OF w]] by auto
qed

text \<open>C34. The guaranteed profit is guaranteed: when a fixed portfolio evaluates, its quantities are a valid
  selection, its cost bound is the sum over every selected lot of the price of that lot's slice, its profit
  is the payout bound minus that cost, no allowed world pays less than the profit promises, and one allowed
  world, the worst scenario, pays exactly the bound.\<close>

theorem guaranteed_profit_sound:
  assumes "evaluate_fixed_portfolio p qs b = Inr e"
  shows "cost_upper_bound_units e = portfolio_cost p (evaluation_quantities e)
    \<and> guaranteed_profit_units e = payout_lower_bound_units e - cost_upper_bound_units e
    \<and> (\<forall>w. allowed_world p w \<longrightarrow>
         guaranteed_profit_units e \<le> portfolio_payout p (evaluation_quantities e) w - portfolio_cost p (evaluation_quantities e))
    \<and> (\<exists>w. allowed_world p w \<and> worst_scenario e = scenario_of_world p w
         \<and> guaranteed_profit_units e = portfolio_payout p (evaluation_quantities e) w - portfolio_cost p (evaluation_quantities e))"
proof -
  have wf: "wf_problem p" and cost: "cost_upper_bound_for_selected p (evaluation_quantities e) = Inr (cost_upper_bound_units e)"
    and profit: "guaranteed_profit_units e = payout_lower_bound_units e - cost_upper_bound_units e"
    using evaluate_fixed_Inr[OF assms] by blast+
  show ?thesis
    using evaluate_fixed_worlds[OF assms] cost_upper_bound_exact[OF wf cost] profit by auto
qed

text \<open>The capital release time of an evaluation is the latest one: no selected contract releases
  later in any allowed world, and some selected contract releases exactly then in an allowed world.\<close>

theorem conservative_release_is_latest:
  assumes "evaluate_fixed_portfolio p qs b = Inr e"
  shows "\<exists>t. conservative_capital_release_at e = Some t \<and> as_of p \<le> t
    \<and> (\<forall>w c. allowed_world p w \<and> c \<in> selected_contracts p (evaluation_quantities e)
         \<longrightarrow> (\<exists>u. capital_release_at (w c) = Some u \<and> u \<le> t))
    \<and> (\<exists>w c. allowed_world p w \<and> c \<in> selected_contracts p (evaluation_quantities e)
         \<and> capital_release_at (w c) = Some t)"
proof -
  let ?C = "selected_contracts p (evaluation_quantities e)"
  obtain en scs rs where wf: "wf_problem p" and en: "enumerate_scenarios False p b = Inr en" "scenarios en = Some scs"
    and rs: "selected_releases p (evaluation_quantities e) scs = Inr rs"
      "conservative_release rs = Inr (conservative_capital_release_at e)"
    using evaluate_fixed_Inr[OF assms] by blast
  have set_rs: "set rs = {capital_release_at (w c) | w c. allowed_world p w \<and> c \<in> ?C}"
    by (rule selected_releases_exact[OF wf enumerated_scenarios[OF wf en] rs(1)])
  have some: "\<exists>u. capital_release_at (w c) = Some u \<and> as_of p \<le> u" if w: "allowed_world p w" and c: "c \<in> ?C" for w c
  proof -
    obtain s where s: "s \<in> set (terminal_state_sets p)" "state_contract_id s = c"
      using selected_contracts_known[OF wf c] by blast
    then have "w c \<in> set (atoms s)"
      using w by (auto simp: allowed_world_def world_of_def)
    then show ?thesis
      using wf_problem_state[OF wf s(1)] by (auto simp: wf_state_set_def wf_atom_def)
  qed
  then have "None \<notin> set rs"
    unfolding set_rs by fastforce
  then have t: "conservative_capital_release_at e = Some (Max (the ` set rs))" and ne: "rs \<noteq> []"
    using rs(2) by (auto simp: conservative_release_def split: if_splits)
  have "Max (the ` set rs) \<in> the ` set rs"
    using ne by (intro Max_in) auto
  then obtain w c where wc: "allowed_world p w" "c \<in> ?C" "Max (the ` set rs) = the (capital_release_at (w c))"
    unfolding set_rs by auto
  have latest: "u \<le> Max (the ` set rs)" if w': "allowed_world p w'" "c' \<in> ?C" "capital_release_at (w' c') = Some u" for w' c' u
  proof (rule Max_ge)
    have "Some u \<in> set rs"
      unfolding set_rs using w' by (metis (mono_tags, lifting) mem_Collect_eq)
    then show "u \<in> the ` set rs"
      by force
  qed simp
  obtain u where u: "capital_release_at (w c) = Some u" "as_of p \<le> u"
    using some[OF wc(1,2)] by blast
  have max: "Max (the ` set rs) = u"
    using wc(3) u(1) by simp
  have "\<exists>v. capital_release_at (w' c') = Some v \<and> v \<le> u" if "allowed_world p w'" "c' \<in> ?C" for w' c'
    using some[OF that] latest[OF that] max by auto
  then show ?thesis
    using t max u wc(1,2) by blast
qed

subsection \<open>Qualification rules are exact ratios\<close>

text \<open>
  The quantity a rule bounds, as a rational: profit, profit per payout and per cost in parts per
  million, the annualised return on cost over the occupied days, and the release delay in seconds
  (both rounded up).
\<close>

definition delay_of :: "ArbitrageProblem \<Rightarrow> PortfolioEvaluation \<Rightarrow> int" where
  "delay_of p e = the (conservative_capital_release_at e) - as_of p"

fun metric_quantity :: "ArbitrageProblem \<Rightarrow> PortfolioEvaluation \<Rightarrow> QualificationMetric \<Rightarrow> rat" where
  "metric_quantity p e GUARANTEED_PROFIT_UNITS = of_int (guaranteed_profit_units e)"
| "metric_quantity p e NET_MARGIN_PPM =
     of_int (guaranteed_profit_units e) * 1000000 / of_int (payout_lower_bound_units e)"
| "metric_quantity p e RETURN_ON_COST_PPM =
     of_int (guaranteed_profit_units e) * 1000000 / of_int (cost_upper_bound_units e)"
| "metric_quantity p e ANNUALIZED_RETURN_PPM =
     of_int (guaranteed_profit_units e) * 365 * 1000000
       / (of_int (cost_upper_bound_units e) * of_int (max 1 \<lceil>of_int (delay_of p e) / of_int usec_per_day :: rat\<rceil>))"
| "metric_quantity p e MAX_CAPITAL_RELEASE_DELAY_SECONDS =
     of_int \<lceil>of_int (delay_of p e) / of_int usec_per_second :: rat\<rceil>"

lemma ceiling_div_int: "0 < n \<Longrightarrow> \<lceil>of_int m / of_int n :: rat\<rceil> = (m + n - 1) div n"
proof -
  assume "0 < n"
  have "\<lceil>of_int m / of_int n :: rat\<rceil> = - ((- m) div n)"
    by (metis ceiling_def floor_divide_of_int_eq minus_divide_left of_int_minus)
  also have "\<dots> = (m + n - 1) div n"
  proof -
    have "(- m) = n * ((- m) div n) + (- m) mod n" "0 \<le> (- m) mod n" "(- m) mod n < n"
      using \<open>0 < n\<close> by auto
    then have "(m + n - 1) = n * (- ((- m) div n)) + (n - 1 - (- m) mod n)"
      and "0 \<le> n - 1 - (- m) mod n" "n - 1 - (- m) mod n < n"
      by (auto simp: algebra_simps)
    then show ?thesis
      by (metis div_pos_pos_trivial div_mult_self4 less_irrefl add.commute \<open>0 < n\<close> add_0)
  qed
  finally show ?thesis .
qed

lemma div_round_up: "0 < n \<Longrightarrow> (m + n - 1) div n = m div n + (if m mod n \<noteq> 0 then 1 else 0)" for m n :: int
proof -
  assume n: "0 < n"
  have m: "m = n * (m div n) + m mod n" "0 \<le> m mod n" "m mod n < n"
    using n by auto
  have "(m + n - 1) div n = (m mod n + n - 1 + n * (m div n)) div n"
    using m(1) by (metis add.commute add.left_commute add_diff_eq)
  also have "\<dots> = (m mod n + n - 1) div n + m div n"
    using n by simp
  also have "(m mod n + n - 1) div n = (if m mod n \<noteq> 0 then 1 else 0)"
  proof (cases "m mod n = 0")
    case False
    then have "(m mod n - 1) div n = 0"
      using m(2,3) by (intro div_pos_pos_trivial) linarith+
    then show ?thesis
      using False n div_add_self2[of n "m mod n - 1"] by (simp add: algebra_simps)
  qed (use n in simp)
  finally show ?thesis
    by simp
qed

lemma div_round_up_twice:
  "0 < m \<Longrightarrow> 0 < n \<Longrightarrow> ((d + m - 1) div m + n - 1) div n = (d + m * n - 1) div (m * n)" for d m n :: int
proof -
  assume mn: "0 < m" "0 < n"
  have "(d + m - 1) div m + n - 1 = (d + m - 1 + m * (n - 1)) div m"
    using mn by simp
  also have "d + m - 1 + m * (n - 1) = d + m * n - 1"
    by (simp add: algebra_simps)
  finally show ?thesis
    using mn by (simp add: zdiv_zmult2_eq)
qed

lemma days_and_seconds: "d div (86400 * m) * 86400 + d mod (86400 * m) div m = d div m" if "0 < m" for d m :: int
proof -
  have "d mod (m * 86400) = m * (d div m mod 86400) + d mod m"
    using that by (simp add: zmod_zmult2_eq)
  then have "d mod (m * 86400) div m = d div m mod 86400"
    using that by simp
  moreover have "d div (m * 86400) = d div m div 86400"
    using that by (simp add: zdiv_zmult2_eq)
  ultimately show ?thesis
    by (simp add: mult.commute)
qed

lemma release_delay_exact:
  assumes "release_delay_seconds p e = Inr v"
  shows "v = \<lceil>of_int (delay_of p e) / of_int usec_per_second :: rat\<rceil>"
proof -
  obtain t where t: "conservative_capital_release_at e = Some t"
    using assms by (auto simp: release_delay_seconds_def split: option.splits)
  let ?d = "t - as_of p"
  have "v = ?d div usec_per_day * 86400 + ?d mod usec_per_day div usec_per_second
      + (if ?d mod usec_per_second \<noteq> 0 then 1 else 0)"
    using assms t by (auto simp: release_delay_seconds_def Let_def split: if_splits)
  also have "\<dots> = (?d + usec_per_second - 1) div usec_per_second"
    unfolding usec_per_day_def by (simp only: days_and_seconds div_round_up zero_less_numeral)
  finally show ?thesis
    using t ceiling_div_int[of usec_per_second ?d] by (simp add: delay_of_def)
qed

lemma occupied_days_exact:
  assumes "occupied_days p e = Inr v"
  shows "v = max 1 \<lceil>of_int (delay_of p e) / of_int usec_per_day :: rat\<rceil>"
proof -
  obtain s where s: "release_delay_seconds p e = Inr s" and v: "v = max 1 ((s + 86399) div 86400)"
    using assms by (auto simp: occupied_days_def)
  let ?d = "delay_of p e"
  have "s = (?d + 999999) div 1000000"
    using release_delay_exact[OF s] ceiling_div_int[of usec_per_second ?d] by simp
  then have "(s + 86399) div 86400 = (?d + 86399999999) div 86400000000"
    using div_round_up_twice[of 1000000 86400 ?d] by simp
  moreover have "\<lceil>of_int ?d / of_int usec_per_day :: rat\<rceil> = (?d + usec_per_day - 1) div usec_per_day"
    by (rule ceiling_div_int) (simp add: usec_per_day_def)
  ultimately show ?thesis
    using v by (simp add: usec_per_day_def)
qed

lemma compare_ratio:
  fixes l r d n :: int
  assumes "0 < d" "0 < n"
  shows "compare_sides c (l * n) (r * d)
    \<longleftrightarrow> (if c = GREATER_THAN_OR_EQUAL then (of_int l / of_int d :: rat) \<ge> of_int r / of_int n
         else (of_int l / of_int d :: rat) \<le> of_int r / of_int n)"
proof -
  have "(of_int r / of_int n :: rat) \<le> of_int l / of_int d \<longleftrightarrow> r * d \<le> l * n"
    and "(of_int l / of_int d :: rat) \<le> of_int r / of_int n \<longleftrightarrow> l * n \<le> r * d"
    using assms by (simp_all add: divide_le_eq le_divide_eq mult.commute flip: of_int_mult)
  then show ?thesis
    by (simp add: compare_sides_def)
qed

text \<open>A qualification rule decides the exact rational inequality it names: with a known release
  time and positive denominators, the integer cross-multiplication returns true just when the metric is
  on the right side of the threshold fraction, without rounding.\<close>

theorem qualification_passes_exact:
  assumes "qualification_passes p q e = Inr r" and "0 < threshold_denominator q"
    and "metric q = NET_MARGIN_PPM \<Longrightarrow> 0 < payout_lower_bound_units e"
    and "metric q \<in> {RETURN_ON_COST_PPM, ANNUALIZED_RETURN_PPM} \<Longrightarrow> 0 < cost_upper_bound_units e"
  shows "r \<longleftrightarrow> (if comparison q = GREATER_THAN_OR_EQUAL
      then metric_quantity p e (metric q) \<ge> of_int (threshold_numerator q) / of_int (threshold_denominator q)
      else metric_quantity p e (metric q) \<le> of_int (threshold_numerator q) / of_int (threshold_denominator q))"
proof -
  let ?n = "threshold_denominator q" and ?t = "threshold_numerator q"
  note ratio = compare_ratio[where n = ?n and r = ?t, OF _ assms(2)]
  show ?thesis
  proof (cases "metric q")
    case GUARANTEED_PROFIT_UNITS
    then show ?thesis
      using assms(1) ratio[of 1 "comparison q" "guaranteed_profit_units e"] by (auto simp: qualification_passes_def)
  next
    case NET_MARGIN_PPM
    then show ?thesis
      using assms(1,3) ratio[of "payout_lower_bound_units e" "comparison q" "guaranteed_profit_units e * 1000000"]
      by (auto simp: qualification_passes_def dest!: checked_product_Inr simp: mult.assoc)
  next
    case RETURN_ON_COST_PPM
    then show ?thesis
      using assms(1,4) ratio[of "cost_upper_bound_units e" "comparison q" "guaranteed_profit_units e * 1000000"]
      by (auto simp: qualification_passes_def dest!: checked_product_Inr simp: mult.assoc)
  next
    case ANNUALIZED_RETURN_PPM
    then obtain days where days: "occupied_days p e = Inr days"
      "r = compare_sides (comparison q) (guaranteed_profit_units e * 365 * 1000000 * ?n) (?t * (cost_upper_bound_units e * days))"
      using assms(1) by (auto simp: qualification_passes_def dest!: checked_product_Inr simp: mult.assoc)
    moreover have "0 < cost_upper_bound_units e * days"
      using assms(4) ANNUALIZED_RETURN_PPM occupied_days_exact[OF days(1)] by simp
    ultimately show ?thesis
      using ratio[of "cost_upper_bound_units e * days" "comparison q" "guaranteed_profit_units e * 365 * 1000000"]
        ANNUALIZED_RETURN_PPM occupied_days_exact[OF days(1)] by simp
  next
    case MAX_CAPITAL_RELEASE_DELAY_SECONDS
    then obtain s where s: "release_delay_seconds p e = Inr s" "r = compare_sides (comparison q) (s * ?n) ?t"
      using assms(1) by (auto simp: qualification_passes_def)
    then show ?thesis
      using ratio[of 1 "comparison q" s] MAX_CAPITAL_RELEASE_DELAY_SECONDS release_delay_exact[OF s(1)] by simp
  qed
qed


subsection \<open>How an evaluation can fail\<close>

lemma result_fold_Inl:
  assumes "result_fold f xs s = Inl err" and "\<And>x s e. x \<in> set xs \<Longrightarrow> f x s = Inl e \<Longrightarrow> P e"
  shows "P err"
  using assms by (induction xs arbitrary: s) (auto simp: rbind_Inl_iff)

lemma result_filter_Inl:
  assumes "result_filter f xs = Inl err" and "\<And>x e. x \<in> set xs \<Longrightarrow> f x = Inl e \<Longrightarrow> P e"
  shows "P err"
  using assms by (induction xs) (auto simp: rbind_Inl_iff split: if_splits)

lemma checked_op_Inl [simp]:
  "checked_add l r = Inl e \<longleftrightarrow> e = OverflowError \<and> \<not> in_int64 (l + r)"
  "checked_subtract l r = Inl e \<longleftrightarrow> e = OverflowError \<and> \<not> in_int64 (l - r)"
  "checked_multiply l r = Inl e \<longleftrightarrow> e = OverflowError \<and> \<not> in_int64 (l * r)"
  by (simp_all add: checked_add_def checked_subtract_def checked_multiply_def checked_Inl_iff)

lemma checked_product_Inl: "checked_product vs = Inl e \<Longrightarrow> e = OverflowError"
  unfolding checked_product_def by (erule result_fold_Inl) simp

lemma enumerate_scenarios_total:
  assumes "wf_problem p"
  shows "\<exists>en. enumerate_scenarios False p b = Inr en"
  using assms by (auto simp: enumerate_scenarios_def result_filter_joint_allowed split: sum.splits)

lemma scenario_payout_Inl:
  assumes "wf_problem p" "world_of p w" "scenario_payout p lots (scenario_of_world p w) = Inl err"
  shows "err = OverflowError"
  using assms(3) unfolding scenario_payout_def cut_of_world[OF assms(1,2)]
  by (auto simp: add_payout_def rbind_Inl_iff elim!: result_fold_Inl)

definition fingerprint_collision :: "ArbitrageProblem \<Rightarrow> bool" where
  "fingerprint_collision p \<longleftrightarrow>
     (\<exists>w w'. allowed_world p w \<and> allowed_world p w' \<and> scenario_of_world p w \<noteq> scenario_of_world p w'
        \<and> fingerprint (scenario_payload (scenario_of_world p w)) = fingerprint (scenario_payload (scenario_of_world p w')))"

lemma keep_worst_Inl:
  assumes "keep_worst p lots sc best = Inl err"
  shows "scenario_payout p lots sc = Inl err
    \<or> (err = TypeError \<and> (\<exists>v fp' sc'. best = Some (v, fp', sc') \<and> sc \<noteq> sc' \<and> fingerprint (scenario_payload sc) = fp'))"
  using assms by (auto simp: keep_worst_def Let_def rbind_Inl_iff split: option.splits if_splits)

lemma keep_worst_fold_Inl:
  assumes wf: "wf_problem p" and "\<And>sc. sc \<in> set scs \<Longrightarrow> \<exists>w. allowed_world p w \<and> sc = scenario_of_world p w"
    and "\<And>v fp sc. best = Some (v, fp, sc) \<Longrightarrow>
      fp = fingerprint (scenario_payload sc) \<and> (\<exists>w. allowed_world p w \<and> sc = scenario_of_world p w)"
    and "result_fold (keep_worst p lots) scs best = Inl err"
  shows "err = OverflowError \<or> (err = TypeError \<and> fingerprint_collision p)"
  using assms(2-4)
proof (induction scs arbitrary: best)
  case (Cons sc scs)
  obtain w where w: "allowed_world p w" "sc = scenario_of_world p w"
    using Cons.prems(1) by auto
  show ?case
  proof (cases "keep_worst p lots sc best")
    case (Inl err')
    then have "keep_worst p lots sc best = Inl err"
      using Cons.prems(3) by simp
    then consider "scenario_payout p lots sc = Inl err"
      | v sc' where "err = TypeError" "best = Some (v, fingerprint (scenario_payload sc), sc')" "sc \<noteq> sc'"
      using keep_worst_Inl by blast
    then show ?thesis
    proof cases
      case 1
      then show ?thesis
        using scenario_payout_Inl[OF wf] w by (auto simp: allowed_world_def)
    next
      case 2
      then show ?thesis
        using Cons.prems(2)[OF 2(2)] w by (auto simp: fingerprint_collision_def)
    qed
  next
    case (Inr best')
    have "fp = fingerprint (scenario_payload sc') \<and> (\<exists>w. allowed_world p w \<and> sc' = scenario_of_world p w)"
      if "best' = Some (v, fp, sc')" for v fp sc'
      using that keep_worst_Inr[OF Inr] w Cons.prems(2)[of v fp sc'] by auto
    then show ?thesis
      using Cons.IH[of best'] Cons.prems Inr by auto
  qed
qed simp

lemma slices_cost_Inl: "slices_cost lots cs acc = Inl err \<Longrightarrow> err = OverflowError"
  by (induction cs arbitrary: acc) (auto simp: rbind_Inl_iff split: if_splits)

lemma quantity_cost_Inl:
  assumes wf: "wf_problem p" and "selectable p q" and "quantity_cost p q acc = Inl err"
  shows "err = OverflowError"
proof -
  obtain a where a: "actions_by_id p (quantity_action_id q) = Some a" "quantity_lots q = 0 \<or> quantity_lots q \<le> max_quantity_lots a"
    using assms(2) by (auto simp: selectable_def)
  then have "wf_action (problem_valuation_unit_id p) a"
    using wf_problem_action[OF wf] by (simp add: actions_by_id_iff[OF wf])
  then have "cost_slices a \<noteq> []" "quantity_lots q \<le> last_lot (last (cost_slices a))"
    using a(2) by (auto simp: wf_action_def)
  then show ?thesis
    using assms(3) a slices_cost_Inl by (auto simp: quantity_cost_def lookup_or_key_error_def rbind_Inl_iff)
qed

lemma release_delay_Inl:
  "conservative_capital_release_at e = Some t \<Longrightarrow> release_delay_seconds p e = Inl err \<Longrightarrow> err = OverflowError"
  by (auto simp: release_delay_seconds_def Let_def rbind_Inl_iff split: if_splits)

lemma qualification_passes_Inl:
  assumes "conservative_capital_release_at e = Some t" "qualification_passes p q e = Inl err"
  shows "err = OverflowError"
  using assms checked_product_Inl release_delay_Inl[OF assms(1)]
  by (auto simp: qualification_passes_def occupied_days_def rbind_Inl_iff
      split: QualificationMetric.splits if_splits)

lemma cost_upper_bound_Inl:
  assumes wf: "wf_problem p" and sel: "\<And>q. q \<in> set qs \<Longrightarrow> selectable p q"
    and "cost_upper_bound_for_selected p qs = Inl err"
  shows "err = OverflowError"
  using assms(3) quantity_cost_Inl[OF wf sel] unfolding cost_upper_bound_for_selected_def
  by (rule result_fold_Inl)

lemma failed_qualifications_Inl:
  assumes "conservative_capital_release_at e = Some t" "failed_qualifications p e = Inl err"
  shows "err = OverflowError"
  using assms(2) qualification_passes_Inl[OF assms(1)]
  by (auto simp: failed_qualifications_def rbind_Inl_iff elim!: result_filter_Inl)

lemma keep_worst_Some: "keep_worst p lots sc best = Inr r \<Longrightarrow> r \<noteq> None"
  using keep_worst_Inr by blast

lemma keep_worst_fold_Some:
  "result_fold (keep_worst p lots) scs best = Inr r \<Longrightarrow> scs \<noteq> [] \<or> best \<noteq> None \<Longrightarrow> r \<noteq> None"
proof (induction scs arbitrary: best)
  case (Cons sc scs)
  then show ?case
    using keep_worst_Some by fastforce
qed simp

lemma worst_of_Inl:
  assumes wf: "wf_problem p" and "set scs = scenario_of_world p ` {w. allowed_world p w}" "scs \<noteq> []"
    and "worst_of p lots scs = Inl err"
  shows "err = OverflowError \<or> (err = TypeError \<and> fingerprint_collision p)"
proof -
  have "result_fold (keep_worst p lots) scs None = Inl err"
  proof (cases "result_fold (keep_worst p lots) scs None")
    case (Inr r)
    then have "r \<noteq> None"
      using assms(3) by (intro keep_worst_fold_Some) auto
    then show ?thesis
      using assms(4) Inr by (auto simp: worst_of_def)
  qed (use assms(4) in \<open>simp add: worst_of_def\<close>)
  then show ?thesis
    using assms(2) by (intro keep_worst_fold_Inl[OF wf]) auto
qed

lemma selected_releases_known:
  assumes wf: "wf_problem p" and scs: "set scs = scenario_of_world p ` {w. allowed_world p w}" "scs \<noteq> []"
    and sel: "\<And>q. q \<in> set qs \<Longrightarrow> selectable p q" "qs \<noteq> []"
  shows "\<exists>rs t. selected_releases p qs scs = Inr rs \<and> conservative_release rs = Inr (Some t)"
proof -
  let ?sels = "filter (\<lambda>a. selected_contract_id a \<in> selected_contracts p qs) (concat (map scenario_atoms scs))"
  have "\<exists>a. atom_of_selection p x = Inr a" if "x \<in> set ?sels" for x
    using that scs world_atom_of_selection[OF wf] by (fastforce simp: allowed_world_def)
  then have "result_map (atom_of_selection p) ?sels = Inr (map (\<lambda>x. projr (atom_of_selection p x)) ?sels)"
    by (intro result_map_total) (metis sum.sel(2))
  then obtain rs where rs: "selected_releases p qs scs = Inr rs"
    by (simp add: selected_releases_def)
  have set_rs: "set rs = {capital_release_at (w c) | w c. allowed_world p w \<and> c \<in> selected_contracts p qs}"
    by (rule selected_releases_exact[OF wf scs(1) rs])
  have "None \<notin> set rs"
  proof
    assume "None \<in> set rs"
    then obtain w c where wc: "allowed_world p w" "c \<in> selected_contracts p qs" "capital_release_at (w c) = None"
      unfolding set_rs by auto
    obtain s where s: "s \<in> set (terminal_state_sets p)" "state_contract_id s = c"
      using selected_contracts_known[OF wf wc(2)] by blast
    then have "w c \<in> set (atoms s)"
      using wc(1) by (auto simp: allowed_world_def world_of_def)
    then show False
      using wf_problem_state[OF wf s(1)] wc(3) by (auto simp: wf_state_set_def wf_atom_def)
  qed
  moreover have "rs \<noteq> []"
  proof -
    obtain w where "allowed_world p w"
      using scs by fastforce
    moreover obtain q where "q \<in> set qs" "selectable p q"
      using sel by (metis last_in_set)
    then have "\<exists>c. c \<in> selected_contracts p qs"
      by (auto simp: selectable_def selected_contracts_def actions_by_id_iff[OF wf])
    ultimately show ?thesis
      using set_rs by fastforce
  qed
  ultimately show ?thesis
    using rs by (simp add: conservative_release_def)
qed

text \<open>On a valid problem, a non-empty valid selection within the budget and a satisfiable constraint
  model, evaluation can fail in two ways only: the 64-bit range check of a sum or product, or two allowed
  scenarios whose SHA-256 fingerprints coincide. No lookup, index or empty-sequence error is reachable.\<close>

theorem evaluate_fixed_errors:
  assumes wf: "wf_problem p" and valid: "\<forall>q \<in> set qs. selectable p q" "distinct (map quantity_action_id qs)"
    and some: "\<exists>q \<in> set qs. quantity_lots q \<noteq> 0"
    and en: "enumerate_allowed_scenarios p b = Inr en" "scenarios en = Some scs"
  shows "(\<exists>e. evaluate_fixed_portfolio p qs b = Inr e)
    \<or> evaluate_fixed_portfolio p qs b = Inl OverflowError
    \<or> (evaluate_fixed_portfolio p qs b = Inl TypeError \<and> fingerprint_collision p)"
proof -
  let ?sel = "sort_key quantity_action_id (filter (\<lambda>q. quantity_lots q \<noteq> 0) qs)"
  have sel: "selected_quantities p qs = Inr ?sel"
    using valid by (simp add: selected_quantities_iff)
  have ne: "?sel \<noteq> []"
    using some by (metis (mono_tags, lifting) filter_empty_conv length_0_conv length_sort)
  have en': "enumerate_scenarios False p b = Inr en"
    using en(1) by (simp add: enumerate_allowed_scenarios_def)
  have scs: "set scs = scenario_of_world p ` {w. allowed_world p w}" "scs \<noteq> []"
    using enumerated_scenarios[OF wf en' en(2)] enumerate_scenarios_Some(2)[OF wf en' en(2)] by auto
  have selectable: "q \<in> set ?sel \<Longrightarrow> selectable p q" for q
    using valid(1) by simp
  obtain rs t where rel: "selected_releases p ?sel scs = Inr rs" "conservative_release rs = Inr (Some t)"
    using selected_releases_known[OF wf scs selectable ne] by blast
  have cut: "cut_from_scenario_unchecked p sc \<noteq> Inl err'" if "worst_of p lots scs = Inr (v, sc)" for lots v sc err'
    using worst_of_Inr(1)[OF that] scs(1) cut_of_world[OF wf] by (auto simp: allowed_world_def)
  have cost: "cost_upper_bound_for_selected p ?sel = Inl err' \<Longrightarrow> err' = OverflowError" for err'
    by (rule cost_upper_bound_Inl[OF wf selectable])
  have "err = OverflowError \<or> (err = TypeError \<and> fingerprint_collision p)"
    if "evaluate_fixed_portfolio p qs b = Inl err" for err
    using that wf sel ne en' en(2) rel
    by (auto simp: evaluate_fixed_portfolio_def evaluate_portfolio_def rbind_Inl_iff Let_def
        dest: cut worst_of_Inl[OF wf scs] cost failed_qualifications_Inl[rotated]
        split: if_splits)
  then show ?thesis
    by (cases "evaluate_fixed_portfolio p qs b") auto
qed


subsection \<open>The concrete problem evaluated\<close>

lemma sample_actions_by_id:
  "actions_by_id sample_problem ''a-no'' = Some sample_a" "actions_by_id sample_problem ''b-yes'' = Some sample_b"
  by (simp_all add: actions_by_id_iff[OF sample_wf]) (simp_all add: sample_defs)

lemma sample_selected: "selected_quantities sample_problem sample_quantities = Inr sample_quantities"
  by (simp add: selected_quantities_iff selectable_def sample_quantities_def sample_actions_by_id INT64_MAX_def)
    (simp add: sample_defs)

lemma sample_states: "sorted_states sample_problem = [sample_state_a, sample_state_b]"
  by (simp add: sorted_states_def sample_problem_def sample_state_a_def sample_state_b_def)

lemma sample_atoms_sorted:
  "sort_key atom_id (atoms sample_state_a) = atoms sample_state_a"
  "sort_key atom_id (atoms sample_state_b) = atoms sample_state_b"
  by (simp_all add: sample_state_a_def sample_state_b_def sample_atom_def)

abbreviation (input) sample_a_yes where "sample_a_yes \<equiv> sample_atom ''a1'' NORMAL_YES ''a-no'' 0 5000000"
abbreviation (input) sample_a_no where "sample_a_no \<equiv> sample_atom ''a2'' NORMAL_NO ''a-no'' 1000000 6000000"
abbreviation (input) sample_b_yes where "sample_b_yes \<equiv> sample_atom ''b1'' NORMAL_YES ''b-yes'' 990000 5000000"
abbreviation (input) sample_b_no where "sample_b_no \<equiv> sample_atom ''b2'' NORMAL_NO ''b-yes'' 0 7000000"

lemma sample_joint_states:
  "joint_states sample_problem = [[sample_a_yes, sample_b_yes], [sample_a_yes, sample_b_no],
     [sample_a_no, sample_b_yes], [sample_a_no, sample_b_no]]"
  by (simp add: joint_states_def sample_states sample_atoms_sorted) (simp add: sample_state_a_def sample_state_b_def)

lemma sample_enumeration:
  "enumerate_scenarios False sample_problem sample_budget = Inr
     \<lparr>scenarios = Some (map (scenario_of sample_problem)
        [[sample_a_yes, sample_b_yes], [sample_a_no, sample_b_yes], [sample_a_no, sample_b_no]]),
      raw_joint_state_count = 4, enumeration_unknown_reason = None\<rparr>"
  by (simp add: enumerate_scenarios_def sample_wf sample_joint_states sample_states checked_multiply_def checked_def
      int64_defs joint_allowed_def violates_normal_relation_def violates_forbidden_def del: rbind_Inr_iff)
    (simp add: sample_defs last_wins_def lookup_or_key_error_def del: rbind_Inr_iff)

lemma sample_payout:
  assumes "as \<in> set (joint_states sample_problem)"
  shows "scenario_payout sample_problem (lots_of sample_quantities) (scenario_of sample_problem as)
           = Inr (3 * payout_in (as ! 0) ''a-no'' + 3 * payout_in (as ! 1) ''b-yes'')"
proof -
  obtain w where w: "world_of sample_problem w" "as = world_atoms sample_problem w"
    using joint_state_world[OF sample_wf assms] by blast
  have as: "as = [w ''A'', w ''B'']"
    unfolding w(2) world_atoms_def sample_states by (simp add: sample_state_a_def sample_state_b_def)
  have cut: "scenario_payout sample_problem (lots_of sample_quantities) (scenario_of sample_problem as)
      = result_fold (add_payout (lots_of sample_quantities))
          (sort_key payout_action_id (payouts (w ''A'') @ payouts (w ''B''))) 0"
    using cut_of_world[OF sample_wf w(1)]
    by (simp add: scenario_payout_def scenario_of_world_def w(2)[symmetric])
      (simp add: sample_problem_def sample_state_a_def sample_state_b_def)
  have lots: "lots_of sample_quantities ''a-no'' = Some 3" "lots_of sample_quantities ''b-yes'' = Some 3"
    by (simp_all add: lots_of_def last_wins_def sample_quantities_def)
  have "w ''A'' = sample_a_yes \<or> w ''A'' = sample_a_no" "w ''B'' = sample_b_yes \<or> w ''B'' = sample_b_no"
    using assms unfolding sample_joint_states as by auto
  then show ?thesis
    unfolding cut unfolding as by (auto simp: sample_atom_def add_payout_def lots checked_multiply_def checked_add_def checked_def
        INT64_MIN_def INT64_MAX_def payout_in_def simp del: rbind_Inr_iff)
qed

lemma sample_worst:
  "worst_of sample_problem (lots_of sample_quantities) (map (scenario_of sample_problem)
        [[sample_a_yes, sample_b_yes], [sample_a_no, sample_b_yes], [sample_a_no, sample_b_no]])
   = Inr (2970000, scenario_of sample_problem [sample_a_yes, sample_b_yes])"
proof -
  let ?pay = "\<lambda>as. scenario_payout sample_problem (lots_of sample_quantities) (scenario_of sample_problem as)"
  have in_joint: "[sample_a_yes, sample_b_yes] \<in> set (joint_states sample_problem)"
    "[sample_a_no, sample_b_yes] \<in> set (joint_states sample_problem)"
    "[sample_a_no, sample_b_no] \<in> set (joint_states sample_problem)"
    unfolding sample_joint_states by simp_all
  have "?pay [sample_a_yes, sample_b_yes] = Inr 2970000" "?pay [sample_a_no, sample_b_yes] = Inr 5970000"
    "?pay [sample_a_no, sample_b_no] = Inr 3000000"
    using sample_payout[OF in_joint(1)] sample_payout[OF in_joint(2)] sample_payout[OF in_joint(3)]
    by (simp_all add: payout_in_def sample_atom_def)
  then show ?thesis
    by (simp add: worst_of_def keep_worst_def Let_def del: rbind_Inr_iff)
qed

lemma sample_evaluates:
  "\<exists>e. evaluate_fixed_portfolio sample_problem sample_quantities sample_budget = Inr e
     \<and> evaluation_quantities e = sample_quantities \<and> payout_lower_bound_units e = 2970000
     \<and> cost_upper_bound_units e = 2510000 \<and> guaranteed_profit_units e = 460000
     \<and> conservative_capital_release_at e = Some 7000000 \<and> failed_qualification_ids e = []"
proof -
  let ?scs = "map (scenario_of sample_problem)
        [[sample_a_yes, sample_b_yes], [sample_a_no, sample_b_yes], [sample_a_no, sample_b_no]]"
  let ?worst = "scenario_of sample_problem [sample_a_yes, sample_b_yes]"
  have contracts: "selected_contracts sample_problem sample_quantities = {''A'', ''B''}"
  proof -
    have ids: "action_id sample_a = ''a-no''" "action_id sample_b = ''b-yes''" "market_contract_id sample_a = ''A''"
      "market_contract_id sample_b = ''B''"
      by (simp_all add: sample_a_def sample_b_def sample_action_def)
    then have "{a \<in> set (actions sample_problem). action_id a \<in> quantity_action_id ` set sample_quantities}
        = {sample_a, sample_b}"
      by (auto simp: sample_problem_def sample_quantities_def)
    then show ?thesis
      by (simp add: selected_contracts_def ids)
  qed
  have states: "states_by_contract sample_problem ''A'' = Some sample_state_a"
    "states_by_contract sample_problem ''B'' = Some sample_state_b"
    by (simp_all add: states_by_contract_iff[OF sample_wf]) (simp_all add: sample_defs)
  have atoms: "atoms_by_id sample_state_a ''a1'' = Some sample_a_yes" "atoms_by_id sample_state_a ''a2'' = Some sample_a_no"
    "atoms_by_id sample_state_b ''b1'' = Some sample_b_yes" "atoms_by_id sample_state_b ''b2'' = Some sample_b_no"
    by (simp_all add: atoms_by_id_def last_wins_def sample_state_a_def sample_state_b_def sample_atom_def)
  have sel: "scenario_atoms (scenario_of sample_problem [sample_atom i k n v t, sample_atom i' k' n' v' t'])
      = [\<lparr>selected_contract_id = ''A'', selected_atom_id = i\<rparr>, \<lparr>selected_contract_id = ''B'', selected_atom_id = i'\<rparr>]"
    for i k n v t i' k' n' v' t'
    by (simp add: scenario_of_def sample_states) (simp add: sample_state_a_def sample_state_b_def sample_atom_def)
  have releases: "selected_releases sample_problem sample_quantities ?scs
      = Inr [Some 5000000, Some 5000000, Some 6000000, Some 5000000, Some 6000000, Some 7000000]"
    by (simp add: selected_releases_def contracts sel atom_of_selection_def states atoms lookup_or_key_error_def
        del: rbind_Inr_iff) (simp add: sample_atom_def)
  have release: "conservative_release [Some 5000000, Some 5000000, Some 6000000, Some 5000000, Some 6000000, Some 7000000]
      = Inr (Some 7000000)"
    by (simp add: conservative_release_def)
  have cost: "cost_upper_bound_for_selected sample_problem sample_quantities = Inr 2510000"
    by (simp add: cost_upper_bound_for_selected_def sample_quantities_def quantity_cost_def sample_actions_by_id
        lookup_or_key_error_def sample_a_def sample_b_def sample_action_def sample_slice_def checked_multiply_def checked_add_def
        checked_subtract_def checked_def INT64_MIN_def INT64_MAX_def del: rbind_Inr_iff)
  obtain w where w: "world_of sample_problem w" "[sample_a_yes, sample_b_yes] = world_atoms sample_problem w"
    using joint_state_world[OF sample_wf, of "[sample_a_yes, sample_b_yes]"] by (auto simp: sample_joint_states)
  obtain cut where cut: "cut_from_scenario_unchecked sample_problem ?worst = Inr cut"
    using cut_of_world[OF sample_wf w(1)] by (simp add: scenario_of_world_def w(2)[symmetric])
  have passes: "qualification_passes sample_problem sample_qualification e = Inr True"
    if "guaranteed_profit_units e = 460000" "cost_upper_bound_units e = 2510000" for e
    using that by (simp add: qualification_passes_def sample_qualification_def checked_product_def checked_multiply_def
        checked_def compare_sides_def INT64_MIN_def INT64_MAX_def del: rbind_Inr_iff)
  have quals: "qualification_constraints sample_problem = [sample_qualification]" "metric sample_qualification = RETURN_ON_COST_PPM"
    by (simp_all add: sample_problem_def sample_qualification_def)
  show ?thesis
    by (simp add: evaluate_fixed_portfolio_def evaluate_portfolio_def sample_wf sample_selected sample_enumeration
        sample_worst[simplified] releases[simplified] release cost cut checked_subtract_def checked_def
        INT64_MIN_def INT64_MAX_def failed_qualifications_def quals passes Let_def time_constrained_def
        del: rbind_Inr_iff)
      (simp add: sample_quantities_def)
qed

lemma sample_joint_count: "joint_state_count sample_problem = 4"
  by (simp add: joint_state_count_def sample_problem_def sample_state_a_def sample_state_b_def)

theorem enumerate_allowed_scenarios_exact_witness:
  "\<exists>en scs. enumerate_allowed_scenarios sample_problem sample_budget = Inr en \<and> scenarios en = Some scs
     \<and> distinct scs \<and> length scs = 3 \<and> set scs = scenario_of_world sample_problem ` {w. allowed_world sample_problem w}"
  using enumerate_allowed_scenarios_exact[of sample_problem sample_budget] sample_enumeration
  by (simp add: sample_wf sample_joint_count in_int64_def INT64_MIN_def INT64_MAX_def sample_budget_def
      enumerate_allowed_scenarios_def)

theorem guaranteed_profit_sound_witness:
  "\<exists>e. evaluate_fixed_portfolio sample_problem sample_quantities sample_budget = Inr e
     \<and> guaranteed_profit_units e = 460000
     \<and> (\<forall>w. allowed_world sample_problem w \<longrightarrow>
          460000 \<le> portfolio_payout sample_problem sample_quantities w - portfolio_cost sample_problem sample_quantities)"
  using sample_evaluates guaranteed_profit_sound by fastforce

theorem conservative_release_is_latest_witness:
  "\<exists>e. evaluate_fixed_portfolio sample_problem sample_quantities sample_budget = Inr e
     \<and> conservative_capital_release_at e = Some 7000000
     \<and> (\<exists>w c. allowed_world sample_problem w \<and> c \<in> selected_contracts sample_problem sample_quantities
          \<and> capital_release_at (w c) = Some 7000000)"
  using sample_evaluates conservative_release_is_latest by fastforce

definition sample_evaluation :: PortfolioEvaluation where
  "sample_evaluation =
     \<lparr>evaluation_quantities = sample_quantities, payout_lower_bound_units = 2970000,
      cost_upper_bound_units = 2510000, guaranteed_profit_units = 460000,
      worst_scenario = \<lparr>scenario_atoms = []\<rparr>,
      worst_state_cut = \<lparr>cut_id = [], cut_scenario = \<lparr>scenario_atoms = []\<rparr>, payout_per_lot = []\<rparr>,
      conservative_capital_release_at = Some 7000000, failed_qualification_ids = [],
      time_qualification = ''KNOWN''\<rparr>"

theorem qualification_passes_exact_witness:
  "qualification_passes sample_problem sample_qualification sample_evaluation = Inr True
     \<and> (10000 / 1 :: rat) \<le> metric_quantity sample_problem sample_evaluation RETURN_ON_COST_PPM"
proof
  show passes: "qualification_passes sample_problem sample_qualification sample_evaluation = Inr True"
    by (simp add: qualification_passes_def sample_qualification_def sample_evaluation_def checked_product_def
        checked_multiply_def checked_def compare_sides_def INT64_MIN_def INT64_MAX_def del: rbind_Inr_iff)
  show "(10000 / 1 :: rat) \<le> metric_quantity sample_problem sample_evaluation RETURN_ON_COST_PPM"
    using qualification_passes_exact[OF passes] by (simp add: sample_qualification_def sample_evaluation_def)
qed

theorem evaluate_fixed_errors_witness:
  "(\<exists>e. evaluate_fixed_portfolio sample_problem sample_quantities sample_budget = Inr e)
     \<or> evaluate_fixed_portfolio sample_problem sample_quantities sample_budget = Inl OverflowError
     \<or> (evaluate_fixed_portfolio sample_problem sample_quantities sample_budget = Inl TypeError
        \<and> fingerprint_collision sample_problem)"
proof -
  have sel: "\<forall>q \<in> set sample_quantities. selectable sample_problem q" "distinct (map quantity_action_id sample_quantities)"
    using sample_selected by (simp_all add: selected_quantities_iff)
  have "\<exists>q \<in> set sample_quantities. quantity_lots q \<noteq> 0"
    by (simp add: sample_quantities_def)
  then show ?thesis
    using evaluate_fixed_errors[OF sample_wf sel] sample_enumeration
    by (auto simp: enumerate_allowed_scenarios_def)
qed

end
