(* ===== verification/Union_Find.thy ===== *)
theory Union_Find
  imports Py_Prelude
begin

section \<open>Union-find over contract ids\<close>

text \<open>
  The nested functions \<open>find\<close> and \<open>join\<close> that \<open>build_relation_components\<close> and
  \<open>split_disconnected_solution\<close> of \<^verbatim>\<open>prediction_n_leg_oracle.py\<close> share: a dict \<open>parent\<close>, path halving in
  \<open>find\<close>, and \<open>join\<close>, which hangs the root of every further contract below the root of the first.
  The loop of \<open>find\<close> has the number of entries of the dict as its fuel; on a forest that is always
  enough (\<open>find_root_correct\<close>), and both callers start from the identity forest.
\<close>

type_synonym forest = "(string \<times> string) list"

definition parent_of :: "forest \<Rightarrow> string \<Rightarrow> string result" where
  "parent_of parent c = (case map_of parent c of None \<Rightarrow> Inl (KeyError c) | Some q \<Rightarrow> Inr q)"

fun find_steps :: "nat \<Rightarrow> forest \<Rightarrow> string \<Rightarrow> (forest \<times> string) result" where
  "find_steps 0 parent c = Inl OutOfFuel"
| "find_steps (Suc n) parent c =
     rbind (parent_of parent c) (\<lambda>q.
     if q = c then Inr (parent, c)
     else
       rbind (parent_of parent q) (\<lambda>g.
       find_steps n (AList.update c g parent) g))"

definition find_root :: "forest \<Rightarrow> string \<Rightarrow> (forest \<times> string) result" where
  "find_root parent c = find_steps (Suc (length parent)) parent c"

fun join_rest :: "string \<Rightarrow> string list \<Rightarrow> forest \<Rightarrow> forest result" where
  "join_rest head [] parent = Inr parent"
| "join_rest head (c # cs) parent =
     rbind (find_root parent c) (\<lambda>(parent', tail).
     join_rest head cs (if head \<noteq> tail then AList.update tail head parent' else parent'))"

definition join :: "string list \<Rightarrow> forest \<Rightarrow> forest result" where
  "join cs parent =
     (case cs of
        [] \<Rightarrow> Inl IndexError
      | c # rest \<Rightarrow> rbind (find_root parent c) (\<lambda>(parent', head). join_rest head rest parent'))"

definition identity_forest :: "string list \<Rightarrow> forest" where
  "identity_forest cs = map (\<lambda>c. (c, c)) (first_occurrences cs)"

subsection \<open>Forests\<close>

text \<open>\<open>climbs P c n r\<close>: following parents from \<open>c\<close> reaches the root \<open>r\<close> after \<open>n\<close> steps.\<close>

inductive climbs :: "(string \<rightharpoonup> string) \<Rightarrow> string \<Rightarrow> nat \<Rightarrow> string \<Rightarrow> bool" for P where
  root: "P r = Some r \<Longrightarrow> climbs P r 0 r"
| step: "P c = Some q \<Longrightarrow> q \<noteq> c \<Longrightarrow> climbs P q n r \<Longrightarrow> climbs P c (Suc n) r"

inductive_cases climbsE: "climbs P c n r"
inductive_simps climbs_0 [simp]: "climbs P c 0 r"
inductive_simps climbs_Suc: "climbs P c (Suc n) r"

definition is_forest :: "(string \<rightharpoonup> string) \<Rightarrow> bool" where
  "is_forest P \<longleftrightarrow> (\<forall>c \<in> dom P. \<exists>n r. climbs P c n r)"

lemma climbs_root: "climbs P c n r \<Longrightarrow> P r = Some r"
  by (induction rule: climbs.induct) auto

lemma climbs_dom: "climbs P c n r \<Longrightarrow> c \<in> dom P \<and> r \<in> dom P"
  by (induction rule: climbs.induct) auto

lemma climbs_det: "climbs P c n r \<Longrightarrow> climbs P c m s \<Longrightarrow> m = n \<and> s = r"
proof (induction arbitrary: m s rule: climbs.induct)
  case (root r)
  then show ?case
    by (auto elim: climbsE)
next
  case (step c q n r)
  from step.prems step.hyps(1,2) obtain m' where "m = Suc m'" "climbs P q m' s"
    by (auto elim: climbsE)
  then show ?case
    using step.IH by blast
qed

lemma climbs_parent:
  assumes "climbs P c n r" "P c = Some q" "q \<noteq> c"
  shows "\<exists>m \<le> n. climbs P q m r"
  using assms
proof (cases rule: climbs.cases)
  case (step q' m)
  then show ?thesis
    using assms(2) by (auto intro: exI[of _ m])
qed simp

text \<open>The nodes on a climb have different heights, so a climb is shorter than the dict.\<close>

lemma climbs_heights: "climbs P c n r \<Longrightarrow> k \<le> n \<Longrightarrow> \<exists>x \<in> dom P. climbs P x k r"
proof (induction rule: climbs.induct)
  case (step c q n r)
  then show ?case
    by (cases "k = Suc n") (auto intro: climbs.step)
qed auto

lemma climbs_bound:
  assumes "climbs P c n r" and "finite (dom P)"
  shows "n < card (dom P)"
proof -
  obtain f where f: "\<And>k. k \<le> n \<Longrightarrow> f k \<in> dom P \<and> climbs P (f k) k r"
    using climbs_heights[OF assms(1)] by metis
  have "inj_on f {..n}"
    using f climbs_det by (metis atMost_iff inj_onI)
  then have "card {..n} \<le> card (dom P)"
    using f assms(2) by (intro card_inj_on_le[of f]) auto
  then show ?thesis
    by simp
qed

text \<open>Path halving keeps every root and lengthens no climb.\<close>

lemma climbs_halve:
  assumes "P c = Some q" "q \<noteq> c" "P q = Some g" and "climbs P x n r"
  shows "\<exists>m \<le> n. climbs (P(c \<mapsto> g)) x m r"
  using assms(4)
proof (induction n arbitrary: x rule: less_induct)
  case (less n)
  show ?case
  proof (cases "x = c")
    case False
    show ?thesis
      using less.prems
    proof (cases rule: climbs.cases)
      case root
      then show ?thesis
        using False by (auto intro!: climbs.root)
    next
      case (step q' n')
      then obtain m where "m \<le> n'" "climbs (P(c \<mapsto> g)) q' m r"
        using less.IH by blast
      then show ?thesis
        using climbs.step[of "P(c \<mapsto> g)" x q' m r] step False by (metis Suc_le_mono fun_upd_other)
    qed
  next
    case True
    then obtain k where k: "n = Suc k" "climbs P q k r"
      using less.prems assms(1,2) by (auto elim: climbsE)
    show ?thesis
    proof (cases "g = q")
      case True
      then have "q = r" "k = 0"
        using k(2) assms(3) climbs.root climbs_det by metis+
      then show ?thesis
        using \<open>x = c\<close> True assms k climbs.step[of "P(c \<mapsto> g)" c q 0 q] climbs.root[of "P(c \<mapsto> g)" q]
        by (metis One_nat_def fun_upd_other fun_upd_same order_refl)
    next
      case False
      then obtain j where j: "k = Suc j" "climbs P g j r"
        using k(2) assms(3) by (auto elim: climbsE)
      have "g \<noteq> c"
        using climbs_det[OF j(2), of n r] less.prems True j(1) k(1) by auto
      moreover obtain m where "m \<le> j" "climbs (P(c \<mapsto> g)) g m r"
        using less.IH[OF _ j(2)] j(1) k(1) by (metis lessI less_SucI)
      ultimately show ?thesis
        using climbs.step[of "P(c \<mapsto> g)" c g m r] True j(1) k(1) by (metis Suc_le_mono fun_upd_same le_SucI)
    qed
  qed
qed

lemma halve_forest:
  assumes "P c = Some q" "q \<noteq> c" "P q = Some g" and "is_forest P"
  shows "is_forest (P(c \<mapsto> g))" and "(\<exists>n. climbs (P(c \<mapsto> g)) x n r) \<longleftrightarrow> (\<exists>n. climbs P x n r)"
proof -
  have keep: "climbs P x n r \<Longrightarrow> \<exists>m. climbs (P(c \<mapsto> g)) x m r" for x n r
    using climbs_halve[OF assms(1-3)] by blast
  have dom: "dom (P(c \<mapsto> g)) = dom P"
    using assms(1) by auto
  then show "is_forest (P(c \<mapsto> g))"
    using assms(4) keep unfolding is_forest_def by metis
  show "(\<exists>n. climbs (P(c \<mapsto> g)) x n r) \<longleftrightarrow> (\<exists>n. climbs P x n r)"
  proof
    assume new: "\<exists>n. climbs (P(c \<mapsto> g)) x n r"
    then have "x \<in> dom P"
      using climbs_dom dom by blast
    then obtain n s where "climbs P x n s"
      using assms(4) unfolding is_forest_def by blast
    then show "\<exists>n. climbs P x n r"
      using keep new climbs_det by blast
  qed (use keep in blast)
qed

text \<open>Hanging one root below another redirects exactly the climbs that ended there.\<close>

lemma climbs_link:
  assumes "P t = Some t" "P h = Some h" "t \<noteq> h" and "climbs P x n r"
  shows "\<exists>m. climbs (P(t \<mapsto> h)) x m (if r = t then h else r)"
  using assms(4)
proof (induction rule: climbs.induct)
  case (root r)
  have top: "climbs (P(t \<mapsto> h)) h 0 h"
    using assms(2,3) by (auto intro: climbs.root)
  show ?case
  proof (cases "r = t")
    case True
    then show ?thesis
      using climbs.step[of "P(t \<mapsto> h)" t h 0 h] top assms(3) by (metis fun_upd_same)
  next
    case False
    then show ?thesis
      using root by (simp del: fun_upd_apply add: fun_upd_other) (rule exI, rule climbs.root, simp)
  qed
next
  case (step c q n r)
  then have "c \<noteq> t"
    using assms(1) by auto
  then show ?case
    using step by (metis climbs.step fun_upd_other)
qed

subsection \<open>The representative of a contract\<close>

definition rep :: "forest \<Rightarrow> string \<Rightarrow> string" where
  "rep parent c = (case find_root parent c of Inr (_, r) \<Rightarrow> r | Inl _ \<Rightarrow> c)"

definition forest_inv :: "forest \<Rightarrow> bool" where
  "forest_inv parent \<longleftrightarrow> is_forest (map_of parent)"

definition contracts_of :: "forest \<Rightarrow> string set" where
  "contracts_of parent = fst ` set parent"

lemma contracts_of_dom: "contracts_of parent = dom (map_of parent)"
  by (simp add: contracts_of_def dom_map_of_conv_image_fst)

lemma parent_of_Inr [simp]: "parent_of parent c = Inr q \<longleftrightarrow> map_of parent c = Some q"
  by (auto simp: parent_of_def split: option.splits)

lemma find_steps_correct:
  assumes "climbs (map_of parent) c n r" "n < fuel" "is_forest (map_of parent)"
  shows "\<exists>parent'. find_steps fuel parent c = Inr (parent', r) \<and> is_forest (map_of parent')
    \<and> dom (map_of parent') = dom (map_of parent)
    \<and> (\<forall>x s. (\<exists>n. climbs (map_of parent') x n s) \<longleftrightarrow> (\<exists>n. climbs (map_of parent) x n s))"
  using assms
proof (induction fuel arbitrary: parent c n)
  case (Suc fuel)
  let ?P = "map_of parent"
  from Suc.prems(1) show ?case
  proof (cases rule: climbs.cases)
    case root
    then show ?thesis
      using Suc.prems(3) by (auto simp: parent_of_def)
  next
    case (step q n')
    obtain g where g: "?P q = Some g"
      using climbs_dom[OF step(4)] by auto
    let ?parent = "AList.update c g parent"
    have map: "map_of ?parent = ?P(c \<mapsto> g)"
      by (simp add: update_conv')
    have halved: "is_forest (map_of ?parent)"
      "\<And>x s. (\<exists>n. climbs (map_of ?parent) x n s) \<longleftrightarrow> (\<exists>n. climbs ?P x n s)"
      unfolding map using halve_forest[OF step(2,3) g Suc.prems(3)] by blast+
    have "\<exists>m. climbs ?P g m r \<and> m \<le> n'"
    proof (cases "g = q")
      case True
      then show ?thesis
        using step(4) by blast
    next
      case False
      then show ?thesis
        using g climbs_parent[OF step(4)] by blast
    qed
    then obtain m where "climbs (map_of ?parent) g m r" "m \<le> n'"
      unfolding map using climbs_halve[OF step(2,3) g] by (meson order_trans)
    then obtain parent' where p: "find_steps fuel ?parent g = Inr (parent', r)" "is_forest (map_of parent')"
      "dom (map_of parent') = dom (map_of ?parent)"
      "\<forall>x s. (\<exists>n. climbs (map_of parent') x n s) \<longleftrightarrow> (\<exists>n. climbs (map_of ?parent) x n s)"
      using Suc.IH[of ?parent g m] halved(1) Suc.prems(2) step(1) by auto
    have "find_steps (Suc fuel) parent c = Inr (parent', r)"
      using step(2,3) g p(1) by (simp add: parent_of_def del: rbind_Inr_iff)
    moreover have "dom (map_of ?parent) = dom ?P"
      using step(2) by (auto simp: map)
    ultimately show ?thesis
      using p(2-4) halved(2) by (intro exI[of _ parent']) (simp del: find_steps.simps)
  qed
qed simp

lemma find_root_correct:
  assumes "forest_inv parent" "c \<in> contracts_of parent"
  shows "\<exists>parent' n. find_root parent c = Inr (parent', rep parent c) \<and> climbs (map_of parent) c n (rep parent c)
    \<and> forest_inv parent' \<and> contracts_of parent' = contracts_of parent
    \<and> (\<forall>x s. (\<exists>n. climbs (map_of parent') x n s) \<longleftrightarrow> (\<exists>n. climbs (map_of parent) x n s))"
proof -
  obtain n r where n: "climbs (map_of parent) c n r"
    using assms unfolding forest_inv_def is_forest_def contracts_of_dom by blast
  have "card (dom (map_of parent)) \<le> length parent"
    by (metis card_length contracts_of_dom contracts_of_def length_map list.set_map)
  then have "n < Suc (length parent)"
    using climbs_bound[OF n finite_dom_map_of] by simp
  then obtain parent' where p: "find_root parent c = Inr (parent', r)" "is_forest (map_of parent')"
    "dom (map_of parent') = dom (map_of parent)"
    "\<forall>x s. (\<exists>n. climbs (map_of parent') x n s) \<longleftrightarrow> (\<exists>n. climbs (map_of parent) x n s)"
    using find_steps_correct[OF n] assms(1) unfolding find_root_def forest_inv_def by blast
  then have "rep parent c = r"
    by (simp add: rep_def)
  then show ?thesis
    using p n unfolding forest_inv_def contracts_of_dom by blast
qed

lemma rep_climbs:
  assumes "forest_inv parent" "c \<in> contracts_of parent"
  shows "rep parent c = r \<longleftrightarrow> (\<exists>n. climbs (map_of parent) c n r)"
  using find_root_correct[OF assms] climbs_det by blast

lemma rep_known:
  assumes "forest_inv parent" "c \<in> contracts_of parent"
  shows "rep parent c \<in> contracts_of parent" "map_of parent (rep parent c) = Some (rep parent c)"
    "rep parent (rep parent c) = rep parent c"
proof -
  obtain n where n: "climbs (map_of parent) c n (rep parent c)"
    using find_root_correct[OF assms] by blast
  show known: "rep parent c \<in> contracts_of parent" and root: "map_of parent (rep parent c) = Some (rep parent c)"
    using climbs_dom[OF n] climbs_root[OF n] by (auto simp: contracts_of_dom)
  show "rep parent (rep parent c) = rep parent c"
    using rep_climbs[OF assms(1) known] climbs.root[of "map_of parent", OF root] by blast
qed

lemma root_rep:
  assumes "forest_inv parent" "map_of parent h = Some h"
  shows "h \<in> contracts_of parent" "rep parent h = h"
proof -
  show h: "h \<in> contracts_of parent"
    using assms(2) by (auto simp: contracts_of_dom)
  show "rep parent h = h"
    unfolding rep_climbs[OF assms(1) h] by (rule exI, rule climbs.root) (rule assms(2))
qed

lemma find_root_rep:
  assumes "forest_inv parent" "c \<in> contracts_of parent"
  shows "\<exists>parent'. find_root parent c = Inr (parent', rep parent c) \<and> forest_inv parent'
    \<and> contracts_of parent' = contracts_of parent \<and> (\<forall>x \<in> contracts_of parent. rep parent' x = rep parent x)"
proof -
  obtain parent' where p: "find_root parent c = Inr (parent', rep parent c)" "forest_inv parent'"
    "contracts_of parent' = contracts_of parent"
    "\<forall>x s. (\<exists>n. climbs (map_of parent') x n s) \<longleftrightarrow> (\<exists>n. climbs (map_of parent) x n s)"
    using find_root_correct[OF assms] by blast
  have "rep parent' x = rep parent x" if "x \<in> contracts_of parent" for x
    using rep_climbs[OF p(2)] rep_climbs[OF assms(1)] p(3,4) that by metis
  then show ?thesis
    using p by blast
qed

lemma link_rep:
  assumes inv: "forest_inv parent" and t: "map_of parent t = Some t" and h: "map_of parent h = Some h" and "t \<noteq> h"
  shows "forest_inv (AList.update t h parent)" "contracts_of (AList.update t h parent) = contracts_of parent"
    "x \<in> contracts_of parent \<Longrightarrow> rep (AList.update t h parent) x = (if rep parent x = t then h else rep parent x)"
proof -
  let ?parent = "AList.update t h parent"
  have map: "map_of ?parent = (map_of parent)(t \<mapsto> h)"
    by (simp add: update_conv')
  show dom: "contracts_of ?parent = contracts_of parent"
    using t by (auto simp: contracts_of_dom map)
  have climb: "\<exists>m. climbs (map_of ?parent) x m (if rep parent x = t then h else rep parent x)"
    if "x \<in> contracts_of parent" for x
    unfolding map using climbs_link[OF t h assms(4)] find_root_correct[OF inv that] by blast
  show inv': "forest_inv ?parent"
    unfolding forest_inv_def is_forest_def using climb dom by (metis contracts_of_dom)
  show "rep ?parent x = (if rep parent x = t then h else rep parent x)" if "x \<in> contracts_of parent"
    using rep_climbs[OF inv'] climb[OF that] dom that by blast
qed


text \<open>\<open>join\<close> merges exactly the classes that its contracts meet.\<close>

lemma join_rest_correct:
  assumes "forest_inv parent" "set cs \<subseteq> contracts_of parent" "map_of parent h = Some h"
  shows "\<exists>parent'. join_rest h cs parent = Inr parent' \<and> forest_inv parent' \<and> contracts_of parent' = contracts_of parent
    \<and> (\<forall>x \<in> contracts_of parent. rep parent' x = (if rep parent x \<in> rep parent ` set cs then h else rep parent x))"
  using assms
proof (induction cs arbitrary: parent)
  case (Cons c cs)
  have c: "c \<in> contracts_of parent"
    using Cons.prems(2) by simp
  obtain p1 where p1: "find_root parent c = Inr (p1, rep parent c)" "forest_inv p1"
    "contracts_of p1 = contracts_of parent" "\<And>x. x \<in> contracts_of parent \<Longrightarrow> rep p1 x = rep parent x"
    using find_root_rep[OF Cons.prems(1) c] by blast
  have h: "h \<in> contracts_of parent" "rep parent h = h"
    using root_rep[OF Cons.prems(1,3)] .
  let ?t = "rep parent c"
  let ?p2 = "if h \<noteq> ?t then AList.update ?t h p1 else p1"
  have t_root: "map_of p1 ?t = Some ?t" and h_root: "map_of p1 h = Some h"
    using rep_known(2)[OF p1(2)] p1(3,4) c h by metis+
  have p2: "forest_inv ?p2" "contracts_of ?p2 = contracts_of parent"
    and rep2: "\<And>x. x \<in> contracts_of parent \<Longrightarrow> rep ?p2 x = (if rep parent x = ?t then h else rep parent x)"
    using link_rep[OF p1(2) t_root h_root] p1 by auto
  have "rep ?p2 h = h"
    using rep2[OF h(1)] h(2) by simp
  then have "map_of ?p2 h = Some h"
    using rep_known(2)[OF p2(1)] p2(2) h(1) by metis
  then obtain p3 where p3: "join_rest h cs ?p2 = Inr p3" "forest_inv p3" "contracts_of p3 = contracts_of parent"
    "\<And>x. x \<in> contracts_of parent \<Longrightarrow> rep p3 x = (if rep ?p2 x \<in> rep ?p2 ` set cs then h else rep ?p2 x)"
    using Cons.IH[OF p2(1)] Cons.prems(2) p2(2) by auto
  have sub: "set cs \<subseteq> contracts_of parent"
    using Cons.prems(2) by simp
  have "rep p3 x = (if rep parent x \<in> rep parent ` set (c # cs) then h else rep parent x)"
    if "x \<in> contracts_of parent" for x
  proof -
    have "rep ?p2 ` set cs = (\<lambda>y. if rep parent y = ?t then h else rep parent y) ` set cs"
      using sub rep2 by (intro image_cong) auto
    then show ?thesis
      using p3(4)[OF that] rep2[OF that] by (auto simp: image_iff)
  qed
  then show ?case
    using p1(1) p3(1-3) by (simp add: exI[of _ p3] del: rbind_Inr_iff)
qed simp

lemma join_correct:
  assumes "forest_inv parent" "set cs \<subseteq> contracts_of parent" "cs \<noteq> []"
  shows "\<exists>parent'. join cs parent = Inr parent' \<and> forest_inv parent' \<and> contracts_of parent' = contracts_of parent
    \<and> (\<forall>x \<in> contracts_of parent. \<forall>y \<in> contracts_of parent. rep parent' x = rep parent' y
         \<longleftrightarrow> rep parent x = rep parent y \<or> (rep parent x \<in> rep parent ` set cs \<and> rep parent y \<in> rep parent ` set cs))"
proof -
  obtain c rest where cs: "cs = c # rest"
    using assms(3) by (cases cs) auto
  have c: "c \<in> contracts_of parent"
    using assms(2) cs by simp
  let ?h = "rep parent c"
  obtain p1 where p1: "find_root parent c = Inr (p1, ?h)" "forest_inv p1"
    "contracts_of p1 = contracts_of parent" "\<And>x. x \<in> contracts_of parent \<Longrightarrow> rep p1 x = rep parent x"
    using find_root_rep[OF assms(1) c] by blast
  have "map_of p1 ?h = Some ?h"
    using rep_known(2)[OF p1(2)] p1(3,4) c by metis
  then obtain p2 where p2: "join_rest ?h rest p1 = Inr p2" "forest_inv p2" "contracts_of p2 = contracts_of parent"
    "\<And>x. x \<in> contracts_of parent \<Longrightarrow> rep p2 x = (if rep p1 x \<in> rep p1 ` set rest then ?h else rep p1 x)"
    using join_rest_correct[OF p1(2), of rest ?h] assms(2) p1(3) cs by auto
  have "rep p1 ` set rest = rep parent ` set rest"
    using assms(2) cs p1(4) by (intro image_cong) auto
  then have "rep p2 x = (if rep parent x \<in> rep parent ` set cs then ?h else rep parent x)"
    if "x \<in> contracts_of parent" for x
    using p2(4)[OF that] p1(4)[OF that] cs by auto
  moreover have "join cs parent = Inr p2"
    using p1(1) p2(1) cs by (simp add: join_def del: rbind_Inr_iff)
  moreover have "?h \<in> rep parent ` set cs"
    using cs by simp
  ultimately show ?thesis
    using p2(2,3) by (intro exI[of _ p2]) auto
qed

lemma identity_forest_props:
  "forest_inv (identity_forest cs)" "contracts_of (identity_forest cs) = set cs"
  "c \<in> set cs \<Longrightarrow> rep (identity_forest cs) c = c"
proof -
  have map: "map_of (identity_forest cs) c = (if c \<in> set cs then Some c else None)" for c
    by (auto simp: identity_forest_def map_of_map_restrict restrict_map_def)
  show inv: "forest_inv (identity_forest cs)"
    unfolding forest_inv_def is_forest_def using climbs.root[of "map_of (identity_forest cs)"] map
    by (metis domIff)
  show dom: "contracts_of (identity_forest cs) = set cs"
    by (force simp: contracts_of_def identity_forest_def)
  show "rep (identity_forest cs) c = c" if "c \<in> set cs"
    using root_rep(2)[OF inv] map that by simp
qed

subsection \<open>Grouping by representative\<close>

text \<open>\<open>groups.setdefault(find(key(x)), []).append(x)\<close> over a sequence.\<close>

definition append_group :: "string \<Rightarrow> 'b \<Rightarrow> (string \<times> 'b list) list \<Rightarrow> (string \<times> 'b list) list" where
  "append_group r x groups =
     AList.update r ((case map_of groups r of None \<Rightarrow> [] | Some xs \<Rightarrow> xs) @ [x]) groups"

fun group_classes ::
  "('b \<Rightarrow> string) \<Rightarrow> 'b list \<Rightarrow> forest \<Rightarrow> (string \<times> 'b list) list
     \<Rightarrow> (forest \<times> (string \<times> 'b list) list) result" where
  "group_classes key [] parent groups = Inr (parent, groups)"
| "group_classes key (x # xs) parent groups =
     rbind (find_root parent (key x)) (\<lambda>(parent', r).
     group_classes key xs parent' (append_group r x groups))"

lemma group_classes_correct:
  assumes "forest_inv parent" "key ` set xs \<subseteq> contracts_of parent"
  shows "\<exists>parent'. group_classes key xs parent groups
      = Inr (parent', fold (\<lambda>x. append_group (rep parent (key x)) x) xs groups)
    \<and> forest_inv parent' \<and> contracts_of parent' = contracts_of parent
    \<and> (\<forall>x \<in> contracts_of parent. rep parent' x = rep parent x)"
  using assms
proof (induction xs arbitrary: parent groups)
  case (Cons x xs)
  obtain p1 where p1: "find_root parent (key x) = Inr (p1, rep parent (key x))" "forest_inv p1"
    "contracts_of p1 = contracts_of parent" "\<forall>y \<in> contracts_of parent. rep p1 y = rep parent y"
    using find_root_rep[OF Cons.prems(1), of "key x"] Cons.prems(2) by auto
  let ?gs = "append_group (rep parent (key x)) x groups"
  obtain p2 where p2: "group_classes key xs p1 ?gs = Inr (p2, fold (\<lambda>x. append_group (rep p1 (key x)) x) xs ?gs)"
    "forest_inv p2" "contracts_of p2 = contracts_of p1" "\<forall>y \<in> contracts_of p1. rep p2 y = rep p1 y"
    using Cons.IH[OF p1(2), of ?gs] Cons.prems(2) p1(3) by auto
  have "fold (\<lambda>x. append_group (rep p1 (key x)) x) xs ?gs = fold (\<lambda>x. append_group (rep parent (key x)) x) xs ?gs"
    using p1(4) Cons.prems(2) by (intro fold_cong) auto
  then show ?case
    using p1 p2 by (intro exI[of _ p2]) (simp del: rbind_Inr_iff)
qed simp

lemma first_occurrences_snoc:
  "first_occurrences (xs @ [x]) = (if x \<in> set xs then first_occurrences xs else first_occurrences xs @ [x])"
  by (induction xs) auto

lemma append_groups:
  "fold (\<lambda>x. append_group (k x) x) xs [] = map (\<lambda>r. (r, filter (\<lambda>x. k x = r) xs)) (first_occurrences (map k xs))"
proof (induction xs rule: rev_induct)
  case (snoc x xs)
  let ?gs = "map (\<lambda>r. (r, filter (\<lambda>x. k x = r) xs)) (first_occurrences (map k xs))"
  have look: "map_of ?gs (k x) = (if k x \<in> k ` set xs then Some (filter (\<lambda>y. k y = k x) xs) else None)"
    by (auto simp: map_of_map_restrict restrict_map_def)
  have upd: "AList.update r v (map (\<lambda>r. (r, f r)) rs) = map (\<lambda>q. (q, if q = r then v else f q)) rs"
    if "r \<in> set rs" "distinct rs" for r v f and rs :: "string list"
    using that by (induction rs) auto
  show ?case
  proof (cases "k x \<in> k ` set xs")
    case True
    then have "append_group (k x) x ?gs
        = map (\<lambda>q. (q, if q = k x then filter (\<lambda>y. k y = k x) xs @ [x] else filter (\<lambda>y. k y = q) xs))
            (first_occurrences (map k xs))"
      using upd[of "k x" "first_occurrences (map k xs)"] look by (simp add: append_group_def)
    then show ?thesis
      using snoc True by (auto simp: first_occurrences_snoc)
  next
    case False
    then have "append_group (k x) x ?gs = ?gs @ [(k x, [x])]"
      using look by (simp add: append_group_def) (rule AList_update_absent, force)
    moreover have "filter (\<lambda>y. k y = k x) xs = []"
      using False unfolding filter_empty_conv by (metis imageI)
    ultimately show ?thesis
      using snoc False by (auto simp: first_occurrences_snoc)
  qed
qed simp

text \<open>Every member falls in exactly one group, and a group is never empty.\<close>

lemma groups_partition:
  fixes k :: "'b \<Rightarrow> string" and xs :: "'b list"
  defines "gs \<equiv> map (\<lambda>r. (r, filter (\<lambda>x. k x = r) xs)) (first_occurrences (map k xs))"
  shows "(\<Union>g \<in> set gs. set (snd g)) = set xs" "\<And>g. g \<in> set gs \<Longrightarrow> snd g \<noteq> []"
    "\<And>g x y. g \<in> set gs \<Longrightarrow> x \<in> set (snd g) \<Longrightarrow> y \<in> set xs \<Longrightarrow> y \<in> set (snd g) \<longleftrightarrow> k x = k y"
  by (auto simp: gs_def filter_empty_conv)

subsection \<open>What callers rely on\<close>

lemma rtrancl_between:
  assumes "R \<subseteq> S" "S \<subseteq> R\<^sup>*"
  shows "(S \<union> T)\<^sup>* = (R \<union> T)\<^sup>*"
proof (rule rtrancl_subset)
  show "R \<union> T \<subseteq> S \<union> T"
    using assms(1) by blast
  show "S \<union> T \<subseteq> (R \<union> T)\<^sup>*"
    using assms(2) rtrancl_mono[of R "R \<union> T"] by blast
qed

text \<open>
  A partition structure answers \<open>find\<close> with the representative of a class and merges the classes of
  a list of members with \<open>join\<close>. Callers fold \<open>join\<close> over the groups that a constraint ties together:
  two members then have the same representative just when a chain of groups connects them.
\<close>

locale partition_structure =
  fixes inv :: "'s \<Rightarrow> bool" and members :: "'s \<Rightarrow> 'a set" and repr :: "'s \<Rightarrow> 'a \<Rightarrow> 'a"
    and find_class :: "'s \<Rightarrow> 'a \<Rightarrow> ('s \<times> 'a) result" and join_classes :: "'a list \<Rightarrow> 's \<Rightarrow> 's result"
  assumes find_class_ok: "inv s \<Longrightarrow> x \<in> members s \<Longrightarrow>
      \<exists>s'. find_class s x = Inr (s', repr s x) \<and> inv s' \<and> members s' = members s
        \<and> (\<forall>y \<in> members s. repr s' y = repr s y)"
    and join_classes_ok: "inv s \<Longrightarrow> set xs \<subseteq> members s \<Longrightarrow> xs \<noteq> [] \<Longrightarrow>
      \<exists>s'. join_classes xs s = Inr s' \<and> inv s' \<and> members s' = members s
        \<and> (\<forall>x \<in> members s. \<forall>y \<in> members s. repr s' x = repr s' y
             \<longleftrightarrow> repr s x = repr s y \<or> (repr s x \<in> repr s ` set xs \<and> repr s y \<in> repr s ` set xs))"
begin

lemma joins_closure:
  assumes "inv s" "\<And>xs. xs \<in> set xss \<Longrightarrow> xs \<noteq> [] \<and> set xs \<subseteq> members s"
  shows "\<exists>s'. result_fold join_classes xss s = Inr s' \<and> inv s' \<and> members s' = members s
    \<and> (\<forall>x \<in> members s. \<forall>y \<in> members s. repr s' x = repr s' y
         \<longleftrightarrow> (x, y) \<in> ({(x, y). x \<in> members s \<and> y \<in> members s \<and> repr s x = repr s y}
              \<union> (\<Union>xs \<in> set xss. set xs \<times> set xs))\<^sup>*)"
  using assms
proof (induction xss arbitrary: s)
  case Nil
  let ?E = "{(x, y). x \<in> members s \<and> y \<in> members s \<and> repr s x = repr s y}"
  have "trans ?E"
    by (auto simp: trans_def)
  then have "?E\<^sup>* = ?E\<^sup>="
    by (simp add: rtrancl_trancl_reflcl)
  then show ?case
    using Nil by auto
next
  case (Cons xs xss)
  let ?M = "members s"
  let ?E = "{(x, y). x \<in> ?M \<and> y \<in> ?M \<and> repr s x = repr s y}"
  let ?L = "\<Union>xs \<in> set xss. set xs \<times> set xs"
  have xs: "xs \<noteq> []" "set xs \<subseteq> ?M"
    using Cons.prems(2) by simp_all
  obtain s1 where s1: "join_classes xs s = Inr s1" "inv s1" "members s1 = ?M"
    "\<And>x y. x \<in> ?M \<Longrightarrow> y \<in> ?M \<Longrightarrow> repr s1 x = repr s1 y
       \<longleftrightarrow> repr s x = repr s y \<or> (repr s x \<in> repr s ` set xs \<and> repr s y \<in> repr s ` set xs)"
    using join_classes_ok[OF Cons.prems(1) xs(2,1)] by blast
  let ?E1 = "{(x, y). x \<in> members s1 \<and> y \<in> members s1 \<and> repr s1 x = repr s1 y}"
  obtain s2 where s2: "result_fold join_classes xss s1 = Inr s2" "inv s2" "members s2 = ?M"
    "\<And>x y. x \<in> ?M \<Longrightarrow> y \<in> ?M \<Longrightarrow> repr s2 x = repr s2 y \<longleftrightarrow> (x, y) \<in> (?E1 \<union> ?L)\<^sup>*"
    using Cons.IH[OF s1(2)] Cons.prems(2) s1(3) by auto
  have "?E1 \<subseteq> (?E \<union> set xs \<times> set xs)\<^sup>*"
  proof (rule subrelI)
    fix x y assume "(x, y) \<in> ?E1"
    then have xy: "x \<in> ?M" "y \<in> ?M" and "repr s1 x = repr s1 y"
      using s1(3) by auto
    then consider "repr s x = repr s y" | u v where "u \<in> set xs" "v \<in> set xs" "repr s x = repr s u" "repr s y = repr s v"
      using s1(4) by auto
    then show "(x, y) \<in> (?E \<union> set xs \<times> set xs)\<^sup>*"
    proof cases
      case 2
      then have "(x, u) \<in> ?E" "(u, v) \<in> set xs \<times> set xs" "(v, y) \<in> ?E"
        using xs(2) xy by auto
      then show ?thesis
        by (meson UnI1 UnI2 converse_rtrancl_into_rtrancl r_into_rtrancl)
    qed (use xy in auto)
  qed
  moreover have "?E \<union> set xs \<times> set xs \<subseteq> ?E1"
    using s1(3,4) xs(2) by auto
  ultimately have "(?E1 \<union> ?L)\<^sup>* = (?E \<union> (\<Union>xs \<in> set (xs # xss). set xs \<times> set xs))\<^sup>*"
    using rtrancl_between[of "?E \<union> set xs \<times> set xs" ?E1 ?L] by (simp add: Un_assoc)
  then show ?case
    using s1(1) s2 by (simp add: exI[of _ s2] del: rbind_Inr_iff)
qed

end

interpretation uf: partition_structure forest_inv contracts_of rep find_root join
  by unfold_locales (use find_root_rep join_correct in blast)+

end
