(* ===== verification/Oracle_Components.thy ===== *)
theory Oracle_Components
  imports Oracle_Eval Union_Find
begin

section \<open>Relation components\<close>

text \<open>
  \<open>build_relation_components\<close> of \<^verbatim>\<open>prediction_n_leg_oracle.py\<close>: contracts that share a settlement
  observation (by fingerprint), a forbidden combination or a relation are joined, and each class
  becomes a component with its actions, its constraints and its own \<open>as_of\<close>. Every component is
  validated as a problem of its own.
\<close>

record RelationComponent =
  component_id :: string
  component_action_ids :: "string list"
  component_contract_ids :: "string list"
  component_constraint_ids :: "string list"
  component_as_of :: instant

definition component_slice :: "ArbitrageProblem \<Rightarrow> RelationComponent \<Rightarrow> instant \<Rightarrow> ArbitrageProblem" where
  "component_slice p c t =
     \<lparr>schema_version = schema_version p,
      problem_id = problem_id p @ '':'' @ component_id c,
      as_of = t,
      problem_valuation_unit_id = problem_valuation_unit_id p,
      actions = filter (\<lambda>a. action_id a \<in> set (component_action_ids c)) (actions p),
      terminal_state_sets =
        filter (\<lambda>s. state_contract_id s \<in> set (component_contract_ids c)) (terminal_state_sets p),
      constraint_model =
        \<lparr>relations = filter (\<lambda>r. relation_constraint_id r \<in> set (component_constraint_ids c))
           (relations (constraint_model p)),
         forbidden_atom_combinations =
           filter (\<lambda>f. forbidden_constraint_id f \<in> set (component_constraint_ids c))
             (forbidden_atom_combinations (constraint_model p))\<rparr>,
      qualification_constraints = qualification_constraints p\<rparr>"

definition observation_identity :: "TerminalStateSet \<Rightarrow> string" where
  "observation_identity s = ''identity:'' @ fingerprint (observation_payload (state_observation_key s))"

definition identity_groups :: "ArbitrageProblem \<Rightarrow> string list list" where
  "identity_groups p =
     map (\<lambda>i. map state_contract_id (filter (\<lambda>s. observation_identity s = i) (terminal_state_sets p)))
       (first_occurrences (map observation_identity (terminal_state_sets p)))"

definition atoms_to_contract :: "ArbitrageProblem \<Rightarrow> string \<Rightarrow> string option" where
  "atoms_to_contract p =
     last_wins (concat (map (\<lambda>s. map (\<lambda>a. (atom_id a, state_contract_id s)) (atoms s)) (terminal_state_sets p)))"

text \<open>\<open>sorted({atoms_to_contract[atom_id] for atom_id in forbidden.atom_ids})\<close>.\<close>

definition forbidden_contracts :: "ArbitrageProblem \<Rightarrow> ForbiddenAtomCombination \<Rightarrow> string list result" where
  "forbidden_contracts p f =
     rbind (result_map (lookup_or_key_error (atoms_to_contract p)) (forbidden_atom_ids f))
       (\<lambda>cs. Inr (sort (remdups cs)))"

definition joined_contracts :: "ArbitrageProblem \<Rightarrow> forest result" where
  "joined_contracts p =
     rbind (result_fold join (map sort (filter (\<lambda>g. length g > 1) (identity_groups p)))
              (identity_forest (sort (map state_contract_id (terminal_state_sets p))))) (\<lambda>parent.
     rbind (result_fold (\<lambda>f parent. rbind (forbidden_contracts p f) (\<lambda>cs. join cs parent))
              (forbidden_atom_combinations (constraint_model p)) parent) (\<lambda>parent.
     result_fold (\<lambda>r parent. join (contract_ids r) parent) (relations (constraint_model p)) parent))"

definition actions_of_contracts :: "ArbitrageProblem \<Rightarrow> string list \<Rightarrow> string list" where
  "actions_of_contracts p cs =
     sort (concat (map (\<lambda>c. map action_id (filter (\<lambda>a. market_contract_id a = c) (actions p))) cs))"

definition constraints_within :: "ArbitrageProblem \<Rightarrow> string list \<Rightarrow> string list result" where
  "constraints_within p cs =
     rbind (result_filter (\<lambda>f. rbind (forbidden_contracts p f) (\<lambda>fs. Inr (set fs \<subseteq> set cs)))
              (forbidden_atom_combinations (constraint_model p))) (\<lambda>fs.
     Inr (sort (map relation_constraint_id
                  (filter (\<lambda>r. set (contract_ids r) \<subseteq> set cs) (relations (constraint_model p)))
                @ map forbidden_constraint_id fs)))"

definition as_of_contracts :: "ArbitrageProblem \<Rightarrow> (string \<Rightarrow> instant option) option \<Rightarrow> string list \<Rightarrow> instant" where
  "as_of_contracts p as_of_by_contract cs =
     (case as_of_by_contract of
        None \<Rightarrow> as_of p
      | Some d \<Rightarrow>
          let mapped = map (\<lambda>c. the (d c)) (filter (\<lambda>c. d c \<noteq> None) cs)
          in if mapped = [] then as_of p else Max (set mapped))"

definition component_of ::
  "ArbitrageProblem \<Rightarrow> (string \<Rightarrow> instant option) option \<Rightarrow> string list \<Rightarrow> RelationComponent result" where
  "component_of p as_of_by_contract contracts =
     (let cs = sort contracts in
      rbind (constraints_within p cs) (\<lambda>ids.
      Inr \<lparr>component_id = ''component:'' @ join_text '':'' cs,
           component_action_ids = actions_of_contracts p cs,
           component_contract_ids = cs,
           component_constraint_ids = ids,
           component_as_of = as_of_contracts p as_of_by_contract cs\<rparr>))"

definition validate_component :: "ArbitrageProblem \<Rightarrow> RelationComponent \<Rightarrow> RelationComponent result" where
  "validate_component p c =
     (let issues = validate_problem (component_slice p c (component_as_of c)) in
      if issues \<noteq> [] then Inl (ValueError (invalid_problem_message issues)) else Inr c)"

definition build_relation_components ::
  "ArbitrageProblem \<Rightarrow> (string \<Rightarrow> instant option) option \<Rightarrow> RelationComponent list result" where
  "build_relation_components p as_of_by_contract =
     (let ids = sort (map state_contract_id (terminal_state_sets p)) in
      rbind (joined_contracts p) (\<lambda>parent.
      case find (\<lambda>a. market_contract_id a \<notin> set ids) (actions p) of
        Some a \<Rightarrow> Inl (KeyError (market_contract_id a))
      | None \<Rightarrow>
          rbind (group_classes (\<lambda>c. c) ids parent []) (\<lambda>(_, groups).
          rbind (result_map (component_of p as_of_by_contract) (map snd groups)) (\<lambda>components.
          result_map (validate_component p) (sort_key component_id components)))))"

subsection \<open>What the components are\<close>

text \<open>The links the code joins along.\<close>

definition contracts_of_atoms :: "ArbitrageProblem \<Rightarrow> string list \<Rightarrow> string set" where
  "contracts_of_atoms p ids =
     {state_contract_id s | s. s \<in> set (terminal_state_sets p) \<and> atom_id ` set (atoms s) \<inter> set ids \<noteq> {}}"

definition component_links :: "ArbitrageProblem \<Rightarrow> (string \<times> string) set" where
  "component_links p =
     {(state_contract_id s, state_contract_id t) | s t.
        s \<in> set (terminal_state_sets p) \<and> t \<in> set (terminal_state_sets p)
        \<and> observation_identity s = observation_identity t}
     \<union> (\<Union>f \<in> set (forbidden_atom_combinations (constraint_model p)).
          contracts_of_atoms p (forbidden_atom_ids f) \<times> contracts_of_atoms p (forbidden_atom_ids f))
     \<union> (\<Union>r \<in> set (relations (constraint_model p)). set (contract_ids r) \<times> set (contract_ids r))"

lemma atoms_to_contract_iff:
  assumes "wf_problem p"
  shows "atoms_to_contract p i = Some c
    \<longleftrightarrow> (\<exists>s \<in> set (terminal_state_sets p). state_contract_id s = c \<and> i \<in> atom_id ` set (atoms s))"
proof -
  let ?kvs = "concat (map (\<lambda>s. map (\<lambda>a. (atom_id a, state_contract_id s)) (atoms s)) (terminal_state_sets p))"
  have "map fst ?kvs = map atom_id (concat (map atoms (terminal_state_sets p)))"
    by (simp add: map_concat comp_def)
  then have dist: "distinct (map fst ?kvs)"
    using wf_problem_distinct(3)[OF assms] by metis
  show ?thesis
    unfolding atoms_to_contract_def last_wins_distinct[OF dist] map_of_eq_Some_iff[OF dist] by auto
qed

lemma forbidden_contracts_wf:
  assumes "wf_problem p" "f \<in> set (forbidden_atom_combinations (constraint_model p))"
  shows "\<exists>cs. forbidden_contracts p f = Inr cs \<and> set cs = contracts_of_atoms p (forbidden_atom_ids f)"
proof -
  have known: "set (forbidden_atom_ids f) \<subseteq> atom_id ` (\<Union>s \<in> set (terminal_state_sets p). set (atoms s))"
    using assms by (auto simp: wf_problem_def wf_forbidden_def)
  have total: "\<exists>c. atoms_to_contract p i = Some c" if i: "i \<in> set (forbidden_atom_ids f)" for i
  proof -
    obtain s a where "s \<in> set (terminal_state_sets p)" "a \<in> set (atoms s)" "i = atom_id a"
      using known i by blast
    then show ?thesis
      unfolding atoms_to_contract_iff[OF assms(1)] by blast
  qed
  then have "result_map (lookup_or_key_error (atoms_to_contract p)) (forbidden_atom_ids f)
      = Inr (map (\<lambda>i. the (atoms_to_contract p i)) (forbidden_atom_ids f))"
    by (intro result_map_total) fastforce
  moreover have "(\<lambda>i. the (atoms_to_contract p i)) ` set (forbidden_atom_ids f)
      = contracts_of_atoms p (forbidden_atom_ids f)"
  proof -
    have "(\<lambda>i. the (atoms_to_contract p i)) ` set (forbidden_atom_ids f)
        = {c. \<exists>i \<in> set (forbidden_atom_ids f). atoms_to_contract p i = Some c}"
      using total by force
    also have "\<dots> = contracts_of_atoms p (forbidden_atom_ids f)"
      unfolding atoms_to_contract_iff[OF assms(1)] contracts_of_atoms_def by blast
    finally show ?thesis .
  qed
  ultimately show ?thesis
    by (auto simp: forbidden_contracts_def simp del: rbind_Inr_iff)
qed


lemma result_fold_compose:
  assumes "\<And>x. x \<in> set xs \<Longrightarrow> g x = Inr (k x)"
  shows "result_fold (\<lambda>x s. rbind (g x) (\<lambda>y. h y s)) xs s = result_fold h (map k xs) s"
  using assms by (induction xs arbitrary: s) (auto simp: rbind_def split: sum.splits)

lemma result_fold_each:
  "result_fold f xs s = Inr t \<Longrightarrow> x \<in> set xs \<Longrightarrow> \<exists>u v. f x u = Inr v"
  by (induction xs arbitrary: s) auto

text \<open>All the groups that are joined, in order.\<close>

definition joined_groups :: "ArbitrageProblem \<Rightarrow> string list list" where
  "joined_groups p =
     map sort (filter (\<lambda>g. length g > 1) (identity_groups p))
     @ map (\<lambda>f. projr (forbidden_contracts p f)) (forbidden_atom_combinations (constraint_model p))
     @ map contract_ids (relations (constraint_model p))"

lemma joined_contracts_fold:
  assumes "wf_problem p"
  shows "joined_contracts p
    = result_fold join (joined_groups p) (identity_forest (sort (map state_contract_id (terminal_state_sets p))))"
proof -
  have "forbidden_contracts p f = Inr (projr (forbidden_contracts p f))"
    if "f \<in> set (forbidden_atom_combinations (constraint_model p))" for f
    using forbidden_contracts_wf[OF assms that] by auto
  then have forb: "result_fold (\<lambda>f parent. rbind (forbidden_contracts p f) (\<lambda>cs. join cs parent))
        (forbidden_atom_combinations (constraint_model p)) parent
      = result_fold join (map (\<lambda>f. projr (forbidden_contracts p f))
          (forbidden_atom_combinations (constraint_model p))) parent" for parent
    by (rule result_fold_compose)
  have rel: "result_fold (\<lambda>r parent. join (contract_ids r) parent) rs parent
      = result_fold join (map contract_ids rs) parent" for rs parent
    by (induction rs arbitrary: parent) (auto simp: rbind_def split: sum.splits)
  show ?thesis
    unfolding joined_contracts_def joined_groups_def forb rel by (simp add: result_fold_append del: rbind_Inr_iff)
qed

lemma set_identity_groups:
  "set ` set (identity_groups p)
     = (\<lambda>i. state_contract_id ` {s \<in> set (terminal_state_sets p). observation_identity s = i})
         ` observation_identity ` set (terminal_state_sets p)"
  unfolding identity_groups_def by (simp add: image_image)

lemma joined_groups_members:
  assumes wf: "wf_problem p" and "g \<in> set (joined_groups p)"
  shows "set g \<subseteq> state_contract_id ` set (terminal_state_sets p)"
proof -
  consider "g \<in> set (map sort (identity_groups p))"
    | f where "f \<in> set (forbidden_atom_combinations (constraint_model p))" "g = projr (forbidden_contracts p f)"
    | r where "r \<in> set (relations (constraint_model p))" "g = contract_ids r"
    using assms(2) by (auto simp: joined_groups_def)
  then show ?thesis
  proof cases
    case 1
    then show ?thesis
      by (auto simp: identity_groups_def)
  next
    case 2
    then show ?thesis
      using forbidden_contracts_wf[OF wf 2(1)] by (auto simp: contracts_of_atoms_def)
  next
    case 3
    then show ?thesis
      using wf_relation_known[OF wf 3(1)] by auto
  qed
qed

lemma forbidden_links:
  assumes "wf_problem p"
  shows "(\<Union>g \<in> set (map (\<lambda>f. projr (forbidden_contracts p f)) (forbidden_atom_combinations (constraint_model p))). set g \<times> set g)
    = (\<Union>f \<in> set (forbidden_atom_combinations (constraint_model p)).
         contracts_of_atoms p (forbidden_atom_ids f) \<times> contracts_of_atoms p (forbidden_atom_ids f))"
proof -
  have eq: "set (projr (forbidden_contracts p f)) = contracts_of_atoms p (forbidden_atom_ids f)"
    if "f \<in> set (forbidden_atom_combinations (constraint_model p))" for f
    using forbidden_contracts_wf[OF assms that] by (metis sum.sel(2))
  show ?thesis
    unfolding set_map image_image by (rule SUP_cong) (simp_all add: eq)
qed

lemma identity_links:
  fixes p defines "C \<equiv> state_contract_id ` set (terminal_state_sets p)"
  shows "Id_on C \<union> (\<Union>g \<in> set (map sort (filter (\<lambda>g. length g > 1) (identity_groups p))). set g \<times> set g)
    = Id_on C \<union> {(state_contract_id s, state_contract_id t) | s t.
        s \<in> set (terminal_state_sets p) \<and> t \<in> set (terminal_state_sets p)
        \<and> observation_identity s = observation_identity t}" (is "?L = ?R")
proof
  show "?L \<subseteq> ?R"
  proof (rule subrelI)
    fix x y assume "(x, y) \<in> ?L"
    then consider "(x, y) \<in> Id_on C" | g where "g \<in> set (identity_groups p)" "x \<in> set g" "y \<in> set g"
      by auto
    then show "(x, y) \<in> ?R"
    proof cases
      case 2
      then obtain i where g: "g = map state_contract_id (filter (\<lambda>s. observation_identity s = i) (terminal_state_sets p))"
        unfolding identity_groups_def set_map by blast
      have "set g = state_contract_id ` {s \<in> set (terminal_state_sets p). observation_identity s = i}"
        unfolding g by simp
      then show ?thesis
        using 2(2,3) by blast
    qed blast
  qed
  show "?R \<subseteq> ?L"
  proof (rule subrelI)
    fix x y assume "(x, y) \<in> ?R"
    then consider "(x, y) \<in> Id_on C"
      | s t where "s \<in> set (terminal_state_sets p)" "t \<in> set (terminal_state_sets p)"
          "observation_identity s = observation_identity t" "x = state_contract_id s" "y = state_contract_id t"
      by auto
    then show "(x, y) \<in> ?L"
    proof cases
      case 2
      let ?g = "map state_contract_id (filter (\<lambda>u. observation_identity u = observation_identity s) (terminal_state_sets p))"
      have g: "?g \<in> set (identity_groups p)" "x \<in> set ?g" "y \<in> set ?g"
        using 2 by (auto simp: identity_groups_def)
      show ?thesis
      proof (cases "x = y")
        case True
        then show ?thesis
          using 2 by (auto simp: C_def)
      next
        case False
        then have "length ?g > 1"
          using g(2,3) by (cases ?g; cases "tl ?g") auto
        then show ?thesis
          using g by (auto intro!: bexI[of _ ?g])
      qed
    qed blast
  qed
qed

text \<open>After all joins, two contracts have the same representative just when links connect them.\<close>

lemma joined_contracts_exact:
  assumes wf: "wf_problem p" and "joined_contracts p = Inr parent"
  shows "forest_inv parent" "contracts_of parent = state_contract_id ` set (terminal_state_sets p)"
    "\<And>c d. c \<in> contracts_of parent \<Longrightarrow> d \<in> contracts_of parent \<Longrightarrow>
       rep parent c = rep parent d \<longleftrightarrow> (c, d) \<in> (component_links p)\<^sup>*"
proof -
  let ?ids = "sort (map state_contract_id (terminal_state_sets p))"
  let ?C = "state_contract_id ` set (terminal_state_sets p)"
  have fold: "result_fold join (joined_groups p) (identity_forest ?ids) = Inr parent"
    using assms by (simp add: joined_contracts_fold)
  have start: "forest_inv (identity_forest ?ids)" "contracts_of (identity_forest ?ids) = ?C"
    "\<And>c. c \<in> ?C \<Longrightarrow> rep (identity_forest ?ids) c = c"
    using identity_forest_props[where cs = ?ids] by auto
  have "g \<noteq> []" if "g \<in> set (joined_groups p)" for g
    using result_fold_each[OF fold that] by (auto simp: join_def)
  then obtain parent' where p': "result_fold join (joined_groups p) (identity_forest ?ids) = Inr parent'"
    "forest_inv parent'" "contracts_of parent' = ?C"
    "\<forall>x \<in> ?C. \<forall>y \<in> ?C. rep parent' x = rep parent' y
       \<longleftrightarrow> (x, y) \<in> ({(x, y). x \<in> ?C \<and> y \<in> ?C \<and> rep (identity_forest ?ids) x = rep (identity_forest ?ids) y}
             \<union> (\<Union>xs \<in> set (joined_groups p). set xs \<times> set xs))\<^sup>*"
    using uf.joins_closure[OF start(1), of "joined_groups p"] joined_groups_members[OF wf] unfolding start(2) by blast
  have same: "{(x, y). x \<in> ?C \<and> y \<in> ?C \<and> rep (identity_forest ?ids) x = rep (identity_forest ?ids) y} = Id_on ?C"
    using start(3) by auto
  have "Id_on ?C \<union> (\<Union>xs \<in> set (joined_groups p). set xs \<times> set xs) = Id_on ?C \<union> component_links p"
    using identity_links[of p] forbidden_links[OF wf]
    unfolding joined_groups_def component_links_def by (simp add: Un_assoc[symmetric] image_Un)
  moreover have "(Id_on ?C \<union> component_links p)\<^sup>* = (component_links p)\<^sup>*"
    by (intro rtrancl_subset) auto
  ultimately have "rep parent x = rep parent y \<longleftrightarrow> (x, y) \<in> (component_links p)\<^sup>*" if "x \<in> ?C" "y \<in> ?C" for x y
    using p'(1,4) fold same that by auto
  then show "forest_inv parent" "contracts_of parent = ?C" "\<And>c d. c \<in> contracts_of parent \<Longrightarrow> d \<in> contracts_of parent \<Longrightarrow>
       rep parent c = rep parent d \<longleftrightarrow> (c, d) \<in> (component_links p)\<^sup>*"
    using p' fold by auto
qed


lemma constraints_within_total:
  assumes "wf_problem p"
  shows "\<exists>ids. constraints_within p cs = Inr ids"
proof -
  have "result_filter (\<lambda>f. rbind (forbidden_contracts p f) (\<lambda>fs. Inr (set fs \<subseteq> set cs)))
        (forbidden_atom_combinations (constraint_model p))
      = Inr (filter (\<lambda>f. set (projr (forbidden_contracts p f)) \<subseteq> set cs)
          (forbidden_atom_combinations (constraint_model p)))"
  proof (rule result_filter_total)
    fix f assume "f \<in> set (forbidden_atom_combinations (constraint_model p))"
    then obtain fs where "forbidden_contracts p f = Inr fs"
      using forbidden_contracts_wf[OF assms] by blast
    then show "rbind (forbidden_contracts p f) (\<lambda>fs. Inr (set fs \<subseteq> set cs))
        = Inr (set (projr (forbidden_contracts p f)) \<subseteq> set cs)"
      by simp
  qed
  then show ?thesis
    by (simp add: constraints_within_def)
qed

lemma validate_component_Inr:
  "validate_component p k = Inr k' \<longleftrightarrow> k' = k \<and> wf_problem (component_slice p k (component_as_of k))"
  by (auto simp: validate_component_def Let_def simp flip: validate_problem_Nil_iff)

lemma list_all2_eq_id: "list_all2 (\<lambda>x y. y = x \<and> P x) xs ys \<longleftrightarrow> ys = xs \<and> (\<forall>x \<in> set xs. P x)"
  by (induction xs arbitrary: ys) (auto simp: list_all2_Cons1)

text \<open>The components are the sorted groups of the union-find forest, each one a valid problem.\<close>

lemma build_relation_components_Inr:
  assumes wf: "wf_problem p" and "build_relation_components p d = Inr comps"
  obtains parent where "joined_contracts p = Inr parent"
    "\<And>k. k \<in> set comps \<Longrightarrow> wf_problem (component_slice p k (component_as_of k))"
    "\<And>k. k \<in> set comps \<longleftrightarrow> (\<exists>c \<in> contracts_of parent.
       component_of p d (filter (\<lambda>x. rep parent x = rep parent c)
         (sort (map state_contract_id (terminal_state_sets p)))) = Inr k)"
proof -
  let ?ids = "sort (map state_contract_id (terminal_state_sets p))"
  obtain parent gs p' cs where parent: "joined_contracts p = Inr parent"
    and gs: "group_classes (\<lambda>c. c) ?ids parent [] = Inr (p', gs)"
    and cs: "result_map (component_of p d) (map snd gs) = Inr cs"
    and comps: "result_map (validate_component p) (sort_key component_id cs) = Inr comps"
    using assms(2) by (auto simp: build_relation_components_def Let_def split: option.splits)
  have known: "forest_inv parent" "contracts_of parent = set ?ids"
    using joined_contracts_exact[OF wf parent] by simp_all
  have "gs = map (\<lambda>r. (r, filter (\<lambda>x. rep parent x = r) ?ids)) (first_occurrences (map (rep parent) ?ids))"
    using group_classes_correct[OF known(1), of "\<lambda>c. c" ?ids "[]"] known(2) gs append_groups[of "rep parent" ?ids]
    by auto
  then have groups: "set (map snd gs) = (\<lambda>c. filter (\<lambda>x. rep parent x = rep parent c) ?ids) ` contracts_of parent"
    by (simp add: image_image known(2))
  have valid: "comps = sort_key component_id cs" "\<forall>k \<in> set comps. wf_problem (component_slice p k (component_as_of k))"
    using comps by (auto simp: result_map_Inr_iff validate_component_Inr list_all2_eq_id)
  have "set cs = {k. \<exists>g \<in> set (map snd gs). component_of p d g = Inr k}"
    using cs unfolding result_map_Inr_iff by (rule list_all2_images)
  then have "k \<in> set comps \<longleftrightarrow> (\<exists>c \<in> contracts_of parent.
      component_of p d (filter (\<lambda>x. rep parent x = rep parent c) ?ids) = Inr k)" for k
    unfolding valid(1) groups by simp
  then show thesis
    using that parent valid(2) by blast
qed

lemma component_of_Inr:
  assumes "component_of p d g = Inr k"
  shows "component_contract_ids k = sort g" "component_action_ids k = actions_of_contracts p (sort g)"
    "constraints_within p (sort g) = Inr (component_constraint_ids k)"
  using assms by (auto simp: component_of_def Let_def)

lemma constraints_within_relation:
  assumes "constraints_within p cs = Inr ids" "r \<in> set (relations (constraint_model p))" "set (contract_ids r) \<subseteq> set cs"
  shows "relation_constraint_id r \<in> set ids"
  using assms by (auto simp: constraints_within_def)

text \<open>The classes behind the components: equal classes are the connected contracts.\<close>

lemma component_classes:
  assumes wf: "wf_problem p" and comps: "build_relation_components p as_of_by_contract = Inr comps"
  obtains cls :: "string \<Rightarrow> string" where
    "\<And>c d. c \<in> state_contract_id ` set (terminal_state_sets p) \<Longrightarrow> d \<in> state_contract_id ` set (terminal_state_sets p)
       \<Longrightarrow> cls c = cls d \<longleftrightarrow> (c, d) \<in> (component_links p)\<^sup>*"
    "\<And>k. k \<in> set comps \<Longrightarrow> wf_problem (component_slice p k (component_as_of k))"
    "\<And>k. k \<in> set comps \<Longrightarrow> \<exists>c \<in> state_contract_id ` set (terminal_state_sets p).
       set (component_contract_ids k) = {d \<in> state_contract_id ` set (terminal_state_sets p). cls d = cls c}
       \<and> component_action_ids k = actions_of_contracts p (component_contract_ids k)"
    "\<And>c. c \<in> state_contract_id ` set (terminal_state_sets p) \<Longrightarrow> \<exists>k \<in> set comps.
       set (component_contract_ids k) = {d \<in> state_contract_id ` set (terminal_state_sets p). cls d = cls c}
       \<and> constraints_within p (component_contract_ids k) = Inr (component_constraint_ids k)"
proof -
  let ?C = "state_contract_id ` set (terminal_state_sets p)"
  let ?ids = "sort (map state_contract_id (terminal_state_sets p))"
  obtain parent where parent: "joined_contracts p = Inr parent"
    and valid: "\<And>k. k \<in> set comps \<Longrightarrow> wf_problem (component_slice p k (component_as_of k))"
    and mem: "\<And>k. k \<in> set comps \<longleftrightarrow> (\<exists>c \<in> contracts_of parent.
      component_of p as_of_by_contract (filter (\<lambda>x. rep parent x = rep parent c) ?ids) = Inr k)"
    using build_relation_components_Inr[OF wf comps] by blast
  note exact = joined_contracts_exact[OF wf parent]
  have same: "rep parent c = rep parent d \<longleftrightarrow> (c, d) \<in> (component_links p)\<^sup>*" if "c \<in> ?C" "d \<in> ?C" for c d
    using exact(2,3) that by simp
  have contracts: "\<exists>c \<in> ?C. set (component_contract_ids k) = {d \<in> ?C. rep parent d = rep parent c}
      \<and> component_action_ids k = actions_of_contracts p (component_contract_ids k)" if k: "k \<in> set comps" for k
  proof -
    obtain c where c: "c \<in> ?C" "component_of p as_of_by_contract (filter (\<lambda>x. rep parent x = rep parent c) ?ids) = Inr k"
      using k mem exact(2) by auto
    then show ?thesis
      using component_of_Inr[OF c(2)] by auto
  qed
  have covered: "\<exists>k \<in> set comps. set (component_contract_ids k) = {d \<in> ?C. rep parent d = rep parent c}
      \<and> constraints_within p (component_contract_ids k) = Inr (component_constraint_ids k)" if c: "c \<in> ?C" for c
  proof -
    obtain ids where ids: "constraints_within p (sort (filter (\<lambda>x. rep parent x = rep parent c) ?ids)) = Inr ids"
      using constraints_within_total[OF wf] by blast
    then obtain k where k: "component_of p as_of_by_contract (filter (\<lambda>x. rep parent x = rep parent c) ?ids) = Inr k"
      by (auto simp: component_of_def Let_def)
    have "k \<in> set comps"
      using mem exact(2) c k by blast
    then show ?thesis
      using component_of_Inr[OF k] by (intro bexI[of _ k]) auto
  qed
  show thesis
    by (rule that[of "rep parent"]) (rule same valid contracts covered; assumption)+
qed

text \<open>C37. The components of a valid problem partition its contracts along the links of the constraints:
  every contract lies in a component, two contracts lie in the same component just when a chain of shared
  observations, forbidden combinations and relations connects them, a component has exactly the actions of
  its contracts, no relation crosses a component border, and every component is itself a valid problem.\<close>

theorem build_relation_components_exact:
  assumes wf: "wf_problem p" and comps: "build_relation_components p as_of_by_contract = Inr comps"
  shows "(\<Union>k \<in> set comps. set (component_contract_ids k)) = state_contract_id ` set (terminal_state_sets p)
    \<and> (\<forall>k \<in> set comps.
         wf_problem (component_slice p k (component_as_of k))
         \<and> (\<forall>c \<in> set (component_contract_ids k). \<forall>d \<in> state_contract_id ` set (terminal_state_sets p).
              d \<in> set (component_contract_ids k) \<longleftrightarrow> (c, d) \<in> (component_links p)\<^sup>*)
         \<and> set (component_action_ids k)
           = {action_id a | a. a \<in> set (actions p) \<and> market_contract_id a \<in> set (component_contract_ids k)})
    \<and> (\<forall>r \<in> set (relations (constraint_model p)). \<exists>k \<in> set comps.
         set (contract_ids r) \<subseteq> set (component_contract_ids k) \<and> relation_constraint_id r \<in> set (component_constraint_ids k))"
proof -
  let ?C = "state_contract_id ` set (terminal_state_sets p)"
  obtain cls :: "string \<Rightarrow> string" where
    same: "\<And>c d. c \<in> ?C \<Longrightarrow> d \<in> ?C \<Longrightarrow> cls c = cls d \<longleftrightarrow> (c, d) \<in> (component_links p)\<^sup>*"
    and valid: "\<And>k. k \<in> set comps \<Longrightarrow> wf_problem (component_slice p k (component_as_of k))"
    and contracts: "\<And>k. k \<in> set comps \<Longrightarrow> \<exists>c \<in> ?C. set (component_contract_ids k) = {d \<in> ?C. cls d = cls c}
      \<and> component_action_ids k = actions_of_contracts p (component_contract_ids k)"
    and covered: "\<And>c. c \<in> ?C \<Longrightarrow> \<exists>k \<in> set comps. set (component_contract_ids k) = {d \<in> ?C. cls d = cls c}
      \<and> constraints_within p (component_contract_ids k) = Inr (component_constraint_ids k)"
    by (rule component_classes[OF wf comps]) blast
  have border: "\<exists>k \<in> set comps. set (contract_ids r) \<subseteq> set (component_contract_ids k)
      \<and> relation_constraint_id r \<in> set (component_constraint_ids k)"
    if r: "r \<in> set (relations (constraint_model p))" for r
  proof -
    have known: "set (contract_ids r) \<subseteq> ?C"
      using wf_relation_known[OF wf r] by auto
    have "contract_ids r \<noteq> []"
      using wf_problem_relation[OF wf r] by (auto simp: wf_relation_def split: RelationKind.splits)
    then obtain c where c: "c \<in> set (contract_ids r)"
      by (meson last_in_set)
    have "cls d = cls c" if d: "d \<in> set (contract_ids r)" for d
    proof -
      have "(d, c) \<in> component_links p"
        using r c d by (auto simp: component_links_def)
      then show ?thesis
        using same[of d c] known c d by blast
    qed
    moreover obtain k where k: "k \<in> set comps" "set (component_contract_ids k) = {d \<in> ?C. cls d = cls c}"
      "constraints_within p (component_contract_ids k) = Inr (component_constraint_ids k)"
      using covered[of c] known c by (meson subsetD)
    ultimately have "set (contract_ids r) \<subseteq> set (component_contract_ids k)"
      using known by blast
    then show ?thesis
      using k constraints_within_relation[OF k(3) r] by blast
  qed
  have linked: "d \<in> set (component_contract_ids k) \<longleftrightarrow> (c, d) \<in> (component_links p)\<^sup>*"
    if k: "k \<in> set comps" and c: "c \<in> set (component_contract_ids k)" and d: "d \<in> ?C" for k c d
  proof -
    obtain c0 where c0: "set (component_contract_ids k) = {d \<in> ?C. cls d = cls c0}"
      using contracts[OF k] by blast
    then have "c \<in> ?C" "cls c = cls c0"
      using c by blast+
    then have "d \<in> set (component_contract_ids k) \<longleftrightarrow> cls c = cls d"
      unfolding c0 using d by (metis (mono_tags, lifting) mem_Collect_eq)
    then show ?thesis
      using same[OF \<open>c \<in> ?C\<close> d] by (rule trans)
  qed
  have acts: "set (component_action_ids k)
      = {action_id a | a. a \<in> set (actions p) \<and> market_contract_id a \<in> set (component_contract_ids k)}"
    if k: "k \<in> set comps" for k
  proof -
    have "component_action_ids k = actions_of_contracts p (component_contract_ids k)"
      using contracts[OF k] by blast
    then show ?thesis
      by (auto simp: actions_of_contracts_def)
  qed
  have all: "(\<Union>k \<in> set comps. set (component_contract_ids k)) = ?C"
  proof
    show "(\<Union>k \<in> set comps. set (component_contract_ids k)) \<subseteq> ?C"
      using contracts by blast
    show "?C \<subseteq> (\<Union>k \<in> set comps. set (component_contract_ids k))"
    proof
      fix c assume c: "c \<in> ?C"
      then obtain k where "k \<in> set comps" "set (component_contract_ids k) = {d \<in> ?C. cls d = cls c}"
        using covered[OF c] by blast
      then show "c \<in> (\<Union>k \<in> set comps. set (component_contract_ids k))"
        using c by blast
    qed
  qed
  show ?thesis
    by (intro conjI ballI) (rule all valid linked acts border; assumption)+
qed

subsection \<open>The concrete problem has one component\<close>

lemma sample_identity: "observation_identity sample_state_a = observation_identity sample_state_b"
  by (simp add: observation_identity_def sample_state_a_def sample_state_b_def)

lemma sample_joined: "joined_contracts sample_problem = Inr [(''A'', ''A''), (''B'', ''A'')]"
proof -
  have "identity_groups sample_problem = [[''A'', ''B'']]"
    unfolding identity_groups_def using sample_identity
    by (simp add: sample_problem_def) (simp add: sample_state_a_def sample_state_b_def)
  then show ?thesis
    by (simp add: joined_contracts_def del: rbind_Inr_iff)
      (simp add: sample_problem_def sample_relation_def sample_state_a_def sample_state_b_def identity_forest_def
        join_def find_root_def parent_of_def numeral_2_eq_2 del: rbind_Inr_iff)
qed

definition sample_component :: RelationComponent where
  "sample_component =
     \<lparr>component_id = ''component:A:B'', component_action_ids = [''a-no'', ''b-yes''],
      component_contract_ids = [''A'', ''B''], component_constraint_ids = [''r1''], component_as_of = 0\<rparr>"

lemma sample_component_slice:
  "component_slice sample_problem sample_component 0 = sample_problem\<lparr>problem_id := ''p1:component:A:B''\<rparr>"
  by (simp add: component_slice_def sample_component_def)
    (simp add: sample_problem_def sample_a_def sample_b_def sample_action_def sample_state_a_def sample_state_b_def
      sample_relation_def)

lemma wf_rename:
  assumes "wf_problem p" "\<not> blank i"
  shows "wf_problem (p\<lparr>problem_id := i\<rparr>)"
proof -
  have native: "wf_native_complement (p\<lparr>problem_id := i\<rparr>) l r = wf_native_complement p l r" for l r
    by (simp add: wf_native_complement_def contract_actions_def state_of_contract_def)
  have "wf_state_set (p\<lparr>problem_id := i\<rparr>) s = wf_state_set p s" for s
    by (simp add: wf_state_set_def contract_actions_def)
  moreover have "wf_relation (p\<lparr>problem_id := i\<rparr>) r = wf_relation p r" for r
    by (simp add: wf_relation_def native cong: RelationKind.case_cong)
  moreover have "wf_forbidden (p\<lparr>problem_id := i\<rparr>) f = wf_forbidden p f" for f
    by (simp add: wf_forbidden_def)
  ultimately show ?thesis
    using assms by (simp add: wf_problem_def)
qed

lemma sample_components: "build_relation_components sample_problem None = Inr [sample_component]"
proof -
  have ids: "sort (map state_contract_id (terminal_state_sets sample_problem)) = [''A'', ''B'']"
    by (simp add: sample_problem_def sample_state_a_def sample_state_b_def)
  have groups: "group_classes (\<lambda>c. c) [''A'', ''B''] [(''A'', ''A''), (''B'', ''A'')] []
      = Inr ([(''A'', ''A''), (''B'', ''A'')], [(''A'', [''A'', ''B''])])"
    by (simp add: find_root_def parent_of_def append_group_def numeral_2_eq_2 del: rbind_Inr_iff)
  have comp: "component_of sample_problem None [''A'', ''B''] = Inr sample_component"
    by (simp add: component_of_def constraints_within_def actions_of_contracts_def as_of_contracts_def
        sample_component_def Let_def del: rbind_Inr_iff)
      (simp add: sample_problem_def sample_a_def sample_b_def sample_action_def sample_relation_def)
  have valid: "validate_component sample_problem sample_component = Inr sample_component"
    unfolding validate_component_Inr using wf_rename[OF sample_wf, of "''p1:component:A:B''"] sample_component_slice
    by (simp add: blank_def py_space_def) (simp add: sample_component_def)
  have known: "find (\<lambda>a. market_contract_id a \<notin> set [''A'', ''B'']) (actions sample_problem) = None"
    by (simp add: sample_problem_def sample_a_def sample_b_def sample_action_def)
  show ?thesis
    using known by (simp add: build_relation_components_def sample_joined ids groups comp valid
        del: rbind_Inr_iff group_classes.simps)
qed

theorem build_relation_components_exact_witness:
  "build_relation_components sample_problem None = Inr [sample_component]
     \<and> (''A'', ''B'') \<in> (component_links sample_problem)\<^sup>*"
proof
  show built: "build_relation_components sample_problem None = Inr [sample_component]"
    by (rule sample_components)
  have "''B'' \<in> state_contract_id ` set (terminal_state_sets sample_problem)"
    by (simp add: sample_problem_def sample_state_a_def sample_state_b_def)
  moreover have "''A'' \<in> set (component_contract_ids sample_component)" "''B'' \<in> set (component_contract_ids sample_component)"
    by (simp_all add: sample_component_def)
  ultimately show "(''A'', ''B'') \<in> (component_links sample_problem)\<^sup>*"
    using build_relation_components_exact[OF sample_wf built] unfolding list.set(2) by (meson insertI1)
qed

subsection \<open>An empty forbidden combination\<close>

text \<open>
  The validation accepts a forbidden combination without atoms (a list of references may be empty),
  but \<open>join\<close> reads the first element of the empty tuple of its contracts.
\<close>

lemma joins_known:
  assumes "forest_inv parent" "\<And>g. g \<in> set gs \<Longrightarrow> set g \<subseteq> contracts_of parent"
  shows "(\<forall>g \<in> set gs. g \<noteq> []) \<and> (\<exists>parent'. result_fold join gs parent = Inr parent')
    \<or> [] \<in> set gs \<and> result_fold join gs parent = Inl IndexError"
  using assms
proof (induction gs arbitrary: parent)
  case (Cons g gs)
  show ?case
  proof (cases "g = []")
    case True
    then show ?thesis
      by (simp add: join_def)
  next
    case False
    then obtain p1 where p1: "join g parent = Inr p1" "forest_inv p1" "contracts_of p1 = contracts_of parent"
      using join_correct[OF Cons.prems(1), of g] Cons.prems(2) by auto
    then show ?thesis
      using Cons.IH[OF p1(2)] Cons.prems(2) False by (auto simp del: rbind_Inr_iff)
  qed
qed simp

text \<open>A problem that passes validation but has a forbidden combination without atoms makes
  \<open>build_relation_components\<close> fail with an \<open>IndexError\<close>, although its documentation promises a
  \<open>ValueError\<close> for an invalid problem only.\<close>

theorem empty_forbidden_combination_index_error:
  assumes wf: "wf_problem p" and "f \<in> set (forbidden_atom_combinations (constraint_model p))" "forbidden_atom_ids f = []"
  shows "validate_problem p = [] \<and> build_relation_components p as_of_by_contract = Inl IndexError"
proof -
  let ?ids = "sort (map state_contract_id (terminal_state_sets p))"
  have "forbidden_contracts p f = Inr []"
    using assms(3) by (simp add: forbidden_contracts_def)
  then have "[] \<in> set (joined_groups p)"
    using assms(2) by (force simp: joined_groups_def)
  moreover have "forest_inv (identity_forest ?ids)" "contracts_of (identity_forest ?ids) = set ?ids"
    by (rule identity_forest_props)+
  ultimately have "joined_contracts p = Inl IndexError"
    using joins_known[of "identity_forest ?ids" "joined_groups p"] joined_groups_members[OF wf]
    by (auto simp: joined_contracts_fold[OF wf])
  then show ?thesis
    using wf by (simp add: build_relation_components_def Let_def validate_problem_Nil_iff)
qed

definition sample_empty_forbidden :: ForbiddenAtomCombination where
  "sample_empty_forbidden = \<lparr>forbidden_constraint_id = ''f1'', forbidden_atom_ids = [], forbidden_rule_version = ''v1''\<rparr>"

definition sample_empty_problem :: ArbitrageProblem where
  "sample_empty_problem = sample_problem\<lparr>constraint_model :=
     \<lparr>relations = [sample_relation], forbidden_atom_combinations = [sample_empty_forbidden]\<rparr>\<rparr>"

theorem empty_forbidden_combination_index_error_witness:
  "validate_problem sample_empty_problem = [] \<and> build_relation_components sample_empty_problem None = Inl IndexError"
proof -
  have rel: "relations (constraint_model sample_problem) = [sample_relation]"
    by (simp add: sample_problem_def)
  then have "wf_relation sample_problem sample_relation"
    using wf_problem_relation[OF sample_wf] by simp
  moreover have "wf_forbidden sample_problem sample_empty_forbidden"
    by (simp add: wf_forbidden_def sample_empty_forbidden_def blank_def py_space_def)
  ultimately have wf: "wf_problem sample_empty_problem"
    unfolding sample_empty_problem_def
    by (intro wf_with_constraints[OF sample_wf]) (auto simp: sample_relation_def sample_empty_forbidden_def)
  have "sample_empty_forbidden \<in> set (forbidden_atom_combinations (constraint_model sample_empty_problem))"
    "forbidden_atom_ids sample_empty_forbidden = []"
    by (simp_all add: sample_empty_problem_def sample_empty_forbidden_def)
  then show ?thesis
    using empty_forbidden_combination_index_error[OF wf] by blast
qed

end
