(* ===== verification/Oracle_Search.thy ===== *)
theory Oracle_Search
  imports Oracle_Components
begin

section \<open>The exact oracle: search\<close>

text \<open>
  The second half of \<^verbatim>\<open>prediction_n_leg_oracle.py\<close>: the support graph of an evaluated portfolio, its
  split into connected parts, the solution with its payout proof, and the exhaustive searches
  \<open>solve_optimal\<close>, \<open>diagnose_raw_arbitrage\<close> and \<open>find_qualified\<close>. A function that returns a value or
  an \<open>UnknownReason\<close> returns a sum inside its \<open>result\<close>. Python sets of ids are lists without
  regard to order or repetition; everything read from them is sorted or compared as a set.
\<close>

record SearchAudit =
  quantity_vectors_total :: int
  quantity_vectors_examined :: int
  joint_states_per_vector :: int
  rejection_counts :: "(string \<times> int) list"

subsection \<open>Support graph\<close>

definition constraint_contract_ids :: "ArbitrageProblem \<Rightarrow> string \<Rightarrow> string list result" where
  "constraint_contract_ids p i =
     (case find (\<lambda>r. relation_constraint_id r = i) (relations (constraint_model p)) of
        Some r \<Rightarrow> Inr (sort (contract_ids r))
      | None \<Rightarrow>
          (case find (\<lambda>f. forbidden_constraint_id f = i) (forbidden_atom_combinations (constraint_model p)) of
             Some f \<Rightarrow> forbidden_contracts p f
           | None \<Rightarrow> Inl (ValueError (''unknown constraint: '' @ i))))"

definition problem_with_active_support_constraints ::
  "ArbitrageProblem \<Rightarrow> string list \<Rightarrow> string list \<Rightarrow> ArbitrageProblem" where
  "problem_with_active_support_constraints p active relevant =
     p\<lparr>constraint_model :=
        \<lparr>relations = filter (\<lambda>r. relation_constraint_id r \<notin> set relevant \<or> relation_constraint_id r \<in> set active)
           (relations (constraint_model p)),
         forbidden_atom_combinations =
           filter (\<lambda>f. forbidden_constraint_id f \<notin> set relevant \<or> forbidden_constraint_id f \<in> set active)
             (forbidden_atom_combinations (constraint_model p))\<rparr>\<rparr>"

definition all_constraint_ids :: "ArbitrageProblem \<Rightarrow> string list" where
  "all_constraint_ids p =
     map relation_constraint_id (relations (constraint_model p))
     @ map forbidden_constraint_id (forbidden_atom_combinations (constraint_model p))"

text \<open>
  The fixpoint of the \<open>while True\<close> loop over the hyperedges (constraint id, contracts): the
  constraints that touch the connected contracts, until neither set grows.
\<close>

type_synonym hyperedges = "(string \<times> string list) list"

definition touching :: "hyperedges \<Rightarrow> string list \<Rightarrow> hyperedges" where
  "touching edges reached = filter (\<lambda>(_, cs). set cs \<inter> set reached \<noteq> {}) edges"

function (sequential) support_closure :: "hyperedges \<Rightarrow> string list \<Rightarrow> string list \<Rightarrow> string list" where
  "support_closure edges relevant reached =
     (let newly = touching edges reached;
          expanded = remdups (reached @ concat (map snd newly))
      in
      if set (map fst newly) = set relevant \<and> set expanded = set reached then relevant
      else support_closure edges (map fst newly) expanded)"
  by pat_completeness auto

definition support_measure :: "hyperedges \<Rightarrow> string list \<Rightarrow> nat" where
  "support_measure edges reached = card (set (concat (map snd edges)) - set reached)"

termination support_closure
proof (relation "measures [\<lambda>(edges, relevant, reached). support_measure edges reached,
    \<lambda>(edges, relevant, reached). if set (map fst (touching edges reached)) = set relevant then 0 else 1]")
  fix edges :: hyperedges and relevant reached newly expanded
  assume newly: "newly = touching edges reached"
    and expanded: "expanded = remdups (reached @ concat (map snd newly))"
    and go: "\<not> (set (map fst newly) = set relevant \<and> set expanded = set reached)"
  let ?U = "set (concat (map snd edges))"
  have sub: "set reached \<subseteq> set expanded" and new: "set expanded - set reached \<subseteq> ?U"
    by (auto simp: expanded newly touching_def)
  show "((edges, map fst newly, expanded), (edges, relevant, reached))
      \<in> measures [\<lambda>(edges, relevant, reached). support_measure edges reached,
        \<lambda>(edges, relevant, reached). if set (map fst (touching edges reached)) = set relevant then 0 else 1]"
  proof (cases "set expanded = set reached")
    case True
    then have "touching edges expanded = newly"
      by (simp add: newly touching_def)
    then show ?thesis
      using True go newly by (auto simp: support_measure_def)
  next
    case False
    then have "?U - set expanded \<subset> ?U - set reached"
      using sub new by blast
    then have "support_measure edges expanded < support_measure edges reached"
      unfolding support_measure_def by (intro psubset_card_mono) auto
    then show ?thesis
      by simp
  qed
qed simp

declare support_closure.simps [simp del]

definition recheck_constraint ::
  "ArbitrageProblem \<Rightarrow> PortfolioEvaluation \<Rightarrow> OracleBudget \<Rightarrow> string list \<Rightarrow> string \<Rightarrow> string list
     \<Rightarrow> string list result" where
  "recheck_constraint p e budget relevant i active =
     (let trial = filter (\<lambda>j. j \<noteq> i) active in
      rbind (evaluate_fixed_portfolio (problem_with_active_support_constraints p trial relevant)
               (evaluation_quantities e) budget) (\<lambda>trial_evaluation.
      Inr (if payout_lower_bound_units trial_evaluation = payout_lower_bound_units e
              \<and> conservative_capital_release_at trial_evaluation = conservative_capital_release_at e
              \<and> failed_qualification_ids trial_evaluation = failed_qualification_ids e
           then trial else active)))"

fun recheck_constraints ::
  "ArbitrageProblem \<Rightarrow> PortfolioEvaluation \<Rightarrow> OracleBudget \<Rightarrow> string list \<Rightarrow> string list \<Rightarrow> int \<Rightarrow> string list
     \<Rightarrow> (UnknownReason + string list) result" where
  "recheck_constraints p e budget relevant [] rechecks active = Inr (Inr active)"
| "recheck_constraints p e budget relevant (i # is) rechecks active =
     (if rechecks \<ge> max_support_rechecks budget then Inr (Inl ORACLE_SUPPORT_LIMIT_EXCEEDED)
      else
        rbind (recheck_constraint p e budget relevant i active) (\<lambda>active'.
        recheck_constraints p e budget relevant is (rechecks + 1) active'))"

definition hyperedges_of :: "ArbitrageProblem \<Rightarrow> string list \<Rightarrow> hyperedges result" where
  "hyperedges_of p is = result_map (\<lambda>i. rbind (constraint_contract_ids p i) (\<lambda>cs. Inr (i, cs))) is"

definition derive_selected_support_graph ::
  "ArbitrageProblem \<Rightarrow> PortfolioEvaluation \<Rightarrow> OracleBudget \<Rightarrow> (UnknownReason + SelectedSupportGraph) result" where
  "derive_selected_support_graph p e budget =
     rbind (require_valid p) (\<lambda>_.
     let selected = map market_contract_id
           (filter (\<lambda>a. action_id a \<in> quantity_action_id ` set (evaluation_quantities e)) (actions p)) in
     rbind (hyperedges_of p (all_constraint_ids p)) (\<lambda>edges.
     let relevant = support_closure edges [] (remdups selected) in
     rbind (recheck_constraints p e budget relevant (rev (sort (remdups relevant))) 0 relevant) (\<lambda>outcome.
     case outcome of
       Inl reason \<Rightarrow> Inr (Inl reason)
     | Inr active \<Rightarrow>
         let ids = sort (remdups active) in
         rbind (hyperedges_of p ids) (\<lambda>graph.
         Inr (Inr \<lparr>support_action_ids = map quantity_action_id (evaluation_quantities e),
                   support_contract_ids = sort (remdups (selected @ concat (map snd graph))),
                   support_constraint_ids = ids,
                   hyperedges = graph\<rparr>)))))"

subsection \<open>Splitting a disconnected portfolio\<close>

definition action_contract :: "ArbitrageProblem \<Rightarrow> ActionQuantity \<Rightarrow> string result" where
  "action_contract p q =
     rbind (lookup_or_key_error (actions_by_id p) (quantity_action_id q)) (\<lambda>a. Inr (market_contract_id a))"

definition join_connected :: "string \<times> string list \<Rightarrow> forest \<Rightarrow> forest result" where
  "join_connected edge parent =
     (let reached = filter (\<lambda>c. map_of parent c \<noteq> None) (snd edge) in
      if reached = [] then Inr parent else join reached parent)"

text \<open>
  The id of a group: the contracts of its class, read back with \<open>find\<close> from the final forest. Two
  groups with the same id cannot be sorted, since quantities have no order.
\<close>

definition group_id :: "forest \<Rightarrow> string \<Rightarrow> string" where
  "group_id parent r =
     ''component:'' @ join_text '':'' (sort (filter (\<lambda>c. rep parent c = r) (map fst parent)))"

definition split_disconnected_solution ::
  "ArbitrageProblem \<Rightarrow> PortfolioEvaluation \<Rightarrow> SelectedSupportGraph \<Rightarrow> ActionQuantity list list result" where
  "split_disconnected_solution p e graph =
     rbind (result_map (action_contract p) (evaluation_quantities e)) (\<lambda>selected.
     rbind (result_fold join_connected (hyperedges graph)
              (identity_forest (support_contract_ids graph @ selected))) (\<lambda>parent.
     rbind (group_classes (\<lambda>q. the (map_of (zip (evaluation_quantities e) selected) q))
              (evaluation_quantities e) parent []) (\<lambda>(parent', groups).
     let identified = map (\<lambda>(r, qs). (group_id parent' r, sort_key quantity_action_id qs)) groups in
     if \<not> distinct (map fst identified) then Inl TypeError
     else Inr (map snd (sort_key fst identified)))))"


text \<open>Every quantity lands in exactly one group, and no group is empty.\<close>

lemma append_group_size:
  "sum_list (map (\<lambda>g. length (snd g)) (append_group r x gs)) = Suc (sum_list (map (\<lambda>g. length (snd g)) gs))"
  by (induction gs) (auto simp: append_group_def)

lemma append_group_nonempty:
  "\<forall>g \<in> set gs. snd g \<noteq> [] \<Longrightarrow> \<forall>g \<in> set (append_group r x gs). snd g \<noteq> []"
  by (induction gs) (auto simp: append_group_def)

lemma group_classes_size:
  assumes "group_classes key xs parent gs = Inr (parent', gs')" "\<forall>g \<in> set gs. snd g \<noteq> []"
  shows "sum_list (map (\<lambda>g. length (snd g)) gs') = sum_list (map (\<lambda>g. length (snd g)) gs) + length xs
    \<and> (\<forall>g \<in> set gs'. snd g \<noteq> [])"
  using assms
proof (induction xs arbitrary: parent gs)
  case (Cons x xs)
  then obtain p1 r where "find_root parent (key x) = Inr (p1, r)"
    "group_classes key xs p1 (append_group r x gs) = Inr (parent', gs')"
    by auto
  then show ?case
    using Cons.IH append_group_nonempty[OF Cons.prems(2)] by (fastforce simp: append_group_size)
qed simp

lemma split_sizes:
  assumes "split_disconnected_solution p e graph = Inr groups"
  shows "sum_list (map length groups) = length (evaluation_quantities e)" "\<And>g. g \<in> set groups \<Longrightarrow> g \<noteq> []"
proof -
  obtain key parent parent' gs where gs: "group_classes key (evaluation_quantities e) parent [] = Inr (parent', gs)"
    and groups: "groups = map snd (sort_key fst
      (map (\<lambda>(r, qs). (group_id parent' r, sort_key quantity_action_id qs)) gs))"
    using assms by (auto simp: split_disconnected_solution_def Let_def split: if_splits prod.splits)
  let ?ident = "map (\<lambda>(r, qs). (group_id parent' r, sort_key quantity_action_id qs)) gs"
  have "sum_list (map length groups) = sum_list (map (\<lambda>g. length (snd g)) ?ident)"
    unfolding groups by (metis (no_types, lifting) comp_def list.map_comp mset_map mset_sort sum_mset_sum_list map_eq_conv)
  also have "\<dots> = sum_list (map (\<lambda>g. length (snd g)) gs)"
    by (simp add: comp_def case_prod_unfold)
  finally show "sum_list (map length groups) = length (evaluation_quantities e)"
    using group_classes_size[OF gs] by simp
  have nonempty: "\<forall>g \<in> set gs. snd g \<noteq> []"
    using group_classes_size[OF gs] by simp
  show "g \<noteq> []" if member: "g \<in> set groups" for g
  proof -
    obtain h where "h \<in> set gs" "g = sort_key quantity_action_id (snd h)"
      using member unfolding groups by auto
    then show ?thesis
      using nonempty by (metis length_0_conv length_sort)
  qed
qed

lemma sum_list_member_less:
  assumes "sum_list (map length groups) = n" "\<And>g. g \<in> set groups \<Longrightarrow> g \<noteq> []" "length groups \<noteq> 1" "h \<in> set groups"
  shows "length h < n"
proof -
  obtain us vs where g: "groups = us @ h # vs"
    using assms(4) by (meson split_list)
  have "us @ vs \<noteq> []"
    using assms(3) g by auto
  then obtain k where k: "k \<in> set (us @ vs)"
    by (meson last_in_set)
  have "k \<noteq> []"
    using k assms(2)[of k] g by auto
  then have "1 \<le> length k"
    by (simp add: Suc_le_eq)
  moreover have "length k \<le> sum_list (map length (us @ vs))"
    using k by (intro member_le_sum_list) auto
  moreover have "n = length h + sum_list (map length (us @ vs))"
    using assms(1) g by simp
  ultimately show ?thesis
    by linarith
qed

subsection \<open>The solution and its payout proof\<close>

definition qualification_fingerprint_of :: "ArbitrageProblem \<Rightarrow> string" where
  "qualification_fingerprint_of p =
     fingerprint (JObj [(''schema_version'', JStr PROBLEM_SCHEMA_V1),
       (''qualification_constraints'',
        JList (map qualification_payload (sort_key qualification_id (qualification_constraints p))))])"

definition proof_payout :: "WorstStateCut \<Rightarrow> ActionQuantity list \<Rightarrow> int result" where
  "proof_payout worst_cut qs =
     (let payout_by_action = last_wins
        (map (\<lambda>x. (payout_action_id x, payout_lower_bound_per_lot_units x)) (payout_per_lot worst_cut)) in
      result_fold (\<lambda>q acc.
        rbind (lookup_or_key_error payout_by_action (quantity_action_id q)) (\<lambda>v.
        rbind (checked_multiply v (quantity_lots q)) (\<lambda>w. checked_add acc w))) qs 0)"

definition worst_release :: "ArbitrageProblem \<Rightarrow> ActionQuantity list \<Rightarrow> SettlementScenario \<Rightarrow> instant result" where
  "worst_release p qs sc =
     rbind (selected_releases p qs [sc]) (\<lambda>rs.
     rbind (conservative_release rs) (\<lambda>r.
     case r of None \<Rightarrow> Inl TypeError | Some t \<Rightarrow> Inr t))"

definition evaluation_mismatch ::
  "ArbitrageProblem \<Rightarrow> PortfolioEvaluation \<Rightarrow> WorstStateCut \<Rightarrow> int \<Rightarrow> instant \<Rightarrow> bool result" where
  "evaluation_mismatch p e current_cut current_payout worst_release_at =
     (if current_cut \<noteq> worst_state_cut e \<or> current_payout \<noteq> payout_lower_bound_units e then Inr True
      else
        rbind (checked_subtract (payout_lower_bound_units e) (cost_upper_bound_units e)) (\<lambda>profit.
        if guaranteed_profit_units e \<noteq> profit then Inr True
        else
          case conservative_capital_release_at e of
            None \<Rightarrow> Inl TypeError
          | Some t \<Rightarrow> Inr (t < worst_release_at \<or> t < as_of p)))"

definition portfolio_proof :: "ArbitrageProblem \<Rightarrow> PortfolioEvaluation \<Rightarrow> SelectedSupportGraph \<Rightarrow> PayoutProof" where
  "portfolio_proof p e graph =
     \<lparr>proof_schema_version = PAYOUT_PROOF_SCHEMA_V1,
      result_kind = PORTFOLIO_RESULT,
      problem_fingerprint = fingerprint (problem_payload p),
      portfolio_fingerprint =
        Some (fingerprint (JObj [(''quantities'', JList (map quantity_payload (evaluation_quantities e)))])),
      proof_worst_scenario = Some (worst_scenario e),
      proof_worst_state_cut = Some (worst_state_cut e),
      proof_payout_lower_bound_units = Some (payout_lower_bound_units e),
      proof_cost_upper_bound_units = Some (cost_upper_bound_units e),
      proof_guaranteed_profit_units = Some (guaranteed_profit_units e),
      proof_conservative_capital_release_at = conservative_capital_release_at e,
      selected_support_graph = Some graph,
      proof_method = ''BOUNDED_EXACT_ORACLE_V1'',
      request_fingerprint = None,
      source_problem_fingerprint = None,
      qualification_fingerprint = Some (qualification_fingerprint_of p),
      proof_quantity_vectors_total = None,
      proof_quantity_vectors_examined = None,
      proof_joint_states_per_vector = None,
      proof_rejection_counts = []\<rparr>"

definition build_portfolio_solution ::
  "ArbitrageProblem \<Rightarrow> PortfolioEvaluation \<Rightarrow> SelectedSupportGraph \<Rightarrow> PortfolioSolution result" where
  "build_portfolio_solution p e graph =
     rbind (require_valid p) (\<lambda>_.
     rbind (selected_quantities p (evaluation_quantities e)) (\<lambda>selected.
     if map quantity_action_id (evaluation_quantities e) \<noteq> support_action_ids graph
     then Inl (ValueError ''support graph actions must match evaluated quantities'')
     else
       rbind (split_disconnected_solution p e graph) (\<lambda>groups.
       if length groups > 1 then Inl (ValueError ''disconnected portfolio requires separate evaluation'')
       else if selected \<noteq> evaluation_quantities e
       then Inl (ValueError ''evaluation does not match problem quantities or costs'')
       else
         rbind (cost_upper_bound_for_selected p selected) (\<lambda>cost.
         if cost \<noteq> cost_upper_bound_units e
         then Inl (ValueError ''evaluation does not match problem quantities or costs'')
         else
           rbind (cut_from_scenario p (worst_scenario e)) (\<lambda>current_cut.
           rbind (proof_payout current_cut selected) (\<lambda>current_payout.
           rbind (worst_release p selected (worst_scenario e)) (\<lambda>worst_release_at.
           rbind (evaluation_mismatch p e current_cut current_payout worst_release_at) (\<lambda>mismatch.
           if mismatch then Inl (ValueError ''evaluation does not match problem payout proof'')
           else Inr \<lparr>solution_quantities = evaluation_quantities e,
                     payout_proof = portfolio_proof p e graph\<rparr>))))))))"


subsection \<open>Qualified solutions of an evaluation\<close>

lemma split_child_smaller:
  assumes "split_disconnected_solution p e graph = Inr groups" "length groups \<noteq> 1"
    and "result_map (\<lambda>qs. evaluate_fixed_portfolio p qs budget) groups = Inr children" "child \<in> set children"
  shows "length (evaluation_quantities child) < length (evaluation_quantities e)"
proof -
  obtain qs where qs: "qs \<in> set groups" "evaluate_fixed_portfolio p qs budget = Inr child"
    using list_all2_images[OF assms(3)[unfolded result_map_Inr_iff]] assms(4) by auto
  have "selected_quantities p qs = Inr (evaluation_quantities child)"
    using evaluate_fixed_Inr[OF qs(2)] by blast
  then have "length (evaluation_quantities child) \<le> length qs"
    by (simp add: selected_quantities_iff)
  then show ?thesis
    using sum_list_member_less[OF split_sizes(1)[OF assms(1)] split_sizes(2)[OF assms(1)] assms(2) qs(1)] by simp
qed

function connected_qualified_solutions ::
  "ArbitrageProblem \<Rightarrow> PortfolioEvaluation \<Rightarrow> OracleBudget \<Rightarrow> string list
     \<Rightarrow> (UnknownReason + PortfolioSolution list \<times> string list) result" where
  "connected_qualified_solutions p e budget rejection_ids =
     (case derive_selected_support_graph p e budget of
        Inl err \<Rightarrow> (if err = OverflowError then Inr (Inl NUMERIC_OVERFLOW) else Inl err)
      | Inr (Inl reason) \<Rightarrow> Inr (Inl reason)
      | Inr (Inr graph) \<Rightarrow>
          rbind (split_disconnected_solution p e graph) (\<lambda>groups.
          if length groups = 1
          then rbind (build_portfolio_solution p e graph) (\<lambda>s. Inr (Inr ([s], rejection_ids)))
          else
            rbind (result_map (\<lambda>qs. evaluate_fixed_portfolio p qs budget) groups) (\<lambda>children.
            result_fold (\<lambda>child outcome.
              case outcome of
                Inl reason \<Rightarrow> Inr (Inl reason)
              | Inr (solutions, rejected) \<Rightarrow>
                  if failed_qualification_ids child \<noteq> []
                  then Inr (Inr (solutions, rejected @ failed_qualification_ids child))
                  else
                    rbind (connected_qualified_solutions p child budget rejected) (\<lambda>below.
                    case below of
                      Inl reason \<Rightarrow> Inr (Inl reason)
                    | Inr (found, rejected') \<Rightarrow> Inr (Inr (solutions @ found, rejected'))))
              children (Inr ([], rejection_ids)))))"
  by pat_completeness auto

termination connected_qualified_solutions
  by (relation "measure (\<lambda>(p, e, budget, rejection_ids). length (evaluation_quantities e))")
    (auto intro: split_child_smaller)

declare connected_qualified_solutions.simps [simp del]

definition connected_qualified_solution ::
  "ArbitrageProblem \<Rightarrow> PortfolioEvaluation \<Rightarrow> OracleBudget \<Rightarrow> string list
     \<Rightarrow> (UnknownReason + PortfolioSolution option \<times> string list) result" where
  "connected_qualified_solution p e budget rejection_ids =
     rbind (connected_qualified_solutions p e budget rejection_ids) (\<lambda>outcome.
     case outcome of
       Inl reason \<Rightarrow> Inr (Inl reason)
     | Inr (solutions, rejected) \<Rightarrow>
         Inr (Inr (case solutions of [] \<Rightarrow> None | s # _ \<Rightarrow> Some s, rejected)))"

subsection \<open>The domain of quantity vectors\<close>

definition quantity_vector_count :: "ArbitrageProblem \<Rightarrow> int result" where
  "quantity_vector_count p =
     rbind (require_valid p) (\<lambda>_.
     result_fold (\<lambda>a acc.
       rbind (checked_subtract (max_quantity_lots a) (min_quantity_lots a)) (\<lambda>d.
       rbind (checked_add d 2) (\<lambda>domain_size. checked_multiply acc domain_size))) (actions p) 1)"

definition quantity_ranges :: "CandidateAction list \<Rightarrow> int list list" where
  "quantity_ranges as = map (\<lambda>a. 0 # [min_quantity_lots a..max_quantity_lots a]) as"

definition sorted_actions :: "ArbitrageProblem \<Rightarrow> CandidateAction list" where
  "sorted_actions p = sort_key action_id (actions p)"

definition quantity_vectors :: "ArbitrageProblem \<Rightarrow> int list list" where
  "quantity_vectors p = product_lists (quantity_ranges (sorted_actions p))"

definition vector_quantities :: "CandidateAction list \<Rightarrow> int list \<Rightarrow> ActionQuantity list" where
  "vector_quantities as lots =
     map (\<lambda>(a, n). \<lparr>quantity_action_id = action_id a, quantity_lots = n\<rparr>) (filter (\<lambda>(a, n). n \<noteq> 0) (zip as lots))"

subsection \<open>Proofs of absence and unknown results\<close>

definition result_kind_of :: "BusinessStatus \<Rightarrow> ProofResultKind" where
  "result_kind_of s = (if s = NO_ARBITRAGE then NO_ARBITRAGE_RESULT else NO_QUALIFIED_OPPORTUNITY_RESULT)"

definition build_exhaustive_search_proof ::
  "OracleRequest \<Rightarrow> SearchAudit \<Rightarrow> BusinessStatus \<Rightarrow> string option \<Rightarrow> PayoutProof result" where
  "build_exhaustive_search_proof request audit conclusion source =
     (if conclusion \<notin> {NO_QUALIFIED_OPPORTUNITY, NO_ARBITRAGE}
      then Inl (ValueError ''exhaustive proof requires a negative business conclusion'')
      else Inr
        \<lparr>proof_schema_version = PAYOUT_PROOF_SCHEMA_V1,
         result_kind = result_kind_of conclusion,
         problem_fingerprint = fingerprint (problem_payload (request_problem request)),
         portfolio_fingerprint = None,
         proof_worst_scenario = None,
         proof_worst_state_cut = None,
         proof_payout_lower_bound_units = None,
         proof_cost_upper_bound_units = None,
         proof_guaranteed_profit_units = None,
         proof_conservative_capital_release_at = None,
         selected_support_graph = None,
         proof_method = ''EXHAUSTIVE_ORACLE_V1'',
         request_fingerprint = Some (fingerprint (request_payload request)),
         source_problem_fingerprint = source,
         qualification_fingerprint = Some (qualification_fingerprint_of (request_problem request)),
         proof_quantity_vectors_total = Some (quantity_vectors_total audit),
         proof_quantity_vectors_examined = Some (quantity_vectors_examined audit),
         proof_joint_states_per_vector = Some (joint_states_per_vector audit),
         proof_rejection_counts = rejection_counts audit\<rparr>)"

definition open_bounds :: ObjectiveBounds where
  "open_bounds = \<lparr>lower_bound_units = None, upper_bound_units = None, gap_units = None, bounds_closed = False\<rparr>"

definition unknown_result :: "UnknownReason \<Rightarrow> OracleResult" where
  "unknown_result reason =
     \<lparr>solve_status = SOLVE_UNKNOWN, proof_status = PROOF_UNKNOWN, business_status = BUSINESS_UNKNOWN,
      optimality_status = NOT_APPLICABLE, objective_bounds = open_bounds, result_solution = None,
      negative_proof = None, unknown_reason = Some reason\<rparr>"

definition merge_rejections :: "(string \<times> int) list \<Rightarrow> string list \<Rightarrow> (string \<times> int) list" where
  "merge_rejections counts ids =
     fold (\<lambda>i d. AList.update i ((case map_of d i of None \<Rightarrow> 0 | Some n \<Rightarrow> n) + 1) d) (remdups ids) counts"

subsection \<open>Checks before a search\<close>

definition numeric_domain_preflight :: "ArbitrageProblem \<Rightarrow> OracleBudget \<Rightarrow> unit result" where
  "numeric_domain_preflight p budget =
     result_fold (\<lambda>lots _.
       if list_ex (\<lambda>n. n \<noteq> 0) lots
       then rbind (evaluate_fixed_portfolio p (vector_quantities (sorted_actions p) lots) budget) (\<lambda>_. Inr ())
       else Inr ()) (quantity_vectors p) ()"

definition search_request_unknown_reason :: "OracleRequest \<Rightarrow> SearchMode \<Rightarrow> UnknownReason option result" where
  "search_request_unknown_reason request mode =
     (let p = request_problem request; budget = request_budget request in
      if request_schema_version request \<noteq> REQUEST_SCHEMA_V1 \<or> request_mode request \<noteq> mode
         \<or> max_quantity_vectors budget \<le> 0 \<or> max_joint_states budget \<le> 0 \<or> max_support_rechecks budget \<le> 0
      then Inr (Some INVALID_MODEL)
      else
        case input_unknown_reason p of
          Some reason \<Rightarrow> Inr (Some reason)
        | None \<Rightarrow>
            (case quantity_vector_count p of
               Inl err \<Rightarrow> (if err = OverflowError then Inr (Some NUMERIC_OVERFLOW) else Inl err)
             | Inr total_vectors \<Rightarrow>
                 if total_vectors > max_quantity_vectors budget then Inr (Some ORACLE_DECISION_LIMIT_EXCEEDED)
                 else
                   rbind (enumerate_allowed_scenarios p budget) (\<lambda>enumeration.
                   case enumeration_unknown_reason enumeration of
                     Some reason \<Rightarrow> Inr (Some reason)
                   | None \<Rightarrow>
                       (case numeric_domain_preflight p budget of
                          Inl err \<Rightarrow> (if err = OverflowError then Inr (Some NUMERIC_OVERFLOW) else Inl err)
                        | Inr _ \<Rightarrow> Inr None))))"

subsection \<open>Exhaustive optimisation\<close>

definition proven :: "int option \<Rightarrow> int" where
  "proven v = (case v of Some n \<Rightarrow> n | None \<Rightarrow> 0)"

definition solution_objective :: "PortfolioSolution \<Rightarrow> int \<times> int \<times> nat \<times> (string \<times> int) list" where
  "solution_objective s =
     (- proven (proof_guaranteed_profit_units (payout_proof s)),
      proven (proof_cost_upper_bound_units (payout_proof s)),
      length (solution_quantities s),
      map (\<lambda>q. (quantity_action_id q, quantity_lots q)) (solution_quantities s))"

definition better :: "PortfolioSolution \<Rightarrow> PortfolioSolution option \<Rightarrow> PortfolioSolution option" where
  "better s best =
     (case best of
        None \<Rightarrow> Some s
      | Some b \<Rightarrow> if solution_objective s < solution_objective b then Some s else best)"

fun solve_vectors ::
  "ArbitrageProblem \<Rightarrow> OracleBudget \<Rightarrow> int list list \<Rightarrow> (string \<times> int) list \<Rightarrow> PortfolioSolution option \<Rightarrow> int
     \<Rightarrow> (UnknownReason + (string \<times> int) list \<times> PortfolioSolution option \<times> int) result" where
  "solve_vectors p budget [] counts best examined = Inr (Inr (counts, best, examined))"
| "solve_vectors p budget (lots # rest) counts best examined =
     (if \<not> list_ex (\<lambda>n. n \<noteq> 0) lots
      then solve_vectors p budget rest (merge_rejections counts [''ALL_ZERO'']) best (examined + 1)
      else
        rbind (evaluate_fixed_portfolio p (vector_quantities (sorted_actions p) lots) budget) (\<lambda>e.
        if failed_qualification_ids e \<noteq> []
        then solve_vectors p budget rest (merge_rejections counts (failed_qualification_ids e)) best (examined + 1)
        else
          rbind (connected_qualified_solutions p e budget []) (\<lambda>outcome.
          case outcome of
            Inl reason \<Rightarrow> Inr (Inl reason)
          | Inr (solutions, rejected) \<Rightarrow>
              solve_vectors p budget rest (merge_rejections counts rejected) (fold better solutions best)
                (examined + 1))))"

definition joint_states_product :: "ArbitrageProblem \<Rightarrow> int result" where
  "joint_states_product p = checked_product (map (\<lambda>s. int (length (atoms s))) (terminal_state_sets p))"

definition negative_result :: "BusinessStatus \<Rightarrow> ObjectiveBounds \<Rightarrow> PayoutProof \<Rightarrow> OracleResult" where
  "negative_result status bounds pf =
     \<lparr>solve_status = SOLVE_INFEASIBLE, proof_status = PROOF_PROVEN, business_status = status,
      optimality_status = NOT_APPLICABLE, objective_bounds = bounds, result_solution = None,
      negative_proof = Some pf, unknown_reason = None\<rparr>"

definition optimal_result :: "PortfolioSolution \<Rightarrow> OracleResult" where
  "optimal_result s =
     (let profit = proof_guaranteed_profit_units (payout_proof s) in
      \<lparr>solve_status = SOLVE_FEASIBLE, proof_status = PROOF_PROVEN,
       business_status = QUALIFIED_FEASIBLE, optimality_status = OPTIMAL,
       objective_bounds = \<lparr>lower_bound_units = profit, upper_bound_units = profit,
                           gap_units = Some 0, bounds_closed = True\<rparr>,
       result_solution = Some s, negative_proof = None, unknown_reason = None\<rparr>)"

text \<open>What follows the loop: the audit of the search and the result for the best solution, if any.\<close>

definition conclude_search ::
  "OracleRequest \<Rightarrow> (string \<times> int) list \<Rightarrow> PortfolioSolution option \<Rightarrow> int \<Rightarrow> OracleResult result" where
  "conclude_search request counts best examined =
     rbind (quantity_vector_count (request_problem request)) (\<lambda>total_vectors.
     rbind (joint_states_product (request_problem request)) (\<lambda>joint.
     case best of
       None \<Rightarrow>
         rbind (build_exhaustive_search_proof request
                  \<lparr>quantity_vectors_total = total_vectors, quantity_vectors_examined = examined,
                   joint_states_per_vector = joint, rejection_counts = sort_key fst counts\<rparr>
                  NO_QUALIFIED_OPPORTUNITY None) (\<lambda>pf.
         Inr (negative_result NO_QUALIFIED_OPPORTUNITY open_bounds pf))
     | Some s \<Rightarrow> Inr (optimal_result s)))"

definition solve_exhaustive :: "OracleRequest \<Rightarrow> SearchMode \<Rightarrow> OracleResult result" where
  "solve_exhaustive request mode =
     rbind (search_request_unknown_reason request mode) (\<lambda>reason.
     case reason of
       Some r \<Rightarrow> Inr (unknown_result r)
     | None \<Rightarrow>
         let p = request_problem request; budget = request_budget request in
         rbind (solve_vectors p budget (quantity_vectors p) [] None 0) (\<lambda>outcome.
         case outcome of
           Inl r \<Rightarrow> Inr (unknown_result r)
         | Inr (counts, best, examined) \<Rightarrow> conclude_search request counts best examined))"

definition solve_optimal :: "OracleRequest \<Rightarrow> OracleResult result" where
  "solve_optimal request = solve_exhaustive request OPTIMIZATION"

definition raw_diagnostic_problem :: "ArbitrageProblem \<Rightarrow> ArbitrageProblem" where
  "raw_diagnostic_problem p =
     p\<lparr>problem_id := problem_id p @ '':raw-arbitrage-diagnostic'', qualification_constraints := []\<rparr>"

definition diagnose_raw_arbitrage :: "ArbitrageProblem \<Rightarrow> OracleBudget \<Rightarrow> OracleResult result" where
  "diagnose_raw_arbitrage p budget =
     (let diagnostic = raw_diagnostic_problem p;
          request = \<lparr>request_schema_version = REQUEST_SCHEMA_V1, request_mode = RAW_ARBITRAGE_DIAGNOSTIC,
                     request_problem = diagnostic, request_budget = budget\<rparr>
      in
      rbind (solve_exhaustive request RAW_ARBITRAGE_DIAGNOSTIC) (\<lambda>result.
      case result_solution result of
        None \<Rightarrow> Inr result
      | Some s \<Rightarrow>
          if business_status result \<noteq> QUALIFIED_FEASIBLE
             \<or> proven (proof_guaranteed_profit_units (payout_proof s)) > 0
          then Inr result
          else
            rbind (quantity_vector_count diagnostic) (\<lambda>total_vectors.
            rbind (joint_states_product diagnostic) (\<lambda>joint.
            rbind (build_exhaustive_search_proof request
                     \<lparr>quantity_vectors_total = total_vectors, quantity_vectors_examined = total_vectors,
                      joint_states_per_vector = joint, rejection_counts = [(''ALL_ZERO'', 1)]\<rparr>
                     NO_ARBITRAGE (Some (fingerprint (problem_payload p)))) (\<lambda>pf.
            Inr (negative_result NO_ARBITRAGE (objective_bounds result) pf))))))"

subsection \<open>Admission: the first qualified portfolio\<close>

fun find_vectors ::
  "ArbitrageProblem \<Rightarrow> OracleBudget \<Rightarrow> int list list \<Rightarrow> (string \<times> int) list \<Rightarrow> int
     \<Rightarrow> (UnknownReason + PortfolioSolution option \<times> (string \<times> int) list \<times> int) result" where
  "find_vectors p budget [] counts examined = Inr (Inr (None, counts, examined))"
| "find_vectors p budget (lots # rest) counts examined =
     (if \<not> list_ex (\<lambda>n. n \<noteq> 0) lots
      then find_vectors p budget rest (merge_rejections counts [''ALL_ZERO'']) (examined + 1)
      else
        rbind (evaluate_fixed_portfolio p (vector_quantities (sorted_actions p) lots) budget) (\<lambda>e.
        if failed_qualification_ids e \<noteq> []
        then find_vectors p budget rest (merge_rejections counts (failed_qualification_ids e)) (examined + 1)
        else
          rbind (connected_qualified_solution p e budget []) (\<lambda>outcome.
          case outcome of
            Inl reason \<Rightarrow> Inr (Inl reason)
          | Inr (Some s, rejected) \<Rightarrow> Inr (Inr (Some s, counts, examined + 1))
          | Inr (None, rejected) \<Rightarrow>
              find_vectors p budget rest (merge_rejections counts rejected) (examined + 1))))"

definition admitted_result :: "PortfolioSolution \<Rightarrow> OracleResult" where
  "admitted_result s =
     \<lparr>solve_status = SOLVE_FEASIBLE, proof_status = PROOF_PROVEN,
      business_status = QUALIFIED_FEASIBLE, optimality_status = NOT_PROVEN,
      objective_bounds = \<lparr>lower_bound_units = proof_guaranteed_profit_units (payout_proof s),
                          upper_bound_units = None, gap_units = None, bounds_closed = False\<rparr>,
      result_solution = Some s, negative_proof = None, unknown_reason = None\<rparr>"

definition find_qualified :: "OracleRequest \<Rightarrow> OracleResult result" where
  "find_qualified request =
     rbind (search_request_unknown_reason request ADMISSION) (\<lambda>reason.
     case reason of
       Some r \<Rightarrow> Inr (unknown_result r)
     | None \<Rightarrow>
         let p = request_problem request; budget = request_budget request in
         rbind (quantity_vector_count p) (\<lambda>total_vectors.
         let joint = prod_list (map (\<lambda>s. int (length (atoms s))) (terminal_state_sets p)) in
         rbind (find_vectors p budget (quantity_vectors p) [] 0) (\<lambda>outcome.
         case outcome of
           Inl r \<Rightarrow> Inr (unknown_result r)
         | Inr (Some s, counts, examined) \<Rightarrow> Inr (admitted_result s)
         | Inr (None, counts, examined) \<Rightarrow>
             rbind (build_exhaustive_search_proof request
                      \<lparr>quantity_vectors_total = total_vectors, quantity_vectors_examined = examined,
                       joint_states_per_vector = joint, rejection_counts = sort_key fst counts\<rparr>
                      NO_QUALIFIED_OPPORTUNITY None) (\<lambda>pf.
             Inr (negative_result NO_QUALIFIED_OPPORTUNITY open_bounds pf)))))"

end
