(* ===== verification/Oracle_Optimality.thy ===== *)
theory Oracle_Optimality
  imports Oracle_Search
begin

section \<open>The exact oracle: what the searches prove\<close>

text \<open>
  The reference set of the searches is \<open>qualified_solutions\<close>: the solutions of the portfolios that were evaluated,
  pass every qualification and form one component of their support graph. The loops over the quantity vectors
  keep members of it only, and examine every member, because each selection within the quantity ranges is
  the portfolio of exactly one enumerated vector. From that follow the optimum of \<open>solve_optimal\<close>, the
  proofs of absence, the agreement of the two searches and the raw diagnosis.
\<close>

subsection \<open>Qualified portfolios of one component\<close>

lemma evaluate_selection_only:
  "selected_quantities p qs = selected_quantities p qs' \<Longrightarrow>
     evaluate_fixed_portfolio p qs b = evaluate_fixed_portfolio p qs' b"
  by (simp add: evaluate_fixed_portfolio_def evaluate_portfolio_def del: rbind_Inr_iff)

lemma evaluate_selected:
  assumes "evaluate_fixed_portfolio p qs b = Inr e"
  shows "evaluate_fixed_portfolio p (evaluation_quantities e) b = Inr e"
proof -
  have "selected_quantities p qs = Inr (evaluation_quantities e)"
    using evaluate_fixed_Inr[OF assms] by blast
  then show ?thesis
    using assms selected_quantities_idem evaluate_selection_only by metis
qed

definition is_qualified :: "ArbitrageProblem \<Rightarrow> OracleBudget \<Rightarrow> PortfolioEvaluation \<Rightarrow> bool" where
  "is_qualified p b e \<longleftrightarrow>
     evaluate_fixed_portfolio p (evaluation_quantities e) b = Inr e \<and> failed_qualification_ids e = []"

definition one_component ::
  "ArbitrageProblem \<Rightarrow> OracleBudget \<Rightarrow> PortfolioEvaluation \<Rightarrow> SelectedSupportGraph \<Rightarrow> bool" where
  "one_component p b e graph \<longleftrightarrow>
     derive_selected_support_graph p e b = Inr (Inr graph)
     \<and> (\<exists>g. split_disconnected_solution p e graph = Inr [g])"

definition solution_of :: "ArbitrageProblem \<Rightarrow> PortfolioEvaluation \<Rightarrow> SelectedSupportGraph \<Rightarrow> PortfolioSolution" where
  "solution_of p e graph = \<lparr>solution_quantities = evaluation_quantities e, payout_proof = portfolio_proof p e graph\<rparr>"

definition qualified_solutions :: "ArbitrageProblem \<Rightarrow> OracleBudget \<Rightarrow> PortfolioSolution set" where
  "qualified_solutions p b = {solution_of p e graph | e graph. is_qualified p b e \<and> one_component p b e graph}"

lemma qualified_solutionsI:
  "is_qualified p b e \<Longrightarrow> one_component p b e graph \<Longrightarrow> solution_of p e graph \<in> qualified_solutions p b"
  by (auto simp: qualified_solutions_def)

lemma build_portfolio_solution_Inr:
  "build_portfolio_solution p e graph = Inr s \<Longrightarrow> s = solution_of p e graph"
  by (auto simp: build_portfolio_solution_def solution_of_def split: if_splits)

lemma split_singleton: "split_disconnected_solution p e graph = Inr groups \<Longrightarrow> length groups = 1
   \<Longrightarrow> derive_selected_support_graph p e b = Inr (Inr graph) \<Longrightarrow> one_component p b e graph"
  by (auto simp: one_component_def length_Suc_conv)

lemma connected_solutions_sound:
  assumes "connected_qualified_solutions p e b rej = Inr (Inr (sols, rej'))" "is_qualified p b e"
  shows "set sols \<subseteq> qualified_solutions p b"
  using assms
proof (induction "length (evaluation_quantities e)" arbitrary: e rej sols rej' rule: less_induct)
  case less
  obtain graph groups where graph: "derive_selected_support_graph p e b = Inr (Inr graph)"
    and groups: "split_disconnected_solution p e graph = Inr groups"
    using less.prems(1) connected_qualified_solutions.simps[of p e b rej]
    by (auto split: sum.splits if_splits)
  show ?case
  proof (cases "length groups = 1")
    case True
    then have "sols = [solution_of p e graph]"
      using less.prems(1) graph groups connected_qualified_solutions.simps[of p e b rej]
      by (auto dest: build_portfolio_solution_Inr)
    then show ?thesis
      using split_singleton[OF groups True graph] less.prems(2) by (simp add: qualified_solutionsI)
  next
    case False
    let ?step = "\<lambda>child outcome.
              case outcome of
                Inl reason \<Rightarrow> Inr (Inl reason)
              | Inr (solutions, rejected) \<Rightarrow>
                  if failed_qualification_ids child \<noteq> []
                  then Inr (Inr (solutions, rejected @ failed_qualification_ids child))
                  else
                    rbind (connected_qualified_solutions p child b rejected) (\<lambda>below.
                    case below of
                      Inl reason \<Rightarrow> Inr (Inl reason)
                    | Inr (found, rejected') \<Rightarrow> Inr (Inr (solutions @ found, rejected')))"
    let ?inv = "\<lambda>outcome :: UnknownReason + PortfolioSolution list \<times> string list. \<forall>solutions rejected. outcome = Inr (solutions, rejected)
      \<longrightarrow> set solutions \<subseteq> qualified_solutions p b"
    obtain children where children: "result_map (\<lambda>qs. evaluate_fixed_portfolio p qs b) groups = Inr children"
      and fold: "result_fold ?step children (Inr ([], rej)) = Inr (Inr (sols, rej'))"
      using less.prems(1) False graph groups connected_qualified_solutions.simps[of p e b rej] by auto
    have "?inv (Inr (sols, rej'))"
    proof (rule result_fold_invariant[OF fold])
      fix child s s'
      assume child: "child \<in> set children" and inv: "?inv s" and step: "?step child s = Inr s'"
      have "\<exists>qs. evaluate_fixed_portfolio p qs b = Inr child"
        using list_all2_images[OF children[unfolded result_map_Inr_iff]] child by auto
      then have sub: "set found \<subseteq> qualified_solutions p b"
        if "connected_qualified_solutions p child b r = Inr (Inr (found, r'))" "failed_qualification_ids child = []"
        for r found r'
        using less.hyps[OF split_child_smaller[OF groups False children child] that(1)] that(2) evaluate_selected
        by (auto simp: is_qualified_def)
      show "?inv s'"
      proof (cases s)
        case (Inr pair)
        obtain solutions rejected where s: "s = Inr (solutions, rejected)"
          using Inr by (cases pair) auto
        then have kept: "set solutions \<subseteq> qualified_solutions p b"
          using inv by blast
        show ?thesis
        proof (cases "failed_qualification_ids child = []")
          case True
          then show ?thesis
            using step s kept sub[of rejected]
            by (cases "connected_qualified_solutions p child b rejected") (force split: sum.splits prod.splits)+
        next
          case False
          then show ?thesis
            using step s kept by auto
        qed
      qed (use step in auto)
    qed simp
    then show ?thesis
      by simp
  qed
qed

lemma connected_solutions_single:
  assumes "one_component p b e graph" "connected_qualified_solutions p e b rej = Inr (Inr (sols, rej'))"
  shows "sols = [solution_of p e graph]"
  using assms connected_qualified_solutions.simps[of p e b rej]
  by (auto simp: one_component_def dest: build_portfolio_solution_Inr)

lemma fold_better_None: "fold better sols best = None \<longleftrightarrow> sols = [] \<and> best = None"
  by (induction sols arbitrary: best) (auto simp: better_def split: option.splits if_splits)

lemma fold_better_Some:
  assumes "fold better sols best = Some s"
  shows "s \<in> set sols \<union> set_option best \<and> (\<forall>s' \<in> set sols \<union> set_option best. solution_objective s \<le> solution_objective s')"
  using assms
proof (induction sols arbitrary: best)
  case (Cons x xs)
  have "\<exists>y. better x best = Some y \<and> y \<in> insert x (set_option best)
      \<and> (\<forall>s' \<in> insert x (set_option best). solution_objective y \<le> solution_objective s')"
    by (cases best) (auto simp: better_def not_less)
  then obtain y where y: "better x best = Some y" "y \<in> insert x (set_option best)"
    "\<forall>s' \<in> insert x (set_option best). solution_objective y \<le> solution_objective s'"
    by blast
  have "s \<in> set xs \<union> {y}" "\<forall>s' \<in> set xs \<union> {y}. solution_objective s \<le> solution_objective s'"
    using Cons.IH[of "Some y"] Cons.prems y(1) by auto
  then show ?case
    using y(2,3) by (auto intro: order_trans)
qed simp

lemma set_quantity_vectors:
  "lots \<in> set (quantity_vectors p) \<longleftrightarrow>
     list_all2 (\<lambda>n a. n = 0 \<or> min_quantity_lots a \<le> n \<and> n \<le> max_quantity_lots a) lots (sorted_actions p)"
  by (simp add: quantity_vectors_def quantity_ranges_def product_lists_set list_all2_map2)

text \<open>Every selection of the problem is one of the enumerated vectors.\<close>

lemma selection_is_vector:
  assumes wf: "wf_problem p" and sel: "selected_quantities p qs = Inr sel"
  obtains lots where "lots \<in> set (quantity_vectors p)" "vector_quantities (sorted_actions p) lots = sel"
proof
  define lot where "lot a = (case lots_of sel (action_id a) of None \<Rightarrow> 0 | Some n \<Rightarrow> n)" for a :: CandidateAction
  let ?as = "sorted_actions p"
  have dist: "distinct (map quantity_action_id sel)" "sorted (map quantity_action_id sel)"
    and member: "\<And>q. q \<in> set sel \<Longrightarrow> 0 < quantity_lots q \<and> selectable p q"
    using selected_quantities_props[OF sel] by blast+
  have as: "distinct (map action_id ?as)" "sorted (map action_id ?as)" "set ?as = set (actions p)"
    using wf_problem_distinct[OF wf] by (auto simp: sorted_actions_def distinct_map)
  have lots_of: "lots_of sel i = Some n \<longleftrightarrow> \<lparr>quantity_action_id = i, quantity_lots = n\<rparr> \<in> set sel" for i n
  proof -
    have "distinct (map fst (map (\<lambda>q. (quantity_action_id q, quantity_lots q)) sel))"
      using dist(1) by (simp add: comp_def)
    then have "lots_of sel i = Some n \<longleftrightarrow> (i, n) \<in> (\<lambda>q. (quantity_action_id q, quantity_lots q)) ` set sel"
      unfolding lots_of_def by (subst last_wins_distinct) (simp_all add: map_of_eq_Some_iff)
    also have "\<dots> \<longleftrightarrow> \<lparr>quantity_action_id = i, quantity_lots = n\<rparr> \<in> set sel"
    proof
      assume "(i, n) \<in> (\<lambda>q. (quantity_action_id q, quantity_lots q)) ` set sel"
      then obtain q where "q \<in> set sel" "i = quantity_action_id q" "n = quantity_lots q"
        by auto
      then show "\<lparr>quantity_action_id = i, quantity_lots = n\<rparr> \<in> set sel"
        by (cases q rule: ActionQuantity.cases) simp
    qed (force simp: image_iff)
    finally show ?thesis .
  qed
  have lot_pos: "lot a = n \<and> n \<noteq> 0 \<longleftrightarrow> \<lparr>quantity_action_id = action_id a, quantity_lots = n\<rparr> \<in> set sel" for a n
    using member lots_of[of "action_id a"] by (fastforce simp: lot_def split: option.splits)
  have known: "\<exists>a \<in> set (actions p). action_id a = quantity_action_id q \<and> min_quantity_lots a \<le> quantity_lots q
      \<and> quantity_lots q \<le> max_quantity_lots a" if "q \<in> set sel" for q
    using member[OF that] actions_by_id_iff[OF wf] by (auto simp: selectable_def)
  have unique: "a = a'" if "a \<in> set (actions p)" "a' \<in> set (actions p)" "action_id a = action_id a'" for a a'
    using that wf_problem_distinct[OF wf] by (auto simp: distinct_map dest: inj_onD)
  have "lot a = 0 \<or> min_quantity_lots a \<le> lot a \<and> lot a \<le> max_quantity_lots a" if "a \<in> set ?as" for a
  proof (cases "lot a = 0")
    case False
    then have "\<lparr>quantity_action_id = action_id a, quantity_lots = lot a\<rparr> \<in> set sel"
      using lot_pos by blast
    then show ?thesis
      using known unique that as(3) by fastforce
  qed simp
  then show "map lot ?as \<in> set (quantity_vectors p)"
    by (simp add: set_quantity_vectors list_all2_map1 list_all2_same)
  have vec: "vector_quantities ?as (map lot ?as)
      = map (\<lambda>a. \<lparr>quantity_action_id = action_id a, quantity_lots = lot a\<rparr>) (filter (\<lambda>a. lot a \<noteq> 0) ?as)"
    by (simp add: vector_quantities_def zip_map2 zip_same_conv_map filter_map comp_def)
  have ids: "map quantity_action_id (vector_quantities ?as (map lot ?as)) = map action_id (filter (\<lambda>a. lot a \<noteq> 0) ?as)"
    by (simp add: vec comp_def)
  have set: "set (vector_quantities ?as (map lot ?as)) = set sel"
  proof (intro set_eqI iffI)
    fix q assume q: "q \<in> set sel"
    obtain a where a: "a \<in> set ?as" "action_id a = quantity_action_id q"
      using known[OF q] as(3) by blast
    have q_eq: "q = \<lparr>quantity_action_id = action_id a, quantity_lots = quantity_lots q\<rparr>"
      using a(2) by simp
    then have "lot a = quantity_lots q \<and> quantity_lots q \<noteq> 0"
      using lot_pos q by metis
    then show "q \<in> set (vector_quantities ?as (map lot ?as))"
      unfolding vec set_map using a(1) q_eq by (intro image_eqI[where x = a]) auto
  next
    fix q assume "q \<in> set (vector_quantities ?as (map lot ?as))"
    then show "q \<in> set sel"
      using lot_pos unfolding vec by auto
  qed
  show "vector_quantities ?as (map lot ?as) = sel"
  proof (rule map_sorted_distinct_set_unique)
    show "inj_on quantity_action_id (set (vector_quantities ?as (map lot ?as)) \<union> set sel)"
      using dist(1) set by (simp add: distinct_map)
    show "sorted (map quantity_action_id (vector_quantities ?as (map lot ?as)))"
      unfolding ids using as(2) by (rule sorted_filter)
    show "distinct (map quantity_action_id (vector_quantities ?as (map lot ?as)))"
      unfolding ids using as(1) by (rule distinct_map_filter)
  qed (use dist set in auto)
qed

lemma vector_nonzero: "vector_quantities as lots \<noteq> [] \<Longrightarrow> list_ex (\<lambda>n. n \<noteq> 0) lots"
  by (auto simp: vector_quantities_def filter_empty_conv list_ex_iff dest: set_zip_rightD)

lemma qualified_selection:
  assumes "is_qualified p b e"
  shows "wf_problem p" "selected_quantities p (evaluation_quantities e) = Inr (evaluation_quantities e)"
    "evaluation_quantities e \<noteq> []"
  using assms evaluate_fixed_Inr unfolding is_qualified_def by blast+

text \<open>A qualified portfolio is examined by the searches: it is the portfolio of an enumerated vector.\<close>

lemma qualified_is_examined:
  assumes "is_qualified p b e"
  obtains lots where "lots \<in> set (quantity_vectors p)" "list_ex (\<lambda>n. n \<noteq> 0) lots"
    "evaluate_fixed_portfolio p (vector_quantities (sorted_actions p) lots) b = Inr e"
proof -
  obtain lots where "lots \<in> set (quantity_vectors p)" "vector_quantities (sorted_actions p) lots = evaluation_quantities e"
    using selection_is_vector[OF qualified_selection(1,2)[OF assms]] by metis
  then show ?thesis
    using that[of lots] vector_nonzero[of "sorted_actions p" lots] assms qualified_selection(3)[OF assms]
    by (auto simp: is_qualified_def)
qed

definition no_worse :: "PortfolioSolution option \<Rightarrow> PortfolioSolution \<Rightarrow> bool" where
  "no_worse best s \<longleftrightarrow> (\<exists>s'. best = Some s' \<and> solution_objective s' \<le> solution_objective s)"

lemma no_worse_fold_better:
  assumes "s \<in> set sols \<or> no_worse best s"
  shows "no_worse (fold better sols best) s"
proof (cases "fold better sols best")
  case None
  then show ?thesis
    using assms by (auto simp: fold_better_None no_worse_def)
next
  case (Some s')
  then show ?thesis
    using assms fold_better_Some[OF Some] by (auto simp: no_worse_def intro: order_trans)
qed

lemma fold_better_in:
  assumes "set sols \<subseteq> Q" "set_option best \<subseteq> Q"
  shows "set_option (fold better sols best) \<subseteq> Q"
  using assms fold_better_Some by (cases "fold better sols best") fastforce+

lemma evaluated_is_qualified:
  "evaluate_fixed_portfolio p qs b = Inr e \<Longrightarrow> failed_qualification_ids e = [] \<Longrightarrow> is_qualified p b e"
  by (simp add: is_qualified_def evaluate_selected)

lemma solve_vectors_correct:
  assumes "solve_vectors p b vs counts best examined = Inr (Inr (counts', best', examined'))"
    and "set_option best \<subseteq> qualified_solutions p b"
  shows "examined' = examined + int (length vs)
    \<and> set_option best' \<subseteq> qualified_solutions p b
    \<and> (\<forall>s. no_worse best s \<longrightarrow> no_worse best' s)
    \<and> (\<forall>lots e graph. lots \<in> set vs \<longrightarrow> list_ex (\<lambda>n. n \<noteq> 0) lots \<longrightarrow>
         evaluate_fixed_portfolio p (vector_quantities (sorted_actions p) lots) b = Inr e \<longrightarrow>
         failed_qualification_ids e = [] \<longrightarrow> one_component p b e graph \<longrightarrow> no_worse best' (solution_of p e graph))"
  using assms
proof (induction vs arbitrary: counts best examined)
  case (Cons lots vs)
  show ?case
  proof (cases "list_ex (\<lambda>n. n \<noteq> 0) lots")
    case False
    then show ?thesis
      using Cons.IH[of "merge_rejections counts [''ALL_ZERO'']" best "examined + 1"] Cons.prems by auto
  next
    case nonzero: True
    then obtain e where e: "evaluate_fixed_portfolio p (vector_quantities (sorted_actions p) lots) b = Inr e"
      using Cons.prems(1) by auto
    show ?thesis
    proof (cases "failed_qualification_ids e = []")
      case False
      then show ?thesis
        using Cons.IH[of "merge_rejections counts (failed_qualification_ids e)" best "examined + 1"] Cons.prems nonzero e
        by auto
    next
      case True
      obtain sols rejected where sols: "connected_qualified_solutions p e b [] = Inr (Inr (sols, rejected))"
        and rest: "solve_vectors p b vs (merge_rejections counts rejected) (fold better sols best) (examined + 1)
          = Inr (Inr (counts', best', examined'))"
        using Cons.prems(1) nonzero e True by (auto simp: outcome_case_Inr_iff)
      have "set sols \<subseteq> qualified_solutions p b"
        using connected_solutions_sound[OF sols evaluated_is_qualified[OF e True]] .
      then have "set_option (fold better sols best) \<subseteq> qualified_solutions p b"
        using Cons.prems(2) by (rule fold_better_in)
      note IH = Cons.IH[OF rest this]
      have here: "no_worse best' (solution_of p e graph)" if "one_component p b e graph" for graph
      proof -
        have "solution_of p e graph \<in> set sols"
          using connected_solutions_single[OF that sols] by simp
        then show ?thesis
          using no_worse_fold_better[of _ sols best] IH by blast
      qed
      show ?thesis
        using IH here e no_worse_fold_better by auto
    qed
  qed
qed auto

lemma connected_solution_Inr:
  assumes "connected_qualified_solution p e b rej = Inr (Inr (found, rejected))"
  obtains sols where "connected_qualified_solutions p e b rej = Inr (Inr (sols, rejected))"
    "found = (case sols of [] \<Rightarrow> None | s # _ \<Rightarrow> Some s)"
  using assms by (auto simp: connected_qualified_solution_def outcome_case_Inr_iff)

lemma find_vectors_correct:
  assumes "find_vectors p b vs counts examined = Inr (Inr (found, counts', examined'))"
  shows "set_option found \<subseteq> qualified_solutions p b
    \<and> (found = None \<longrightarrow> examined' = examined + int (length vs)
         \<and> (\<forall>lots e graph. lots \<in> set vs \<longrightarrow> list_ex (\<lambda>n. n \<noteq> 0) lots \<longrightarrow>
              evaluate_fixed_portfolio p (vector_quantities (sorted_actions p) lots) b = Inr e \<longrightarrow>
              failed_qualification_ids e = [] \<longrightarrow> \<not> one_component p b e graph))"
  using assms
proof (induction vs arbitrary: counts examined)
  case (Cons lots vs)
  show ?case
  proof (cases "list_ex (\<lambda>n. n \<noteq> 0) lots")
    case False
    then show ?thesis
      using Cons.IH[of "merge_rejections counts [''ALL_ZERO'']" "examined + 1"] Cons.prems by auto
  next
    case nonzero: True
    then obtain e where e: "evaluate_fixed_portfolio p (vector_quantities (sorted_actions p) lots) b = Inr e"
      using Cons.prems(1) by auto
    show ?thesis
    proof (cases "failed_qualification_ids e = []")
      case False
      then show ?thesis
        using Cons.IH[of "merge_rejections counts (failed_qualification_ids e)" "examined + 1"] Cons.prems nonzero e
        by auto
    next
      case True
      obtain hit rejected where hit: "connected_qualified_solution p e b [] = Inr (Inr (hit, rejected))"
        and rest: "(case hit of Some s \<Rightarrow> Inr (Inr (Some s, counts, examined + 1))
            | None \<Rightarrow> find_vectors p b vs (merge_rejections counts rejected) (examined + 1))
          = Inr (Inr (found, counts', examined'))"
        using Cons.prems(1) nonzero e True by (auto simp: outcome_case_Inr_iff)
      obtain sols where sols: "connected_qualified_solutions p e b [] = Inr (Inr (sols, rejected))"
        and first: "hit = (case sols of [] \<Rightarrow> None | s # _ \<Rightarrow> Some s)"
        using connected_solution_Inr[OF hit] .
      have sub: "set sols \<subseteq> qualified_solutions p b"
        using connected_solutions_sound[OF sols evaluated_is_qualified[OF e True]] .
      show ?thesis
      proof (cases hit)
        case None
        then have "\<not> one_component p b e graph" for graph
          using connected_solutions_single[OF _ sols] first by auto
        then show ?thesis
          using Cons.IH[of "merge_rejections counts rejected" "examined + 1"] rest None e by auto
      next
        case (Some s)
        then show ?thesis
          using rest sub first by (auto split: list.splits)
      qed
    qed
  qed
qed auto

subsection \<open>Size of the search\<close>

lemma length_product_lists: "length (product_lists xss) = prod_list (map length xss)"
  by (induction xss) (auto simp: length_concat comp_def sum_list_triv)

lemma prod_list_sort_key: "prod_list (map g (sort_key f xs)) = prod_list (map (g :: 'a \<Rightarrow> int) xs)"
  by (metis mset_map mset_sort prod_mset_prod_list)

lemma int_prod_list: "int (prod_list ns) = prod_list (map int ns)"
  by (induction ns) auto

lemma quantity_vector_count_exact:
  assumes "quantity_vector_count p = Inr n"
  shows "n = int (length (quantity_vectors p))"
proof -
  let ?size = "\<lambda>a. max_quantity_lots a - min_quantity_lots a + 2"
  have wf: "wf_problem p"
    using assms by (auto simp: quantity_vector_count_def)
  have dom: "int (length (0 # [min_quantity_lots a..max_quantity_lots a])) = ?size a" if "a \<in> set (actions p)" for a
    using wf_problem_action[OF wf that] by (simp add: wf_action_def)
  have "n = 1 * prod_list (map ?size (actions p))"
    using assms unfolding quantity_vector_count_def
    by (auto intro: result_fold_prod[where g = ?size and a = 1, simplified, rotated])
  also have "\<dots> = prod_list (map ?size (sorted_actions p))"
    by (simp add: sorted_actions_def prod_list_sort_key)
  also have "map ?size (sorted_actions p)
      = map (\<lambda>a. int (length (0 # [min_quantity_lots a..max_quantity_lots a]))) (sorted_actions p)"
    using dom by (intro map_cong) (simp_all add: sorted_actions_def)
  also have "prod_list \<dots> = int (length (quantity_vectors p))"
    by (simp add: quantity_vectors_def quantity_ranges_def length_product_lists int_prod_list comp_def)
  finally show ?thesis .
qed

lemma objective_profit:
  assumes "solution_objective (solution_of p e g) \<le> solution_objective (solution_of p e' g')"
  shows "guaranteed_profit_units e' \<le> guaranteed_profit_units e"
  using assms by (auto simp: solution_objective_def solution_of_def portfolio_proof_def proven_def less_eq_prod_def)

lemma search_reason_None:
  assumes "search_request_unknown_reason request mode = Inr None"
  shows "wf_problem (request_problem request)" "request_mode request = mode"
    "numeric_domain_preflight (request_problem request) (request_budget request) = Inr ()"
  using assms
  by (auto simp: search_request_unknown_reason_def Let_def input_unknown_reason_def simp flip: validate_problem_Nil_iff
      split: if_splits option.splits sum.splits)

lemma search_reason_mode:
  assumes "search_request_unknown_reason request mode = Inr None"
  shows "search_request_unknown_reason (request\<lparr>request_mode := mode'\<rparr>) mode' = Inr None"
  using assms by (auto simp: search_request_unknown_reason_def Let_def split: if_splits option.splits sum.splits)

lemma solve_exhaustive_cases:
  assumes "solve_exhaustive request mode = Inr r"
  obtains reason where "r = unknown_result reason"
  | counts best n where "search_request_unknown_reason request mode = Inr None"
      "solve_vectors (request_problem request) (request_budget request) (quantity_vectors (request_problem request)) [] None 0
         = Inr (Inr (counts, best, n))"
      "quantity_vector_count (request_problem request) = Inr n"
      "conclude_search request counts best n = Inr r"
proof -
  let ?p = "request_problem request" and ?b = "request_budget request"
  obtain reason where reason: "search_request_unknown_reason request mode = Inr reason"
    using assms by (auto simp: solve_exhaustive_def)
  show ?thesis
  proof (cases reason)
    case (Some x)
    then show ?thesis
      using assms reason that(1) by (auto simp: solve_exhaustive_def)
  next
    case None
    then obtain outcome where outcome: "solve_vectors ?p ?b (quantity_vectors ?p) [] None 0 = Inr outcome"
      and result: "(case outcome of Inl r \<Rightarrow> Inr (unknown_result r)
         | Inr (counts, best, examined) \<Rightarrow> conclude_search request counts best examined) = Inr r"
      using assms reason by (auto simp: solve_exhaustive_def Let_def)
    show ?thesis
    proof (cases outcome)
      case (Inl x)
      then show ?thesis
        using result that(1) by auto
    next
      case (Inr y)
      then obtain counts best examined where y: "outcome = Inr (counts, best, examined)"
        by (cases y) auto
      have conclude: "conclude_search request counts best examined = Inr r"
        using result y by simp
      then obtain n where n: "quantity_vector_count ?p = Inr n"
        by (auto simp: conclude_search_def)
      have "examined = n"
        using solve_vectors_correct[OF outcome[unfolded y]] quantity_vector_count_exact[OF n] by simp
      then show ?thesis
        using that(2) reason None outcome y conclude n by blast
    qed
  qed
qed

lemma conclude_search_Inr:
  assumes "conclude_search request counts best n = Inr r"
  shows "best = Some s \<Longrightarrow> r = optimal_result s"
    and "best = None \<Longrightarrow> \<exists>pf total_vectors. r = negative_result NO_QUALIFIED_OPPORTUNITY open_bounds pf
      \<and> result_kind pf = NO_QUALIFIED_OPPORTUNITY_RESULT
      \<and> quantity_vector_count (request_problem request) = Inr total_vectors
      \<and> proof_quantity_vectors_total pf = Some total_vectors \<and> proof_quantity_vectors_examined pf = Some n"
  using assms by (auto simp: conclude_search_def build_exhaustive_search_proof_def result_kind_of_def)

lemma result_status [simp]:
  "business_status (optimal_result s) = QUALIFIED_FEASIBLE"
  "business_status (admitted_result s) = QUALIFIED_FEASIBLE"
  "business_status (unknown_result reason) = BUSINESS_UNKNOWN"
  "business_status (negative_result status bounds pf) = status"
  "negative_proof (negative_result status bounds pf) = Some pf"
  "result_solution (negative_result status bounds pf) = None"
  "result_solution (unknown_result reason) = None"
  by (simp_all add: optimal_result_def admitted_result_def unknown_result_def negative_result_def Let_def)

text \<open>The optimum over all enumerated vectors is the optimum over all qualified one-component portfolios.\<close>

lemma search_optimum:
  assumes "solve_vectors p b (quantity_vectors p) [] None 0 = Inr (Inr (counts, best, n))"
  shows "set_option best \<subseteq> qualified_solutions p b"
    and "s \<in> qualified_solutions p b \<Longrightarrow> no_worse best s"
proof -
  note all = solve_vectors_correct[OF assms, simplified]
  then show "set_option best \<subseteq> qualified_solutions p b"
    by blast
  assume "s \<in> qualified_solutions p b"
  then obtain e graph where e: "is_qualified p b e" "one_component p b e graph" "s = solution_of p e graph"
    by (auto simp: qualified_solutions_def)
  show "no_worse best s"
    using all qualified_is_examined[OF e(1)] e by (metis is_qualified_def)
qed

lemma find_vectors_returns:
  assumes "solve_vectors p b vs counts best examined = Inr (Inr out)"
  shows "\<exists>out'. find_vectors p b vs counts' examined' = Inr (Inr out')"
  using assms
proof (induction vs arbitrary: counts best examined counts' examined')
  case (Cons lots vs)
  show ?case
  proof (cases "list_ex (\<lambda>n. n \<noteq> 0) lots")
    case True
    then obtain e where e: "evaluate_fixed_portfolio p (vector_quantities (sorted_actions p) lots) b = Inr e"
      using Cons.prems by auto
    show ?thesis
    proof (cases "failed_qualification_ids e = []")
      case qualifies: True
      then obtain sols rejected where "connected_qualified_solutions p e b [] = Inr (Inr (sols, rejected))"
        and rest: "solve_vectors p b vs (merge_rejections counts rejected) (fold better sols best) (examined + 1) = Inr (Inr out)"
        using Cons.prems True e by (auto simp: outcome_case_Inr_iff)
      then have "connected_qualified_solution p e b []
          = Inr (Inr (case sols of [] \<Rightarrow> None | s # _ \<Rightarrow> Some s, rejected))"
        by (simp add: connected_qualified_solution_def del: rbind_Inr_iff)
      then show ?thesis
        using Cons.IH[OF rest] True e qualifies by (cases sols) (auto simp del: rbind_Inr_iff)
    qed (use Cons True e in \<open>auto simp del: rbind_Inr_iff\<close>)
  qed (use Cons in auto)
qed simp

lemma find_vectors_None:
  assumes "find_vectors p b (quantity_vectors p) [] 0 = Inr (Inr (None, counts, examined))"
  shows "qualified_solutions p b = {}"
proof -
  have "\<not> one_component p b e graph" if good: "is_qualified p b e" for e graph
  proof -
    obtain lots where "lots \<in> set (quantity_vectors p)" "list_ex (\<lambda>n. n \<noteq> 0) lots"
      "evaluate_fixed_portfolio p (vector_quantities (sorted_actions p) lots) b = Inr e"
      using qualified_is_examined[OF good] .
    then show ?thesis
      using find_vectors_correct[OF assms] good by (auto simp: is_qualified_def)
  qed
  then show ?thesis
    by (auto simp: qualified_solutions_def)
qed

lemma solution_profit [simp]:
  "proof_guaranteed_profit_units (payout_proof (solution_of p e graph)) = Some (guaranteed_profit_units e)"
  by (simp add: solution_of_def portfolio_proof_def)

text \<open>C1. The optimum of \<open>solve_optimal\<close> is one: when it reports a feasible portfolio, that portfolio was evaluated
  and passes every qualification, no qualified portfolio that forms one component guarantees a larger profit,
  and the reported bounds both equal its profit with a closed gap.\<close>

theorem solve_optimal_exact:
  assumes "solve_optimal request = Inr r" "business_status r = QUALIFIED_FEASIBLE"
  shows "\<exists>e graph. is_qualified (request_problem request) (request_budget request) e
    \<and> one_component (request_problem request) (request_budget request) e graph
    \<and> result_solution r = Some (solution_of (request_problem request) e graph)
    \<and> optimality_status r = OPTIMAL
    \<and> objective_bounds r = \<lparr>lower_bound_units = Some (guaranteed_profit_units e),
         upper_bound_units = Some (guaranteed_profit_units e), gap_units = Some 0, bounds_closed = True\<rparr>
    \<and> (\<forall>e' graph'. is_qualified (request_problem request) (request_budget request) e' \<longrightarrow>
         one_component (request_problem request) (request_budget request) e' graph' \<longrightarrow>
         guaranteed_profit_units e' \<le> guaranteed_profit_units e)"
proof -
  let ?p = "request_problem request" and ?b = "request_budget request"
  show ?thesis
    using assms(1) unfolding solve_optimal_def
  proof (cases rule: solve_exhaustive_cases)
    case (2 counts best n)
    then obtain s where best: "best = Some s" and r: "r = optimal_result s"
      using assms(2) conclude_search_Inr[OF 2(4)] by (cases best) auto
    have "s \<in> qualified_solutions ?p ?b"
      using search_optimum(1)[OF 2(2)] best by simp
    then obtain e graph where e: "is_qualified ?p ?b e" "one_component ?p ?b e graph" "s = solution_of ?p e graph"
      by (auto simp: qualified_solutions_def)
    have "guaranteed_profit_units e' \<le> guaranteed_profit_units e"
      if "is_qualified ?p ?b e'" "one_component ?p ?b e' graph'" for e' graph'
      using search_optimum(2)[OF 2(2) qualified_solutionsI[OF that]] objective_profit by (auto simp: no_worse_def best e(3))
    then show ?thesis
      using e r by (auto simp: optimal_result_def Let_def)
  qed (use assms(2) in simp)
qed

text \<open>C2. A negative answer of \<open>solve_optimal\<close> is a proof of absence: no portfolio within the quantity ranges
  passes every qualification and forms one component, and the attached proof records that every quantity vector
  of the problem was examined.\<close>

theorem no_qualified_opportunity_exhaustive:
  assumes "solve_optimal request = Inr r" "business_status r = NO_QUALIFIED_OPPORTUNITY"
  shows "(\<forall>e graph. is_qualified (request_problem request) (request_budget request) e \<longrightarrow>
            \<not> one_component (request_problem request) (request_budget request) e graph)
    \<and> (\<exists>pf. negative_proof r = Some pf \<and> result_kind pf = NO_QUALIFIED_OPPORTUNITY_RESULT
         \<and> proof_quantity_vectors_total pf = Some (int (length (quantity_vectors (request_problem request))))
         \<and> proof_quantity_vectors_examined pf = proof_quantity_vectors_total pf)"
  using assms(1) unfolding solve_optimal_def
proof (cases rule: solve_exhaustive_cases)
  case (2 counts best n)
  then have best: "best = None"
    using assms(2) conclude_search_Inr(1)[OF 2(4)] by (cases best) auto
  then have "qualified_solutions (request_problem request) (request_budget request) = {}"
    using search_optimum(2)[OF 2(2)] by (auto simp: no_worse_def)
  then show ?thesis
    using conclude_search_Inr(2)[OF 2(4) best] 2(3) quantity_vector_count_exact[OF 2(3)]
    by (auto dest: qualified_solutionsI)
qed (use assms(2) in simp)

text \<open>C3. The two searches agree where both decide: whenever \<open>solve_optimal\<close> does not end UNKNOWN, \<open>find_qualified\<close> on the same
  problem and budget returns the same business status; the portfolio it admits is a qualified one-component portfolio, and
  its profit is a lower bound of the optimum. Nothing is said when \<open>solve_optimal\<close> ends UNKNOWN: \<open>find_qualified\<close> stops at the
  first qualified portfolio and may then have found one before the limit was reached.\<close>

theorem find_qualified_agrees:
  assumes "solve_optimal request = Inr r" "business_status r \<noteq> BUSINESS_UNKNOWN"
  shows "\<exists>r'. find_qualified (request\<lparr>request_mode := ADMISSION\<rparr>) = Inr r'
    \<and> business_status r' = business_status r
    \<and> (business_status r = QUALIFIED_FEASIBLE \<longrightarrow>
         (\<exists>l u. lower_bound_units (objective_bounds r') = Some l \<and> upper_bound_units (objective_bounds r) = Some u \<and> l \<le> u)
         \<and> (\<exists>e graph. result_solution r' = Some (solution_of (request_problem request) e graph)
              \<and> is_qualified (request_problem request) (request_budget request) e
              \<and> one_component (request_problem request) (request_budget request) e graph))"
  using assms(1) unfolding solve_optimal_def
proof (cases rule: solve_exhaustive_cases)
  case (2 counts best n)
  let ?p = "request_problem request" and ?b = "request_budget request"
  let ?request = "request\<lparr>request_mode := ADMISSION\<rparr>"
  obtain found counts' examined' where find: "find_vectors ?p ?b (quantity_vectors ?p) [] 0 = Inr (Inr (found, counts', examined'))"
    using find_vectors_returns[OF 2(2)] by (metis prod_cases3)
  show ?thesis
  proof (cases found)
    case None
    have "qualified_solutions ?p ?b = {}"
      using find_vectors_None[OF find[unfolded None]] .
    then have "best = None"
      using search_optimum(1)[OF 2(2)] by (cases best) auto
    then show ?thesis
      using conclude_search_Inr(2)[OF 2(4)] find None 2(3) search_reason_mode[OF 2(1), of ADMISSION]
      by (auto simp: find_qualified_def Let_def build_exhaustive_search_proof_def simp del: rbind_Inr_iff)
  next
    case (Some s)
    have s: "s \<in> qualified_solutions ?p ?b"
      using find_vectors_correct[OF find] Some by simp
    then obtain s' where best: "best = Some s'" and worse: "solution_objective s' \<le> solution_objective s"
      using search_optimum(2)[OF 2(2)] by (auto simp: no_worse_def)
    have r: "r = optimal_result s'"
      using conclude_search_Inr(1)[OF 2(4) best] .
    have "s' \<in> qualified_solutions ?p ?b"
      using search_optimum(1)[OF 2(2)] best by simp
    then obtain e e' g g' where sol: "s = solution_of ?p e g" "s' = solution_of ?p e' g'"
      and ok: "is_qualified ?p ?b e" "one_component ?p ?b e g"
      using s by (auto simp: qualified_solutions_def)
    then have "proof_guaranteed_profit_units (payout_proof s) = Some (guaranteed_profit_units e)"
      "proof_guaranteed_profit_units (payout_proof s') = Some (guaranteed_profit_units e')"
      "guaranteed_profit_units e \<le> guaranteed_profit_units e'"
      using worse objective_profit by auto
    moreover have "find_qualified ?request = Inr (admitted_result s)"
      using find Some 2(3) search_reason_mode[OF 2(1), of ADMISSION]
      by (simp add: find_qualified_def Let_def del: rbind_Inr_iff)
    ultimately show ?thesis
      using ok by (simp add: r) (auto simp: admitted_result_def optimal_result_def Let_def sol)
  qed
qed (use assms(2) in simp)

text \<open>C4. The raw arbitrage diagnosis ignores the qualifications and decides profitability itself: \<open>NO_ARBITRAGE\<close>
  is reported only when no portfolio that forms one component guarantees a positive profit, and a feasible
  answer carries a portfolio that does.\<close>

theorem diagnose_raw_arbitrage_exact:
  assumes "diagnose_raw_arbitrage p b = Inr r"
  shows "(business_status r = NO_ARBITRAGE \<longrightarrow>
      (\<forall>qs e graph. evaluate_fixed_portfolio (raw_diagnostic_problem p) qs b = Inr e \<longrightarrow>
         one_component (raw_diagnostic_problem p) b e graph \<longrightarrow> guaranteed_profit_units e \<le> 0))
    \<and> (business_status r = QUALIFIED_FEASIBLE \<longrightarrow>
      (\<exists>e graph. evaluate_fixed_portfolio (raw_diagnostic_problem p) (evaluation_quantities e) b = Inr e
         \<and> one_component (raw_diagnostic_problem p) b e graph \<and> 0 < guaranteed_profit_units e
         \<and> result_solution r = Some (solution_of (raw_diagnostic_problem p) e graph)))"
proof -
  let ?d = "raw_diagnostic_problem p"
  let ?request = "\<lparr>request_schema_version = REQUEST_SCHEMA_V1, request_mode = RAW_ARBITRAGE_DIAGNOSTIC,
                     request_problem = ?d, request_budget = b\<rparr>"
  obtain r0 where r0: "solve_exhaustive ?request RAW_ARBITRAGE_DIAGNOSTIC = Inr r0"
    using assms by (auto simp: diagnose_raw_arbitrage_def Let_def)
  have no_constraints: "is_qualified ?d b e" if "evaluate_fixed_portfolio ?d qs b = Inr e" for qs e
  proof -
    have "failed_qualifications ?d (e\<lparr>failed_qualification_ids := []\<rparr>) = Inr (failed_qualification_ids e)"
      using evaluate_fixed_Inr[OF that] by blast
    then have "failed_qualification_ids e = []"
      by (auto simp: failed_qualifications_def raw_diagnostic_problem_def)
    then show ?thesis
      using evaluated_is_qualified[OF that] by simp
  qed
  have same: "r = r0" if "result_solution r0 = None"
    using assms r0 that by (simp add: diagnose_raw_arbitrage_def Let_def del: rbind_Inr_iff)
  show ?thesis
    using r0
  proof (cases rule: solve_exhaustive_cases)
    case (1 reason)
    then show ?thesis
      using same by simp
  next
    case (2 counts best n)
    show ?thesis
    proof (cases best)
      case None
      then show ?thesis
        using conclude_search_Inr(2)[OF 2(4)] same by auto
    next
      case (Some s)
      have "s \<in> qualified_solutions ?d b"
        using search_optimum(1)[OF 2(2)] Some by simp
      then obtain e graph where e: "is_qualified ?d b e" "one_component ?d b e graph" "s = solution_of ?d e graph"
        by (auto simp: qualified_solutions_def)
      have best: "guaranteed_profit_units e' \<le> guaranteed_profit_units e"
        if "evaluate_fixed_portfolio ?d qs b = Inr e'" "one_component ?d b e' graph'" for qs e' graph'
        using search_optimum(2)[OF 2(2)] qualified_solutionsI[OF no_constraints[OF that(1)] that(2)] objective_profit
        by (fastforce simp: no_worse_def Some e(3))
      have feasible: "r0 = optimal_result s"
        using conclude_search_Inr(1)[OF 2(4) Some] .
      then have r0_fields: "result_solution r0 = Some s" "business_status r0 = QUALIFIED_FEASIBLE"
        by (simp_all add: optimal_result_def Let_def)
      have profit: "proven (proof_guaranteed_profit_units (payout_proof s)) = guaranteed_profit_units e"
        by (simp add: e(3) proven_def)
      show ?thesis
      proof (cases "0 < guaranteed_profit_units e")
        case True
        then have "r = r0"
          using assms r0 r0_fields profit by (simp add: diagnose_raw_arbitrage_def Let_def del: rbind_Inr_iff)
        then show ?thesis
          using True e r0_fields by (auto simp: is_qualified_def)
      next
        case False
        then obtain pf where "r = negative_result NO_ARBITRAGE (objective_bounds r0) pf"
          using assms r0 r0_fields profit by (auto simp: diagnose_raw_arbitrage_def Let_def)
        then show ?thesis
          using False best by fastforce
      qed
    qed
  qed
qed

subsection \<open>The constraints that reach a selection\<close>

inductive_set reached_contracts :: "hyperedges \<Rightarrow> string set \<Rightarrow> string set" for edges seeds where
  seed: "c \<in> seeds \<Longrightarrow> c \<in> reached_contracts edges seeds"
| edge: "(i, cs) \<in> set edges \<Longrightarrow> c' \<in> set cs \<Longrightarrow> c' \<in> reached_contracts edges seeds \<Longrightarrow> c \<in> set cs
    \<Longrightarrow> c \<in> reached_contracts edges seeds"

lemma reached_contracts_least:
  assumes "seeds \<subseteq> R" "\<And>i cs. (i, cs) \<in> set edges \<Longrightarrow> set cs \<inter> R \<noteq> {} \<Longrightarrow> set cs \<subseteq> R"
  shows "reached_contracts edges seeds \<subseteq> R"
proof
  fix c
  assume "c \<in> reached_contracts edges seeds"
  then show "c \<in> R"
    by induction (use assms in blast)+
qed

lemma touching_ids:
  "set (map fst (touching edges reached)) = {i. \<exists>cs. (i, cs) \<in> set edges \<and> set cs \<inter> set reached \<noteq> {}}"
  by (fastforce simp: touching_def image_iff)

text \<open>The \<open>while True\<close> loop of the support graph ends, and leaves exactly the constraints that touch a contract
  reachable from the selected ones through shared constraints.\<close>

theorem support_closure_exact:
  "set (support_closure edges [] seeds)
     = {i. \<exists>cs. (i, cs) \<in> set edges \<and> set cs \<inter> reached_contracts edges (set seeds) \<noteq> {}}"
proof -
  have "set (support_closure edges relevant reached)
      = {i. \<exists>cs. (i, cs) \<in> set edges \<and> set cs \<inter> reached_contracts edges S \<noteq> {}}"
    if "S \<subseteq> set reached" "set reached \<subseteq> reached_contracts edges S" for relevant reached S
    using that
  proof (induction edges relevant reached rule: support_closure.induct)
    case (1 edges relevant reached)
    let ?newly = "touching edges reached"
    let ?expanded = "remdups (reached @ concat (map snd ?newly))"
    have grow: "S \<subseteq> set ?expanded" "set ?expanded \<subseteq> reached_contracts edges S"
      using "1.prems" by (auto simp: touching_def intro: reached_contracts.edge)
    show ?case
    proof (cases "set (map fst ?newly) = set relevant \<and> set ?expanded = set reached")
      case True
      have "set cs \<subseteq> set reached" if "(i, cs) \<in> set edges" "set cs \<inter> set reached \<noteq> {}" for i cs
        using True that by (force simp: touching_def)
      then have "reached_contracts edges S \<subseteq> set reached"
        using "1.prems"(1) by (rule reached_contracts_least[rotated])
      then have "reached_contracts edges S = set reached"
        using "1.prems"(2) by blast
      moreover have "support_closure edges relevant reached = relevant"
        using True by (subst support_closure.simps) (simp add: Let_def)
      ultimately show ?thesis
        using True touching_ids[of edges reached] by simp
    next
      case False
      then show ?thesis
        using "1.IH"[OF refl refl False grow] by (subst support_closure.simps) (simp only: Let_def if_False)
    qed
  qed
  from this[of "set seeds" seeds] show ?thesis
    by (auto intro: reached_contracts.seed)
qed

subsection \<open>A search run to its end\<close>

text \<open>
  The smallest searched problem: one lot of one contract that settles one way, bought below its payout,
  with qualifications to choose.
\<close>

definition tiny_action :: CandidateAction where
  "tiny_action = (sample_action ''a'' ''A'' BUY_YES [sample_slice 1 1 900000])\<lparr>max_quantity_lots := 1\<rparr>"

definition tiny_state :: TerminalStateSet where
  "tiny_state = \<lparr>state_contract_id = ''A'', state_observation_key = sample_key, state_rule_version = ''v1'',
     atoms = [sample_atom ''a1'' NORMAL_YES ''a'' 1000000 5000000]\<rparr>"

definition tiny_with :: "string \<Rightarrow> QualificationConstraint list \<Rightarrow> ArbitrageProblem" where
  "tiny_with i qs = \<lparr>schema_version = PROBLEM_SCHEMA_V1, problem_id = i, as_of = 0,
     problem_valuation_unit_id = ''usd-micro'', actions = [tiny_action], terminal_state_sets = [tiny_state],
     constraint_model = \<lparr>relations = [], forbidden_atom_combinations = []\<rparr>,
     qualification_constraints = qs\<rparr>"

definition tiny_quantities :: "ActionQuantity list" where
  "tiny_quantities = [\<lparr>quantity_action_id = ''a'', quantity_lots = 1\<rparr>]"

lemma tiny_wf:
  assumes "\<not> blank i" "distinct (map qualification_id qs)" "\<forall>q \<in> set qs. wf_qualification q"
  shows "wf_problem (tiny_with i qs)"
proof -
  have act: "wf_action ''usd-micro'' tiny_action"
    using sample_wf_key by (simp add: wf_action_def tiny_action_def sample_action_def sample_slice_def int64_defs
        blank_def py_space_def) (simp add: sample_key_def)
  have state: "wf_state_set (tiny_with i qs) tiny_state"
    using sample_wf_key by (simp add: wf_state_set_def wf_atom_def contract_actions_def tiny_with_def tiny_state_def
        sample_atom_def tiny_action_def sample_action_def int64_defs blank_def py_space_def)
  show ?thesis
    using act state assms
    by (simp add: wf_problem_def)
      (simp add: tiny_with_def tiny_state_def sample_atom_def tiny_action_def sample_action_def blank_def py_space_def)
qed

lemma tiny_selected: "selected_quantities (tiny_with i qs) tiny_quantities = Inr tiny_quantities"
  by (simp add: selected_quantities_def select_quantity_def actions_by_id_def last_wins_def tiny_quantities_def
     tiny_with_def tiny_action_def sample_action_def INT64_MAX_def del: rbind_Inr_iff)

abbreviation (input) tiny_atom where "tiny_atom \<equiv> sample_atom ''a1'' NORMAL_YES ''a'' 1000000 5000000"

definition tiny_scenario :: SettlementScenario where
  "tiny_scenario = \<lparr>scenario_atoms = [\<lparr>selected_contract_id = ''A'', selected_atom_id = ''a1''\<rparr>]\<rparr>"

definition tiny_cut :: WorstStateCut where
  "tiny_cut = \<lparr>cut_id = ''cut:'' @ fingerprint (scenario_payload tiny_scenario), cut_scenario = tiny_scenario,
     payout_per_lot = [\<lparr>payout_action_id = ''a'', payout_lower_bound_per_lot_units = 1000000\<rparr>]\<rparr>"

definition tiny_evaluation :: "string list \<Rightarrow> PortfolioEvaluation" where
  "tiny_evaluation failed =
     \<lparr>evaluation_quantities = tiny_quantities, payout_lower_bound_units = 1000000,
      cost_upper_bound_units = 900000, guaranteed_profit_units = 100000, worst_scenario = tiny_scenario,
      worst_state_cut = tiny_cut, conservative_capital_release_at = Some 5000000,
      failed_qualification_ids = failed, time_qualification = ''KNOWN''\<rparr>"

definition tiny_graph :: SelectedSupportGraph where
  "tiny_graph = \<lparr>support_action_ids = [''a''], support_contract_ids = [''A''], support_constraint_ids = [], hyperedges = []\<rparr>"

lemmas tiny_defs = tiny_with_def tiny_action_def sample_action_def tiny_state_def sample_slice_def
  tiny_quantities_def tiny_scenario_def

lemma tiny_enumeration:
  assumes "wf_problem (tiny_with i qs)"
  shows "enumerate_scenarios False (tiny_with i qs) sample_budget = Inr
    \<lparr>scenarios = Some [tiny_scenario], raw_joint_state_count = 1, enumeration_unknown_reason = None\<rparr>"
proof -
  have states: "sorted_states (tiny_with i qs) = [tiny_state]" "atoms tiny_state = [tiny_atom]"
    "relations (constraint_model (tiny_with i qs)) = []" "forbidden_atom_combinations (constraint_model (tiny_with i qs)) = []"
    by (simp_all add: sorted_states_def tiny_with_def tiny_state_def)
  have "joint_states (tiny_with i qs) = [[tiny_atom]]"
    by (simp add: joint_states_def states)
  moreover have "joint_allowed (tiny_with i qs) as = Inr True" for as
    by (simp add: joint_allowed_def violates_normal_relation_def violates_forbidden_def states del: rbind_Inr_iff)
  moreover have "scenario_of (tiny_with i qs) [tiny_atom] = tiny_scenario"
    by (simp add: scenario_of_def states tiny_scenario_def) (simp add: tiny_state_def sample_atom_def)
  ultimately show ?thesis
    by (simp add: enumerate_scenarios_def assms states checked_multiply_def checked_def int64_defs
        sample_budget_def del: rbind_Inr_iff)
qed

lemma tiny_cut_of: "cut_from_scenario_unchecked (tiny_with i qs) tiny_scenario = Inr tiny_cut"
  by (simp add: cut_from_scenario_unchecked_def cut_atom_def tiny_cut_def last_wins_def tiny_with_def tiny_state_def
      sample_atom_def Let_def del: rbind_Inr_iff) (simp add: tiny_scenario_def)

lemma tiny_payout:
  "worst_of (tiny_with i qs) (lots_of tiny_quantities) [tiny_scenario] = Inr (1000000, tiny_scenario)"
  by (simp add: worst_of_def keep_worst_def scenario_payout_def tiny_cut_of Let_def del: rbind_Inr_iff)
    (simp add: tiny_cut_def add_payout_def lots_of_def last_wins_def tiny_quantities_def checked_multiply_def
      checked_add_def checked_def int64_defs del: rbind_Inr_iff)

lemma tiny_release: "selected_releases (tiny_with i qs) tiny_quantities [tiny_scenario] = Inr [Some 5000000]"
proof -
  have "selected_contracts (tiny_with i qs) tiny_quantities = {''A''}"
  proof -
    have ids: "actions (tiny_with i qs) = [tiny_action]" "action_id tiny_action = ''a''" "market_contract_id tiny_action = ''A''"
      by (simp_all add: tiny_with_def tiny_action_def sample_action_def)
    then have "{a \<in> set (actions (tiny_with i qs)). action_id a \<in> quantity_action_id ` set tiny_quantities} = {tiny_action}"
      by (auto simp: tiny_quantities_def)
    then show ?thesis
      by (simp add: selected_contracts_def ids)
  qed
  then show ?thesis
    by (simp add: selected_releases_def atom_of_selection_def states_by_contract_def atoms_by_id_def
        lookup_or_key_error_def last_wins_def tiny_defs sample_atom_def del: rbind_Inr_iff)
qed

lemma tiny_cost: "cost_upper_bound_for_selected (tiny_with i qs) tiny_quantities = Inr 900000"
  by (simp add: cost_upper_bound_for_selected_def quantity_cost_def actions_by_id_def lookup_or_key_error_def last_wins_def
      tiny_defs checked_multiply_def checked_add_def checked_subtract_def checked_def int64_defs del: rbind_Inr_iff)

lemma tiny_evaluates:
  assumes "wf_problem (tiny_with i qs)" "failed_qualifications (tiny_with i qs) (tiny_evaluation []) = Inr failed"
  shows "evaluate_fixed_portfolio (tiny_with i qs) tiny_quantities sample_budget = Inr (tiny_evaluation failed)"
  using assms(2)
  by (simp add: evaluate_fixed_portfolio_def evaluate_portfolio_def assms(1) tiny_selected tiny_enumeration[OF assms(1)]
      tiny_payout tiny_release tiny_cost tiny_cut_of conservative_release_def checked_subtract_def checked_def int64_defs
      Let_def tiny_evaluation_def del: rbind_Inr_iff) (simp add: tiny_quantities_def)

lemma support_closure_no_edges: "support_closure [] [] reached = []"
  by (subst support_closure.simps) (simp add: touching_def)

lemma tiny_support:
  assumes "wf_problem (tiny_with i qs)"
  shows "derive_selected_support_graph (tiny_with i qs) (tiny_evaluation failed) sample_budget = Inr (Inr tiny_graph)"
proof -
  have "require_valid (tiny_with i qs) = Inr ()"
    using assms by simp
  moreover have "all_constraint_ids (tiny_with i qs) = []"
    by (simp add: all_constraint_ids_def tiny_with_def)
  ultimately show ?thesis
    by (simp add: derive_selected_support_graph_def hyperedges_of_def support_closure_no_edges Let_def del: rbind_Inr_iff)
      (simp add: tiny_defs tiny_evaluation_def tiny_graph_def)
qed

lemma tiny_split: "split_disconnected_solution (tiny_with i qs) (tiny_evaluation failed) tiny_graph = Inr [tiny_quantities]"
  by (simp add: split_disconnected_solution_def action_contract_def actions_by_id_def last_wins_def lookup_or_key_error_def
     tiny_evaluation_def tiny_graph_def tiny_defs identity_forest_def find_root_def parent_of_def append_group_def Let_def
     del: rbind_Inr_iff)

lemma tiny_solution:
  assumes "wf_problem (tiny_with i qs)"
  shows "build_portfolio_solution (tiny_with i qs) (tiny_evaluation failed) tiny_graph
    = Inr (solution_of (tiny_with i qs) (tiny_evaluation failed) tiny_graph)"
proof -
  have valid: "require_valid (tiny_with i qs) = Inr ()"
    using assms by simp
  have payout: "proof_payout tiny_cut tiny_quantities = Inr 1000000"
    by (simp add: proof_payout_def tiny_cut_def tiny_quantities_def last_wins_def lookup_or_key_error_def checked_multiply_def
        checked_add_def checked_def int64_defs Let_def del: rbind_Inr_iff)
  have release: "worst_release (tiny_with i qs) tiny_quantities tiny_scenario = Inr 5000000"
    by (simp add: worst_release_def tiny_release conservative_release_def del: rbind_Inr_iff)
  have mismatch: "evaluation_mismatch (tiny_with i qs) (tiny_evaluation failed) tiny_cut 1000000 5000000 = Inr False"
    by (simp add: evaluation_mismatch_def tiny_evaluation_def checked_subtract_def checked_def int64_defs tiny_with_def
        del: rbind_Inr_iff)
  have fields: "evaluation_quantities (tiny_evaluation failed) = tiny_quantities" "worst_scenario (tiny_evaluation failed) = tiny_scenario"
    "cost_upper_bound_units (tiny_evaluation failed) = 900000" "support_action_ids tiny_graph = map quantity_action_id tiny_quantities"
    by (simp_all add: tiny_evaluation_def tiny_graph_def tiny_quantities_def)
  show ?thesis
    by (simp add: build_portfolio_solution_def valid tiny_selected tiny_split tiny_cost cut_from_scenario_def tiny_cut_of payout release
        mismatch fields solution_of_def del: rbind_Inr_iff)
qed

lemma tiny_connected:
  assumes "wf_problem (tiny_with i qs)"
  shows "connected_qualified_solutions (tiny_with i qs) (tiny_evaluation failed) sample_budget rej
    = Inr (Inr ([solution_of (tiny_with i qs) (tiny_evaluation failed) tiny_graph], rej))"
  by (subst connected_qualified_solutions.simps)
    (simp add: tiny_support[OF assms] tiny_split tiny_solution[OF assms] del: rbind_Inr_iff)

lemma tiny_vectors: "quantity_vectors (tiny_with i qs) = [[0], [1]]"
  "vector_quantities (sorted_actions (tiny_with i qs)) [1] = tiny_quantities"
  by (simp_all add: quantity_vectors_def quantity_ranges_def sorted_actions_def vector_quantities_def tiny_defs upto_rec1)

lemma tiny_count:
  assumes "wf_problem (tiny_with i qs)"
  shows "quantity_vector_count (tiny_with i qs) = Inr 2" "joint_states_product (tiny_with i qs) = Inr 1"
proof -
  have valid: "require_valid (tiny_with i qs) = Inr ()"
    using assms by simp
  show "quantity_vector_count (tiny_with i qs) = Inr 2"
    by (simp add: quantity_vector_count_def valid del: rbind_Inr_iff)
      (simp add: tiny_defs checked_subtract_def checked_add_def checked_multiply_def checked_def int64_defs del: rbind_Inr_iff)
  show "joint_states_product (tiny_with i qs) = Inr 1"
    by (simp add: joint_states_product_def checked_product_def tiny_defs checked_multiply_def checked_def int64_defs
        del: rbind_Inr_iff)
qed

definition tiny_request :: "SearchMode \<Rightarrow> ArbitrageProblem \<Rightarrow> OracleRequest" where
  "tiny_request mode p = \<lparr>request_schema_version = REQUEST_SCHEMA_V1, request_mode = mode,
     request_problem = p, request_budget = sample_budget\<rparr>"

lemma tiny_admissible:
  assumes "wf_problem (tiny_with i qs)" "failed_qualifications (tiny_with i qs) (tiny_evaluation []) = Inr failed"
  shows "search_request_unknown_reason (tiny_request mode (tiny_with i qs)) mode = Inr None"
proof -
  have valid: "validate_problem (tiny_with i qs) = []"
    using assms(1) by (simp add: validate_problem_Nil_iff)
  have "input_unknown_reason (tiny_with i qs) = None"
    by (simp add: input_unknown_reason_def valid Let_def) (simp add: tiny_defs)
  moreover have "numeric_domain_preflight (tiny_with i qs) sample_budget = Inr ()"
    by (simp add: numeric_domain_preflight_def tiny_vectors tiny_evaluates[OF assms] del: rbind_Inr_iff)
  ultimately show ?thesis
    by (simp add: search_request_unknown_reason_def tiny_request_def Let_def enumerate_allowed_scenarios_def
        tiny_count(1)[OF assms(1)] tiny_enumeration[OF assms(1)] del: rbind_Inr_iff) (simp add: sample_budget_def)
qed

lemma tiny_solved:
  assumes "wf_problem (tiny_with i qs)" "failed_qualifications (tiny_with i qs) (tiny_evaluation []) = Inr failed"
  shows "\<exists>r. solve_exhaustive (tiny_request mode (tiny_with i qs)) mode = Inr r
    \<and> business_status r = (if failed = [] then QUALIFIED_FEASIBLE else NO_QUALIFIED_OPPORTUNITY)
    \<and> result_solution r = (if failed = [] then Some (solution_of (tiny_with i qs) (tiny_evaluation []) tiny_graph) else None)"
proof -
  have "failed_qualification_ids (tiny_evaluation failed) = failed"
    by (simp add: tiny_evaluation_def)
  then have "\<exists>counts. solve_vectors (tiny_with i qs) sample_budget (quantity_vectors (tiny_with i qs)) [] None 0
    = Inr (Inr (counts, if failed = [] then Some (solution_of (tiny_with i qs) (tiny_evaluation []) tiny_graph) else None, 2))"
    by (simp add: tiny_vectors tiny_evaluates[OF assms] tiny_connected[OF assms(1)] better_def del: rbind_Inr_iff)
  then obtain counts where "solve_vectors (tiny_with i qs) sample_budget (quantity_vectors (tiny_with i qs)) [] None 0
    = Inr (Inr (counts, if failed = [] then Some (solution_of (tiny_with i qs) (tiny_evaluation []) tiny_graph) else None, 2))"
    by blast
  moreover have "request_problem (tiny_request mode (tiny_with i qs)) = tiny_with i qs"
    "request_budget (tiny_request mode (tiny_with i qs)) = sample_budget"
    by (simp_all add: tiny_request_def)
  ultimately show ?thesis
    by (auto simp: solve_exhaustive_def tiny_admissible[OF assms] Let_def conclude_search_def
        tiny_count[OF assms(1)] build_exhaustive_search_proof_def simp del: rbind_Inr_iff)
      (simp add: optimal_result_def Let_def)
qed

text \<open>The threshold decides: a profit of 100000 is asked for and met, or one unit more is.\<close>

definition tiny_threshold :: "int \<Rightarrow> QualificationConstraint" where
  "tiny_threshold n = \<lparr>qualification_id = ''q1'', qualification_rule_version = ''v1'',
     metric = GUARANTEED_PROFIT_UNITS, comparison = GREATER_THAN_OR_EQUAL, threshold_numerator = n,
     threshold_denominator = 1\<rparr>"

lemma tiny_threshold_failed:
  "failed_qualifications (tiny_with i [tiny_threshold n]) (tiny_evaluation [])
     = Inr (if n \<le> 100000 then [] else [''q1''])"
  by (simp add: failed_qualifications_def tiny_with_def tiny_threshold_def tiny_evaluation_def qualification_passes_def
      compare_sides_def time_constrained_def checked_multiply_def checked_def int64_defs del: rbind_Inr_iff)

lemma tiny_threshold_wf: "in_int64 n \<Longrightarrow> wf_problem (tiny_with ''p1'' [tiny_threshold n])"
  by (rule tiny_wf) (simp_all add: tiny_threshold_def wf_qualification_def blank_def py_space_def int64_defs)

abbreviation tiny_problem :: "int \<Rightarrow> ArbitrageProblem" where
  "tiny_problem n \<equiv> tiny_with ''p1'' [tiny_threshold n]"

lemma tiny_optimal:
  assumes "in_int64 n"
  shows "\<exists>r. solve_optimal (tiny_request OPTIMIZATION (tiny_problem n)) = Inr r
    \<and> business_status r = (if n \<le> 100000 then QUALIFIED_FEASIBLE else NO_QUALIFIED_OPPORTUNITY)"
  using tiny_solved[OF tiny_threshold_wf[OF assms] tiny_threshold_failed, of OPTIMIZATION]
  by (auto simp: solve_optimal_def split: if_splits)

theorem solve_optimal_exact_witness:
  "\<exists>r e graph. solve_optimal (tiny_request OPTIMIZATION (tiny_problem 100000)) = Inr r
     \<and> is_qualified (tiny_problem 100000) sample_budget e \<and> result_solution r = Some (solution_of (tiny_problem 100000) e graph)
     \<and> optimality_status r = OPTIMAL"
  using tiny_optimal[of 100000] solve_optimal_exact[of "tiny_request OPTIMIZATION (tiny_problem 100000)"]
  by (fastforce simp: int64_defs tiny_request_def)

theorem no_qualified_opportunity_exhaustive_witness:
  "\<exists>r pf. solve_optimal (tiny_request OPTIMIZATION (tiny_problem 100001)) = Inr r \<and> negative_proof r = Some pf
     \<and> proof_quantity_vectors_total pf = Some 2 \<and> proof_quantity_vectors_examined pf = Some 2
     \<and> (\<forall>e graph. is_qualified (tiny_problem 100001) sample_budget e \<longrightarrow>
           \<not> one_component (tiny_problem 100001) sample_budget e graph)"
  using tiny_optimal[of 100001] no_qualified_opportunity_exhaustive[of "tiny_request OPTIMIZATION (tiny_problem 100001)"]
  by (fastforce simp: int64_defs tiny_request_def tiny_vectors)

theorem find_qualified_agrees_witness:
  "\<exists>r. find_qualified (tiny_request ADMISSION (tiny_problem 100000)) = Inr r \<and> business_status r = QUALIFIED_FEASIBLE"
  using tiny_optimal[of 100000] find_qualified_agrees[of "tiny_request OPTIMIZATION (tiny_problem 100000)"]
  by (fastforce simp: int64_defs tiny_request_def)

lemma tiny_raw: "raw_diagnostic_problem (tiny_problem n) = tiny_with ''p1:raw-arbitrage-diagnostic'' []"
  by (simp add: raw_diagnostic_problem_def tiny_with_def)

lemma tiny_raw_diagnosis:
  "\<exists>r. diagnose_raw_arbitrage (tiny_problem n) sample_budget = Inr r \<and> business_status r = QUALIFIED_FEASIBLE"
proof -
  let ?d = "tiny_with ''p1:raw-arbitrage-diagnostic'' []"
  have wf: "wf_problem ?d"
    by (rule tiny_wf) (simp_all add: blank_def py_space_def)
  have none: "failed_qualifications ?d (tiny_evaluation []) = Inr []"
    by (simp add: failed_qualifications_def tiny_with_def)
  obtain r where "solve_exhaustive (tiny_request RAW_ARBITRAGE_DIAGNOSTIC ?d) RAW_ARBITRAGE_DIAGNOSTIC = Inr r"
    "business_status r = QUALIFIED_FEASIBLE" "result_solution r = Some (solution_of ?d (tiny_evaluation []) tiny_graph)"
    using tiny_solved[OF wf none, of RAW_ARBITRAGE_DIAGNOSTIC] by auto
  then show ?thesis
    by (simp add: diagnose_raw_arbitrage_def tiny_raw Let_def tiny_request_def proven_def del: rbind_Inr_iff)
      (simp add: tiny_evaluation_def)
qed

theorem diagnose_raw_arbitrage_exact_witness:
  "\<exists>r e graph. diagnose_raw_arbitrage (tiny_problem 500000) sample_budget = Inr r \<and> 0 < guaranteed_profit_units e
     \<and> result_solution r = Some (solution_of (raw_diagnostic_problem (tiny_problem 500000)) e graph)"
  using tiny_raw_diagnosis[of 500000] diagnose_raw_arbitrage_exact[of "tiny_problem 500000" sample_budget] by blast

end
