(* ===== verification/Decimal_Text.thy ===== *)
theory Decimal_Text
  imports Py_Prelude
begin

section \<open>Decimal numbers as text\<close>

text \<open>
  What the N-leg code uses of Python's \<open>decimal\<close> as text: \<open>Decimal(text)\<close>, \<open>str\<close>, \<open>format(d, "f")\<close>,
  \<open>is_finite\<close> and comparison. A finite decimal is a sign, a coefficient and an exponent, kept as written (\<open>1.0\<close> and
  \<open>1.00\<close> differ as values of the type and are equal as numbers). Text is parsed by the grammar of the
  library: surrounding white space and underscores are dropped, then an optional sign, a number with at
  least one digit and an optional exponent, or an infinity, or a not-a-number. \<open>str\<close> writes scientific
  notation exactly when the exponent is positive or the number has more than six leading zeros.
\<close>

datatype decimal = Finite bool nat int | NonFinite string

fun is_finite :: "decimal \<Rightarrow> bool" where
  "is_finite (Finite negative c e) = True"
| "is_finite (NonFinite name) = False"

definition is_digit :: "char \<Rightarrow> bool" where
  "is_digit ch \<longleftrightarrow> (let n = of_char ch :: nat in 48 \<le> n \<and> n \<le> 57)"

definition digit_value :: "char \<Rightarrow> nat" where
  "digit_value ch = of_char ch - 48"

definition number_of_digits :: "string \<Rightarrow> nat" where
  "number_of_digits s = fold (\<lambda>ch n. 10 * n + digit_value ch) s 0"

definition lower_ascii :: "char \<Rightarrow> char" where
  "lower_ascii ch = (let n = of_char ch :: nat in if 65 \<le> n \<and> n \<le> 90 then char_of (n + 32) else ch)"

definition strip_text :: "string \<Rightarrow> string" where
  "strip_text s = rev (dropWhile py_space (rev (dropWhile py_space s)))"

definition split_sign :: "string \<Rightarrow> bool \<times> string" where
  "split_sign s =
     (case s of
        ch # rest \<Rightarrow> if ch = CHR ''-'' then (True, rest) else if ch = CHR ''+'' then (False, rest) else (False, s)
      | [] \<Rightarrow> (False, s))"

text \<open>The optional exponent part: nothing, or \<open>E\<close>, an optional sign and at least one digit.\<close>

definition parse_exponent :: "string \<Rightarrow> int option" where
  "parse_exponent s =
     (case s of
        [] \<Rightarrow> Some 0
      | ch # rest \<Rightarrow>
          if lower_ascii ch \<noteq> CHR ''e'' then None
          else
            let (negative, digits) = split_sign rest in
            if digits = [] \<or> \<not> list_all is_digit digits then None
            else Some (if negative then - int (number_of_digits digits) else int (number_of_digits digits)))"

definition parse_number :: "bool \<Rightarrow> string \<Rightarrow> decimal option" where
  "parse_number negative s =
     (let whole = takeWhile is_digit s;
          rest = dropWhile is_digit s;
          point = (case rest of ch # _ \<Rightarrow> ch = CHR ''.'' | [] \<Rightarrow> False);
          frac = (if point then takeWhile is_digit (tl rest) else []);
          tail = (if point then dropWhile is_digit (tl rest) else rest)
      in
      if whole = [] \<and> frac = [] then None
      else
        case parse_exponent tail of
          None \<Rightarrow> None
        | Some e \<Rightarrow> Some (Finite negative (number_of_digits (whole @ frac)) (e - int (length frac))))"

definition special_name :: "string \<Rightarrow> bool" where
  "special_name s \<longleftrightarrow>
     (let t = map lower_ascii s;
          nan = (if take 1 t = ''s'' then tl t else t)
      in t = ''inf'' \<or> t = ''infinity'' \<or> (take 3 nan = ''nan'' \<and> list_all is_digit (drop 3 nan)))"

text \<open>How the library prints a special value: \<open>Infinity\<close>, or \<open>NaN\<close> or \<open>sNaN\<close> with the payload without leading zeros.\<close>

definition special_text :: "string \<Rightarrow> string" where
  "special_text s =
     (let t = map lower_ascii s;
          signalling = (take 1 t = ''s'')
      in
      if take 1 t = ''i'' then ''Infinity''
      else (if signalling then ''sNaN'' else ''NaN'') @ dropWhile (\<lambda>ch. ch = CHR ''0'') (drop (if signalling then 4 else 3) t))"

definition parse_decimal :: "string \<Rightarrow> decimal option" where
  "parse_decimal text =
     (let (negative, body) = split_sign (filter (\<lambda>ch. ch \<noteq> CHR ''_'') (strip_text text)) in
      if special_name body then Some (NonFinite ((if negative then ''-'' else []) @ special_text body)) else parse_number negative body)"

fun decimal_value :: "decimal \<Rightarrow> rat" where
  "decimal_value (Finite negative c e) =
     (if negative then - 1 else 1) * of_nat c * (if 0 \<le> e then 10 ^ nat e else 1 / 10 ^ nat (- e))"
| "decimal_value (NonFinite name) = 0"

definition signed_text :: "int \<Rightarrow> string" where
  "signed_text i = (if i < 0 then string_of_int i else ''+'' @ string_of_int i)"

fun decimal_str :: "decimal \<Rightarrow> string" where
  "decimal_str (Finite negative c e) =
     (let digits = string_of_nat c;
          n = int (length digits);
          leftdigits = e + n;
          dotplace = (if e \<le> 0 \<and> leftdigits > - 6 then leftdigits else 1);
          number =
            (if dotplace \<le> 0 then ''0.'' @ replicate (nat (- dotplace)) (CHR ''0'') @ digits
             else if dotplace \<ge> n then digits @ replicate (nat (dotplace - n)) (CHR ''0'')
             else take (nat dotplace) digits @ ''.'' @ drop (nat dotplace) digits);
          exponent = (if leftdigits = dotplace then [] else ''E'' @ signed_text (leftdigits - dotplace))
      in (if negative then ''-'' else []) @ number @ exponent)"
| "decimal_str (NonFinite name) = name"

text \<open>\<open>format(d, "f")\<close>: no exponent; a zero with a positive exponent is written \<open>0\<close>.\<close>

fun decimal_fixed :: "decimal \<Rightarrow> string" where
  "decimal_fixed (Finite negative c e) =
     (let digits = string_of_nat c;
          n = int (length digits);
          dotplace = (if c = 0 \<and> 0 < e then 0 else e) + n;
          whole =
            (if dotplace \<le> 0 then ''0''
             else if n < dotplace then digits @ replicate (nat (dotplace - n)) (CHR ''0'')
             else take (nat dotplace) digits);
          frac =
            (if dotplace < 0 then replicate (nat (- dotplace)) (CHR ''0'') @ digits else drop (nat dotplace) digits)
      in (if negative then ''-'' else []) @ whole @ (if frac = [] then [] else ''.'' @ frac))"
| "decimal_fixed (NonFinite name) = name"


subsection \<open>Printing and parsing\<close>

lemma digit_char: "n < 10 \<Longrightarrow> is_digit (char_of (48 + n)) \<and> digit_value (char_of (48 + n)) = n"
  by (simp add: is_digit_def digit_value_def)

lemma string_of_nat_digits: "list_all is_digit (string_of_nat n)"
  by (induction n rule: string_of_nat.induct) (subst string_of_nat.simps, simp add: digit_char)

lemma string_of_nat_nonempty [simp]: "string_of_nat n \<noteq> []"
  by (subst string_of_nat.simps) simp

lemma number_of_digits_append:
  "number_of_digits (xs @ ys) = number_of_digits xs * 10 ^ length ys + number_of_digits ys"
proof (induction ys rule: rev_induct)
  case (snoc y ys)
  have "number_of_digits (zs @ [y]) = 10 * number_of_digits zs + digit_value y" for zs
    by (simp add: number_of_digits_def)
  then show ?case
    using snoc by (simp flip: append_assoc add: algebra_simps)
qed (simp add: number_of_digits_def)

lemma number_of_digits_string_of_nat: "number_of_digits (string_of_nat n) = n"
proof (induction n rule: string_of_nat.induct)
  case (1 n)
  show ?case
  proof (cases "n < 10")
    case True
    then show ?thesis
      by (subst string_of_nat.simps) (simp add: number_of_digits_def digit_char)
  next
    case False
    then show ?thesis
      using "1.IH" digit_char[of "n mod 10"]
      by (subst string_of_nat.simps) (simp add: number_of_digits_append, simp add: number_of_digits_def)
  qed
qed

lemma number_of_zeros: "number_of_digits (replicate k (CHR ''0'')) = 0"
  by (induction k) (simp_all add: number_of_digits_def digit_value_def)

lemma not_digit [simp]: "\<not> is_digit (CHR ''.'')" "\<not> is_digit (CHR ''E'')" "\<not> is_digit (CHR ''-'')" "\<not> is_digit (CHR ''+'')"
  "\<not> is_digit (CHR ''_'')" "is_digit (CHR ''0'')"
  by (simp_all add: is_digit_def)

lemma digit_first: "is_digit ch \<Longrightarrow> ch \<notin> {CHR ''-'', CHR ''+'', CHR ''_'', CHR ''.'', CHR ''E''} \<and> \<not> py_space ch
    \<and> lower_ascii ch = ch \<and> ch \<notin> {CHR ''i'', CHR ''n'', CHR ''s''}"
  by (auto simp: is_digit_def py_space_def lower_ascii_def Let_def)

lemma parse_exponent_text: "parse_exponent (''E'' @ signed_text k) = Some k"
proof -
  obtain ch rest where digits: "string_of_nat (nat \<bar>k\<bar>) = ch # rest"
    by (cases "string_of_nat (nat \<bar>k\<bar>)") auto
  then have "is_digit ch"
    using string_of_nat_digits[of "nat \<bar>k\<bar>"] by simp
  then have "split_sign (signed_text k) = (k < 0, string_of_nat (nat \<bar>k\<bar>))"
    by (simp add: split_sign_def signed_text_def string_of_int_def)
  moreover have "lower_ascii (CHR ''E'') = CHR ''e''"
    by code_simp
  ultimately show ?thesis
    using string_of_nat_digits[of "nat \<bar>k\<bar>"]
    by (auto simp: parse_exponent_def number_of_digits_string_of_nat)
qed

lemma takeWhile_digits:
  "list_all is_digit w \<Longrightarrow> takeWhile is_digit (w @ s) = w @ takeWhile is_digit s"
  "list_all is_digit w \<Longrightarrow> dropWhile is_digit (w @ s) = dropWhile is_digit s"
  by (induction w) auto

text \<open>The three shapes of a printed number, parsed.\<close>

lemma parse_number_text:
  assumes "list_all is_digit w" "list_all is_digit f" "w \<noteq> []" "tail = [] \<and> k = 0 \<or> tail = ''E'' @ signed_text k"
  shows "parse_number negative (w @ tail) = Some (Finite negative (number_of_digits w) k)"
    and "parse_number negative (w @ ''.'' @ f @ tail)
      = Some (Finite negative (number_of_digits (w @ f)) (k - int (length f)))"
proof -
  have tail: "takeWhile is_digit tail = []" "dropWhile is_digit tail = tail" "parse_exponent tail = Some k"
    using assms(4) parse_exponent_text[of k] by (auto simp: parse_exponent_def)
  have no_point: "(case tail of ch # _ \<Rightarrow> ch = CHR ''.'' | [] \<Rightarrow> False) = False"
    using assms(4) by auto
  show "parse_number negative (w @ tail) = Some (Finite negative (number_of_digits w) k)"
    using assms(1,3) tail no_point by (simp add: parse_number_def takeWhile_digits Let_def)
  show "parse_number negative (w @ ''.'' @ f @ tail)
      = Some (Finite negative (number_of_digits (w @ f)) (k - int (length f)))"
    using assms(1,2,3) tail by (simp add: parse_number_def takeWhile_digits Let_def)
qed

definition plain_char :: "char \<Rightarrow> bool" where
  "plain_char ch \<longleftrightarrow> \<not> py_space ch \<and> ch \<noteq> CHR ''_''"

lemma strip_plain: "list_all plain_char s \<Longrightarrow> filter (\<lambda>ch. ch \<noteq> CHR ''_'') (strip_text s) = s"
proof -
  assume plain: "list_all plain_char s"
  have keep: "dropWhile py_space t = t" if "list_all plain_char t" for t
    using that by (cases t) (auto simp: plain_char_def)
  have "strip_text s = s"
    using plain by (simp add: strip_text_def keep)
  then show ?thesis
    using plain by (simp add: filter_id_conv list_all_iff plain_char_def)
qed

lemma plain_digits: "list_all is_digit s \<Longrightarrow> list_all plain_char s"
  using digit_first by (auto simp: list_all_iff plain_char_def)

lemma plain_signed_text: "list_all plain_char (signed_text k)"
  using plain_digits[OF string_of_nat_digits]
  by (auto simp: signed_text_def string_of_int_def) (auto simp: plain_char_def py_space_def)

lemma parse_plain:
  assumes "list_all plain_char (w @ rest)" "list_all is_digit w" "w \<noteq> []"
  shows "parse_decimal ((if negative then ''-'' else []) @ w @ rest) = parse_number negative (w @ rest)"
proof -
  obtain ch w' where w: "w = ch # w'" "is_digit ch"
    using assms(2,3) by (cases w) auto
  have "list_all plain_char ((if negative then ''-'' else []) @ w @ rest)"
    using assms(1) by (auto simp: plain_char_def py_space_def)
  moreover have "split_sign ((if negative then ''-'' else []) @ w @ rest) = (negative, w @ rest)"
    using digit_first[OF w(2)] by (auto simp: split_sign_def w(1))
  moreover have "\<not> special_name (w @ rest)"
    using digit_first[OF w(2)] by (auto simp: special_name_def w(1) Let_def)
  ultimately show ?thesis
    by (simp add: parse_decimal_def strip_plain)
qed

lemma decimal_round_trip: "parse_decimal (decimal_str (Finite negative c e)) = Some (Finite negative c e)"
proof -
  define digits where "digits = string_of_nat c"
  define n where "n = int (length digits)"
  define dotplace where "dotplace = (if e \<le> 0 \<and> e + n > - 6 then e + n else 1)"
  define tail where "tail = (if e + n = dotplace then [] else ''E'' @ signed_text (e + n - dotplace))"
  have n: "1 \<le> n"
    unfolding n_def digits_def by (simp add: Suc_le_eq)
  have digits: "list_all is_digit digits" "digits \<noteq> []" "number_of_digits digits = c"
    by (simp_all add: digits_def string_of_nat_digits number_of_digits_string_of_nat)
  have tail: "tail = [] \<and> e + n - dotplace = 0 \<or> tail = ''E'' @ signed_text (e + n - dotplace)" "list_all plain_char tail"
    using plain_signed_text by (auto simp: tail_def plain_char_def py_space_def)
  have str: "decimal_str (Finite negative c e) = (if negative then ''-'' else [])
      @ (if dotplace \<le> 0 then ''0.'' @ replicate (nat (- dotplace)) (CHR ''0'') @ digits
         else if dotplace \<ge> n then digits @ replicate (nat (dotplace - n)) (CHR ''0'')
         else take (nat dotplace) digits @ ''.'' @ drop (nat dotplace) digits) @ tail"
    by (simp add: digits_def n_def dotplace_def tail_def Let_def)
  consider (small) "dotplace \<le> 0" | (whole) "0 < dotplace" "dotplace \<ge> n" | (point) "0 < dotplace" "dotplace < n"
    by linarith
  then show ?thesis
  proof cases
    case small
    let ?f = "replicate (nat (- dotplace)) (CHR ''0'') @ digits"
    have f: "list_all is_digit ?f" "int (length ?f) = n - dotplace"
      using small digits by (auto simp: n_def list_all_iff)
    have zeros: "number_of_digits (''0'' @ ?f) = c"
      using digits(3) by (simp add: number_of_digits_append number_of_zeros del: append_Cons)
        (simp add: number_of_digits_def digit_value_def)
    have "parse_decimal (decimal_str (Finite negative c e)) = parse_number negative (''0'' @ ''.'' @ ?f @ tail)"
      unfolding str using small parse_plain[of "''0''" "''.'' @ ?f @ tail" negative] plain_digits[OF f(1)] tail(2)
      by (simp add: plain_char_def py_space_def)
    also have "\<dots> = Some (Finite negative c e)"
      using parse_number_text(2)[of "''0''" ?f tail "e + n - dotplace" negative] f zeros tail(1) by simp
    finally show ?thesis .
  next
    case whole
    have "dotplace = n"
      using whole n by (auto simp: dotplace_def split: if_splits)
    then show ?thesis
      unfolding str using whole parse_plain[of digits tail negative] plain_digits[OF digits(1)] tail digits
        parse_number_text(1)[of digits "[]" tail "e + n - dotplace" negative] by simp
  next
    case point
    let ?w = "take (nat dotplace) digits" and ?f = "drop (nat dotplace) digits"
    have parts: "list_all is_digit ?w" "list_all is_digit ?f" "?w \<noteq> []" "?w @ ?f = digits" "int (length ?f) = n - dotplace"
      using digits point by (auto simp: n_def list_all_iff dest: in_set_takeD in_set_dropD)
    have "parse_decimal (decimal_str (Finite negative c e)) = parse_number negative (?w @ ''.'' @ ?f @ tail)"
      unfolding str using point parse_plain[of ?w "''.'' @ ?f @ tail" negative] plain_digits[OF parts(1)] plain_digits[OF parts(2)]
        tail(2) parts by (simp add: plain_char_def py_space_def)
    also have "\<dots> = Some (Finite negative c e)"
      using parse_number_text(2)[of ?w ?f tail "e + n - dotplace" negative] parts digits(3) tail(1) by simp
    finally show ?thesis .
  qed
qed

end
