(* ===== verification/Store_Payload.thy ===== *)
theory Store_Payload
  imports NLeg_Canonical
begin

section \<open>Payloads that cross the store boundary\<close>

text \<open>
  \<open>_safe_value\<close> and \<open>_dump_payload\<close> of \<^verbatim>\<open>prediction_arbitrage_store.py\<close>. Every payload column of the store is
  written through them: fields whose name looks like a credential, a signature or a raw tick are dropped at
  every depth before the text is produced. Values are JSON values here (a \<open>Decimal\<close> or \<open>datetime\<close> is the
  text the code turns it into; floats do not occur in the modelled payloads). A stored column is the JSON
  value that \<open>_load_payload\<close> reads back.
\<close>

definition lower_char :: "char \<Rightarrow> char" where
  "lower_char ch =
     (let n = of_char ch :: nat in
      if 65 \<le> n \<and> n \<le> 90 \<or> 192 \<le> n \<and> n \<le> 222 \<and> n \<noteq> 215 then char_of (n + 32) else ch)"

definition camel_boundary :: "char \<Rightarrow> char \<Rightarrow> bool" where
  "camel_boundary a b \<longleftrightarrow>
     (let m = of_char a :: nat; n = of_char b :: nat in
      (97 \<le> m \<and> m \<le> 122 \<or> 48 \<le> m \<and> m \<le> 57) \<and> 65 \<le> n \<and> n \<le> 90)"

fun split_camel :: "string \<Rightarrow> string" where
  "split_camel (a # b # s) = (if camel_boundary a b then a # CHR ''_'' # split_camel (b # s) else a # split_camel (b # s))"
| "split_camel s = s"

definition normalise_field_name :: "string \<Rightarrow> string" where
  "normalise_field_name key =
     map (\<lambda>ch. if ch = CHR ''-'' then CHR ''_'' else ch) (map lower_char (split_camel key))"

definition ends_with :: "string \<Rightarrow> string \<Rightarrow> bool" where
  "ends_with s suf \<longleftrightarrow> length suf \<le> length s \<and> drop (length s - length suf) s = suf"

fun starts_with :: "string \<Rightarrow> string \<Rightarrow> bool" where
  "starts_with s [] = True"
| "starts_with [] (p # ps) = False"
| "starts_with (ch # s) (p # ps) = (if ch = p then starts_with s ps else False)"

fun contains_text :: "string \<Rightarrow> string \<Rightarrow> bool" where
  "contains_text [] part = starts_with [] part"
| "contains_text (ch # s) part = (if starts_with (ch # s) part then True else contains_text s part)"

definition private_field_parts :: "string list" where
  "private_field_parts =
     [''api_key'', ''apikey'', ''api_token'', ''access_token'', ''refresh_token'', ''auth_token'', ''jwt'',
      ''session_token'', ''builder_key'', ''builder_secret'', ''builder_passphrase'', ''credential'',
      ''private_key'', ''privatekey'', ''password'', ''passphrase'', ''secret'', ''signature'', ''signed'',
      ''raw_'', ''raw_tick'', ''ticks'', ''websocket'', ''order_payload'']"

definition public_relation_token_fields :: "string list" where
  "public_relation_token_fields =
     [''token_id'', ''yes_token_id'', ''no_token_id'', ''predict_yes_token_id'', ''predict_no_token_id'',
      ''polymarket_yes_token_id'', ''polymarket_no_token_id'']"

definition public_preflight_status_fields :: "string list" where
  "public_preflight_status_fields = [''fok_pair_signed_not_submitted'']"

definition token_name :: "string \<Rightarrow> bool" where
  "token_name name \<longleftrightarrow>
     name = ''token'' \<or> ends_with name ''_token'' \<or> ends_with name ''_token_id'' \<or> ends_with name ''_token_ids''
     \<or> name \<in> {''token_id'', ''token_ids''}"

definition dropped_field :: "bool \<Rightarrow> string \<Rightarrow> bool" where
  "dropped_field allow_public_token_ids key \<longleftrightarrow>
     (let name = normalise_field_name key in
      (token_name name \<and> \<not> (allow_public_token_ids \<and> name \<in> set public_relation_token_fields))
      \<or> name \<in> {''auth'', ''authorization'', ''bearer''}
      \<or> (list_ex (contains_text name) private_field_parts \<and> name \<notin> set public_preflight_status_fields))"

fun safe_value :: "bool \<Rightarrow> json \<Rightarrow> json" where
  "safe_value allow (JObj kvs) =
     JObj (filter (\<lambda>(k, _). \<not> dropped_field allow k) (map (\<lambda>(k, v). (k, safe_value allow v)) kvs))"
| "safe_value allow (JList xs) = JList (map (safe_value allow) xs)"
| "safe_value allow v = v"

definition dump_payload :: "json \<Rightarrow> json result" where
  "dump_payload payload = (case safe_value False payload of JObj kvs \<Rightarrow> Inr (JObj kvs) | _ \<Rightarrow> Inl TypeError)"

definition dump_execution_payload :: "json \<Rightarrow> json result" where
  "dump_execution_payload payload =
     (case safe_value True payload of JObj kvs \<Rightarrow> Inr (JObj kvs) | _ \<Rightarrow> Inl TypeError)"

subsection \<open>What is dropped and what is kept\<close>

fun field_names :: "json \<Rightarrow> string list" where
  "field_names (JObj kvs) = concat (map (\<lambda>(k, v). k # field_names v) kvs)"
| "field_names (JList xs) = concat (map field_names xs)"
| "field_names v = []"

text \<open>The value at a path of object fields and list positions.\<close>

datatype step = Field string | Item nat

fun value_at :: "step list \<Rightarrow> json \<Rightarrow> json option" where
  "value_at [] v = Some v"
| "value_at (Field k # path) (JObj kvs) = (case map_of kvs k of None \<Rightarrow> None | Some v \<Rightarrow> value_at path v)"
| "value_at (Item i # path) (JList xs) = (if i < length xs then value_at path (xs ! i) else None)"
| "value_at _ _ = None"

lemma safe_value_no_private: "k \<in> set (field_names (safe_value allow v)) \<Longrightarrow> \<not> dropped_field allow k"
  by (induction allow v rule: safe_value.induct) fastforce+

lemma safe_value_kept:
  assumes "\<forall>k. Field k \<in> set path \<longrightarrow> \<not> dropped_field allow k"
  shows "value_at path (safe_value allow v) = map_option (safe_value allow) (value_at path v)"
  using assms
proof (induction path v rule: value_at.induct)
  case (2 k path kvs)
  have "map_of (filter (\<lambda>(k, _). \<not> dropped_field allow k) (map (\<lambda>(k, v). (k, safe_value allow v)) kvs)) k
      = map_option (safe_value allow) (map_of kvs k)"
    using "2.prems" by (induction kvs) auto
  then show ?case
    using 2 by (auto split: option.splits)
qed auto

lemma safe_value_clean: "\<forall>k \<in> set (field_names v). \<not> dropped_field allow k \<Longrightarrow> safe_value allow v = v"
proof (induction allow v rule: safe_value.induct)
  case (1 allow kvs)
  have "map (\<lambda>(k, v). (k, safe_value allow v)) kvs = kvs"
    using 1 by (intro map_idI) fastforce
  moreover have "filter (\<lambda>(k, _). \<not> dropped_field allow k) kvs = kvs"
    using "1.prems" by (intro filter_True) auto
  ultimately show ?case
    by simp
qed (auto intro!: map_idI)

text \<open>A name in lower case that none of the private parts occurs in.\<close>

definition lower_letter :: "char \<Rightarrow> bool" where
  "lower_letter ch \<longleftrightarrow> ch \<in> set ''abcdefghijklmnopqrstuvwxyz_''"

definition public_name :: "string \<Rightarrow> bool" where
  "public_name k \<longleftrightarrow>
     list_all lower_letter k \<and> \<not> token_name k
     \<and> k \<notin> {''auth'', ''authorization'', ''bearer''} \<and> \<not> list_ex (contains_text k) private_field_parts"

lemma lower_name:
  assumes "list_all lower_letter k"
  shows "normalise_field_name k = k"
proof -
  have chars: "\<not> camel_boundary a ch" "lower_char ch = ch" "ch \<noteq> CHR ''-''"
    if "lower_letter ch" for a ch
    using that by (auto simp: lower_letter_def camel_boundary_def lower_char_def)
  have "split_camel k = k"
    using assms by (induction k rule: split_camel.induct) (use chars(1) in auto)
  then show ?thesis
    using assms chars(2,3) by (auto simp: normalise_field_name_def list_all_iff intro!: map_idI)
qed

lemma public_name_kept: "public_name k \<Longrightarrow> \<not> dropped_field allow k"
  by (simp add: public_name_def dropped_field_def lower_name)

subsection \<open>Which names are private\<close>

text \<open>
  The promise, stated without the tables and the string search of the code: a name is private when a word for a secret occurs anywhere
  in it, with one status field as the exception, when it is an authorisation field, or when it names a token, unless it
  is one of the public token ids and these are allowed.
\<close>

definition occurs_in :: "string \<Rightarrow> string \<Rightarrow> bool" where
  "occurs_in part name \<longleftrightarrow> (\<exists>before after. name = before @ part @ after)"

definition secret_name :: "string \<Rightarrow> bool" where
  "secret_name name \<longleftrightarrow>
     (\<exists>part \<in> {''password'', ''passphrase'', ''secret'', ''credential'', ''private_key'', ''privatekey'', ''api_key'', ''apikey'', ''builder_key'',
         ''api_token'', ''access_token'', ''refresh_token'', ''auth_token'', ''session_token'', ''jwt'', ''signature'', ''signed'',
         ''order_payload'', ''websocket'', ''raw_'', ''ticks''}. occurs_in part name)
     \<and> name \<noteq> ''fok_pair_signed_not_submitted''"

definition token_field :: "string \<Rightarrow> bool" where
  "token_field name \<longleftrightarrow>
     (\<exists>before. name \<in> {before @ ''_token'', before @ ''_token_id'', before @ ''_token_ids''}) \<or> name \<in> {''token'', ''token_id'', ''token_ids''}"

definition private_name :: "bool \<Rightarrow> string \<Rightarrow> bool" where
  "private_name allow name \<longleftrightarrow>
     secret_name name \<or> name \<in> {''auth'', ''authorization'', ''bearer''}
     \<or> token_field name
       \<and> \<not> (allow \<and> name \<in> {''token_id'', ''yes_token_id'', ''no_token_id'', ''predict_yes_token_id'', ''predict_no_token_id'',
                ''polymarket_yes_token_id'', ''polymarket_no_token_id''})"

lemma starts_with_iff: "starts_with s p \<longleftrightarrow> (\<exists>rest. s = p @ rest)"
  by (induction s p rule: starts_with.induct) auto

lemma contains_text_iff: "contains_text s part \<longleftrightarrow> occurs_in part s"
proof (induction s)
  case (Cons ch s)
  have "occurs_in part (ch # s) \<longleftrightarrow> starts_with (ch # s) part \<or> occurs_in part s"
    unfolding occurs_in_def starts_with_iff by (metis append_Cons append_Nil neq_Nil_conv list.inject)
  then show ?case
    using Cons by simp
qed (auto simp: occurs_in_def starts_with_iff)

lemma ends_with_iff: "ends_with s suf \<longleftrightarrow> (\<exists>before. s = before @ suf)"
  unfolding ends_with_def by (metis append_take_drop_id append_eq_conv_conj diff_add_inverse2 le_add2 length_append)

lemma occurs_in_trans: "occurs_in a b \<Longrightarrow> occurs_in b c \<Longrightarrow> occurs_in a c"
  unfolding occurs_in_def by (metis append.assoc)

text \<open>Two entries of the table of the code are covered by shorter ones.\<close>

lemma covered_parts:
  "occurs_in ''builder_secret'' name \<Longrightarrow> occurs_in ''secret'' name" "occurs_in ''builder_passphrase'' name \<Longrightarrow> occurs_in ''passphrase'' name"
  "occurs_in ''raw_tick'' name \<Longrightarrow> occurs_in ''raw_'' name"
proof -
  have "occurs_in ''secret'' ''builder_secret''" "occurs_in ''passphrase'' ''builder_passphrase''" "occurs_in ''raw_'' ''raw_tick''"
    unfolding contains_text_iff[symmetric] by code_simp+
  then show "occurs_in ''builder_secret'' name \<Longrightarrow> occurs_in ''secret'' name"
    "occurs_in ''builder_passphrase'' name \<Longrightarrow> occurs_in ''passphrase'' name" "occurs_in ''raw_tick'' name \<Longrightarrow> occurs_in ''raw_'' name"
    using occurs_in_trans by blast+
qed

lemma token_name_iff: "token_name name \<longleftrightarrow> token_field name"
  by (auto simp: token_name_def token_field_def ends_with_iff)

lemma private_parts_iff:
  "list_ex (contains_text name) private_field_parts \<and> name \<notin> set public_preflight_status_fields \<longleftrightarrow> secret_name name"
  using covered_parts[of name]
  by (auto simp: secret_name_def private_field_parts_def public_preflight_status_fields_def contains_text_iff)

lemma dropped_field_iff: "dropped_field allow key \<longleftrightarrow> private_name allow (normalise_field_name key)"
  unfolding dropped_field_def Let_def private_name_def private_parts_iff token_name_iff
  by (auto simp: public_relation_token_fields_def)

text \<open>
  How a name of several words can be spelled: \<open>snake_case\<close>, \<open>kebab-case\<close>, \<open>SCREAMING_CASE\<close> and \<open>camelCase\<close>. The code reads all of them
  as the first one.
\<close>

definition small :: "char \<Rightarrow> bool" where
  "small ch \<longleftrightarrow> 97 \<le> (of_char ch :: nat) \<and> (of_char ch :: nat) \<le> 122"

definition upper_char :: "char \<Rightarrow> char" where
  "upper_char ch = (if small ch then char_of ((of_char ch :: nat) - 32) else ch)"

fun joined :: "char \<Rightarrow> string list \<Rightarrow> string" where
  "joined sep [] = []"
| "joined sep [w] = w"
| "joined sep (w # ws) = w @ sep # joined sep ws"

fun capital :: "string \<Rightarrow> string" where
  "capital [] = []"
| "capital (ch # w) = upper_char ch # w"

fun camel :: "string list \<Rightarrow> string" where
  "camel [] = []"
| "camel (w # ws) = w @ concat (map capital ws)"

definition plain_words :: "string list \<Rightarrow> bool" where
  "plain_words ws \<longleftrightarrow> (\<forall>w \<in> set ws. 2 \<le> length w \<and> list_all small w)"

lemma upper_code: "small ch \<Longrightarrow> (of_char (upper_char ch) :: nat) = of_char ch - 32"
  by (auto simp: upper_char_def small_def intro!: mod_less)

lemma small_chars:
  assumes "small ch"
  shows "\<not> camel_boundary a ch" "\<not> camel_boundary (upper_char ch) a" "lower_char (upper_char ch) = ch" "lower_char ch = ch" "ch \<noteq> CHR ''-''"
    "small b \<Longrightarrow> camel_boundary ch (upper_char b)"
proof -
  show "\<not> camel_boundary a ch" "\<not> camel_boundary (upper_char ch) a" "lower_char ch = ch" "small b \<Longrightarrow> camel_boundary ch (upper_char b)"
    using assms by (auto simp: camel_boundary_def lower_char_def upper_code Let_def) (auto simp: small_def)
  have "lower_char (upper_char ch) = char_of ((of_char ch :: nat) - 32 + 32)"
    using assms unfolding lower_char_def Let_def upper_code[OF assms] by (auto simp: small_def)
  then show "lower_char (upper_char ch) = ch"
    using assms by (simp add: small_def)
  show "ch \<noteq> CHR ''-''"
    using assms by (auto simp: small_def)
qed

lemma separators:
  "\<not> camel_boundary a (CHR ''_'')" "\<not> camel_boundary (CHR ''_'') a" "\<not> camel_boundary a (CHR ''-'')" "lower_char (CHR ''_'') = CHR ''_''"
  "lower_char (CHR ''-'') = CHR ''-''" "upper_char (CHR ''_'') = CHR ''_''"
  by (simp_all add: camel_boundary_def lower_char_def upper_char_def small_def)

lemma split_camel_plain: "(\<And>a b. a \<in> set s \<Longrightarrow> b \<in> set s \<Longrightarrow> \<not> camel_boundary a b) \<Longrightarrow> split_camel s = s"
  by (induction s rule: split_camel.induct) auto

lemma set_joined: "set (joined sep ws) \<subseteq> insert sep (\<Union> (set ` set ws))"
  by (induction sep ws rule: joined.induct) auto

lemma joined_chars: "plain_words ws \<Longrightarrow> ch \<in> set (joined sep ws) \<Longrightarrow> ch = sep \<or> small ch"
  using set_joined[of sep ws] by (auto simp: plain_words_def list_all_iff)

lemma map_joined: "map f (joined sep ws) = joined (f sep) (map (map f) ws)"
  by (induction sep ws rule: joined.induct) auto

text \<open>What the code does to a character after the splitting.\<close>

definition squash_char :: "char \<Rightarrow> char" where
  "squash_char ch = (if lower_char ch = CHR ''-'' then CHR ''_'' else lower_char ch)"

lemma normalise_plain: "normalise_field_name key = map squash_char (split_camel key)"
  by (simp add: normalise_field_name_def squash_char_def)

lemma squash_chars: "squash_char (CHR ''-'') = CHR ''_''" "squash_char (CHR ''_'') = CHR ''_''" "small ch \<Longrightarrow> squash_char ch = ch"
  "small ch \<Longrightarrow> squash_char (upper_char ch) = ch"
  using small_chars(3-5) separators(4,5) by (simp_all add: squash_char_def)

lemma plain_words_kept:
  assumes "plain_words ws"
  shows "map (map squash_char) ws = ws" "map (map squash_char) (map (map upper_char) ws) = ws" "map (map squash_char) (map capital ws) = ws"
proof -
  have "map squash_char w = w" "map squash_char (map upper_char w) = w" "map squash_char (capital w) = w" if "w \<in> set ws" for w
    using assms that squash_chars(3,4) by (cases w; auto simp: plain_words_def list_all_iff intro!: map_idI)+
  then show "map (map squash_char) ws = ws" "map (map squash_char) (map (map upper_char) ws) = ws" "map (map squash_char) (map capital ws) = ws"
    by (simp_all add: map_idI del: map_map map_eq_conv) (simp_all add: map_idI)
qed

lemma split_camel_word:
  assumes "list_all small w" "w \<noteq> []" "small b"
  shows "split_camel (w @ upper_char b # s) = w @ CHR ''_'' # split_camel (upper_char b # s)"
  using assms
proof (induction w)
  case (Cons a w)
  show ?case
  proof (cases w)
    case Nil
    then show ?thesis
      using Cons.prems small_chars(6) by simp
  next
    case (Cons a' w')
    then show ?thesis
      using Cons.IH Cons.prems small_chars(1) by simp
  qed
qed simp

lemma split_camel_capitals:
  assumes "list_all small w" "w \<noteq> []" "plain_words ws"
  shows "split_camel (w @ concat (map capital ws)) = joined (CHR ''_'') (w # map capital ws)"
  using assms
proof (induction ws arbitrary: w)
  case Nil
  then show ?case
    using small_chars(1) by (simp add: list_all_iff split_camel_plain)
next
  case (Cons v ws)
  obtain b c v' where v: "v = b # c # v'" and small: "small b" "list_all small (c # v')"
    using Cons.prems(3) by (cases v; cases "tl v") (auto simp: plain_words_def)
  have "split_camel (w @ capital v @ concat (map capital ws))
      = w @ CHR ''_'' # split_camel (upper_char b # c # v' @ concat (map capital ws))"
    using split_camel_word[OF Cons.prems(1,2) small(1)] by (simp add: v)
  also have "split_camel (upper_char b # c # v' @ concat (map capital ws)) = upper_char b # split_camel ((c # v') @ concat (map capital ws))"
    using small_chars(2)[OF small(1)] by simp
  also have "split_camel ((c # v') @ concat (map capital ws)) = joined (CHR ''_'') ((c # v') # map capital ws)"
    using Cons.prems(3) small(2) by (intro Cons.IH) (auto simp: plain_words_def)
  finally show ?case
    by (cases ws) (simp_all add: v)
qed

lemma split_camel_camel: "plain_words ws \<Longrightarrow> split_camel (camel ws) = joined (CHR ''_'') (take 1 ws @ map capital (drop 1 ws))"
proof (cases ws)
  case (Cons w vs)
  assume "plain_words ws"
  then have "list_all small w" "w \<noteq> []" "plain_words vs"
    by (auto simp: Cons plain_words_def)
  then show ?thesis
    using split_camel_capitals by (simp add: Cons)
qed simp

lemma spelling:
  assumes "plain_words ws"
  shows "normalise_field_name (joined (CHR ''_'') ws) = joined (CHR ''_'') ws"
    "normalise_field_name (joined (CHR ''-'') ws) = joined (CHR ''_'') ws"
    "normalise_field_name (map upper_char (joined (CHR ''_'') ws)) = joined (CHR ''_'') ws"
    "normalise_field_name (camel ws) = joined (CHR ''_'') ws"
proof -
  note chars = joined_chars[OF assms] and kept = plain_words_kept[OF assms]
  have same: "split_camel (joined (CHR ''_'') ws) = joined (CHR ''_'') ws" "split_camel (joined (CHR ''-'') ws) = joined (CHR ''-'') ws"
    using chars small_chars(1) separators(1,3) by (intro split_camel_plain; blast)+
  then show "normalise_field_name (joined (CHR ''_'') ws) = joined (CHR ''_'') ws"
    "normalise_field_name (joined (CHR ''-'') ws) = joined (CHR ''_'') ws"
    by (simp_all add: normalise_plain map_joined squash_chars kept)
  have "split_camel (map upper_char (joined (CHR ''_'') ws)) = map upper_char (joined (CHR ''_'') ws)"
    using chars small_chars(2) separators(2,6) by (intro split_camel_plain) fastforce
  then show "normalise_field_name (map upper_char (joined (CHR ''_'') ws)) = joined (CHR ''_'') ws"
    using kept(2) by (simp add: normalise_plain map_joined squash_chars separators(6) del: map_map)
  have "map (map squash_char) (take 1 ws @ map capital (drop 1 ws)) = ws"
    using plain_words_kept[of "take 1 ws"] plain_words_kept[of "drop 1 ws"] assms in_set_takeD in_set_dropD
    by (metis (mono_tags, lifting) append_take_drop_id map_append plain_words_def)
  then show "normalise_field_name (camel ws) = joined (CHR ''_'') ws"
    by (simp only: normalise_plain split_camel_camel[OF assms] map_joined squash_chars)
qed



end
