(* ===== verification/NLeg_Batch.thy ===== *)
theory NLeg_Batch
  imports NLeg_Model Decimal_Text Store_Payload
begin

section \<open>Receipts, legs and batches of N-leg execution\<close>

text \<open>
  The data of \<^verbatim>\<open>prediction_n_leg_execution.py\<close>: the order receipt and the fresh facts that a repair or a
  reconciliation is based on, each with the checks of its \<open>__post_init__\<close>, and the batch payload that
  \<open>enter\<close> freezes and the reducers update. Timestamps are \<open>instant\<close>s: the code keeps them as UTC text of fixed
  width (\<open>_timestamp\<close>), whose order as text is the order of the instants. Fields that several classes share
  carry a prefix.
\<close>

datatype OrderState = ORDER_OPEN | ORDER_FILLED | ORDER_REJECTED | ORDER_CANCELLED | ORDER_UNKNOWN

fun order_state_value :: "OrderState \<Rightarrow> string" where
  "order_state_value ORDER_OPEN = ''OPEN''"
| "order_state_value ORDER_FILLED = ''FILLED''"
| "order_state_value ORDER_REJECTED = ''REJECTED''"
| "order_state_value ORDER_CANCELLED = ''CANCELLED''"
| "order_state_value ORDER_UNKNOWN = ''UNKNOWN''"

definition terminal_state :: "OrderState \<Rightarrow> bool" where
  "terminal_state s \<longleftrightarrow> s \<in> {ORDER_FILLED, ORDER_REJECTED, ORDER_CANCELLED}"

definition require_text :: "string \<Rightarrow> string \<Rightarrow> unit result" where
  "require_text v name =
     (if v = [] \<or> strip_text v \<noteq> v then Inl (ValueError (name @ '' must be non-empty text'')) else Inr ())"

definition require_nonnegative :: "int \<Rightarrow> string \<Rightarrow> unit result" where
  "require_nonnegative v name =
     (if v < 0 then Inl (ValueError (name @ '' must be a non-negative integer'')) else Inr ())"

definition require :: "bool \<Rightarrow> string \<Rightarrow> unit result" where
  "require ok message = (if ok then Inr () else Inl (ValueError message))"

fun all_required :: "unit result list \<Rightarrow> unit result" where
  "all_required [] = Inr ()"
| "all_required (c # cs) = rbind c (\<lambda>_. all_required cs)"

subsection \<open>Order receipts\<close>

record OrderReceipt =
  receipt_id :: string
  receipt_batch_id :: string
  receipt_client_order_id :: string
  receipt_venue_id :: string
  receipt_account_id :: string
  receipt_venue_order_id :: "string option"
  receipt_submitted_quantity :: int
  cumulative_filled_quantity :: int
  cumulative_cost_units :: int
  cumulative_fee_units :: int
  receipt_state :: OrderState
  receipt_sequence :: "int option"
  rest_confirmed :: bool
  observed_at :: instant
  venue_timestamp :: instant
  rest_observation_version :: "int option"

definition ORDER_RECEIPT_SCHEMA_V1 :: string where
  "ORDER_RECEIPT_SCHEMA_V1 = ''open_trader.prediction_n_leg.order_receipt.v1''"

definition check_receipt :: "OrderReceipt \<Rightarrow> unit result" where
  "check_receipt r =
     all_required
       [require_text (receipt_id r) ''receipt_id'',
        require_text (receipt_batch_id r) ''execution_batch_id'',
        require_text (receipt_client_order_id r) ''client_order_id'',
        require_text (receipt_venue_id r) ''venue_id'',
        require_text (receipt_account_id r) ''account_id'',
        (case receipt_venue_order_id r of None \<Rightarrow> Inr () | Some i \<Rightarrow> require_text i ''venue_order_id''),
        require_nonnegative (receipt_submitted_quantity r) ''submitted_quantity'',
        require_nonnegative (cumulative_filled_quantity r) ''cumulative_filled_quantity'',
        require_nonnegative (cumulative_cost_units r) ''cumulative_cost_units'',
        require_nonnegative (cumulative_fee_units r) ''cumulative_fee_units'',
        require (receipt_submitted_quantity r \<noteq> 0 \<and> cumulative_filled_quantity r \<le> receipt_submitted_quantity r)
          ''invalid cumulative order receipt'',
        require (\<forall>n \<in> set_option (receipt_sequence r). 0 \<le> n) ''sequence must be a non-negative integer or null'',
        require (\<forall>n \<in> set_option (rest_observation_version r). 0 \<le> n) ''rest_confirmed must be boolean'',
        require (receipt_sequence r \<noteq> None \<or> rest_confirmed r) ''sequence-less receipt requires REST confirmation'',
        require (\<not> rest_confirmed r \<or> rest_observation_version r \<noteq> None) ''REST receipt requires observation version'',
        require (rest_confirmed r \<or> rest_observation_version r = None)
          ''non-REST receipt cannot carry observation version'']"

text \<open>\<open>_timestamp\<close>: the UTC text with all six digits of the microseconds.\<close>

definition timestamp_text :: "instant \<Rightarrow> string" where
  "timestamp_text t =
     (let (y, m, d) = ymd_of_ordinal (719163 + t div usec_per_day);
          usec = t mod usec_per_day;
          sec = usec div usec_per_second
      in zero_padded 4 y @ ''-'' @ zero_padded 2 m @ ''-'' @ zero_padded 2 d @ ''T''
         @ zero_padded 2 (sec div 3600) @ '':'' @ zero_padded 2 (sec div 60 mod 60) @ '':''
         @ zero_padded 2 (sec mod 60) @ ''.'' @ zero_padded 6 (usec mod usec_per_second) @ ''Z'')"

definition receipt_payload :: "OrderReceipt \<Rightarrow> json" where
  "receipt_payload r =
     JObj [(''receipt_id'', JStr (receipt_id r)), (''execution_batch_id'', JStr (receipt_batch_id r)),
       (''client_order_id'', JStr (receipt_client_order_id r)), (''venue_id'', JStr (receipt_venue_id r)),
       (''account_id'', JStr (receipt_account_id r)), (''venue_order_id'', json_option JStr (receipt_venue_order_id r)),
       (''submitted_quantity'', JInt (receipt_submitted_quantity r)),
       (''cumulative_filled_quantity'', JInt (cumulative_filled_quantity r)),
       (''cumulative_cost_units'', JInt (cumulative_cost_units r)),
       (''cumulative_fee_units'', JInt (cumulative_fee_units r)),
       (''state'', JStr (order_state_value (receipt_state r))), (''sequence'', json_option JInt (receipt_sequence r)),
       (''rest_confirmed'', JBool (rest_confirmed r)), (''observed_at'', JStr (timestamp_text (observed_at r))),
       (''venue_timestamp'', JStr (timestamp_text (venue_timestamp r))),
       (''rest_observation_version'', json_option JInt (rest_observation_version r)),
       (''schema_version'', JStr ORDER_RECEIPT_SCHEMA_V1)]"

text \<open>\<open>_semantic_receipt\<close>: what identifies an observation, without its id and its two times.\<close>

definition semantic_receipt :: "OrderReceipt \<Rightarrow> OrderReceipt" where
  "semantic_receipt r = r\<lparr>receipt_id := [], observed_at := 0, venue_timestamp := 0\<rparr>"

definition semantic_payload :: "OrderReceipt \<Rightarrow> json" where
  "semantic_payload r =
     (case receipt_payload r of
        JObj kvs \<Rightarrow> JObj (filter (\<lambda>(k, _). k \<notin> {''receipt_id'', ''observed_at'', ''venue_timestamp''}) kvs)
      | v \<Rightarrow> v)"

subsection \<open>Fresh facts\<close>

record AccountBalance =
  balance_venue_id :: string
  balance_account_id :: string
  balance_asset_id :: string
  available_units :: int
  allowance_units :: int

record AccountSnapshot =
  captured_at :: instant
  balances :: "AccountBalance list"
  snapshot_max_per_trade_cost_units :: int
  unsettled_capital_units :: int
  snapshot_max_total_unsettled_capital_units :: int

definition ACCOUNT_FRESHNESS_SECONDS :: int where
  "ACCOUNT_FRESHNESS_SECONDS = 60"

definition fresh :: "instant \<Rightarrow> instant \<Rightarrow> bool" where
  "fresh now t \<longleftrightarrow> 0 \<le> now - t \<and> now - t \<le> 10 * usec_per_second"

definition valid_account_snapshot :: "AccountSnapshot \<Rightarrow> instant \<Rightarrow> bool" where
  "valid_account_snapshot a now \<longleftrightarrow>
     0 \<le> now - captured_at a \<and> now - captured_at a \<le> ACCOUNT_FRESHNESS_SECONDS * usec_per_second
     \<and> (\<forall>v \<in> {snapshot_max_per_trade_cost_units a, unsettled_capital_units a,
              snapshot_max_total_unsettled_capital_units a}. 0 \<le> v \<and> v \<le> INT64_MAX)
     \<and> (\<forall>x \<in> set (balances a). balance_venue_id x \<noteq> [] \<and> balance_account_id x \<noteq> [] \<and> balance_asset_id x \<noteq> []
          \<and> 0 \<le> available_units x \<and> available_units x \<le> INT64_MAX
          \<and> 0 \<le> allowance_units x \<and> allowance_units x \<le> INT64_MAX)
     \<and> distinct (map (\<lambda>x. (balance_venue_id x, balance_account_id x, balance_asset_id x)) (balances a))"

record CanonicalBookLevel =
  level_first_lot :: int
  level_last_lot :: int
  buy_ask_units :: int
  sell_bid_units :: int

definition check_level :: "CanonicalBookLevel \<Rightarrow> unit result" where
  "check_level l =
     all_required
       [require (0 < level_first_lot l \<and> level_first_lot l \<le> level_last_lot l) ''invalid canonical book range'',
        require (0 < buy_ask_units l \<and> 0 < sell_bid_units l) ''canonical book prices must be positive'']"

record RepairQuote =
  quote_client_order_id :: string
  quote_asset_id :: string
  quote_venue_id :: string
  quote_account_id :: string
  quote_settlement_asset_id :: string
  levels :: "CanonicalBookLevel list"
  quote_source_timestamp :: instant
  quote_received_at :: instant
  fee_ppm :: int
  tick_units :: int
  slippage_units :: int

definition contiguous_levels :: "CanonicalBookLevel list \<Rightarrow> bool" where
  "contiguous_levels ls \<longleftrightarrow>
     ls \<noteq> [] \<and> level_first_lot (hd ls) = 1
     \<and> list_all (\<lambda>(l, later). level_last_lot l + 1 = level_first_lot later) (zip ls (tl ls))"

definition check_quote :: "RepairQuote \<Rightarrow> unit result" where
  "check_quote q =
     all_required
       ([require_text (quote_client_order_id q) ''client_order_id'', require_text (quote_asset_id q) ''asset_id'',
         require_text (quote_venue_id q) ''venue_id'', require_text (quote_account_id q) ''account_id'',
         require_text (quote_settlement_asset_id q) ''settlement_asset_id'',
         require_nonnegative (fee_ppm q) ''fee_ppm'', require_nonnegative (slippage_units q) ''slippage_units'',
         require (0 < tick_units q) ''tick_units must be positive'',
         require (contiguous_levels (levels q)) ''canonical book levels must be contiguous''])"

record ConfirmedHolding =
  holding_venue_id :: string
  holding_account_id :: string
  holding_asset_id :: string
  holding_quantity :: int
  holding_source_timestamp :: instant
  holding_received_at :: instant

record SettlementCashFlow =
  flow_client_order_id :: string
  flow_venue_order_id :: "string option"
  flow_venue_id :: string
  flow_account_id :: string
  flow_settlement_asset_id :: string
  flow_cost_units :: int
  flow_fee_units :: int
  flow_source_timestamp :: instant
  flow_observed_at :: instant
  flow_observation_version :: "int option"
  flow_rest_confirmed :: bool

definition check_holding :: "ConfirmedHolding \<Rightarrow> unit result" where
  "check_holding h =
     all_required
       [require_text (holding_venue_id h) ''venue_id'', require_text (holding_account_id h) ''account_id'',
        require_text (holding_asset_id h) ''asset_id'', require_nonnegative (holding_quantity h) ''quantity'']"

definition check_cash_flow :: "SettlementCashFlow \<Rightarrow> unit result" where
  "check_cash_flow f =
     all_required
       [require_text (flow_client_order_id f) ''client_order_id'',
        (case flow_venue_order_id f of None \<Rightarrow> Inr () | Some i \<Rightarrow> require_text i ''venue_order_id''),
        require_text (flow_venue_id f) ''venue_id'', require_text (flow_account_id f) ''account_id'',
        require_text (flow_settlement_asset_id f) ''settlement_asset_id'',
        require_nonnegative (flow_cost_units f) ''cumulative_cost_units'',
        require_nonnegative (flow_fee_units f) ''cumulative_fee_units'',
        require (\<forall>n \<in> set_option (flow_observation_version f). 0 \<le> n) ''cash flow observation version is invalid'',
        require (flow_observation_version f \<noteq> None \<or> flow_rest_confirmed f) ''cash flow observation is invalid'']"

datatype ResolutionOutcome = TERMINAL_OUTCOME | NOT_FOUND_OUTCOME

record ConflictResolutionEvidence =
  evidence_conflict_id :: string
  evidence_client_order_id :: string
  evidence_venue_order_id :: "string option"
  evidence_venue_id :: string
  evidence_account_id :: string
  evidence_asset_id :: string
  evidence_settlement_asset_id :: string
  evidence_outcome :: ResolutionOutcome
  evidence_terminal_state :: "OrderState option"
  evidence_filled_quantity :: int
  evidence_cost_units :: int
  evidence_fee_units :: int
  evidence_sequence :: "int option"
  evidence_rest_confirmed :: bool
  evidence_observation_version :: int
  evidence_source_timestamp :: instant
  evidence_observed_at :: instant

definition check_evidence :: "ConflictResolutionEvidence \<Rightarrow> unit result" where
  "check_evidence v =
     all_required
       [require_text (evidence_conflict_id v) ''conflict_id'',
        require_text (evidence_client_order_id v) ''client_order_id'',
        (case evidence_venue_order_id v of None \<Rightarrow> Inr () | Some i \<Rightarrow> require_text i ''venue_order_id''),
        require_text (evidence_venue_id v) ''venue_id'', require_text (evidence_account_id v) ''account_id'',
        require_text (evidence_asset_id v) ''asset_id'',
        require_text (evidence_settlement_asset_id v) ''settlement_asset_id'',
        require (case evidence_outcome v of
            TERMINAL_OUTCOME \<Rightarrow> (\<exists>x \<in> set_option (evidence_terminal_state v). terminal_state x)
          | NOT_FOUND_OUTCOME \<Rightarrow> evidence_terminal_state v = None \<and> evidence_rest_confirmed v)
          ''conflict resolution outcome is invalid'',
        require_nonnegative (evidence_filled_quantity v) ''cumulative_filled_quantity'',
        require_nonnegative (evidence_cost_units v) ''cumulative_cost_units'',
        require_nonnegative (evidence_fee_units v) ''cumulative_fee_units'',
        require_nonnegative (evidence_observation_version v) ''observation_version'',
        require (\<forall>n \<in> set_option (evidence_sequence v). 0 \<le> n) ''conflict resolution sequence is invalid'',
        require (evidence_outcome v \<noteq> NOT_FOUND_OUTCOME
            \<or> evidence_filled_quantity v = 0 \<and> evidence_cost_units v = 0 \<and> evidence_fee_units v = 0
              \<and> evidence_sequence v = None)
          ''NOT_FOUND resolution must carry zero economics'']"

record RepairContext =
  repair_reservation_version :: string
  quotes :: "RepairQuote list"
  repair_holdings :: "ConfirmedHolding list"
  repair_account_snapshot :: AccountSnapshot
  repair_cash_flows :: "SettlementCashFlow list"
  repair_now :: instant

definition holding_key :: "ConfirmedHolding \<Rightarrow> string \<times> string \<times> string" where
  "holding_key h = (holding_venue_id h, holding_account_id h, holding_asset_id h)"

definition check_repair_context :: "RepairContext \<Rightarrow> unit result" where
  "check_repair_context c =
     (let now = repair_now c in
      all_required
        [require_text (repair_reservation_version c) ''reservation_version'',
         require (valid_account_snapshot (repair_account_snapshot c) now) ''repair account snapshot must be canonical and fresh'',
         require (quotes c \<noteq> [] \<and> distinct (map quote_client_order_id (quotes c))) ''repair quotes must be complete and unique'',
         require (\<forall>h \<in> set (repair_holdings c). fresh now (holding_source_timestamp h) \<and> fresh now (holding_received_at h))
           ''repair holdings must be fresh'',
         require (distinct (map holding_key (repair_holdings c))) ''repair holdings must be unique'',
         require (distinct (map flow_client_order_id (repair_cash_flows c))) ''repair cash flows must be unique per order'',
         require (\<forall>q \<in> set (quotes c). fresh now (quote_received_at q) \<and> fresh now (quote_source_timestamp q))
           ''repair quotes must be fresh'',
         require (\<forall>f \<in> set (repair_cash_flows c). fresh now (flow_source_timestamp f) \<and> fresh now (flow_observed_at f))
           ''repair cash flows must be fresh''])"

record ReconciliationContext =
  reconciliation_reservation_version :: string
  reconciliation_account_snapshot :: AccountSnapshot
  reconciliation_holdings :: "ConfirmedHolding list"
  reconciliation_cash_flows :: "SettlementCashFlow list"
  reconciliation_source_timestamp :: instant
  reconciliation_received_at :: instant
  reconciliation_now :: instant
  conflict_resolutions :: "ConflictResolutionEvidence list"

definition check_reconciliation_context :: "ReconciliationContext \<Rightarrow> unit result" where
  "check_reconciliation_context c =
     (let now = reconciliation_now c in
      all_required
        [require_text (reconciliation_reservation_version c) ''reservation_version'',
         require (fresh now (reconciliation_source_timestamp c) \<and> fresh now (reconciliation_received_at c)
             \<and> valid_account_snapshot (reconciliation_account_snapshot c) now) ''reconciliation source must be fresh'',
         require (distinct (map holding_key (reconciliation_holdings c))) ''reconciliation holdings must be unique'',
         require (\<forall>h \<in> set (reconciliation_holdings c).
             fresh now (holding_source_timestamp h) \<and> fresh now (holding_received_at h))
           ''reconciliation holdings must be fresh'',
         require (distinct (map flow_client_order_id (reconciliation_cash_flows c)))
           ''reconciliation cash flows must be per-order'',
         require (\<forall>f \<in> set (reconciliation_cash_flows c).
             fresh now (flow_source_timestamp f) \<and> fresh now (flow_observed_at f))
           ''reconciliation cash flows must be fresh'',
         require (distinct (map evidence_conflict_id (conflict_resolutions c)))
           ''reconciliation conflict resolutions must be exact'',
         require (\<forall>v \<in> set (conflict_resolutions c).
             fresh now (evidence_source_timestamp v) \<and> fresh now (evidence_observed_at v))
           ''reconciliation conflict resolutions must be fresh''])"

subsection \<open>The batch\<close>

record Leg =
  leg_action_id :: string
  leg_client_order_id :: string
  leg_venue_id :: string
  leg_account_id :: string
  leg_asset_id :: string
  leg_settlement_asset_id :: string
  leg_side :: ActionSide
  leg_submitted_quantity :: int
  leg_max_cost_units :: int
  leg_max_fee_units :: int
  leg_receipt :: "OrderReceipt option"

type_synonym account_key = "string \<times> string \<times> string"

record Reservation =
  reservation_key :: account_key
  original_units :: int
  remaining_units :: int
  holding_units :: int

text \<open>Client order, venue order, venue, account, asset and settlement asset of a physical order.\<close>

type_synonym physical_identity = "string \<times> string option \<times> string \<times> string \<times> string \<times> string"

datatype ConflictKind = SAME_PHYSICAL | DRIFT | UNBOUND

record Conflict =
  conflict_id :: string
  physical_key :: string
  conflict_identity :: physical_identity
  intended_identity :: "physical_identity option"
  conflict_kind :: ConflictKind
  conflict_reason :: string
  max_sequence :: "int option"
  max_rest_observation_version :: "int option"
  max_source_timestamp :: instant
  max_observed_at :: instant
  max_actual_cash_units :: int
  max_actual_filled_quantity :: int
  conservative_max_units :: int
  conflict_submitted_quantity :: int

record ReceiptConflict =
  transition_id :: string
  receipt_conflict_reason :: string
  conflict_old :: "OrderReceipt option"
  conflict_new :: OrderReceipt

record LedgerEntry =
  ledger_client_order_id :: string
  ledger_venue_order_id :: "string option"
  ledger_venue_id :: string
  ledger_account_id :: string
  ledger_asset_id :: string
  ledger_settlement_asset_id :: string
  ledger_filled_quantity :: int
  ledger_cost_units :: int
  ledger_fee_units :: int
  holding_capital_units :: int

record Incident =
  incident_reason :: string
  repair_status :: string
  acknowledgement :: "json option"
  acknowledged_at :: "instant option"

datatype RepairFamily = COMPLETE_REMAINING | EXIT_CONFIRMED

record RepairCandidate =
  candidate_family :: RepairFamily
  candidate_legs :: "(string \<times> int) list"
  conservative_total_loss_units :: int
  worst_terminal_payout_units :: int
  conservative_sell_proceeds_units :: int
  candidate_fingerprint :: string

record RepairPlan =
  plan_candidate :: RepairCandidate
  plan_fingerprint :: string
  auto_eligible :: bool
  plan_reason :: string

datatype BatchState =
    ACTIVE
  | INCIDENT
  | AWAITING_RECONCILIATION
  | RECONCILED_ZERO
  | RECONCILED_FULL
  | INCIDENT_ACKNOWLEDGED

record Batch =
  execution_batch_id :: string
  opportunity_episode_id :: string
  batch_component_id :: "string option"
  batch_lineage_id :: string
  batch_mode :: string
  batch_state :: BatchState
  execution_solution_fingerprint :: string
  account_fingerprint :: string
  frozen_problem :: ArbitrageProblem
  frozen_budget :: OracleBudget
  max_auto_repair_loss :: int
  reservation_version :: string
  prior_unsettled_capital_units :: int
  batch_unsettled_capital_units :: int
  reservations :: "Reservation list"
  legs :: "Leg list"
  receipts :: "(string \<times> OrderReceipt) list"
  confirmed_holdings :: "(account_key \<times> int) list"
  receipt_conflicts :: "ReceiptConflict list"
  unresolved_conflicts :: "Conflict list"
  conflict_exposure :: "(string \<times> int) list"
  capital_exposure_unknown :: bool
  conflict_terminal_ledger :: "(string \<times> LedgerEntry) list"
  incident :: "Incident option"
  repair_plan :: "RepairPlan option"
  execution_controls :: "(string \<times> string) list"
  reconciliation :: "ReconciliationContext option"
  entry_fingerprint :: string

end
