(* ===== verification/NLeg_Store.thy ===== *)
theory NLeg_Store
  imports NLeg_Batch
begin

section \<open>The N-leg tables of the store\<close>

text \<open>
  The N-leg tables of \<^verbatim>\<open>prediction_arbitrage_store.py\<close> and the operations on them that the mode contract and the
  execution service share: the control row, the versioned policy and safety tables, the execution scopes,
  the control events and the FIFO of execution requests. A table with a primary key is an association list
  on the key, rows in the order they were inserted. An operation takes the store and returns a value or an
  error together with the store it leaves behind: each write is one committed transaction, so an exception
  after a write does not take the write back. Row timestamps and random row ids are not modelled.
\<close>

subsection \<open>Operations with a store\<close>

record NLegControl =
  control_mode :: string
  breaker_open :: bool
  breaker_reason :: "string option"
  active_batch_id :: "string option"
  total_unsettled_capital_units :: int
  contract_generation :: int
  qualification_policy_version :: int
  safety_config_version :: int
  enabled_execution_scope_version :: "(string \<times> int) list"

record Scope =
  scope_capability :: string
  scope_version :: int
  scope_members :: json

record ControlEvent =
  event_action :: string
  event_target :: string
  event_outcome :: string
  event_payload :: json

record LegacyIncident =
  legacy_incident_id :: string
  legacy_acknowledged :: bool

record RequestRow =
  request_id :: string
  fifo_index :: int
  idempotency_key :: string
  request_component_id :: string
  request_row_state :: string
  abandon_reason :: "string option"
  request_row_payload :: json

text \<open>A transition row keeps either what a reducer left behind or a recorded payload.\<close>

datatype TransitionPayload = Reduced Batch NLegControl | Recorded json

record Transition =
  transition_batch_id :: string
  transition_kind :: string
  transition_key :: string
  transition_payload :: TransitionPayload

record LineageClaim =
  claim_lineage_id :: string
  claim_opportunity_id :: string
  claim_batch_id :: string
  claim_created_at :: instant

text \<open>The lineage graph and the closed episodes, tables that other components create: absent until they have.\<close>

record LineageRow =
  lineage_component_id :: string
  lineage_id :: string
  predecessor_lineage_ids :: "string list"
  lineage_status :: string
  lineage_generation :: int

record EpisodeClose =
  closed_lineage_id :: string
  episode_close_reason :: "string option"
  episode_closed_at :: "instant option"

record NLegStore =
  control_row :: "NLegControl option"
  policy_rows :: "(int \<times> json) list"
  safety_rows :: "(int \<times> json) list"
  scope_rows :: "(string \<times> Scope) list"
  control_events :: "ControlEvent list"
  incident_rows :: "LegacyIncident list"
  request_rows :: "RequestRow list"
  next_fifo_index :: int
  batch_rows :: "(string \<times> Batch) list"
  claim_rows :: "LineageClaim list"
  transition_rows :: "Transition list"
  lp_session_active :: bool
  lineage_rows :: "LineageRow list option"
  episode_closes :: "EpisodeClose list option"

type_synonym ('s, 'a) run = "'s \<Rightarrow> 'a result \<times> 's"

type_synonym 'a op = "(NLegStore, 'a) run"

definition op_return :: "'a \<Rightarrow> ('s, 'a) run" where
  "op_return x s = (Inr x, s)"

definition op_raise :: "py_error \<Rightarrow> ('s, 'a) run" where
  "op_raise e s = (Inl e, s)"

definition op_bind :: "('s, 'a) run \<Rightarrow> ('a \<Rightarrow> ('s, 'b) run) \<Rightarrow> ('s, 'b) run" where
  "op_bind m f s = (case m s of (Inl e, s') \<Rightarrow> (Inl e, s') | (Inr x, s') \<Rightarrow> f x s')"

definition op_read :: "('s \<Rightarrow> 'a) \<Rightarrow> ('s, 'a) run" where
  "op_read f s = (Inr (f s), s)"

definition op_lift :: "'a result \<Rightarrow> ('s, 'a) run" where
  "op_lift r s = (r, s)"

definition op_try :: "('s \<Rightarrow> 'a result) \<Rightarrow> ('s, 'a) run" where
  "op_try f s = (f s, s)"

definition op_update :: "('s \<Rightarrow> 's) \<Rightarrow> ('s, unit) run" where
  "op_update f s = (Inr (), f s)"

definition op_when :: "bool \<Rightarrow> ('s, unit) run \<Rightarrow> ('s, unit) run" where
  "op_when b m = (if b then m else op_return ())"

definition op_guard :: "bool \<Rightarrow> py_error \<Rightarrow> ('s, unit) run" where
  "op_guard ok e = (if ok then op_return () else op_raise e)"

lemma op_simps [simp]:
  "op_return x s = (Inr x, s)"
  "op_raise e s = (Inl e, s)"
  "op_read f s = (Inr (f s), s)"
  "op_lift r s = (r, s)"
  "op_try g s = (g s, s)"
  "op_update h s = (Inr (), h s)"
  by (simp_all add: op_return_def op_raise_def op_read_def op_lift_def op_try_def op_update_def)

lemma op_bind_simps [simp]:
  "op_bind (op_return x) f s = f x s"
  "op_bind (op_raise e) f s = (Inl e, s)"
  "op_bind (op_read r) f1 s = f1 (r s) s"
  "op_bind (op_update h) f2 s = f2 () (h s)"
  "op_bind (\<lambda>s. (Inr y, k s)) f3 s = f3 y (k s)"
  by (simp_all add: op_bind_def)

lemma op_bind_branches [simp]:
  "op_bind (op_guard ok e) f s = (if ok then f () s else (Inl e, s))"
  "op_bind (op_when ok m) f s = (if ok then op_bind m f s else f () s)"
  "op_bind (if ok then m1 else m2) f1 s = (if ok then op_bind m1 f1 s else op_bind m2 f1 s)"
  "op_bind (op_try g) f2 s = (case g s of Inl e' \<Rightarrow> (Inl e', s) | Inr x \<Rightarrow> f2 x s)"
  "op_bind (op_lift r) f3 s = (case r of Inl e' \<Rightarrow> (Inl e', s) | Inr x \<Rightarrow> f3 x s)"
  by (simp_all add: op_bind_def op_guard_def op_when_def split: sum.splits)

lemma op_bind_Inr: "op_bind m f s = (Inr y, t) \<longleftrightarrow> (\<exists>x u. m s = (Inr x, u) \<and> f x u = (Inr y, t))"
  by (auto simp: op_bind_def split: prod.splits sum.splits)

lemma op_bind_Inl:
  "op_bind m f s = (Inl e, t) \<longleftrightarrow> m s = (Inl e, t) \<or> (\<exists>x u. m s = (Inr x, u) \<and> f x u = (Inl e, t))"
  by (auto simp: op_bind_def split: prod.splits sum.splits)

lemma op_guard_simps [simp]:
  "op_guard True e s = (Inr (), s)"
  "op_guard False e s = (Inl e, s)"
  "op_guard ok e s = (Inr u, t) \<longleftrightarrow> ok \<and> t = s"
  "op_guard ok e s = (Inl e', t) \<longleftrightarrow> \<not> ok \<and> e' = e \<and> t = s"
  by (auto simp: op_guard_def)

lemma op_when_simps [simp]:
  "op_when True m s = m s"
  "op_when False m s = (Inr (), s)"
  by (simp_all add: op_when_def)

subsection \<open>The control row\<close>

definition default_control :: NLegControl where
  "default_control =
     \<lparr>control_mode = ''MANUAL'', breaker_open = False, breaker_reason = None, active_batch_id = None,
      total_unsettled_capital_units = 0, contract_generation = 1, qualification_policy_version = 1,
      safety_config_version = 1, enabled_execution_scope_version = []\<rparr>"

definition n_leg_control :: "NLegStore \<Rightarrow> NLegControl" where
  "n_leg_control s = (case control_row s of None \<Rightarrow> default_control | Some c \<Rightarrow> c)"

lemma n_leg_control_updates [simp]:
  "n_leg_control (s\<lparr>control_row := Some c\<rparr>) = c"
  "n_leg_control (s\<lparr>policy_rows := p\<rparr>) = n_leg_control s"
  "n_leg_control (s\<lparr>safety_rows := p\<rparr>) = n_leg_control s"
  "n_leg_control (s\<lparr>scope_rows := r\<rparr>) = n_leg_control s"
  "n_leg_control (s\<lparr>control_events := e\<rparr>) = n_leg_control s"
  "n_leg_control (s\<lparr>request_rows := q\<rparr>) = n_leg_control s"
  "n_leg_control (s\<lparr>next_fifo_index := n\<rparr>) = n_leg_control s"
  "n_leg_control (s\<lparr>batch_rows := b\<rparr>) = n_leg_control s"
  "n_leg_control (s\<lparr>claim_rows := l\<rparr>) = n_leg_control s"
  "n_leg_control (s\<lparr>transition_rows := t\<rparr>) = n_leg_control s"
  by (simp_all add: n_leg_control_def)

definition set_control :: "(NLegControl \<Rightarrow> NLegControl) \<Rightarrow> NLegStore \<Rightarrow> NLegStore" where
  "set_control f s = s\<lparr>control_row := Some (f (n_leg_control s))\<rparr>"

lemma set_control_simps [simp]:
  "n_leg_control (set_control f s) = f (n_leg_control s)"
  "policy_rows (set_control f s) = policy_rows s"
  "safety_rows (set_control f s) = safety_rows s"
  "scope_rows (set_control f s) = scope_rows s"
  "control_events (set_control f s) = control_events s"
  "incident_rows (set_control f s) = incident_rows s"
  "request_rows (set_control f s) = request_rows s"
  "batch_rows (set_control f s) = batch_rows s"
  "claim_rows (set_control f s) = claim_rows s"
  "transition_rows (set_control f s) = transition_rows s"
  by (simp_all add: set_control_def n_leg_control_def)

definition require_positive :: "int option \<Rightarrow> string \<Rightarrow> unit result" where
  "require_positive v name =
     (case v of
        Some n \<Rightarrow> if n < 1 then Inl (ValueError (name @ '' must be a positive integer'')) else Inr ()
      | None \<Rightarrow> Inr ())"

definition valid_enabled_scopes :: "(string \<times> int) list \<Rightarrow> bool" where
  "valid_enabled_scopes xs \<longleftrightarrow> list_all (\<lambda>(i, v). i \<noteq> [] \<and> 1 \<le> v) xs"

definition or_else :: "'a option \<Rightarrow> 'a \<Rightarrow> 'a" where
  "or_else v d = (case v of None \<Rightarrow> d | Some x \<Rightarrow> x)"

lemma or_else_simps [simp]: "or_else None d = d" "or_else (Some x) d = x"
  by (simp_all add: or_else_def)

text \<open>An upsert of the mode fields: breaker, active batch and capital are those of the row, or the defaults.\<close>

definition n_leg_mode_control_write ::
  "string option \<Rightarrow> int option \<Rightarrow> int option \<Rightarrow> int option \<Rightarrow> (string \<times> int) list option \<Rightarrow> unit op" where
  "n_leg_mode_control_write mode generation policy_version safety_version enabled =
     op_bind (op_guard (mode = None \<or> mode \<in> {Some ''MANUAL'', Some ''AUTO''})
                (ValueError ''n-leg mode must be MANUAL or AUTO'')) (\<lambda>_.
     op_bind (op_lift (require_positive generation ''contract_generation'')) (\<lambda>_.
     op_bind (op_lift (require_positive policy_version ''qualification_policy_version'')) (\<lambda>_.
     op_bind (op_lift (require_positive safety_version ''safety_config_version'')) (\<lambda>_.
     op_bind (op_guard (\<forall>xs \<in> set_option enabled. valid_enabled_scopes xs)
                (ValueError ''enabled execution scope version entries are invalid'')) (\<lambda>_.
     op_update (set_control (\<lambda>c. c\<lparr>
       control_mode := or_else mode (control_mode c),
       contract_generation := or_else generation (contract_generation c),
       qualification_policy_version := or_else policy_version (qualification_policy_version c),
       safety_config_version := or_else safety_version (safety_config_version c),
       enabled_execution_scope_version := or_else enabled (enabled_execution_scope_version c)\<rparr>)))))))"

subsection \<open>Versioned tables\<close>

text \<open>\<open>ORDER BY version DESC LIMIT 1\<close>.\<close>

definition latest_row :: "(int \<times> 'a) list \<Rightarrow> (int \<times> 'a) option" where
  "latest_row rows =
     (if rows = [] then None
      else let v = Max (fst ` set rows) in map_option (Pair v) (map_of rows v))"

definition n_leg_qualification_policy_latest :: "NLegStore \<Rightarrow> (int \<times> json) option" where
  "n_leg_qualification_policy_latest s = latest_row (policy_rows s)"

definition n_leg_qualification_policy_write :: "int \<Rightarrow> json \<Rightarrow> unit op" where
  "n_leg_qualification_policy_write version policy =
     op_bind (op_guard (1 \<le> version) (ValueError ''qualification policy version must be a positive integer'')) (\<lambda>_.
     op_bind (op_lift (dump_payload policy)) (\<lambda>text.
     op_update (\<lambda>s. s\<lparr>policy_rows := AList.update version text (policy_rows s)\<rparr>)))"

definition n_leg_safety_config_latest :: "NLegStore \<Rightarrow> (int \<times> json) option" where
  "n_leg_safety_config_latest s = latest_row (safety_rows s)"

definition n_leg_safety_config_write :: "int \<Rightarrow> json \<Rightarrow> unit op" where
  "n_leg_safety_config_write version config =
     op_bind (op_guard (1 \<le> version) (ValueError ''safety config version must be a positive integer'')) (\<lambda>_.
     op_bind (op_lift (dump_payload config)) (\<lambda>text.
     op_update (\<lambda>s. s\<lparr>safety_rows := AList.update version text (safety_rows s)\<rparr>)))"

subsection \<open>Scopes, events and incidents\<close>

definition CAPABILITIES :: "string list" where
  "CAPABILITIES = [''OBSERVE_ONLY'', ''MANUAL_CANARY'', ''AUTO_ELIGIBLE'']"

definition n_leg_scopes :: "NLegStore \<Rightarrow> (string \<times> Scope) list" where
  "n_leg_scopes s = sort_key fst (scope_rows s)"

definition n_leg_scope :: "NLegStore \<Rightarrow> string \<Rightarrow> Scope option" where
  "n_leg_scope s i = map_of (scope_rows s) i"

definition n_leg_scope_write :: "string \<Rightarrow> string \<Rightarrow> int \<Rightarrow> json \<Rightarrow> unit op" where
  "n_leg_scope_write i capability version members =
     op_bind (op_guard (i \<noteq> []) (ValueError ''scope id must be non-empty text'')) (\<lambda>_.
     op_bind (op_guard (capability \<in> set CAPABILITIES) (ValueError ''scope capability is invalid'')) (\<lambda>_.
     op_bind (op_guard (1 \<le> version) (ValueError ''scope version must be a positive integer'')) (\<lambda>_.
     op_bind (op_lift (dump_payload members)) (\<lambda>text.
     op_update (\<lambda>s. s\<lparr>scope_rows := AList.update i
       \<lparr>scope_capability = capability, scope_version = version, scope_members = text\<rparr> (scope_rows s)\<rparr>)))))"

definition record_control_event :: "string \<Rightarrow> string \<Rightarrow> string \<Rightarrow> json \<Rightarrow> unit op" where
  "record_control_event action target outcome payload =
     op_bind (op_guard (outcome \<in> {''succeeded'', ''rejected'', ''failed''})
                (ValueError ''invalid terminal control outcome'')) (\<lambda>_.
     op_bind (op_lift (dump_payload payload)) (\<lambda>text.
     op_update (\<lambda>s. s\<lparr>control_events := control_events s
       @ [\<lparr>event_action = action, event_target = target, event_outcome = outcome, event_payload = text\<rparr>]\<rparr>)))"

definition unacknowledged_incident :: "NLegStore \<Rightarrow> bool" where
  "unacknowledged_incident s \<longleftrightarrow> list_ex (\<lambda>i. \<not> legacy_acknowledged i) (incident_rows s)"

definition n_leg_incident_batch :: "NLegStore \<Rightarrow> bool" where
  "n_leg_incident_batch s \<longleftrightarrow> list_ex (\<lambda>(_, b). batch_state b = INCIDENT) (batch_rows s)"

definition empty_store :: NLegStore where
  "empty_store =
     \<lparr>control_row = None, policy_rows = [], safety_rows = [], scope_rows = [], control_events = [],
      incident_rows = [], request_rows = [], next_fifo_index = 1, batch_rows = [], claim_rows = [],
      transition_rows = [], lp_session_active = False, lineage_rows = None, episode_closes = None\<rparr>"


subsection \<open>What the primitive operations do\<close>

lemma control_write_run:
  assumes "mode \<in> {None, Some ''MANUAL'', Some ''AUTO''}" and "1 \<le> generation" and "1 \<le> pv" and "1 \<le> sv"
    and "valid_enabled_scopes enabled"
  shows "n_leg_mode_control_write mode (Some generation) (Some pv) (Some sv) (Some enabled) s =
    (Inr (), set_control (\<lambda>c. c\<lparr>control_mode := or_else mode (control_mode c), contract_generation := generation,
       qualification_policy_version := pv, safety_config_version := sv,
       enabled_execution_scope_version := enabled\<rparr>) s)"
  using assms by (auto simp: n_leg_mode_control_write_def require_positive_def op_bind_def op_guard_def)

definition add_events :: "ControlEvent list \<Rightarrow> NLegStore \<Rightarrow> NLegStore" where
  "add_events es s = s\<lparr>control_events := control_events s @ es\<rparr>"

lemma add_events_simps [simp]:
  "n_leg_control (add_events es s) = n_leg_control s"
  "policy_rows (add_events es s) = policy_rows s"
  "safety_rows (add_events es s) = safety_rows s"
  "scope_rows (add_events es s) = scope_rows s"
  "control_events (add_events es s) = control_events s @ es"
  "incident_rows (add_events es s) = incident_rows s"
  "request_rows (add_events es s) = request_rows s"
  "batch_rows (add_events es s) = batch_rows s"
  "claim_rows (add_events es s) = claim_rows s"
  "transition_rows (add_events es s) = transition_rows s"
  "add_events es' (add_events es s) = add_events (es @ es') s"
  by (simp_all add: add_events_def n_leg_control_def)

lemma record_control_event_run:
  assumes "outcome \<in> {''succeeded'', ''rejected'', ''failed''}"
  shows "record_control_event action target outcome (JObj kvs) s =
    (Inr (), add_events [\<lparr>event_action = action, event_target = target, event_outcome = outcome,
                         event_payload = safe_value False (JObj kvs)\<rparr>] s)"
  using assms by (auto simp: record_control_event_def dump_payload_def op_bind_def op_guard_def add_events_def)

lemma AList_update_member: "x \<in> set (AList.update k v xs) \<Longrightarrow> x = (k, v) \<or> x \<in> set xs"
  by (induction xs) (auto split: if_splits)

lemma latest_row_update:
  assumes "\<forall>w \<in> fst ` set rows. w < v"
  shows "latest_row (AList.update v x rows) = Some (v, x)"
proof -
  have "Max (insert v (fst ` set rows)) = v"
    using assms by (intro Max_eqI) auto
  then show ?thesis
    by (simp add: latest_row_def update_conv)
qed

lemma latest_row_Some:
  assumes "latest_row rows = Some (v, x)"
  shows "(v, x) \<in> set rows \<and> (\<forall>w \<in> fst ` set rows. w \<le> v)"
  using assms by (force simp: latest_row_def Let_def split: if_splits dest: map_of_SomeD intro!: Max_ge)

lemma latest_row_None: "latest_row rows = None \<longleftrightarrow> rows = []"
proof (cases rows)
  case (Cons r rs)
  have "Max (fst ` set rows) \<in> fst ` set rows"
    using Cons by (intro Max_in) auto
  then obtain y where "(Max (fst ` set rows), y) \<in> set rows"
    by (metis imageE prod.collapse)
  then have "map_of rows (Max (fst ` set rows)) \<noteq> None"
    by (metis map_of_eq_None_iff fst_conv image_eqI)
  then show ?thesis
    using Cons by (simp add: latest_row_def Let_def)
qed (simp add: latest_row_def)

end
