(* ===== verification/NLeg_Mode.thy ===== *)
theory NLeg_Mode
  imports NLeg_Store
begin

section \<open>The versioned mode contract\<close>

text \<open>
  \<^verbatim>\<open>prediction_n_leg_mode.py\<close>: mode, scope capabilities, qualification policy and safety caps, each with its
  version, and the gates that decide whether an order may be sent. Dicts that come from a client or from a
  stored row are JSON values; a validated policy or safety config is a record. Dict equality is equality of
  the records.
\<close>

subsection \<open>Policies and safety configs\<close>

record Policy =
  min_profit_usd :: string
  min_net_margin :: string
  min_annualized_return :: string
  max_capital_release_days :: int

record SafetyConfig =
  episode_rearm_gap_seconds :: int
  max_per_trade_cost_units :: int
  max_total_unsettled_capital_units :: int
  max_partial_fill_loss_units :: int
  max_auto_repair_loss_units :: int
  max_quote_age_seconds :: int
  max_cross_leg_skew_seconds :: int
  max_leg_submit_seconds :: int
  reconciliation_timeout_seconds :: int

definition DEFAULT_QUALIFICATION_POLICY :: Policy where
  "DEFAULT_QUALIFICATION_POLICY =
     \<lparr>min_profit_usd = ''1.00'', min_net_margin = ''0.01'', min_annualized_return = ''0.15'',
      max_capital_release_days = 30\<rparr>"

definition DEFAULT_SAFETY_CONFIG :: SafetyConfig where
  "DEFAULT_SAFETY_CONFIG =
     \<lparr>episode_rearm_gap_seconds = 300, max_per_trade_cost_units = 0, max_total_unsettled_capital_units = 0,
      max_partial_fill_loss_units = 0, max_auto_repair_loss_units = 0, max_quote_age_seconds = 10,
      max_cross_leg_skew_seconds = 5, max_leg_submit_seconds = 15, reconciliation_timeout_seconds = 60\<rparr>"

definition policy_keys :: "string list" where
  "policy_keys = [''min_profit_usd'', ''min_net_margin'', ''min_annualized_return'', ''max_capital_release_days'']"

definition required_safety_keys :: "string list" where
  "required_safety_keys =
     [''episode_rearm_gap_seconds'', ''max_per_trade_cost_units'', ''max_total_unsettled_capital_units'',
      ''max_partial_fill_loss_units'', ''max_auto_repair_loss_units'']"

definition optional_safety_defaults :: "(string \<times> int) list" where
  "optional_safety_defaults =
     [(''max_quote_age_seconds'', 10), (''max_cross_leg_skew_seconds'', 5), (''max_leg_submit_seconds'', 15),
      (''reconciliation_timeout_seconds'', 60)]"

definition CAPS_CONFIGURED_KEY :: string where
  "CAPS_CONFIGURED_KEY = ''caps_configured''"

fun object_fields :: "json \<Rightarrow> (string \<times> json) list option" where
  "object_fields (JObj kvs) = Some kvs"
| "object_fields _ = None"

fun positive_int :: "json option \<Rightarrow> string \<Rightarrow> int result" where
  "positive_int (Some (JInt n)) name =
     (if n < 1 then Inl (ValueError (name @ '' must be a positive integer'')) else Inr n)"
| "positive_int v name = Inl (ValueError (name @ '' must be a positive integer''))"

fun nonnegative_int :: "json option \<Rightarrow> string \<Rightarrow> int result" where
  "nonnegative_int (Some (JInt n)) name =
     (if n < 0 then Inl (ValueError (name @ '' must be a non-negative integer'')) else Inr n)"
| "nonnegative_int v name = Inl (ValueError (name @ '' must be a non-negative integer''))"

fun money :: "json option \<Rightarrow> string \<Rightarrow> decimal result" where
  "money (Some (JStr text)) name =
     (case parse_decimal text of
        None \<Rightarrow> Inl (ValueError (name @ '' must be a decimal string''))
      | Some d \<Rightarrow>
          if \<not> is_finite d \<or> decimal_value d < 0 then Inl (ValueError (name @ '' must be non-negative'')) else Inr d)"
| "money v name = Inl (ValueError (name @ '' must be a decimal string''))"

definition validated_policy :: "json \<Rightarrow> Policy result" where
  "validated_policy policy =
     (case object_fields policy of
        None \<Rightarrow> Inl (ValueError ''qualification policy fields are invalid'')
      | Some kvs \<Rightarrow>
          if fst ` set kvs \<noteq> set policy_keys then Inl (ValueError ''qualification policy fields are invalid'')
          else
            rbind (money (map_of kvs ''min_profit_usd'') ''min_profit_usd'') (\<lambda>profit.
            rbind (money (map_of kvs ''min_net_margin'') ''min_net_margin'') (\<lambda>margin.
            rbind (money (map_of kvs ''min_annualized_return'') ''min_annualized_return'') (\<lambda>annualized.
            rbind (positive_int (map_of kvs ''max_capital_release_days'') ''max_capital_release_days'') (\<lambda>days.
            Inr \<lparr>min_profit_usd = decimal_str profit, min_net_margin = decimal_str margin,
                 min_annualized_return = decimal_str annualized, max_capital_release_days = days\<rparr>)))))"

definition policy_json :: "Policy \<Rightarrow> json" where
  "policy_json p =
     JObj [(''min_profit_usd'', JStr (min_profit_usd p)), (''min_net_margin'', JStr (min_net_margin p)),
       (''min_annualized_return'', JStr (min_annualized_return p)),
       (''max_capital_release_days'', JInt (max_capital_release_days p))]"

definition optional_seconds :: "(string \<times> json) list \<Rightarrow> string \<Rightarrow> int result" where
  "optional_seconds kvs key =
     (if key \<in> fst ` set kvs then positive_int (map_of kvs key) key
      else Inr (or_else (map_of optional_safety_defaults key) 0))"

definition validated_safety_config :: "json \<Rightarrow> SafetyConfig result" where
  "validated_safety_config config =
     (case object_fields config of
        None \<Rightarrow> Inl (ValueError ''safety config fields are invalid'')
      | Some kvs \<Rightarrow>
          if \<not> fst ` set kvs \<subseteq> set required_safety_keys \<union> fst ` set optional_safety_defaults
             \<or> \<not> set required_safety_keys \<subseteq> fst ` set kvs
          then Inl (ValueError ''safety config fields are invalid'')
          else
            rbind (positive_int (map_of kvs ''episode_rearm_gap_seconds'') ''episode_rearm_gap_seconds'') (\<lambda>gap.
            rbind (nonnegative_int (map_of kvs ''max_per_trade_cost_units'') ''max_per_trade_cost_units'') (\<lambda>trade.
            rbind (nonnegative_int (map_of kvs ''max_total_unsettled_capital_units'')
                     ''max_total_unsettled_capital_units'') (\<lambda>unsettled.
            rbind (nonnegative_int (map_of kvs ''max_partial_fill_loss_units'') ''max_partial_fill_loss_units'') (\<lambda>partial.
            rbind (nonnegative_int (map_of kvs ''max_auto_repair_loss_units'') ''max_auto_repair_loss_units'') (\<lambda>repair.
            rbind (optional_seconds kvs ''max_quote_age_seconds'') (\<lambda>age.
            rbind (optional_seconds kvs ''max_cross_leg_skew_seconds'') (\<lambda>skew.
            rbind (optional_seconds kvs ''max_leg_submit_seconds'') (\<lambda>submit.
            rbind (optional_seconds kvs ''reconciliation_timeout_seconds'') (\<lambda>timeout.
            Inr \<lparr>episode_rearm_gap_seconds = gap, max_per_trade_cost_units = trade,
                 max_total_unsettled_capital_units = unsettled, max_partial_fill_loss_units = partial,
                 max_auto_repair_loss_units = repair, max_quote_age_seconds = age,
                 max_cross_leg_skew_seconds = skew, max_leg_submit_seconds = submit,
                 reconciliation_timeout_seconds = timeout\<rparr>))))))))))"

definition safety_fields :: "SafetyConfig \<Rightarrow> (string \<times> json) list" where
  "safety_fields c =
     [(''episode_rearm_gap_seconds'', JInt (episode_rearm_gap_seconds c)),
      (''max_per_trade_cost_units'', JInt (max_per_trade_cost_units c)),
      (''max_total_unsettled_capital_units'', JInt (max_total_unsettled_capital_units c)),
      (''max_partial_fill_loss_units'', JInt (max_partial_fill_loss_units c)),
      (''max_auto_repair_loss_units'', JInt (max_auto_repair_loss_units c)),
      (''max_quote_age_seconds'', JInt (max_quote_age_seconds c)),
      (''max_cross_leg_skew_seconds'', JInt (max_cross_leg_skew_seconds c)),
      (''max_leg_submit_seconds'', JInt (max_leg_submit_seconds c)),
      (''reconciliation_timeout_seconds'', JInt (reconciliation_timeout_seconds c))]"

text \<open>The read path: the marker is taken off, fields that older rows lack get their defaults.\<close>

definition set_default :: "string \<Rightarrow> json \<Rightarrow> (string \<times> json) list \<Rightarrow> (string \<times> json) list" where
  "set_default k v kvs = (if k \<in> fst ` set kvs then kvs else kvs @ [(k, v)])"

definition stored_safety_config :: "json \<Rightarrow> (SafetyConfig \<times> bool) result" where
  "stored_safety_config config =
     (case object_fields config of
        None \<Rightarrow> Inl (ValueError ''safety config fields are invalid'')
      | Some kvs \<Rightarrow>
          if map_of kvs CAPS_CONFIGURED_KEY \<notin> {None, Some JNull, Some (JBool True), Some (JBool False)}
          then Inl (ValueError ''safety config fields are invalid'')
          else
            let client = filter (\<lambda>(k, _). k \<noteq> CAPS_CONFIGURED_KEY) kvs;
                client = fold (\<lambda>(k, d). set_default k (JInt d)) optional_safety_defaults client;
                client = set_default ''max_per_trade_cost_units''
                  (JInt (max_per_trade_cost_units DEFAULT_SAFETY_CONFIG)) client
            in
            rbind (validated_safety_config (JObj client)) (\<lambda>validated.
            Inr (validated, map_of kvs CAPS_CONFIGURED_KEY = Some (JBool True))))"

definition validated_members :: "json \<Rightarrow> json result" where
  "validated_members members =
     (case object_fields members of
        None \<Rightarrow> Inl (ValueError ''scope members must be a non-empty object'')
      | Some kvs \<Rightarrow> if kvs = [] then Inl (ValueError ''scope members must be a non-empty object'') else Inr members)"

definition current_policy :: "NLegStore \<Rightarrow> (int \<times> Policy) result" where
  "current_policy s =
     (case n_leg_qualification_policy_latest s of
        None \<Rightarrow> Inr (1, DEFAULT_QUALIFICATION_POLICY)
      | Some (version, policy) \<Rightarrow>
          rbind (positive_int (Some (JInt version)) ''policy version'') (\<lambda>v.
          rbind (validated_policy policy) (\<lambda>p. Inr (v, p))))"

text \<open>The second component of a safety config as read is the caps-confirmation marker.\<close>

definition current_safety_config :: "NLegStore \<Rightarrow> (int \<times> SafetyConfig \<times> bool) result" where
  "current_safety_config s =
     (case n_leg_safety_config_latest s of
        None \<Rightarrow> Inr (1, DEFAULT_SAFETY_CONFIG, False)
      | Some (version, config) \<Rightarrow>
          rbind (positive_int (Some (JInt version)) ''safety version'') (\<lambda>v.
          rbind (stored_safety_config config) (\<lambda>c. Inr (v, c))))"

definition n_leg_caps_gate :: "NLegStore \<Rightarrow> (bool \<times> string) result" where
  "n_leg_caps_gate s =
     (case n_leg_safety_config_latest s of
        None \<Rightarrow> Inr (False, ''CAPS_NOT_CONFIGURED'')
      | Some (_, config) \<Rightarrow>
          rbind (stored_safety_config config) (\<lambda>(_, marker).
          Inr (if marker then (True, ''CAPS_CONFIGURED'') else (False, ''CAPS_NOT_CONFIGURED''))))"

subsection \<open>The contract\<close>

record ExecutionGates =
  gate_breaker_open :: bool
  gate_incident_active :: bool
  gate_batch_active :: bool

record ModeContract =
  contract_contract_generation :: int
  contract_mode :: string
  contract_policy_version :: int
  contract_policy :: Policy
  contract_safety_version :: int
  contract_safety :: SafetyConfig
  contract_caps_configured :: bool
  contract_scopes :: "(string \<times> Scope) list"
  contract_enabled :: "(string \<times> int) list"
  contract_gates :: ExecutionGates

definition n_leg_mode_contract :: "NLegStore \<Rightarrow> ModeContract result" where
  "n_leg_mode_contract s =
     (let c = n_leg_control s in
      rbind (current_policy s) (\<lambda>policy.
      rbind (current_safety_config s) (\<lambda>safety.
      rbind (positive_int (Some (JInt (contract_generation c))) ''contract_generation'') (\<lambda>generation.
      rbind (positive_int (Some (JInt (qualification_policy_version c))) ''qualification_policy_version'') (\<lambda>pv.
      rbind (positive_int (Some (JInt (safety_config_version c))) ''safety_config_version'') (\<lambda>sv.
      Inr \<lparr>contract_contract_generation = generation, contract_mode = control_mode c, contract_policy_version = pv,
           contract_policy = snd policy, contract_safety_version = sv, contract_safety = fst (snd safety),
           contract_caps_configured = snd (snd safety),
           contract_scopes = n_leg_scopes s, contract_enabled = enabled_execution_scope_version c,
           contract_gates =
             \<lparr>gate_breaker_open = breaker_open c,
              gate_incident_active = (unacknowledged_incident s \<or> n_leg_incident_batch s),
              gate_batch_active = (active_batch_id c \<noteq> None)\<rparr>\<rparr>))))))"

definition audit_dict :: "json \<Rightarrow> (string \<times> json) list" where
  "audit_dict audit = or_else (object_fields audit) []"

text \<open>\<open>{**fields, **audit}\<close>.\<close>

definition with_audit :: "(string \<times> json) list \<Rightarrow> json \<Rightarrow> json" where
  "with_audit entries audit = JObj (fold (\<lambda>(k, v). AList.update k v) (audit_dict audit) entries)"

definition write_word :: "string \<Rightarrow> string" where
  "write_word mode = (if mode = ''AUTO'' then ''auto_submit'' else ''manual_confirm'')"

definition scope_drifted :: "NLegStore \<Rightarrow> string \<times> int \<Rightarrow> bool" where
  "scope_drifted s item =
     (case n_leg_scope s (fst item) of None \<Rightarrow> True | Some scope \<Rightarrow> scope_version scope \<noteq> snd item)"

definition require_auto_enable :: "string option \<Rightarrow> NLegStore \<Rightarrow> unit result" where
  "require_auto_enable incident_id s =
     (let c = n_leg_control s in
      all_required
        [require (\<not> breaker_open c) ''N_LEG_BREAKER_OPEN'',
         require (active_batch_id c = None) ''N_LEG_ACTIVE_BATCH_EXISTS'',
         require (\<not> unacknowledged_incident s) ''N_LEG_INCIDENT_ACTIVE'',
         require (\<not> list_ex (scope_drifted s) (enabled_execution_scope_version c)) ''N_LEG_SCOPE_VERSION_DRIFT'',
         require (incident_rows s = []
             \<or> (\<exists>i \<in> set_option incident_id. i \<noteq> []
                 \<and> list_ex (\<lambda>r. legacy_incident_id r = i \<and> legacy_acknowledged r) (incident_rows s)))
           ''N_LEG_AUTO_REQUIRES_RESOLVED_INCIDENT''])"

text \<open>The control write of an operation that leaves the versions alone.\<close>

definition write_mode :: "string option \<Rightarrow> (string \<times> int) list option \<Rightarrow> unit op" where
  "write_mode mode enabled =
     op_bind (op_read n_leg_control) (\<lambda>c.
     n_leg_mode_control_write mode (Some (contract_generation c)) (Some (qualification_policy_version c))
       (Some (safety_config_version c)) (Some (or_else enabled (enabled_execution_scope_version c))))"

definition n_leg_set_mode :: "string \<Rightarrow> int \<Rightarrow> string option \<Rightarrow> json \<Rightarrow> ModeContract op" where
  "n_leg_set_mode mode base_generation incident_id audit =
     op_bind (op_guard (mode \<in> {''MANUAL'', ''AUTO''}) (ValueError ''n-leg mode must be MANUAL or AUTO'')) (\<lambda>_.
     op_bind (op_read n_leg_control) (\<lambda>c.
     op_bind (op_guard (contract_generation c = base_generation)
                (VersionConflict ''n-leg contract generation mismatch'')) (\<lambda>_.
     op_bind (if mode = ''AUTO'' then op_try (require_auto_enable incident_id) else op_return ()) (\<lambda>_.
     op_bind (write_mode (Some mode) None) (\<lambda>_.
     op_bind (record_control_event ''n_leg_set_mode'' ''n_leg_controls'' ''succeeded''
                (with_audit [(''mode'', JStr mode), (''action_word'', JStr (write_word mode))] audit)) (\<lambda>_.
     op_try n_leg_mode_contract))))))"

definition n_leg_set_enabled_scope :: "string \<Rightarrow> bool \<Rightarrow> int \<Rightarrow> json \<Rightarrow> ModeContract op" where
  "n_leg_set_enabled_scope scope_id enable base_generation audit =
     op_bind (op_guard (scope_id \<noteq> []) (ValueError ''scope id must be non-empty text'')) (\<lambda>_.
     op_bind (op_read n_leg_control) (\<lambda>c.
     op_bind (op_guard (contract_generation c = base_generation)
                (VersionConflict ''n-leg contract generation mismatch'')) (\<lambda>_.
     let enabled = enabled_execution_scope_version c;
         current = map_of enabled scope_id;
         others = filter (\<lambda>(i, _). i \<noteq> scope_id) enabled;
         write = (\<lambda>enabled' downgrade.
           op_bind (write_mode
                      (Some (if downgrade \<and> control_mode c = ''AUTO'' then ''MANUAL'' else control_mode c))
                      (Some enabled')) (\<lambda>_.
           op_bind (op_when downgrade
                      (record_control_event ''n_leg_auto_downgrade'' ''n_leg_controls'' ''failed''
                        (with_audit [(''reason'', JStr ''SCOPE_ENABLED_EXPANSION''), (''scope_id'', JStr scope_id),
                          (''mode'', JStr ''MANUAL''), (''action_word'', JStr ''manual_confirm'')] audit))) (\<lambda>_.
           op_bind (op_read n_leg_control) (\<lambda>c'.
           op_bind (record_control_event ''n_leg_set_enabled_scope'' (''n_leg_execution_scopes/'' @ scope_id) ''succeeded''
                      (with_audit [(''scope_id'', JStr scope_id), (''enable'', JBool enable),
                        (''action_word'', JStr (write_word (control_mode c')))] audit)) (\<lambda>_.
           op_try n_leg_mode_contract)))))
     in
     if enable
     then
       op_bind (op_read (\<lambda>s. n_leg_scope s scope_id)) (\<lambda>registered.
       case registered of
         None \<Rightarrow> op_raise (ValueError ''N_LEG_SCOPE_NOT_REGISTERED'')
       | Some scope \<Rightarrow>
           if current = Some (scope_version scope) then op_try n_leg_mode_contract
           else write (others @ [(scope_id, scope_version scope)]) (current = None))
     else write others False)))"

definition downgrade :: "string \<Rightarrow> json \<Rightarrow> int option \<Rightarrow> int option \<Rightarrow> unit op" where
  "downgrade reason audit policy_version safety_version =
     op_bind (op_read n_leg_control) (\<lambda>c.
     op_bind (n_leg_mode_control_write (Some ''MANUAL'') (Some (contract_generation c))
                (Some (or_else policy_version (qualification_policy_version c)))
                (Some (or_else safety_version (safety_config_version c)))
                (Some (enabled_execution_scope_version c))) (\<lambda>_.
     record_control_event ''n_leg_auto_downgrade'' ''n_leg_controls'' ''failed''
       (with_audit [(''reason'', JStr reason), (''mode'', JStr ''MANUAL''),
         (''action_word'', JStr ''manual_confirm'')] audit)))"

record ScopeAdmission =
  admission_ok :: bool
  admission_mode :: string
  admission_downgraded :: bool
  admission_scope_ids :: "string list"

definition n_leg_enforce_auto_scope_versions :: "json \<Rightarrow> ScopeAdmission op" where
  "n_leg_enforce_auto_scope_versions audit =
     op_bind (op_read n_leg_control) (\<lambda>c.
     if control_mode c \<noteq> ''AUTO''
     then op_return \<lparr>admission_ok = True, admission_mode = ''MANUAL'', admission_downgraded = False,
                     admission_scope_ids = []\<rparr>
     else
       op_bind (op_read (\<lambda>s. map fst (filter (scope_drifted s) (enabled_execution_scope_version c)))) (\<lambda>drift.
       if drift = []
       then op_return \<lparr>admission_ok = True, admission_mode = ''AUTO'', admission_downgraded = False,
                       admission_scope_ids = []\<rparr>
       else
         op_bind (downgrade ''SCOPE_VERSION_DRIFT'' audit None None) (\<lambda>_.
         op_bind (record_control_event ''n_leg_auto_downgrade'' ''n_leg_controls'' ''failed''
                    (with_audit [(''reason'', JStr ''SCOPE_VERSION_DRIFT''), (''scope_ids'', json_strings drift),
                      (''mode'', JStr ''MANUAL''), (''action_word'', JStr ''manual_confirm'')] audit)) (\<lambda>_.
         op_return \<lparr>admission_ok = False, admission_mode = ''MANUAL'', admission_downgraded = True,
                     admission_scope_ids = drift\<rparr>))))"


subsection \<open>Updates of the versioned parts\<close>

definition money_less :: "string \<Rightarrow> string \<Rightarrow> string \<Rightarrow> bool result" where
  "money_less a b name =
     rbind (money (Some (JStr a)) name) (\<lambda>x.
     rbind (money (Some (JStr b)) name) (\<lambda>y. Inr (decimal_value x < decimal_value y)))"

definition ror :: "bool result \<Rightarrow> bool result \<Rightarrow> bool result" where
  "ror a b = rbind a (\<lambda>x. if x then Inr True else b)"

definition policy_direction :: "Policy \<Rightarrow> Policy \<Rightarrow> string result" where
  "policy_direction before after =
     rbind (ror (money_less (min_profit_usd after) (min_profit_usd before) ''min_profit_usd'')
           (ror (money_less (min_net_margin after) (min_net_margin before) ''min_net_margin'')
           (ror (money_less (min_annualized_return after) (min_annualized_return before) ''min_annualized_return'')
                (Inr (max_capital_release_days before < max_capital_release_days after))))) (\<lambda>looser.
     Inr (if looser then ''loosen'' else if before = after then ''same'' else ''tighten''))"

definition safety_direction :: "SafetyConfig \<Rightarrow> SafetyConfig \<Rightarrow> string" where
  "safety_direction before after =
     (if episode_rearm_gap_seconds after < episode_rearm_gap_seconds before
         \<or> max_total_unsettled_capital_units before < max_total_unsettled_capital_units after
         \<or> max_partial_fill_loss_units before < max_partial_fill_loss_units after
         \<or> max_auto_repair_loss_units before < max_auto_repair_loss_units after
      then ''loosen'' else if before = after then ''same'' else ''tighten'')"

definition n_leg_update_qualification_policy :: "json \<Rightarrow> int \<Rightarrow> json \<Rightarrow> ModeContract op" where
  "n_leg_update_qualification_policy policy base_version audit =
     op_bind (op_lift (validated_policy policy)) (\<lambda>validated.
     op_bind (op_try current_policy) (\<lambda>current.
     op_bind (op_guard (fst current = base_version) (VersionConflict ''qualification policy version mismatch'')) (\<lambda>_.
     op_bind (op_lift (policy_direction (snd current) validated)) (\<lambda>direction.
     let next_version = fst current + 1 in
     op_bind (n_leg_qualification_policy_write next_version (policy_json validated)) (\<lambda>_.
     op_bind (op_read n_leg_control) (\<lambda>c.
     op_bind
       (if direction = ''loosen'' \<and> control_mode c = ''AUTO''
        then downgrade ''QUALIFICATION_POLICY_LOOSENED'' audit (Some next_version) None
        else n_leg_mode_control_write None (Some (contract_generation c)) (Some next_version)
               (Some (safety_config_version c)) (Some (enabled_execution_scope_version c))) (\<lambda>_.
     op_bind (op_read n_leg_control) (\<lambda>c'.
     op_bind (record_control_event ''n_leg_update_qualification_policy'' ''n_leg_controls'' ''succeeded''
                (with_audit [(''qualification_policy_version'', JInt next_version), (''direction'', JStr direction),
                  (''action_word'', JStr (write_word (control_mode c')))] audit)) (\<lambda>_.
     op_try n_leg_mode_contract)))))))))"

text \<open>\<open>{**validated, CAPS_CONFIGURED_KEY: True}\<close>.\<close>

definition stored_safety_json :: "SafetyConfig \<Rightarrow> json" where
  "stored_safety_json c = JObj (safety_fields c @ [(CAPS_CONFIGURED_KEY, JBool True)])"

definition n_leg_update_safety_config :: "json \<Rightarrow> int \<Rightarrow> json \<Rightarrow> ModeContract op" where
  "n_leg_update_safety_config config base_version audit =
     op_bind (op_lift (validated_safety_config config)) (\<lambda>validated.
     op_bind (op_try current_safety_config) (\<lambda>current.
     op_bind (op_guard (fst current = base_version) (VersionConflict ''safety config version mismatch'')) (\<lambda>_.
     let direction = safety_direction (fst (snd current)) validated;
         next_version = fst current + 1 in
     op_bind (n_leg_safety_config_write next_version (stored_safety_json validated)) (\<lambda>_.
     op_bind (op_read n_leg_control) (\<lambda>c.
     op_bind
       (if direction = ''loosen'' \<and> control_mode c = ''AUTO''
        then downgrade ''SAFETY_CONFIG_LOOSENED'' audit None (Some next_version)
        else n_leg_mode_control_write None (Some (contract_generation c)) (Some (qualification_policy_version c))
               (Some next_version) (Some (enabled_execution_scope_version c))) (\<lambda>_.
     op_bind (op_read n_leg_control) (\<lambda>c'.
     op_bind (record_control_event ''n_leg_update_safety_config'' ''n_leg_controls'' ''succeeded''
                (with_audit [(''safety_config_version'', JInt next_version), (''direction'', JStr direction),
                  (''action_word'', JStr (write_word (control_mode c')))] audit)) (\<lambda>_.
     op_try n_leg_mode_contract))))))))"

subsection \<open>Execution scopes\<close>

definition SAME_EVENT_SAME_VENUE_SCOPE_ID :: string where
  "SAME_EVENT_SAME_VENUE_SCOPE_ID = ''SAME_EVENT_SAME_VENUE''"

definition SAME_EVENT_SAME_VENUE_MEMBERS :: json where
  "SAME_EVENT_SAME_VENUE_MEMBERS =
     JObj [(''relation_type'', JStr ''complement''), (''same_event'', JBool True), (''same_venue'', JBool True),
       (''venues'', JList [JStr ''polymarket''])]"

text \<open>Equality of dicts, which ignores the order of the keys and where \<open>True == 1\<close>.\<close>

function (sequential) json_eq :: "json \<Rightarrow> json \<Rightarrow> bool" where
  "json_eq (JObj a) (JObj b) \<longleftrightarrow>
     length a = length b \<and> list_all (\<lambda>(k, v). case map_of b k of None \<Rightarrow> False | Some w \<Rightarrow> json_eq v w) a"
| "json_eq (JList xs) (JList ys) \<longleftrightarrow> length xs = length ys \<and> list_all (\<lambda>(x, y). json_eq x y) (zip xs ys)"
| "json_eq (JBool p) (JInt n) \<longleftrightarrow> n = (if p then 1 else 0)"
| "json_eq (JInt n) (JBool p) \<longleftrightarrow> n = (if p then 1 else 0)"
| "json_eq v w \<longleftrightarrow> v = w"
  by pat_completeness auto
termination
proof (relation "measure (size \<circ> fst)", goal_cases)
  case (3 xs ys z x y)
  then show ?case
    by (force dest!: set_zip_leftD simp: less_Suc_eq_le intro: size_list_estimation')
qed (force simp: less_Suc_eq_le intro: size_list_estimation')+

definition scope_direction :: "Scope \<Rightarrow> string \<Rightarrow> json \<Rightarrow> string" where
  "scope_direction existing capability members =
     (if capability \<noteq> scope_capability existing
      then (if scope_capability existing < capability then ''loosen'' else ''tighten'')
      else if \<not> json_eq members (scope_members existing) then ''changed'' else ''same'')"

definition scope_change :: "Scope option \<Rightarrow> string \<Rightarrow> json \<Rightarrow> int option \<Rightarrow> (int \<times> string) result" where
  "scope_change existing capability members base_scope_version =
     (case existing of
        None \<Rightarrow>
          if capability \<noteq> ''OBSERVE_ONLY'' then Inl (ValueError ''N_LEG_SCOPE_STARTS_OBSERVE_ONLY'')
          else Inr (1, ''added'')
      | Some scope \<Rightarrow>
          if base_scope_version \<noteq> Some (scope_version scope) then Inl (VersionConflict ''scope version mismatch'')
          else Inr (scope_version scope + 1, scope_direction scope capability members))"

definition downgrade_reason :: "string \<Rightarrow> string" where
  "downgrade_reason direction =
     (if direction = ''loosen'' then ''SCOPE_CAPABILITY_RAISED''
      else if direction = ''changed'' then ''SCOPE_MEMBERS_CHANGED'' else ''SCOPE_ADDED'')"

definition n_leg_upsert_scope :: "string \<Rightarrow> string \<Rightarrow> json \<Rightarrow> int option \<Rightarrow> json \<Rightarrow> ModeContract op" where
  "n_leg_upsert_scope scope_id capability members base_scope_version audit =
     op_bind (op_guard (scope_id \<noteq> []) (ValueError ''scope id must be non-empty text'')) (\<lambda>_.
     op_bind (op_guard (capability \<in> set CAPABILITIES) (ValueError ''scope capability is invalid'')) (\<lambda>_.
     op_bind (op_lift (validated_members members)) (\<lambda>validated.
     op_bind (op_read (\<lambda>s. n_leg_scope s scope_id)) (\<lambda>existing.
     op_bind (op_lift (scope_change existing capability validated base_scope_version)) (\<lambda>(version, direction).
     op_bind (n_leg_scope_write scope_id capability version validated) (\<lambda>_.
     op_bind (op_read n_leg_control) (\<lambda>c.
     op_bind (op_when (direction \<in> {''loosen'', ''changed'', ''added''} \<and> control_mode c = ''AUTO'')
                (downgrade (downgrade_reason direction) audit None None)) (\<lambda>_.
     op_bind (op_read n_leg_control) (\<lambda>c'.
     op_bind (record_control_event ''n_leg_upsert_scope'' (''n_leg_execution_scopes/'' @ scope_id) ''succeeded''
                (with_audit [(''scope_id'', JStr scope_id), (''capability'', JStr capability),
                  (''scope_version'', JInt version), (''direction'', JStr direction),
                  (''action_word'', JStr (write_word (control_mode c')))] audit)) (\<lambda>_.
     op_try n_leg_mode_contract))))))))))"

definition ensure_same_event_same_venue_scope :: "bool op" where
  "ensure_same_event_same_venue_scope s =
     (if n_leg_scope s SAME_EVENT_SAME_VENUE_SCOPE_ID \<noteq> None then (Inr False, s)
      else case n_leg_upsert_scope SAME_EVENT_SAME_VENUE_SCOPE_ID ''OBSERVE_ONLY'' SAME_EVENT_SAME_VENUE_MEMBERS
                  None JNull s of
             (Inr _, s') \<Rightarrow> (Inr True, s')
           | (Inl _, s') \<Rightarrow> (Inr False, s'))"

subsection \<open>Readiness\<close>

record ScopeReadiness =
  entry_scope_id :: string
  entry_order_ready :: bool
  entry_reason :: string
  entry_action :: "string option"

record OrderReadiness =
  ready_any :: bool
  ready_gates :: ExecutionGates
  ready_scopes :: "ScopeReadiness list"

definition scope_readiness :: "string \<Rightarrow> (string \<Rightarrow> int option) \<Rightarrow> string \<Rightarrow> Scope \<Rightarrow> ScopeReadiness" where
  "scope_readiness mode enabled scope_id scope =
     (let entry = (\<lambda>ready reason action.
            \<lparr>entry_scope_id = scope_id, entry_order_ready = ready, entry_reason = reason, entry_action = action\<rparr>)
      in
      if scope_capability scope = ''OBSERVE_ONLY'' then entry False ''SCOPE_OBSERVE_ONLY'' None
      else if scope_capability scope = ''MANUAL_CANARY''
      then if mode = ''MANUAL'' then entry True ''MANUAL_CANARY'' (Some ''manual_confirm'')
           else entry False ''MANUAL_CANARY_REQUIRES_MANUAL'' None
      else if mode = ''AUTO'' \<and> enabled scope_id = Some (scope_version scope)
      then entry True ''AUTO_ELIGIBLE'' (Some ''auto_submit'')
      else if mode = ''MANUAL'' then entry True ''MANUAL_CONFIRM_ALLOWED'' (Some ''manual_confirm'')
      else entry False ''SCOPE_NOT_ENABLED'' None)"

definition gate_reason :: "ExecutionGates \<Rightarrow> string option" where
  "gate_reason g =
     (if gate_breaker_open g then Some ''GLOBAL_BREAKER_OPEN''
      else if gate_incident_active g then Some ''EXECUTION_INCIDENT_ACTIVE''
      else if gate_batch_active g then Some ''EXECUTION_BATCH_ACTIVE'' else None)"

definition contract_readiness :: "ModeContract \<Rightarrow> OrderReadiness" where
  "contract_readiness current =
     (let enabled = map_of (rev (contract_enabled current));
          scopes = map (\<lambda>(i, scope). scope_readiness (contract_mode current) enabled i scope) (contract_scopes current);
          gated = (case gate_reason (contract_gates current) of
            None \<Rightarrow> scopes
          | Some reason \<Rightarrow>
              map (\<lambda>e. e\<lparr>entry_order_ready := False, entry_reason := reason, entry_action := None\<rparr>) scopes)
      in \<lparr>ready_any = list_ex entry_order_ready gated, ready_gates = contract_gates current, ready_scopes = gated\<rparr>)"

definition n_leg_order_readiness :: "NLegStore \<Rightarrow> OrderReadiness result" where
  "n_leg_order_readiness s = rbind (n_leg_mode_contract s) (\<lambda>contract. Inr (contract_readiness contract))"

end
