(* ===== verification/Mode_Contract.thy ===== *)
theory Mode_Contract
  imports NLeg_Mode
begin

section \<open>The mode contract is always readable and only tightens by itself\<close>

text \<open>
  Facts about the operations of \<^verbatim>\<open>prediction_n_leg_mode.py\<close>: what is written reads back, every operation keeps
  the control row, the versioned tables and the scopes consistent, and AUTO is reached only through the
  guarded switch.
\<close>

subsection \<open>What is stored reads back\<close>

lemma public_config_fields:
  "list_all public_name (policy_keys @ required_safety_keys @ map fst optional_safety_defaults @ [CAPS_CONFIGURED_KEY])"
  by code_simp

lemma plain_config_fields:
  "list_all (\<lambda>k. \<not> dropped_field allow k) (policy_keys @ required_safety_keys @ map fst optional_safety_defaults
     @ [CAPS_CONFIGURED_KEY])"
  using public_config_fields by (rule list.pred_mono_strong) (rule public_name_kept)

lemma money_text:
  assumes "money v name = Inr d"
  shows "money (Some (JStr (decimal_str d))) name' = Inr d"
proof -
  obtain s where "v = Some (JStr s)" and d: "parse_decimal s = Some d" "is_finite d" "0 \<le> decimal_value d"
    using assms by (cases "(v, name)" rule: money.cases) (auto split: option.splits if_splits)
  then obtain neg c e where "d = Finite neg c e"
    by (cases d) auto
  then show ?thesis
    using d decimal_round_trip[of neg c e] by (simp del: decimal_str.simps)
qed

lemma validated_policy_stored:
  assumes "validated_policy j = Inr p"
  shows "validated_policy (policy_json p) = Inr p" and "dump_payload (policy_json p) = Inr (policy_json p)"
proof -
  obtain kvs profit margin annualized days where
    m: "money (map_of kvs ''min_profit_usd'') ''min_profit_usd'' = Inr profit"
       "money (map_of kvs ''min_net_margin'') ''min_net_margin'' = Inr margin"
       "money (map_of kvs ''min_annualized_return'') ''min_annualized_return'' = Inr annualized"
       "positive_int (map_of kvs ''max_capital_release_days'') ''max_capital_release_days'' = Inr days"
    and p: "p = \<lparr>min_profit_usd = decimal_str profit, min_net_margin = decimal_str margin,
                 min_annualized_return = decimal_str annualized, max_capital_release_days = days\<rparr>"
    using assms by (auto simp: validated_policy_def split: option.splits if_splits)
  have "1 \<le> days"
    using m(4) by (cases "(map_of kvs ''max_capital_release_days'', ''max_capital_release_days'')" rule: positive_int.cases)
      (auto split: if_splits)
  then show "validated_policy (policy_json p) = Inr p"
    using m(1-3)[THEN money_text] by (simp add: validated_policy_def policy_json_def p policy_keys_def insert_commute del: money.simps)
  show "dump_payload (policy_json p) = Inr (policy_json p)"
    using plain_config_fields by (simp add: dump_payload_def policy_json_def policy_keys_def)
qed

definition valid_safety :: "SafetyConfig \<Rightarrow> bool" where
  "valid_safety c \<longleftrightarrow>
     1 \<le> episode_rearm_gap_seconds c \<and> 0 \<le> max_per_trade_cost_units c \<and> 0 \<le> max_total_unsettled_capital_units c
     \<and> 0 \<le> max_partial_fill_loss_units c \<and> 0 \<le> max_auto_repair_loss_units c \<and> 1 \<le> max_quote_age_seconds c
     \<and> 1 \<le> max_cross_leg_skew_seconds c \<and> 1 \<le> max_leg_submit_seconds c \<and> 1 \<le> reconciliation_timeout_seconds c"

lemma positive_int_Inr: "positive_int v name = Inr n \<longleftrightarrow> v = Some (JInt n) \<and> 1 \<le> n"
  by (cases "(v, name)" rule: positive_int.cases) auto

lemma nonnegative_int_Inr: "nonnegative_int v name = Inr n \<longleftrightarrow> v = Some (JInt n) \<and> 0 \<le> n"
  by (cases "(v, name)" rule: nonnegative_int.cases) auto

lemma optional_seconds_positive:
  "optional_seconds kvs key = Inr n \<Longrightarrow> key \<in> fst ` set optional_safety_defaults \<Longrightarrow> 1 \<le> n"
  by (auto simp: optional_seconds_def optional_safety_defaults_def positive_int_Inr split: if_splits)

lemma validated_safety_valid:
  assumes j: "validated_safety_config j = Inr c"
  shows "valid_safety c"
proof -
  have keys: "''max_quote_age_seconds'' \<in> fst ` set optional_safety_defaults"
    "''max_cross_leg_skew_seconds'' \<in> fst ` set optional_safety_defaults"
    "''max_leg_submit_seconds'' \<in> fst ` set optional_safety_defaults"
    "''reconciliation_timeout_seconds'' \<in> fst ` set optional_safety_defaults"
    by (simp_all add: optional_safety_defaults_def)
  show ?thesis
    using j keys[THEN optional_seconds_positive[rotated]]
    by (clarsimp simp: validated_safety_config_def valid_safety_def positive_int_Inr nonnegative_int_Inr
        simp del: positive_int.simps nonnegative_int.simps split: option.splits if_splits)
qed

lemma stored_safety_reads_back:
  assumes "valid_safety c"
  shows "stored_safety_config (stored_safety_json c) = Inr (c, True)"
    and "dump_payload (stored_safety_json c) = Inr (stored_safety_json c)"
proof -
  have "validated_safety_config (JObj (safety_fields c)) = Inr c"
    using assms by (simp add: validated_safety_config_def safety_fields_def required_safety_keys_def
        optional_safety_defaults_def optional_seconds_def valid_safety_def)
  moreover have "filter (\<lambda>(k, _). k \<noteq> CAPS_CONFIGURED_KEY) (safety_fields c @ [(CAPS_CONFIGURED_KEY, JBool True)]) = safety_fields c"
    by (simp add: safety_fields_def CAPS_CONFIGURED_KEY_def)
  moreover have "fold (\<lambda>(k, d). set_default k (JInt d)) optional_safety_defaults (safety_fields c) = safety_fields c"
    by (simp add: optional_safety_defaults_def set_default_def safety_fields_def)
  moreover have "set_default ''max_per_trade_cost_units'' x (safety_fields c) = safety_fields c" for x
    by (simp add: set_default_def safety_fields_def)
  moreover have "map_of (safety_fields c @ [(CAPS_CONFIGURED_KEY, JBool True)]) CAPS_CONFIGURED_KEY = Some (JBool True)"
    by (simp add: safety_fields_def CAPS_CONFIGURED_KEY_def)
  ultimately show "stored_safety_config (stored_safety_json c) = Inr (c, True)"
    by (simp add: stored_safety_config_def stored_safety_json_def del: map_of_append filter_append)
  show "dump_payload (stored_safety_json c) = Inr (stored_safety_json c)"
    using plain_config_fields by (simp add: dump_payload_def stored_safety_json_def safety_fields_def
        required_safety_keys_def optional_safety_defaults_def)
qed

subsection \<open>Consistency of the mode tables\<close>

definition readable_policy :: "json \<Rightarrow> bool" where
  "readable_policy j \<longleftrightarrow> (\<exists>p. j = policy_json p \<and> validated_policy j = Inr p)"

definition readable_safety :: "json \<Rightarrow> bool" where
  "readable_safety j \<longleftrightarrow> (\<exists>c. j = stored_safety_json c \<and> valid_safety c)"

definition versions_ok :: "(json \<Rightarrow> bool) \<Rightarrow> (int \<times> json) list \<Rightarrow> int \<Rightarrow> bool" where
  "versions_ok readable rows current \<longleftrightarrow>
     (\<forall>(v, j) \<in> set rows. 1 \<le> v \<and> readable j)
     \<and> current = (case latest_row rows of None \<Rightarrow> 1 | Some (v, _) \<Rightarrow> v)"

definition scopes_ok :: "(string \<times> Scope) list \<Rightarrow> bool" where
  "scopes_ok rows \<longleftrightarrow>
     distinct (map fst rows)
     \<and> (\<forall>(i, scope) \<in> set rows. i \<noteq> [] \<and> scope_capability scope \<in> set CAPABILITIES \<and> 1 \<le> scope_version scope)"

text \<open>An enabled entry names a registered scope and is never ahead of its registered version.\<close>

definition enabled_ok :: "(string \<times> Scope) list \<Rightarrow> (string \<times> int) list \<Rightarrow> bool" where
  "enabled_ok rows enabled \<longleftrightarrow>
     distinct (map fst enabled)
     \<and> (\<forall>(i, v) \<in> set enabled. 1 \<le> v \<and> (\<exists>scope. map_of rows i = Some scope \<and> v \<le> scope_version scope))"

definition tables_ok ::
  "NLegControl \<Rightarrow> (int \<times> json) list \<Rightarrow> (int \<times> json) list \<Rightarrow> (string \<times> Scope) list \<Rightarrow> bool" where
  "tables_ok c policies safeties scopes \<longleftrightarrow>
     control_mode c \<in> {''MANUAL'', ''AUTO''} \<and> 1 \<le> contract_generation c
     \<and> versions_ok readable_policy policies (qualification_policy_version c)
     \<and> versions_ok readable_safety safeties (safety_config_version c)
     \<and> scopes_ok scopes \<and> enabled_ok scopes (enabled_execution_scope_version c)"

definition mode_inv :: "NLegStore \<Rightarrow> bool" where
  "mode_inv s \<longleftrightarrow> tables_ok (n_leg_control s) (policy_rows s) (safety_rows s) (scope_rows s)"

lemma mode_inv_empty: "mode_inv empty_store"
  by (simp add: mode_inv_def tables_ok_def empty_store_def n_leg_control_def default_control_def versions_ok_def
      latest_row_def scopes_ok_def enabled_ok_def)

lemma versions_ok_positive: "versions_ok readable rows v \<Longrightarrow> 1 \<le> v"
  by (auto simp: versions_ok_def split: option.splits dest: latest_row_Some)

lemma versions_ok_update:
  assumes "versions_ok readable rows v" and "readable j"
  shows "versions_ok readable (AList.update (v + 1) j rows) (v + 1)"
proof -
  have new: "\<forall>w \<in> fst ` set rows. w < v + 1"
    using assms by (cases "latest_row rows") (auto simp: versions_ok_def latest_row_None dest: latest_row_Some)
  then have "AList.update (v + 1) j rows = rows @ [(v + 1, j)]"
    by (intro AList_update_absent) auto
  then show ?thesis
    using latest_row_update[OF new, of j] assms versions_ok_positive[OF assms(1)] by (auto simp: versions_ok_def)
qed

lemma enabled_ok_valid: "scopes_ok rows \<Longrightarrow> enabled_ok rows enabled \<Longrightarrow> valid_enabled_scopes enabled"
  by (fastforce simp: enabled_ok_def valid_enabled_scopes_def list_all_iff scopes_ok_def dest: map_of_SomeD)

lemma tables_ok_control:
  assumes "tables_ok c policies safeties scopes"
  shows "1 \<le> contract_generation c" "1 \<le> qualification_policy_version c" "1 \<le> safety_config_version c"
    "valid_enabled_scopes (enabled_execution_scope_version c)" "control_mode c = ''MANUAL'' \<or> control_mode c = ''AUTO''"
  using assms by (auto simp: tables_ok_def enabled_ok_valid dest: versions_ok_positive)

lemmas mode_inv_control = tables_ok_control[OF mode_inv_def[THEN iffD1]]

lemma current_policy_ok:
  assumes "mode_inv s"
  obtains p where "current_policy s = Inr (qualification_policy_version (n_leg_control s), p)"
    "validated_policy (policy_json p) = Inr p"
proof (cases "latest_row (policy_rows s)")
  case None
  have "validated_policy (policy_json DEFAULT_QUALIFICATION_POLICY) = Inr DEFAULT_QUALIFICATION_POLICY"
    by code_simp
  then show ?thesis
    using that[of DEFAULT_QUALIFICATION_POLICY] None assms
    by (simp add: current_policy_def n_leg_qualification_policy_latest_def mode_inv_def tables_ok_def versions_ok_def)
next
  case (Some row)
  then show ?thesis
    using that latest_row_Some[of "policy_rows s" "fst row" "snd row"] assms
    by (fastforce simp: current_policy_def n_leg_qualification_policy_latest_def mode_inv_def tables_ok_def
        versions_ok_def readable_policy_def)
qed

lemma current_safety_ok:
  assumes "mode_inv s"
  obtains c marker where "current_safety_config s = Inr (safety_config_version (n_leg_control s), c, marker)"
    "valid_safety c"
proof (cases "latest_row (safety_rows s)")
  case None
  then show ?thesis
    using that[of DEFAULT_SAFETY_CONFIG False] assms
    by (simp add: current_safety_config_def n_leg_safety_config_latest_def mode_inv_def tables_ok_def versions_ok_def
        valid_safety_def DEFAULT_SAFETY_CONFIG_def)
next
  case (Some row)
  then obtain c where "snd row = stored_safety_json c" and "valid_safety c" and "1 \<le> fst row"
    and "safety_config_version (n_leg_control s) = fst row"
    using latest_row_Some[of "safety_rows s" "fst row" "snd row"] assms
    by (fastforce simp: mode_inv_def tables_ok_def versions_ok_def readable_safety_def)
  then show ?thesis
    using that[of c True] Some by (cases row)
      (simp add: current_safety_config_def n_leg_safety_config_latest_def stored_safety_reads_back)
qed

lemma contract_readable:
  assumes "mode_inv s"
  obtains contract where "n_leg_mode_contract s = Inr contract"
proof -
  obtain p where "current_policy s = Inr (qualification_policy_version (n_leg_control s), p)"
    using current_policy_ok[OF assms] .
  moreover obtain c marker where "current_safety_config s = Inr (safety_config_version (n_leg_control s), c, marker)"
    using current_safety_ok[OF assms] .
  ultimately show ?thesis
    using that mode_inv_control(1-3)[OF assms] by (simp add: n_leg_mode_contract_def Let_def)
qed
subsection \<open>The operations answer with the contract or change nothing\<close>

text \<open>The contract of a mutation: from consistent tables it keeps them consistent and answers with the contract it
  leaves behind, or it is rejected and the store is as before.\<close>

locale mode_mutation =
  fixes run :: "'a \<Rightarrow> ModeContract op"
  assumes accepted: "mode_inv s \<Longrightarrow> run x s = (Inr contract, t) \<Longrightarrow> mode_inv t \<and> n_leg_mode_contract t = Inr contract"
    and rejected: "mode_inv s \<Longrightarrow> run x s = (Inl e, t) \<Longrightarrow> t = s"
begin

lemma kept: "mode_inv s \<Longrightarrow> mode_inv (snd (run x s))"
  using accepted rejected by (metis prod.collapse sum.exhaust)

lemma readable_after: "mode_inv s \<Longrightarrow> \<exists>contract. n_leg_mode_contract (snd (run x s)) = Inr contract"
  using kept contract_readable by metis

lemma all_kept: "mode_inv s \<Longrightarrow> mode_inv (fold (\<lambda>x t. snd (run x t)) xs s)"
  by (induction xs arbitrary: s) (simp_all add: kept)

end

definition audit_event :: "string \<Rightarrow> string \<Rightarrow> string \<Rightarrow> (string \<times> json) list \<Rightarrow> json \<Rightarrow> ControlEvent" where
  "audit_event action target outcome entries audit =
     \<lparr>event_action = action, event_target = target, event_outcome = outcome,
      event_payload = safe_value False (with_audit entries audit)\<rparr>"

lemma audit_event_run [simp]:
  "outcome \<in> {''succeeded'', ''rejected'', ''failed''} \<Longrightarrow>
   record_control_event action target outcome (with_audit entries audit)
     = (\<lambda>s. (Inr (), add_events [audit_event action target outcome entries audit] s))"
  unfolding with_audit_def audit_event_def by (rule ext) (rule record_control_event_run)

lemma write_mode_run:
  assumes "mode_inv s" and "m \<in> {''MANUAL'', ''AUTO''}" and "\<forall>xs \<in> set_option enabled. valid_enabled_scopes xs"
  shows "write_mode (Some m) enabled s =
    (Inr (), set_control (\<lambda>c. c\<lparr>control_mode := m,
       enabled_execution_scope_version := or_else enabled (enabled_execution_scope_version c)\<rparr>) s)"
proof -
  note valid = mode_inv_control[OF assms(1)]
  have "valid_enabled_scopes (or_else enabled (enabled_execution_scope_version (n_leg_control s)))"
    using assms(3) valid(4) by (cases enabled) auto
  then have "write_mode (Some m) enabled s = (Inr (), set_control (\<lambda>c. c\<lparr>control_mode := m,
       contract_generation := contract_generation (n_leg_control s),
       qualification_policy_version := qualification_policy_version (n_leg_control s),
       safety_config_version := safety_config_version (n_leg_control s),
       enabled_execution_scope_version := or_else enabled (enabled_execution_scope_version (n_leg_control s))\<rparr>) s)"
    using assms(2) valid(1-3) by (simp add: write_mode_def control_write_run)
  then show ?thesis
    by (simp add: set_control_def)
qed

lemma op_bind_write_mode:
  assumes "mode_inv s" and "m \<in> {''MANUAL'', ''AUTO''}" and "\<forall>xs \<in> set_option enabled. valid_enabled_scopes xs"
  shows "op_bind (write_mode (Some m) enabled) f s =
    f () (set_control (\<lambda>c. c\<lparr>control_mode := m,
       enabled_execution_scope_version := or_else enabled (enabled_execution_scope_version c)\<rparr>) s)"
  by (simp add: op_bind_def write_mode_run[OF assms])

lemma mode_inv_set_mode:
  assumes "mode_inv s" and "m \<in> {''MANUAL'', ''AUTO''}"
    and "enabled_ok (scope_rows s) (or_else enabled (enabled_execution_scope_version (n_leg_control s)))"
  shows "mode_inv (set_control (\<lambda>c. c\<lparr>control_mode := m,
       enabled_execution_scope_version := or_else enabled (enabled_execution_scope_version c)\<rparr>) s)"
  using assms by (simp add: mode_inv_def tables_ok_def)

lemma mode_inv_add_events [simp]: "mode_inv (add_events es s) \<longleftrightarrow> mode_inv s"
  by (simp add: mode_inv_def)

lemma set_mode_cases:
  assumes "mode_inv s"
  obtains (rejected) e where "n_leg_set_mode mode base incident_id audit s = (Inl e, s)"
  | (written) contract event where "mode \<in> {''MANUAL'', ''AUTO''}" "contract_generation (n_leg_control s) = base"
      "mode = ''AUTO'' \<Longrightarrow> require_auto_enable incident_id s = Inr ()"
      "n_leg_set_mode mode base incident_id audit s =
         (Inr contract, add_events [event] (set_control (\<lambda>c. c\<lparr>control_mode := mode\<rparr>) s))"
      "n_leg_mode_contract (add_events [event] (set_control (\<lambda>c. c\<lparr>control_mode := mode\<rparr>) s)) = Inr contract"
      "mode_inv (add_events [event] (set_control (\<lambda>c. c\<lparr>control_mode := mode\<rparr>) s))"
proof (cases "mode \<in> {''MANUAL'', ''AUTO''} \<and> contract_generation (n_leg_control s) = base
    \<and> (mode = ''AUTO'' \<longrightarrow> require_auto_enable incident_id s = Inr ())")
  case False
  then have "\<exists>e. n_leg_set_mode mode base incident_id audit s = (Inl e, s)"
    by (auto simp: n_leg_set_mode_def split: sum.splits)
  then show ?thesis
    using rejected by blast
next
  case True
  define event where "event = audit_event ''n_leg_set_mode'' ''n_leg_controls'' ''succeeded''
    [(''mode'', JStr mode), (''action_word'', JStr (write_word mode))] audit"
  let ?t = "add_events [event] (set_control (\<lambda>c. c\<lparr>control_mode := mode\<rparr>) s)"
  have inv: "mode_inv ?t"
    using mode_inv_set_mode[OF assms, of mode None] True assms by (simp add: mode_inv_def tables_ok_def)
  obtain contract where contract: "n_leg_mode_contract ?t = Inr contract"
    using contract_readable[OF inv] .
  have "n_leg_set_mode mode base incident_id audit s = (Inr contract, ?t)"
    using True contract by (auto simp: n_leg_set_mode_def event_def op_bind_write_mode[OF assms])
  then show ?thesis
    using written[OF _ _ _ _ contract inv] True by blast
qed

interpretation set_mode: mode_mutation "\<lambda>(mode, base, incident_id, audit). n_leg_set_mode mode base incident_id audit"
proof (unfold_locales, goal_cases)
  case (1 s x contract t)
  then show ?case
    by (cases x) (auto elim: set_mode_cases[of s "fst x" "fst (snd x)" "fst (snd (snd x))" "snd (snd (snd x))"])
next
  case (2 s x e t)
  then show ?case
    by (cases x) (auto elim: set_mode_cases[of s "fst x" "fst (snd x)" "fst (snd (snd x))" "snd (snd (snd x))"])
qed
lemma mode_write_readable:
  assumes "mode_inv s" and "m \<in> {''MANUAL'', ''AUTO''}" and "enabled_ok (scope_rows s) enabled"
  shows "mode_inv (add_events es (set_control (\<lambda>c. c\<lparr>control_mode := m, enabled_execution_scope_version := enabled\<rparr>) s))"
  using assms mode_inv_set_mode[of s m "Some enabled"] by simp

lemma enabled_ok_filter: "enabled_ok rows enabled \<Longrightarrow> enabled_ok rows (filter P enabled)"
  by (auto simp: enabled_ok_def distinct_map_filter)

lemma enabled_ok_snoc:
  assumes "enabled_ok rows enabled" and "map_of rows i = Some scope" and "scopes_ok rows"
  shows "enabled_ok rows (filter (\<lambda>(j, _). j \<noteq> i) enabled @ [(i, scope_version scope)])"
proof -
  have "1 \<le> scope_version scope"
    using assms(2,3) by (auto simp: scopes_ok_def dest: map_of_SomeD)
  then show ?thesis
    using assms(1,2) by (auto simp: enabled_ok_def distinct_map_filter)
qed

definition enabled_after :: "NLegStore \<Rightarrow> string \<Rightarrow> bool \<Rightarrow> (string \<times> int) list" where
  "enabled_after s scope_id enable =
     filter (\<lambda>(j, _). j \<noteq> scope_id) (enabled_execution_scope_version (n_leg_control s))
     @ (case n_leg_scope s scope_id of Some scope \<Rightarrow> if enable then [(scope_id, scope_version scope)] else []
        | None \<Rightarrow> [])"

definition mode_after_enable :: "NLegStore \<Rightarrow> string \<Rightarrow> bool \<Rightarrow> string" where
  "mode_after_enable s scope_id enable =
     (if enable \<and> map_of (enabled_execution_scope_version (n_leg_control s)) scope_id = None then ''MANUAL''
      else control_mode (n_leg_control s))"

lemma set_enabled_cases:
  assumes "mode_inv s"
  obtains (rejected) e where "n_leg_set_enabled_scope scope_id enable base audit s = (Inl e, s)"
      "\<not> (scope_id \<noteq> [] \<and> contract_generation (n_leg_control s) = base
         \<and> (enable \<longrightarrow> n_leg_scope s scope_id \<noteq> None))"
  | (kept) contract scope where "n_leg_set_enabled_scope scope_id enable base audit s = (Inr contract, s)"
      "enable" "n_leg_scope s scope_id = Some scope"
      "map_of (enabled_execution_scope_version (n_leg_control s)) scope_id = Some (scope_version scope)"
      "n_leg_mode_contract s = Inr contract"
  | (written) contract events where "contract_generation (n_leg_control s) = base"
      "enable \<Longrightarrow> n_leg_scope s scope_id \<noteq> None"
      "let t = add_events events (set_control (\<lambda>c. c\<lparr>control_mode := mode_after_enable s scope_id enable,
                 enabled_execution_scope_version := enabled_after s scope_id enable\<rparr>) s)
       in n_leg_set_enabled_scope scope_id enable base audit s = (Inr contract, t)
          \<and> n_leg_mode_contract t = Inr contract \<and> mode_inv t"
proof -
  let ?enabled = "enabled_execution_scope_version (n_leg_control s)"
  let ?registered = "n_leg_scope s scope_id"
  have mode: "mode_after_enable s scope_id enable \<in> {''MANUAL'', ''AUTO''}"
    using mode_inv_control(5)[OF assms] by (auto simp: mode_after_enable_def)
  have enabled: "enabled_ok (scope_rows s) (enabled_after s scope_id enable)"
    using assms by (auto simp: enabled_after_def mode_inv_def tables_ok_def n_leg_scope_def
        intro: enabled_ok_filter enabled_ok_snoc split: option.splits)
  then have valid: "valid_enabled_scopes (enabled_after s scope_id enable)"
    using assms by (auto simp: mode_inv_def tables_ok_def intro: enabled_ok_valid)
  show ?thesis
  proof (cases "scope_id \<noteq> [] \<and> contract_generation (n_leg_control s) = base \<and> (enable \<longrightarrow> ?registered \<noteq> None)")
    case False
    then have "\<exists>e. n_leg_set_enabled_scope scope_id enable base audit s = (Inl e, s)"
      by (auto simp: n_leg_set_enabled_scope_def Let_def simp del: append_Cons)
    then show ?thesis
      using rejected False by blast
  next
    case True
    show ?thesis
    proof (cases "enable \<and> map_of ?enabled scope_id = map_option scope_version ?registered")
      case same: True
      obtain contract where "n_leg_mode_contract s = Inr contract"
        using contract_readable[OF assms] .
      then show ?thesis
        using kept[of contract] same True by (auto simp: n_leg_set_enabled_scope_def Let_def simp del: append_Cons)
    next
      case changed: False
      define events where "events =
        (if enable \<and> map_of ?enabled scope_id = None
         then [audit_event ''n_leg_auto_downgrade'' ''n_leg_controls'' ''failed''
                 [(''reason'', JStr ''SCOPE_ENABLED_EXPANSION''), (''scope_id'', JStr scope_id),
                  (''mode'', JStr ''MANUAL''), (''action_word'', JStr ''manual_confirm'')] audit] else [])
        @ [audit_event ''n_leg_set_enabled_scope'' (''n_leg_execution_scopes/'' @ scope_id) ''succeeded''
             [(''scope_id'', JStr scope_id), (''enable'', JBool enable),
              (''action_word'', JStr (write_word (mode_after_enable s scope_id enable)))] audit]"
      define t where "t = add_events events (set_control (\<lambda>c. c\<lparr>control_mode := mode_after_enable s scope_id enable,
                 enabled_execution_scope_version := enabled_after s scope_id enable\<rparr>) s)"
      have inv: "mode_inv t"
        unfolding t_def using assms mode enabled by (rule mode_write_readable)
      obtain contract where contract: "n_leg_mode_contract t = Inr contract"
        using contract_readable[OF inv] .
      have "n_leg_set_enabled_scope scope_id enable base audit s = (Inr contract, t)"
        using True changed contract mode valid mode_inv_control(5)[OF assms] unfolding t_def events_def
        by (cases enable; cases ?registered; cases "map_of ?enabled scope_id"; cases "control_mode (n_leg_control s) = ''AUTO''")
          (simp_all add: n_leg_set_enabled_scope_def op_bind_write_mode[OF assms] mode_after_enable_def enabled_after_def
            Let_def del: append_Cons)
      then show ?thesis
        using written[of events contract] True contract inv by (auto simp: t_def Let_def)
    qed
  qed
qed
interpretation set_enabled: mode_mutation
  "\<lambda>(scope_id, enable, base, audit). n_leg_set_enabled_scope scope_id enable base audit"
proof (unfold_locales, goal_cases)
  case (1 s x contract t)
  obtain i enable base audit where "x = (i, enable, base, audit)"
    by (cases x)
  with 1 show ?case
    by (cases rule: set_enabled_cases[OF 1(1), of i enable base audit]) (auto simp: Let_def)
next
  case (2 s x e t)
  obtain i enable base audit where "x = (i, enable, base, audit)"
    by (cases x)
  with 2 show ?case
    by (cases rule: set_enabled_cases[OF 2(1), of i enable base audit]) (auto simp: Let_def)
qed

text \<open>A control row that the upsert accepts; a downgrade writes it while a new policy row is already in.\<close>

definition control_writable :: "NLegControl \<Rightarrow> bool" where
  "control_writable c \<longleftrightarrow>
     1 \<le> contract_generation c \<and> 1 \<le> qualification_policy_version c \<and> 1 \<le> safety_config_version c
     \<and> valid_enabled_scopes (enabled_execution_scope_version c)"

lemma mode_inv_writable: "mode_inv s \<Longrightarrow> control_writable (n_leg_control s)"
  using mode_inv_control by (simp add: control_writable_def)

definition downgrade_event :: "string \<Rightarrow> json \<Rightarrow> ControlEvent" where
  "downgrade_event reason audit =
     audit_event ''n_leg_auto_downgrade'' ''n_leg_controls'' ''failed''
       [(''reason'', JStr reason), (''mode'', JStr ''MANUAL''), (''action_word'', JStr ''manual_confirm'')] audit"

lemma op_bind_downgrade:
  assumes "control_writable (n_leg_control s)" and "\<forall>v \<in> set_option pv. 1 \<le> v" and "\<forall>v \<in> set_option sv. 1 \<le> v"
  shows "op_bind (downgrade reason audit pv sv) f s =
    f () (add_events [downgrade_event reason audit] (set_control (\<lambda>c. c\<lparr>control_mode := ''MANUAL'',
      qualification_policy_version := or_else pv (qualification_policy_version c),
      safety_config_version := or_else sv (safety_config_version c)\<rparr>) s))"
proof -
  let ?c = "n_leg_control s"
  have "1 \<le> or_else pv (qualification_policy_version ?c)" "1 \<le> or_else sv (safety_config_version ?c)"
    using assms by (cases pv; cases sv; simp add: control_writable_def)+
  then show ?thesis
    using assms(1) by (simp add: downgrade_def downgrade_event_def op_bind_def[of "n_leg_mode_control_write _ _ _ _ _"]
        op_bind_def[of "op_bind _ _"] control_writable_def control_write_run set_control_def)
qed

lemma op_bind_versions_write:
  assumes "n_leg_control s = c" and "control_writable c" and "1 \<le> pv" and "1 \<le> sv"
  shows "op_bind (n_leg_mode_control_write None (Some (contract_generation c)) (Some pv) (Some sv)
      (Some (enabled_execution_scope_version c))) f s =
    f () (set_control (\<lambda>c. c\<lparr>qualification_policy_version := pv, safety_config_version := sv\<rparr>) s)"
  using assms by (simp add: op_bind_def control_write_run control_writable_def set_control_def)

subsection \<open>Loosening a policy or a cap\<close>

definition money_value :: "string \<Rightarrow> rat" where
  "money_value text = (case parse_decimal text of Some d \<Rightarrow> decimal_value d | None \<Rightarrow> 0)"

definition money_text_ok :: "string \<Rightarrow> bool" where
  "money_text_ok text \<longleftrightarrow> (\<exists>d. parse_decimal text = Some d \<and> is_finite d \<and> 0 \<le> decimal_value d)"

definition policy_looser :: "Policy \<Rightarrow> Policy \<Rightarrow> bool" where
  "policy_looser before after \<longleftrightarrow>
     money_value (min_profit_usd after) < money_value (min_profit_usd before)
     \<or> money_value (min_net_margin after) < money_value (min_net_margin before)
     \<or> money_value (min_annualized_return after) < money_value (min_annualized_return before)
     \<or> max_capital_release_days before < max_capital_release_days after"

lemma money_ok: "money (Some (JStr text)) name = Inr d \<Longrightarrow> money_text_ok text"
  by (auto simp: money_text_ok_def split: option.splits if_splits)

lemma money_less_value:
  "money_text_ok a \<Longrightarrow> money_text_ok b \<Longrightarrow> money_less a b name = Inr (money_value a < money_value b)"
  by (auto simp: money_less_def money_text_ok_def money_value_def)

lemma stored_policy_texts:
  assumes "validated_policy (policy_json p) = Inr q"
  shows "money_text_ok (min_profit_usd p)" "money_text_ok (min_net_margin p)" "money_text_ok (min_annualized_return p)"
    "1 \<le> max_capital_release_days p"
proof -
  have keys: "fst ` set (case policy_json p of JObj kvs \<Rightarrow> kvs | _ \<Rightarrow> []) = set policy_keys"
    by (simp add: policy_json_def policy_keys_def insert_commute)
  obtain a b c d where "money (Some (JStr (min_profit_usd p))) ''min_profit_usd'' = Inr a"
    "money (Some (JStr (min_net_margin p))) ''min_net_margin'' = Inr b"
    "money (Some (JStr (min_annualized_return p))) ''min_annualized_return'' = Inr c"
    "positive_int (Some (JInt (max_capital_release_days p))) ''max_capital_release_days'' = Inr d"
    using assms keys by (auto simp: validated_policy_def policy_json_def simp del: money.simps positive_int.simps)
  then show "money_text_ok (min_profit_usd p)" "money_text_ok (min_net_margin p)"
    "money_text_ok (min_annualized_return p)" "1 \<le> max_capital_release_days p"
    unfolding positive_int_Inr by (auto intro: money_ok simp del: money.simps)
qed

lemma policy_direction_exact:
  assumes "validated_policy (policy_json before) = Inr before" and "validated_policy (policy_json after) = Inr after"
  shows "policy_direction before after =
    Inr (if policy_looser before after then ''loosen'' else if before = after then ''same'' else ''tighten'')"
  using stored_policy_texts[OF assms(1)] stored_policy_texts[OF assms(2)]
  by (simp add: policy_direction_def policy_looser_def ror_def money_less_value del: rbind_Inr_iff)
lemma mode_inv_policy_update:
  assumes "mode_inv s" and "m \<in> {''MANUAL'', ''AUTO''}" and "validated_policy (policy_json p) = Inr p"
    and "v = qualification_policy_version (n_leg_control s)"
  shows "mode_inv (add_events es (set_control (\<lambda>c. c\<lparr>control_mode := m, qualification_policy_version := v + 1\<rparr>)
    (s\<lparr>policy_rows := AList.update (v + 1) (policy_json p) (policy_rows s)\<rparr>)))"
proof -
  have "readable_policy (policy_json p)"
    using assms(3) by (auto simp: readable_policy_def)
  then show ?thesis
    using assms by (auto simp: mode_inv_def tables_ok_def intro!: versions_ok_update)
qed

lemma mode_inv_safety_update:
  assumes "mode_inv s" and "m \<in> {''MANUAL'', ''AUTO''}" and "valid_safety config"
    and "v = safety_config_version (n_leg_control s)"
  shows "mode_inv (add_events es (set_control (\<lambda>c. c\<lparr>control_mode := m, safety_config_version := v + 1\<rparr>)
    (s\<lparr>safety_rows := AList.update (v + 1) (stored_safety_json config) (safety_rows s)\<rparr>)))"
proof -
  have "readable_safety (stored_safety_json config)"
    using assms(3) by (auto simp: readable_safety_def)
  then show ?thesis
    using assms by (auto simp: mode_inv_def tables_ok_def intro!: versions_ok_update)
qed

definition mode_after :: "bool \<Rightarrow> NLegStore \<Rightarrow> string" where
  "mode_after loosened s = (if loosened then ''MANUAL'' else control_mode (n_leg_control s))"

lemma update_policy_cases:
  assumes "mode_inv s"
  obtains (rejected) e where "n_leg_update_qualification_policy policy base audit s = (Inl e, s)"
      "\<not> ((\<exists>after. validated_policy policy = Inr after) \<and> qualification_policy_version (n_leg_control s) = base)"
  | (written) contract events before after where
      "current_policy s = Inr (base, before)" "validated_policy policy = Inr after"
      "let t = add_events events (set_control (\<lambda>c. c\<lparr>control_mode := mode_after (policy_looser before after) s,
                 qualification_policy_version := base + 1\<rparr>)
                 (s\<lparr>policy_rows := AList.update (base + 1) (policy_json after) (policy_rows s)\<rparr>))
       in n_leg_update_qualification_policy policy base audit s = (Inr contract, t)
          \<and> n_leg_mode_contract t = Inr contract \<and> mode_inv t"
proof -
  let ?c = "n_leg_control s"
  obtain before where current: "current_policy s = Inr (qualification_policy_version ?c, before)"
    and before: "validated_policy (policy_json before) = Inr before"
    using current_policy_ok[OF assms] .
  note control = mode_inv_control[OF assms]
  show ?thesis
  proof (cases "(\<exists>after. validated_policy policy = Inr after) \<and> qualification_policy_version ?c = base")
    case False
    then have "\<exists>e. n_leg_update_qualification_policy policy base audit s = (Inl e, s)"
      using current by (auto simp: n_leg_update_qualification_policy_def split: sum.splits)
    then show ?thesis
      using rejected False by blast
  next
    case True
    then obtain "after" where policy: "validated_policy policy = Inr after" and base: "base = qualification_policy_version ?c"
      by auto
    note stored = validated_policy_stored[OF policy]
    let ?loose = "policy_looser before after"
    define direction where "direction = (if ?loose then ''loosen'' else if before = after then ''same'' else ''tighten'')"
    define events where "events =
      (if ?loose \<and> control_mode ?c = ''AUTO'' then [downgrade_event ''QUALIFICATION_POLICY_LOOSENED'' audit] else [])
      @ [audit_event ''n_leg_update_qualification_policy'' ''n_leg_controls'' ''succeeded''
           [(''qualification_policy_version'', JInt (base + 1)), (''direction'', JStr direction),
            (''action_word'', JStr (write_word (mode_after ?loose s)))] audit]"
    define u where "u = s\<lparr>policy_rows := AList.update (base + 1) (policy_json after) (policy_rows s)\<rparr>"
    define t where "t = add_events events (set_control (\<lambda>c. c\<lparr>control_mode := mode_after ?loose s,
                 qualification_policy_version := base + 1\<rparr>) u)"
    have direction: "policy_direction before after = Inr direction" "direction = ''loosen'' \<longleftrightarrow> ?loose"
      by (simp_all add: direction_def policy_direction_exact[OF before stored(1)])
    have u: "n_leg_control u = ?c" "control_writable (n_leg_control u)"
      using mode_inv_writable[OF assms] by (simp_all add: u_def)
    have inv: "mode_inv t"
      unfolding t_def u_def using assms _ stored(1) base
      by (rule mode_inv_policy_update) (use control(5) in \<open>auto simp: mode_after_def\<close>)
    obtain contract where contract: "n_leg_mode_contract t = Inr contract"
      using contract_readable[OF inv] .
    have row: "op_bind (n_leg_qualification_policy_write (base + 1) (policy_json after)) f s = f () u" for f :: "unit \<Rightarrow> ModeContract op"
      using control(2) base by (simp add: n_leg_qualification_policy_write_def stored(2) op_bind_def op_guard_def u_def)
    have "n_leg_update_qualification_policy policy base audit s = (Inr contract, t)"
    proof (cases "?loose \<and> control_mode ?c = ''AUTO''")
      case True
      then show ?thesis
        using contract control(2) u unfolding t_def events_def
        by (simp add: n_leg_update_qualification_policy_def current base[symmetric] policy row
            direction op_bind_downgrade mode_after_def set_control_def Let_def)
    next
      case False
      then have "mode_after ?loose s = control_mode ?c"
        using control(5) by (auto simp: mode_after_def)
      then show ?thesis
        using contract control(2,3) u unfolding t_def events_def
        by (simp add: n_leg_update_qualification_policy_def current base[symmetric] policy row
            direction False op_bind_versions_write[OF u(1)] set_control_def Let_def)
    qed
    then show ?thesis
      using written[OF _ policy] current base contract inv by (auto simp: t_def u_def Let_def)
  qed
qed

interpretation update_policy: mode_mutation "\<lambda>(policy, base, audit). n_leg_update_qualification_policy policy base audit"
proof (unfold_locales, goal_cases)
  case (1 s x contract t)
  obtain policy base audit where "x = (policy, base, audit)"
    by (cases x)
  with 1 show ?case
    by (cases rule: update_policy_cases[OF 1(1), of policy base audit]) (auto simp: Let_def)
next
  case (2 s x e t)
  obtain policy base audit where "x = (policy, base, audit)"
    by (cases x)
  with 2 show ?case
    by (cases rule: update_policy_cases[OF 2(1), of policy base audit]) (auto simp: Let_def)
qed

definition safety_looser :: "SafetyConfig \<Rightarrow> SafetyConfig \<Rightarrow> bool" where
  "safety_looser before after \<longleftrightarrow> safety_direction before after = ''loosen''"

lemma update_safety_cases:
  assumes "mode_inv s"
  obtains (rejected) e where "n_leg_update_safety_config config base audit s = (Inl e, s)"
      "\<not> ((\<exists>after. validated_safety_config config = Inr after) \<and> safety_config_version (n_leg_control s) = base)"
  | (written) contract events before marker after where
      "current_safety_config s = Inr (base, before, marker)" "validated_safety_config config = Inr after"
      "let t = add_events events (set_control (\<lambda>c. c\<lparr>control_mode := mode_after (safety_looser before after) s,
                 safety_config_version := base + 1\<rparr>)
                 (s\<lparr>safety_rows := AList.update (base + 1) (stored_safety_json after) (safety_rows s)\<rparr>))
       in n_leg_update_safety_config config base audit s = (Inr contract, t)
          \<and> n_leg_mode_contract t = Inr contract \<and> mode_inv t"
proof -
  let ?c = "n_leg_control s"
  obtain before marker where current: "current_safety_config s = Inr (safety_config_version ?c, before, marker)"
    using current_safety_ok[OF assms] .
  note control = mode_inv_control[OF assms]
  show ?thesis
  proof (cases "(\<exists>after. validated_safety_config config = Inr after) \<and> safety_config_version ?c = base")
    case False
    then have "\<exists>e. n_leg_update_safety_config config base audit s = (Inl e, s)"
      using current by (auto simp: n_leg_update_safety_config_def split: sum.splits)
    then show ?thesis
      using rejected False by blast
  next
    case True
    then obtain "after" where config: "validated_safety_config config = Inr after"
      and base: "base = safety_config_version ?c"
      by auto
    note valid = validated_safety_valid[OF config]
    let ?loose = "safety_looser before after"
    define direction where "direction = safety_direction before after"
    define events where "events =
      (if ?loose \<and> control_mode ?c = ''AUTO'' then [downgrade_event ''SAFETY_CONFIG_LOOSENED'' audit] else [])
      @ [audit_event ''n_leg_update_safety_config'' ''n_leg_controls'' ''succeeded''
           [(''safety_config_version'', JInt (base + 1)), (''direction'', JStr direction),
            (''action_word'', JStr (write_word (mode_after ?loose s)))] audit]"
    define u where "u = s\<lparr>safety_rows := AList.update (base + 1) (stored_safety_json after) (safety_rows s)\<rparr>"
    define t where "t = add_events events (set_control (\<lambda>c. c\<lparr>control_mode := mode_after ?loose s,
                 safety_config_version := base + 1\<rparr>) u)"
    have direction: "safety_direction before after = direction" "direction = ''loosen'' \<longleftrightarrow> ?loose"
      by (simp_all add: direction_def safety_looser_def)
    have u: "n_leg_control u = ?c" "control_writable (n_leg_control u)"
      using mode_inv_writable[OF assms] by (simp_all add: u_def)
    have inv: "mode_inv t"
      unfolding t_def u_def using assms _ valid base
      by (rule mode_inv_safety_update) (use control(5) in \<open>auto simp: mode_after_def\<close>)
    obtain contract where contract: "n_leg_mode_contract t = Inr contract"
      using contract_readable[OF inv] .
    have row: "op_bind (n_leg_safety_config_write (base + 1) (stored_safety_json after)) f s = f () u"
      for f :: "unit \<Rightarrow> ModeContract op"
      using control(3) base
      by (simp add: n_leg_safety_config_write_def stored_safety_reads_back(2)[OF valid] op_bind_def op_guard_def u_def)
    have "n_leg_update_safety_config config base audit s = (Inr contract, t)"
    proof (cases "?loose \<and> control_mode ?c = ''AUTO''")
      case True
      then show ?thesis
        using contract control(3) u unfolding t_def events_def
        by (simp add: n_leg_update_safety_config_def current base[symmetric] config row
            direction op_bind_downgrade mode_after_def set_control_def Let_def)
    next
      case False
      then have "mode_after ?loose s = control_mode ?c"
        using control(5) by (auto simp: mode_after_def)
      then show ?thesis
        using contract control(2,3) u unfolding t_def events_def
        by (simp add: n_leg_update_safety_config_def current base[symmetric] config row
            direction False op_bind_versions_write[OF u(1)] set_control_def Let_def)
    qed
    then show ?thesis
      using written[OF _ config] current base contract inv by (auto simp: t_def u_def Let_def)
  qed
qed

interpretation update_safety: mode_mutation "\<lambda>(config, base, audit). n_leg_update_safety_config config base audit"
proof (unfold_locales, goal_cases)
  case (1 s x contract t)
  obtain config base audit where "x = (config, base, audit)"
    by (cases x)
  with 1 show ?case
    by (cases rule: update_safety_cases[OF 1(1), of config base audit]) (auto simp: Let_def)
next
  case (2 s x e t)
  obtain config base audit where "x = (config, base, audit)"
    by (cases x)
  with 2 show ?case
    by (cases rule: update_safety_cases[OF 2(1), of config base audit]) (auto simp: Let_def)
qed

subsection \<open>Scope changes\<close>

lemma next_scope_version_positive:
  "scopes_ok (scope_rows s) \<Longrightarrow> 1 \<le> (case n_leg_scope s i of None \<Rightarrow> 1 | Some scope \<Rightarrow> scope_version scope + 1)"
  by (fastforce simp: scopes_ok_def n_leg_scope_def split: option.splits dest: map_of_SomeD)

definition downgraded_if :: "bool \<Rightarrow> NLegStore \<Rightarrow> NLegStore" where
  "downgraded_if loosened s = (if loosened then set_control (\<lambda>c. c\<lparr>control_mode := ''MANUAL''\<rparr>) s else s)"

lemma mode_inv_scope_update:
  assumes "mode_inv s" and "i \<noteq> []" and "capability \<in> set CAPABILITIES"
    and "version = (case n_leg_scope s i of None \<Rightarrow> 1 | Some scope \<Rightarrow> scope_version scope + 1)"
  shows "mode_inv (add_events es (downgraded_if loosened
    (s\<lparr>scope_rows := AList.update i
        \<lparr>scope_capability = capability, scope_version = version, scope_members = members\<rparr> (scope_rows s)\<rparr>)))"
proof -
  let ?scope = "\<lparr>scope_capability = capability, scope_version = version, scope_members = members\<rparr>"
  have ok: "scopes_ok (scope_rows s)" and en: "enabled_ok (scope_rows s) (enabled_execution_scope_version (n_leg_control s))"
    using assms(1) by (auto simp: mode_inv_def tables_ok_def)
  have "1 \<le> version"
    using next_scope_version_positive[OF ok] assms(4) by simp
  then have "scopes_ok (AList.update i ?scope (scope_rows s))"
    using ok assms(2,3) by (auto simp: scopes_ok_def dest!: AList_update_member)
  moreover have "enabled_ok (AList.update i ?scope (scope_rows s)) (enabled_execution_scope_version (n_leg_control s))"
    using en assms(4) by (fastforce simp: enabled_ok_def update_conv n_leg_scope_def)
  ultimately show ?thesis
    using assms(1) by (simp add: mode_inv_def tables_ok_def downgraded_if_def)
qed
definition widens :: "string \<Rightarrow> bool" where
  "widens direction \<longleftrightarrow> direction \<in> {''loosen'', ''changed'', ''added''}"

lemma validated_members_object:
  assumes "validated_members members = Inr v"
  obtains kvs where "v = JObj kvs" "members = JObj kvs"
  using assms by (cases members) (auto simp: validated_members_def split: if_splits)

lemma upsert_scope_cases:
  assumes "mode_inv s"
  obtains (rejected) e where "n_leg_upsert_scope i capability members base audit s = (Inl e, s)"
      "\<not> (i \<noteq> [] \<and> capability \<in> set CAPABILITIES \<and> (\<exists>validated version direction.
         validated_members members = Inr validated
         \<and> scope_change (n_leg_scope s i) capability validated base = Inr (version, direction)))"
  | (written) contract events version direction validated where
      "i \<noteq> []" "capability \<in> set CAPABILITIES" "validated_members members = Inr validated"
      "scope_change (n_leg_scope s i) capability validated base = Inr (version, direction)"
      "let t = add_events events (downgraded_if (widens direction \<and> control_mode (n_leg_control s) = ''AUTO'')
                 (s\<lparr>scope_rows := AList.update i \<lparr>scope_capability = capability, scope_version = version,
                      scope_members = safe_value False validated\<rparr> (scope_rows s)\<rparr>))
       in n_leg_upsert_scope i capability members base audit s = (Inr contract, t)
          \<and> n_leg_mode_contract t = Inr contract \<and> mode_inv t"
proof (cases "i \<noteq> [] \<and> capability \<in> set CAPABILITIES \<and> (\<exists>validated version direction.
    validated_members members = Inr validated
    \<and> scope_change (n_leg_scope s i) capability validated base = Inr (version, direction))")
  case False
  then have "\<exists>e. n_leg_upsert_scope i capability members base audit s = (Inl e, s)"
    by (auto simp: n_leg_upsert_scope_def simp del: append_Cons split: sum.splits)
  then show ?thesis
    using rejected False by blast
next
  case True
  then obtain validated version direction where
    args: "i \<noteq> []" "capability \<in> set CAPABILITIES" and members: "validated_members members = Inr validated"
    and change: "scope_change (n_leg_scope s i) capability validated base = Inr (version, direction)"
    by blast
  obtain kvs where kvs: "validated = JObj kvs"
    using validated_members_object[OF members] by metis
  let ?c = "n_leg_control s"
  note control = mode_inv_control[OF assms]
  have version: "version = (case n_leg_scope s i of None \<Rightarrow> 1 | Some scope \<Rightarrow> scope_version scope + 1)"
    using change by (auto simp: scope_change_def split: option.splits if_splits)
  define u where "u = s\<lparr>scope_rows := AList.update i \<lparr>scope_capability = capability, scope_version = version,
                      scope_members = safe_value False validated\<rparr> (scope_rows s)\<rparr>"
  define events where "events =
    (if widens direction \<and> control_mode ?c = ''AUTO'' then [downgrade_event (downgrade_reason direction) audit] else [])
    @ [audit_event ''n_leg_upsert_scope'' (''n_leg_execution_scopes/'' @ i) ''succeeded''
         [(''scope_id'', JStr i), (''capability'', JStr capability),
          (''scope_version'', JInt version), (''direction'', JStr direction),
          (''action_word'', JStr (write_word (mode_after (widens direction) s)))] audit]"
  define t where "t = add_events events (downgraded_if (widens direction \<and> control_mode ?c = ''AUTO'') u)"
  have u: "n_leg_control u = ?c" "control_writable (n_leg_control u)"
    using mode_inv_writable[OF assms] by (simp_all add: u_def)
  have inv: "mode_inv t"
    unfolding t_def u_def using assms args version by (rule mode_inv_scope_update)
  obtain contract where contract: "n_leg_mode_contract t = Inr contract"
    using contract_readable[OF inv] .
  have positive: "1 \<le> version"
    using next_scope_version_positive version assms by (simp add: mode_inv_def tables_ok_def)
  have row: "op_bind (n_leg_scope_write i capability version validated) f s = f () u" for f :: "unit \<Rightarrow> ModeContract op"
    using args positive by (simp add: n_leg_scope_write_def dump_payload_def kvs op_bind_def op_guard_def u_def)
  have "n_leg_upsert_scope i capability members base audit s = (Inr contract, t)"
  proof (cases "widens direction \<and> control_mode ?c = ''AUTO''")
    case True
    then show ?thesis
      using contract u args unfolding t_def events_def
      by (simp add: n_leg_upsert_scope_def members change row widens_def[symmetric] op_bind_downgrade mode_after_def
          audit_event_run[OF insertI1] set_control_def downgraded_if_def del: append_Cons insert_iff)
  next
    case False
    then have "mode_after (widens direction) s = control_mode ?c"
      using control(5) by (auto simp: mode_after_def)
    then show ?thesis
      using contract u args unfolding t_def events_def
      by (simp add: n_leg_upsert_scope_def members change row widens_def[symmetric] False
          audit_event_run[OF insertI1] set_control_def downgraded_if_def del: append_Cons insert_iff)
  qed
  then show ?thesis
    using written[OF args members change] contract inv by (auto simp: t_def u_def Let_def)
qed

interpretation upsert_scope: mode_mutation
  "\<lambda>(i, capability, members, base, audit). n_leg_upsert_scope i capability members base audit"
proof (unfold_locales, goal_cases)
  case (1 s x contract t)
  obtain i capability members base audit where "x = (i, capability, members, base, audit)"
    by (cases x)
  with 1 show ?case
    by (cases rule: upsert_scope_cases[OF 1(1), of i capability members base audit]) (auto simp: Let_def)
next
  case (2 s x e t)
  obtain i capability members base audit where "x = (i, capability, members, base, audit)"
    by (cases x)
  with 2 show ?case
    by (cases rule: upsert_scope_cases[OF 2(1), of i capability members base audit]) (auto simp: Let_def)
qed

subsection \<open>Startup and runtime admission\<close>

lemma seed_scope_cases:
  assumes "mode_inv s"
  obtains "n_leg_scope s SAME_EVENT_SAME_VENUE_SCOPE_ID \<noteq> None" "ensure_same_event_same_venue_scope s = (Inr False, s)"
  | t contract where "n_leg_scope s SAME_EVENT_SAME_VENUE_SCOPE_ID = None"
      "ensure_same_event_same_venue_scope s = (Inr True, t)" "mode_inv t"
      "n_leg_upsert_scope SAME_EVENT_SAME_VENUE_SCOPE_ID ''OBSERVE_ONLY'' SAME_EVENT_SAME_VENUE_MEMBERS None JNull s
         = (Inr contract, t)"
proof (cases "n_leg_scope s SAME_EVENT_SAME_VENUE_SCOPE_ID = None")
  case True
  have fixed: "SAME_EVENT_SAME_VENUE_SCOPE_ID \<noteq> []" "''OBSERVE_ONLY'' \<in> set CAPABILITIES"
    "validated_members SAME_EVENT_SAME_VENUE_MEMBERS = Inr SAME_EVENT_SAME_VENUE_MEMBERS"
    by (simp_all add: SAME_EVENT_SAME_VENUE_SCOPE_ID_def CAPABILITIES_def SAME_EVENT_SAME_VENUE_MEMBERS_def
        validated_members_def)
  then have "\<exists>t contract. n_leg_upsert_scope SAME_EVENT_SAME_VENUE_SCOPE_ID ''OBSERVE_ONLY'' SAME_EVENT_SAME_VENUE_MEMBERS
      None JNull s = (Inr contract, t)"
    using True by (cases rule: upsert_scope_cases[OF assms, of SAME_EVENT_SAME_VENUE_SCOPE_ID "''OBSERVE_ONLY''"
            SAME_EVENT_SAME_VENUE_MEMBERS None JNull]) (auto simp: Let_def scope_change_def)
  then show ?thesis
    using that(2)[OF True] upsert_scope.accepted[OF assms] True
    by (auto simp: ensure_same_event_same_venue_scope_def)
qed (use that(1) in \<open>simp add: ensure_same_event_same_venue_scope_def\<close>)

lemma enforce_cases:
  assumes "mode_inv s"
  obtains (ok) answer where "n_leg_enforce_auto_scope_versions audit s = (Inr answer, s)"
      "admission_ok answer" "\<not> admission_downgraded answer" "admission_mode answer = control_mode (n_leg_control s)"
      "control_mode (n_leg_control s) = ''AUTO'' \<Longrightarrow>
        list_all (\<lambda>item. \<not> scope_drifted s item) (enabled_execution_scope_version (n_leg_control s))"
  | (drift) answer events where "control_mode (n_leg_control s) = ''AUTO''"
      "list_ex (scope_drifted s) (enabled_execution_scope_version (n_leg_control s))"
      "n_leg_enforce_auto_scope_versions audit s =
         (Inr answer, add_events events (set_control (\<lambda>c. c\<lparr>control_mode := ''MANUAL''\<rparr>) s))"
      "\<not> admission_ok answer" "admission_downgraded answer" "admission_mode answer = ''MANUAL''"
      "mode_inv (add_events events (set_control (\<lambda>c. c\<lparr>control_mode := ''MANUAL''\<rparr>) s))"
proof -
  let ?c = "n_leg_control s"
  let ?drift = "filter (scope_drifted s) (enabled_execution_scope_version ?c)"
  note control = mode_inv_control[OF assms]
  show ?thesis
  proof (cases "control_mode ?c = ''AUTO'' \<and> ?drift \<noteq> []")
    case False
    then show ?thesis
      using ok control(5) by (cases "control_mode ?c = ''AUTO''")
        (auto simp: n_leg_enforce_auto_scope_versions_def filter_empty_conv list_all_iff)
  next
    case True
    define events where "events = [downgrade_event ''SCOPE_VERSION_DRIFT'' audit,
      audit_event ''n_leg_auto_downgrade'' ''n_leg_controls'' ''failed''
        [(''reason'', JStr ''SCOPE_VERSION_DRIFT''), (''scope_ids'', json_strings (map fst ?drift)),
         (''mode'', JStr ''MANUAL''), (''action_word'', JStr ''manual_confirm'')] audit]"
    have inv: "mode_inv (add_events events (set_control (\<lambda>c. c\<lparr>control_mode := ''MANUAL''\<rparr>) s))"
      using assms by (simp add: mode_inv_def tables_ok_def)
    have "list_ex (scope_drifted s) (enabled_execution_scope_version ?c)"
      using True by (auto simp: filter_empty_conv list_ex_iff)
    then show ?thesis
      using drift[of _ events, OF _ _ _ _ _ _ inv] True mode_inv_writable[OF assms]
      by (simp add: n_leg_enforce_auto_scope_versions_def op_bind_downgrade events_def)
  qed
qed

subsection \<open>What a policy admits\<close>

text \<open>An opportunity clears a policy when profit, margin and annualized return reach the floors and its capital is
  released in time.\<close>

definition admits :: "Policy \<Rightarrow> rat \<times> rat \<times> rat \<times> int \<Rightarrow> bool" where
  "admits p opportunity \<longleftrightarrow>
     (case opportunity of (profit, margin, annualized, days) \<Rightarrow>
        money_value (min_profit_usd p) \<le> profit \<and> money_value (min_net_margin p) \<le> margin
        \<and> money_value (min_annualized_return p) \<le> annualized \<and> days \<le> max_capital_release_days p)"

lemma policy_looser_iff: "policy_looser before after \<longleftrightarrow> (\<exists>x. admits after x \<and> \<not> admits before x)"
proof
  assume "policy_looser before after"
  then have "admits after (money_value (min_profit_usd after), money_value (min_net_margin after),
      money_value (min_annualized_return after), max_capital_release_days after)
    \<and> \<not> admits before (money_value (min_profit_usd after), money_value (min_net_margin after),
      money_value (min_annualized_return after), max_capital_release_days after)"
    by (auto simp: policy_looser_def admits_def)
  then show "\<exists>x. admits after x \<and> \<not> admits before x"
    by blast
qed (auto simp: policy_looser_def admits_def)

lemma current_policy_written:
  assumes "mode_inv s" and "validated_policy (policy_json p) = Inr p"
    and "v = qualification_policy_version (n_leg_control s)"
  shows "current_policy (s\<lparr>policy_rows := AList.update (v + 1) (policy_json p) (policy_rows s)\<rparr>) = Inr (v + 1, p)"
proof -
  have "\<forall>w \<in> fst ` set (policy_rows s). w < v + 1"
    using assms(1,3) by (cases "latest_row (policy_rows s)")
      (auto simp: mode_inv_def tables_ok_def versions_ok_def latest_row_None dest: latest_row_Some)
  then have "latest_row (AList.update (v + 1) (policy_json p) (policy_rows s)) = Some (v + 1, policy_json p)"
    by (rule latest_row_update)
  then show ?thesis
    using assms mode_inv_control(2)[OF assms(1)]
    by (simp add: current_policy_def n_leg_qualification_policy_latest_def)
qed

lemma current_policy_frame:
  "current_policy (add_events es s) = current_policy s" "current_policy (set_control f s) = current_policy s"
  by (simp_all add: current_policy_def n_leg_qualification_policy_latest_def)

text \<open>C31. An accepted policy update is read back at the next version exactly as it was validated, drops AUTO to MANUAL
  if and only if it admits an opportunity that the old policy refused, and makes every later update from the same
  base version fail without a change.\<close>

theorem policy_update_exact:
  assumes "mode_inv s" and "n_leg_update_qualification_policy policy base audit s = (Inr contract, t)"
  shows "\<exists>before after. current_policy s = Inr (base, before) \<and> validated_policy policy = Inr after
    \<and> current_policy t = Inr (base + 1, after)
    \<and> control_mode (n_leg_control t) =
        (if \<exists>x. admits after x \<and> \<not> admits before x then ''MANUAL'' else control_mode (n_leg_control s))
    \<and> (\<forall>policy' audit'. \<exists>e. n_leg_update_qualification_policy policy' base audit' t = (Inl e, t))"
  using assms(1)
proof (cases rule: update_policy_cases[of s policy base audit])
  case (rejected e)
  then show ?thesis
    using assms(2) by simp
next
  case (written contract' events before "after")
  define u where "u = s\<lparr>policy_rows := AList.update (base + 1) (policy_json after) (policy_rows s)\<rparr>"
  have t: "t = add_events events (set_control (\<lambda>c. c\<lparr>control_mode := mode_after (policy_looser before after) s,
      qualification_policy_version := base + 1\<rparr>) u)" and inv: "mode_inv t"
    using written(3) assms(2) by (simp_all add: Let_def u_def)
  have base: "base = qualification_policy_version (n_leg_control s)"
    using written(1) current_policy_ok[OF assms(1)] by (metis Inr_inject prod.inject)
  have new: "current_policy t = Inr (base + 1, after)"
    using current_policy_written[OF assms(1) validated_policy_stored(1)[OF written(2)] base]
    by (simp add: t current_policy_frame u_def)
  have "\<exists>e. n_leg_update_qualification_policy policy' base audit' t = (Inl e, t)" for policy' audit'
    using inv new by (cases rule: update_policy_cases[of t policy' base audit']) auto
  then show ?thesis
    using written(1,2) new by (auto simp: t u_def mode_after_def policy_looser_iff)
qed
definition auto_store :: NLegStore where
  "auto_store = empty_store\<lparr>control_row := Some (default_control\<lparr>control_mode := ''AUTO''\<rparr>)\<rparr>"

definition relaxed_policy :: json where
  "relaxed_policy =
     JObj [(''min_profit_usd'', JStr ''0.50''), (''min_net_margin'', JStr ''0.02''),
       (''min_annualized_return'', JStr ''0.15''), (''max_capital_release_days'', JInt 30)]"

lemma mode_inv_auto_store: "mode_inv auto_store"
  by (simp add: auto_store_def mode_inv_def tables_ok_def n_leg_control_def empty_store_def default_control_def versions_ok_def
      latest_row_def scopes_ok_def enabled_ok_def)

theorem policy_update_exact_witness:
  "\<exists>contract t after. n_leg_update_qualification_policy relaxed_policy 1 JNull auto_store = (Inr contract, t)
     \<and> validated_policy relaxed_policy = Inr after \<and> current_policy t = Inr (2, after)
     \<and> control_mode (n_leg_control auto_store) = ''AUTO'' \<and> control_mode (n_leg_control t) = ''MANUAL''"
proof -
  define p where "p = \<lparr>min_profit_usd = ''0.50'', min_net_margin = ''0.02'', min_annualized_return = ''0.15'',
    max_capital_release_days = 30\<rparr>"
  have p: "validated_policy relaxed_policy = Inr p"
    unfolding p_def by code_simp
  have "money_value ''0.50'' < money_value ''1.00''"
    by code_simp
  then have looser: "policy_looser DEFAULT_QUALIFICATION_POLICY p"
    by (simp add: policy_looser_def p_def DEFAULT_QUALIFICATION_POLICY_def)
  have start: "current_policy auto_store = Inr (1, DEFAULT_QUALIFICATION_POLICY)"
    "qualification_policy_version (n_leg_control auto_store) = 1" "control_mode (n_leg_control auto_store) = ''AUTO''"
    by (simp_all add: auto_store_def empty_store_def current_policy_def n_leg_qualification_policy_latest_def
        latest_row_def default_control_def n_leg_control_def)
  obtain contract t where run: "n_leg_update_qualification_policy relaxed_policy 1 JNull auto_store = (Inr contract, t)"
    using mode_inv_auto_store
    by (cases rule: update_policy_cases[of auto_store relaxed_policy 1 JNull]) (use p start in \<open>auto simp: Let_def\<close>)
  show ?thesis
    using policy_update_exact[OF mode_inv_auto_store run] run p start looser by (auto simp: policy_looser_iff)
qed

subsection \<open>Readiness\<close>

lemma map_sort_key: "map f (sort_key f xs) = sort (map f xs)"
  by (rule properties_for_sort[symmetric]) simp_all

lemma gate_reason_None:
  "gate_reason g = None \<longleftrightarrow> \<not> gate_breaker_open g \<and> \<not> gate_incident_active g \<and> \<not> gate_batch_active g"
  by (simp add: gate_reason_def)

lemma contract_fields:
  assumes "n_leg_mode_contract s = Inr contract"
  shows "contract_mode contract = control_mode (n_leg_control s)" "contract_scopes contract = n_leg_scopes s"
    "contract_enabled contract = enabled_execution_scope_version (n_leg_control s)"
    "contract_gates contract = \<lparr>gate_breaker_open = breaker_open (n_leg_control s),
       gate_incident_active = (unacknowledged_incident s \<or> n_leg_incident_batch s),
       gate_batch_active = (active_batch_id (n_leg_control s) \<noteq> None)\<rparr>"
  using assms by (auto simp: n_leg_mode_contract_def Let_def)

text \<open>No breaker, no incident and no active batch.\<close>

definition gates_clear :: "NLegStore \<Rightarrow> bool" where
  "gates_clear s \<longleftrightarrow>
     \<not> breaker_open (n_leg_control s) \<and> \<not> unacknowledged_incident s \<and> \<not> n_leg_incident_batch s
     \<and> active_batch_id (n_leg_control s) = None"

text \<open>The actions that a scope may take.\<close>

definition allowed_action :: "NLegStore \<Rightarrow> string \<Rightarrow> Scope \<Rightarrow> string option" where
  "allowed_action s i scope =
     (if \<not> gates_clear s \<or> scope_capability scope = ''OBSERVE_ONLY'' then None
      else if control_mode (n_leg_control s) = ''MANUAL'' then Some ''manual_confirm''
      else if scope_capability scope = ''AUTO_ELIGIBLE''
         \<and> (i, scope_version scope) \<in> set (enabled_execution_scope_version (n_leg_control s))
      then Some ''auto_submit'' else None)"

text \<open>C30. In a consistent store the readiness envelope lists every registered scope once, in order of its id. A scope may
  submit by itself exactly when the mode is AUTO, the scope is AUTO_ELIGIBLE and enabled at its registered version and
  no breaker, incident or batch holds the gates; it may be confirmed by hand exactly when the mode is MANUAL, it is
  not observe-only and the gates are clear; and the envelope is ready when some scope is.\<close>

theorem order_readiness_exact:
  assumes "mode_inv s"
  shows "\<exists>r. n_leg_order_readiness s = Inr r
    \<and> map entry_scope_id (ready_scopes r) = sort (map fst (scope_rows s)) \<and> distinct (map entry_scope_id (ready_scopes r))
    \<and> (\<forall>entry \<in> set (ready_scopes r). \<exists>scope. n_leg_scope s (entry_scope_id entry) = Some scope
          \<and> entry_action entry = allowed_action s (entry_scope_id entry) scope
          \<and> entry_order_ready entry = (entry_action entry \<noteq> None))
    \<and> ready_any r = (\<exists>i scope. n_leg_scope s i = Some scope \<and> allowed_action s i scope \<noteq> None)"
proof -
  obtain contract where contract: "n_leg_mode_contract s = Inr contract"
    using contract_readable[OF assms] .
  note fields = contract_fields[OF contract]
  let ?enabled = "enabled_execution_scope_version (n_leg_control s)"
  have ok: "scopes_ok (scope_rows s)" and en: "enabled_ok (scope_rows s) ?enabled"
    using assms by (auto simp: mode_inv_def tables_ok_def)
  have mode: "control_mode (n_leg_control s) = ''MANUAL'' \<or> control_mode (n_leg_control s) = ''AUTO''"
    by (rule mode_inv_control(5)[OF assms])
  have enabled: "map_of (rev ?enabled) i = Some v \<longleftrightarrow> (i, v) \<in> set ?enabled" for i v
    using en map_of_eq_Some_iff[of "rev ?enabled" i v] by (simp add: enabled_ok_def rev_map[symmetric])
  have lookup: "n_leg_scope s i = Some scope \<longleftrightarrow> (i, scope) \<in> set (n_leg_scopes s)" for i scope
    using ok by (simp add: n_leg_scope_def n_leg_scopes_def scopes_ok_def)
  have capability: "scope_capability scope \<in> set CAPABILITIES" if "(i, scope) \<in> set (n_leg_scopes s)" for i scope
    using ok that by (auto simp: scopes_ok_def n_leg_scopes_def)
  define r where "r = contract_readiness contract"
  define gate where "gate = (\<lambda>e::ScopeReadiness. if gates_clear s then e
    else e\<lparr>entry_order_ready := False, entry_reason := the (gate_reason (contract_gates contract)), entry_action := None\<rparr>)"
  have gates: "gate_reason (contract_gates contract) = None \<longleftrightarrow> gates_clear s"
    by (auto simp: gate_reason_None fields gates_clear_def)
  have entries: "ready_scopes r = map (\<lambda>(i, scope). gate (scope_readiness (control_mode (n_leg_control s))
      (map_of (rev ?enabled)) i scope)) (n_leg_scopes s)"
    using gates by (auto simp: r_def contract_readiness_def Let_def gate_def fields split: option.splits)
  have one: "entry_scope_id e = i \<and> entry_action e = allowed_action s i scope \<and> entry_order_ready e = (entry_action e \<noteq> None)"
    if "(i, scope) \<in> set (n_leg_scopes s)"
      and "e = gate (scope_readiness (control_mode (n_leg_control s)) (map_of (rev ?enabled)) i scope)" for i scope e
    using capability[OF that(1)] mode enabled[of i "scope_version scope"] unfolding that(2)
    by (auto simp: gate_def scope_readiness_def Let_def allowed_action_def CAPABILITIES_def)
  have ids: "map entry_scope_id (ready_scopes r) = map fst (n_leg_scopes s)"
    using one by (auto simp: entries)
  have "map fst (n_leg_scopes s) = sort (map fst (scope_rows s))"
    by (simp add: n_leg_scopes_def map_sort_key)
  moreover have "n_leg_order_readiness s = Inr r"
    by (simp add: n_leg_order_readiness_def contract r_def)
  moreover have "ready_any r = (\<exists>i scope. n_leg_scope s i = Some scope \<and> allowed_action s i scope \<noteq> None)"
  proof -
    have "ready_any r = list_ex entry_order_ready (ready_scopes r)"
      by (simp add: r_def contract_readiness_def Let_def)
    also have "\<dots> = (\<exists>(i, scope) \<in> set (n_leg_scopes s). allowed_action s i scope \<noteq> None)"
      using one by (auto simp: entries list_ex_iff split_beta)
    finally show ?thesis
      by (auto simp: lookup)
  qed
  moreover have "\<exists>scope. n_leg_scope s (entry_scope_id e) = Some scope
      \<and> entry_action e = allowed_action s (entry_scope_id e) scope \<and> entry_order_ready e = (entry_action e \<noteq> None)"
    if "e \<in> set (ready_scopes r)" for e
    using that one unfolding entries lookup by auto
  ultimately show ?thesis
    using ids ok by (auto simp: scopes_ok_def)
qed

definition armed_store :: NLegStore where
  "armed_store = auto_store\<lparr>
     control_row := Some (default_control\<lparr>control_mode := ''AUTO'', enabled_execution_scope_version := [(''S'', 2)]\<rparr>),
     scope_rows := [(''S'', \<lparr>scope_capability = ''AUTO_ELIGIBLE'', scope_version = 2,
                             scope_members = JObj [(''venues'', JNull)]\<rparr>)]\<rparr>"

theorem order_readiness_exact_witness:
  "mode_inv armed_store
   \<and> (\<exists>r. n_leg_order_readiness armed_store = Inr r \<and> ready_any r
        \<and> (\<forall>entry \<in> set (ready_scopes r). entry_action entry = Some ''auto_submit''))"
proof -
  have inv: "mode_inv armed_store"
    by (simp add: armed_store_def auto_store_def mode_inv_def tables_ok_def n_leg_control_def empty_store_def
        default_control_def versions_ok_def latest_row_def scopes_ok_def enabled_ok_def CAPABILITIES_def)
  have clear: "gates_clear armed_store"
    by (simp add: armed_store_def auto_store_def empty_store_def default_control_def gates_clear_def n_leg_control_def
        unacknowledged_incident_def n_leg_incident_batch_def)
  have scope: "n_leg_scope armed_store i = Some scope \<longleftrightarrow> i = ''S'' \<and> scope =
      \<lparr>scope_capability = ''AUTO_ELIGIBLE'', scope_version = 2, scope_members = JObj [(''venues'', JNull)]\<rparr>" for i scope
    by (auto simp: armed_store_def n_leg_scope_def)
  have "control_mode (n_leg_control armed_store) = ''AUTO''"
    "enabled_execution_scope_version (n_leg_control armed_store) = [(''S'', 2)]"
    by (simp_all add: armed_store_def n_leg_control_def)
  then have action: "allowed_action armed_store ''S''
      \<lparr>scope_capability = ''AUTO_ELIGIBLE'', scope_version = 2, scope_members = JObj [(''venues'', JNull)]\<rparr> = Some ''auto_submit''"
    using clear by (simp add: allowed_action_def)
  show ?thesis
    using order_readiness_exact[OF inv] inv action by (force simp: scope)
qed

subsection \<open>Safety updates\<close>

lemma current_safety_written:
  assumes "mode_inv s" and "valid_safety c" and "v = safety_config_version (n_leg_control s)"
  shows "n_leg_safety_config_latest (s\<lparr>safety_rows := AList.update (v + 1) (stored_safety_json c) (safety_rows s)\<rparr>)
    = Some (v + 1, stored_safety_json c)"
proof -
  have "\<forall>w \<in> fst ` set (safety_rows s). w < v + 1"
    using assms(1,3) by (cases "latest_row (safety_rows s)")
      (auto simp: mode_inv_def tables_ok_def versions_ok_def latest_row_None dest: latest_row_Some)
  then show ?thesis
    by (simp add: n_leg_safety_config_latest_def latest_row_update)
qed

lemma safety_latest_frame:
  "n_leg_safety_config_latest (add_events es s) = n_leg_safety_config_latest s"
  "n_leg_safety_config_latest (set_control f s) = n_leg_safety_config_latest s"
  by (simp_all add: n_leg_safety_config_latest_def)

text \<open>C32. An accepted safety update is read back at the next version with the caps marked as confirmed, so that the caps
  gate opens; later updates from the same base fail without a change; and AUTO drops to MANUAL exactly when the re-arm
  gap shrinks or the unsettled-capital, partial-fill or repair-loss cap grows. The per-trade cost cap is not among
  them: raising it keeps AUTO.\<close>

theorem safety_update_exact:
  assumes "mode_inv s" and "n_leg_update_safety_config config base audit s = (Inr contract, t)"
  shows "\<exists>before marker after. current_safety_config s = Inr (base, before, marker)
    \<and> validated_safety_config config = Inr after
    \<and> current_safety_config t = Inr (base + 1, after, True) \<and> n_leg_caps_gate t = Inr (True, ''CAPS_CONFIGURED'')
    \<and> control_mode (n_leg_control t) =
        (if episode_rearm_gap_seconds after < episode_rearm_gap_seconds before
            \<or> max_total_unsettled_capital_units before < max_total_unsettled_capital_units after
            \<or> max_partial_fill_loss_units before < max_partial_fill_loss_units after
            \<or> max_auto_repair_loss_units before < max_auto_repair_loss_units after
         then ''MANUAL'' else control_mode (n_leg_control s))
    \<and> (\<forall>config' audit'. \<exists>e. n_leg_update_safety_config config' base audit' t = (Inl e, t))"
  using assms(1)
proof (cases rule: update_safety_cases[of s config base audit])
  case (rejected e)
  then show ?thesis
    using assms(2) by simp
next
  case (written contract' events before marker "after")
  define u where "u = s\<lparr>safety_rows := AList.update (base + 1) (stored_safety_json after) (safety_rows s)\<rparr>"
  have t: "t = add_events events (set_control (\<lambda>c. c\<lparr>control_mode := mode_after (safety_looser before after) s,
      safety_config_version := base + 1\<rparr>) u)" and inv: "mode_inv t"
    using written(3) assms(2) by (simp_all add: Let_def u_def)
  have valid: "valid_safety after"
    by (rule validated_safety_valid[OF written(2)])
  have base: "base = safety_config_version (n_leg_control s)"
    using written(1) current_safety_ok[OF assms(1)] by (metis Inr_inject prod.inject)
  have latest: "n_leg_safety_config_latest t = Some (base + 1, stored_safety_json after)"
    using current_safety_written[OF assms(1) valid base] by (simp add: t safety_latest_frame u_def)
  have new: "current_safety_config t = Inr (base + 1, after, True)" and gate: "n_leg_caps_gate t = Inr (True, ''CAPS_CONFIGURED'')"
    using latest valid mode_inv_control(3)[OF assms(1)] base
    by (simp_all add: current_safety_config_def n_leg_caps_gate_def stored_safety_reads_back)
  have "\<exists>e. n_leg_update_safety_config config' base audit' t = (Inl e, t)" for config' audit'
    using inv new by (cases rule: update_safety_cases[of t config' base audit']) auto
  then show ?thesis
    using written(1,2) new gate by (auto simp: t u_def mode_after_def safety_looser_def safety_direction_def)
qed

definition raised_cost_cap :: json where
  "raised_cost_cap =
     JObj [(''episode_rearm_gap_seconds'', JInt 300), (''max_per_trade_cost_units'', JInt 1000000),
       (''max_total_unsettled_capital_units'', JInt 0), (''max_partial_fill_loss_units'', JInt 0),
       (''max_auto_repair_loss_units'', JInt 0)]"

theorem safety_update_exact_witness:
  "\<exists>contract t. n_leg_update_safety_config raised_cost_cap 1 JNull auto_store = (Inr contract, t)
     \<and> control_mode (n_leg_control t) = ''AUTO'' \<and> n_leg_caps_gate t = Inr (True, ''CAPS_CONFIGURED'')"
proof -
  define c where "c = DEFAULT_SAFETY_CONFIG\<lparr>max_per_trade_cost_units := 1000000\<rparr>"
  have c: "validated_safety_config raised_cost_cap = Inr c"
    unfolding c_def by code_simp
  have start: "current_safety_config auto_store = Inr (1, DEFAULT_SAFETY_CONFIG, False)"
    "safety_config_version (n_leg_control auto_store) = 1" "control_mode (n_leg_control auto_store) = ''AUTO''"
    by (simp_all add: auto_store_def empty_store_def current_safety_config_def n_leg_safety_config_latest_def
        latest_row_def default_control_def n_leg_control_def)
  obtain contract t where run: "n_leg_update_safety_config raised_cost_cap 1 JNull auto_store = (Inr contract, t)"
    using mode_inv_auto_store
    by (cases rule: update_safety_cases[of auto_store raised_cost_cap 1 JNull]) (use c start in \<open>auto simp: Let_def\<close>)
  show ?thesis
    using safety_update_exact[OF mode_inv_auto_store run] run c start by (auto simp: c_def)
qed

subsection \<open>Raising a capability\<close>

lemma capability_order: "scope_capability scope = ''OBSERVE_ONLY'' \<Longrightarrow> \<not> scope_capability scope < ''AUTO_ELIGIBLE''"
proof -
  have "\<not> ''OBSERVE_ONLY'' < ''AUTO_ELIGIBLE''"
    by code_simp
  then show "scope_capability scope = ''OBSERVE_ONLY'' \<Longrightarrow> \<not> scope_capability scope < ''AUTO_ELIGIBLE''"
    by simp
qed

lemma gates_clear_frame:
  "gates_clear (add_events es s) = gates_clear s"
  "gates_clear (s\<lparr>scope_rows := rows\<rparr>) = gates_clear s"
  "(\<And>c. breaker_open (f c) = breaker_open c \<and> active_batch_id (f c) = active_batch_id c) \<Longrightarrow>
     gates_clear (set_control f s) = gates_clear s"
  by (simp_all add: gates_clear_def unacknowledged_incident_def n_leg_incident_batch_def)

text \<open>C39. The comparison of capabilities is the order of the words, so raising a scope from OBSERVE_ONLY to AUTO_ELIGIBLE
  counts as a tightening: from AUTO, with the scope already enabled, the raise and the re-enabling both go through
  without leaving AUTO, and the scope may then submit by itself.\<close>

theorem promotion_keeps_auto:
  assumes "mode_inv s" and auto: "control_mode (n_leg_control s) = ''AUTO''" and clear: "gates_clear s"
    and scope: "n_leg_scope s i = Some scope" "scope_capability scope = ''OBSERVE_ONLY''"
    and enabled: "(i, scope_version scope) \<in> set (enabled_execution_scope_version (n_leg_control s))"
    and members: "validated_members members = Inr members"
  shows "\<exists>c1 t c2 u scope'.
     n_leg_upsert_scope i ''AUTO_ELIGIBLE'' members (Some (scope_version scope)) audit s = (Inr c1, t)
     \<and> control_mode (n_leg_control t) = ''AUTO''
     \<and> n_leg_set_enabled_scope i True (contract_generation (n_leg_control s)) audit t = (Inr c2, u)
     \<and> control_mode (n_leg_control u) = ''AUTO''
     \<and> n_leg_scope u i = Some scope' \<and> allowed_action u i scope' = Some ''auto_submit''"
proof -
  have i: "i \<noteq> []" and distinct: "distinct (map fst (enabled_execution_scope_version (n_leg_control s)))"
    using assms(1) scope(1)
    by (auto simp: mode_inv_def tables_ok_def scopes_ok_def enabled_ok_def n_leg_scope_def dest: map_of_SomeD)
  have change: "scope_change (n_leg_scope s i) ''AUTO_ELIGIBLE'' members (Some (scope_version scope))
      = Inr (scope_version scope + 1, ''tighten'')"
    using scope capability_order[OF scope(2)] by (simp add: scope_change_def scope_direction_def)
  define new where "new = \<lparr>scope_capability = ''AUTO_ELIGIBLE'', scope_version = scope_version scope + 1,
    scope_members = safe_value False members\<rparr>"
  obtain c1 events where t: "n_leg_upsert_scope i ''AUTO_ELIGIBLE'' members (Some (scope_version scope)) audit s =
      (Inr c1, add_events events (s\<lparr>scope_rows := AList.update i new (scope_rows s)\<rparr>))"
    and inv: "mode_inv (add_events events (s\<lparr>scope_rows := AList.update i new (scope_rows s)\<rparr>))"
    using assms(1) by (cases rule: upsert_scope_cases[of s i "''AUTO_ELIGIBLE''" members "Some (scope_version scope)" audit])
      (use i members change in \<open>auto simp: Let_def CAPABILITIES_def widens_def downgraded_if_def new_def\<close>)
  define t' where "t' = add_events events (s\<lparr>scope_rows := AList.update i new (scope_rows s)\<rparr>)"
  have t': "n_leg_control t' = n_leg_control s" "n_leg_scope t' i = Some new" "gates_clear t'" "mode_inv t'"
    using clear inv by (simp_all add: t'_def n_leg_scope_def update_conv gates_clear_frame)
  have was: "map_of (enabled_execution_scope_version (n_leg_control t')) i = Some (scope_version scope)"
    using enabled distinct by (simp add: t')
  obtain c2 events2 where u: "n_leg_set_enabled_scope i True (contract_generation (n_leg_control s)) audit t' =
      (Inr c2, add_events events2 (set_control (\<lambda>c. c\<lparr>control_mode := ''AUTO'',
         enabled_execution_scope_version := enabled_after t' i True\<rparr>) t'))"
    using t'(4) by (cases rule: set_enabled_cases[of t' i True "contract_generation (n_leg_control s)" audit])
      (use i t' was auto in \<open>auto simp: Let_def mode_after_enable_def new_def\<close>)
  define u' where "u' = add_events events2 (set_control (\<lambda>c. c\<lparr>control_mode := ''AUTO'',
         enabled_execution_scope_version := enabled_after t' i True\<rparr>) t')"
  have "n_leg_scope u' i = Some new" "gates_clear u'" "control_mode (n_leg_control u') = ''AUTO''"
    using t' by (simp_all add: u'_def n_leg_scope_def gates_clear_frame)
  moreover have "(i, scope_version new) \<in> set (enabled_execution_scope_version (n_leg_control u'))"
    using t'(2) by (simp add: u'_def enabled_after_def)
  ultimately have "allowed_action u' i new = Some ''auto_submit''"
    by (simp add: allowed_action_def new_def)
  then show ?thesis
    using t u t' auto \<open>n_leg_scope u' i = Some new\<close> unfolding t'_def[symmetric] u'_def[symmetric]
    by (metis \<open>control_mode (n_leg_control u') = ''AUTO''\<close>)
qed

definition observing_store :: NLegStore where
  "observing_store = auto_store\<lparr>
     control_row := Some (default_control\<lparr>control_mode := ''AUTO'', enabled_execution_scope_version := [(''S'', 1)]\<rparr>),
     scope_rows := [(''S'', \<lparr>scope_capability = ''OBSERVE_ONLY'', scope_version = 1,
                             scope_members = JObj [(''venues'', JNull)]\<rparr>)]\<rparr>"

theorem promotion_keeps_auto_witness:
  "\<exists>c1 t c2 u scope'. n_leg_upsert_scope ''S'' ''AUTO_ELIGIBLE'' (JObj [(''venues'', JNull)]) (Some 1) JNull observing_store = (Inr c1, t)
     \<and> n_leg_set_enabled_scope ''S'' True 1 JNull t = (Inr c2, u)
     \<and> n_leg_scope u ''S'' = Some scope' \<and> allowed_action u ''S'' scope' = Some ''auto_submit''"
proof -
  have control: "n_leg_control observing_store =
      default_control\<lparr>control_mode := ''AUTO'', enabled_execution_scope_version := [(''S'', 1)]\<rparr>"
    by (simp add: observing_store_def n_leg_control_def)
  have "mode_inv observing_store"
    by (simp add: control mode_inv_def tables_ok_def)
      (simp add: observing_store_def auto_store_def empty_store_def default_control_def versions_ok_def latest_row_def
        scopes_ok_def enabled_ok_def CAPABILITIES_def)
  moreover have "gates_clear observing_store"
    by (simp add: gates_clear_def control)
      (simp add: observing_store_def auto_store_def empty_store_def default_control_def unacknowledged_incident_def
        n_leg_incident_batch_def)
  moreover have "n_leg_scope observing_store ''S'' = Some \<lparr>scope_capability = ''OBSERVE_ONLY'', scope_version = 1,
      scope_members = JObj [(''venues'', JNull)]\<rparr>"
    by (simp add: observing_store_def n_leg_scope_def)
  moreover have "validated_members (JObj [(''venues'', JNull)]) = Inr (JObj [(''venues'', JNull)])"
    by (simp add: validated_members_def)
  moreover have "contract_generation (n_leg_control observing_store) = 1"
    by (simp add: control default_control_def)
  ultimately show ?thesis
    using promotion_keeps_auto[of observing_store "''S''" "\<lparr>scope_capability = ''OBSERVE_ONLY'', scope_version = 1,
      scope_members = JObj [(''venues'', JNull)]\<rparr>" "JObj [(''venues'', JNull)]" JNull]
    by (auto simp: control)
qed

end
