(* ===== verification/NLeg_Requests.thy ===== *)
theory NLeg_Requests
  imports NLeg_Store
begin

section \<open>The FIFO of execution requests\<close>

text \<open>
  The request operations of \<^verbatim>\<open>prediction_arbitrage_store.py\<close>: enqueue, lookup by idempotency key, list, head, update
  and the incident stop that abandons every pending row. Rows keep the order of insertion and carry the
  autoincremented \<open>fifo_index\<close>. The random row id is an argument; a clash with an existing row is the database's
  integrity error. Each operation is one transaction, so an error leaves the table as it was.
\<close>

definition request_pending :: "RequestRow \<Rightarrow> bool" where
  "request_pending r \<longleftrightarrow> request_row_state r = ''PENDING''"

definition n_leg_request_by_idempotency_key :: "NLegStore \<Rightarrow> string \<Rightarrow> RequestRow option" where
  "n_leg_request_by_idempotency_key s key = find (\<lambda>r. idempotency_key r = key) (request_rows s)"

definition n_leg_requests :: "NLegStore \<Rightarrow> RequestRow list" where
  "n_leg_requests s = sort_key fifo_index (request_rows s)"

definition n_leg_request_head :: "NLegStore \<Rightarrow> RequestRow option" where
  "n_leg_request_head s = find request_pending (n_leg_requests s)"

definition n_leg_request_enqueue :: "string \<Rightarrow> string \<Rightarrow> json \<Rightarrow> int \<Rightarrow> string \<Rightarrow> RequestRow op" where
  "n_leg_request_enqueue component_id key payload max_pending new_id =
     op_bind (op_guard (component_id \<noteq> []) (ValueError ''component id must be non-empty text'')) (\<lambda>_.
     op_bind (op_guard (key \<noteq> []) (ValueError ''idempotency key must be non-empty text'')) (\<lambda>_.
     op_bind (op_guard (1 \<le> max_pending) (ValueError ''max_pending must be a positive integer'')) (\<lambda>_.
     op_bind (op_lift (dump_payload payload)) (\<lambda>encoded.
     op_bind (op_read (\<lambda>s. n_leg_request_by_idempotency_key s key)) (\<lambda>existing.
     case existing of
       Some row \<Rightarrow> op_return row
     | None \<Rightarrow>
         op_bind (op_read (\<lambda>s. filter request_pending (request_rows s))) (\<lambda>pending_rows.
         op_bind (op_guard (\<not> list_ex (\<lambda>r. request_component_id r = component_id) pending_rows)
                    (ValueError ''QUEUE_DUPLICATE'')) (\<lambda>_.
         op_bind (op_guard (int (length pending_rows) < max_pending) (ValueError ''QUEUE_FULL'')) (\<lambda>_.
         op_bind (op_read (\<lambda>s. list_ex (\<lambda>r. request_id r = new_id) (request_rows s))) (\<lambda>clash.
         op_bind (op_guard (\<not> clash) IntegrityError) (\<lambda>_.
         op_bind (op_read (\<lambda>s.
           \<lparr>request_id = new_id, fifo_index = next_fifo_index s, idempotency_key = key,
            request_component_id = component_id, request_row_state = ''PENDING'', abandon_reason = None,
            request_row_payload = encoded\<rparr>)) (\<lambda>row.
         op_bind (op_update (\<lambda>s. s\<lparr>request_rows := request_rows s @ [row], next_fifo_index := next_fifo_index s + 1\<rparr>))
           (\<lambda>_. op_return row))))))))))))"

definition REQUEST_STATES :: "string list" where
  "REQUEST_STATES = [''PENDING'', ''ADMITTED'', ''ABANDONED'', ''SUBMITTED'']"

text \<open>\<open>{**payload, **merge}\<close>; the payload of a row is an object.\<close>

fun merged_payload :: "json \<Rightarrow> (string \<times> json) list \<Rightarrow> json" where
  "merged_payload (JObj kvs) merge = JObj (fold (\<lambda>(k, v). AList.update k v) merge kvs)"
| "merged_payload v merge = v"

definition updated_request ::
  "string option \<Rightarrow> string option \<Rightarrow> (string \<times> json) list \<Rightarrow> RequestRow \<Rightarrow> RequestRow result" where
  "updated_request state reason merge row =
     rbind (dump_payload (merged_payload (request_row_payload row) merge)) (\<lambda>encoded.
     Inr (row\<lparr>request_row_state := or_else state (request_row_state row),
              abandon_reason := (case reason of None \<Rightarrow> abandon_reason row | Some r \<Rightarrow> Some r),
              request_row_payload := encoded\<rparr>))"

definition n_leg_request_update ::
  "string \<Rightarrow> string option \<Rightarrow> string option \<Rightarrow> (string \<times> json) list \<Rightarrow> RequestRow op" where
  "n_leg_request_update i state reason merge =
     op_bind (op_guard (\<forall>x \<in> set_option state. x \<in> set REQUEST_STATES)
                (ValueError ''invalid n-leg execution request state'')) (\<lambda>_.
     op_bind (op_read (\<lambda>s. find (\<lambda>r. request_id r = i) (request_rows s))) (\<lambda>found.
     case found of
       None \<Rightarrow> op_raise (ValueError ''N_LEG_REQUEST_NOT_FOUND'')
     | Some row \<Rightarrow>
         op_bind (op_lift (updated_request state reason merge row)) (\<lambda>row'.
         op_bind (op_update (\<lambda>s. s\<lparr>request_rows :=
           map (\<lambda>r. if request_id r = i then row' else r) (request_rows s)\<rparr>)) (\<lambda>_.
         op_return row'))))"

definition n_leg_requests_abandon_pending :: "string \<Rightarrow> int op" where
  "n_leg_requests_abandon_pending reason =
     op_bind (op_guard (reason \<noteq> []) (ValueError ''abandon reason must be non-empty text'')) (\<lambda>_.
     op_bind (op_read (\<lambda>s. int (length (filter request_pending (request_rows s))))) (\<lambda>changed.
     op_bind (op_update (\<lambda>s. s\<lparr>request_rows :=
       map (\<lambda>r. if request_pending r then r\<lparr>request_row_state := ''ABANDONED'', abandon_reason := Some reason\<rparr> else r)
         (request_rows s)\<rparr>)) (\<lambda>_.
     op_return changed)))"

subsection \<open>Consistency of the table\<close>

definition queue_inv :: "NLegStore \<Rightarrow> bool" where
  "queue_inv s \<longleftrightarrow>
     distinct (map request_id (request_rows s)) \<and> distinct (map idempotency_key (request_rows s))
     \<and> sorted_wrt (\<lambda>a b. fifo_index a < fifo_index b) (request_rows s)
     \<and> (\<forall>r \<in> set (request_rows s). fifo_index r < next_fifo_index s
          \<and> request_row_state r \<in> set REQUEST_STATES \<and> (\<exists>kvs. request_row_payload r = JObj kvs))"

text \<open>The requests waiting to be served, first come first.\<close>

definition waiting :: "NLegStore \<Rightarrow> RequestRow list" where
  "waiting s = filter request_pending (request_rows s)"

lemma queue_inv_empty: "queue_inv empty_store"
  by (simp add: queue_inv_def empty_store_def)

lemma requests_in_order: "queue_inv s \<Longrightarrow> n_leg_requests s = request_rows s"
proof -
  assume "queue_inv s"
  then have "sorted (map fifo_index (request_rows s))"
    using sorted_wrt_mono_rel[of "request_rows s" "\<lambda>a b. fifo_index a < fifo_index b" "\<lambda>a b. fifo_index a \<le> fifo_index b"]
    by (simp add: queue_inv_def sorted_map)
  then show ?thesis
    by (simp add: n_leg_requests_def sort_key_sorted_id)
qed

lemma find_filter: "find P xs = (case filter P xs of [] \<Rightarrow> None | x # _ \<Rightarrow> Some x)"
  by (induction xs) auto

lemma head_is_first: "queue_inv s \<Longrightarrow> n_leg_request_head s = (case waiting s of [] \<Rightarrow> None | r # _ \<Rightarrow> Some r)"
  by (simp add: n_leg_request_head_def requests_in_order waiting_def find_filter)

lemma dump_payload_object: "dump_payload j = Inr v \<Longrightarrow> \<exists>kvs. v = JObj kvs"
  by (cases "safe_value False j") (auto simp: dump_payload_def)

lemma enqueue_cases:
  assumes "n_leg_request_enqueue component_id key payload max_pending new_id s = (r, t)"
  obtains (error) e where "r = Inl e" "t = s"
  | (replay) row where "r = Inr row" "t = s" "row \<in> set (request_rows s)" "idempotency_key row = key"
  | (added) row where "r = Inr row" "request_rows t = request_rows s @ [row]" "next_fifo_index t = next_fifo_index s + 1"
      "t = s\<lparr>request_rows := request_rows s @ [row], next_fifo_index := next_fifo_index s + 1\<rparr>"
      "request_pending row" "fifo_index row = next_fifo_index s" "idempotency_key row = key" "request_id row = new_id"
      "request_component_id row = component_id" "\<exists>kvs. request_row_payload row = JObj kvs"
      "key \<notin> idempotency_key ` set (request_rows s)" "new_id \<notin> request_id ` set (request_rows s)"
      "component_id \<notin> request_component_id ` set (waiting s)" "int (length (waiting s)) < max_pending"
proof (cases "n_leg_request_by_idempotency_key s key")
  case (Some row)
  then have "row \<in> set (request_rows s)" "idempotency_key row = key"
    by (auto simp: n_leg_request_by_idempotency_key_def find_Some_iff)
  then show ?thesis
    using assms error replay Some
    by (auto simp: n_leg_request_enqueue_def split: if_splits sum.splits)
next
  case None
  then have "key \<notin> idempotency_key ` set (request_rows s)"
    by (auto simp: n_leg_request_by_idempotency_key_def find_None_iff)
  define row where "row = (\<lambda>encoded. \<lparr>request_id = new_id, fifo_index = next_fifo_index s, idempotency_key = key,
    request_component_id = component_id, request_row_state = ''PENDING'', abandon_reason = None,
    request_row_payload = encoded\<rparr>)"
  have "(\<exists>e. r = Inl e \<and> t = s) \<or> (\<exists>encoded. dump_payload payload = Inr encoded \<and> r = Inr (row encoded)
      \<and> t = s\<lparr>request_rows := request_rows s @ [row encoded], next_fifo_index := next_fifo_index s + 1\<rparr>
      \<and> (\<forall>q \<in> set (waiting s). request_component_id q \<noteq> component_id) \<and> int (length (waiting s)) < max_pending
      \<and> (\<forall>q \<in> set (request_rows s). request_id q \<noteq> new_id))"
    using assms None unfolding waiting_def row_def
    by (auto simp: n_leg_request_enqueue_def list_ex_iff split: if_splits sum.splits)
  then show ?thesis
    using error added dump_payload_object \<open>key \<notin> _\<close> by (fastforce simp: row_def request_pending_def)
qed

lemma enqueue_queue_inv:
  assumes "queue_inv s" and "n_leg_request_enqueue component_id key payload max_pending new_id s = (r, t)"
  shows "queue_inv t"
  using assms(2)
proof (cases rule: enqueue_cases)
  case (added row)
  then show ?thesis
    using assms(1) by (auto simp: queue_inv_def sorted_wrt_append request_pending_def REQUEST_STATES_def less_imp_le
        intro: less_trans)
qed (use assms(1) in simp_all)

lemma updated_request_fields:
  assumes "updated_request state reason merge row = Inr row'" and "\<exists>kvs. request_row_payload row = JObj kvs"
  shows "request_id row' = request_id row" "idempotency_key row' = idempotency_key row" "fifo_index row' = fifo_index row"
    "request_component_id row' = request_component_id row" "request_row_state row' = or_else state (request_row_state row)"
    "\<exists>kvs. request_row_payload row' = JObj kvs"
  using assms dump_payload_object by (auto simp: updated_request_def)

lemma update_cases:
  assumes "n_leg_request_update i state reason merge s = (r, t)"
  obtains (error) e where "r = Inl e" "t = s"
  | (updated) row row' where "r = Inr row'" "row \<in> set (request_rows s)" "request_id row = i"
      "updated_request state reason merge row = Inr row'" "\<forall>x \<in> set_option state. x \<in> set REQUEST_STATES"
      "t = s\<lparr>request_rows := map (\<lambda>q. if request_id q = i then row' else q) (request_rows s)\<rparr>"
proof (cases "find (\<lambda>q. request_id q = i) (request_rows s)")
  case None
  then show ?thesis
    using assms error by (auto simp: n_leg_request_update_def split: if_splits)
next
  case (Some row)
  then have "row \<in> set (request_rows s)" "request_id row = i"
    by (auto simp: find_Some_iff)
  moreover have "(\<exists>e. r = Inl e \<and> t = s) \<or> (\<exists>row'. updated_request state reason merge row = Inr row'
      \<and> (\<forall>x \<in> set_option state. x \<in> set REQUEST_STATES) \<and> r = Inr row'
      \<and> t = s\<lparr>request_rows := map (\<lambda>q. if request_id q = i then row' else q) (request_rows s)\<rparr>)"
    using assms Some by (cases "updated_request state reason merge row")
      (auto simp: n_leg_request_update_def split: if_splits dest: sym)
  ultimately show ?thesis
    by (elim disjE exE conjE) (rule error, assumption+, rule updated, assumption+)
qed

lemma map_replace_same:
  assumes "distinct (map key xs)" and "x \<in> set xs" and "f x' = f x"
  shows "map f (map (\<lambda>q. if key q = key x then x' else q) xs) = map f xs"
  using assms by (auto simp: distinct_map inj_on_def)

lemma update_queue_inv:
  assumes inv: "queue_inv s" and "n_leg_request_update i state reason merge s = (r, t)"
  shows "queue_inv t"
  using assms(2)
proof (cases rule: update_cases)
  case (updated row row')
  let ?new = "\<lambda>q. if request_id q = request_id row then row' else q"
  have payload: "\<exists>kvs. request_row_payload row = JObj kvs" and ids: "distinct (map request_id (request_rows s))"
    using inv updated(2) by (auto simp: queue_inv_def)
  note same = updated_request_fields[OF updated(4) payload]
  have keep: "map f (map ?new (request_rows s)) = map f (request_rows s)" if "f row' = f row" for f :: "RequestRow \<Rightarrow> 'a"
    using ids updated(2) that by (rule map_replace_same)
  have state: "request_row_state row' \<in> set REQUEST_STATES"
    using same(5) updated(2,5) inv by (cases state) (auto simp: queue_inv_def)
  have "sorted_wrt (\<lambda>a b. fifo_index a < fifo_index b) (map ?new (request_rows s))"
    using inv unfolding queue_inv_def sorted_wrt_map[symmetric, of "(<)" fifo_index] keep[of fifo_index, OF same(3)]
    by blast
  moreover have "fifo_index q < next_fifo_index s" if "q \<in> set (map ?new (request_rows s))" for q
    using that same(3) updated(2) inv by (auto simp: queue_inv_def split: if_splits)
  moreover have "distinct (map request_id (map ?new (request_rows s)))"
    "distinct (map idempotency_key (map ?new (request_rows s)))"
    using inv unfolding keep[of request_id, OF same(1)] keep[of idempotency_key, OF same(2)] queue_inv_def by blast+
  ultimately show ?thesis
    using inv same(6) state updated(3,6) by (auto simp: queue_inv_def)
qed (use inv in simp)

lemma abandon_run:
  assumes "n_leg_requests_abandon_pending reason s = (r, t)"
  shows "(reason = [] \<and> t = s) \<or>
    (reason \<noteq> [] \<and> r = Inr (int (length (waiting s))) \<and> t = s\<lparr>request_rows :=
       map (\<lambda>q. if request_pending q then q\<lparr>request_row_state := ''ABANDONED'', abandon_reason := Some reason\<rparr> else q)
         (request_rows s)\<rparr>)"
  using assms by (auto simp: n_leg_requests_abandon_pending_def waiting_def split: if_splits)

lemma abandon_queue_inv:
  assumes inv: "queue_inv s" and "n_leg_requests_abandon_pending reason s = (r, t)"
  shows "queue_inv t" and "reason \<noteq> [] \<Longrightarrow> waiting t = []"
proof -
  let ?new = "\<lambda>q. if request_pending q then q\<lparr>request_row_state := ''ABANDONED'', abandon_reason := Some reason\<rparr> else q"
  have keep: "map f (map ?new (request_rows s)) = map f (request_rows s)"
    if "\<And>q. f (?new q) = f q" for f :: "RequestRow \<Rightarrow> 'a"
    using that by simp
  have "queue_inv (s\<lparr>request_rows := map ?new (request_rows s)\<rparr>)"
    using inv by (auto simp: queue_inv_def REQUEST_STATES_def sorted_wrt_map comp_def if_distrib cong: if_cong)
  then show "queue_inv t"
    using abandon_run[OF assms(2)] inv by auto
  show "waiting t = []" if "reason \<noteq> []"
    using abandon_run[OF assms(2)] that by (auto simp: waiting_def request_pending_def filter_empty_conv)
qed

subsection \<open>Served in order\<close>

fun drain :: "('s \<Rightarrow> 'a option) \<Rightarrow> ('a \<Rightarrow> 's \<Rightarrow> 's) \<Rightarrow> nat \<Rightarrow> 's \<Rightarrow> 'a list \<times> 's" where
  "drain front serve 0 s = ([], s)"
| "drain front serve (Suc n) s =
     (case front s of
        None \<Rightarrow> ([], s)
      | Some x \<Rightarrow> (let (xs, t) = drain front serve n (serve x s) in (x # xs, t)))"

text \<open>A queue whose front is the oldest entry and where serving the front leaves the rest in order.\<close>

locale fifo_queue =
  fixes valid :: "'s \<Rightarrow> bool" and queued :: "'s \<Rightarrow> 'a list" and front :: "'s \<Rightarrow> 'a option" and serve :: "'a \<Rightarrow> 's \<Rightarrow> 's"
  assumes front_first: "valid s \<Longrightarrow> front s = (case queued s of [] \<Rightarrow> None | x # _ \<Rightarrow> Some x)"
    and serve_first: "valid s \<Longrightarrow> queued s = x # xs \<Longrightarrow> valid (serve x s) \<and> queued (serve x s) = xs"
begin

lemma drain_in_order:
  "valid s \<Longrightarrow> fst (drain front serve n s) = take n (queued s) \<and> queued (snd (drain front serve n s)) = List.drop n (queued s)"
proof (induction n arbitrary: s)
  case (Suc n)
  show ?case
  proof (cases "queued s")
    case Nil
    then show ?thesis
      using front_first[OF Suc.prems] by simp
  next
    case (Cons x xs)
    then show ?thesis
      using front_first[OF Suc.prems] serve_first[OF Suc.prems Cons] Suc.IH[of "serve x s"] by (simp add: split_beta)
  qed
qed simp

lemma drained: "valid s \<Longrightarrow> drain front serve (length (queued s)) s = (queued s, t) \<Longrightarrow> queued t = []"
  using drain_in_order[of s "length (queued s)"] by simp

end

text \<open>The driver takes the head and marks it admitted.\<close>

definition admit :: "RequestRow \<Rightarrow> NLegStore \<Rightarrow> NLegStore" where
  "admit row s = snd (n_leg_request_update (request_id row) (Some ''ADMITTED'') None [] s)"

lemma update_leaves_waiting:
  assumes inv: "queue_inv s" and "n_leg_request_update i (Some state) reason merge s = (Inr r, t)" and "state \<noteq> ''PENDING''"
  shows "waiting t = filter (\<lambda>q. request_id q \<noteq> i) (waiting s)"
  using assms(2)
proof (cases rule: update_cases)
  case (updated row row')
  have payload: "\<exists>kvs. request_row_payload row = JObj kvs"
    using inv updated(2) by (auto simp: queue_inv_def)
  have "\<not> request_pending row'"
    using updated_request_fields(5)[OF updated(4) payload] assms(3) by (simp add: request_pending_def)
  then have "filter request_pending (map (\<lambda>q. if request_id q = i then row' else q) xs)
      = filter (\<lambda>q. request_id q \<noteq> i) (filter request_pending xs)" for xs
    by (induction xs) auto
  then show ?thesis
    using updated(6) by (simp add: waiting_def)
qed simp

lemma find_by_key: "distinct (map key xs) \<Longrightarrow> x \<in> set xs \<Longrightarrow> find (\<lambda>q. key q = key x) xs = Some x"
  by (induction xs) auto

lemma update_existing:
  assumes inv: "queue_inv s" and "row \<in> set (request_rows s)" and "state \<in> set REQUEST_STATES"
  obtains row' t where "n_leg_request_update (request_id row) (Some state) reason merge s = (Inr row', t)"
proof -
  have "distinct (map request_id (request_rows s))"
    using inv by (simp add: queue_inv_def)
  then have "find (\<lambda>q. request_id q = request_id row) (request_rows s) = Some row"
    using assms(2) by (rule find_by_key)
  moreover obtain kvs where "request_row_payload row = JObj kvs"
    using inv assms(2) by (auto simp: queue_inv_def)
  ultimately show ?thesis
    using that assms(3)
    by (auto simp: n_leg_request_update_def updated_request_def dump_payload_def)
qed

interpretation requests: fifo_queue queue_inv waiting n_leg_request_head admit
proof (unfold_locales, goal_cases)
  case (1 s)
  then show ?case
    by (rule head_is_first)
next
  case (2 s row rows)
  have "row \<in> set (waiting s)"
    using 2(2) by simp
  then have row: "row \<in> set (request_rows s)"
    by (simp add: waiting_def)
  have ids: "distinct (map request_id (waiting s))"
    using 2(1) by (simp add: waiting_def queue_inv_def distinct_map_filter)
  obtain row' t where t: "n_leg_request_update (request_id row) (Some ''ADMITTED'') None [] s = (Inr row', t)"
    using update_existing[OF 2(1) row, of "''ADMITTED''" None "[]"] by (auto simp: REQUEST_STATES_def)
  have "waiting t = filter (\<lambda>q. request_id q \<noteq> request_id row) (waiting s)"
    using update_leaves_waiting[OF 2(1) t] by simp
  also have "\<dots> = rows"
    using 2(2) ids by (auto simp: filter_id_conv image_iff)
  finally show ?case
    using update_queue_inv[OF 2(1) t] t by (simp add: admit_def)
qed

text \<open>C28. A request that is admitted to the queue is served after exactly the requests that were waiting before it, in the
  order of their arrival; sending it again under the same idempotency key returns the stored row and changes nothing.\<close>

theorem requests_served_in_order:
  assumes "queue_inv s" and "n_leg_request_enqueue component_id key payload max_pending new_id s = (Inr row, t)"
    and "n_leg_request_by_idempotency_key s key = None"
  shows "fst (drain n_leg_request_head admit (length (waiting s) + 1) t) = waiting s @ [row]
    \<and> waiting (snd (drain n_leg_request_head admit (length (waiting s) + 1) t)) = []
    \<and> (\<forall>payload' max' id'. (\<exists>kvs. payload' = JObj kvs) \<longrightarrow> 1 \<le> max' \<longrightarrow>
          n_leg_request_enqueue component_id key payload' max' id' t = (Inr row, t))"
  using assms(2)
proof (cases rule: enqueue_cases)
  case (replay row')
  then show ?thesis
    using assms(3) by (auto simp: n_leg_request_by_idempotency_key_def find_None_iff)
next
  case (added row')
  have inv: "queue_inv t"
    by (rule enqueue_queue_inv[OF assms(1,2)])
  have t: "waiting t = waiting s @ [row]"
    using added by (simp add: waiting_def)
  have "n_leg_request_by_idempotency_key t key = Some row"
    using added assms(3) by (simp add: n_leg_request_by_idempotency_key_def find_filter filter_empty_conv split: list.splits)
  moreover have "component_id \<noteq> []" "key \<noteq> []"
    using assms(2) by (auto simp: n_leg_request_enqueue_def split: if_splits)
  ultimately have "n_leg_request_enqueue component_id key (JObj kvs) max' id' t = (Inr row, t)" if "1 \<le> max'" for kvs max' id'
    using that by (simp add: n_leg_request_enqueue_def dump_payload_def)
  then show ?thesis
    using requests.drain_in_order[OF inv, of "length (waiting s) + 1"] t by auto
qed simp

theorem requests_served_in_order_witness:
  "\<exists>row t. n_leg_request_enqueue ''A'' ''k'' (JObj []) 5 ''r1'' empty_store = (Inr row, t)
     \<and> fst (drain n_leg_request_head admit 1 t) = [row]"
proof -
  obtain row t where run: "n_leg_request_enqueue ''A'' ''k'' (JObj []) 5 ''r1'' empty_store = (Inr row, t)"
    by (simp add: n_leg_request_enqueue_def dump_payload_def n_leg_request_by_idempotency_key_def empty_store_def)
  have "n_leg_request_by_idempotency_key empty_store ''k'' = None" "waiting empty_store = []"
    by (simp_all add: n_leg_request_by_idempotency_key_def waiting_def empty_store_def)
  then show ?thesis
    using requests_served_in_order[OF queue_inv_empty run] run by auto
qed

subsection \<open>Bounded and one request per component\<close>

text \<open>The operations of the service on the queue: confirming enqueues with a bound of at most \<open>cap\<close>, the driver moves a
  row on, an incident abandons what is pending.\<close>

inductive queue_reachable :: "nat \<Rightarrow> NLegStore \<Rightarrow> bool" for cap where
  start: "queue_reachable cap empty_store"
| enqueue: "queue_reachable cap s \<Longrightarrow> max_pending \<le> int cap \<Longrightarrow>
    n_leg_request_enqueue component_id key payload max_pending new_id s = (r, t) \<Longrightarrow> queue_reachable cap t"
| advance: "queue_reachable cap s \<Longrightarrow> state \<noteq> ''PENDING'' \<Longrightarrow>
    n_leg_request_update i (Some state) reason merge s = (r, t) \<Longrightarrow> queue_reachable cap t"
| abandon: "queue_reachable cap s \<Longrightarrow> n_leg_requests_abandon_pending reason s = (r', t) \<Longrightarrow> queue_reachable cap t"

text \<open>Whatever sequence of confirmations, driver moves and incident stops, at most \<open>cap\<close> requests wait, no two of them
  for the same component, every row keeps its own id, idempotency key and place, and the head is the oldest.\<close>

theorem queue_bounded:
  assumes "queue_reachable cap s"
  shows "queue_inv s \<and> length (waiting s) \<le> cap \<and> distinct (map request_component_id (waiting s))
    \<and> (\<forall>row. n_leg_request_head s = Some row \<longrightarrow> (\<forall>q \<in> set (waiting s). fifo_index row \<le> fifo_index q))"
proof -
  have "queue_inv s \<and> length (waiting s) \<le> cap \<and> distinct (map request_component_id (waiting s))"
    using assms
  proof (induction rule: queue_reachable.induct)
    case start
    then show ?case
      by (simp add: queue_inv_empty) (simp add: waiting_def empty_store_def)
  next
    case (enqueue s max_pending component_id key payload new_id r t)
    from enqueue(3) show ?case
    proof (cases rule: enqueue_cases)
      case (added row)
      then show ?thesis
        using enqueue enqueue_queue_inv[OF _ enqueue(3)] by (simp add: waiting_def)
    qed (use enqueue in simp_all)
  next
    case (advance s state i reason merge r t)
    show ?case
    proof (cases r)
      case (Inr row)
      have "waiting t = filter (\<lambda>q. request_id q \<noteq> i) (waiting s)"
        using update_leaves_waiting[of s i state reason merge row t] advance Inr by simp
      then show ?thesis
        using advance update_queue_inv[of s i "Some state" reason merge r t]
        by (auto simp: distinct_map_filter intro: order_trans[OF length_filter_le])
    next
      case (Inl e)
      then show ?thesis
        using advance(3,4) by (auto elim: update_cases)
    qed
  next
    case (abandon s reason r' t)
    then show ?case
      using abandon_queue_inv[of s reason r' t] abandon_run[of reason s r' t] by auto
  qed
  moreover have "fifo_index row \<le> fifo_index q" if "queue_inv s" "n_leg_request_head s = Some row" "q \<in> set (waiting s)" for row q
  proof -
    have "sorted_wrt (\<lambda>a b. fifo_index a < fifo_index b) (waiting s)"
      using that(1) by (simp add: queue_inv_def waiting_def sorted_wrt_filter)
    then show ?thesis
      using that head_is_first[OF that(1)] by (cases "waiting s") auto
  qed
  ultimately show ?thesis
    by blast
qed

theorem queue_bounded_witness:
  "\<exists>row t. n_leg_request_enqueue ''A'' ''k'' (JObj []) 5 ''r1'' empty_store = (Inr row, t)
     \<and> length (waiting t) \<le> 5 \<and> waiting t = [row]"
proof -
  obtain row t where run: "n_leg_request_enqueue ''A'' ''k'' (JObj []) 5 ''r1'' empty_store = (Inr row, t)"
    and t: "waiting t = [row]"
    by (simp add: n_leg_request_enqueue_def dump_payload_def n_leg_request_by_idempotency_key_def empty_store_def
        waiting_def request_pending_def)
  have "queue_reachable 5 t"
    using queue_reachable.enqueue[OF queue_reachable.start _ run] by simp
  then show ?thesis
    using queue_bounded[of 5 t] run t by blast
qed

text \<open>The update of a request accepts a move from any state to any other: an abandoned request can be put back to
  PENDING, and the bound of one waiting request per component then fails.\<close>

theorem request_update_unguarded:
  assumes "queue_inv s" and "row \<in> set (request_rows s)" and "state \<in> set REQUEST_STATES"
  shows "\<exists>row' t. n_leg_request_update (request_id row) (Some state) None [] s = (Inr row', t)
    \<and> request_row_state row' = state \<and> request_component_id row' = request_component_id row \<and> queue_inv t
    \<and> map request_id (request_rows t) = map request_id (request_rows s)
    \<and> (state = ''PENDING'' \<longrightarrow> row' \<in> set (waiting t))"
proof -
  obtain row' t where run: "n_leg_request_update (request_id row) (Some state) None [] s = (Inr row', t)"
    using update_existing[OF assms] .
  then have t: "queue_inv t"
    by (rule update_queue_inv[OF assms(1)])
  from run show ?thesis
  proof (cases rule: update_cases)
    case (updated row1 row2)
    have payload: "\<exists>kvs. request_row_payload row1 = JObj kvs" and ids: "distinct (map request_id (request_rows s))"
      using assms(1) updated(2) by (auto simp: queue_inv_def)
    note same = updated_request_fields[OF updated(4) payload]
    have "row1 = row"
      using ids updated(2,3) assms(2) by (auto simp: distinct_map inj_on_def)
    moreover have "map request_id (request_rows t) = map request_id (request_rows s)"
      using updated(1,6) same(1) map_replace_same[OF ids updated(2), of request_id row'] updated(3) by simp
    ultimately show ?thesis
      using run t same updated by (force simp: waiting_def request_pending_def)
  qed simp
qed

definition revivable_store :: NLegStore where
  "revivable_store = empty_store\<lparr>next_fifo_index := 3, request_rows :=
     [\<lparr>request_id = ''r1'', fifo_index = 1, idempotency_key = ''k1'', request_component_id = ''A'',
       request_row_state = ''ABANDONED'', abandon_reason = Some ''STALE'', request_row_payload = JObj []\<rparr>,
      \<lparr>request_id = ''r2'', fifo_index = 2, idempotency_key = ''k2'', request_component_id = ''A'',
       request_row_state = ''PENDING'', abandon_reason = None, request_row_payload = JObj []\<rparr>]\<rparr>"

theorem request_update_unguarded_witness:
  "\<exists>row' t. n_leg_request_update ''r1'' (Some ''PENDING'') None [] revivable_store = (Inr row', t)
     \<and> request_row_state row' = ''PENDING'' \<and> map request_component_id (waiting revivable_store) = [''A'']
     \<and> map request_component_id (waiting t) = [''A'', ''A'']"
proof -
  let ?row = "\<lparr>request_id = ''r1'', fifo_index = 1, idempotency_key = ''k1'', request_component_id = ''A'',
       request_row_state = ''ABANDONED'', abandon_reason = Some ''STALE'', request_row_payload = JObj []\<rparr>"
  have "queue_inv revivable_store"
    by (simp add: revivable_store_def queue_inv_def REQUEST_STATES_def)
  moreover have "?row \<in> set (request_rows revivable_store)"
    by (simp add: revivable_store_def)
  ultimately obtain row' t where run: "n_leg_request_update ''r1'' (Some ''PENDING'') None [] revivable_store = (Inr row', t)"
    and "request_row_state row' = ''PENDING''"
    using request_update_unguarded[of revivable_store ?row "''PENDING''"] by (auto simp: REQUEST_STATES_def)
  moreover have "map request_component_id (waiting t) = [''A'', ''A'']"
    using run by (auto simp: n_leg_request_update_def updated_request_def dump_payload_def revivable_store_def
        REQUEST_STATES_def waiting_def request_pending_def)
  ultimately show ?thesis
    by (auto simp: revivable_store_def waiting_def request_pending_def)
qed

end
