(* ===== verification/NLeg_Execution.thy ===== *)
theory NLeg_Execution
  imports NLeg_Store Oracle_Eval
begin

section \<open>The receipt reducer of N-leg execution\<close>

text \<open>
  \<^verbatim>\<open>NLegExecutionService\<close> of \<^verbatim>\<open>prediction_n_leg_execution.py\<close> without its store: how one order receipt changes a batch
  and the control row, how conflicts are recorded and resolved, what capital a batch occupies and which repair is
  planned. The batch and its reservations are values here; the code updates dicts it has just decoded from the
  stored row, so no other reference sees the updates. The client order ids of the legs are distinct (\<open>enter\<close>
  checks it), and the contexts and receipts satisfy the checks of their classes.
\<close>

subsection \<open>Capital\<close>

definition leg_key :: "Leg \<Rightarrow> account_key" where
  "leg_key l = (leg_venue_id l, leg_account_id l, leg_settlement_asset_id l)"

definition leg_asset_key :: "Leg \<Rightarrow> account_key" where
  "leg_asset_key l = (leg_venue_id l, leg_account_id l, leg_asset_id l)"

text \<open>The value that a dict of running sums holds for a key at the end of a loop.\<close>

definition units_for :: "('a \<Rightarrow> 'k) \<Rightarrow> ('a \<Rightarrow> int) \<Rightarrow> 'a list \<Rightarrow> 'k \<Rightarrow> int" where
  "units_for key units xs k = sum_list (map units (filter (\<lambda>x. key x = k) xs))"

definition terminal_ledger_cost :: "Batch \<Rightarrow> int" where
  "terminal_ledger_cost b = sum_list (map (holding_capital_units \<circ> snd) (conflict_terminal_ledger b))"

definition batch_occupancy :: "Batch \<Rightarrow> int" where
  "batch_occupancy b =
     sum_list (map (\<lambda>r. remaining_units r + holding_units r) (reservations b))
     + sum_list (filter (\<lambda>v. 0 \<le> v) (map snd (conflict_exposure b))) + terminal_ledger_cost b"

definition prior_unsettled :: "Batch \<Rightarrow> int" where
  "prior_unsettled b = (if 0 \<le> prior_unsettled_capital_units b then prior_unsettled_capital_units b else 0)"

text \<open>The share of a leg's reservation that its filled lots take, rounded up.\<close>

definition protected_units :: "Leg \<Rightarrow> int" where
  "protected_units l =
     (case leg_receipt l of
        None \<Rightarrow> 0
      | Some r \<Rightarrow>
          (leg_max_cost_units l * cumulative_filled_quantity r + leg_submitted_quantity l - 1) div leg_submitted_quantity l)"

definition actual_units :: "Leg \<Rightarrow> int" where
  "actual_units l =
     (case leg_receipt l of None \<Rightarrow> 0 | Some r \<Rightarrow> cumulative_cost_units r + cumulative_fee_units r)"

definition refreshed_reservation :: "Leg list \<Rightarrow> Reservation \<Rightarrow> Reservation" where
  "refreshed_reservation ls row =
     (let received = filter (\<lambda>l. leg_receipt l \<noteq> None) ls;
          protected_used = units_for leg_key protected_units received (reservation_key row)
      in row\<lparr>holding_units := max (units_for leg_key actual_units received (reservation_key row)) protected_used,
             remaining_units := max 0 (original_units row - protected_used)\<rparr>)"

definition refresh_reservations :: "Batch \<Rightarrow> Batch" where
  "refresh_reservations b =
     (let b' = b\<lparr>reservations := map (refreshed_reservation (legs b)) (reservations b)\<rparr>
      in b'\<lparr>batch_unsettled_capital_units := batch_occupancy b'\<rparr>)"

subsection \<open>Terminal batches\<close>

definition all_terminal :: "Batch \<Rightarrow> bool" where
  "all_terminal b \<longleftrightarrow>
     legs b \<noteq> [] \<and> list_all (\<lambda>l. \<exists>r \<in> set_option (leg_receipt l). terminal_state (receipt_state r)) (legs b)"

definition all_zero :: "Batch \<Rightarrow> bool" where
  "all_zero b \<longleftrightarrow>
     legs b \<noteq> [] \<and> list_all (\<lambda>l. \<exists>r \<in> set_option (leg_receipt l). cumulative_filled_quantity r = 0) (legs b)"

definition all_full :: "Batch \<Rightarrow> bool" where
  "all_full b \<longleftrightarrow>
     legs b \<noteq> [] \<and> list_all (\<lambda>l. \<exists>r \<in> set_option (leg_receipt l).
       cumulative_filled_quantity r = leg_submitted_quantity l) (legs b)"

definition leg_intent :: "Leg \<Rightarrow> string" where
  "leg_intent l =
     (case leg_receipt l of
        None \<Rightarrow> ''STOPPED_UNSENT''
      | Some r \<Rightarrow>
          if receipt_state r = ORDER_UNKNOWN then ''REST_CONFIRMATION_REQUIRED''
          else if terminal_state (receipt_state r) then ''TERMINAL'' else ''CANCEL_REQUIRED'')"

definition execution_controls_of :: "Batch \<Rightarrow> (string \<times> string) list" where
  "execution_controls_of b = map (\<lambda>l. (leg_client_order_id l, leg_intent l)) (legs b)"

subsection \<open>Physical orders\<close>

definition physical_identity_of :: "Leg option \<Rightarrow> OrderReceipt \<Rightarrow> physical_identity" where
  "physical_identity_of l r =
     (receipt_client_order_id r, receipt_venue_order_id r, receipt_venue_id r, receipt_account_id r,
      (case l of Some x \<Rightarrow> leg_asset_id x | None \<Rightarrow> ''UNBOUND''),
      (case l of Some x \<Rightarrow> leg_settlement_asset_id x | None \<Rightarrow> ''UNBOUND''))"

definition intended_identity_of :: "Leg \<Rightarrow> OrderReceipt option \<Rightarrow> physical_identity" where
  "intended_identity_of l prior =
     (leg_client_order_id l, Option.bind prior receipt_venue_order_id, leg_venue_id l, leg_account_id l,
      leg_asset_id l, leg_settlement_asset_id l)"

definition identity_payload :: "physical_identity \<Rightarrow> json" where
  "identity_payload i =
     (case i of (client, venue_order, venue, account, asset, settlement) \<Rightarrow>
        JList [JStr client, json_option JStr venue_order, JStr venue, JStr account, JStr asset, JStr settlement])"

definition physical_key_of :: "physical_identity \<Rightarrow> string" where
  "physical_key_of i = fingerprint (JObj [(''physical_identity'', identity_payload i)])"

definition monotonic_terminal :: "OrderReceipt option \<Rightarrow> OrderReceipt \<Rightarrow> bool" where
  "monotonic_terminal prior r \<longleftrightarrow>
     (case prior of
        None \<Rightarrow> False
      | Some p \<Rightarrow> terminal_state (receipt_state r)
          \<and> cumulative_filled_quantity p \<le> cumulative_filled_quantity r
          \<and> cumulative_cost_units p \<le> cumulative_cost_units r \<and> cumulative_fee_units p \<le> cumulative_fee_units r)"

definition time_regressed :: "OrderReceipt \<Rightarrow> OrderReceipt \<Rightarrow> bool" where
  "time_regressed prior r \<longleftrightarrow> observed_at r < observed_at prior \<or> venue_timestamp r < venue_timestamp prior"

text \<open>\<open>max((...), default=d)\<close>.\<close>

definition max_default :: "'a::linorder \<Rightarrow> 'a list \<Rightarrow> 'a" where
  "max_default d xs = (case xs of [] \<Rightarrow> d | y # ys \<Rightarrow> fold max ys y)"

subsection \<open>Recording a conflict\<close>

definition conflict_json :: "string \<Rightarrow> OrderReceipt option \<Rightarrow> OrderReceipt \<Rightarrow> (string \<times> json) list" where
  "conflict_json reason old new =
     [(''reason'', JStr reason), (''old'', json_option receipt_payload old), (''new'', receipt_payload new)]"

definition conflict_record :: "Leg list \<Rightarrow> OrderReceipt \<Rightarrow> string \<Rightarrow> Conflict" where
  "conflict_record ls r reason =
     (let matching = find (\<lambda>l. leg_client_order_id l = receipt_client_order_id r) ls;
          prior = Option.bind matching leg_receipt;
          intended = map_option (\<lambda>l. intended_identity_of l prior) matching;
          physical = physical_identity_of matching r
      in
      \<lparr>conflict_id = fingerprint (JObj (conflict_json reason prior r @ [(''physical_identity'', identity_payload physical)])),
       physical_key = physical_key_of physical, conflict_identity = physical, intended_identity = intended,
       conflict_kind =
         (if intended = Some physical then SAME_PHYSICAL else if matching \<noteq> None then DRIFT else UNBOUND),
       conflict_reason = reason, max_sequence = receipt_sequence r,
       max_rest_observation_version = (if rest_confirmed r then rest_observation_version r else None),
       max_source_timestamp = venue_timestamp r, max_observed_at = observed_at r,
       max_actual_cash_units = cumulative_cost_units r + cumulative_fee_units r,
       max_actual_filled_quantity = cumulative_filled_quantity r,
       conservative_max_units =
         (case matching of Some l \<Rightarrow> leg_max_cost_units l | None \<Rightarrow> max_default 0 (map leg_max_cost_units ls)),
       conflict_submitted_quantity =
         (case matching of Some l \<Rightarrow> leg_submitted_quantity l | None \<Rightarrow> max_default 1 (map leg_submitted_quantity ls))\<rparr>)"

text \<open>What a conflicting report may cost beyond the reservation: only the excess when it is about the intended order,
  everything when it is about another one.\<close>

definition conflict_exposure_units :: "Conflict \<Rightarrow> int" where
  "conflict_exposure_units c =
     (if conflict_kind c = SAME_PHYSICAL then max 0 (max_actual_cash_units c - conservative_max_units c)
      else max (conservative_max_units c) (max_actual_cash_units c))"

definition incident_copy :: "Batch \<Rightarrow> OrderReceipt \<Rightarrow> string \<Rightarrow> Batch" where
  "incident_copy b r reason =
     (let c = conflict_record (legs b) r reason;
          matching = find (\<lambda>l. leg_client_order_id l = receipt_client_order_id r) (legs b);
          prior = Option.bind matching leg_receipt
      in
      b\<lparr>receipts := AList.update (receipt_id r) r (receipts b),
        receipt_conflicts := receipt_conflicts b
          @ [\<lparr>transition_id = fingerprint (JObj (conflict_json reason prior r)), receipt_conflict_reason = reason,
              conflict_old = prior, conflict_new = r\<rparr>],
        unresolved_conflicts := unresolved_conflicts b @ [c],
        conflict_exposure := AList.update (physical_key c)
          (max (or_else (map_of (conflict_exposure b) (physical_key c)) 0) (conflict_exposure_units c))
          (conflict_exposure b),
        capital_exposure_unknown := (capital_exposure_unknown b \<or> matching = None),
        repair_plan := None\<rparr>)"

subsection \<open>Resolving a conflict by a later receipt\<close>

definition known_ints :: "int option list \<Rightarrow> int list" where
  "known_ints xs = map the (filter (\<lambda>x. x \<noteq> None) xs)"

definition receipt_dominates :: "Conflict list \<Rightarrow> OrderReceipt \<Rightarrow> bool" where
  "receipt_dominates related r \<longleftrightarrow>
     (let max_seq = max_default (-1) (known_ints (map max_sequence related));
          max_rest_version = max_default (-1) (known_ints (map max_rest_observation_version related));
          max_cash = max_default 0 (map max_actual_cash_units related);
          max_fill = max_default 0 (map max_actual_filled_quantity related);
          latest_observed = max_default 0 (map max_observed_at related);
          latest_source = max_default 0 (map max_source_timestamp related)
      in
      max_cash \<le> cumulative_cost_units r + cumulative_fee_units r \<and> max_fill \<le> cumulative_filled_quantity r
      \<and> (case receipt_sequence r of
           Some n \<Rightarrow> max_rest_version < 0 \<and> max_seq < n \<and> latest_observed \<le> observed_at r \<and> latest_source \<le> venue_timestamp r
         | None \<Rightarrow>
             (case rest_observation_version r of
                Some v \<Rightarrow> rest_confirmed r \<and> max_seq < 0 \<and> max_rest_version < v \<and> latest_observed < observed_at r
                  \<and> latest_source < venue_timestamp r
              | None \<Rightarrow> False)))"

definition resolve_conflicts :: "Batch \<Rightarrow> Leg \<Rightarrow> OrderReceipt \<Rightarrow> Batch" where
  "resolve_conflicts b l r =
     (let prior = leg_receipt l;
          intended = intended_identity_of l prior;
          key = physical_key_of intended;
          is_related = (\<lambda>c. conflict_kind c = SAME_PHYSICAL \<and> physical_key c = key);
          related = filter is_related (unresolved_conflicts b)
      in
      if physical_identity_of (Some l) r \<noteq> intended \<or> \<not> terminal_state (receipt_state r) \<or> related = []
         \<or> \<not> monotonic_terminal prior r \<or> \<not> receipt_dominates related r
      then b
      else b\<lparr>unresolved_conflicts := filter (\<lambda>c. c \<notin> set related) (unresolved_conflicts b),
             conflict_exposure := filter (\<lambda>(k, _). k \<noteq> key) (conflict_exposure b)\<rparr>)"

subsection \<open>Reducing one receipt\<close>

text \<open>The verdict on a receipt against the prior receipt of its leg: ignore it, record a conflict, or accept it.\<close>

datatype Verdict = Ignore | Contradict string | Accept

definition judge_prior :: "OrderReceipt \<Rightarrow> OrderReceipt \<Rightarrow> Verdict" where
  "judge_prior prior r =
     (let same = (semantic_receipt prior = semantic_receipt r);
          later =
            (if time_regressed prior r then Contradict ''RECEIPT_TIME_REGRESSION''
             else if cumulative_filled_quantity r < cumulative_filled_quantity prior
               \<or> cumulative_cost_units r < cumulative_cost_units prior
               \<or> cumulative_fee_units r < cumulative_fee_units prior then Contradict ''CUMULATIVE_REGRESSION''
             else if terminal_state (receipt_state prior) \<and> \<not> terminal_state (receipt_state r)
             then Contradict ''TERMINAL_REOPENED''
             else Accept)
      in
      if receipt_venue_order_id prior \<noteq> None \<and> receipt_venue_order_id prior \<noteq> receipt_venue_order_id r
      then Contradict ''VENUE_ORDER_ID_DRIFT''
      else
        case (receipt_sequence prior, receipt_sequence r) of
          (Some m, Some n) \<Rightarrow>
            if n < m then Ignore
            else if n = m then if same then Ignore else Contradict ''SAME_SEQUENCE_CONFLICT''
            else later
        | (None, None) \<Rightarrow>
            (case (rest_observation_version prior, rest_observation_version r) of
               (Some m, Some n) \<Rightarrow>
                 if n < m then Ignore
                 else if n = m then if same then Ignore else Contradict ''REST_OBSERVATION_CONFLICT''
                 else later
             | _ \<Rightarrow> Contradict ''REST_OBSERVATION_CONFLICT'')
        | _ \<Rightarrow> later)"

definition judge :: "Batch \<Rightarrow> OrderReceipt \<Rightarrow> Verdict" where
  "judge b r =
     (case map_of (receipts b) (receipt_id r) of
        Some known \<Rightarrow>
          if semantic_receipt known = semantic_receipt r then Ignore else Contradict ''RECEIPT_ID_CONFLICT''
      | None \<Rightarrow>
          (case filter (\<lambda>l. leg_client_order_id l = receipt_client_order_id r) (legs b) of
             [l] \<Rightarrow>
               if leg_venue_id l \<noteq> receipt_venue_id r \<or> leg_account_id l \<noteq> receipt_account_id r
                  \<or> leg_submitted_quantity l \<noteq> receipt_submitted_quantity r
               then Contradict ''RECEIPT_IDENTITY_DRIFT''
               else (case leg_receipt l of None \<Rightarrow> Accept | Some prior \<Rightarrow> judge_prior prior r)
           | _ \<Rightarrow> Contradict ''RECEIPT_IDENTITY_DRIFT''))"

definition with_leg_receipt :: "OrderReceipt \<Rightarrow> Leg \<Rightarrow> Leg" where
  "with_leg_receipt r l =
     (if leg_client_order_id l = receipt_client_order_id r then l\<lparr>leg_receipt := Some r\<rparr> else l)"

definition leg_holdings :: "Leg list \<Rightarrow> (account_key \<times> int) list" where
  "leg_holdings ls =
     concat (map (\<lambda>l. case leg_receipt l of
         Some r \<Rightarrow> if 0 < cumulative_filled_quantity r then [(leg_asset_key l, cumulative_filled_quantity r)] else []
       | None \<Rightarrow> []) ls)"

definition accept_receipt :: "Batch \<Rightarrow> Leg \<Rightarrow> OrderReceipt \<Rightarrow> Batch" where
  "accept_receipt b l r =
     (let b1 = resolve_conflicts b l r;
          b2 = refresh_reservations (b1\<lparr>legs := map (with_leg_receipt r) (legs b1),
                                        receipts := AList.update (receipt_id r) r (receipts b1)\<rparr>)
      in b2\<lparr>confirmed_holdings := leg_holdings (legs b2)\<rparr>)"

definition accepted_incident :: "Leg \<Rightarrow> OrderReceipt \<Rightarrow> string option" where
  "accepted_incident l r =
     (if leg_max_cost_units l < cumulative_cost_units r + cumulative_fee_units r then Some ''COST_RESERVATION_BREACH''
      else if cumulative_filled_quantity r = 0 \<and> (cumulative_cost_units r \<noteq> 0 \<or> cumulative_fee_units r \<noteq> 0)
      then Some ''ZERO_FILL_CASH_BREACH''
      else if receipt_state r = ORDER_UNKNOWN then Some ''UNKNOWN_ORDER_STATE''
      else if 0 < cumulative_filled_quantity r \<and> cumulative_filled_quantity r < receipt_submitted_quantity r
      then Some ''PARTIAL_FILL'' else None)"

text \<open>The third component says whether the batch changed.\<close>

definition reduce_receipt :: "Batch \<Rightarrow> OrderReceipt \<Rightarrow> (Batch \<times> string option \<times> bool) result" where
  "reduce_receipt b r =
     (if receipt_batch_id r \<noteq> execution_batch_id b then Inl (ValueError ''receipt batch mismatch'')
      else
        case judge b r of
          Ignore \<Rightarrow> Inr (b, None, False)
        | Contradict reason \<Rightarrow> Inr (incident_copy b r reason, Some reason, True)
        | Accept \<Rightarrow>
            (case find (\<lambda>l. leg_client_order_id l = receipt_client_order_id r) (legs b) of
               None \<Rightarrow> Inl IndexError
             | Some l \<Rightarrow> Inr (accept_receipt b l r, accepted_incident l r, True)))"

subsection \<open>Cash facts\<close>

definition flow_key :: "SettlementCashFlow \<Rightarrow> account_key" where
  "flow_key f = (flow_venue_id f, flow_account_id f, flow_settlement_asset_id f)"

definition flow_bound :: "Leg \<Rightarrow> OrderReceipt \<Rightarrow> SettlementCashFlow \<Rightarrow> instant \<Rightarrow> bool" where
  "flow_bound l r f now \<longleftrightarrow>
     flow_key f = leg_key l \<and> flow_venue_order_id f = receipt_venue_order_id r
     \<and> flow_observation_version f = (if rest_confirmed r then rest_observation_version r else receipt_sequence r)
     \<and> flow_rest_confirmed f = rest_confirmed r
     \<and> flow_cost_units f = cumulative_cost_units r \<and> flow_fee_units f = cumulative_fee_units r
     \<and> venue_timestamp r \<le> flow_source_timestamp f \<and> observed_at r \<le> flow_observed_at f
     \<and> fresh now (flow_source_timestamp f) \<and> fresh now (flow_observed_at f)"

definition bound_cash_flows :: "Batch \<Rightarrow> SettlementCashFlow list \<Rightarrow> instant \<Rightarrow> bool" where
  "bound_cash_flows b flows now \<longleftrightarrow>
     list_all (\<lambda>l. leg_receipt l \<noteq> None) (legs b)
     \<and> distinct (map flow_client_order_id flows)
     \<and> set (map flow_client_order_id flows) = set (map leg_client_order_id (legs b))
     \<and> list_all (\<lambda>l. \<exists>r \<in> set_option (leg_receipt l).
          \<exists>f \<in> set_option (find (\<lambda>f. flow_client_order_id f = leg_client_order_id l) flows). flow_bound l r f now) (legs b)"

subsection \<open>Repair candidates\<close>

fun book_units_loop :: "CanonicalBookLevel list \<Rightarrow> bool \<Rightarrow> int \<Rightarrow> int \<Rightarrow> int \<Rightarrow> int result" where
  "book_units_loop [] buy protection remaining acc = Inl (ValueError ''fresh book lacks required depth'')"
| "book_units_loop (level # rest) buy protection remaining acc =
     (let lots = min remaining (level_last_lot level - level_first_lot level + 1) in
      if lots \<le> 0 then book_units_loop rest buy protection remaining acc
      else
        let acc' = acc + lots * max 0 ((if buy then buy_ask_units level else sell_bid_units level) + protection);
            remaining' = remaining - lots
        in if remaining' = 0 then Inr acc' else book_units_loop rest buy protection remaining' acc')"

definition book_units :: "RepairQuote \<Rightarrow> int \<Rightarrow> bool \<Rightarrow> int \<Rightarrow> int result" where
  "book_units q quantity buy protection = book_units_loop (levels q) buy protection quantity 0"

definition fee_of :: "RepairQuote \<Rightarrow> int \<Rightarrow> int" where
  "fee_of q gross = (gross * fee_ppm q + 999999) div 1000000"

definition buy_cost :: "RepairQuote \<Rightarrow> int \<Rightarrow> int result" where
  "buy_cost q quantity =
     rbind (book_units q quantity True (tick_units q + slippage_units q)) (\<lambda>gross. Inr (gross + fee_of q gross))"

definition sell_proceeds :: "RepairQuote \<Rightarrow> int \<Rightarrow> int result" where
  "sell_proceeds q quantity =
     rbind (book_units q quantity False (- (tick_units q + slippage_units q))) (\<lambda>gross. Inr (max 0 (gross - fee_of q gross)))"

definition filled_of :: "Batch \<Rightarrow> string \<Rightarrow> int" where
  "filled_of b a =
     or_else (map_of (rev (concat (map (\<lambda>l. case leg_receipt l of
         Some r \<Rightarrow> [(leg_action_id l, cumulative_filled_quantity r)] | None \<Rightarrow> []) (legs b)))) a) 0"

definition submitted_of :: "Batch \<Rightarrow> string \<Rightarrow> int option" where
  "submitted_of b a = map_of (rev (map (\<lambda>l. (leg_action_id l, leg_submitted_quantity l)) (legs b))) a"

definition repair_quantities :: "Batch \<Rightarrow> RepairFamily \<Rightarrow> ActionQuantity list" where
  "repair_quantities b family =
     concat (map (\<lambda>a. case submitted_of b (action_id a) of
         None \<Rightarrow> []
       | Some n \<Rightarrow>
           if family = COMPLETE_REMAINING
           then [\<lparr>quantity_action_id = action_id a, quantity_lots = n\<rparr>]
           else if filled_of b (action_id a) \<noteq> 0
           then [\<lparr>quantity_action_id = action_id a, quantity_lots = filled_of b (action_id a)\<rparr>] else [])
       (actions (frozen_problem b)))"

definition valuation_error :: "py_error \<Rightarrow> py_error" where
  "valuation_error e =
     (if is_value_error e \<or> e = TypeError then ValueError ''frozen terminal valuation unavailable'' else e)"

definition candidate_payout :: "Batch \<Rightarrow> RepairFamily \<Rightarrow> int result" where
  "candidate_payout b family =
     (if family = EXIT_CONFIRMED then Inr 0
      else case evaluate_fixed_portfolio (frozen_problem b) (repair_quantities b family) (frozen_budget b) of
             Inl e \<Rightarrow> Inl (valuation_error e)
           | Inr ev \<Rightarrow> Inr (payout_lower_bound_units ev))"

definition candidate :: "Batch \<Rightarrow> RepairFamily \<Rightarrow> (string \<times> int) list \<Rightarrow> int \<Rightarrow> int \<Rightarrow> RepairCandidate result" where
  "candidate b family ls spend proceeds =
     rbind (candidate_payout b family) (\<lambda>payout.
     Inr \<lparr>candidate_family = family, candidate_legs = ls,
          conservative_total_loss_units = max 0 (spend - proceeds - payout),
          worst_terminal_payout_units = payout, conservative_sell_proceeds_units = proceeds,
          candidate_fingerprint = []\<rparr>)"

subsection \<open>Planning a repair\<close>

definition level_payload :: "CanonicalBookLevel \<Rightarrow> json" where
  "level_payload l =
     JObj [(''first_lot'', JInt (level_first_lot l)), (''last_lot'', JInt (level_last_lot l)),
       (''buy_ask_units'', JInt (buy_ask_units l)), (''sell_bid_units'', JInt (sell_bid_units l))]"

definition quote_payload :: "RepairQuote \<Rightarrow> json" where
  "quote_payload q =
     JObj [(''client_order_id'', JStr (quote_client_order_id q)), (''asset_id'', JStr (quote_asset_id q)),
       (''venue_id'', JStr (quote_venue_id q)), (''account_id'', JStr (quote_account_id q)),
       (''settlement_asset_id'', JStr (quote_settlement_asset_id q)), (''levels'', JList (map level_payload (levels q))),
       (''source_timestamp'', json_datetime (quote_source_timestamp q)),
       (''received_at'', json_datetime (quote_received_at q)), (''fee_ppm'', JInt (fee_ppm q)),
       (''tick_units'', JInt (tick_units q)), (''slippage_units'', JInt (slippage_units q))]"

definition holding_payload :: "ConfirmedHolding \<Rightarrow> json" where
  "holding_payload h =
     JObj [(''venue_id'', JStr (holding_venue_id h)), (''account_id'', JStr (holding_account_id h)),
       (''asset_id'', JStr (holding_asset_id h)), (''quantity'', JInt (holding_quantity h)),
       (''source_timestamp'', json_datetime (holding_source_timestamp h)),
       (''received_at'', json_datetime (holding_received_at h))]"

definition balance_payload :: "AccountBalance \<Rightarrow> json" where
  "balance_payload x =
     JObj [(''venue_id'', JStr (balance_venue_id x)), (''account_id'', JStr (balance_account_id x)),
       (''asset_id'', JStr (balance_asset_id x)), (''available_units'', JInt (available_units x)),
       (''allowance_units'', JInt (allowance_units x))]"

definition snapshot_payload :: "AccountSnapshot \<Rightarrow> json" where
  "snapshot_payload a =
     JObj [(''captured_at'', json_datetime (captured_at a)), (''balances'', JList (map balance_payload (balances a))),
       (''max_per_trade_cost_units'', JInt (snapshot_max_per_trade_cost_units a)),
       (''unsettled_capital_units'', JInt (unsettled_capital_units a)),
       (''max_total_unsettled_capital_units'', JInt (snapshot_max_total_unsettled_capital_units a))]"

definition cash_flow_payload :: "SettlementCashFlow \<Rightarrow> json" where
  "cash_flow_payload f =
     JObj [(''client_order_id'', JStr (flow_client_order_id f)),
       (''venue_order_id'', json_option JStr (flow_venue_order_id f)), (''venue_id'', JStr (flow_venue_id f)),
       (''account_id'', JStr (flow_account_id f)), (''settlement_asset_id'', JStr (flow_settlement_asset_id f)),
       (''cumulative_cost_units'', JInt (flow_cost_units f)), (''cumulative_fee_units'', JInt (flow_fee_units f)),
       (''source_timestamp'', json_datetime (flow_source_timestamp f)),
       (''observed_at'', json_datetime (flow_observed_at f)),
       (''observation_version'', json_option JInt (flow_observation_version f)),
       (''rest_confirmed'', JBool (flow_rest_confirmed f))]"

definition repair_context_fingerprint :: "RepairContext \<Rightarrow> string" where
  "repair_context_fingerprint c =
     fingerprint (JObj [(''reservation_version'', JStr (repair_reservation_version c)),
       (''quotes'', JList (map quote_payload (quotes c))), (''holdings'', JList (map holding_payload (repair_holdings c))),
       (''account_snapshot'', snapshot_payload (repair_account_snapshot c)),
       (''cash_flows'', JList (map cash_flow_payload (repair_cash_flows c))), (''now'', json_datetime (repair_now c))])"

fun family_value :: "RepairFamily \<Rightarrow> string" where
  "family_value COMPLETE_REMAINING = ''COMPLETE_REMAINING''"
| "family_value EXIT_CONFIRMED = ''EXIT_CONFIRMED''"

definition candidate_fields :: "RepairCandidate \<Rightarrow> (string \<times> json) list" where
  "candidate_fields c =
     [(''family'', JStr (family_value (candidate_family c))),
      (''legs'', JObj (map (\<lambda>(k, n). (k, JInt n)) (candidate_legs c))),
      (''conservative_total_loss_units'', JInt (conservative_total_loss_units c)),
      (''worst_terminal_payout_units'', JInt (worst_terminal_payout_units c)),
      (''conservative_sell_proceeds_units'', JInt (conservative_sell_proceeds_units c))]"

definition fingerprinted :: "RepairContext \<Rightarrow> RepairCandidate \<Rightarrow> RepairCandidate" where
  "fingerprinted ctx c =
     c\<lparr>candidate_fingerprint := fingerprint (JObj [(''context'', JStr (repair_context_fingerprint ctx)),
         (''candidate'', JObj (candidate_fields c))])\<rparr>"

definition quote_of :: "RepairContext \<Rightarrow> string \<Rightarrow> RepairQuote option" where
  "quote_of ctx client = find (\<lambda>q. quote_client_order_id q = client) (quotes ctx)"

definition quote_key :: "RepairQuote \<Rightarrow> account_key" where
  "quote_key q = (quote_venue_id q, quote_account_id q, quote_settlement_asset_id q)"

definition balance_key :: "AccountBalance \<Rightarrow> account_key" where
  "balance_key x = (balance_venue_id x, balance_account_id x, balance_asset_id x)"

definition context_binds :: "Batch \<Rightarrow> RepairContext \<Rightarrow> bool" where
  "context_binds b ctx \<longleftrightarrow>
     repair_reservation_version ctx = reservation_version b
     \<and> set (map quote_client_order_id (quotes ctx)) = set (map leg_client_order_id (legs b))
     \<and> list_all (\<lambda>l. \<exists>q \<in> set_option (quote_of ctx (leg_client_order_id l)).
          quote_asset_id q = leg_asset_id l \<and> quote_key q = leg_key l) (legs b)
     \<and> list_all (\<lambda>q. quote_key q \<in> set (map balance_key (balances (repair_account_snapshot ctx)))) (quotes ctx)
     \<and> set (map flow_key (repair_cash_flows ctx)) = set (map reservation_key (reservations b))"

definition unfilled_legs :: "Batch \<Rightarrow> (Leg \<times> int) list" where
  "unfilled_legs b =
     concat (map (\<lambda>l. case leg_receipt l of
         Some r \<Rightarrow> if cumulative_filled_quantity r < leg_submitted_quantity l
                   then [(l, leg_submitted_quantity l - cumulative_filled_quantity r)] else []
       | None \<Rightarrow> []) (legs b))"

definition filled_legs :: "Batch \<Rightarrow> (Leg \<times> int) list" where
  "filled_legs b =
     concat (map (\<lambda>l. case leg_receipt l of
         Some r \<Rightarrow> if 0 < cumulative_filled_quantity r then [(l, cumulative_filled_quantity r)] else []
       | None \<Rightarrow> []) (legs b))"

definition holdings_cover :: "RepairContext \<Rightarrow> (Leg \<times> int) list \<Rightarrow> bool" where
  "holdings_cover ctx sold \<longleftrightarrow>
     list_all (\<lambda>(l, _). units_for (leg_asset_key \<circ> fst) snd sold (leg_asset_key l)
        \<le> or_else (map_of (map (\<lambda>h. (holding_key h, holding_quantity h)) (repair_holdings ctx)) (leg_asset_key l)) 0) sold"

text \<open>What a loop sums over the priced legs, the first error first.\<close>

definition priced_legs :: "(RepairQuote \<Rightarrow> int \<Rightarrow> int result) \<Rightarrow> RepairContext \<Rightarrow> (Leg \<times> int) list \<Rightarrow> (account_key \<times> int) list result" where
  "priced_legs price ctx ls =
     result_map (\<lambda>(l, n). case quote_of ctx (leg_client_order_id l) of
         None \<Rightarrow> Inl (KeyError (leg_client_order_id l))
       | Some q \<Rightarrow> rbind (price q n) (\<lambda>units. Inr (quote_key q, units))) ls"

definition cash_base :: "RepairContext \<Rightarrow> int" where
  "cash_base ctx = sum_list (map (\<lambda>f. flow_cost_units f + flow_fee_units f) (repair_cash_flows ctx))"

definition remaining_for :: "Batch \<Rightarrow> RepairContext \<Rightarrow> account_key \<Rightarrow> int" where
  "remaining_for b ctx k =
     or_else (map_of (rev (map (\<lambda>row. (reservation_key row,
        min (remaining_units row) (max 0 (original_units row
          - units_for flow_key (\<lambda>f. flow_cost_units f + flow_fee_units f) (repair_cash_flows ctx) (reservation_key row)))))
        (reservations b))) k) (-1)"

definition affordable :: "Batch \<Rightarrow> RepairContext \<Rightarrow> (account_key \<times> int) list \<Rightarrow> bool" where
  "affordable b ctx costs \<longleftrightarrow>
     list_all (\<lambda>(k, _). let cost = units_for fst snd costs k in
       cost \<le> remaining_for b ctx k
       \<and> (\<exists>x \<in> set_option (find (\<lambda>x. balance_key x = k) (balances (repair_account_snapshot ctx))).
            cost \<le> available_units x \<and> cost \<le> allowance_units x)) costs"

definition leg_quantities :: "(Leg \<times> int) list \<Rightarrow> (string \<times> int) list" where
  "leg_quantities ls = map (\<lambda>(l, n). (leg_client_order_id l, n)) ls"

definition complete_candidate :: "Batch \<Rightarrow> RepairContext \<Rightarrow> RepairCandidate list result" where
  "complete_candidate b ctx =
     (if unfilled_legs b = [] then Inr []
      else
        rbind (priced_legs buy_cost ctx (unfilled_legs b)) (\<lambda>costs.
        if affordable b ctx costs
        then rbind (candidate b COMPLETE_REMAINING (leg_quantities (unfilled_legs b))
                      (cash_base ctx + sum_list (map snd costs)) 0) (\<lambda>c. Inr [c])
        else Inr []))"

definition exit_candidate :: "Batch \<Rightarrow> RepairContext \<Rightarrow> RepairCandidate list result" where
  "exit_candidate b ctx =
     (if filled_legs b = [] \<or> \<not> holdings_cover ctx (filled_legs b) then Inr []
      else
        rbind (priced_legs sell_proceeds ctx (filled_legs b)) (\<lambda>proceeds.
        rbind (candidate b EXIT_CONFIRMED (leg_quantities (filled_legs b)) (cash_base ctx) (sum_list (map snd proceeds)))
          (\<lambda>c. Inr [c])))"

text \<open>A \<open>ValueError\<close> of one candidate is kept in case there is no other; any other error is raised.\<close>

definition collected :: "RepairCandidate list result \<Rightarrow> (RepairCandidate list \<times> py_error list) result" where
  "collected m =
     (case m of Inr cs \<Rightarrow> Inr (cs, []) | Inl e \<Rightarrow> if is_value_error e then Inr ([], [e]) else Inl e)"

definition cheaper :: "RepairCandidate \<Rightarrow> RepairCandidate \<Rightarrow> bool" where
  "cheaper c d \<longleftrightarrow>
     conservative_total_loss_units c < conservative_total_loss_units d
     \<or> conservative_total_loss_units c = conservative_total_loss_units d
       \<and> candidate_fingerprint c < candidate_fingerprint d"

definition least_loss :: "RepairCandidate \<Rightarrow> RepairCandidate list \<Rightarrow> RepairCandidate" where
  "least_loss c cs = fold (\<lambda>d best. if cheaper d best then d else best) cs c"

definition make_plan :: "Batch \<Rightarrow> RepairCandidate \<Rightarrow> RepairPlan" where
  "make_plan b selected =
     \<lparr>plan_candidate = selected,
      plan_fingerprint = fingerprint (JObj (candidate_fields selected
        @ [(''fingerprint'', JStr (candidate_fingerprint selected))])),
      auto_eligible = False,
      plan_reason =
        (if max_auto_repair_loss b < conservative_total_loss_units selected then ''REPAIR_LOSS_CAP_EXCEEDED''
         else ''REPAIR_PROOF_REQUIRED'')\<rparr>"

definition plan_repair :: "Batch \<Rightarrow> RepairContext option \<Rightarrow> RepairPlan option result" where
  "plan_repair b context =
     (case context of
        None \<Rightarrow> Inr None
      | Some ctx \<Rightarrow>
          if unresolved_conflicts b \<noteq> [] \<or> \<not> context_binds b ctx
             \<or> \<not> bound_cash_flows b (repair_cash_flows ctx) (repair_now ctx)
          then Inr None
          else
            rbind (collected (complete_candidate b ctx)) (\<lambda>(cs1, failures1).
            rbind (collected (exit_candidate b ctx)) (\<lambda>(cs2, failures2).
            case map (fingerprinted ctx) (cs1 @ cs2) of
              [] \<Rightarrow> (case failures1 @ failures2 of [] \<Rightarrow> Inr None | e # _ \<Rightarrow> Inl e)
            | c # cs \<Rightarrow> Inr (Some (make_plan b (least_loss c cs))))))"

subsection \<open>Opening an incident\<close>

definition breaker_reasons :: "string list" where
  "breaker_reasons =
     [''UNKNOWN_ORDER_STATE'', ''COST_RESERVATION_BREACH'', ''ZERO_FILL_CASH_BREACH'', ''RECEIPT_ID_CONFLICT'',
      ''RECEIPT_IDENTITY_DRIFT'', ''VENUE_ORDER_ID_DRIFT'', ''SAME_SEQUENCE_CONFLICT'', ''REST_OBSERVATION_CONFLICT'',
      ''RECEIPT_TIME_REGRESSION'', ''CUMULATIVE_REGRESSION'', ''TERMINAL_REOPENED'']"

definition make_incident :: "string \<Rightarrow> string \<Rightarrow> Incident option" where
  "make_incident reason status = Some \<lparr>incident_reason = reason, repair_status = status, acknowledgement = None, acknowledged_at = None\<rparr>"

definition trip_breaker :: "string \<Rightarrow> NLegControl \<Rightarrow> NLegControl" where
  "trip_breaker reason c = c\<lparr>breaker_open := True, breaker_reason := Some reason\<rparr>"

definition planned_incident :: "string \<Rightarrow> RepairPlan option result \<Rightarrow> Batch \<times> NLegControl \<Rightarrow> (Batch \<times> NLegControl) result" where
  "planned_incident reason plan state =
     (case state of (b, c) \<Rightarrow>
      case plan of
        Inr (Some p) \<Rightarrow>
          Inr (b\<lparr>repair_plan := Some p\<rparr>,
               if plan_reason p = ''REPAIR_LOSS_CAP_EXCEEDED'' then trip_breaker ''REPAIR_LOSS_CAP_EXCEEDED'' c else c)
      | Inr None \<Rightarrow>
          Inr (b\<lparr>repair_plan := None, incident := make_incident reason ''REPAIR_CONTEXT_REQUIRED''\<rparr>,
               trip_breaker ''REPAIR_CONTEXT_REQUIRED'' c)
      | Inl e \<Rightarrow>
          if is_value_error e
          then let status = (if e = ValueError ''fresh book lacks required depth'' then ''REPAIR_INSUFFICIENT_DEPTH''
                             else ''REPAIR_VALUATION_UNAVAILABLE'')
               in Inr (b\<lparr>repair_plan := None, incident := make_incident reason status\<rparr>, trip_breaker status c)
          else Inl e)"

definition open_incident ::
  "Batch \<Rightarrow> NLegControl \<Rightarrow> string \<Rightarrow> RepairContext option \<Rightarrow> (Batch \<times> NLegControl) result" where
  "open_incident b control reason context =
     (let b1 = b\<lparr>batch_state := INCIDENT, incident := make_incident reason ''PENDING_RECONCILIATION'',
                 execution_controls := execution_controls_of b, batch_unsettled_capital_units := batch_occupancy b\<rparr>;
          c1 = control\<lparr>control_mode := ''MANUAL'', active_batch_id := Some (execution_batch_id b),
                       total_unsettled_capital_units := prior_unsettled b + batch_occupancy b\<rparr>;
          c2 = (if reason \<in> set breaker_reasons then trip_breaker reason c1 else c1)
      in
      if unresolved_conflicts b \<noteq> []
      then Inr (b1\<lparr>repair_plan := None, incident := make_incident reason ''CONFLICT_UNRESOLVED''\<rparr>, c2)
      else if \<not> all_terminal b \<or> repair_plan b \<noteq> None then Inr (b1, c2)
      else planned_incident reason (plan_repair b1 context) (b1, c2))"

subsection \<open>Applying a receipt\<close>

definition hold_batch :: "Batch \<Rightarrow> NLegControl \<Rightarrow> NLegControl" where
  "hold_batch b control = control\<lparr>control_mode := ''MANUAL'', active_batch_id := Some (execution_batch_id b)\<rparr>"

definition settle_receipt ::
  "Batch \<Rightarrow> NLegControl \<Rightarrow> string option \<Rightarrow> RepairContext option \<Rightarrow> (Batch \<times> NLegControl) result" where
  "settle_receipt b control found context =
     (case found of
        Some reason \<Rightarrow> open_incident b control reason context
      | None \<Rightarrow>
          (case incident b of
             Some existing \<Rightarrow>
               let b1 = b\<lparr>execution_controls := execution_controls_of b\<rparr> in
               if all_terminal b1
               then if all_full b1 \<or> all_zero b1
                    then Inr (b1\<lparr>batch_state := AWAITING_RECONCILIATION\<rparr>, hold_batch b1 control)
                    else open_incident b1 control (incident_reason existing) context
               else Inr (b1, hold_batch b1 control)
           | None \<Rightarrow>
               if all_terminal b
               then if all_full b \<or> all_zero b then Inr (b\<lparr>batch_state := AWAITING_RECONCILIATION\<rparr>, control)
                    else open_incident b control ''MIXED_TERMINAL_FILL'' context
               else Inr (b, control)))"

definition reduce_apply ::
  "OrderReceipt \<Rightarrow> RepairContext option \<Rightarrow> Batch \<Rightarrow> NLegControl \<Rightarrow> (Batch \<times> NLegControl \<times> bool) result" where
  "reduce_apply r context b control =
     rbind (reduce_receipt b r) (\<lambda>(b', reason, changed).
     if \<not> changed then Inr (b, control, False)
     else rbind (settle_receipt b' control reason context) (\<lambda>(b'', control'). Inr (b'', control', True)))"

subsection \<open>Resolving conflicts by evidence\<close>

definition evidence_identity :: "ConflictResolutionEvidence \<Rightarrow> physical_identity" where
  "evidence_identity v =
     (evidence_client_order_id v, evidence_venue_order_id v, evidence_venue_id v, evidence_account_id v,
      evidence_asset_id v, evidence_settlement_asset_id v)"

definition resolution_matches :: "Conflict \<Rightarrow> ConflictResolutionEvidence \<Rightarrow> bool" where
  "resolution_matches c v \<longleftrightarrow>
     conflict_identity c = evidence_identity v
     \<and> (conflict_kind c = UNBOUND \<longrightarrow> evidence_outcome v = NOT_FOUND_OUTCOME)
     \<and> max_source_timestamp c < evidence_source_timestamp v \<and> max_observed_at c < evidence_observed_at v
     \<and> (case evidence_outcome v of
          TERMINAL_OUTCOME \<Rightarrow>
            (\<exists>x \<in> set_option (evidence_terminal_state v). terminal_state x)
            \<and> max_actual_cash_units c \<le> evidence_cost_units v + evidence_fee_units v
            \<and> max_actual_filled_quantity c \<le> evidence_filled_quantity v
            \<and> or_else (max_rest_observation_version c) (-1) < evidence_observation_version v
            \<and> (if \<exists>n \<in> set_option (max_rest_observation_version c). 0 \<le> n
               then evidence_rest_confirmed v \<and> evidence_sequence v = None
               else if \<exists>n \<in> set_option (max_sequence c). 0 \<le> n
               then (\<exists>n \<in> set_option (evidence_sequence v). or_else (max_sequence c) (-1) < n) \<and> \<not> evidence_rest_confirmed v
               else evidence_rest_confirmed v \<or> evidence_sequence v \<noteq> None)
        | NOT_FOUND_OUTCOME \<Rightarrow>
            evidence_rest_confirmed v \<and> or_else (max_rest_observation_version c) (-1) < evidence_observation_version v)"

definition evidence_facts ::
  "ConflictResolutionEvidence \<Rightarrow> ResolutionOutcome \<times> OrderState option \<times> int \<times> int \<times> int \<times> int option \<times> bool \<times> int" where
  "evidence_facts v =
     (evidence_outcome v, evidence_terminal_state v, evidence_filled_quantity v, evidence_cost_units v,
      evidence_fee_units v, evidence_sequence v, evidence_rest_confirmed v, evidence_observation_version v)"

definition later_evidence :: "ConflictResolutionEvidence \<Rightarrow> ConflictResolutionEvidence \<Rightarrow> bool" where
  "later_evidence v w \<longleftrightarrow>
     evidence_source_timestamp w < evidence_source_timestamp v
     \<or> evidence_source_timestamp v = evidence_source_timestamp w \<and> evidence_observed_at w < evidence_observed_at v"

type_synonym resolved = "Conflict \<times> ConflictResolutionEvidence"

text \<open>The conflicts of one physical order with their evidence: one set of facts, and the latest observation answers all.\<close>

definition select_resolution :: "resolved list \<Rightarrow> resolved option" where
  "select_resolution items =
     (case items of
        [] \<Rightarrow> None
      | p # ps \<Rightarrow>
          let chosen = fold (\<lambda>q best. if later_evidence (snd q) (snd best) then q else best) ps p in
          if list_all (\<lambda>q. evidence_facts (snd q) = evidence_facts (snd p)) ps
             \<and> list_all (\<lambda>q. resolution_matches (fst q) (snd chosen)) items
          then Some chosen else None)"

fun select_all :: "resolved list \<Rightarrow> string list \<Rightarrow> (string \<times> resolved) list option" where
  "select_all items [] = Some []"
| "select_all items (k # ks) =
     (case (select_resolution (filter (\<lambda>q. physical_key (fst q) = k) items), select_all items ks) of
        (Some chosen, Some rest) \<Rightarrow> Some ((k, chosen) # rest)
      | _ \<Rightarrow> None)"

definition merges :: "ConflictResolutionEvidence \<Rightarrow> Leg \<Rightarrow> bool" where
  "merges v l \<longleftrightarrow>
     leg_receipt l \<noteq> None \<and> leg_client_order_id l = evidence_client_order_id v
     \<and> leg_venue_id l = evidence_venue_id v \<and> leg_account_id l = evidence_account_id v
     \<and> leg_asset_id l = evidence_asset_id v \<and> leg_settlement_asset_id l = evidence_settlement_asset_id v"

definition merged_receipt :: "ConflictResolutionEvidence \<Rightarrow> OrderReceipt \<Rightarrow> OrderReceipt" where
  "merged_receipt v r =
     r\<lparr>receipt_venue_order_id := evidence_venue_order_id v, cumulative_filled_quantity := evidence_filled_quantity v,
       cumulative_cost_units := evidence_cost_units v, cumulative_fee_units := evidence_fee_units v,
       receipt_state := or_else (evidence_terminal_state v) (receipt_state r), receipt_sequence := evidence_sequence v,
       rest_confirmed := evidence_rest_confirmed v,
       rest_observation_version := (if evidence_rest_confirmed v then Some (evidence_observation_version v) else None),
       venue_timestamp := evidence_source_timestamp v, observed_at := evidence_observed_at v\<rparr>"

fun merge_canonical_resolution :: "ConflictResolutionEvidence \<Rightarrow> Leg list \<Rightarrow> Leg list" where
  "merge_canonical_resolution v [] = []"
| "merge_canonical_resolution v (l # ls) =
     (if merges v l then l\<lparr>leg_receipt := map_option (merged_receipt v) (leg_receipt l)\<rparr> # ls
      else l # merge_canonical_resolution v ls)"

definition ledger_entry :: "Conflict \<Rightarrow> ConflictResolutionEvidence \<Rightarrow> LedgerEntry" where
  "ledger_entry c v =
     (let submitted = max 1 (conflict_submitted_quantity c);
          protected = (conservative_max_units c * evidence_filled_quantity v + submitted - 1) div submitted
      in
      \<lparr>ledger_client_order_id = evidence_client_order_id v, ledger_venue_order_id = evidence_venue_order_id v,
       ledger_venue_id = evidence_venue_id v, ledger_account_id = evidence_account_id v,
       ledger_asset_id = evidence_asset_id v, ledger_settlement_asset_id = evidence_settlement_asset_id v,
       ledger_filled_quantity = evidence_filled_quantity v, ledger_cost_units = evidence_cost_units v,
       ledger_fee_units = evidence_fee_units v,
       holding_capital_units = max (evidence_cost_units v + evidence_fee_units v) protected\<rparr>)"

definition apply_resolution :: "string \<times> resolved \<Rightarrow> Batch \<Rightarrow> Batch" where
  "apply_resolution item b =
     (case item of (k, c, v) \<Rightarrow>
        if evidence_outcome v = TERMINAL_OUTCOME
        then if conflict_kind c = SAME_PHYSICAL then b\<lparr>legs := merge_canonical_resolution v (legs b)\<rparr>
             else b\<lparr>conflict_terminal_ledger := AList.update k (ledger_entry c v) (conflict_terminal_ledger b)\<rparr>
        else b)"

definition ledger_asset_key :: "LedgerEntry \<Rightarrow> account_key" where
  "ledger_asset_key e = (ledger_venue_id e, ledger_account_id e, ledger_asset_id e)"

text \<open>Per holding, the filled lots of the legs and of the terminal ledger.\<close>

definition expected_holdings :: "Batch \<Rightarrow> (account_key \<times> int) list" where
  "expected_holdings b =
     concat (map (\<lambda>l. case leg_receipt l of
         Some r \<Rightarrow> [(leg_asset_key l, cumulative_filled_quantity r)] | None \<Rightarrow> []) (legs b))
     @ map (\<lambda>(_, e). (ledger_asset_key e, ledger_filled_quantity e)) (conflict_terminal_ledger b)"

definition holding_total :: "Batch \<Rightarrow> account_key \<Rightarrow> int" where
  "holding_total b k = units_for fst snd (expected_holdings b) k"

definition confirmed_of :: "Batch \<Rightarrow> (account_key \<times> int) list" where
  "confirmed_of b =
     filter (\<lambda>(_, n). n \<noteq> 0) (map (\<lambda>k. (k, holding_total b k)) (sort (remdups (map fst (expected_holdings b)))))"

definition resolve_with_evidence :: "Batch \<Rightarrow> ConflictResolutionEvidence list \<Rightarrow> Batch" where
  "resolve_with_evidence b evidence =
     (let raw = unresolved_conflicts b;
          ids = map conflict_id raw;
          found = (\<lambda>c. find (\<lambda>v. evidence_conflict_id v = conflict_id c) evidence)
      in
      if raw = [] \<or> set (map evidence_conflict_id evidence) \<noteq> set ids \<or> \<not> distinct ids
         \<or> \<not> list_all (\<lambda>c. \<exists>v \<in> set_option (found c). resolution_matches c v) raw
      then b
      else
        let items = concat (map (\<lambda>c. case found c of Some v \<Rightarrow> [(c, v)] | None \<Rightarrow> []) raw) in
        case select_all items (first_occurrences (map physical_key raw)) of
          None \<Rightarrow> b
        | Some selected \<Rightarrow>
            let b1 = b\<lparr>conflict_exposure := filter (\<lambda>(k, _). k \<notin> fst ` set selected) (conflict_exposure b)\<rparr>;
                b2 = refresh_reservations (fold apply_resolution selected b1)
            in b2\<lparr>confirmed_holdings := confirmed_of b2, unresolved_conflicts := [], capital_exposure_unknown := False\<rparr>)"

subsection \<open>Reconciliation\<close>

definition proof_required :: py_error where
  "proof_required = ValueError ''N_LEG_RECONCILIATION_PROOF_REQUIRED''"

definition settlement_keys :: "Batch \<Rightarrow> account_key set" where
  "settlement_keys b =
     set (map leg_key (legs b))
     \<union> set (map (\<lambda>(_, e). (ledger_venue_id e, ledger_account_id e, ledger_settlement_asset_id e)) (conflict_terminal_ledger b))"

definition facts_cover :: "Batch \<Rightarrow> ReconciliationContext \<Rightarrow> bool" where
  "facts_cover b ctx \<longleftrightarrow>
     settlement_keys b \<subseteq> set (map balance_key (balances (reconciliation_account_snapshot ctx)))
     \<and> list_all (\<lambda>(k, _). holding_total b k
          \<le> or_else (map_of (map (\<lambda>h. (holding_key h, holding_quantity h)) (reconciliation_holdings ctx)) k) 0)
         (expected_holdings b)
     \<and> bound_cash_flows b (reconciliation_cash_flows ctx) (reconciliation_now ctx)
     \<and> (all_zero b \<longrightarrow> list_all (\<lambda>f. flow_cost_units f = 0 \<and> flow_fee_units f = 0) (reconciliation_cash_flows ctx))"

definition ledger_empty :: "Batch \<Rightarrow> bool" where
  "ledger_empty b \<longleftrightarrow>
     list_all (\<lambda>(_, e). ledger_filled_quantity e = 0 \<and> ledger_cost_units e = 0 \<and> ledger_fee_units e = 0)
       (conflict_terminal_ledger b)"

definition reconciled :: "ReconciliationContext \<Rightarrow> Batch \<Rightarrow> NLegControl \<Rightarrow> Batch \<times> NLegControl" where
  "reconciled ctx b control =
     (let zero = (all_zero b \<and> ledger_empty b);
          unsettled = (if zero then 0 else if all_zero b then terminal_ledger_cost b else batch_occupancy b)
      in
      (b\<lparr>reconciliation := Some ctx, batch_state := (if zero then RECONCILED_ZERO else RECONCILED_FULL), incident := None,
         batch_unsettled_capital_units := unsettled\<rparr>,
       control\<lparr>active_batch_id := None, total_unsettled_capital_units := prior_unsettled b + unsettled,
               control_mode := (if incident b \<noteq> None then ''MANUAL'' else control_mode control)\<rparr>))"

definition reduce_reconciliation ::
  "string \<Rightarrow> ReconciliationContext \<Rightarrow> Batch \<Rightarrow> NLegControl \<Rightarrow> (Batch \<times> NLegControl \<times> bool) result" where
  "reduce_reconciliation batch_id ctx b control =
     (if batch_state b \<in> {RECONCILED_ZERO, RECONCILED_FULL} then Inr (b, control, False)
      else if \<not> all_terminal b then Inl (ValueError ''N_LEG_RECONCILIATION_NOT_READY'')
      else if reconciliation_reservation_version ctx \<noteq> reservation_version b \<or> \<not> (all_full b \<or> all_zero b)
      then Inl proof_required
      else if active_batch_id control \<noteq> Some batch_id then Inl (ValueError ''N_LEG_RECONCILIATION_OWNERSHIP_LOST'')
      else
        let b1 = resolve_with_evidence b (conflict_resolutions ctx) in
        if unresolved_conflicts b1 \<noteq> [] then Inl (ValueError ''N_LEG_RECONCILIATION_CONFLICT_UNRESOLVED'')
        else if \<not> facts_cover b1 ctx then Inl proof_required
        else let (b2, control') = reconciled ctx b1 control in Inr (b2, control', True))"

end
