(* ===== verification/Linear_Model.thy ===== *)
theory Linear_Model
  imports Oracle_Eval
begin

section \<open>Linear models and the answers of a solver\<close>

text \<open>
  The solver-neutral part of \<^verbatim>\<open>prediction_solver.py\<close>: integer variables, rows and objective of a linear model, the
  structural and 64-bit checks of \<open>validate_linear_model\<close>, and \<open>validate_backend_result\<close>, which accepts an answer of a
  backend only after recomputing every bound, row and objective in exact integers. A backend is a parameter: a
  function from a model and a time limit to a result, one for each time it is asked. \<open>NumericUnsafe\<close> is a \<open>ValueError\<close> and an \<open>OverflowError\<close> in the
  code; its handlers catch both. What the checks give is stated against \<open>feasible\<close>, the integer
  points of a model.
\<close>

subsection \<open>Data\<close>

datatype NativeSolveStatus = NATIVE_OPTIMAL | NATIVE_FEASIBLE | NATIVE_INFEASIBLE | NATIVE_UNKNOWN

fun native_status_value :: "NativeSolveStatus \<Rightarrow> string" where
  "native_status_value NATIVE_OPTIMAL = ''OPTIMAL''"
| "native_status_value NATIVE_FEASIBLE = ''FEASIBLE''"
| "native_status_value NATIVE_INFEASIBLE = ''INFEASIBLE''"
| "native_status_value NATIVE_UNKNOWN = ''UNKNOWN''"

datatype ObjectiveSense = MAXIMIZE | MINIMIZE

record IntVariable =
  variable_name :: string
  variable_lower :: int
  variable_upper :: int
  variable_integer :: bool

record LinearConstraint =
  row_name :: string
  row_coefficients :: "(string \<times> int) list"
  row_lower :: "int option"
  row_upper :: "int option"

record LinearObjective =
  sense :: ObjectiveSense
  objective_coefficients :: "(string \<times> int) list"

record LinearModel =
  model_variables :: "IntVariable list"
  model_constraints :: "LinearConstraint list"
  model_objective :: "LinearObjective option"

text \<open>The constructors sort terms, variables and rows by name (\<open>__post_init__\<close>).\<close>

definition int_variable :: "string \<Rightarrow> int \<Rightarrow> int \<Rightarrow> IntVariable" where
  "int_variable name lower upper =
     \<lparr>variable_name = name, variable_lower = lower, variable_upper = upper, variable_integer = True\<rparr>"

definition linear_constraint ::
  "string \<Rightarrow> (string \<times> int) list \<Rightarrow> int option \<Rightarrow> int option \<Rightarrow> LinearConstraint" where
  "linear_constraint name terms lower upper =
     \<lparr>row_name = name, row_coefficients = sort_key fst terms, row_lower = lower, row_upper = upper\<rparr>"

definition linear_objective :: "ObjectiveSense \<Rightarrow> (string \<times> int) list \<Rightarrow> LinearObjective" where
  "linear_objective s terms = \<lparr>sense = s, objective_coefficients = sort_key fst terms\<rparr>"

definition linear_model ::
  "IntVariable list \<Rightarrow> LinearConstraint list \<Rightarrow> LinearObjective option \<Rightarrow> LinearModel" where
  "linear_model vs rows objective =
     \<lparr>model_variables = sort_key variable_name vs, model_constraints = sort_key row_name rows,
      model_objective = objective\<rparr>"

record BackendResult =
  backend_status :: NativeSolveStatus
  backend_values :: "(string \<times> int) list"
  objective_value :: "int option"
  objective_bound :: "int option"
  native_status :: string
  solve_ns :: int

type_synonym SolverBackend = "LinearModel \<Rightarrow> int \<Rightarrow> BackendResult result"

subsection \<open>Validation of a model\<close>

definition require_int64 :: "string \<Rightarrow> int \<Rightarrow> int result" where
  "require_int64 name v = (if in_int64 v then Inr v else Inl (NumericUnsafe (name @ '' must fit signed int64'')))"

definition require_optional_int64 :: "string \<Rightarrow> int option \<Rightarrow> unit result" where
  "require_optional_int64 name v =
     (case v of None \<Rightarrow> Inr () | Some i \<Rightarrow> rbind (require_int64 name i) (\<lambda>_. Inr ()))"

definition require_that :: "bool \<Rightarrow> py_error \<Rightarrow> unit result" where
  "require_that b e = (if b then Inr () else Inl e)"

definition require_name :: "string \<Rightarrow> string \<Rightarrow> unit result" where
  "require_name what s = require_that (\<not> blank s) (ValueError (what @ '' must be a nonempty string''))"

definition check_variable :: "IntVariable \<Rightarrow> string list \<Rightarrow> string list result" where
  "check_variable x seen =
     rbind (require_name ''variable name'' (variable_name x)) (\<lambda>_.
     rbind (require_that (variable_name x \<notin> set seen) (ValueError (''duplicate variable name: '' @ variable_name x))) (\<lambda>_.
     rbind (require_int64 (variable_name x @ ''.lower'') (variable_lower x)) (\<lambda>_.
     rbind (require_int64 (variable_name x @ ''.upper'') (variable_upper x)) (\<lambda>_.
     rbind (require_that (variable_lower x \<le> variable_upper x)
              (ValueError (''variable lower bound exceeds upper bound: '' @ variable_name x))) (\<lambda>_.
     rbind (require_that (variable_integer x) (ValueError (''variable must be integer: '' @ variable_name x))) (\<lambda>_.
     Inr (variable_name x # seen)))))))"

definition check_term :: "string \<Rightarrow> string set \<Rightarrow> string \<times> int \<Rightarrow> string list \<Rightarrow> string list result" where
  "check_term owner names t seen =
     rbind (require_name (owner @ '' coefficient name'') (fst t)) (\<lambda>_.
     rbind (require_that (fst t \<in> names) (ValueError (''unknown variable reference: '' @ fst t))) (\<lambda>_.
     rbind (require_that (fst t \<notin> set seen) (ValueError (''duplicate coefficient variable: '' @ fst t))) (\<lambda>_.
     rbind (require_int64 (owner @ ''.'' @ fst t) (snd t)) (\<lambda>_. Inr (fst t # seen)))))"

definition validate_terms :: "string \<Rightarrow> string set \<Rightarrow> (string \<times> int) list \<Rightarrow> unit result" where
  "validate_terms owner names terms = rbind (result_fold (check_term owner names) terms []) (\<lambda>_. Inr ())"

text \<open>The least and the greatest value a sum of terms can take within the bounds of its variables.\<close>

definition bound_of :: "IntVariable list \<Rightarrow> string \<Rightarrow> int \<times> int" where
  "bound_of vs name =
     (case find (\<lambda>x. variable_name x = name) vs of
        None \<Rightarrow> (0, 0) | Some x \<Rightarrow> (variable_lower x, variable_upper x))"

definition term_minimum :: "IntVariable list \<Rightarrow> (string \<times> int) list \<Rightarrow> int" where
  "term_minimum vs terms =
     (\<Sum>(n, c) \<leftarrow> terms. c * (if 0 \<le> c then fst (bound_of vs n) else snd (bound_of vs n)))"

definition term_maximum :: "IntVariable list \<Rightarrow> (string \<times> int) list \<Rightarrow> int" where
  "term_maximum vs terms =
     (\<Sum>(n, c) \<leftarrow> terms. c * (if 0 \<le> c then snd (bound_of vs n) else fst (bound_of vs n)))"

definition expression_activity_fits_int64 :: "IntVariable list \<Rightarrow> (string \<times> int) list \<Rightarrow> bool" where
  "expression_activity_fits_int64 vs terms \<longleftrightarrow> in_int64 (term_minimum vs terms) \<and> in_int64 (term_maximum vs terms)"

definition validate_row :: "IntVariable list \<Rightarrow> LinearConstraint \<Rightarrow> unit result" where
  "validate_row vs row =
     rbind (validate_terms (row_name row) (variable_name ` set vs) (row_coefficients row)) (\<lambda>_.
     rbind (require_optional_int64 (row_name row @ ''.lower'') (row_lower row)) (\<lambda>_.
     rbind (require_optional_int64 (row_name row @ ''.upper'') (row_upper row)) (\<lambda>_.
     rbind (require_that (case (row_lower row, row_upper row) of (Some l, Some u) \<Rightarrow> l \<le> u | _ \<Rightarrow> True)
              (ValueError (''constraint lower bound exceeds upper bound: '' @ row_name row))) (\<lambda>_.
     require_that (expression_activity_fits_int64 vs (row_coefficients row))
       (NumericUnsafe (''possible row activity exceeds signed int64: '' @ row_name row))))))"

definition check_row :: "IntVariable list \<Rightarrow> LinearConstraint \<Rightarrow> string list \<Rightarrow> string list result" where
  "check_row vs row seen =
     rbind (require_name ''constraint name'' (row_name row)) (\<lambda>_.
     rbind (require_that (row_name row \<notin> set seen) (ValueError (''duplicate constraint name: '' @ row_name row))) (\<lambda>_.
     rbind (validate_row vs row) (\<lambda>_. Inr (row_name row # seen))))"

definition validate_linear_model :: "LinearModel \<Rightarrow> unit result" where
  "validate_linear_model m =
     rbind (result_fold check_variable (model_variables m) []) (\<lambda>_.
     rbind (result_fold (check_row (model_variables m)) (model_constraints m) []) (\<lambda>_.
     case model_objective m of
       None \<Rightarrow> Inr ()
     | Some ob \<Rightarrow>
         rbind (validate_terms ''objective'' (variable_name ` set (model_variables m)) (objective_coefficients ob)) (\<lambda>_.
         require_that (expression_activity_fits_int64 (model_variables m) (objective_coefficients ob))
           (NumericUnsafe ''possible objective activity exceeds signed int64''))))"

subsection \<open>Points of a model\<close>

definition activity :: "(string \<times> int) list \<Rightarrow> (string \<Rightarrow> int) \<Rightarrow> int" where
  "activity terms v = (\<Sum>(n, c) \<leftarrow> terms. v n * c)"

definition row_holds :: "LinearConstraint \<Rightarrow> (string \<Rightarrow> int) \<Rightarrow> bool" where
  "row_holds row v \<longleftrightarrow>
     (case row_lower row of None \<Rightarrow> True | Some l \<Rightarrow> l \<le> activity (row_coefficients row) v)
     \<and> (case row_upper row of None \<Rightarrow> True | Some u \<Rightarrow> activity (row_coefficients row) v \<le> u)"

definition within_bounds :: "IntVariable \<Rightarrow> (string \<Rightarrow> int) \<Rightarrow> bool" where
  "within_bounds x v \<longleftrightarrow> variable_lower x \<le> v (variable_name x) \<and> v (variable_name x) \<le> variable_upper x"

definition feasible :: "LinearModel \<Rightarrow> (string \<Rightarrow> int) \<Rightarrow> bool" where
  "feasible m v \<longleftrightarrow>
     (\<forall>x \<in> set (model_variables m). within_bounds x v) \<and> (\<forall>row \<in> set (model_constraints m). row_holds row v)"

definition objective_at :: "LinearModel \<Rightarrow> (string \<Rightarrow> int) \<Rightarrow> int" where
  "objective_at m v = (case model_objective m of None \<Rightarrow> 0 | Some ob \<Rightarrow> activity (objective_coefficients ob) v)"

subsection \<open>Validation of an answer\<close>

text \<open>\<open>_string\<close> and \<open>_nonnegative_int\<close> as the validation of a result calls them: their errors become \<open>UnsafeSolverResult\<close>.\<close>

fun unsafe_result :: "py_error \<Rightarrow> py_error" where
  "unsafe_result (ValueError s) = UnsafeSolverResult s"
| "unsafe_result (NumericUnsafe s) = UnsafeSolverResult s"
| "unsafe_result e = e"

definition as_unsafe :: "'a result \<Rightarrow> 'a result" where
  "as_unsafe m = (case m of Inl e \<Rightarrow> Inl (unsafe_result e) | Inr x \<Rightarrow> Inr x)"

definition check_value :: "string \<times> int \<Rightarrow> string list \<Rightarrow> string list result" where
  "check_value item seen =
     rbind (require_that (fst item \<noteq> [] \<and> fst item \<notin> set seen)
              (UnsafeSolverResult ''backend values have duplicate or invalid names'')) (\<lambda>_.
     rbind (as_unsafe (require_int64 (fst item) (snd item))) (\<lambda>_. Inr (fst item # seen)))"

text \<open>\<open>values[name]\<close>: the names of a validated model are keys of the values by the check that precedes the reads.\<close>

definition answer_at :: "(string \<times> int) list \<Rightarrow> string \<Rightarrow> int" where
  "answer_at vals name = (case map_of vals name of None \<Rightarrow> 0 | Some v \<Rightarrow> v)"

definition check_bounds :: "(string \<times> int) list \<Rightarrow> IntVariable \<Rightarrow> unit \<Rightarrow> unit result" where
  "check_bounds vals x _ =
     require_that (within_bounds x (answer_at vals)) (UnsafeSolverResult (''variable outside bounds: '' @ variable_name x))"

definition check_row_holds :: "(string \<times> int) list \<Rightarrow> LinearConstraint \<Rightarrow> unit \<Rightarrow> unit result" where
  "check_row_holds vals row _ =
     require_that (row_holds row (answer_at vals)) (UnsafeSolverResult (''constraint violated: '' @ row_name row))"

definition validate_backend_result :: "LinearModel \<Rightarrow> BackendResult \<Rightarrow> unit result" where
  "validate_backend_result m r =
     rbind (validate_linear_model m) (\<lambda>_.
     rbind (as_unsafe (require_name ''native_status'' (native_status r))) (\<lambda>_.
     rbind (as_unsafe (require_that (0 \<le> solve_ns r) (ValueError ''solve_ns must be nonnegative''))) (\<lambda>_.
     rbind (as_unsafe (require_optional_int64 ''objective_value'' (objective_value r))) (\<lambda>_.
     rbind (as_unsafe (require_optional_int64 ''objective_bound'' (objective_bound r))) (\<lambda>_.
     rbind (result_fold check_value (backend_values r) []) (\<lambda>_.
     let names = variable_name ` set (model_variables m);
         keys = fst ` set (backend_values r)
     in
     rbind (require_that (backend_values r = [] \<or> keys = names)
              (UnsafeSolverResult ''backend result has missing or extra variables'')) (\<lambda>_.
     rbind (require_that (backend_status r \<notin> {NATIVE_OPTIMAL, NATIVE_FEASIBLE} \<or> keys = names)
              (UnsafeSolverResult ''feasible backend result requires every variable'')) (\<lambda>_.
     if backend_values r = [] then Inr ()
     else
       rbind (result_fold (check_bounds (backend_values r)) (model_variables m) ()) (\<lambda>_.
       rbind (result_fold (check_row_holds (backend_values r)) (model_constraints m) ()) (\<lambda>_.
       case (objective_value r, model_objective m) of
         (Some ov, Some ob) \<Rightarrow>
           require_that (activity (objective_coefficients ob) (answer_at (backend_values r)) = ov)
             (UnsafeSolverResult ''objective value does not match exact integer activity'')
       | _ \<Rightarrow> Inr ()))))))))))"

definition checked_backend_solve :: "LinearModel \<Rightarrow> SolverBackend \<Rightarrow> int \<Rightarrow> BackendResult result" where
  "checked_backend_solve m backend time_limit_ms =
     rbind (backend m time_limit_ms) (\<lambda>r. rbind (validate_backend_result m r) (\<lambda>_. Inr r))"

subsection \<open>What validation of a model gives\<close>

lemma require_simps [simp]:
  "require_int64 name v = Inr w \<longleftrightarrow> w = v \<and> in_int64 v"
  "require_that b e = Inr u \<longleftrightarrow> b"
  "require_name what s = Inr u \<longleftrightarrow> \<not> blank s"
  "as_unsafe m = Inr x \<longleftrightarrow> m = Inr x"
  by (auto simp: require_int64_def require_that_def require_name_def as_unsafe_def split: sum.splits)

text \<open>A loop that rejects a repeated name and checks each item goes through exactly when names are new and distinct.\<close>

lemma name_loop:
  assumes "\<And>x seen seen'. f x seen = Inr seen' \<longleftrightarrow> ok x \<and> name x \<notin> set seen \<and> seen' = name x # seen"
  shows "result_fold f xs seen = Inr seen'
    \<longleftrightarrow> (\<forall>x \<in> set xs. ok x) \<and> distinct (map name xs) \<and> name ` set xs \<inter> set seen = {}
       \<and> seen' = rev (map name xs) @ seen"
  by (induction xs arbitrary: seen) (auto simp: assms)

definition sound_terms :: "IntVariable list \<Rightarrow> (string \<times> int) list \<Rightarrow> bool" where
  "sound_terms vs terms \<longleftrightarrow>
     distinct (map fst terms) \<and> fst ` set terms \<subseteq> variable_name ` set vs \<and> (\<forall>(n, c) \<in> set terms. in_int64 c)
     \<and> expression_activity_fits_int64 vs terms"

definition sound_model :: "LinearModel \<Rightarrow> bool" where
  "sound_model m \<longleftrightarrow>
     distinct (map variable_name (model_variables m)) \<and> distinct (map row_name (model_constraints m))
     \<and> (\<forall>x \<in> set (model_variables m). variable_lower x \<le> variable_upper x)
     \<and> (\<forall>row \<in> set (model_constraints m). sound_terms (model_variables m) (row_coefficients row))
     \<and> (\<forall>ob. model_objective m = Some ob \<longrightarrow> sound_terms (model_variables m) (objective_coefficients ob))"

lemma validate_terms_sound:
  assumes "validate_terms owner names terms = Inr u"
  shows "distinct (map fst terms)" "fst ` set terms \<subseteq> names" "\<forall>(n, c) \<in> set terms. in_int64 c"
proof -
  have ct: "check_term owner names t seen = Inr seen'
      \<longleftrightarrow> (\<not> blank (fst t) \<and> fst t \<in> names \<and> in_int64 (snd t)) \<and> fst t \<notin> set seen \<and> seen' = fst t # seen" for t seen seen'
    by (auto simp: check_term_def)
  have "(\<forall>t \<in> set terms. \<not> blank (fst t) \<and> fst t \<in> names \<and> in_int64 (snd t)) \<and> distinct (map fst terms)"
    using assms name_loop[where f = "check_term owner names" and name = fst and seen = "[]", OF ct]
    by (auto simp: validate_terms_def)
  then show "distinct (map fst terms)" "fst ` set terms \<subseteq> names" "\<forall>(n, c) \<in> set terms. in_int64 c"
    by auto
qed

lemma validate_linear_model_sound:
  assumes "validate_linear_model m = Inr u"
  shows "sound_model m"
proof -
  let ?vs = "model_variables m"
  have cv: "check_variable x seen = Inr seen'
      \<longleftrightarrow> (\<not> blank (variable_name x) \<and> in_int64 (variable_lower x) \<and> in_int64 (variable_upper x)
           \<and> variable_lower x \<le> variable_upper x \<and> variable_integer x)
         \<and> variable_name x \<notin> set seen \<and> seen' = variable_name x # seen" for x seen seen'
    by (auto simp: check_variable_def)
  have cr: "check_row ?vs row seen = Inr seen'
      \<longleftrightarrow> (\<not> blank (row_name row) \<and> validate_row ?vs row = Inr ()) \<and> row_name row \<notin> set seen
         \<and> seen' = row_name row # seen" for row seen seen'
    by (auto simp: check_row_def)
  have vars: "(\<forall>x \<in> set ?vs. variable_lower x \<le> variable_upper x) \<and> distinct (map variable_name ?vs)"
    using assms name_loop[where f = check_variable and name = variable_name and seen = "[]", OF cv]
    by (auto simp: validate_linear_model_def)
  have rows: "(\<forall>row \<in> set (model_constraints m). validate_row ?vs row = Inr ()) \<and> distinct (map row_name (model_constraints m))"
    using assms name_loop[where f = "check_row ?vs" and name = row_name and seen = "[]", OF cr]
    by (auto simp: validate_linear_model_def)
  have "sound_terms ?vs (row_coefficients row)" if "row \<in> set (model_constraints m)" for row
  proof -
    have "validate_row ?vs row = Inr ()"
      using rows that by blast
    then show ?thesis
      using validate_terms_sound[of "row_name row" "variable_name ` set ?vs" "row_coefficients row" "()"]
      by (auto simp: validate_row_def sound_terms_def)
  qed
  moreover have "sound_terms ?vs (objective_coefficients ob)" if "model_objective m = Some ob" for ob
    using assms that validate_terms_sound[of "''objective''" "variable_name ` set ?vs" "objective_coefficients ob" "()"]
    by (auto simp: validate_linear_model_def sound_terms_def)
  ultimately show ?thesis
    using vars rows by (simp add: sound_model_def)
qed

text \<open>Within its bounds a variable stays between the values \<open>bound_of\<close> reads.\<close>

lemma bound_of_feasible:
  assumes "\<forall>x \<in> set vs. within_bounds x v" and "n \<in> variable_name ` set vs"
  shows "fst (bound_of vs n) \<le> v n" "v n \<le> snd (bound_of vs n)"
proof -
  obtain x where x: "find (\<lambda>x. variable_name x = n) vs = Some x"
    using assms(2) by (cases "find (\<lambda>x. variable_name x = n) vs") (auto simp: find_None_iff)
  then have "x \<in> set vs" "variable_name x = n"
    by (auto simp: find_Some_iff)
  then show "fst (bound_of vs n) \<le> v n" "v n \<le> snd (bound_of vs n)"
    using assms(1) x by (auto simp: bound_of_def within_bounds_def)
qed

lemma activity_between:
  assumes "\<forall>x \<in> set vs. within_bounds x v" and "fst ` set terms \<subseteq> variable_name ` set vs"
  shows "term_minimum vs terms \<le> activity terms v \<and> activity terms v \<le> term_maximum vs terms"
  using assms(2)
proof (induction terms)
  case (Cons t terms)
  obtain n c where t: "t = (n, c)"
    by (cases t)
  have bounds: "fst (bound_of vs n) \<le> v n" "v n \<le> snd (bound_of vs n)"
    using bound_of_feasible[OF assms(1)] Cons.prems t by auto
  have "c * (if 0 \<le> c then fst (bound_of vs n) else snd (bound_of vs n)) \<le> v n * c"
    "v n * c \<le> c * (if 0 \<le> c then snd (bound_of vs n) else fst (bound_of vs n))"
    using bounds by (auto simp: mult.commute[of "v n"] mult_left_mono mult_left_mono_neg)
  then show ?case
    using Cons t by (simp add: term_minimum_def term_maximum_def activity_def)
qed (simp add: term_minimum_def term_maximum_def activity_def)

lemma sound_activity_in_int64:
  assumes "sound_terms vs terms" and "\<forall>x \<in> set vs. within_bounds x v"
  shows "in_int64 (activity terms v)"
  using assms activity_between[OF assms(2), of terms]
  by (auto simp: sound_terms_def expression_activity_fits_int64_def in_int64_def)

subsection \<open>What validation of an answer gives\<close>

lemma unit_loop: "result_fold (\<lambda>x _. require_that (P x) (e x)) xs () = Inr u \<longleftrightarrow> (\<forall>x \<in> set xs. P x)"
  by (induction xs) (auto simp: require_that_def)

lemma validated_values_feasible:
  assumes "validate_backend_result m r = Inr u" and "backend_values r \<noteq> []"
  shows "feasible m (answer_at (backend_values r))"
    and "\<And>ov ob. objective_value r = Some ov \<Longrightarrow> model_objective m = Some ob
           \<Longrightarrow> activity (objective_coefficients ob) (answer_at (backend_values r)) = ov"
proof -
  have bounds: "result_fold (check_bounds (backend_values r)) (model_variables m) () = Inr ()"
    and rows: "result_fold (check_row_holds (backend_values r)) (model_constraints m) () = Inr ()"
    using assms by (auto simp: validate_backend_result_def Let_def)
  have cb: "check_bounds vals = (\<lambda>x _. require_that (within_bounds x (answer_at vals))
      (UnsafeSolverResult (''variable outside bounds: '' @ variable_name x)))" for vals
    by (intro ext) (simp add: check_bounds_def)
  have cr: "check_row_holds vals = (\<lambda>row _. require_that (row_holds row (answer_at vals))
      (UnsafeSolverResult (''constraint violated: '' @ row_name row)))" for vals
    by (intro ext) (simp add: check_row_holds_def)
  show "feasible m (answer_at (backend_values r))"
    using bounds rows by (simp add: feasible_def cb cr unit_loop)
  show "activity (objective_coefficients ob) (answer_at (backend_values r)) = ov"
    if "objective_value r = Some ov" "model_objective m = Some ob" for ov ob
    using assms that by (auto simp: validate_backend_result_def Let_def)
qed

lemma validated_status_values:
  assumes "validate_backend_result m r = Inr u" and "backend_status r \<in> {NATIVE_OPTIMAL, NATIVE_FEASIBLE}"
    and "model_variables m \<noteq> []"
  shows "backend_values r \<noteq> []"
proof
  assume "backend_values r = []"
  then have "variable_name ` set (model_variables m) = {}"
    using assms(1,2) by (auto simp: validate_backend_result_def Let_def)
  then show False
    using assms(3) by simp
qed

text \<open>C10. Whatever a backend answers, an answer that passes the check and claims a solution of a model with variables
  is an integer point of the model, its objective value is the exact value there, and no row or objective of a
  validated model can leave the signed 64-bit range on such a point.\<close>

theorem checked_answer_is_a_point:
  assumes "checked_backend_solve m backend t = Inr r" and "backend_status r \<in> {NATIVE_OPTIMAL, NATIVE_FEASIBLE}"
    and "model_variables m \<noteq> []"
  shows "feasible m (answer_at (backend_values r))
    \<and> (\<forall>ov. objective_value r = Some ov \<longrightarrow> model_objective m \<noteq> None
          \<longrightarrow> ov = objective_at m (answer_at (backend_values r)))
    \<and> (\<forall>v. feasible m v \<longrightarrow>
          in_int64 (objective_at m v)
          \<and> (\<forall>row \<in> set (model_constraints m). in_int64 (activity (row_coefficients row) v)))"
proof -
  have valid: "validate_backend_result m r = Inr ()"
    using assms(1) by (auto simp: checked_backend_solve_def)
  note point = validated_values_feasible[OF valid validated_status_values[OF valid assms(2,3)]]
  have sound: "sound_model m"
    using valid validate_linear_model_sound[of m "()"] by (auto simp: validate_backend_result_def)
  have "in_int64 (objective_at m v)" "\<forall>row \<in> set (model_constraints m). in_int64 (activity (row_coefficients row) v)"
    if "feasible m v" for v
    using that sound sound_activity_in_int64[of "model_variables m" _ v]
    by (auto simp: objective_at_def sound_model_def feasible_def in_int64_def INT64_MIN_def INT64_MAX_def split: option.splits)
  moreover have "\<forall>ov. objective_value r = Some ov \<longrightarrow> model_objective m \<noteq> None
      \<longrightarrow> ov = objective_at m (answer_at (backend_values r))"
    using point(2) by (auto simp: objective_at_def)
  ultimately show ?thesis
    using point(1) by blast
qed

definition tiny_model :: LinearModel where
  "tiny_model = linear_model [int_variable ''x'' 0 3, int_variable ''y'' 0 1]
     [linear_constraint ''cap'' [(''y'', 2), (''x'', 1)] None (Some 3)]
     (Some (linear_objective MAXIMIZE [(''x'', 1), (''y'', 5)]))"

definition tiny_answer :: BackendResult where
  "tiny_answer = \<lparr>backend_status = NATIVE_OPTIMAL, backend_values = [(''x'', 1), (''y'', 1)],
     objective_value = Some 6, objective_bound = Some 6, native_status = ''OPTIMAL'', solve_ns = 0\<rparr>"

theorem checked_answer_is_a_point_witness:
  "checked_backend_solve tiny_model (\<lambda>m t. Inr tiny_answer) 10 = Inr tiny_answer
   \<and> backend_status tiny_answer \<in> {NATIVE_OPTIMAL, NATIVE_FEASIBLE} \<and> model_variables tiny_model \<noteq> []
   \<and> feasible tiny_model (answer_at (backend_values tiny_answer))
   \<and> 6 = objective_at tiny_model (answer_at (backend_values tiny_answer))"
proof -
  have run: "checked_backend_solve tiny_model (\<lambda>m t. Inr tiny_answer) 10 = Inr tiny_answer"
    by code_simp
  have status: "backend_status tiny_answer \<in> {NATIVE_OPTIMAL, NATIVE_FEASIBLE}" "model_variables tiny_model \<noteq> []"
    "objective_value tiny_answer = Some 6" "model_objective tiny_model \<noteq> None"
    by (simp add: tiny_answer_def, code_simp, simp add: tiny_answer_def, simp add: tiny_model_def linear_model_def)
  show ?thesis
    using checked_answer_is_a_point[OF run status(1,2)] run status by simp
qed

end
