(* ===== verification/Terminal_Model.thy ===== *)
theory Terminal_Model
  imports Linear_Model
begin

section \<open>Settlements as a linear model\<close>

text \<open>
  \<open>compile_terminal_model\<close> and \<open>compile_adversary\<close> of \<^verbatim>\<open>prediction_solver.py\<close>: one 0/1 variable per terminal atom, one
  row per contract that picks exactly one atom, rows for the relations and the forbidden combinations, and for the
  adversary the payout of a fixed portfolio as the objective. The theorems tie the rows to the reference semantics of
  the exact oracle: the integer points of the model are the settlements that the constraints allow.
\<close>

subsection \<open>Rows\<close>

definition atom_variable :: "TerminalAtom \<Rightarrow> string" where
  "atom_variable a = ''z:'' @ atom_id a"

definition state_variables :: "TerminalStateSet \<Rightarrow> IntVariable list" where
  "state_variables s = map (\<lambda>a. int_variable (atom_variable a) 0 1) (atoms s)"

definition exactly_one_row :: "TerminalStateSet \<Rightarrow> LinearConstraint" where
  "exactly_one_row s =
     linear_constraint (''terminal:exactly-one:'' @ state_contract_id s) (map (\<lambda>a. (atom_variable a, 1)) (atoms s))
       (Some 1) (Some 1)"

definition atom_of_kind :: "TerminalStateSet \<Rightarrow> TerminalKind \<Rightarrow> TerminalAtom result" where
  "atom_of_kind s k =
     (case last_wins (map (\<lambda>a. (atom_kind a, a)) (atoms s)) k of
        None \<Rightarrow> Inl (KeyError (kind_value k)) | Some a \<Rightarrow> Inr a)"

definition complement_row ::
  "RelationConstraint \<Rightarrow> TerminalStateSet \<Rightarrow> TerminalStateSet \<Rightarrow> TerminalKind \<times> TerminalKind \<times> string
     \<Rightarrow> LinearConstraint result" where
  "complement_row r left right spec =
     (case spec of (left_kind, right_kind, suffix) \<Rightarrow>
        rbind (atom_of_kind left left_kind) (\<lambda>a.
        rbind (atom_of_kind right right_kind) (\<lambda>b.
        Inr (linear_constraint (''relation:'' @ relation_constraint_id r @ '':'' @ suffix)
               [(atom_variable a, 1), (atom_variable b, -1)] (Some 0) (Some 0)))))"

definition complement_kinds :: "(TerminalKind \<times> TerminalKind \<times> string) list" where
  "complement_kinds =
     [(NORMAL_YES, NORMAL_NO, ''yes-no''), (NORMAL_NO, NORMAL_YES, ''no-yes''), (SPLIT, SPLIT, ''split-split'')]"

definition kind_terms :: "(TerminalKind \<Rightarrow> bool) \<Rightarrow> int \<Rightarrow> TerminalStateSet list \<Rightarrow> (string \<times> int) list" where
  "kind_terms P c states =
     concat (map (\<lambda>s. map (\<lambda>a. (atom_variable a, c)) (filter (\<lambda>a. P (atom_kind a)) (atoms s))) states)"

definition exceptional :: "TerminalKind \<Rightarrow> bool" where
  "exceptional k \<longleftrightarrow> k \<notin> {NORMAL_YES, NORMAL_NO}"

definition relation_rows :: "ArbitrageProblem \<Rightarrow> RelationConstraint \<Rightarrow> LinearConstraint list result" where
  "relation_rows p r =
     rbind (result_map (lookup_or_key_error (states_by_contract p)) (contract_ids r)) (\<lambda>states.
     let name = ''relation:'' @ relation_constraint_id r;
         big_m = int (length (contract_ids r)) - 1;
         yes_terms = kind_terms (\<lambda>k. k = NORMAL_YES) 1 states
     in
     case relation_kind r of
       NATIVE_COMPLEMENT \<Rightarrow>
         (case states of
            [left, right] \<Rightarrow> result_map (complement_row r left right) complement_kinds
          | _ \<Rightarrow> Inl (ValueError ''values to unpack (expected 2)''))
     | IMPLIES \<Rightarrow>
         (case states of
            left # right # _ \<Rightarrow>
              Inr [linear_constraint name
                     (kind_terms (\<lambda>k. k = NORMAL_YES) 1 [left] @ kind_terms (\<lambda>k. k = NORMAL_NO) 1 [right]
                      @ kind_terms exceptional (-1) states) None (Some 1)]
          | _ \<Rightarrow> Inl IndexError)
     | MUTUALLY_EXCLUSIVE \<Rightarrow>
         Inr [linear_constraint name (yes_terms @ kind_terms exceptional (- big_m) states) None (Some 1)]
     | EXACTLY_ONE \<Rightarrow>
         Inr [linear_constraint (name @ '':lower'') (yes_terms @ kind_terms exceptional 1 states) (Some 1) None,
              linear_constraint (name @ '':upper'') (yes_terms @ kind_terms exceptional (- big_m) states) None (Some 1)])"

definition forbidden_row :: "ForbiddenAtomCombination \<Rightarrow> LinearConstraint" where
  "forbidden_row f =
     linear_constraint (''forbidden:'' @ forbidden_constraint_id f) (map (\<lambda>i. (''z:'' @ i, 1)) (forbidden_atom_ids f))
       None (Some (int (length (forbidden_atom_ids f)) - 1))"

text \<open>\<open>active_constraint_ids\<close>: all constraints, or only those with the given ids.\<close>

definition is_active :: "string set option \<Rightarrow> string \<Rightarrow> bool" where
  "is_active active i = (case active of None \<Rightarrow> True | Some ids \<Rightarrow> i \<in> ids)"

definition active_constraints :: "string set option \<Rightarrow> ConstraintModel \<Rightarrow> ConstraintModel" where
  "active_constraints active m =
     \<lparr>relations = filter (\<lambda>r. is_active active (relation_constraint_id r)) (relations m),
      forbidden_atom_combinations =
        filter (\<lambda>f. is_active active (forbidden_constraint_id f)) (forbidden_atom_combinations m)\<rparr>"

definition compile_terminal :: "ArbitrageProblem \<Rightarrow> string set option \<Rightarrow> LinearModel result" where
  "compile_terminal p active =
     rbind (require_valid p) (\<lambda>_.
     let cm = active_constraints active (constraint_model p) in
     rbind (result_map (relation_rows p) (relations cm)) (\<lambda>rows.
     let m = linear_model (concat (map state_variables (terminal_state_sets p)))
               (map exactly_one_row (terminal_state_sets p) @ concat rows
                @ map forbidden_row (forbidden_atom_combinations cm)) None
     in rbind (validate_linear_model m) (\<lambda>_. Inr m)))"

definition compile_terminal_model :: "ArbitrageProblem \<Rightarrow> LinearModel result" where
  "compile_terminal_model p = compile_terminal p None"

subsection \<open>The adversary\<close>

record CompiledAdversary =
  adversary_model :: LinearModel
  adversary_quantities :: "ActionQuantity list"
  atom_variables :: "(SelectedAtom \<times> string) list"

definition canonical_quantity ::
  "ArbitrageProblem \<Rightarrow> ActionQuantity \<Rightarrow> string list \<times> ActionQuantity list \<Rightarrow> (string list \<times> ActionQuantity list) result" where
  "canonical_quantity p q st =
     (case actions_by_id p (quantity_action_id q) of
        None \<Rightarrow> Inl (ValueError ''quantities contain an invalid or duplicate action'')
      | Some a \<Rightarrow>
          if quantity_action_id q \<in> set (fst st)
          then Inl (ValueError ''quantities contain an invalid or duplicate action'')
          else if quantity_lots q < 0
             \<or> quantity_lots q \<noteq> 0 \<and> \<not> (min_quantity_lots a \<le> quantity_lots q \<and> quantity_lots q \<le> max_quantity_lots a)
          then Inl (ValueError (''quantity outside action domain: '' @ quantity_action_id q))
          else Inr (quantity_action_id q # fst st, if quantity_lots q \<noteq> 0 then snd st @ [q] else snd st))"

definition canonical_quantities :: "ArbitrageProblem \<Rightarrow> ActionQuantity list \<Rightarrow> ActionQuantity list result" where
  "canonical_quantities p qs =
     rbind (result_fold (canonical_quantity p) qs ([], [])) (\<lambda>st. Inr (sort_key quantity_action_id (snd st)))"

definition payout_of :: "TerminalAtom \<Rightarrow> string \<Rightarrow> int option" where
  "payout_of a = last_wins (map (\<lambda>x. (payout_action_id x, payout_lower_bound_per_lot_units x)) (payouts a))"

definition add_coefficient ::
  "TerminalAtom \<Rightarrow> (string \<Rightarrow> int option) \<Rightarrow> string \<Rightarrow> int \<Rightarrow> int result" where
  "add_coefficient a lots i acc =
     rbind (lookup_or_key_error (payout_of a) i) (\<lambda>units.
     rbind (lookup_or_key_error lots i) (\<lambda>n.
     rbind (require_int64 ''adversary payout product'' (units * n)) (\<lambda>product.
     require_int64 ''adversary payout coefficient'' (acc + product))))"

definition atom_coefficient ::
  "ArbitrageProblem \<Rightarrow> (string \<Rightarrow> int option) \<Rightarrow> TerminalStateSet \<Rightarrow> TerminalAtom \<Rightarrow> int result" where
  "atom_coefficient p lots s a =
     result_fold (add_coefficient a lots)
       (map action_id (filter (\<lambda>b. market_contract_id b = state_contract_id s \<and> lots (action_id b) \<noteq> None) (actions p))) 0"

definition state_terms ::
  "ArbitrageProblem \<Rightarrow> (string \<Rightarrow> int option) \<Rightarrow> TerminalStateSet
     \<Rightarrow> ((string \<times> int) \<times> (SelectedAtom \<times> string)) list result" where
  "state_terms p lots s =
     result_map (\<lambda>a. rbind (atom_coefficient p lots s a) (\<lambda>c.
         Inr ((atom_variable a, c),
              (\<lparr>selected_contract_id = state_contract_id s, selected_atom_id = atom_id a\<rparr>, atom_variable a))))
       (sort_key atom_id (atoms s))"

definition known_constraint_ids :: "ArbitrageProblem \<Rightarrow> string set" where
  "known_constraint_ids p =
     relation_constraint_id ` set (relations (constraint_model p))
     \<union> forbidden_constraint_id ` set (forbidden_atom_combinations (constraint_model p))"

definition compile_adversary ::
  "ArbitrageProblem \<Rightarrow> ActionQuantity list \<Rightarrow> string set option \<Rightarrow> CompiledAdversary result" where
  "compile_adversary p qs active =
     rbind (canonical_quantities p qs) (\<lambda>selected.
     rbind (require_that (selected \<noteq> []) (ValueError ''adversary requires at least one selected action'')) (\<lambda>_.
     rbind (require_that (case active of None \<Rightarrow> True | Some ids \<Rightarrow> ids \<subseteq> known_constraint_ids p)
              (ValueError ''active_constraint_ids contains an unknown constraint'')) (\<lambda>_.
     rbind (compile_terminal p active) (\<lambda>terminal.
     rbind (result_map (state_terms p (lots_of selected)) (sorted_states p)) (\<lambda>terms.
     let m = terminal\<lparr>model_objective := Some (linear_objective MINIMIZE (map fst (concat terms)))\<rparr> in
     rbind (validate_linear_model m) (\<lambda>_.
     Inr \<lparr>adversary_model = m, adversary_quantities = selected, atom_variables = map snd (concat terms)\<rparr>))))))"

definition scenario_from_result :: "CompiledAdversary \<Rightarrow> BackendResult \<Rightarrow> SettlementScenario" where
  "scenario_from_result compiled r =
     \<lparr>scenario_atoms = map fst (filter (\<lambda>(a, x). answer_at (backend_values r) x = 1) (atom_variables compiled))\<rparr>"

definition objective_activity :: "LinearModel \<Rightarrow> BackendResult \<Rightarrow> int result" where
  "objective_activity m r =
     (case model_objective m of
        None \<Rightarrow> Inl AssertionError
      | Some ob \<Rightarrow> require_int64 ''objective activity'' (activity (objective_coefficients ob) (answer_at (backend_values r))))"

subsection \<open>Points and worlds\<close>

text \<open>A point settles the contracts as a world does when the variable of an atom is 1 exactly for the atoms of the world.\<close>

definition settles :: "ArbitrageProblem \<Rightarrow> (string \<Rightarrow> TerminalAtom) \<Rightarrow> (string \<Rightarrow> int) \<Rightarrow> bool" where
  "settles p w v \<longleftrightarrow>
     (\<forall>s \<in> set (terminal_state_sets p). \<forall>a \<in> set (atoms s).
        v (atom_variable a) = (if a = w (state_contract_id s) then 1 else 0))"

definition point_of :: "ArbitrageProblem \<Rightarrow> (string \<Rightarrow> TerminalAtom) \<Rightarrow> string \<Rightarrow> int" where
  "point_of p w n =
     (if n \<in> (\<lambda>s. atom_variable (w (state_contract_id s))) ` set (terminal_state_sets p) then 1 else 0)"

lemma activity_append [simp]: "activity (xs @ ys) v = activity xs v + activity ys v"
  by (simp add: activity_def)

lemma activity_sort [simp]: "activity (sort_key fst terms) v = activity terms v"
  by (simp add: activity_def sum_list_sort_key)

lemma row_holds_constraint [simp]:
  "row_holds (linear_constraint name terms lower upper) v \<longleftrightarrow>
     (case lower of None \<Rightarrow> True | Some l \<Rightarrow> l \<le> activity terms v)
     \<and> (case upper of None \<Rightarrow> True | Some u \<Rightarrow> activity terms v \<le> u)"
  by (cases lower; cases upper) (simp_all add: row_holds_def linear_constraint_def)

lemma feasible_model [simp]:
  "feasible (linear_model vs rows ob) v \<longleftrightarrow>
     (\<forall>x \<in> set vs. within_bounds x v) \<and> (\<forall>row \<in> set rows. row_holds row v)"
  by (simp add: feasible_def linear_model_def)

lemma sum_list_indicator:
  "distinct xs \<Longrightarrow> (\<Sum>a \<leftarrow> filter Q xs. if a = b then (c :: int) else 0) = (if b \<in> set xs \<and> Q b then c else 0)"
  by (induction xs) auto

lemma atoms_distinct:
  assumes "wf_problem p"
  shows "distinct (map atom_id (concat (map atoms (terminal_state_sets p))))"
  using assms by (simp add: wf_problem_def)

lemma state_atoms_distinct:
  assumes "wf_problem p" "s \<in> set (terminal_state_sets p)"
  shows "distinct (atoms s)"
  using atoms_distinct[OF assms(1)] assms(2) by (auto simp: distinct_map distinct_concat_iff)

lemma distinct_concat_owner:
  "distinct (concat (map f xs)) \<Longrightarrow> s \<in> set xs \<Longrightarrow> t \<in> set xs \<Longrightarrow> a \<in> set (f s) \<Longrightarrow> a \<in> set (f t) \<Longrightarrow> s = t"
  by (induction xs) auto

lemma atom_owner:
  assumes "wf_problem p" "s \<in> set (terminal_state_sets p)" "t \<in> set (terminal_state_sets p)"
    "a \<in> set (atoms s)" "b \<in> set (atoms t)" "atom_id a = atom_id b"
  shows "s = t \<and> a = b"
proof -
  let ?as = "concat (map atoms (terminal_state_sets p))"
  have inj: "inj_on atom_id (set ?as)" and dist: "distinct ?as"
    using atoms_distinct[OF assms(1)] by (auto simp: distinct_map)
  have "a = b"
    using inj_onD[OF inj assms(6)] assms(2-5) by auto
  then show ?thesis
    using distinct_concat_owner[OF dist assms(2,3)] assms(4,5) by simp
qed

lemma settles_point_of:
  assumes wf: "wf_problem p" and w: "world_of p w"
  shows "settles p w (point_of p w)"
  unfolding settles_def
proof (intro ballI)
  fix s a assume s: "s \<in> set (terminal_state_sets p)" and a: "a \<in> set (atoms s)"
  have only: "a = w (state_contract_id s)"
    if t: "t \<in> set (terminal_state_sets p)" and eq: "atom_variable a = atom_variable (w (state_contract_id t))" for t
  proof -
    have "w (state_contract_id t) \<in> set (atoms t)"
      using w t by (simp add: world_of_def)
    then have "s = t \<and> a = w (state_contract_id t)"
      using atom_owner[OF wf s t a] eq by (simp add: atom_variable_def)
    then show ?thesis
      by simp
  qed
  show "point_of p w (atom_variable a) = (if a = w (state_contract_id s) then 1 else 0)"
  proof (cases "a = w (state_contract_id s)")
    case True
    then show ?thesis
      using s by (simp add: point_of_def)
  next
    case False
    then have "atom_variable a \<notin> (\<lambda>s. atom_variable (w (state_contract_id s))) ` set (terminal_state_sets p)"
      using only by blast
    then show ?thesis
      using False by (simp add: point_of_def)
  qed
qed

text \<open>The rows that pick one atom per contract, and the bounds of the variables, describe exactly the worlds.\<close>

lemma exactly_one_settles:
  assumes wf: "wf_problem p" and w: "world_of p w" and v: "settles p w v" and s: "s \<in> set (terminal_state_sets p)"
  shows "row_holds (exactly_one_row s) v" "\<forall>x \<in> set (state_variables s). within_bounds x v"
proof -
  have "activity (map (\<lambda>a. (atom_variable a, 1)) (atoms s)) v
      = (\<Sum>a \<leftarrow> atoms s. if a = w (state_contract_id s) then 1 else 0)"
    using v s by (auto simp: activity_def settles_def comp_def intro!: arg_cong[of _ _ sum_list])
  also have "\<dots> = 1"
    using sum_list_indicator[OF state_atoms_distinct[OF wf s], of "w (state_contract_id s)" 1 "\<lambda>_. True"] w s
    by (simp add: world_of_def)
  finally show "row_holds (exactly_one_row s) v"
    by (simp add: exactly_one_row_def)
  show "\<forall>x \<in> set (state_variables s). within_bounds x v"
    using v s by (auto simp: state_variables_def within_bounds_def int_variable_def settles_def)
qed

lemma sum_list_one:
  assumes "\<And>a. a \<in> set xs \<Longrightarrow> f a = 0 \<or> f a = (1 :: int)" and "sum_list (map f xs) = 1"
  obtains b where "b \<in> set xs" "f b = 1" "\<And>a. a \<in> set xs \<Longrightarrow> a \<noteq> b \<Longrightarrow> f a = 0"
proof -
  have "\<exists>b \<in> set xs. f b = 1 \<and> (\<forall>a \<in> set xs. a \<noteq> b \<longrightarrow> f a = 0)"
    using assms
  proof (induction xs)
    case (Cons x xs)
    show ?case
    proof (cases "f x = 1")
      case True
      have "sum_list (map f xs) = 0" and "\<And>a. a \<in> set (map f xs) \<Longrightarrow> 0 \<le> a"
        using Cons.prems True by force+
      then have "\<forall>a \<in> set xs. f a = 0"
        using sum_list_nonneg_eq_0_iff[of "map f xs"] by simp
      then show ?thesis
        using True by auto
    next
      case False
      then have "f x = 0" "sum_list (map f xs) = 1"
        using Cons.prems(1)[of x] Cons.prems(2) by auto
      then show ?thesis
        using Cons.IH Cons.prems(1) by auto
    qed
  qed simp
  then show thesis
    using that by blast
qed

lemma one_atom_per_contract:
  assumes wf: "wf_problem p"
    and rows: "\<forall>s \<in> set (terminal_state_sets p). row_holds (exactly_one_row s) v"
    and bounds: "\<forall>s \<in> set (terminal_state_sets p). \<forall>x \<in> set (state_variables s). within_bounds x v"
  obtains w where "world_of p w" "settles p w v"
proof -
  have one: "\<exists>b \<in> set (atoms s). \<forall>a \<in> set (atoms s). v (atom_variable a) = (if a = b then 1 else 0)"
    if s: "s \<in> set (terminal_state_sets p)" for s
  proof -
    have "v (atom_variable a) = 0 \<or> v (atom_variable a) = 1" if "a \<in> set (atoms s)" for a
      using bounds s that by (force simp: state_variables_def within_bounds_def int_variable_def)
    moreover have "(\<Sum>a \<leftarrow> atoms s. v (atom_variable a)) = 1"
      using rows s by (auto simp: exactly_one_row_def activity_def comp_def dest!: bspec)
    ultimately obtain b where "b \<in> set (atoms s)" "v (atom_variable b) = 1"
        "\<And>a. a \<in> set (atoms s) \<Longrightarrow> a \<noteq> b \<Longrightarrow> v (atom_variable a) = 0"
      using sum_list_one[of "atoms s" "\<lambda>a. v (atom_variable a)"] by blast
    then show ?thesis
      by (intro bexI[of _ b]) auto
  qed
  define w where "w c = (SOME b. \<exists>s \<in> set (terminal_state_sets p). state_contract_id s = c \<and> b \<in> set (atoms s)
      \<and> (\<forall>a \<in> set (atoms s). v (atom_variable a) = (if a = b then 1 else 0)))" for c
  have pick: "w (state_contract_id s) \<in> set (atoms s)
      \<and> (\<forall>a \<in> set (atoms s). v (atom_variable a) = (if a = w (state_contract_id s) then 1 else 0))"
    if s: "s \<in> set (terminal_state_sets p)" for s
  proof -
    obtain b where b: "b \<in> set (atoms s)" "\<forall>a \<in> set (atoms s). v (atom_variable a) = (if a = b then 1 else 0)"
      using one[OF s] by blast
    have "\<exists>t \<in> set (terminal_state_sets p). state_contract_id t = state_contract_id s
        \<and> w (state_contract_id s) \<in> set (atoms t)
        \<and> (\<forall>a \<in> set (atoms t). v (atom_variable a) = (if a = w (state_contract_id s) then 1 else 0))"
      unfolding w_def by (rule someI[of _ b]) (use s b in blast)
    then obtain t where t: "t \<in> set (terminal_state_sets p)" "state_contract_id t = state_contract_id s"
        "w (state_contract_id s) \<in> set (atoms t)"
        "\<forall>a \<in> set (atoms t). v (atom_variable a) = (if a = w (state_contract_id s) then 1 else 0)"
      by blast
    have "t = s"
      using wf_problem_distinct(2)[OF wf] t(1,2) s by (auto simp: distinct_map inj_on_def)
    then show ?thesis
      using t by blast
  qed
  show thesis
    by (rule that[of w]) (use pick in \<open>auto simp: world_of_def settles_def\<close>)
qed

subsection \<open>Relations and forbidden combinations\<close>

abbreviation settled_kind :: "(string \<Rightarrow> TerminalAtom) \<Rightarrow> TerminalStateSet \<Rightarrow> TerminalKind" where
  "settled_kind w s \<equiv> atom_kind (w (state_contract_id s))"

lemma kind_terms_activity:
  assumes wf: "wf_problem p" and w: "world_of p w" and v: "settles p w v" and "set ss \<subseteq> set (terminal_state_sets p)"
  shows "activity (kind_terms P c ss) v = c * int (length (filter (\<lambda>s. P (settled_kind w s)) ss))"
  using assms(4)
proof (induction ss)
  case (Cons s ss)
  have s: "s \<in> set (terminal_state_sets p)"
    using Cons.prems by simp
  have "activity (map (\<lambda>a. (atom_variable a, c)) (filter (\<lambda>a. P (atom_kind a)) (atoms s))) v
      = (\<Sum>a \<leftarrow> filter (\<lambda>a. P (atom_kind a)) (atoms s). if a = w (state_contract_id s) then c else 0)"
    using v s by (auto simp: activity_def settles_def comp_def intro!: arg_cong[of _ _ sum_list])
  also have "\<dots> = (if P (settled_kind w s) then c else 0)"
    using sum_list_indicator[OF state_atoms_distinct[OF wf s], of "w (state_contract_id s)" c "\<lambda>a. P (atom_kind a)"] w s
    by (simp add: world_of_def)
  finally show ?case
    using Cons by (simp add: kind_terms_def algebra_simps)
qed (simp add: kind_terms_def activity_def)

lemma contract_states:
  assumes wf: "wf_problem p" and r: "r \<in> set (relations (constraint_model p))"
    and "result_map (lookup_or_key_error (states_by_contract p)) (contract_ids r) = Inr states"
  shows "map state_contract_id states = contract_ids r" "set states \<subseteq> set (terminal_state_sets p)"
proof -
  have "list_all2 (\<lambda>c s. s \<in> set (terminal_state_sets p) \<and> state_contract_id s = c) (contract_ids r) states"
    using assms(3) by (simp add: result_map_Inr_iff states_by_contract_iff[OF wf])
  then show "map state_contract_id states = contract_ids r" "set states \<subseteq> set (terminal_state_sets p)"
    by (induction rule: list_all2_induct) auto
qed

lemma atom_of_kind_settled:
  assumes "atom_of_kind s k = Inr a" and "length (atoms s) = card (atom_kind ` set (atoms s))"
    and "settles p w v" "s \<in> set (terminal_state_sets p)" "world_of p w"
  shows "v (atom_variable a) = (if settled_kind w s = k then 1 else 0)"
proof -
  have "distinct (map atom_kind (atoms s))"
    using assms(2) by (metis card_distinct length_map list.set_map)
  then have inj: "inj_on atom_kind (set (atoms s))"
    by (simp add: distinct_map)
  have "(k, a) \<in> set (rev (map (\<lambda>a. (atom_kind a, a)) (atoms s)))"
    using assms(1) by (auto simp: atom_of_kind_def last_wins_def split: option.splits dest: map_of_SomeD)
  then have a: "a \<in> set (atoms s)" "atom_kind a = k"
    by auto
  moreover have "w (state_contract_id s) \<in> set (atoms s)"
    using assms(4,5) by (simp add: world_of_def)
  ultimately have "a = w (state_contract_id s) \<longleftrightarrow> settled_kind w s = k"
    using inj by (auto simp: inj_on_def)
  then show ?thesis
    using assms(3,4) a(1) by (simp add: settles_def)
qed

lemma complement_rows_hold:
  assumes wf: "wf_problem p" and w: "world_of p w" and v: "settles p w v"
    and in_states: "left \<in> set (terminal_state_sets p)" "right \<in> set (terminal_state_sets p)"
    and complement: "wf_native_complement p (state_contract_id left) (state_contract_id right)"
    and rows: "result_map (complement_row r left right) complement_kinds = Inr rows"
  shows "(\<forall>row \<in> set rows. row_holds row v) \<longleftrightarrow> relation_holds NATIVE_COMPLEMENT [settled_kind w left, settled_kind w right]"
proof -
  have unique: "state_of_contract p (state_contract_id s) = Some t \<Longrightarrow> s \<in> set (terminal_state_sets p) \<Longrightarrow> t = s" for s t
    using wf_problem_distinct(2)[OF wf]
    by (auto simp: state_of_contract_def distinct_map inj_on_def find_Some_iff dest: nth_mem)
  obtain l t where lt: "state_of_contract p (state_contract_id left) = Some l" "state_of_contract p (state_contract_id right) = Some t"
    "length (atoms l) = 3" "atom_kind ` set (atoms l) = {NORMAL_YES, NORMAL_NO, SPLIT}"
    "length (atoms t) = 3" "atom_kind ` set (atoms t) = {NORMAL_YES, NORMAL_NO, SPLIT}"
    using complement unfolding wf_native_complement_def by blast
  have atoms3: "length (atoms left) = 3" "atom_kind ` set (atoms left) = {NORMAL_YES, NORMAL_NO, SPLIT}"
    "length (atoms right) = 3" "atom_kind ` set (atoms right) = {NORMAL_YES, NORMAL_NO, SPLIT}"
    using lt(3-6) unique[OF lt(1) in_states(1)] unique[OF lt(2) in_states(2)] by simp_all
  then have kinds: "settled_kind w left \<in> {NORMAL_YES, NORMAL_NO, SPLIT}" "settled_kind w right \<in> {NORMAL_YES, NORMAL_NO, SPLIT}"
    using w in_states by (auto simp: world_of_def)
  have row: "row_holds row v \<longleftrightarrow> (settled_kind w left = lk \<longleftrightarrow> settled_kind w right = rk)"
    if made: "complement_row r left right (lk, rk, suffix) = Inr row" for lk rk suffix row
  proof -
    obtain a b where ab: "atom_of_kind left lk = Inr a" "atom_of_kind right rk = Inr b"
      and row: "row = linear_constraint (''relation:'' @ relation_constraint_id r @ '':'' @ suffix)
               [(atom_variable a, 1), (atom_variable b, -1)] (Some 0) (Some 0)"
      using made by (auto simp: complement_row_def)
    show ?thesis
      using atom_of_kind_settled[OF ab(1) _ v in_states(1) w] atom_of_kind_settled[OF ab(2) _ v in_states(2) w] atoms3
      by (auto simp: row activity_def)
  qed
  show ?thesis
    using rows row kinds by (auto simp: complement_kinds_def simp del: append.simps)
qed

text \<open>Counting the contracts that settle in a kind, along the list of the states of a relation.\<close>

definition count_kind :: "(TerminalKind \<Rightarrow> bool) \<Rightarrow> (string \<Rightarrow> TerminalAtom) \<Rightarrow> TerminalStateSet list \<Rightarrow> int" where
  "count_kind P w ss = int (length (filter (\<lambda>s. P (settled_kind w s)) ss))"

lemma count_kind_facts:
  "0 \<le> count_kind P w ss"
  "count_kind (\<lambda>k. k = NORMAL_YES) w ss + count_kind exceptional w ss \<le> int (length ss)"
  "count_kind exceptional w ss = 0 \<longleftrightarrow> set (map (settled_kind w) ss) \<subseteq> {NORMAL_YES, NORMAL_NO}"
  "int (length (filter (\<lambda>k. k = NORMAL_YES) (map (settled_kind w) ss))) = count_kind (\<lambda>k. k = NORMAL_YES) w ss"
proof -
  show "0 \<le> count_kind P w ss"
    by (simp add: count_kind_def)
  show "count_kind (\<lambda>k. k = NORMAL_YES) w ss + count_kind exceptional w ss \<le> int (length ss)"
    by (induction ss) (auto simp: count_kind_def exceptional_def)
  show "count_kind exceptional w ss = 0 \<longleftrightarrow> set (map (settled_kind w) ss) \<subseteq> {NORMAL_YES, NORMAL_NO}"
    by (auto simp: count_kind_def filter_empty_conv exceptional_def)
  show "int (length (filter (\<lambda>k. k = NORMAL_YES) (map (settled_kind w) ss))) = count_kind (\<lambda>k. k = NORMAL_YES) w ss"
    by (simp add: count_kind_def filter_map comp_def)
qed

lemma big_m_upper:
  fixes y e n :: int
  assumes "0 \<le> y" "0 \<le> e" "y + e \<le> n" "2 \<le> n"
  shows "y + (1 - n) * e \<le> 1 \<longleftrightarrow> (e = 0 \<longrightarrow> y \<le> 1)"
proof (cases "e = 0")
  case False
  then have e: "1 \<le> e"
    using assms(2) by simp
  have "(n - 1) * 1 \<le> (n - 1) * e"
    using assms(4) e by (intro mult_left_mono) auto
  then have "y + (1 - n) * e \<le> 1"
    using assms e by (simp add: algebra_simps)
  then show ?thesis
    using False by simp
qed simp

lemma relation_rows_hold:
  assumes wf: "wf_problem p" and w: "world_of p w" and v: "settles p w v"
    and r: "r \<in> set (relations (constraint_model p))" and rows: "relation_rows p r = Inr rows"
  shows "(\<forall>row \<in> set rows. row_holds row v)
    \<longleftrightarrow> relation_holds (relation_kind r) (map (\<lambda>c. atom_kind (w c)) (contract_ids r))"
proof -
  obtain ss where ss: "result_map (lookup_or_key_error (states_by_contract p)) (contract_ids r) = Inr ss"
    using rows by (auto simp: relation_rows_def)
  note ids = contract_states(1)[OF wf r ss] and sub = contract_states(2)[OF wf r ss]
  have kinds: "map (\<lambda>c. atom_kind (w c)) (contract_ids r) = map (settled_kind w) ss"
    unfolding ids[symmetric] by simp
  have len: "length (contract_ids r) = length ss"
    unfolding ids[symmetric] by simp
  have terms: "activity (kind_terms P c ts) v = c * count_kind P w ts" if "set ts \<subseteq> set ss" for P c ts
    using kind_terms_activity[OF wf w v, of ts] that sub by (auto simp: count_kind_def)
  note nonneg = count_kind_facts(1)[of _ w ss] and facts = count_kind_facts(2-4)[of w ss]
  note wfr = wf_problem_relation[OF wf r, unfolded wf_relation_def]
  let ?y = "count_kind (\<lambda>k. k = NORMAL_YES) w ss" and ?e = "count_kind exceptional w ss"
  let ?n = "int (length ss)"
  show ?thesis
  proof (cases "relation_kind r")
    case IMPLIES
    then obtain s t where st: "ss = [s, t]"
      using wfr len by (auto simp: length_Suc_conv numeral_2_eq_2)
    show ?thesis
      using rows ss IMPLIES terms[of "[s]"] terms[of "[t]"] terms[of "[s, t]"] unfolding kinds
      by (auto simp: relation_rows_def st count_kind_def exceptional_def split: if_splits)
  next
    case MUTUALLY_EXCLUSIVE
    have "row_holds (linear_constraint name (kind_terms (\<lambda>k. k = NORMAL_YES) 1 ss
        @ kind_terms exceptional (- (?n - 1)) ss) None (Some 1)) v \<longleftrightarrow> (?e = 0 \<longrightarrow> ?y \<le> 1)" for name
      using big_m_upper[of ?y ?e ?n] nonneg facts(1) wfr len MUTUALLY_EXCLUSIVE by (simp add: terms)
    then show ?thesis
      using rows ss MUTUALLY_EXCLUSIVE facts(2,3) unfolding kinds
      by (auto simp: relation_rows_def Let_def len)
  next
    case EXACTLY_ONE
    have "row_holds (linear_constraint name (kind_terms (\<lambda>k. k = NORMAL_YES) 1 ss
        @ kind_terms exceptional (- (?n - 1)) ss) None (Some 1)) v \<longleftrightarrow> (?e = 0 \<longrightarrow> ?y \<le> 1)" for name
      using big_m_upper[of ?y ?e ?n] nonneg facts(1) wfr len EXACTLY_ONE by (simp add: terms)
    moreover have "row_holds (linear_constraint name (kind_terms (\<lambda>k. k = NORMAL_YES) 1 ss
        @ kind_terms exceptional 1 ss) (Some 1) None) v \<longleftrightarrow> (?e = 0 \<longrightarrow> 1 \<le> ?y)" for name
      using nonneg[of exceptional] nonneg[of "\<lambda>k. k = NORMAL_YES"] by (auto simp: terms)
    ultimately show ?thesis
      using rows ss EXACTLY_ONE facts(2,3) unfolding kinds
      by (auto simp: relation_rows_def Let_def len)
  next
    case NATIVE_COMPLEMENT
    then obtain left right where ids': "contract_ids r = [left, right]" and nc: "wf_native_complement p left right"
      using wfr by auto
    then obtain s t where st: "ss = [s, t]" "state_contract_id s = left" "state_contract_id t = right"
      using ids by (auto simp: map_eq_Cons_conv)
    have crows: "result_map (complement_row r s t) complement_kinds = Inr rows"
      using rows ss NATIVE_COMPLEMENT by (simp add: relation_rows_def st)
    show ?thesis
      using complement_rows_hold[OF wf w v _ _ _ crows] sub nc NATIVE_COMPLEMENT unfolding kinds by (simp add: st)
  qed
qed

lemma sum_list_count: "(\<Sum>i \<leftarrow> xs. if P i then 1 else 0) = int (length (filter P xs))"
  by (induction xs) auto

lemma length_filter_less_iff: "length (filter P xs) < length xs \<longleftrightarrow> (\<exists>x \<in> set xs. \<not> P x)"
  using length_filter_le[of P] by (induction xs) (auto simp: less_Suc_eq_le)

lemma forbidden_row_holds:
  assumes wf: "wf_problem p" and w: "world_of p w" and v: "settles p w v"
    and f: "f \<in> set (forbidden_atom_combinations (constraint_model p))"
  shows "row_holds (forbidden_row f) v
    \<longleftrightarrow> \<not> set (forbidden_atom_ids f) \<subseteq> (\<lambda>s. atom_id (w (state_contract_id s))) ` set (terminal_state_sets p)"
proof -
  let ?settled = "(\<lambda>s. atom_id (w (state_contract_id s))) ` set (terminal_state_sets p)"
  have at: "v (''z:'' @ i) = (if i \<in> ?settled then 1 else 0)" if i: "i \<in> set (forbidden_atom_ids f)" for i
  proof -
    have "wf_forbidden p f"
      using wf f by (simp add: wf_problem_def)
    then obtain s a where s: "s \<in> set (terminal_state_sets p)" and a: "a \<in> set (atoms s)" "atom_id a = i"
      using i by (force simp: wf_forbidden_def)
    have iff: "i \<in> ?settled \<longleftrightarrow> a = w (state_contract_id s)"
    proof
      assume "i \<in> ?settled"
      then obtain t where t: "t \<in> set (terminal_state_sets p)" "atom_id a = atom_id (w (state_contract_id t))"
        using a(2) by auto
      then show "a = w (state_contract_id s)"
        using atom_owner[OF wf s t(1) a(1)] w by (auto simp: world_of_def)
    next
      assume "a = w (state_contract_id s)"
      then show "i \<in> ?settled"
        using s a(2) by auto
    qed
    have "v (''z:'' @ i) = (if a = w (state_contract_id s) then 1 else 0)"
      using v s a(1) unfolding a(2)[symmetric] settles_def atom_variable_def by blast
    then show ?thesis
      by (simp only: iff)
  qed
  have "activity (map (\<lambda>i. (''z:'' @ i, 1)) (forbidden_atom_ids f)) v
      = (\<Sum>i \<leftarrow> forbidden_atom_ids f. if i \<in> ?settled then 1 else 0)"
    using at by (auto simp: activity_def comp_def simp del: append.simps intro!: arg_cong[of _ _ sum_list])
  also have "\<dots> = int (length (filter (\<lambda>i. i \<in> ?settled) (forbidden_atom_ids f)))"
    by (rule sum_list_count)
  finally have "row_holds (forbidden_row f) v
      \<longleftrightarrow> length (filter (\<lambda>i. i \<in> ?settled) (forbidden_atom_ids f)) < length (forbidden_atom_ids f)"
    by (simp add: forbidden_row_def del: append.simps)
  also have "\<dots> \<longleftrightarrow> \<not> set (forbidden_atom_ids f) \<subseteq> ?settled"
    unfolding length_filter_less_iff by blast
  finally show ?thesis .
qed

subsection \<open>The compiled model is exact\<close>

definition active_problem :: "string set option \<Rightarrow> ArbitrageProblem \<Rightarrow> ArbitrageProblem" where
  "active_problem active p = p\<lparr>constraint_model := active_constraints active (constraint_model p)\<rparr>"

lemma active_problem_all [simp]: "active_problem None p = p"
  by (simp add: active_problem_def active_constraints_def is_active_def)

lemma active_problem_parts [simp]:
  "terminal_state_sets (active_problem active p) = terminal_state_sets p"
  "actions (active_problem active p) = actions p"
  "world_of (active_problem active p) w \<longleftrightarrow> world_of p w"
  by (simp_all add: active_problem_def world_of_def)

lemma compile_terminal_rows:
  assumes "compile_terminal p active = Inr m" and w: "world_of p w" and v: "settles p w v"
  shows "feasible m v \<longleftrightarrow> allowed_world (active_problem active p) w"
proof -
  let ?cm = "active_constraints active (constraint_model p)"
  have wf: "wf_problem p"
    using assms(1) by (auto simp: compile_terminal_def)
  obtain rows where rows: "list_all2 (\<lambda>r row. relation_rows p r = Inr row) (relations ?cm) rows"
    and m: "m = linear_model (concat (map state_variables (terminal_state_sets p)))
        (map exactly_one_row (terminal_state_sets p) @ concat rows
         @ map forbidden_row (forbidden_atom_combinations ?cm)) None"
    using assms(1) by (auto simp: compile_terminal_def Let_def result_map_Inr_iff)
  have sub: "set (relations ?cm) \<subseteq> set (relations (constraint_model p))"
    "set (forbidden_atom_combinations ?cm) \<subseteq> set (forbidden_atom_combinations (constraint_model p))"
    by (auto simp: active_constraints_def)
  have "(\<forall>row \<in> set (concat rows). row_holds row v)
      \<longleftrightarrow> (\<forall>r \<in> set (relations ?cm). relation_holds (relation_kind r) (map (\<lambda>c. atom_kind (w c)) (contract_ids r)))"
    using rows sub(1)
  proof (induction rule: list_all2_induct)
    case (Cons r rs row rows)
    then show ?case
      using relation_rows_hold[OF wf w v, of r row] by auto
  qed simp
  moreover have "(\<forall>f \<in> set (forbidden_atom_combinations ?cm). row_holds (forbidden_row f) v)
      \<longleftrightarrow> (\<forall>f \<in> set (forbidden_atom_combinations ?cm).
           \<not> set (forbidden_atom_ids f) \<subseteq> (\<lambda>s. atom_id (w (state_contract_id s))) ` set (terminal_state_sets p))"
    using forbidden_row_holds[OF wf w v] sub(2) by (intro ball_cong) auto
  moreover have "\<forall>s \<in> set (terminal_state_sets p). row_holds (exactly_one_row s) v"
    "\<forall>s \<in> set (terminal_state_sets p). \<forall>x \<in> set (state_variables s). within_bounds x v"
    using exactly_one_settles[OF wf w v] by blast+
  ultimately show ?thesis
    using w by (simp add: m allowed_world_def active_problem_def world_of_def ball_Un)
qed

lemma compile_terminal_points:
  assumes "compile_terminal p active = Inr m" and "feasible m v"
  obtains w where "world_of p w" "settles p w v"
proof (rule one_atom_per_contract)
  show "wf_problem p"
    using assms(1) by (auto simp: compile_terminal_def)
  show "\<forall>s \<in> set (terminal_state_sets p). row_holds (exactly_one_row s) v"
    "\<forall>s \<in> set (terminal_state_sets p). \<forall>x \<in> set (state_variables s). within_bounds x v"
    using assms by (auto simp: compile_terminal_def Let_def)
qed (use that in blast)

subsection \<open>The objective of the adversary\<close>

lemma canonical_quantities_selected:
  assumes "wf_problem p" and "canonical_quantities p qs = Inr sel"
  shows "sel = sort_key quantity_action_id (filter (\<lambda>q. quantity_lots q \<noteq> 0) qs)"
    and "distinct (map quantity_action_id sel)"
    and "\<And>q. q \<in> set sel \<Longrightarrow> 0 < quantity_lots q \<and> (\<exists>a \<in> set (actions p). action_id a = quantity_action_id q
           \<and> min_quantity_lots a \<le> quantity_lots q \<and> quantity_lots q \<le> max_quantity_lots a)"
proof -
  define ok where "ok q \<longleftrightarrow> (\<exists>a. actions_by_id p (quantity_action_id q) = Some a \<and> 0 \<le> quantity_lots q
      \<and> (quantity_lots q = 0 \<or> min_quantity_lots a \<le> quantity_lots q \<and> quantity_lots q \<le> max_quantity_lots a))" for q :: ActionQuantity
  have step: "canonical_quantity p q st = Inr st' \<longleftrightarrow> ok q \<and> quantity_action_id q \<notin> set (fst st)
      \<and> st' = (quantity_action_id q # fst st, if quantity_lots q \<noteq> 0 then snd st @ [q] else snd st)" for q st st'
    by (cases "actions_by_id p (quantity_action_id q)") (auto simp: canonical_quantity_def ok_def)
  have fold: "result_fold (canonical_quantity p) xs st = Inr st' \<longleftrightarrow>
      (\<forall>q \<in> set xs. ok q) \<and> distinct (map quantity_action_id xs) \<and> quantity_action_id ` set xs \<inter> set (fst st) = {}
      \<and> st' = (rev (map quantity_action_id xs) @ fst st, snd st @ filter (\<lambda>q. quantity_lots q \<noteq> 0) xs)" for xs st st'
    by (induction xs arbitrary: st) (auto simp: step)
  have all: "\<forall>q \<in> set qs. ok q" and dist: "distinct (map quantity_action_id qs)"
    and sel: "sel = sort_key quantity_action_id (filter (\<lambda>q. quantity_lots q \<noteq> 0) qs)"
    using assms(2) by (auto simp: canonical_quantities_def fold)
  show "sel = sort_key quantity_action_id (filter (\<lambda>q. quantity_lots q \<noteq> 0) qs)"
    by (rule sel)
  have "distinct (map quantity_action_id (filter (\<lambda>q. quantity_lots q \<noteq> 0) qs))"
    using dist by (simp add: distinct_map_filter)
  then show "distinct (map quantity_action_id sel)"
    unfolding sel by (metis distinct_map distinct_sort set_sort)
  show "0 < quantity_lots q \<and> (\<exists>a \<in> set (actions p). action_id a = quantity_action_id q
      \<and> min_quantity_lots a \<le> quantity_lots q \<and> quantity_lots q \<le> max_quantity_lots a)" if "q \<in> set sel" for q
  proof -
    have "ok q" "quantity_lots q \<noteq> 0"
      using that all by (auto simp: sel)
    then show ?thesis
      by (auto simp: ok_def actions_by_id_iff[OF assms(1)])
  qed
qed

lemma payout_of_payout_in:
  assumes "distinct (map payout_action_id (payouts a))" and "payout_of a i = Some n"
  shows "payout_in a i = n"
proof -
  have "distinct (map fst (map (\<lambda>x. (payout_action_id x, payout_lower_bound_per_lot_units x)) (payouts a)))"
    using assms(1) by (simp add: comp_def)
  then show ?thesis
    using assms(2) by (simp add: payout_of_def payout_in_def last_wins_distinct)
qed

lemma atom_payouts_distinct:
  assumes "wf_problem p" "s \<in> set (terminal_state_sets p)" "a \<in> set (atoms s)"
  shows "distinct (map payout_action_id (payouts a))"
  using wf_problem_state[OF assms(1,2)] assms(3) by (auto simp: wf_state_set_def wf_atom_def)

lemma atom_coefficient_exact:
  assumes "wf_problem p" "s \<in> set (terminal_state_sets p)" "a \<in> set (atoms s)"
    and "atom_coefficient p lots s a = Inr c"
  shows "c = (\<Sum>b \<leftarrow> contract_actions p (state_contract_id s). held_lots lots (action_id b) * payout_in a (action_id b))"
proof -
  have held_filter: "(\<Sum>i \<leftarrow> map action_id (filter (\<lambda>b. P b \<and> lots (action_id b) \<noteq> None) as). held_lots lots i * payout_in a i)
      = (\<Sum>b \<leftarrow> filter P as. held_lots lots (action_id b) * payout_in a (action_id b))" for P and as :: "CandidateAction list"
    by (induction as) (auto simp: held_lots_def)
  let ?ids = "map action_id (filter (\<lambda>b. market_contract_id b = state_contract_id s \<and> lots (action_id b) \<noteq> None) (actions p))"
  have "c = 0 + sum_list (map (\<lambda>i. held_lots lots i * payout_in a i) ?ids)"
    using assms(4) payout_of_payout_in[OF atom_payouts_distinct[OF assms(1-3)]]
    unfolding atom_coefficient_def
    by (intro result_fold_sum[where f = "add_coefficient a lots"])
      (auto simp: add_coefficient_def held_lots_def mult.commute)
  also have "\<dots> = (\<Sum>b \<leftarrow> contract_actions p (state_contract_id s). held_lots lots (action_id b) * payout_in a (action_id b))"
    unfolding contract_actions_def using held_filter[of _ "actions p"] by simp
  finally show ?thesis .
qed

lemma filter_single: "distinct xs \<Longrightarrow> x \<in> set xs \<Longrightarrow> filter (\<lambda>y. y = x) xs = [x]"
  by (induction xs) (auto simp: filter_empty_conv)

abbreviation state_payout :: "ArbitrageProblem \<Rightarrow> (string \<Rightarrow> int option) \<Rightarrow> TerminalStateSet \<Rightarrow> TerminalAtom \<Rightarrow> int" where
  "state_payout p lots s a \<equiv>
     (\<Sum>b \<leftarrow> contract_actions p (state_contract_id s). held_lots lots (action_id b) * payout_in a (action_id b))"

lemma state_terms_settled:
  assumes wf: "wf_problem p" and w: "world_of p w" and v: "settles p w v" and s: "s \<in> set (terminal_state_sets p)"
    and ts: "state_terms p lots s = Inr ts"
  shows "activity (map fst ts) v = state_payout p lots s (w (state_contract_id s))"
    "map fst (filter (\<lambda>(a, x). v x = 1) (map snd ts))
       = [\<lparr>selected_contract_id = state_contract_id s, selected_atom_id = atom_id (w (state_contract_id s))\<rparr>]"
proof -
  let ?a = "w (state_contract_id s)"
  let ?sel = "\<lambda>a. \<lparr>selected_contract_id = state_contract_id s, selected_atom_id = atom_id a\<rparr>"
  have dist: "distinct (sort_key atom_id (atoms s))" and mem: "?a \<in> set (sort_key atom_id (atoms s))"
    using state_atoms_distinct[OF wf s] w s by (auto simp: world_of_def)
  have "list_all2 (\<lambda>a t. t = ((atom_variable a, state_payout p lots s a), (?sel a, atom_variable a))) xs ts"
    if "list_all2 (\<lambda>a t. rbind (atom_coefficient p lots s a) (\<lambda>c.
          Inr ((atom_variable a, c), (?sel a, atom_variable a))) = Inr t) xs ts" "set xs \<subseteq> set (atoms s)" for xs ts
    using that by (induction rule: list_all2_induct) (auto dest!: atom_coefficient_exact[OF wf s])
  then have "list_all2 (\<lambda>a t. t = ((atom_variable a, state_payout p lots s a), (?sel a, atom_variable a)))
      (sort_key atom_id (atoms s)) ts"
    using ts by (simp add: state_terms_def result_map_Inr_iff)
  then have ts_eq: "ts = map (\<lambda>a. ((atom_variable a, state_payout p lots s a), (?sel a, atom_variable a)))
      (sort_key atom_id (atoms s))"
    by (induction rule: list_all2_induct) auto
  have at: "v (atom_variable a) = (if a = ?a then 1 else 0)" if "a \<in> set (sort_key atom_id (atoms s))" for a
    using v s that by (simp add: settles_def)
  have "activity (map fst ts) v = (\<Sum>a \<leftarrow> sort_key atom_id (atoms s). if a = ?a then state_payout p lots s ?a else 0)"
    using at by (auto simp: ts_eq activity_def comp_def intro!: arg_cong[of _ _ sum_list])
  then show "activity (map fst ts) v = state_payout p lots s ?a"
    using sum_list_indicator[OF dist, of ?a _ "\<lambda>_. True"] mem by simp
  have "filter (\<lambda>(a, x). v x = 1) (map snd ts) = map (\<lambda>a. (?sel a, atom_variable a)) (filter (\<lambda>a. a = ?a) (sort_key atom_id (atoms s)))"
    using at by (auto simp: ts_eq filter_map comp_def intro!: arg_cong[of _ _ "map _"] filter_cong split: if_splits)
  also have "filter (\<lambda>a. a = ?a) (sort_key atom_id (atoms s)) = [?a]"
    by (rule filter_single[OF dist mem])
  finally show "map fst (filter (\<lambda>(a, x). v x = 1) (map snd ts)) = [?sel ?a]"
    by simp
qed

lemma portfolio_payout_by_state:
  assumes wf: "wf_problem p"
  shows "(\<Sum>s \<leftarrow> sorted_states p. state_payout p (lots_of qs) s (w (state_contract_id s))) = portfolio_payout p qs w"
proof -
  have "state_payout p (lots_of qs) s (w (state_contract_id s))
      = (\<Sum>b \<leftarrow> contract_actions p (state_contract_id s).
           held_lots (lots_of qs) (action_id b) * payout_in (w (market_contract_id b)) (action_id b))" for s :: TerminalStateSet
    by (auto simp: contract_actions_def intro!: arg_cong[of _ _ sum_list])
  then show ?thesis
    by (simp add: sorted_states_def sum_list_sort_key sum_by_contract[OF wf] portfolio_payout_def)
qed

lemma adversary_at_world:
  assumes c: "compile_adversary p qs active = Inr c" and w: "world_of p w" and v: "settles p w v"
  shows "objective_at (adversary_model c) v = portfolio_payout p (adversary_quantities c) w"
    "map fst (filter (\<lambda>(a, x). v x = 1) (atom_variables c)) = scenario_atoms (scenario_of_world p w)"
    "feasible (adversary_model c) v \<longleftrightarrow> allowed_world (active_problem active p) w"
proof -
  obtain m sel terms where m: "compile_terminal p active = Inr m"
    and terms: "result_map (state_terms p (lots_of sel)) (sorted_states p) = Inr terms"
    and c_eq: "c = \<lparr>adversary_model = m\<lparr>model_objective := Some (linear_objective MINIMIZE (map fst (concat terms)))\<rparr>,
        adversary_quantities = sel, atom_variables = map snd (concat terms)\<rparr>"
    using c by (auto simp: compile_adversary_def Let_def)
  have wf: "wf_problem p"
    using m by (auto simp: compile_terminal_def)
  have loop: "activity (map fst (concat tss)) v = (\<Sum>s \<leftarrow> ss. state_payout p (lots_of sel) s (w (state_contract_id s)))
      \<and> map fst (filter (\<lambda>(a, x). v x = 1) (map snd (concat tss)))
         = map (\<lambda>s. \<lparr>selected_contract_id = state_contract_id s, selected_atom_id = atom_id (w (state_contract_id s))\<rparr>) ss"
    if "list_all2 (\<lambda>s ts. state_terms p (lots_of sel) s = Inr ts) ss tss" "set ss \<subseteq> set (terminal_state_sets p)" for ss tss
    using that
  proof (induction rule: list_all2_induct)
    case (Cons s ss ts tss)
    then show ?case
      using state_terms_settled[OF wf w v, of s "lots_of sel" ts] by simp
  qed (simp add: activity_def)
  note all = loop[OF terms[unfolded result_map_Inr_iff]]
  show "objective_at (adversary_model c) v = portfolio_payout p (adversary_quantities c) w"
    using all portfolio_payout_by_state[OF wf] by (simp add: c_eq objective_at_def linear_objective_def)
  show "map fst (filter (\<lambda>(a, x). v x = 1) (atom_variables c)) = scenario_atoms (scenario_of_world p w)"
    using all by (simp add: c_eq scenario_of_world_def scenario_of_def world_atoms_def map_zip_map2 zip_same_conv_map comp_def)
  show "feasible (adversary_model c) v \<longleftrightarrow> allowed_world (active_problem active p) w"
    using compile_terminal_rows[OF m w v] by (simp add: c_eq feasible_def)
qed

text \<open>C8. The linear model of the adversary is exact. Every settlement that the active constraints allow is an integer
  point of the compiled model, every integer point settles the contracts in such a way, and the objective at a point
  is the payout of the selected portfolio in the settlement of the point.\<close>

theorem adversary_model_exact:
  assumes "compile_adversary p qs active = Inr c"
  shows "(\<forall>w. allowed_world (active_problem active p) w \<longrightarrow>
      feasible (adversary_model c) (point_of p w)
      \<and> objective_at (adversary_model c) (point_of p w) = portfolio_payout p (adversary_quantities c) w)
    \<and> (\<forall>v. feasible (adversary_model c) v \<longrightarrow>
      (\<exists>w. allowed_world (active_problem active p) w \<and> settles p w v
         \<and> objective_at (adversary_model c) v = portfolio_payout p (adversary_quantities c) w))"
proof (intro conjI allI impI)
  obtain m where m: "compile_terminal p active = Inr m" and rows: "model_variables (adversary_model c) = model_variables m"
      "model_constraints (adversary_model c) = model_constraints m"
    using assms by (auto simp: compile_adversary_def Let_def)
  have wf: "wf_problem p"
    using m by (auto simp: compile_terminal_def)
  fix w assume "allowed_world (active_problem active p) w"
  then show "feasible (adversary_model c) (point_of p w)"
    "objective_at (adversary_model c) (point_of p w) = portfolio_payout p (adversary_quantities c) w"
    using adversary_at_world[OF assms _ settles_point_of[OF wf]] by (auto simp: allowed_world_def)
next
  obtain m where m: "compile_terminal p active = Inr m" and rows: "model_variables (adversary_model c) = model_variables m"
      "model_constraints (adversary_model c) = model_constraints m"
    using assms by (auto simp: compile_adversary_def Let_def)
  fix v assume v: "feasible (adversary_model c) v"
  then obtain w where "world_of p w" "settles p w v"
    using compile_terminal_points[OF m] rows by (auto simp: feasible_def)
  then show "\<exists>w. allowed_world (active_problem active p) w \<and> settles p w v
      \<and> objective_at (adversary_model c) v = portfolio_payout p (adversary_quantities c) w"
    using adversary_at_world[OF assms, of w v] v by blast
qed

lemma sample_adversary_compiles:
  "(case compile_adversary sample_problem sample_quantities None of Inl _ \<Rightarrow> False
    | Inr c \<Rightarrow> adversary_quantities c = sample_quantities)"
  by code_simp

definition sample_world :: "string \<Rightarrow> TerminalAtom" where
  "sample_world c = (if c = ''A'' then sample_atom ''a2'' NORMAL_NO ''a-no'' 1000000 6000000
     else sample_atom ''b2'' NORMAL_NO ''b-yes'' 0 7000000)"

lemma sample_world_allowed: "allowed_world sample_problem sample_world"
  by (simp add: allowed_world_def world_of_def sample_world_def sample_problem_def sample_state_a_def sample_state_b_def
      sample_relation_def sample_atom_def)

theorem adversary_model_exact_witness:
  "(case compile_adversary sample_problem sample_quantities None of
      Inl _ \<Rightarrow> False
    | Inr c \<Rightarrow> feasible (adversary_model c) (point_of sample_problem sample_world)
        \<and> objective_at (adversary_model c) (point_of sample_problem sample_world) = 3000000)"
proof -
  obtain c where c: "compile_adversary sample_problem sample_quantities None = Inr c"
    and qs: "adversary_quantities c = sample_quantities"
    using sample_adversary_compiles by (cases "compile_adversary sample_problem sample_quantities None") auto
  have "portfolio_payout sample_problem sample_quantities sample_world = 3000000"
    by code_simp
  then show ?thesis
    using adversary_model_exact[OF c] sample_world_allowed by (simp add: c qs)
qed

end
