(* ===== verification/Partial_Fill.thy ===== *)
theory Partial_Fill
  imports Terminal_Model NLeg_Batch
begin

section \<open>Worst-case loss of partial fills\<close>

text \<open>
  \<^verbatim>\<open>prediction_partial_fill.py\<close>: an adversary chooses how many lots of each leg fill and how the contracts settle, and
  maximises the loss of the batch. \<open>compile_fill_adversary\<close> extends the terminal model by fill variables and by one
  variable per leg and atom for the product of fill and settlement; \<open>counterexample_loss_units\<close> recomputes a loss
  without a solver; \<open>verify_fill_adversary\<close> solves again and compares; \<open>prove_partial_fill\<close> assembles the record that
  execution later binds to; \<open>enumerate_fill_adversary\<close> is the exhaustive reference.

  Evidence travels between solver and verifier as canonical payload. Decoding gives back the same values, except that
  the source problem comes back in canonical order and the fingerprint of the problem is recomputed over it:
  \<open>reread_evidence\<close> is that step. The backend, with its name and version, is a parameter.
\<close>

subsection \<open>Order semantics\<close>

datatype FillSemantics = ATOMIC | PARTIAL | UNKNOWN_SEMANTICS

fun semantics_value :: "FillSemantics \<Rightarrow> string" where
  "semantics_value ATOMIC = ''ATOMIC''"
| "semantics_value PARTIAL = ''PARTIAL''"
| "semantics_value UNKNOWN_SEMANTICS = ''UNKNOWN''"

definition ORDER_SEMANTICS_TABLE_V1 :: "(string \<times> string \<times> FillSemantics) list" where
  "ORDER_SEMANTICS_TABLE_V1 = [(''polymarket'', ''FOK'', ATOMIC), (''predict.fun'', ''LIMIT'', PARTIAL)]"

definition DEFAULT_ORDER_TYPES_V1 :: "(string \<times> string) list" where
  "DEFAULT_ORDER_TYPES_V1 = [(''polymarket'', ''FOK''), (''predict.fun'', ''LIMIT'')]"

definition order_semantics_lookup :: "string \<Rightarrow> string \<Rightarrow> FillSemantics" where
  "order_semantics_lookup venue order_type =
     (case find (\<lambda>(v, t, s). v = venue \<and> t = order_type) ORDER_SEMANTICS_TABLE_V1 of
        None \<Rightarrow> UNKNOWN_SEMANTICS | Some (v, t, s) \<Rightarrow> s)"

definition default_order_type :: "string \<Rightarrow> string option" where
  "default_order_type venue = map_of DEFAULT_ORDER_TYPES_V1 venue"

definition ORDER_SEMANTICS_SCHEMA_V1 :: string where
  "ORDER_SEMANTICS_SCHEMA_V1 = ''open_trader.prediction_partial_fill.order_semantics.v1''"

definition order_semantics_fingerprint_for :: "(string \<times> string \<times> string \<times> string) list \<Rightarrow> string" where
  "order_semantics_fingerprint_for ls =
     fingerprint (JObj [(''order_semantics_version'', JStr ORDER_SEMANTICS_SCHEMA_V1),
       (''legs'', JList (map (\<lambda>(a, v, t, s). JList [JStr a, JStr v, JStr t, JStr s]) ls))])"

subsection \<open>The adversary problem\<close>

record FillLeg =
  fill_action_id :: string
  fill_venue_id :: string
  fill_quantity_lots :: int
  fill_order_type :: string
  fill_semantics :: FillSemantics
  fill_max_cost_units :: int
  fill_max_fee_units :: int

definition check_fill_leg :: "FillLeg \<Rightarrow> unit result" where
  "check_fill_leg l = all_required
     [require (fill_action_id l \<noteq> []) ''fill leg action_id must be a non-empty string'',
      require (fill_venue_id l \<noteq> []) ''fill leg venue_id must be a non-empty string'',
      require (fill_order_type l \<noteq> []) ''fill leg order_type must be a non-empty string'',
      require (0 < fill_quantity_lots l) ''fill leg quantity_lots must be a positive integer'',
      require (0 \<le> fill_max_cost_units l) ''fill leg max_cost_units must be a non-negative integer'',
      require (0 \<le> fill_max_fee_units l) ''fill leg max_fee_units must be a non-negative integer'']"

record FillAdversaryProblem =
  fill_schema_version :: string
  fill_problem_kind :: string
  fill_solution_fingerprint :: string
  fill_solution_payload_fingerprint :: string
  fill_model_fingerprint :: string
  fill_quote_fingerprint :: string
  fill_cost_fingerprint :: string
  fill_order_semantics_fingerprint :: string
  fill_order_semantics_version :: string
  fill_cap_config_version :: string
  fill_max_partial_fill_loss :: int
  fill_max_auto_repair_loss :: int
  fill_legs :: "FillLeg list"
  fill_source_problem :: ArbitrageProblem
  fill_fingerprint :: string

definition FILL_ADVERSARY_SCHEMA_V1 :: string where
  "FILL_ADVERSARY_SCHEMA_V1 = ''open_trader.prediction_partial_fill.fill_adversary.v1''"

definition FILL_ADVERSARY_PROBLEM_KIND :: string where
  "FILL_ADVERSARY_PROBLEM_KIND = ''FILL_ADVERSARY''"

text \<open>\<open>asdict\<close> keeps every sequence in the order it has, unlike the canonical payload of the dataclass.\<close>

definition asdict_atom :: "TerminalAtom \<Rightarrow> json" where
  "asdict_atom a = JObj
     [(''atom_id'', JStr (atom_id a)), (''kind'', JStr (kind_value (atom_kind a))),
      (''rule_version'', json_option JStr (atom_rule_version a)), (''payouts'', JList (map payout_payload (payouts a))),
      (''capital_release_at'', json_option json_datetime (capital_release_at a))]"

definition asdict_state_set :: "TerminalStateSet \<Rightarrow> json" where
  "asdict_state_set s = JObj
     [(''market_contract_id'', JStr (state_contract_id s)),
      (''settlement_observation_key'', observation_payload (state_observation_key s)),
      (''rule_version'', JStr (state_rule_version s)), (''atoms'', JList (map asdict_atom (atoms s)))]"

definition asdict_relation :: "RelationConstraint \<Rightarrow> json" where
  "asdict_relation r = JObj
     [(''constraint_id'', JStr (relation_constraint_id r)), (''kind'', JStr (relation_kind_value (relation_kind r))),
      (''contract_ids'', json_strings (contract_ids r)), (''rule_version'', JStr (relation_rule_version r))]"

definition asdict_forbidden :: "ForbiddenAtomCombination \<Rightarrow> json" where
  "asdict_forbidden f = JObj
     [(''constraint_id'', JStr (forbidden_constraint_id f)), (''atom_ids'', json_strings (forbidden_atom_ids f)),
      (''rule_version'', JStr (forbidden_rule_version f))]"

definition asdict_problem :: "ArbitrageProblem \<Rightarrow> json" where
  "asdict_problem p = JObj
     [(''schema_version'', JStr (schema_version p)), (''problem_id'', JStr (problem_id p)),
      (''as_of'', json_datetime (as_of p)), (''valuation_unit_id'', JStr (problem_valuation_unit_id p)),
      (''actions'', JList (map action_payload (actions p))),
      (''terminal_state_sets'', JList (map asdict_state_set (terminal_state_sets p))),
      (''constraint_model'', JObj
         [(''relations'', JList (map asdict_relation (relations (constraint_model p)))),
          (''forbidden_atom_combinations'',
            JList (map asdict_forbidden (forbidden_atom_combinations (constraint_model p))))]),
      (''qualification_constraints'', JList (map qualification_payload (qualification_constraints p)))]"

definition fill_leg_payload :: "FillLeg \<Rightarrow> json" where
  "fill_leg_payload l = JObj
     [(''action_id'', JStr (fill_action_id l)), (''venue_id'', JStr (fill_venue_id l)),
      (''quantity_lots'', JInt (fill_quantity_lots l)), (''order_type'', JStr (fill_order_type l)),
      (''semantics'', JStr (semantics_value (fill_semantics l))), (''max_cost_units'', JInt (fill_max_cost_units l)),
      (''max_fee_units'', JInt (fill_max_fee_units l))]"

definition fill_problem_fields :: "FillAdversaryProblem \<Rightarrow> (string \<times> json) list" where
  "fill_problem_fields q =
     [(''schema_version'', JStr (fill_schema_version q)), (''problem_kind'', JStr (fill_problem_kind q)),
      (''execution_solution_fingerprint'', JStr (fill_solution_fingerprint q)),
      (''execution_solution_payload_fingerprint'', JStr (fill_solution_payload_fingerprint q)),
      (''model_fingerprint'', JStr (fill_model_fingerprint q)), (''quote_fingerprint'', JStr (fill_quote_fingerprint q)),
      (''cost_fingerprint'', JStr (fill_cost_fingerprint q)),
      (''order_semantics_fingerprint'', JStr (fill_order_semantics_fingerprint q)),
      (''order_semantics_version'', JStr (fill_order_semantics_version q)),
      (''cap_config_version'', JStr (fill_cap_config_version q)),
      (''max_partial_fill_loss'', JInt (fill_max_partial_fill_loss q)),
      (''max_auto_repair_loss'', JInt (fill_max_auto_repair_loss q)),
      (''legs'', JList (map fill_leg_payload (fill_legs q))), (''source_problem'', asdict_problem (fill_source_problem q))]"

definition fill_problem_fingerprint :: "FillAdversaryProblem \<Rightarrow> string" where
  "fill_problem_fingerprint q = fingerprint (JObj (fill_problem_fields q))"

definition check_problem_leg :: "(string \<Rightarrow> CandidateAction option) \<Rightarrow> FillLeg \<Rightarrow> string list \<Rightarrow> string list result" where
  "check_problem_leg acts l seen =
     (if fill_action_id l \<in> set seen then Inl (ValueError (''duplicate fill leg: '' @ fill_action_id l))
      else
        case acts (fill_action_id l) of
          None \<Rightarrow> Inl (ValueError (''fill leg references unknown action: '' @ fill_action_id l))
        | Some a \<Rightarrow>
            if fill_venue_id l \<noteq> venue_id a
            then Inl (ValueError (''fill leg venue does not match action venue: '' @ fill_action_id l))
            else if fill_semantics l \<noteq> order_semantics_lookup (fill_venue_id l) (fill_order_type l)
            then Inl (ValueError (''fill leg semantics contradicts the versioned semantics table: '' @ fill_action_id l))
            else Inr (fill_action_id l # seen))"

definition check_fill_problem :: "FillAdversaryProblem \<Rightarrow> unit result" where
  "check_fill_problem q =
     rbind (all_required
       ([require (fill_schema_version q = FILL_ADVERSARY_SCHEMA_V1) ''unsupported fill-adversary schema'',
         require (fill_problem_kind q = FILL_ADVERSARY_PROBLEM_KIND) ''unexpected fill-adversary problem kind'',
         require (fill_order_semantics_version q = ORDER_SEMANTICS_SCHEMA_V1) ''unsupported order-semantics schema'',
         require (fill_legs q \<noteq> []) ''fill adversary requires at least one leg''] @
        map (\<lambda>(name, v). require (v \<noteq> []) (name @ '' must be a non-empty string''))
          [(''execution_solution_fingerprint'', fill_solution_fingerprint q),
           (''execution_solution_payload_fingerprint'', fill_solution_payload_fingerprint q),
           (''model_fingerprint'', fill_model_fingerprint q), (''quote_fingerprint'', fill_quote_fingerprint q),
           (''cost_fingerprint'', fill_cost_fingerprint q),
           (''order_semantics_fingerprint'', fill_order_semantics_fingerprint q),
           (''cap_config_version'', fill_cap_config_version q)] @
        [require (0 \<le> fill_max_partial_fill_loss q) ''max_partial_fill_loss must be a non-negative integer'',
         require (0 \<le> fill_max_auto_repair_loss q) ''max_auto_repair_loss must be a non-negative integer''])) (\<lambda>_.
     rbind (result_fold (check_problem_leg (actions_by_id (fill_source_problem q))) (fill_legs q) []) (\<lambda>_.
     require (fill_fingerprint q = fill_problem_fingerprint q) ''fill-adversary problem fingerprint mismatch''))"

text \<open>The constructor used by the callers: the source problem is put into canonical order first.\<close>

definition fill_adversary_problem :: "FillAdversaryProblem \<Rightarrow> FillAdversaryProblem result" where
  "fill_adversary_problem draft =
     (let q = draft\<lparr>fill_schema_version := FILL_ADVERSARY_SCHEMA_V1, fill_problem_kind := FILL_ADVERSARY_PROBLEM_KIND,
                    fill_order_semantics_version := ORDER_SEMANTICS_SCHEMA_V1,
                    fill_source_problem := sorted_problem (fill_source_problem draft)\<rparr>;
          q' = q\<lparr>fill_fingerprint := fill_problem_fingerprint q\<rparr>
      in rbind (check_fill_problem q') (\<lambda>_. Inr q'))"

subsection \<open>Compilation\<close>

record CompiledFillAdversary =
  fill_model :: LinearModel
  compiled_legs :: "FillLeg list"
  fill_variables :: "(string \<times> string) list"

definition ceil_div :: "int \<Rightarrow> int \<Rightarrow> int result" where
  "ceil_div numerator denominator =
     (if denominator \<le> 0 then Inl (ValueError ''ceil division requires an integer over a positive integer'')
      else Inr (- ((- numerator) div denominator)))"

definition unit_loss :: "FillLeg \<Rightarrow> int result" where
  "unit_loss l =
     rbind (ceil_div (fill_max_cost_units l) (fill_quantity_lots l)) (\<lambda>cost.
     rbind (ceil_div (fill_max_fee_units l) (fill_quantity_lots l)) (\<lambda>fee. Inr (cost + fee)))"

definition fill_variable :: "FillLeg \<Rightarrow> string" where
  "fill_variable l = ''fill:'' @ fill_action_id l"

definition selector_variable :: "FillLeg \<Rightarrow> string" where
  "selector_variable l = ''fill-b:'' @ fill_action_id l"

definition payout_variable :: "FillLeg \<Rightarrow> TerminalAtom \<Rightarrow> string" where
  "payout_variable l a = ''fill-payout:'' @ fill_action_id l @ '':'' @ atom_id a"

definition leg_variables :: "FillLeg \<Rightarrow> IntVariable list" where
  "leg_variables l =
     (if fill_semantics l = ATOMIC then [int_variable (selector_variable l) 0 1] else [])
     @ [int_variable (fill_variable l) 0 (fill_quantity_lots l)]"

definition leg_rows :: "FillLeg \<Rightarrow> LinearConstraint list" where
  "leg_rows l =
     (if fill_semantics l = ATOMIC
      then [linear_constraint (''fill:atomic:'' @ fill_action_id l)
              [(fill_variable l, 1), (selector_variable l, - fill_quantity_lots l)] (Some 0) (Some 0)]
      else [])"

definition leg_term :: "FillLeg \<Rightarrow> (string \<times> int) result" where
  "leg_term l =
     (if fill_semantics l = UNKNOWN_SEMANTICS
      then Inl (ValueError ''cannot compile fill adversary with unknown order semantics'')
      else rbind (unit_loss l) (\<lambda>u. Inr (fill_variable l, u)))"

definition first_payout :: "TerminalAtom \<Rightarrow> string \<Rightarrow> int option" where
  "first_payout a i = map_of (map (\<lambda>x. (payout_action_id x, payout_lower_bound_per_lot_units x)) (payouts a)) i"

definition payout_rows :: "FillLeg \<Rightarrow> TerminalAtom \<Rightarrow> LinearConstraint list" where
  "payout_rows l a =
     (let prefix = ''payout:'' @ fill_action_id l @ '':'' @ atom_id a;
          y = payout_variable l a; z = atom_variable a; q = fill_quantity_lots l
      in [linear_constraint (prefix @ '':upper-fill'') [(y, 1), (fill_variable l, -1)] None (Some 0),
          linear_constraint (prefix @ '':upper-atom'') [(y, 1), (z, - q)] None (Some 0),
          linear_constraint (prefix @ '':lower'') [(y, 1), (fill_variable l, -1), (z, - q)] (Some (- q)) None])"

definition payout_part ::
  "FillLeg \<Rightarrow> TerminalAtom \<Rightarrow> (IntVariable \<times> LinearConstraint list \<times> (string \<times> int) list) result" where
  "payout_part l a =
     (case first_payout a (fill_action_id l) of
        None \<Rightarrow> Inl (ValueError (''leg '' @ fill_action_id l @ '' has no payout in atom '' @ atom_id a))
      | Some payout \<Rightarrow>
          Inr (int_variable (payout_variable l a) 0 (fill_quantity_lots l), payout_rows l a,
               if 0 < payout then [(payout_variable l a, - payout)] else []))"

definition leg_payout_parts ::
  "ArbitrageProblem \<Rightarrow> FillLeg \<Rightarrow> (IntVariable \<times> LinearConstraint list \<times> (string \<times> int) list) list result" where
  "leg_payout_parts p l =
     rbind (lookup_or_key_error (actions_by_id p) (fill_action_id l)) (\<lambda>a.
     rbind (lookup_or_key_error (states_by_contract p) (market_contract_id a)) (\<lambda>s.
     result_map (payout_part l) (atoms s)))"

definition compile_fill_adversary :: "FillAdversaryProblem \<Rightarrow> CompiledFillAdversary result" where
  "compile_fill_adversary q =
     (let p = fill_source_problem q; ls = fill_legs q in
      rbind (compile_terminal_model p) (\<lambda>terminal.
      rbind (result_map leg_term ls) (\<lambda>terms.
      rbind (result_map (leg_payout_parts p) ls) (\<lambda>parts.
      let ps = concat parts;
          m = linear_model (model_variables terminal @ concat (map leg_variables ls) @ map fst ps)
                (model_constraints terminal @ concat (map leg_rows ls) @ concat (map (\<lambda>x. fst (snd x)) ps))
                (Some (linear_objective MAXIMIZE (terms @ concat (map (\<lambda>x. snd (snd x)) ps))))
      in
      rbind (validate_linear_model m) (\<lambda>_.
      Inr \<lparr>fill_model = m, compiled_legs = ls,
           fill_variables = map (\<lambda>l. (fill_action_id l, fill_variable l)) ls\<rparr>)))))"

subsection \<open>The loss of one outcome\<close>

definition add_leg_loss ::
  "FillAdversaryProblem \<Rightarrow> (string \<Rightarrow> int option) \<Rightarrow> (string \<Rightarrow> string option) \<Rightarrow> FillLeg \<Rightarrow> int \<Rightarrow> int result" where
  "add_leg_loss q fills chosen l acc =
     (let filled = (case fills (fill_action_id l) of None \<Rightarrow> 0 | Some n \<Rightarrow> n) in
      if filled = 0 then Inr acc
      else if \<not> (0 < filled \<and> filled \<le> fill_quantity_lots l)
      then Inl (ValueError (''invalid fill quantity for '' @ fill_action_id l))
      else
        case actions_by_id (fill_source_problem q) (fill_action_id l) of
          None \<Rightarrow> Inl (ValueError (''unknown action in counterexample: '' @ fill_action_id l))
        | Some act \<Rightarrow>
            case Option.bind (states_by_contract (fill_source_problem q) (market_contract_id act))
                   (\<lambda>s. atoms_by_id s (case chosen (market_contract_id act) of None \<Rightarrow> [] | Some i \<Rightarrow> i)) of
              None \<Rightarrow> Inl (ValueError ''scenario is missing the atom for a filled leg'')
            | Some atom \<Rightarrow>
                case first_payout atom (fill_action_id l) of
                  None \<Rightarrow> Inl (ValueError (''atom '' @ atom_id atom @ '' has no payout for '' @ fill_action_id l))
                | Some payout \<Rightarrow>
                    rbind (unit_loss l) (\<lambda>u. Inr (acc + (filled * u - filled * payout))))"

definition counterexample_loss_units ::
  "FillAdversaryProblem \<Rightarrow> ActionQuantity list \<Rightarrow> SettlementScenario \<Rightarrow> int result" where
  "counterexample_loss_units q fills scenario =
     (let chosen = map (\<lambda>a. (selected_contract_id a, selected_atom_id a)) (scenario_atoms scenario) in
      if \<not> distinct (map fst chosen) then Inl (ValueError ''scenario selects a contract more than once'')
      else result_fold (add_leg_loss q (lots_of fills) (last_wins chosen)) (fill_legs q) 0)"

subsection \<open>Evidence and its verification\<close>

record FillAdversaryEvidence =
  evidence_problem :: FillAdversaryProblem
  evidence_solver_name :: string
  evidence_solver_version :: string
  evidence_termination :: string
  evidence_worst_loss :: "int option"
  evidence_fills :: "ActionQuantity list"
  evidence_scenario :: "SettlementScenario option"

definition TERMINATION_CLOSED :: string where
  "TERMINATION_CLOSED = ''CLOSED''"

definition check_fill_evidence :: "FillAdversaryEvidence \<Rightarrow> unit result" where
  "check_fill_evidence e = all_required
     [require (evidence_solver_name e \<noteq> []) ''evidence solver_name must be a non-empty string'',
      require (evidence_solver_version e \<noteq> []) ''evidence solver_version must be a non-empty string'',
      require (evidence_termination e \<noteq> []) ''evidence termination must be a non-empty string'',
      (if evidence_termination e = TERMINATION_CLOSED
       then require (evidence_worst_loss e \<noteq> None \<and> evidence_fills e \<noteq> [] \<and> evidence_scenario e \<noteq> None)
              ''closed evidence requires worst loss, fills, atoms''
       else require (evidence_worst_loss e = None \<and> evidence_fills e = [] \<and> evidence_scenario e = None)
              ''unclosed evidence must not carry worst values'')]"

definition make_fill_evidence :: "FillAdversaryEvidence \<Rightarrow> FillAdversaryEvidence result" where
  "make_fill_evidence e = rbind (check_fill_evidence e) (\<lambda>_. Inr e)"

text \<open>What reading the canonical payload of evidence gives: the problem in canonical order, checked again.\<close>

definition reread_evidence :: "FillAdversaryEvidence \<Rightarrow> FillAdversaryEvidence result" where
  "reread_evidence e =
     (let q = evidence_problem e;
          q' = q\<lparr>fill_source_problem := sorted_problem (fill_source_problem q)\<rparr>
      in
      rbind (require_valid (fill_source_problem q)) (\<lambda>_.
      rbind (check_fill_problem q') (\<lambda>_. make_fill_evidence (e\<lparr>evidence_problem := q'\<rparr>))))"

datatype VerifierStatus = VERIFIER_QUALIFIED | VERIFIER_MISMATCH | VERIFIER_INVALID | VERIFIER_NOT_APPLICABLE

fun verifier_status_value :: "VerifierStatus \<Rightarrow> string" where
  "verifier_status_value VERIFIER_QUALIFIED = ''QUALIFIED_VERIFIED''"
| "verifier_status_value VERIFIER_MISMATCH = ''MISMATCH''"
| "verifier_status_value VERIFIER_INVALID = ''INVALID''"
| "verifier_status_value VERIFIER_NOT_APPLICABLE = ''NOT_APPLICABLE''"

record FillAdversaryVerification =
  verification_status :: VerifierStatus
  verification_problem_fingerprint :: string
  verification_solver_termination :: string
  verification_solver_worst :: "int option"
  verification_termination :: string
  verification_worst :: "int option"
  verification_counterexample_loss :: "int option"
  verification_fills :: "ActionQuantity list"
  verification_scenario :: "SettlementScenario option"
  verification_reason :: "string option"

definition scenario_from_values :: "FillAdversaryProblem \<Rightarrow> (string \<times> int) list \<Rightarrow> SettlementScenario" where
  "scenario_from_values q vals =
     \<lparr>scenario_atoms = concat (map (\<lambda>s. map (\<lambda>a. \<lparr>selected_contract_id = state_contract_id s, selected_atom_id = atom_id a\<rparr>)
        (filter (\<lambda>a. answer_at vals (atom_variable a) = 1) (atoms s))) (terminal_state_sets (fill_source_problem q)))\<rparr>"

definition fills_from_values :: "CompiledFillAdversary \<Rightarrow> (string \<times> int) list \<Rightarrow> ActionQuantity list" where
  "fills_from_values c vals =
     map (\<lambda>(i, x). \<lparr>quantity_action_id = i, quantity_lots = answer_at vals x\<rparr>) (fill_variables c)"

definition termination_of :: "BackendResult \<Rightarrow> string" where
  "termination_of r =
     (if backend_status r = NATIVE_OPTIMAL then TERMINATION_CLOSED
      else ''UNCLOSED:'' @ native_status_value (backend_status r))"

definition solve_fill_adversary ::
  "FillAdversaryProblem \<Rightarrow> SolverBackend \<Rightarrow> string \<Rightarrow> string \<Rightarrow> int \<Rightarrow> FillAdversaryEvidence result" where
  "solve_fill_adversary q backend name version time_limit_ms =
     rbind (require (0 < time_limit_ms) ''time_limit_ms must be a positive integer'') (\<lambda>_.
     rbind (compile_fill_adversary q) (\<lambda>c.
     rbind (checked_backend_solve (fill_model c) backend time_limit_ms) (\<lambda>r.
     let base = \<lparr>evidence_problem = q, evidence_solver_name = name, evidence_solver_version = version,
                 evidence_termination = termination_of r, evidence_worst_loss = None, evidence_fills = [],
                 evidence_scenario = None\<rparr>
     in make_fill_evidence
          (if backend_status r = NATIVE_OPTIMAL
           then base\<lparr>evidence_worst_loss := objective_value r, evidence_fills := fills_from_values c (backend_values r),
                     evidence_scenario := Some (scenario_from_values q (backend_values r))\<rparr>
           else base))))"

text \<open>\<open>except (TypeError, ValueError, OverflowError)\<close>, and the text of such an exception.\<close>

definition input_error :: "py_error \<Rightarrow> bool" where
  "input_error e \<longleftrightarrow> is_value_error e \<or> e = TypeError \<or> e = OverflowError"

fun error_text :: "py_error \<Rightarrow> string" where
  "error_text (ValueError s) = s"
| "error_text (NumericUnsafe s) = s"
| "error_text (UnsafeSolverResult s) = s"
| "error_text _ = []"

definition verify_reread ::
  "FillAdversaryEvidence \<Rightarrow> SolverBackend \<Rightarrow> int \<Rightarrow> FillAdversaryVerification result" where
  "verify_reread e backend time_limit_ms =
     (let q = evidence_problem e in
      rbind (compile_fill_adversary q) (\<lambda>c.
      rbind (checked_backend_solve (fill_model c) backend time_limit_ms) (\<lambda>r.
      let term = termination_of r;
          worst = (if backend_status r = NATIVE_OPTIMAL then objective_value r else None)
      in
      rbind (case (evidence_termination e = TERMINATION_CLOSED, evidence_scenario e) of
               (True, Some sc) \<Rightarrow> rbind (counterexample_loss_units q (evidence_fills e) sc) (\<lambda>loss. Inr (Some loss))
             | (True, None) \<Rightarrow> Inl (ValueError ''invalid fill adversary counterexample input'')
             | (False, _) \<Rightarrow> Inr None) (\<lambda>loss.
      let outcome =
            (if evidence_termination e \<noteq> term \<or> evidence_worst_loss e \<noteq> worst
             then (VERIFIER_MISMATCH, Some ''verifier and solver disagree on the worst loss'')
             else if evidence_termination e \<noteq> TERMINATION_CLOSED then (VERIFIER_QUALIFIED, None)
             else if loss \<noteq> evidence_worst_loss e
             then (VERIFIER_MISMATCH, Some ''counterexample fixed-point recomputation disagrees'')
             else (VERIFIER_QUALIFIED, None))
      in Inr \<lparr>verification_status = fst outcome, verification_problem_fingerprint = fill_fingerprint q,
              verification_solver_termination = evidence_termination e,
              verification_solver_worst = evidence_worst_loss e, verification_termination = term,
              verification_worst = worst, verification_counterexample_loss = loss,
              verification_fills = evidence_fills e, verification_scenario = evidence_scenario e,
              verification_reason = snd outcome\<rparr>))))"

definition invalid_verification :: "string \<Rightarrow> FillAdversaryVerification" where
  "invalid_verification reason =
     \<lparr>verification_status = VERIFIER_INVALID, verification_problem_fingerprint = [], verification_solver_termination = [],
      verification_solver_worst = None, verification_termination = [], verification_worst = None,
      verification_counterexample_loss = None, verification_fills = [], verification_scenario = None,
      verification_reason = Some reason\<rparr>"

definition verify_fill_adversary ::
  "FillAdversaryEvidence \<Rightarrow> SolverBackend \<Rightarrow> int \<Rightarrow> FillAdversaryVerification result" where
  "verify_fill_adversary e backend time_limit_ms =
     (case rbind (reread_evidence e) (\<lambda>e'. verify_reread e' backend time_limit_ms) of
        Inr v \<Rightarrow> Inr v
      | Inl err \<Rightarrow> if input_error err then Inr (invalid_verification (error_text err)) else Inl err)"

subsection \<open>The proof record\<close>

datatype PartialFillStatus = PARTIAL_FILL_SAFE | PARTIAL_FILL_UNSAFE | PARTIAL_FILL_UNKNOWN

fun partial_fill_status_value :: "PartialFillStatus \<Rightarrow> string" where
  "partial_fill_status_value PARTIAL_FILL_SAFE = ''PARTIAL_FILL_SAFE''"
| "partial_fill_status_value PARTIAL_FILL_UNSAFE = ''PARTIAL_FILL_UNSAFE''"
| "partial_fill_status_value PARTIAL_FILL_UNKNOWN = ''UNKNOWN''"

record PartialFillProofRecord =
  proof_solution_fingerprint :: string
  proof_solution_payload_fingerprint :: string
  proof_model_fingerprint :: string
  proof_quote_fingerprint :: string
  proof_cost_fingerprint :: string
  proof_order_semantics_fingerprint :: string
  proof_cap_config_version :: string
  proof_max_partial_fill_loss :: int
  proof_max_auto_repair_loss :: int
  solver_lower_bound :: int
  solver_upper_bound :: int
  solver_termination :: string
  solver_evidence_fingerprint :: string
  proof_verifier_status :: VerifierStatus
  verifier_fingerprint :: string
  verifier_evidence_fingerprint :: string
  partial_fill_status :: PartialFillStatus
  partial_fill_fingerprint :: string

definition PARTIAL_FILL_PROOF_SCHEMA_V1 :: string where
  "PARTIAL_FILL_PROOF_SCHEMA_V1 = ''open_trader.prediction_n_leg.partial_fill_proof.v1''"

definition proof_record_fields :: "PartialFillProofRecord \<Rightarrow> (string \<times> json) list" where
  "proof_record_fields r =
     [(''execution_solution_fingerprint'', JStr (proof_solution_fingerprint r)),
      (''execution_solution_payload_fingerprint'', JStr (proof_solution_payload_fingerprint r)),
      (''model_fingerprint'', JStr (proof_model_fingerprint r)), (''quote_fingerprint'', JStr (proof_quote_fingerprint r)),
      (''cost_fingerprint'', JStr (proof_cost_fingerprint r)),
      (''order_semantics_fingerprint'', JStr (proof_order_semantics_fingerprint r)),
      (''cap_config_version'', JStr (proof_cap_config_version r)),
      (''max_partial_fill_loss'', JInt (proof_max_partial_fill_loss r)),
      (''max_auto_repair_loss'', JInt (proof_max_auto_repair_loss r)),
      (''solver_lower_bound'', JInt (solver_lower_bound r)), (''solver_upper_bound'', JInt (solver_upper_bound r)),
      (''solver_termination'', JStr (solver_termination r)),
      (''solver_evidence_fingerprint'', JStr (solver_evidence_fingerprint r)),
      (''verifier_status'', JStr (verifier_status_value (proof_verifier_status r))),
      (''verifier_fingerprint'', JStr (verifier_fingerprint r)),
      (''verifier_evidence_fingerprint'', JStr (verifier_evidence_fingerprint r)),
      (''status'', JStr (partial_fill_status_value (partial_fill_status r))),
      (''schema_version'', JStr PARTIAL_FILL_PROOF_SCHEMA_V1)]"

definition check_proof_record :: "PartialFillProofRecord \<Rightarrow> unit result" where
  "check_proof_record r = all_required
     [require_text (proof_solution_fingerprint r) ''execution_solution_fingerprint'',
      require_text (proof_solution_payload_fingerprint r) ''execution_solution_payload_fingerprint'',
      require_text (proof_model_fingerprint r) ''model_fingerprint'', require_text (proof_quote_fingerprint r) ''quote_fingerprint'',
      require_text (proof_cost_fingerprint r) ''cost_fingerprint'',
      require_text (proof_order_semantics_fingerprint r) ''order_semantics_fingerprint'',
      require_text (proof_cap_config_version r) ''cap_config_version'',
      require_text (solver_termination r) ''solver_termination'',
      require_text (verifier_status_value (proof_verifier_status r)) ''verifier_status'',
      require_text (solver_evidence_fingerprint r) ''solver_evidence_fingerprint'',
      require_text (verifier_fingerprint r) ''verifier_fingerprint'',
      require_text (verifier_evidence_fingerprint r) ''verifier_evidence_fingerprint'',
      require_text (partial_fill_status_value (partial_fill_status r)) ''status'',
      require_text (partial_fill_fingerprint r) ''fingerprint'',
      require_nonnegative (proof_max_partial_fill_loss r) ''max_partial_fill_loss'',
      require_nonnegative (proof_max_auto_repair_loss r) ''max_auto_repair_loss'',
      require_nonnegative (solver_lower_bound r) ''solver_lower_bound'',
      require_nonnegative (solver_upper_bound r) ''solver_upper_bound'',
      require (solver_lower_bound r \<le> solver_upper_bound r) ''solver bounds are inverted'',
      require (partial_fill_fingerprint r = fingerprint (JObj (proof_record_fields r)))
        ''partial-fill proof fingerprint mismatch'']"

definition make_proof_record :: "PartialFillProofRecord \<Rightarrow> PartialFillProofRecord result" where
  "make_proof_record r =
     (let r' = r\<lparr>partial_fill_fingerprint := fingerprint (JObj (proof_record_fields r))\<rparr>
      in rbind (check_proof_record r') (\<lambda>_. Inr r'))"

definition evidence_payload :: "FillAdversaryEvidence \<Rightarrow> json" where
  "evidence_payload e = JObj
     [(''schema_version'', JStr ''open_trader.prediction_partial_fill.fill_adversary_evidence.v1''),
      (''problem'', JObj (fill_problem_fields (evidence_problem e)
         @ [(''fingerprint'', JStr (fill_fingerprint (evidence_problem e)))])),
      (''solver_name'', JStr (evidence_solver_name e)), (''solver_version'', JStr (evidence_solver_version e)),
      (''termination'', JStr (evidence_termination e)), (''worst_loss_units'', json_option JInt (evidence_worst_loss e)),
      (''worst_fill_quantities'', JList (map quantity_payload (evidence_fills e))),
      (''worst_scenario'', json_option (\<lambda>s. JObj [(''atoms'', JList (map selected_atom_payload (scenario_atoms s)))])
         (evidence_scenario e))]"

definition verification_payload :: "FillAdversaryVerification \<Rightarrow> json" where
  "verification_payload v = JObj
     [(''schema_version'', JStr ''open_trader.prediction_partial_fill.fill_adversary_verification.v1''),
      (''status'', JStr (verifier_status_value (verification_status v))),
      (''problem_fingerprint'', JStr (verification_problem_fingerprint v)),
      (''solver_termination'', JStr (verification_solver_termination v)),
      (''solver_worst_loss_units'', json_option JInt (verification_solver_worst v)),
      (''verifier_termination'', JStr (verification_termination v)),
      (''verifier_worst_loss_units'', json_option JInt (verification_worst v)),
      (''counterexample_loss_units'', json_option JInt (verification_counterexample_loss v)),
      (''worst_fill_quantities'', JList (map quantity_payload (verification_fills v))),
      (''worst_scenario'', json_option scenario_payload (verification_scenario v)),
      (''reason'', json_option JStr (verification_reason v))]"

text \<open>The fields every record takes over from the problem.\<close>

definition record_draft :: "FillAdversaryProblem \<Rightarrow> PartialFillProofRecord" where
  "record_draft q =
     \<lparr>proof_solution_fingerprint = fill_solution_fingerprint q,
      proof_solution_payload_fingerprint = fill_solution_payload_fingerprint q,
      proof_model_fingerprint = fill_model_fingerprint q, proof_quote_fingerprint = fill_quote_fingerprint q,
      proof_cost_fingerprint = fill_cost_fingerprint q,
      proof_order_semantics_fingerprint = fill_order_semantics_fingerprint q,
      proof_cap_config_version = fill_cap_config_version q,
      proof_max_partial_fill_loss = fill_max_partial_fill_loss q, proof_max_auto_repair_loss = fill_max_auto_repair_loss q,
      solver_lower_bound = 0, solver_upper_bound = 0, solver_termination = [], solver_evidence_fingerprint = [],
      proof_verifier_status = VERIFIER_NOT_APPLICABLE, verifier_fingerprint = [], verifier_evidence_fingerprint = [],
      partial_fill_status = PARTIAL_FILL_UNKNOWN, partial_fill_fingerprint = []\<rparr>"

definition unknown_record :: "FillAdversaryProblem \<Rightarrow> string \<Rightarrow> PartialFillProofRecord result" where
  "unknown_record q reason =
     (let term = ''UNKNOWN:'' @ reason;
          v = \<lparr>verification_status = VERIFIER_NOT_APPLICABLE, verification_problem_fingerprint = fill_fingerprint q,
               verification_solver_termination = term, verification_solver_worst = None, verification_termination = [],
               verification_worst = None, verification_counterexample_loss = None, verification_fills = [],
               verification_scenario = None, verification_reason = Some reason\<rparr>
      in
      rbind (make_fill_evidence
               \<lparr>evidence_problem = q, evidence_solver_name = ''cp_sat'', evidence_solver_version = ''unavailable'',
                evidence_termination = term, evidence_worst_loss = None, evidence_fills = [], evidence_scenario = None\<rparr>) (\<lambda>e.
      make_proof_record ((record_draft q)
        \<lparr>solver_termination := term, solver_evidence_fingerprint := fingerprint (evidence_payload e),
         verifier_fingerprint := fingerprint (verification_payload v),
         verifier_evidence_fingerprint := fingerprint (verification_payload v)\<rparr>)))"

record FillCounterexample =
  counterexample_fills :: "ActionQuantity list"
  counterexample_scenario :: "SelectedAtom list"
  counterexample_loss :: int
  counterexample_cap :: int
  counterexample_fingerprint :: string

definition make_counterexample :: "int \<Rightarrow> ActionQuantity list \<Rightarrow> SettlementScenario \<Rightarrow> int \<Rightarrow> FillCounterexample" where
  "make_counterexample cap fills sc loss =
     (let filled = filter (\<lambda>x. 0 < quantity_lots x) fills in
      \<lparr>counterexample_fills = filled, counterexample_scenario = scenario_atoms sc, counterexample_loss = loss,
       counterexample_cap = cap,
       counterexample_fingerprint = fingerprint (JObj
         [(''fill_quantities'', JList (map quantity_payload filled)), (''scenario'', scenario_payload sc),
          (''loss_units'', JInt loss), (''cap_units'', JInt cap)])\<rparr>)"

definition closed_record ::
  "FillAdversaryProblem \<Rightarrow> FillAdversaryEvidence \<Rightarrow> FillAdversaryVerification \<Rightarrow> int \<Rightarrow> PartialFillStatus
     \<Rightarrow> PartialFillProofRecord result" where
  "closed_record q e v worst status =
     make_proof_record ((record_draft q)
       \<lparr>solver_lower_bound := worst, solver_upper_bound := worst, solver_termination := TERMINATION_CLOSED,
        solver_evidence_fingerprint := fingerprint (evidence_payload e), proof_verifier_status := VERIFIER_QUALIFIED,
        verifier_fingerprint := fingerprint (verification_payload v),
        verifier_evidence_fingerprint := fingerprint (JObj
          [(''termination'', JStr (verification_termination v)),
           (''worst_loss_units'', json_option JInt (verification_worst v)),
           (''counterexample_loss_units'', json_option JInt (verification_counterexample_loss v)),
           (''fills'', JList (map quantity_payload (verification_fills v))),
           (''scenario'', json_option scenario_payload (verification_scenario v))]),
        partial_fill_status := status\<rparr>)"

text \<open>The last step, once the verifier agrees: compare the worst loss with the cap.\<close>

definition conclude_proof ::
  "FillAdversaryProblem \<Rightarrow> FillAdversaryEvidence \<Rightarrow> FillAdversaryVerification
     \<Rightarrow> (PartialFillProofRecord \<times> FillCounterexample option) result" where
  "conclude_proof q e v =
     (case (evidence_worst_loss e, verification_counterexample_loss v, evidence_scenario e) of
        (Some worst, Some loss, Some sc) \<Rightarrow>
          if worst \<le> fill_max_partial_fill_loss q
          then rbind (closed_record q e v worst PARTIAL_FILL_SAFE) (\<lambda>r. Inr (r, None))
          else if fill_max_partial_fill_loss q < loss
          then rbind (closed_record q e v worst PARTIAL_FILL_UNSAFE) (\<lambda>r.
               Inr (r, Some (make_counterexample (fill_max_partial_fill_loss q) (evidence_fills e) sc loss)))
          else rbind (unknown_record q ''VERIFIER_MISMATCH'') (\<lambda>r. Inr (r, None))
      | _ \<Rightarrow> rbind (unknown_record q ''VERIFIER_MISMATCH'') (\<lambda>r. Inr (r, None)))"

text \<open>The backend is asked twice, once here and once by the verifier, and may answer differently: \<open>again\<close> is how it answers the second time.\<close>

definition prove_partial_fill ::
  "FillAdversaryProblem \<Rightarrow> SolverBackend \<Rightarrow> SolverBackend \<Rightarrow> string \<Rightarrow> string \<Rightarrow> int
     \<Rightarrow> (PartialFillProofRecord \<times> FillCounterexample option) result" where
  "prove_partial_fill q backend again name version time_limit_ms =
     (let unknown = (\<lambda>reason. rbind (unknown_record q reason) (\<lambda>r. Inr (r, None))) in
      if time_limit_ms \<le> 0 then Inl (ValueError ''time_limit_ms must be a positive integer'')
      else if list_ex (\<lambda>l. fill_semantics l = UNKNOWN_SEMANTICS) (fill_legs q) then unknown ''UNKNOWN_ORDER_SEMANTICS''
      else
        case compile_fill_adversary q of
          Inl err \<Rightarrow> if input_error err then unknown (''INVALID_INPUT:'' @ error_text err) else Inl err
        | Inr c \<Rightarrow>
            case checked_backend_solve (fill_model c) backend time_limit_ms of
              Inl err \<Rightarrow>
                if err = ModuleNotFoundError then unknown ''BACKEND_UNAVAILABLE''
                else if input_error err then unknown (''INVALID_INPUT:'' @ error_text err) else Inl err
            | Inr r \<Rightarrow>
                if backend_status r \<noteq> NATIVE_OPTIMAL
                then unknown (if backend_status r = NATIVE_UNKNOWN then ''TIMEOUT'' else ''UNCLOSED'')
                else
                  rbind (make_fill_evidence
                    \<lparr>evidence_problem = q, evidence_solver_name = name, evidence_solver_version = version,
                     evidence_termination = TERMINATION_CLOSED, evidence_worst_loss = objective_value r,
                     evidence_fills = fills_from_values c (backend_values r),
                     evidence_scenario = Some (scenario_from_values q (backend_values r))\<rparr>) (\<lambda>e.
                  rbind (verify_fill_adversary e again time_limit_ms) (\<lambda>v.
                  if verification_status v \<noteq> VERIFIER_QUALIFIED then unknown ''VERIFIER_MISMATCH''
                  else conclude_proof q e v)))"

subsection \<open>The exhaustive reference\<close>

record FillAdversaryOracleResult =
  oracle_closed :: bool
  oracle_unknown_reason :: "string option"
  oracle_worst_loss :: "int option"
  oracle_worst_fills :: "ActionQuantity list option"
  oracle_worst_scenario :: "SettlementScenario option"

definition oracle_unknown :: "string \<Rightarrow> FillAdversaryOracleResult" where
  "oracle_unknown reason =
     \<lparr>oracle_closed = False, oracle_unknown_reason = Some reason, oracle_worst_loss = None, oracle_worst_fills = None,
      oracle_worst_scenario = None\<rparr>"

definition fill_domain :: "FillLeg \<Rightarrow> int list" where
  "fill_domain l = (if fill_semantics l = ATOMIC then [0, fill_quantity_lots l] else [0..fill_quantity_lots l])"

fun fill_vector_count :: "int \<Rightarrow> FillLeg list \<Rightarrow> int \<Rightarrow> bool" where
  "fill_vector_count limit [] n = True"
| "fill_vector_count limit (l # ls) n =
     (let n' = n * int (length (fill_domain l)) in \<not> limit < n' \<and> fill_vector_count limit ls n')"

definition fill_quantities_of :: "FillLeg list \<Rightarrow> int list \<Rightarrow> ActionQuantity list" where
  "fill_quantities_of ls fs = map2 (\<lambda>l f. \<lparr>quantity_action_id = fill_action_id l, quantity_lots = f\<rparr>) ls fs"

type_synonym worst_so_far = "int \<times> ActionQuantity list \<times> SettlementScenario option"

definition keep_larger_loss ::
  "FillAdversaryProblem \<Rightarrow> ActionQuantity list \<Rightarrow> SettlementScenario \<Rightarrow> worst_so_far \<Rightarrow> worst_so_far result" where
  "keep_larger_loss q fills sc best =
     rbind (counterexample_loss_units q fills sc) (\<lambda>loss.
     Inr (if fst best < loss then (loss, fills, Some sc) else best))"

definition enumerate_fill_adversary :: "FillAdversaryProblem \<Rightarrow> OracleBudget \<Rightarrow> FillAdversaryOracleResult result" where
  "enumerate_fill_adversary q budget =
     (if list_ex (\<lambda>l. fill_semantics l = UNKNOWN_SEMANTICS) (fill_legs q)
      then Inr (oracle_unknown ''UNKNOWN_ORDER_SEMANTICS'')
      else
        rbind (enumerate_allowed_scenarios (fill_source_problem q) budget) (\<lambda>en.
        case scenarios en of
          None \<Rightarrow>
            Inr (oracle_unknown
              (case enumeration_unknown_reason en of
                 Some reason \<Rightarrow> unknown_reason_value reason | None \<Rightarrow> ''SCENARIO_ENUMERATION_FAILED''))
        | Some scs \<Rightarrow>
            if \<not> fill_vector_count (max_quantity_vectors budget) (fill_legs q) 1
            then Inr (oracle_unknown ''ORACLE_FILL_VECTOR_LIMIT_EXCEEDED'')
            else
              rbind (result_fold (\<lambda>fs. result_fold (keep_larger_loss q (fill_quantities_of (fill_legs q) fs)) scs)
                       (product_lists (map fill_domain (fill_legs q))) (0, [], None)) (\<lambda>best.
              Inr \<lparr>oracle_closed = True, oracle_unknown_reason = None, oracle_worst_loss = Some (fst best),
                   oracle_worst_fills = Some (fst (snd best)), oracle_worst_scenario = snd (snd best)\<rparr>)))"

end
