(* ===== verification/NLeg_Service.thy ===== *)
theory NLeg_Service
  imports NLeg_Requests NLeg_Execution Partial_Fill
begin

section \<open>Admission and the durable reducer\<close>

text \<open>
  The transactions of \<^verbatim>\<open>prediction_arbitrage_store.py\<close> that change a batch, and the execution service on top of them
  (\<^verbatim>\<open>prediction_n_leg_execution.py\<close>): the lineage lock over the ancestors of an opportunity, the admission of a batch,
  the transition log with its idempotency keys, the acknowledgement of an incident and the reset of the breaker. Each
  operation is one transaction: an error leaves every table as it was. The clock is an argument.
\<close>

subsection \<open>Lineage\<close>

definition n_leg_batch :: "NLegStore \<Rightarrow> string \<Rightarrow> Batch option" where
  "n_leg_batch s i = map_of (batch_rows s) i"

text \<open>One round of the closure: the predecessors of the frontier that are new, in the order they are met.\<close>

definition new_ancestors :: "LineageRow list \<Rightarrow> string list \<Rightarrow> string list \<Rightarrow> string list" where
  "new_ancestors rows frontier ancestors =
     first_occurrences (filter (\<lambda>x. x \<notin> set ancestors)
       (concat (map predecessor_lineage_ids (filter (\<lambda>r. lineage_id r \<in> set frontier) rows))))"

definition all_predecessors :: "LineageRow list \<Rightarrow> string set" where
  "all_predecessors rows = (\<Union>r \<in> set rows. set (predecessor_lineage_ids r))"

function ancestor_closure :: "LineageRow list \<Rightarrow> string list \<Rightarrow> string list \<Rightarrow> string list" where
  "ancestor_closure rows frontier ancestors =
     (if frontier = [] then ancestors
      else let new = new_ancestors rows frontier ancestors in ancestor_closure rows new (ancestors @ new))"
  by pat_completeness auto

lemma new_ancestors_set:
  "set (new_ancestors rows frontier ancestors)
     = (\<Union>r \<in> {r \<in> set rows. lineage_id r \<in> set frontier}. set (predecessor_lineage_ids r)) - set ancestors"
  by (auto simp: new_ancestors_def)

termination ancestor_closure
proof (relation "(\<lambda>(rows, frontier, ancestors). card (all_predecessors rows - set ancestors)) <*mlex*>
    measure (\<lambda>(rows, frontier, ancestors). length frontier)")
  show "wf ((\<lambda>(rows, frontier, ancestors). card (all_predecessors rows - set ancestors)) <*mlex*>
      measure (\<lambda>(rows, frontier, ancestors). length frontier))"
    by (intro wf_mlex wf_measure)
  fix rows frontier ancestors new
  assume ne: "frontier \<noteq> []" and new: "new = new_ancestors rows frontier ancestors"
  have sub: "set new \<subseteq> all_predecessors rows - set ancestors"
    by (auto simp: new new_ancestors_set all_predecessors_def)
  have fin: "finite (all_predecessors rows - set ancestors)"
    by (simp add: all_predecessors_def)
  show "((rows, new, ancestors @ new), rows, frontier, ancestors)
      \<in> (\<lambda>(rows, frontier, ancestors). card (all_predecessors rows - set ancestors)) <*mlex*>
        measure (\<lambda>(rows, frontier, ancestors). length frontier)"
  proof (cases "new = []")
    case True
    then show ?thesis
      using ne by (intro mlex_leq) auto
  next
    case False
    then have "last new \<in> set new"
      by simp
    then have "all_predecessors rows - set (ancestors @ new) \<subset> all_predecessors rows - set ancestors"
      using sub by auto
    then show ?thesis
      using psubset_card_mono[OF fin] by (intro mlex_less) simp
  qed
qed

declare ancestor_closure.simps [simp del]

definition lineage_ancestors :: "LineageRow list \<Rightarrow> string \<Rightarrow> string list" where
  "lineage_ancestors rows i = filter (\<lambda>x. x \<noteq> i) (ancestor_closure rows [i] [])"

definition rearm_evidence :: "NLegStore \<Rightarrow> string \<Rightarrow> instant \<Rightarrow> bool" where
  "rearm_evidence s current claimed_at =
     (case episode_closes s of
        None \<Rightarrow> False
      | Some rows \<Rightarrow>
          list_ex (\<lambda>e. closed_lineage_id e = current \<and> episode_close_reason e = Some ''NO_QUALIFIED_OPPORTUNITY''
                     \<and> (case episode_closed_at e of None \<Rightarrow> False | Some t \<Rightarrow> claimed_at < t)) rows)"

text \<open>\<open>ORDER BY (status='ACTIVE') DESC, generation DESC LIMIT 1\<close>.\<close>

definition preferred_row :: "LineageRow \<Rightarrow> LineageRow \<Rightarrow> bool" where
  "preferred_row a b \<longleftrightarrow>
     (let x = lineage_status a = ''ACTIVE''; y = lineage_status b = ''ACTIVE'' in
      x \<and> \<not> y \<or> x = y \<and> lineage_generation b < lineage_generation a)"

definition row_by_lineage :: "LineageRow list \<Rightarrow> string \<Rightarrow> LineageRow option" where
  "row_by_lineage rows i =
     (case filter (\<lambda>r. lineage_id r = i) rows of
        [] \<Rightarrow> None
      | r # rs \<Rightarrow> Some (fold (\<lambda>x best. if preferred_row x best then x else best) rs r))"

definition row_by_component :: "LineageRow list \<Rightarrow> string \<Rightarrow> LineageRow option" where
  "row_by_component rows c = find (\<lambda>r. lineage_component_id r = c) rows"

definition legacy_prefix :: string where
  "legacy_prefix = ''lineage:''"

definition row_by_display :: "LineageRow list \<Rightarrow> string \<Rightarrow> LineageRow option" where
  "row_by_display rows frozen =
     (if frozen = [] then None
      else if starts_with frozen legacy_prefix
      then (if drop 8 frozen = [] then None else row_by_component rows (drop 8 frozen))
      else row_by_lineage rows frozen)"

text \<open>The claims written as \<open>lineage:<component>\<close>; SQL's LIKE ignores the case of ASCII letters.\<close>

definition legacy_claims :: "NLegStore \<Rightarrow> string list" where
  "legacy_claims s =
     map (drop 8) (filter (\<lambda>i. starts_with (map lower_char i) legacy_prefix) (map claim_lineage_id (claim_rows s)))"

definition blocked_lineages :: "NLegStore \<Rightarrow> LineageRow list \<Rightarrow> string \<Rightarrow> string set" where
  "blocked_lineages s rows current =
     insert current (set (lineage_ancestors rows current))
     \<union> {lineage_id r | r c. c \<in> set (legacy_claims s) \<and> row_by_component rows c = Some r}"

text \<open>The newest claim is taken over instants; the code takes the largest text, which is the same in the one format it writes.\<close>

definition family_lock :: "NLegStore \<Rightarrow> LineageRow list \<Rightarrow> string \<Rightarrow> string \<Rightarrow> string option \<times> string option" where
  "family_lock s rows identity current =
     (let hits = filter (\<lambda>c. claim_lineage_id c \<in> blocked_lineages s rows current) (claim_rows s) in
      if current \<in> claim_lineage_id ` set hits
         \<or> identity \<in> set (legacy_claims s) \<and> row_by_component rows identity = None
      then (None, Some ''N_LEG_LINEAGE_ALREADY_CLAIMED'')
      else if hits \<noteq> [] \<and> \<not> rearm_evidence s current (Max (claim_created_at ` set hits))
      then (None, Some ''N_LEG_LINEAGE_INHERITED_CLAIMED'')
      else (Some current, None))"

definition lineage_lock_decision :: "NLegStore \<Rightarrow> string option \<Rightarrow> string \<Rightarrow> string option \<times> string option" where
  "lineage_lock_decision s component frozen =
     (case component of
        Some c \<Rightarrow>
          if c \<noteq> []
          then (case lineage_rows s of
                  None \<Rightarrow> (None, Some ''N_LEG_LINEAGE_UNKNOWN'')
                | Some rows \<Rightarrow>
                    (case row_by_component rows c of
                       None \<Rightarrow> (None, Some ''N_LEG_LINEAGE_UNKNOWN'')
                     | Some r \<Rightarrow> family_lock s rows c (lineage_id r)))
          else (case lineage_rows s of
                  None \<Rightarrow> (None, None)
                | Some rows \<Rightarrow>
                    (case row_by_display rows frozen of
                       None \<Rightarrow> (None, None)
                     | Some r \<Rightarrow> family_lock s rows (lineage_component_id r) (lineage_id r)))
      | None \<Rightarrow>
          (case lineage_rows s of
             None \<Rightarrow> (None, None)
           | Some rows \<Rightarrow>
               (case row_by_display rows frozen of
                  None \<Rightarrow> (None, None)
                | Some r \<Rightarrow> family_lock s rows (lineage_component_id r) (lineage_id r))))"

definition lineage_claimed :: "NLegStore \<Rightarrow> string \<Rightarrow> bool" where
  "lineage_claimed s lineage \<longleftrightarrow> list_ex (\<lambda>c. claim_lineage_id c = lineage) (claim_rows s)"

definition n_leg_lineage_admission_check :: "NLegStore \<Rightarrow> string \<Rightarrow> string option \<times> string option" where
  "n_leg_lineage_admission_check s identity =
     (if lineage_rows s = None then (None, None)
      else
        let (claim, reason) = lineage_lock_decision s None identity in
        if claim = None \<and> reason = None \<and> lineage_claimed s identity
        then (None, Some ''N_LEG_LINEAGE_ALREADY_CLAIMED'') else (claim, reason))"

subsection \<open>Admission\<close>

text \<open>Python's equality on decoded JSON: \<open>True == 1\<close>, and objects do not depend on the order of their keys.\<close>

fun py_equal :: "json \<Rightarrow> json \<Rightarrow> bool" where
  "py_equal (JBool a) (JInt n) = (n = of_bool a)"
| "py_equal (JInt n) (JBool a) = (n = of_bool a)"
| "py_equal (JList []) (JList []) = True"
| "py_equal (JList (x # xs)) (JList (y # ys)) = (py_equal x y \<and> py_equal (JList xs) (JList ys))"
| "py_equal (JObj xs) (JObj ys) =
     (length xs = length ys
      \<and> list_all (\<lambda>kv. case map_of ys (fst kv) of None \<Rightarrow> False | Some w \<Rightarrow> py_equal (snd kv) w) xs)"
| "py_equal a b = (a = b)"

definition CAP_NAMES :: "string list" where
  "CAP_NAMES = [''max_per_trade_cost_units'', ''max_total_unsettled_capital_units'', ''max_partial_fill_loss_units'',
     ''max_auto_repair_loss_units'']"

text \<open>\<open>int(config.get(key) or 0)\<close>: JSON null, false, an empty text and containers without items count as absent.\<close>

fun falsy :: "json \<Rightarrow> bool" where
  "falsy JNull = True"
| "falsy (JBool b) = (\<not> b)"
| "falsy (JInt n) = (n = 0)"
| "falsy (JStr t) = (t = [])"
| "falsy (JList xs) = (xs = [])"
| "falsy (JObj kvs) = (kvs = [])"

fun int_digits :: "string \<Rightarrow> bool" where
  "int_digits [] = False"
| "int_digits [ch] = is_digit ch"
| "int_digits (ch # d # s) = (is_digit ch \<and> (if d = CHR ''_'' then int_digits s else int_digits (d # s)))"

definition parse_int_text :: "string \<Rightarrow> int option" where
  "parse_int_text t =
     (let (negative, body) = split_sign (strip_text t);
          n = int (number_of_digits (filter (\<lambda>ch. ch \<noteq> CHR ''_'') body))
      in if int_digits body then Some (if negative then - n else n) else None)"

fun int_of_json :: "json \<Rightarrow> int result" where
  "int_of_json (JInt n) = Inr n"
| "int_of_json (JBool b) = Inr (of_bool b)"
| "int_of_json (JStr t) = (case parse_int_text t of None \<Rightarrow> Inl (ValueError ''invalid literal for int()'') | Some n \<Rightarrow> Inr n)"
| "int_of_json _ = Inl TypeError"

definition config_units :: "json \<Rightarrow> string \<Rightarrow> int result" where
  "config_units config name =
     (case config of
        JObj kvs \<Rightarrow>
          (case map_of kvs name of
             None \<Rightarrow> Inr 0 | Some v \<Rightarrow> if falsy v then Inr 0 else int_of_json v)
      | _ \<Rightarrow> Inl (ValueError ''invalid stored payload''))"

definition caps_fingerprint :: "NLegStore \<Rightarrow> string option" where
  "caps_fingerprint s =
     (case n_leg_safety_config_latest s of
        None \<Rightarrow> None
      | Some (_, config) \<Rightarrow>
          (case result_map (config_units config) CAP_NAMES of
             Inl _ \<Rightarrow> None
           | Inr units \<Rightarrow> Some (fingerprint (JObj (zip CAP_NAMES (map JInt units))))))"

definition unsettled_cap :: "NLegStore \<Rightarrow> int" where
  "unsettled_cap s =
     (case n_leg_safety_config_latest s of
        None \<Rightarrow> 0
      | Some (_, config) \<Rightarrow>
          (case config_units config ''max_total_unsettled_capital_units'' of Inl _ \<Rightarrow> 0 | Inr n \<Rightarrow> max 0 n))"

definition enabled_scopes_payload :: "(string \<times> int) list \<Rightarrow> json" where
  "enabled_scopes_payload scopes =
     JList (map (\<lambda>(i, v). JObj [(''scope_id'', JStr i), (''scope_version'', JInt v)]) scopes)"

text \<open>\<open>str(value or "")\<close>; no scope is named like the text of a container.\<close>

fun scalar_text :: "json \<Rightarrow> string option" where
  "scalar_text (JStr t) = Some t"
| "scalar_text (JInt n) = Some (if n = 0 then [] else string_of_int n)"
| "scalar_text (JBool b) = Some (if b then ''True'' else [])"
| "scalar_text JNull = Some []"
| "scalar_text (JList xs) = (if xs = [] then Some [] else None)"
| "scalar_text (JObj kvs) = (if kvs = [] then Some [] else None)"

definition expected_scope :: "NLegStore \<Rightarrow> (string \<times> json) list \<Rightarrow> Scope option" where
  "expected_scope s expected =
     (case scalar_text (or_else (map_of expected ''scope_id'') JNull) of
        None \<Rightarrow> None
      | Some i \<Rightarrow> if i = [] then None else n_leg_scope s i)"

definition admission_facts :: "NLegStore \<Rightarrow> NLegControl \<Rightarrow> Batch \<Rightarrow> Scope option \<Rightarrow> (string \<times> json) list" where
  "admission_facts s control b scope =
     [(''contract_generation'', JInt (contract_generation control)),
      (''qualification_policy_version'', JInt (qualification_policy_version control)),
      (''mode'', JStr (control_mode control)), (''breaker_closed'', JBool (\<not> breaker_open control)),
      (''enabled_execution_scope_version'', enabled_scopes_payload (enabled_execution_scope_version control)),
      (''execution_solution_fingerprint'', JStr (execution_solution_fingerprint b)),
      (''account_snapshot_fingerprint'', JStr (account_fingerprint b)),
      (''capability'', json_option (\<lambda>x. JStr (scope_capability x)) scope),
      (''scope_version'', json_option (\<lambda>x. JInt (scope_version x)) scope),
      (''caps_fingerprint'', json_option JStr (caps_fingerprint s))]"

definition admission_version_mismatch :: "NLegStore \<Rightarrow> NLegControl \<Rightarrow> Batch \<Rightarrow> (string \<times> json) list \<Rightarrow> bool" where
  "admission_version_mismatch s control b expected =
     list_ex (\<lambda>(key, current). case map_of expected key of None \<Rightarrow> False | Some v \<Rightarrow> \<not> py_equal v current)
       (admission_facts s control b (expected_scope s expected))"

definition admitted :: "instant \<Rightarrow> string \<Rightarrow> bool \<Rightarrow> Batch \<Rightarrow> NLegStore \<Rightarrow> NLegStore" where
  "admitted now lineage resolved b s =
     (let control = n_leg_control s;
          stored = b\<lparr>prior_unsettled_capital_units := total_unsettled_capital_units control,
                     batch_lineage_id := (if resolved then lineage else batch_lineage_id b)\<rparr>
      in set_control (\<lambda>c. c\<lparr>control_mode := batch_mode b, active_batch_id := Some (execution_batch_id b),
           total_unsettled_capital_units := total_unsettled_capital_units control + batch_unsettled_capital_units b\<rparr>)
         (s\<lparr>claim_rows := claim_rows s @ [\<lparr>claim_lineage_id = lineage, claim_opportunity_id = opportunity_episode_id b,
              claim_batch_id = execution_batch_id b, claim_created_at = now\<rparr>],
            batch_rows := batch_rows s @ [(execution_batch_id b, stored)]\<rparr>))"

definition valid_entry :: "Batch \<Rightarrow> bool" where
  "valid_entry b \<longleftrightarrow>
     execution_batch_id b \<noteq> [] \<and> opportunity_episode_id b \<noteq> [] \<and> batch_lineage_id b \<noteq> []
     \<and> batch_mode b \<in> {''MANUAL'', ''AUTO''} \<and> 0 \<le> batch_unsettled_capital_units b"

definition admission_stale :: "NLegStore \<Rightarrow> Batch \<Rightarrow> (string \<times> json) list option \<Rightarrow> bool" where
  "admission_stale s b expected \<longleftrightarrow>
     (case expected of None \<Rightarrow> False | Some facts \<Rightarrow> admission_version_mismatch s (n_leg_control s) b facts)"

definition over_unsettled_cap :: "NLegStore \<Rightarrow> Batch \<Rightarrow> bool" where
  "over_unsettled_cap s b \<longleftrightarrow>
     0 < unsettled_cap s
     \<and> unsettled_cap s < total_unsettled_capital_units (n_leg_control s) + batch_unsettled_capital_units b"

definition n_leg_create_batch :: "instant \<Rightarrow> Batch \<Rightarrow> (string \<times> json) list option \<Rightarrow> Batch op" where
  "n_leg_create_batch now b expected =
     op_bind (op_guard (valid_entry b) (ValueError ''invalid n-leg batch'')) (\<lambda>_.
     op_bind (op_read (\<lambda>s. n_leg_batch s (execution_batch_id b))) (\<lambda>existing.
     case existing of
       Some row \<Rightarrow>
         if entry_fingerprint row \<noteq> entry_fingerprint b then op_raise (ValueError ''N_LEG_BATCH_ID_CONFLICT'')
         else op_return row
     | None \<Rightarrow>
         op_bind (op_read lp_session_active) (\<lambda>lp.
         op_bind (op_guard (\<not> lp) (ValueError ''N_LEG_ACTIVE_LP_SESSION'')) (\<lambda>_.
         op_bind (op_read n_leg_control) (\<lambda>control.
         op_bind (op_guard (\<not> breaker_open control) (ValueError ''N_LEG_BREAKER_OPEN'')) (\<lambda>_.
         op_bind (op_guard (active_batch_id control = None) (ValueError ''N_LEG_ACTIVE_BATCH_EXISTS'')) (\<lambda>_.
         op_bind (op_read (\<lambda>s. lineage_lock_decision s (batch_component_id b) (batch_lineage_id b))) (\<lambda>(claim, reason).
         op_bind (op_guard (reason = None) (ValueError (or_else reason []))) (\<lambda>_.
         op_bind (op_read (\<lambda>s. claim = None \<and> lineage_claimed s (batch_lineage_id b))) (\<lambda>claimed.
         op_bind (op_guard (\<not> claimed) (ValueError ''N_LEG_LINEAGE_ALREADY_CLAIMED'')) (\<lambda>_.
         op_bind (op_read (\<lambda>s. admission_stale s b expected)) (\<lambda>stale.
         op_bind (op_guard (\<not> stale) (ValueError ''N_LEG_ADMISSION_VERSION_STALE'')) (\<lambda>_.
         op_bind (op_read (\<lambda>s. over_unsettled_cap s b)) (\<lambda>over.
         op_bind (op_guard (\<not> over) (ValueError ''N_LEG_ADMISSION_UNSETTLED_CAP'')) (\<lambda>_.
         op_bind (op_update (admitted now (or_else claim (batch_lineage_id b)) (claim \<noteq> None) b)) (\<lambda>_.
         op_bind (op_read (\<lambda>s. n_leg_batch s (execution_batch_id b))) (\<lambda>stored.
         case stored of None \<Rightarrow> op_raise (ValueError ''N_LEG_BATCH_NOT_FOUND'') | Some row \<Rightarrow> op_return row)))))))))))))))))"

subsection \<open>Transitions\<close>

definition has_transition :: "NLegStore \<Rightarrow> string \<Rightarrow> string \<Rightarrow> bool" where
  "has_transition s i key \<longleftrightarrow> list_ex (\<lambda>t. transition_batch_id t = i \<and> transition_key t = key) (transition_rows s)"

definition add_transition :: "string \<Rightarrow> string \<Rightarrow> string \<Rightarrow> TransitionPayload \<Rightarrow> NLegStore \<Rightarrow> NLegStore" where
  "add_transition i kind key payload s =
     s\<lparr>transition_rows := transition_rows s
         @ [\<lparr>transition_batch_id = i, transition_kind = kind, transition_key = key, transition_payload = payload\<rparr>]\<rparr>"

definition n_leg_transition_append :: "string \<Rightarrow> string \<Rightarrow> string \<Rightarrow> json \<Rightarrow> bool op" where
  "n_leg_transition_append i kind key payload =
     op_bind (op_guard (kind \<noteq> []) (ValueError ''invalid n-leg transition kind'')) (\<lambda>_.
     op_bind (op_read (\<lambda>s. n_leg_batch s i)) (\<lambda>found.
     op_bind (op_guard (found \<noteq> None) (ValueError ''N_LEG_BATCH_NOT_FOUND'')) (\<lambda>_.
     op_bind (op_lift (dump_execution_payload payload)) (\<lambda>encoded.
     op_bind (op_read (\<lambda>s. has_transition s i key)) (\<lambda>recorded.
     op_bind (op_when (\<not> recorded) (op_update (add_transition i kind key (Recorded encoded)))) (\<lambda>_.
     op_return (\<not> recorded)))))))"

definition write_batch :: "string \<Rightarrow> Batch \<Rightarrow> NLegStore \<Rightarrow> NLegStore" where
  "write_batch i b s = s\<lparr>batch_rows := AList.update i b (batch_rows s)\<rparr>"

definition n_leg_reduce ::
  "string \<Rightarrow> string \<Rightarrow> string \<Rightarrow> (Batch \<Rightarrow> NLegControl \<Rightarrow> (Batch \<times> NLegControl \<times> bool) result) \<Rightarrow> Batch op" where
  "n_leg_reduce i kind key reducer =
     op_bind (op_guard (kind \<noteq> []) (ValueError ''invalid n-leg transition kind'')) (\<lambda>_.
     op_bind (op_read (\<lambda>s. (has_transition s i key, n_leg_batch s i, n_leg_control s))) (\<lambda>(recorded, found, control).
     case found of
       None \<Rightarrow> op_raise (ValueError ''N_LEG_BATCH_NOT_FOUND'')
     | Some b \<Rightarrow>
         if recorded then op_return b
         else
           op_bind (op_lift (reducer b control)) (\<lambda>(b', control', changed).
           if \<not> changed then op_return b
           else
             op_bind (op_update (\<lambda>s. add_transition i kind key (Reduced b' control')
               (set_control (\<lambda>_. control') (write_batch i b' s)))) (\<lambda>_.
             op_return b'))))"

subsection \<open>Incidents\<close>

definition recorded_occupancy :: "Batch \<Rightarrow> int" where
  "recorded_occupancy b = (\<Sum>r \<leftarrow> reservations b. remaining_units r + holding_units r)"

definition acknowledged_batch :: "instant \<Rightarrow> (string \<times> json) list \<Rightarrow> Batch \<Rightarrow> Batch" where
  "acknowledged_batch now ack b =
     b\<lparr>incident := Some (case incident b of
           None \<Rightarrow> \<lparr>incident_reason = [], repair_status = ''ACKNOWLEDGED'', acknowledgement = Some (JObj ack), acknowledged_at = Some now\<rparr>
         | Some i \<Rightarrow> i\<lparr>repair_status := ''ACKNOWLEDGED'', acknowledgement := Some (JObj ack), acknowledged_at := Some now\<rparr>),
       batch_state := INCIDENT_ACKNOWLEDGED\<rparr>"

text \<open>What the stored payload keeps of a batch: only the acknowledgement comes from outside and is redacted.\<close>

definition stored_batch :: "Batch \<Rightarrow> Batch" where
  "stored_batch b =
     b\<lparr>incident := map_option (\<lambda>i. i\<lparr>acknowledgement := map_option (safe_value True) (acknowledgement i)\<rparr>) (incident b)\<rparr>"

definition acknowledgement_payload :: "string \<Rightarrow> instant \<Rightarrow> (string \<times> json) list \<Rightarrow> json" where
  "acknowledgement_payload i now ack =
     JObj (AList.update ''acknowledged_at'' (json_datetime now) (fold (\<lambda>(k, v). AList.update k v) ack [(''batch'', JStr i)]))"

definition n_leg_acknowledge_incident :: "instant \<Rightarrow> string \<Rightarrow> (string \<times> json) list \<Rightarrow> Batch op" where
  "n_leg_acknowledge_incident now i ack =
     op_bind (op_read (\<lambda>s. n_leg_batch s i)) (\<lambda>found.
     case found of
       None \<Rightarrow> op_raise (ValueError ''N_LEG_BATCH_NOT_FOUND'')
     | Some b \<Rightarrow>
         op_bind (op_guard (batch_state b = INCIDENT) (ValueError ''N_LEG_INCIDENT_NOT_ACTIVE'')) (\<lambda>_.
         op_bind (op_guard (legs b \<noteq> []) (ValueError ''N_LEG_INCIDENT_UNKNOWABLE'')) (\<lambda>_.
         op_bind (op_guard (all_terminal b) (ValueError ''N_LEG_INCIDENT_UNKNOWN_RECEIPT'')) (\<lambda>_.
         op_bind (op_guard (unresolved_conflicts b = []) (ValueError ''N_LEG_INCIDENT_UNRESOLVED_CONFLICT'')) (\<lambda>_.
         op_bind (op_guard (recorded_occupancy b = batch_unsettled_capital_units b)
                    (ValueError ''N_LEG_INCIDENT_LEDGER_MISMATCH'')) (\<lambda>_.
         op_bind (op_lift (dump_execution_payload (acknowledgement_payload i now ack))) (\<lambda>text.
         op_bind (op_update (\<lambda>s.
           let s1 = write_batch i (stored_batch (acknowledged_batch now ack b)) s;
               s2 = (if control_row s1 \<noteq> None \<and> active_batch_id (n_leg_control s1) = Some i
                     then set_control (\<lambda>c. c\<lparr>active_batch_id := None\<rparr>) s1 else s1);
               key = ''incident-acknowledge:'' @ i
           in if has_transition s2 i key then s2
              else add_transition i ''INCIDENT_ACKNOWLEDGED'' key (Recorded text) s2)) (\<lambda>_.
         op_return (acknowledged_batch now ack b)))))))))"

definition last_acknowledgement :: "NLegStore \<Rightarrow> json option" where
  "last_acknowledgement s =
     (case rev (filter (\<lambda>t. transition_kind t = ''INCIDENT_ACKNOWLEDGED'') (transition_rows s)) of
        t # _ \<Rightarrow> (case transition_payload t of Recorded payload \<Rightarrow> Some payload | Reduced _ _ \<Rightarrow> None)
      | [] \<Rightarrow> None)"

definition n_leg_breaker_reset :: "string op" where
  "n_leg_breaker_reset =
     op_bind (op_read n_leg_control) (\<lambda>control.
     if \<not> breaker_open control then op_return ''breaker_not_open''
     else
       op_bind (op_read last_acknowledgement) (\<lambda>found.
       case found of
         None \<Rightarrow> op_raise (ValueError ''N_LEG_BREAKER_INCIDENT_NOT_ACKNOWLEDGED'')
       | Some payload \<Rightarrow>
           op_bind (op_guard (case payload of JObj kvs \<Rightarrow> map_of kvs ''reconciliation'' = Some (JStr ''fresh_clean'') | _ \<Rightarrow> False)
                      (ValueError ''N_LEG_BREAKER_RECONCILIATION_REQUIRED'')) (\<lambda>_.
           op_bind (op_update (set_control (\<lambda>c. c\<lparr>breaker_open := False, breaker_reason := None\<rparr>))) (\<lambda>_.
           op_return ''reset_confirmed''))))"

subsection \<open>The execution service\<close>

definition receipt_key :: "OrderReceipt \<Rightarrow> string" where
  "receipt_key r = ''receipt:'' @ receipt_id r @ '':'' @ fingerprint (semantic_payload r)"

definition apply_receipt :: "OrderReceipt \<Rightarrow> RepairContext option \<Rightarrow> Batch op" where
  "apply_receipt r ctx = n_leg_reduce (receipt_batch_id r) ''ORDER_RECEIPT'' (receipt_key r) (reduce_apply r ctx)"

text \<open>\<open>complete_reconciliation\<close>: the key of the transition is the fingerprint of the whole context.\<close>

fun outcome_value :: "ResolutionOutcome \<Rightarrow> string" where
  "outcome_value TERMINAL_OUTCOME = ''TERMINAL''"
| "outcome_value NOT_FOUND_OUTCOME = ''NOT_FOUND''"

definition resolution_payload :: "ConflictResolutionEvidence \<Rightarrow> json" where
  "resolution_payload v =
     JObj [(''conflict_id'', JStr (evidence_conflict_id v)), (''client_order_id'', JStr (evidence_client_order_id v)),
       (''venue_order_id'', json_option JStr (evidence_venue_order_id v)), (''venue_id'', JStr (evidence_venue_id v)),
       (''account_id'', JStr (evidence_account_id v)), (''asset_id'', JStr (evidence_asset_id v)),
       (''settlement_asset_id'', JStr (evidence_settlement_asset_id v)),
       (''outcome'', JStr (outcome_value (evidence_outcome v))),
       (''terminal_state'', json_option (\<lambda>x. JStr (order_state_value x)) (evidence_terminal_state v)),
       (''cumulative_filled_quantity'', JInt (evidence_filled_quantity v)),
       (''cumulative_cost_units'', JInt (evidence_cost_units v)), (''cumulative_fee_units'', JInt (evidence_fee_units v)),
       (''sequence'', json_option JInt (evidence_sequence v)), (''rest_confirmed'', JBool (evidence_rest_confirmed v)),
       (''observation_version'', JInt (evidence_observation_version v)),
       (''source_timestamp'', json_datetime (evidence_source_timestamp v)),
       (''observed_at'', json_datetime (evidence_observed_at v))]"

definition reconciliation_fingerprint :: "ReconciliationContext \<Rightarrow> string" where
  "reconciliation_fingerprint c =
     fingerprint (JObj [(''reservation_version'', JStr (reconciliation_reservation_version c)),
       (''account_snapshot'', snapshot_payload (reconciliation_account_snapshot c)),
       (''holdings'', JList (map holding_payload (reconciliation_holdings c))),
       (''cash_flows'', JList (map cash_flow_payload (reconciliation_cash_flows c))),
       (''source_timestamp'', json_datetime (reconciliation_source_timestamp c)),
       (''received_at'', json_datetime (reconciliation_received_at c)), (''now'', json_datetime (reconciliation_now c)),
       (''conflict_resolutions'', JList (map resolution_payload (conflict_resolutions c)))])"

definition complete_reconciliation :: "string \<Rightarrow> ReconciliationContext \<Rightarrow> Batch op" where
  "complete_reconciliation i ctx =
     n_leg_reduce i ''RECONCILIATION'' (''reconcile:'' @ i @ '':'' @ reconciliation_fingerprint ctx)
       (reduce_reconciliation i ctx)"

subsection \<open>Entry\<close>

record ExecutionLegEvidence =
  evidence_action_id :: string
  evidence_leg_venue_id :: string
  evidence_leg_account_id :: string
  evidence_chain_id :: string
  evidence_native_id :: string
  evidence_side :: ActionSide
  evidence_quantity_lots :: int
  evidence_protected_price_units :: int
  evidence_price_units_per_quote_unit :: int
  evidence_max_fee_units :: int
  evidence_max_cost_units :: int
  evidence_leg_settlement_asset_id :: string
  evidence_valuation_unit_id :: string
  evidence_source_fingerprint :: string

record ExecutionSolution =
  solution_market_fingerprint :: string
  solution_account_fingerprint :: string
  solution_quantities :: "ActionQuantity list"
  capital_use_units :: int
  execution_legs :: "ExecutionLegEvidence list"
  order_ready :: bool
  solution_reason :: string
  solution_fingerprint :: string

definition execution_leg_payload :: "ExecutionLegEvidence \<Rightarrow> json" where
  "execution_leg_payload l =
     JObj [(''action_id'', JStr (evidence_action_id l)), (''venue_id'', JStr (evidence_leg_venue_id l)),
       (''account_id'', JStr (evidence_leg_account_id l)), (''chain_id'', JStr (evidence_chain_id l)),
       (''native_id'', JStr (evidence_native_id l)), (''side'', JStr (side_value (evidence_side l))),
       (''quantity_lots'', JInt (evidence_quantity_lots l)),
       (''protected_price_units'', JInt (evidence_protected_price_units l)),
       (''price_units_per_quote_unit'', JInt (evidence_price_units_per_quote_unit l)),
       (''max_fee_units'', JInt (evidence_max_fee_units l)), (''max_cost_units'', JInt (evidence_max_cost_units l)),
       (''settlement_asset_id'', JStr (evidence_leg_settlement_asset_id l)),
       (''valuation_unit_id'', JStr (evidence_valuation_unit_id l)),
       (''source_fingerprint'', JStr (evidence_source_fingerprint l))]"

definition expected_solution_fingerprint :: "ExecutionSolution \<Rightarrow> string" where
  "expected_solution_fingerprint x =
     fingerprint (JObj [(''market'', JStr (solution_market_fingerprint x)), (''account'', JStr (solution_account_fingerprint x)),
       (''quantities'', JList (map quantity_payload (solution_quantities x))),
       (''capital_use_units'', JInt (capital_use_units x)),
       (''execution_legs'', JList (map execution_leg_payload (execution_legs x)))])"

definition solution_payload :: "ExecutionSolution \<Rightarrow> json" where
  "solution_payload x =
     JObj [(''market_solution_fingerprint'', JStr (solution_market_fingerprint x)),
       (''account_snapshot_fingerprint'', JStr (solution_account_fingerprint x)),
       (''quantities'', JList (map quantity_payload (sort_key quantity_action_id (solution_quantities x)))),
       (''capital_use_units'', JInt (capital_use_units x)),
       (''execution_legs'', JList (map execution_leg_payload (execution_legs x))),
       (''order_ready'', JBool (order_ready x)), (''reason'', JStr (solution_reason x)),
       (''fingerprint'', JStr (solution_fingerprint x))]"

definition leg_semantics :: "ExecutionLegEvidence \<Rightarrow> string \<times> string \<times> string \<times> string" where
  "leg_semantics l =
     (let t = or_else (default_order_type (evidence_leg_venue_id l)) ''UNKNOWN'' in
      (evidence_action_id l, evidence_leg_venue_id l, t, semantics_value (order_semantics_lookup (evidence_leg_venue_id l) t)))"

definition quote_binding :: "ExecutionSolution \<Rightarrow> string" where
  "quote_binding x =
     fingerprint (JObj [(''sources'', JList (map (\<lambda>l. JStr (evidence_source_fingerprint l)) (execution_legs x)))])"

definition execution_solution_binding :: "ExecutionSolution \<Rightarrow> (string \<times> json) list result" where
  "execution_solution_binding x =
     (if order_ready x \<or> solution_reason x \<noteq> ''PARTIAL_FILL_PROOF_REQUIRED''
      then Inl (ValueError ''execution solution is not a no-submit partial-fill handoff'')
      else if solution_fingerprint x \<noteq> expected_solution_fingerprint x
      then Inl (ValueError ''execution solution fingerprint mismatch'')
      else Inr
        [(''execution_solution_fingerprint'', JStr (solution_fingerprint x)),
         (''execution_solution_payload_fingerprint'', JStr (fingerprint (solution_payload x))),
         (''model_fingerprint'', JStr (solution_market_fingerprint x)),
         (''quote_fingerprint'', JStr (quote_binding x)),
         (''cost_fingerprint'', JStr (fingerprint (JObj [(''capital_use_units'', JInt (capital_use_units x)),
            (''legs'', JList (map (\<lambda>l. JList [JStr (evidence_action_id l), JInt (evidence_max_cost_units l),
               JInt (evidence_max_fee_units l)]) (execution_legs x)))]))),
         (''order_semantics_fingerprint'', JStr (order_semantics_fingerprint_for (map leg_semantics (execution_legs x))))])"

definition proof_is_bound_status :: "PartialFillProofRecord \<Rightarrow> ExecutionSolution \<Rightarrow> PartialFillStatus \<Rightarrow> bool" where
  "proof_is_bound_status r x status \<longleftrightarrow>
     (case execution_solution_binding x of
        Inl _ \<Rightarrow> False
      | Inr binding \<Rightarrow>
          partial_fill_status r = status \<and> proof_verifier_status r = VERIFIER_QUALIFIED
          \<and> solver_termination r = ''CLOSED''
          \<and> list_all (\<lambda>(k, v). map_of (proof_record_fields r) k = Some v) binding)"

text \<open>
  What \<open>decode_market\<close> and \<open>execution_solution_from_payload\<close> make of the source of an entry; the problem is the one the
  frozen payload of the batch decodes to.
\<close>

record DecodedEntry =
  decoded_problem :: ArbitrageProblem
  decoded_budget :: OracleBudget
  decoded_solution :: ExecutionSolution

definition entry_leg :: "string \<Rightarrow> ExecutionLegEvidence \<Rightarrow> Leg" where
  "entry_leg i l =
     \<lparr>leg_action_id = evidence_action_id l, leg_client_order_id = i @ '':'' @ evidence_action_id l,
      leg_venue_id = evidence_leg_venue_id l, leg_account_id = evidence_leg_account_id l,
      leg_asset_id = evidence_native_id l, leg_settlement_asset_id = evidence_leg_settlement_asset_id l,
      leg_side = evidence_side l, leg_submitted_quantity = evidence_quantity_lots l,
      leg_max_cost_units = evidence_max_cost_units l, leg_max_fee_units = evidence_max_fee_units l, leg_receipt = None\<rparr>"

definition entry_reservations :: "Leg list \<Rightarrow> Reservation list" where
  "entry_reservations ls =
     map (\<lambda>k. let units = units_for leg_key leg_max_cost_units ls k in
           \<lparr>reservation_key = k, original_units = units, remaining_units = units, holding_units = 0\<rparr>)
       (sorted_list_of_set (set (map leg_key ls)))"

definition entry_fingerprint_of ::
  "string \<Rightarrow> string \<Rightarrow> string \<Rightarrow> ExecutionSolution \<Rightarrow> PartialFillProofRecord \<Rightarrow> string \<Rightarrow> string \<Rightarrow> string" where
  "entry_fingerprint_of opportunity lineage i x r mode cap =
     fingerprint (JObj [(''opportunity_episode_id'', JStr opportunity), (''episode_lineage_id'', JStr lineage),
       (''execution_batch_id'', JStr i), (''execution_solution'', JStr (solution_fingerprint x)),
       (''proof'', JStr (partial_fill_fingerprint r)), (''mode'', JStr mode), (''cap_config_version'', JStr cap)])"

definition entry_batch ::
  "string \<Rightarrow> string \<Rightarrow> string \<Rightarrow> DecodedEntry \<Rightarrow> PartialFillProofRecord \<Rightarrow> string \<Rightarrow> string \<Rightarrow> Batch" where
  "entry_batch opportunity lineage i d r mode cap =
     (let x = decoded_solution d; ls = map (entry_leg i) (execution_legs x) in
      \<lparr>execution_batch_id = i, opportunity_episode_id = opportunity, batch_component_id = None,
       batch_lineage_id = lineage, batch_mode = mode, batch_state = ACTIVE,
       execution_solution_fingerprint = solution_fingerprint x, account_fingerprint = solution_account_fingerprint x,
       frozen_problem = decoded_problem d, frozen_budget = decoded_budget d,
       max_auto_repair_loss = proof_max_auto_repair_loss r, reservation_version = i @ '':v1'',
       prior_unsettled_capital_units = 0, batch_unsettled_capital_units = capital_use_units x,
       reservations = entry_reservations ls, legs = ls, receipts = [], confirmed_holdings = [], receipt_conflicts = [],
       unresolved_conflicts = [], conflict_exposure = [], capital_exposure_unknown = False,
       conflict_terminal_ledger = [], incident = None, repair_plan = None, execution_controls = [],
       reconciliation = None, entry_fingerprint = entry_fingerprint_of opportunity lineage i x r mode cap\<rparr>)"

definition enter ::
  "instant \<Rightarrow> string \<Rightarrow> string \<Rightarrow> string \<Rightarrow> DecodedEntry result \<Rightarrow> PartialFillProofRecord \<Rightarrow> string \<Rightarrow> string
    \<Rightarrow> (string \<times> json) list option \<Rightarrow> Batch op" where
  "enter now opportunity lineage i decoded r mode cap expected =
     op_bind (op_lift (all_required [require_text opportunity ''opportunity_episode_id'',
       require_text lineage ''episode_lineage_id'', require_text i ''execution_batch_id''])) (\<lambda>_.
     op_bind (op_guard (mode \<in> {''MANUAL'', ''AUTO''}) (ValueError ''new N-leg mode must be MANUAL or AUTO'')) (\<lambda>_.
     op_bind (op_lift (case decoded of
         Inl e \<Rightarrow> Inl (if e = TypeError \<or> is_value_error e then ValueError ''EXECUTION_SOLUTION_SOURCE_REQUIRED'' else e)
       | Inr d \<Rightarrow> Inr d)) (\<lambda>d.
     let x = decoded_solution d; b = entry_batch opportunity lineage i d r mode cap in
     op_bind (op_when (proof_is_bound_status r x PARTIAL_FILL_UNSAFE) (op_lift (require_text cap ''cap_config_version''))) (\<lambda>_.
     op_bind (op_guard (\<not> (proof_is_bound_status r x PARTIAL_FILL_UNSAFE \<and> proof_cap_config_version r = cap))
                (ValueError ''PARTIAL_FILL_UNSAFE'')) (\<lambda>_.
     op_bind (op_guard (proof_is_bound_status r x PARTIAL_FILL_SAFE) (ValueError ''PARTIAL_FILL_PROOF_REQUIRED'')) (\<lambda>_.
     op_bind (op_lift (require_text cap ''cap_config_version'')) (\<lambda>_.
     op_bind (op_guard (proof_cap_config_version r = cap) (ValueError ''PARTIAL_FILL_PROOF_REQUIRED'')) (\<lambda>_.
     op_bind (op_guard (solver_upper_bound r \<le> proof_max_partial_fill_loss r)
                (ValueError ''PARTIAL_FILL_LOSS_CAP_EXCEEDED'')) (\<lambda>_.
     op_bind (op_guard (legs b \<noteq> [] \<and> distinct (map leg_client_order_id (legs b)))
                (ValueError ''execution solution has invalid legs'')) (\<lambda>_.
     n_leg_create_batch now b expected))))))))))"

end
