(* ===== verification/Datetime_Text.thy ===== *)
theory Datetime_Text
  imports NLeg_Canonical Decimal_Text
begin

section \<open>Timestamps as text\<close>

text \<open>
  \<open>datetime.isoformat\<close> and \<open>datetime.fromisoformat\<close> of Python for the format the program writes, and that the second
  reads back what the first writes for every instant of the years 1 to 9999. The heart of it is that
  \<open>ymd_of_ordinal\<close> and \<open>day_number\<close> are inverse to each other.
\<close>

text \<open>\<open>moment.isoformat()\<close> of a UTC instant.\<close>

definition isoformat :: "instant \<Rightarrow> string" where
  "isoformat t = butlast (canonical_datetime t) @ ''+00:00''"

text \<open>
  \<open>datetime.fromisoformat\<close> on the extended format \<open>YYYY-MM-DD?HH:MM:SS[.ffffff]+HH:MM\<close> (or \<open>Z\<close>), the format \<open>isoformat\<close> writes; a
  stamp without an offset is naive, which the subtraction from an aware moment refuses.
\<close>

definition digits_at :: "nat \<Rightarrow> nat \<Rightarrow> string \<Rightarrow> int option" where
  "digits_at k n s =
     (let part = take n (drop k s) in
      if length part = n \<and> list_all is_digit part then Some (int (number_of_digits part)) else None)"

definition day_number :: "int \<Rightarrow> int \<Rightarrow> int \<Rightarrow> int option" where
  "day_number y m d =
     (if 1 \<le> y \<and> 1 \<le> m \<and> m \<le> 12 \<and> 1 \<le> d \<and> d \<le> month_lengths y ! nat (m - 1)
      then Some ((y - 1) * 365 + (y - 1) div 4 - (y - 1) div 100 + (y - 1) div 400
                 + sum_list (take (nat (m - 1)) (month_lengths y)) + d)
      else None)"

definition parse_fraction :: "string \<Rightarrow> (int \<times> string) option" where
  "parse_fraction s =
     (case s of
        CHR ''.'' # t \<Rightarrow>
          let ds = takeWhile is_digit t; six = take 6 (ds @ replicate 6 (CHR ''0''))
          in if ds = [] then None else Some (int (number_of_digits six), dropWhile is_digit t)
      | _ \<Rightarrow> Some (0, s))"

datatype stamp = Aware instant | Naive | NotIso

definition parse_offset :: "string \<Rightarrow> int option option" where
  "parse_offset s =
     (if s = [] then Some None
      else if s = ''Z'' then Some (Some 0)
      else case (digits_at 1 2 s, digits_at 4 2 s) of
        (Some h, Some m) \<Rightarrow>
          if length s = 6 \<and> s ! 3 = CHR '':'' \<and> s ! 0 \<in> {CHR ''+'', CHR ''-''} \<and> h < 24 \<and> m < 60
          then Some (Some ((if s ! 0 = CHR ''-'' then -1 else 1) * (h * 60 + m))) else None
      | _ \<Rightarrow> None)"

definition fromisoformat :: "string \<Rightarrow> stamp" where
  "fromisoformat s =
     (case (digits_at 0 4 s, digits_at 5 2 s, digits_at 8 2 s, digits_at 11 2 s, digits_at 14 2 s, digits_at 17 2 s,
            parse_fraction (drop 19 s)) of
        (Some y, Some mo, Some d, Some h, Some mi, Some sec, Some (micro, rest)) \<Rightarrow>
          (case (day_number y mo d, parse_offset rest) of
             (Some n, Some offset) \<Rightarrow>
               if s ! 4 = CHR ''-'' \<and> s ! 7 = CHR ''-'' \<and> s ! 13 = CHR '':'' \<and> s ! 16 = CHR '':'' \<and> h < 24 \<and> mi < 60 \<and> sec < 60
               then (case offset of
                       None \<Rightarrow> Naive
                     | Some minutes \<Rightarrow>
                         Aware ((n - 719163) * usec_per_day + ((h * 3600 + mi * 60 + sec) - minutes * 60) * usec_per_second + micro))
               else NotIso
           | _ \<Rightarrow> NotIso)
      | _ \<Rightarrow> NotIso)"

subsection \<open>Padded numbers\<close>

lemma length_string_of_nat: "n < 10 ^ w \<Longrightarrow> 0 < w \<Longrightarrow> length (string_of_nat n) \<le> w"
proof (induction n arbitrary: w rule: string_of_nat.induct)
  case (1 n)
  show ?case
  proof (cases "n < 10")
    case True
    then show ?thesis
      using 1(3) by (subst string_of_nat.simps) simp
  next
    case False
    obtain v where v: "w = Suc v"
      using "1.prems"(2) by (cases w) auto
    have "v \<noteq> 0"
    proof
      assume "v = 0"
      then show False
        using "1.prems"(1) False v by simp
    qed
    with v have w: "w = Suc v" "0 < v"
      by simp_all
    then have "n div 10 < 10 ^ v"
      using "1.prems" by (simp add: less_mult_imp_div_less mult.commute)
    then show ?thesis
      using "1.IH"[OF False, of v] False w by (subst string_of_nat.simps) simp
  qed
qed

lemma zero_padded_exact:
  assumes "0 \<le> i" "i < 10 ^ w" "0 < w"
  shows "length (zero_padded w i) = w" "list_all is_digit (zero_padded w i)" "int (number_of_digits (zero_padded w i)) = i"
proof -
  have "nat i < 10 ^ w"
    using assms(1,2) by (simp add: nat_less_iff)
  then show "length (zero_padded w i) = w"
    using assms length_string_of_nat[of "nat i" w] by (simp add: zero_padded_def string_of_int_def Let_def)
  show "list_all is_digit (zero_padded w i)"
    using assms(1) string_of_nat_digits[of "nat i"]
    by (simp add: zero_padded_def string_of_int_def Let_def) (simp add: list_all_iff is_digit_def)
  show "int (number_of_digits (zero_padded w i)) = i"
    using assms(1) by (simp add: zero_padded_def string_of_int_def Let_def number_of_digits_append number_of_zeros number_of_digits_string_of_nat)
qed

lemma digits_at_padded:
  assumes "length pre = k" "0 \<le> i" "i < 10 ^ w" "0 < w"
  shows "digits_at k w (pre @ zero_padded w i @ post) = Some i"
  using assms zero_padded_exact[OF assms(2-4)] by (simp add: digits_at_def Let_def)

subsection \<open>The calendar\<close>

definition date_ok :: "int \<Rightarrow> int list \<Rightarrow> int \<Rightarrow> int \<Rightarrow> bool" where
  "date_ok f ls m d \<longleftrightarrow> 1 \<le> m \<and> m \<le> int (length ls) \<and> 1 \<le> d \<and> d \<le> ls ! nat (m - 1) \<and> sum_list (take (nat (m - 1)) ls) + d = f + 1"

lemma month_day_exact:
  assumes "month_day m0 f ls = (m, d)" "0 \<le> f" "f < sum_list ls" "ls \<noteq> []"
  shows "date_ok f ls (m - m0 + 1) d"
  using assms
proof (induction m0 f ls rule: month_day.induct)
  case (2 m0 f l ls)
  show ?case
  proof (cases "f < l \<or> ls = []")
    case True
    then show ?thesis
      using 2 by (auto simp: date_ok_def)
  next
    case False
    then have "date_ok (f - l) ls (m - (m0 + 1) + 1) d"
      using 2 by auto
    then have ok: "1 \<le> m - m0" "m - m0 \<le> int (length ls)" "1 \<le> d" "d \<le> ls ! nat (m - m0 - 1)"
      "sum_list (take (nat (m - m0 - 1)) ls) + d = f - l + 1"
      by (simp_all add: date_ok_def)
    have "nat (m - m0) = Suc (nat (m - m0 - 1))"
      using ok(1) by simp
    then show ?thesis
      using ok by (simp add: date_ok_def)
  qed
qed simp

lemma sum_month_lengths: "sum_list (month_lengths y) = (if leap_year y then 366 else 365)"
  by (simp add: month_lengths_def)

lemma day_number_date:
  assumes "date_ok f (month_lengths y) m d" "1 \<le> y"
  shows "day_number y m d = Some ((y - 1) * 365 + (y - 1) div 4 - (y - 1) div 100 + (y - 1) div 400 + f + 1)"
  using assms by (simp add: day_number_def date_ok_def month_lengths_def)

lemma year_days:
  fixes a b c e :: int
  assumes "0 \<le> b" "b \<le> 3" "0 \<le> c" "c \<le> 24" "0 \<le> e" "e \<le> 3"
  shows "(400 * a + 100 * b + 4 * c + e) * 365 + (400 * a + 100 * b + 4 * c + e) div 4 - (400 * a + 100 * b + 4 * c + e) div 100
    + (400 * a + 100 * b + 4 * c + e) div 400 = 146097 * a + 36524 * b + 1461 * c + 365 * e"
proof -
  have "(400 * a + 100 * b + 4 * c + e) div 4 = 100 * a + 25 * b + c" "(400 * a + 100 * b + 4 * c + e) div 100 = 4 * a + b"
    "(400 * a + 100 * b + 4 * c + e) div 400 = a"
    using assms by linarith+
  then show ?thesis
    by simp
qed

lemma leap_years:
  fixes a b c :: int
  assumes "0 \<le> c"
  shows "c < 24 \<Longrightarrow> leap_year (400 * a + 100 * b + 4 * c + 4)" "leap_year (400 * a + 400)"
proof -
  have "400 * a + 100 * b + 4 * c + 4 = 4 * (100 * a + 25 * b + c + 1)"
    by simp
  then have four: "(400 * a + 100 * b + 4 * c + 4) mod 4 = 0"
    by (metis mod_mult_self1_is_0)
  have "400 * a + 100 * b + 4 * c + 4 = 4 * c + 4 + (4 * a + b) * 100"
    by simp
  then have "(400 * a + 100 * b + 4 * c + 4) mod 100 = (4 * c + 4) mod 100"
    by (metis mod_mult_self1)
  then show "leap_year (400 * a + 100 * b + 4 * c + 4)" if "c < 24"
    using that assms four by (simp add: leap_year_def)
  have "400 * a + 400 = 400 * (a + 1)" "400 * a + 400 = 4 * (100 * (a + 1))"
    by simp_all
  then have "(400 * a + 400) mod 400 = 0" "(400 * a + 400) mod 4 = 0"
    by (metis mod_mult_self1_is_0)+
  then show "leap_year (400 * a + 400)"
    by (simp add: leap_year_def)
qed

lemma ordinal_digits:
  fixes n :: int
  obtains a b c e f where "n = 146097 * a + 36524 * b + 1461 * c + 365 * e + f" "a = n div 146097" "b = n mod 146097 div 36524"
    "c = n mod 146097 mod 36524 div 1461" "e = n mod 146097 mod 36524 mod 1461 div 365" "f = n mod 146097 mod 36524 mod 1461 mod 365"
    "0 \<le> b" "b \<le> 4" "0 \<le> c" "c \<le> 24" "0 \<le> e" "e \<le> 4" "0 \<le> f" "f < 365"
    "b = 4 \<longrightarrow> c = 0 \<and> e = 0 \<and> f = 0" "e = 4 \<longrightarrow> f = 0 \<and> c < 24"
proof -
  define d1 d2 d3 where d: "d1 = n mod 146097" "d2 = d1 mod 36524" "d3 = d2 mod 1461"
  define a b c e f where q: "a = n div 146097" "b = d1 div 36524" "c = d2 div 1461" "e = d3 div 365" "f = d3 mod 365"
  have eqs: "n = 146097 * a + d1" "d1 = 36524 * b + d2" "d2 = 1461 * c + d3" "d3 = 365 * e + f"
    by (simp_all add: d q)
  have bounds: "0 \<le> d1" "d1 < 146097" "0 \<le> d2" "d2 < 36524" "0 \<le> d3" "d3 < 1461" "0 \<le> f" "f < 365"
    by (simp_all add: d q)
  show thesis
  proof (rule that[of a b c e f])
    show ranges: "0 \<le> b" "b \<le> 4" "0 \<le> c" "c \<le> 24" "0 \<le> e" "e \<le> 4" "0 \<le> f" "f < 365"
      using eqs bounds by linarith+
    show "b = 4 \<longrightarrow> c = 0 \<and> e = 0 \<and> f = 0"
    proof
      assume "b = 4"
      then have "d2 = 0"
        using eqs(2) bounds(2,3) by linarith
      then have "c = 0" "d3 = 0"
        using eqs(3) bounds(5) ranges(3) by linarith+
      then show "c = 0 \<and> e = 0 \<and> f = 0"
        using eqs(4) ranges(5,7) by linarith
    qed
    show "e = 4 \<longrightarrow> f = 0 \<and> c < 24"
      using eqs(3,4) bounds(4,6,7) by linarith
  qed (use eqs in \<open>simp_all add: d q\<close>)
qed

lemma ymd_round_trip:
  assumes "1 \<le> n" "ymd_of_ordinal n = (y, m, d)"
  shows "day_number y m d = Some n" "1 \<le> y" "1 \<le> m" "m \<le> 12" "1 \<le> d" "d \<le> 31"
proof -
  obtain a b c e f where n: "n - 1 = 146097 * a + 36524 * b + 1461 * c + 365 * e + f"
    and q: "a = (n - 1) div 146097" "b = (n - 1) mod 146097 div 36524" "c = (n - 1) mod 146097 mod 36524 div 1461"
      "e = (n - 1) mod 146097 mod 36524 mod 1461 div 365" "f = (n - 1) mod 146097 mod 36524 mod 1461 mod 365"
    and bounds: "0 \<le> b" "b \<le> 4" "0 \<le> c" "c \<le> 24" "0 \<le> e" "e \<le> 4" "0 \<le> f" "f < 365"
    and ends: "b = 4 \<longrightarrow> c = 0 \<and> e = 0 \<and> f = 0" "e = 4 \<longrightarrow> f = 0 \<and> c < 24"
    by (rule ordinal_digits[of "n - 1"])
  have a: "0 \<le> a"
    using assms(1) by (simp add: q(1) pos_imp_zdiv_nonneg_iff)
  let ?y = "400 * a + 100 * b + 4 * c + e + 1"
  have ymd: "(y, m, d) = (if e = 4 \<or> b = 4 then (?y - 1, 12, 31) else (?y, month_day 1 f (month_lengths ?y)))"
    using assms(2) unfolding ymd_of_ordinal_def Let_def q[symmetric] by (auto simp: mult.commute split: if_splits)
  have "day_number y m d = Some n \<and> 1 \<le> y \<and> 1 \<le> m \<and> m \<le> 12 \<and> 1 \<le> d \<and> d \<le> 31"
  proof (cases "e = 4 \<or> b = 4")
    case False
    then have range: "b \<le> 3" "e \<le> 3"
      using bounds by linarith+
    have md: "month_day 1 f (month_lengths ?y) = (m, d)" and y: "y = ?y"
      using ymd False by auto
    have "date_ok f (month_lengths ?y) (m - 1 + 1) d"
      using md bounds(7,8) by (intro month_day_exact) (auto simp: sum_month_lengths, simp add: month_lengths_def)
    then have ok: "date_ok f (month_lengths y) m d"
      by (simp add: y)
    have "1 \<le> y"
      using a bounds y by linarith
    moreover have "day_number y m d = Some n"
      using day_number_date[OF ok calculation] year_days[of b c e a] bounds range n y by simp
    moreover have "1 \<le> m" "m \<le> 12" "1 \<le> d"
      using ok by (simp_all add: date_ok_def month_lengths_def)
    moreover have "d \<le> 31"
    proof -
      have "\<forall>x \<in> set (month_lengths y). x \<le> 31"
        by (simp add: month_lengths_def)
      moreover have "month_lengths y ! nat (m - 1) \<in> set (month_lengths y)"
        using \<open>1 \<le> m\<close> \<open>m \<le> 12\<close> by (intro nth_mem) (simp add: month_lengths_def)
      ultimately show ?thesis
        using ok by (force simp: date_ok_def)
    qed
    ultimately show ?thesis
      by blast
  next
    case True
    then have md: "m = 12" "d = 31" "y = ?y - 1"
      using ymd by auto
    have "leap_year y \<and> (y - 1) * 365 + (y - 1) div 4 - (y - 1) div 100 + (y - 1) div 400 + 366 = n \<and> 1 \<le> y"
    proof (cases "b = 4")
      case True
      then have y: "y = 400 * a + 400"
        using md ends by simp
      then show ?thesis
        using leap_years(2)[of 0 a] year_days[of 3 24 3 a] n True ends a by simp
    next
      case False
      then have e: "e = 4" "f = 0" "c < 24" "b \<le> 3"
        using True ends bounds by auto
      then have y: "y = 400 * a + 100 * b + 4 * c + 4" "y - 1 = 400 * a + 100 * b + 4 * c + 3"
        using md(3) by simp_all
      have "leap_year y"
        unfolding y(1) using bounds(3) e(3) by (rule leap_years(1))
      moreover have "(y - 1) * 365 + (y - 1) div 4 - (y - 1) div 100 + (y - 1) div 400 = 146097 * a + 36524 * b + 1461 * c + 365 * 3"
        unfolding y(2) using bounds e by (intro year_days) simp_all
      ultimately show ?thesis
        using n e y(1) bounds a by simp
    qed
    then show ?thesis
      by (simp add: day_number_def md(1,2) month_lengths_def)
  qed
  then show "day_number y m d = Some n" "1 \<le> y" "1 \<le> m" "m \<le> 12" "1 \<le> d" "d \<le> 31"
    by blast+
qed

subsection \<open>Timestamps\<close>

definition representable :: "instant \<Rightarrow> bool" where
  "representable t \<longleftrightarrow> 1 \<le> 719163 + t div usec_per_day \<and> 719163 + t div usec_per_day \<le> 3652059"

lemma last_ordinal:
  assumes "1 \<le> n" "n \<le> 3652059" "ymd_of_ordinal n = (y, m, d)"
  shows "y \<le> 9999"
proof (rule ccontr)
  assume "\<not> y \<le> 9999"
  then have y: "9999 \<le> y - 1"
    by simp
  note ymd = ymd_round_trip[OF assms(1,3)]
  have "0 \<le> sum_list (take (nat (m - 1)) (month_lengths y))"
    by (rule sum_list_nonneg) (auto simp: month_lengths_def dest!: in_set_takeD)
  then have "n \<ge> (y - 1) * 365 + (y - 1) div 4 - (y - 1) div 100 + (y - 1) div 400 + 1"
    using ymd by (simp add: day_number_def split: if_splits)
  moreover define x where "x = y - 1"
  moreover define k where "k = x * 365 + x div 4 - x div 100 + x div 400"
  ultimately have "k + 1 \<le> n" "9999 \<le> x"
    using y by simp_all
  moreover have "x - 3 \<le> 4 * (x div 4)" "100 * (x div 100) \<le> x" "x - 399 \<le> 400 * (x div 400)"
    by linarith+
  then have "146097 * x - 699 \<le> 400 * k"
    by (simp add: k_def)
  ultimately show False
    using assms(2) by linarith
qed

lemma clock_digits:
  fixes t :: int
  defines "usec \<equiv> t mod usec_per_day"
  defines "sec \<equiv> usec div usec_per_second"
  shows "0 \<le> sec div 3600" "sec div 3600 < 24" "0 \<le> sec div 60 mod 60" "sec div 60 mod 60 < 60" "0 \<le> sec mod 60" "sec mod 60 < 60"
    "0 \<le> usec mod usec_per_second" "usec mod usec_per_second < 10 ^ 6"
    "t = (t div usec_per_day) * usec_per_day
       + (sec div 3600 * 3600 + sec div 60 mod 60 * 60 + sec mod 60) * usec_per_second + usec mod usec_per_second"
proof -
  have unit: "usec_per_day = 86400000000"
    by (simp add: usec_per_day_def)
  have usec: "0 \<le> usec" "usec < 86400000000"
    by (simp_all add: usec_def unit)
  then have sec: "0 \<le> sec" "sec < 86400"
    unfolding sec_def by linarith+
  then show "0 \<le> sec div 3600" "sec div 3600 < 24" "0 \<le> sec div 60 mod 60" "sec div 60 mod 60 < 60" "0 \<le> sec mod 60" "sec mod 60 < 60"
    by linarith+
  show "0 \<le> usec mod usec_per_second" "usec mod usec_per_second < 10 ^ 6"
    by simp_all
  have "sec div 3600 = sec div 60 div 60"
    by (simp flip: zdiv_zmult2_eq)
  moreover have "sec = sec div 60 * 60 + sec mod 60" "sec div 60 = sec div 60 div 60 * 60 + sec div 60 mod 60"
    by simp_all
  ultimately have "sec div 3600 * 3600 + sec div 60 mod 60 * 60 + sec mod 60 = sec"
    by linarith
  moreover have "sec * usec_per_second + usec mod usec_per_second = usec"
    by (simp add: sec_def)
  moreover have "t div usec_per_day * usec_per_day + usec = t"
    by (simp add: usec_def)
  ultimately show "t = (t div usec_per_day) * usec_per_day
       + (sec div 3600 * 3600 + sec div 60 mod 60 * 60 + sec mod 60) * usec_per_second + usec mod usec_per_second"
    by simp
qed

lemma parse_fraction_micro:
  assumes "0 \<le> micro" "micro < 10 ^ 6"
  shows "parse_fraction ((if micro = 0 then [] else ''.'' @ zero_padded 6 micro) @ ''+00:00'') = Some (micro, ''+00:00'')"
proof (cases "micro = 0")
  case True
  then show ?thesis
    by (simp add: parse_fraction_def)
next
  case False
  note six = zero_padded_exact[OF assms, simplified]
  have "\<not> is_digit (CHR ''+'')"
    by simp
  then have "takeWhile is_digit (zero_padded 6 micro @ ''+00:00'') = zero_padded 6 micro"
    "dropWhile is_digit (zero_padded 6 micro @ ''+00:00'') = ''+00:00''"
    using six(2) by (simp_all add: list_all_iff takeWhile_append2 dropWhile_append2)
  then show ?thesis
    using False six by (auto simp: parse_fraction_def Let_def)
qed

text \<open>The text that \<open>isoformat\<close> writes for a UTC instant is read back as that instant.\<close>

lemma fromisoformat_isoformat:
  assumes "representable t"
  shows "fromisoformat (butlast (canonical_datetime t) @ ''+00:00'') = Aware t"
proof -
  obtain y m d where ymd: "ymd_of_ordinal (719163 + t div usec_per_day) = (y, m, d)"
    by (metis prod_cases3)
  have range: "1 \<le> 719163 + t div usec_per_day" "719163 + t div usec_per_day \<le> 3652059"
    using assms by (simp_all add: representable_def)
  note date = ymd_round_trip[OF range(1) ymd] last_ordinal[OF range ymd]
  define usec sec micro h mi s where parts: "usec = t mod usec_per_day" "sec = usec div usec_per_second" "micro = usec mod usec_per_second"
    "h = sec div 3600" "mi = sec div 60 mod 60" "s = sec mod 60"
  have clock: "0 \<le> h" "h < 24" "0 \<le> mi" "mi < 60" "0 \<le> s" "s < 60" "0 \<le> micro" "micro < 10 ^ 6"
    unfolding parts by (rule clock_digits)+
  have total: "(719163 + t div usec_per_day - 719163) * usec_per_day + ((h * 3600 + mi * 60 + s) - 0 * 60) * usec_per_second + micro = t"
    using clock_digits(9)[of t, symmetric] unfolding parts by (simp only: add_diff_cancel_left' mult_zero_left diff_zero)
  define fraction where "fraction = (if micro = 0 then [] else ''.'' @ zero_padded 6 micro)"
  let ?text = "zero_padded 4 y @ ''-'' @ zero_padded 2 m @ ''-'' @ zero_padded 2 d @ ''T'' @ zero_padded 2 h @ '':'' @ zero_padded 2 mi @ '':''
    @ zero_padded 2 s @ fraction @ ''+00:00''"
  have whole: "butlast (canonical_datetime t) @ ''+00:00'' = ?text"
    by (simp add: canonical_datetime_def Let_def ymd fraction_def butlast_append flip: parts)
  have len: "length (zero_padded 4 y) = 4" "length (zero_padded 2 m) = 2" "length (zero_padded 2 d) = 2" "length (zero_padded 2 h) = 2"
    "length (zero_padded 2 mi) = 2" "length (zero_padded 2 s) = 2"
    by (rule zero_padded_exact(1); use date clock in simp)+
  have "digits_at 0 4 ?text = Some y"
    using digits_at_padded[of "[]" 0 y 4] date by simp
  moreover have "digits_at 5 2 ?text = Some m"
    using digits_at_padded[of "zero_padded 4 y @ ''-''" 5 m 2] len date by simp
  moreover have "digits_at 8 2 ?text = Some d"
    using digits_at_padded[of "zero_padded 4 y @ ''-'' @ zero_padded 2 m @ ''-''" 8 d 2] len date by simp
  moreover have "digits_at 11 2 ?text = Some h"
    using digits_at_padded[of "zero_padded 4 y @ ''-'' @ zero_padded 2 m @ ''-'' @ zero_padded 2 d @ ''T''" 11 h 2] len clock by simp
  moreover have "digits_at 14 2 ?text = Some mi"
    using digits_at_padded[of "zero_padded 4 y @ ''-'' @ zero_padded 2 m @ ''-'' @ zero_padded 2 d @ ''T'' @ zero_padded 2 h @ '':''" 14 mi 2] len clock
    by simp
  moreover have "digits_at 17 2 ?text = Some s"
    using digits_at_padded[of "zero_padded 4 y @ ''-'' @ zero_padded 2 m @ ''-'' @ zero_padded 2 d @ ''T'' @ zero_padded 2 h @ '':'' @ zero_padded 2 mi @ '':''" 17 s 2]
      len clock by simp
  moreover have "drop 19 ?text = fraction @ ''+00:00''"
    using len by simp
  moreover have "parse_fraction (fraction @ ''+00:00'') = Some (micro, ''+00:00'')"
    unfolding fraction_def using clock(7,8) by (rule parse_fraction_micro)
  moreover have "parse_offset ''+00:00'' = Some (Some 0)"
    by (simp add: parse_offset_def digits_at_def is_digit_def number_of_digits_def digit_value_def)
  moreover have "?text ! 4 = CHR ''-''" "?text ! 7 = CHR ''-''" "?text ! 13 = CHR '':''" "?text ! 16 = CHR '':''"
    using len by (simp_all add: nth_append)
  ultimately show ?thesis
    unfolding whole using date(1) clock total by (simp add: fromisoformat_def)
qed

end
