(* ===== verification/NLeg_Driver.thy ===== *)
theory NLeg_Driver
  imports NLeg_Service NLeg_Mode Datetime_Text
begin

section \<open>The queue driver\<close>

text \<open>
  One tick of \<^verbatim>\<open>NLegOrderQueueDriver\<close> (\<^verbatim>\<open>prediction_n_leg_driver.py\<close>): the gates, the head of the queue, preflight, admission, one submission
  per leg, the fold of the receipts and the watch over a batch that is still open. The state is the store and the
  log of the submissions handed to the trading client. An exception that leaves a tick keeps what was committed
  before it, as the loop around \<open>tick\<close> only logs it. The legs are submitted by parallel workers; the order in
  which the workers log their attempts is a parameter.
\<close>

record World =
  world_store :: NLegStore
  sent_orders :: "(string \<times> string) list"

definition on_store :: "'a op \<Rightarrow> (World, 'a) run" where
  "on_store m w = (case m (world_store w) of (r, s) \<Rightarrow> (r, w\<lparr>world_store := s\<rparr>))"

definition ask :: "(NLegStore \<Rightarrow> 'a) \<Rightarrow> (World, 'a) run" where
  "ask f = op_read (\<lambda>w. f (world_store w))"

text \<open>\<open>try: m except caught: fallback\<close>.\<close>

definition op_catch :: "(py_error \<Rightarrow> bool) \<Rightarrow> ('s, 'a) run \<Rightarrow> 'a \<Rightarrow> ('s, 'a) run" where
  "op_catch caught m fallback s =
     (case m s of (Inl e, t) \<Rightarrow> if caught e then (Inr fallback, t) else (Inl e, t) | (Inr x, t) \<Rightarrow> (Inr x, t))"

text \<open>
  The collaborators of the driver: the books, the preflight of a frozen row against them, the source of an
  entry and its decoder, the trading client, the factory of a reconciliation context, the order in which parallel
  submissions finish. The preflight returns the reason it refuses for, if any.
\<close>

record ('books, 'source) Driver =
  books_provider :: "string \<Rightarrow> 'books option"
  preflight :: "json \<Rightarrow> 'books \<Rightarrow> json \<Rightarrow> Policy option \<Rightarrow> instant \<Rightarrow> string option result"
  source_factory :: "json \<Rightarrow> 'source result"
  decode_source :: "'source \<Rightarrow> DecodedEntry result"
  submit_n_leg_leg_once :: "string \<Rightarrow> string \<Rightarrow> int \<Rightarrow> int \<Rightarrow> int \<Rightarrow> json result"
  reconciliation_context_factory :: "(NLegStore \<Rightarrow> string \<Rightarrow> ReconciliationContext result) option"
  submit_timeout_seconds :: int
  completion_order :: "Leg list \<Rightarrow> Leg list"

datatype TickResult =
    Skipped string
  | Abandoned string string
  | Submitted string "Incident option"
  | ReconciledBatch string
  | Blocked string string

subsection \<open>Reading the frozen row\<close>

text \<open>\<open>mapping.get(key)\<close>, and the mapping itself when the value is one.\<close>

definition json_get :: "(string \<times> json) list \<Rightarrow> string \<Rightarrow> json" where
  "json_get kvs k = or_else (map_of kvs k) JNull"

fun mapping_or_empty :: "json \<Rightarrow> (string \<times> json) list" where
  "mapping_or_empty (JObj kvs) = kvs"
| "mapping_or_empty _ = []"

fun leg_buys :: "json \<Rightarrow> bool" where
  "leg_buys (JObj kvs) =
     (let v = json_get kvs ''side'' in falsy v \<or> (case v of JStr t \<Rightarrow> starts_with t ''BUY'' | _ \<Rightarrow> False))"
| "leg_buys _ = True"

definition all_legs_buy :: "(string \<times> json) list \<Rightarrow> bool" where
  "all_legs_buy frozen =
     (case json_get (mapping_or_empty (json_get frozen ''execution'')) ''execution_legs'' of
        JList ls \<Rightarrow> list_all leg_buys ls
      | _ \<Rightarrow> True)"

definition driver_policy :: "NLegStore \<Rightarrow> Policy option" where
  "driver_policy s = (case n_leg_mode_contract s of Inl _ \<Rightarrow> None | Inr c \<Rightarrow> Some (contract_policy c))"

definition driver_safety_config :: "NLegStore \<Rightarrow> json" where
  "driver_safety_config s =
     (case n_leg_safety_config_latest s of None \<Rightarrow> JObj [] | Some (_, config) \<Rightarrow> if falsy config then JObj [] else config)"

definition expected_versions :: "(string \<times> json) list \<Rightarrow> (string \<times> json) list" where
  "expected_versions frozen =
     (let versions = mapping_or_empty (json_get frozen ''versions'');
          execution = mapping_or_empty (json_get frozen ''execution'')
      in [(''breaker_closed'', JBool True), (''mode'', json_get versions ''mode''),
          (''contract_generation'', json_get versions ''contract_generation''),
          (''qualification_policy_version'', json_get versions ''qualification_policy_version''),
          (''capability'', json_get versions ''capability''), (''scope_id'', json_get versions ''scope_id''),
          (''scope_version'', json_get versions ''scope_version''),
          (''caps_fingerprint'', json_get versions ''caps_fingerprint''),
          (''execution_solution_fingerprint'', json_get execution ''fingerprint'')]
         @ (case json_get execution ''account_snapshot_fingerprint'' of
              JNull \<Rightarrow> [] | v \<Rightarrow> [(''account_snapshot_fingerprint'', v)]))"

text \<open>The text of a value in an f-string; the version is an integer in every row \<open>confirm_enqueue\<close> writes.\<close>

definition display_text :: "json \<Rightarrow> string" where
  "display_text v = (case scalar_text v of None \<Rightarrow> json_dumps v | Some t \<Rightarrow> t)"

definition cap_config_version_of :: "(string \<times> json) list \<Rightarrow> string" where
  "cap_config_version_of frozen =
     (let v = json_get (mapping_or_empty (json_get frozen ''versions'')) ''safety_config_version''
      in ''caps-v'' @ (if falsy v then ''1'' else display_text v))"

definition admission_reason :: "py_error \<Rightarrow> string" where
  "admission_reason e =
     (let message = (case e of ValueError m \<Rightarrow> m | NumericUnsafe m \<Rightarrow> m | UnsafeSolverResult m \<Rightarrow> m | _ \<Rightarrow> []) in
      or_else (map_of [(''N_LEG_ADMISSION_VERSION_STALE'', ''VERSION_STALE''),
        (''N_LEG_ADMISSION_UNSETTLED_CAP'', ''UNSETTLED_CAP''), (''N_LEG_ACTIVE_BATCH_EXISTS'', ''EXECUTION_BATCH_ACTIVE''),
        (''N_LEG_LINEAGE_ALREADY_CLAIMED'', ''N_LEG_LINEAGE_ALREADY_CLAIMED''),
        (''N_LEG_BREAKER_OPEN'', ''GLOBAL_BREAKER_OPEN'')] message) message)"

text \<open>\<open>frozen[key]\<close> as text.\<close>

definition frozen_text :: "(string \<times> json) list \<Rightarrow> string \<Rightarrow> string result" where
  "frozen_text frozen k =
     (case map_of frozen k of
        None \<Rightarrow> Inl (KeyError k)
      | Some (JStr t) \<Rightarrow> Inr t
      | Some (JInt n) \<Rightarrow> Inr (string_of_int n)
      | Some (JBool b) \<Rightarrow> Inr (if b then ''True'' else ''False'')
      | Some JNull \<Rightarrow> Inr ''None''
      | Some v \<Rightarrow> Inr (json_dumps v))"

subsection \<open>The proof record of a row\<close>

definition proof_text :: "(string \<times> json) list \<Rightarrow> string \<Rightarrow> string result" where
  "proof_text kvs k =
     (case json_get kvs k of
        JStr t \<Rightarrow> rbind (require_text t k) (\<lambda>_. Inr t)
      | _ \<Rightarrow> Inl (ValueError (k @ '' must be non-empty text'')))"

definition proof_nonnegative :: "(string \<times> json) list \<Rightarrow> string \<Rightarrow> int result" where
  "proof_nonnegative kvs k =
     (case json_get kvs k of
        JInt n \<Rightarrow> rbind (require_nonnegative n k) (\<lambda>_. Inr n)
      | _ \<Rightarrow> Inl (ValueError (k @ '' must be a non-negative integer'')))"

definition PROOF_TEXTS :: "string list" where
  "PROOF_TEXTS =
     [''execution_solution_fingerprint'', ''execution_solution_payload_fingerprint'', ''model_fingerprint'',
      ''quote_fingerprint'', ''cost_fingerprint'', ''order_semantics_fingerprint'', ''cap_config_version'',
      ''solver_termination'', ''verifier_status'', ''solver_evidence_fingerprint'', ''verifier_fingerprint'',
      ''verifier_evidence_fingerprint'', ''status'', ''fingerprint'']"

definition PROOF_NUMBERS :: "string list" where
  "PROOF_NUMBERS = [''max_partial_fill_loss'', ''max_auto_repair_loss'', ''solver_lower_bound'', ''solver_upper_bound'']"

text \<open>
  \<open>partial_fill_proof_from_payload\<close>. A status outside the two enumerations is legal text that binds nothing: it is
  read as \<open>UNKNOWN\<close> and \<open>NOT_APPLICABLE\<close>, after the fingerprint of the raw fields has been compared.
\<close>

definition read_status :: "string \<Rightarrow> PartialFillStatus" where
  "read_status t = (if t = ''PARTIAL_FILL_SAFE'' then PARTIAL_FILL_SAFE
     else if t = ''PARTIAL_FILL_UNSAFE'' then PARTIAL_FILL_UNSAFE else PARTIAL_FILL_UNKNOWN)"

definition read_verifier_status :: "string \<Rightarrow> VerifierStatus" where
  "read_verifier_status t = (if t = ''QUALIFIED_VERIFIED'' then VERIFIER_QUALIFIED else if t = ''MISMATCH'' then VERIFIER_MISMATCH
     else if t = ''INVALID'' then VERIFIER_INVALID else VERIFIER_NOT_APPLICABLE)"

definition read_proof :: "(string \<times> json) list \<Rightarrow> PartialFillProofRecord" where
  "read_proof kvs =
     (let text = (\<lambda>k. case json_get kvs k of JStr t \<Rightarrow> t | _ \<Rightarrow> []);
          number = (\<lambda>k. case json_get kvs k of JInt n \<Rightarrow> n | _ \<Rightarrow> 0)
      in \<lparr>proof_solution_fingerprint = text ''execution_solution_fingerprint'',
          proof_solution_payload_fingerprint = text ''execution_solution_payload_fingerprint'',
          proof_model_fingerprint = text ''model_fingerprint'', proof_quote_fingerprint = text ''quote_fingerprint'',
          proof_cost_fingerprint = text ''cost_fingerprint'',
          proof_order_semantics_fingerprint = text ''order_semantics_fingerprint'',
          proof_cap_config_version = text ''cap_config_version'',
          proof_max_partial_fill_loss = number ''max_partial_fill_loss'',
          proof_max_auto_repair_loss = number ''max_auto_repair_loss'',
          solver_lower_bound = number ''solver_lower_bound'', solver_upper_bound = number ''solver_upper_bound'',
          solver_termination = text ''solver_termination'',
          solver_evidence_fingerprint = text ''solver_evidence_fingerprint'',
          proof_verifier_status = read_verifier_status (text ''verifier_status''),
          verifier_fingerprint = text ''verifier_fingerprint'',
          verifier_evidence_fingerprint = text ''verifier_evidence_fingerprint'',
          partial_fill_status = read_status (text ''status''), partial_fill_fingerprint = text ''fingerprint''\<rparr>)"

definition partial_fill_proof_from_payload :: "(string \<times> json) list \<Rightarrow> PartialFillProofRecord result" where
  "partial_fill_proof_from_payload kvs =
     (if set (map fst kvs) \<noteq> set (''schema_version'' # PROOF_TEXTS @ PROOF_NUMBERS)
      then Inl (ValueError ''unexpected PartialFillProofRecord fields'')
      else if json_get kvs ''schema_version'' \<noteq> JStr PARTIAL_FILL_PROOF_SCHEMA_V1
      then Inl (ValueError ''unsupported partial-fill proof schema'')
      else
        rbind (result_map (proof_text kvs) PROOF_TEXTS) (\<lambda>_.
        rbind (result_map (proof_nonnegative kvs) PROOF_NUMBERS) (\<lambda>_.
        let r = read_proof kvs in
        if solver_upper_bound r < solver_lower_bound r then Inl (ValueError ''solver bounds are inverted'')
        else if partial_fill_fingerprint r \<noteq> fingerprint (JObj (filter (\<lambda>(k, _). k \<noteq> ''fingerprint'') kvs))
        then Inl (ValueError ''partial-fill proof fingerprint mismatch'')
        else Inr r)))"

subsection \<open>Submission\<close>

text \<open>\<open>int(config.get(key, default))\<close> with the fallback of both timeouts.\<close>

definition configured_seconds :: "NLegStore \<Rightarrow> string \<Rightarrow> int \<Rightarrow> int \<Rightarrow> int" where
  "configured_seconds s key missing fallback =
     (case driver_safety_config s of
        JObj kvs \<Rightarrow>
          (case int_of_json (or_else (map_of kvs key) (JInt missing)) of
             Inl _ \<Rightarrow> fallback | Inr n \<Rightarrow> if 0 < n then n else fallback)
      | _ \<Rightarrow> fallback)"

definition configured_submit_timeout :: "('b, 'c) Driver \<Rightarrow> NLegStore \<Rightarrow> int" where
  "configured_submit_timeout env s = configured_seconds s ''max_leg_submit_seconds'' 0 (submit_timeout_seconds env)"

definition reconciliation_timeout_seconds :: "NLegStore \<Rightarrow> int" where
  "reconciliation_timeout_seconds s = configured_seconds s ''reconciliation_timeout_seconds'' 60 60"

definition unknown_outcome :: json where
  "unknown_outcome = JObj [(''state'', JStr ''UNKNOWN''), (''error_code'', JStr ''submit_error'')]"

definition send_order :: "('b, 'c) Driver \<Rightarrow> string \<Rightarrow> Leg \<Rightarrow> (World, json) run" where
  "send_order env i leg w =
     (Inr (case submit_n_leg_leg_once env (leg_client_order_id leg) (leg_asset_id leg) (leg_submitted_quantity leg)
               (leg_max_cost_units leg) (configured_submit_timeout env (world_store w)) of
             Inl _ \<Rightarrow> unknown_outcome | Inr outcome \<Rightarrow> outcome),
      w\<lparr>sent_orders := sent_orders w @ [(i, leg_client_order_id leg)]\<rparr>)"

definition log_attempt :: "string \<Rightarrow> string \<Rightarrow> json \<Rightarrow> (World, bool) run" where
  "log_attempt i client outcome =
     (case outcome of
        JObj kvs \<Rightarrow>
          on_store (n_leg_transition_append i ''SUBMISSION_ATTEMPT'' (''submission:'' @ client)
            (JObj [(''client_order_id'', JStr client), (''outcome'', json_get kvs ''state''),
                   (''error_code'', json_get kvs ''error_code'')]))
      | _ \<Rightarrow> op_raise AttributeError)"

definition submit_one :: "('b, 'c) Driver \<Rightarrow> string \<Rightarrow> Leg \<Rightarrow> (World, json) run" where
  "submit_one env i leg =
     op_bind (send_order env i leg) (\<lambda>outcome.
     op_bind (op_catch (\<lambda>_. True) (log_attempt i (leg_client_order_id leg) outcome) False) (\<lambda>_.
     op_return outcome))"

fun submit_all :: "('b, 'c) Driver \<Rightarrow> string \<Rightarrow> Leg list \<Rightarrow> (World, (string \<times> json) list) run" where
  "submit_all env i [] = op_return []"
| "submit_all env i (l # ls) =
     op_bind (submit_one env i l) (\<lambda>outcome.
     op_bind (submit_all env i ls) (\<lambda>outcomes. op_return ((leg_client_order_id l, outcome) # outcomes)))"

definition order_state_of :: "string \<Rightarrow> OrderState option" where
  "order_state_of t = find (\<lambda>s. order_state_value s = t) [ORDER_OPEN, ORDER_FILLED, ORDER_REJECTED, ORDER_CANCELLED, ORDER_UNKNOWN]"

definition leg_by_id :: "Batch \<Rightarrow> string \<Rightarrow> Leg option" where
  "leg_by_id b client = find (\<lambda>l. leg_client_order_id l = client) (legs b)"

definition driver_receipt :: "string \<Rightarrow> string \<Rightarrow> Leg option \<Rightarrow> int \<Rightarrow> int \<Rightarrow> OrderState \<Rightarrow> instant \<Rightarrow> OrderReceipt" where
  "driver_receipt i client leg filled cost state moment =
     \<lparr>receipt_id = client @ '':1'', receipt_batch_id = i, receipt_client_order_id = client,
      receipt_venue_id = (case leg of None \<Rightarrow> [] | Some l \<Rightarrow> leg_venue_id l),
      receipt_account_id = (case leg of None \<Rightarrow> [] | Some l \<Rightarrow> leg_account_id l), receipt_venue_order_id = None,
      receipt_submitted_quantity = (case leg of None \<Rightarrow> 0 | Some l \<Rightarrow> leg_submitted_quantity l),
      cumulative_filled_quantity = filled, cumulative_cost_units = cost, cumulative_fee_units = 0,
      receipt_state = state, receipt_sequence = None, rest_confirmed = True, observed_at = moment,
      venue_timestamp = moment, rest_observation_version = Some 1\<rparr>"

definition receipt_for :: "string \<Rightarrow> string \<Rightarrow> Leg option \<Rightarrow> json \<Rightarrow> instant \<Rightarrow> OrderReceipt result" where
  "receipt_for i client leg outcome moment =
     (case outcome of
        JObj kvs \<Rightarrow>
          let v = json_get kvs ''state''; text = (if falsy v then ''UNKNOWN'' else display_text v);
              submitted = (case leg of None \<Rightarrow> 0 | Some l \<Rightarrow> leg_submitted_quantity l);
              max_cost = (case leg of None \<Rightarrow> 0 | Some l \<Rightarrow> leg_max_cost_units l);
              reported = json_get kvs ''cost_units''
          in
          rbind (if text = ''FILLED'' \<and> \<not> falsy reported then int_of_json reported else Inr max_cost) (\<lambda>cost.
          case order_state_of text of
            None \<Rightarrow> Inl (ValueError ''invalid cumulative order receipt'')
          | Some state \<Rightarrow>
              let r = (if text = ''FILLED'' then driver_receipt i client leg submitted (min max_cost cost) state moment
                       else driver_receipt i client leg 0 0 state moment)
              in rbind (check_receipt r) (\<lambda>_. Inr r))
      | _ \<Rightarrow> Inl AttributeError)"

text \<open>
  The fallback for a receipt that cannot be built. The handler calls \<open>_unknown_receipt\<close> without the leg it requires,
  so the call itself raises: \<open>unknown_receipt\<close> is what the method builds when it is called as it is declared.
\<close>

definition unknown_receipt :: "string \<Rightarrow> string \<Rightarrow> Leg option \<Rightarrow> instant \<Rightarrow> OrderReceipt result" where
  "unknown_receipt i client leg moment =
     (let r = (driver_receipt i client leg 0 0 ORDER_UNKNOWN moment)
                \<lparr>receipt_submitted_quantity := (case leg of None \<Rightarrow> 0 | Some l \<Rightarrow> max 0 (leg_submitted_quantity l))\<rparr>
      in rbind (check_receipt r) (\<lambda>_. Inr r))"

definition fold_receipt :: "string \<Rightarrow> Batch \<Rightarrow> instant \<Rightarrow> string \<Rightarrow> json \<Rightarrow> (World, unit) run" where
  "fold_receipt i b moment client outcome =
     (case receipt_for i client (leg_by_id b client) outcome moment of
        Inl _ \<Rightarrow> op_raise TypeError
      | Inr r \<Rightarrow>
          op_catch (\<lambda>_. True) (op_bind (on_store (apply_receipt r None)) (\<lambda>_. op_return ())) ())"

fun fold_receipts :: "string \<Rightarrow> Batch \<Rightarrow> instant \<Rightarrow> (string \<times> json) list \<Rightarrow> (World, unit) run" where
  "fold_receipts i b moment [] = op_return ()"
| "fold_receipts i b moment ((client, outcome) # rest) =
     op_bind (fold_receipt i b moment client outcome) (\<lambda>_. fold_receipts i b moment rest)"

text \<open>The dict of outcomes: the last one wins for a repeated key, and the fold walks it in the order of the keys.\<close>

definition sorted_outcomes :: "(string \<times> json) list \<Rightarrow> (string \<times> json) list" where
  "sorted_outcomes outcomes = sort_key fst (fold (\<lambda>(k, v). AList.update k v) outcomes [])"

subsection \<open>Reconciliation\<close>

fun reconciled_state :: "BatchState \<Rightarrow> bool" where
  "reconciled_state RECONCILED_ZERO = True"
| "reconciled_state RECONCILED_FULL = True"
| "reconciled_state _ = False"

definition try_complete_reconciliation :: "('b, 'c) Driver \<Rightarrow> string \<Rightarrow> (World, bool) run" where
  "try_complete_reconciliation env i =
     (case reconciliation_context_factory env of
        None \<Rightarrow> op_return False
      | Some factory \<Rightarrow>
          op_catch is_value_error
            (op_bind (op_try (\<lambda>w. factory (world_store w) i)) (\<lambda>ctx.
             op_bind (on_store (complete_reconciliation i ctx)) (\<lambda>b.
             op_return (reconciled_state (batch_state b))))) False)"

definition row_of_batch :: "string \<Rightarrow> RequestRow \<Rightarrow> bool" where
  "row_of_batch i row =
     (case request_row_payload row of JObj kvs \<Rightarrow> map_of kvs ''execution_batch_id'' = Some (JStr i) | _ \<Rightarrow> False)"

definition batch_request_row :: "NLegStore \<Rightarrow> string \<Rightarrow> RequestRow option" where
  "batch_request_row s i = find (row_of_batch i) (n_leg_requests s)"

fun mark_rows :: "RequestRow list \<Rightarrow> (World, unit) run" where
  "mark_rows [] = op_return ()"
| "mark_rows (r # rs) =
     op_bind (on_store (n_leg_request_update (request_id r) (Some ''SUBMITTED'') None [])) (\<lambda>_. mark_rows rs)"

definition mark_batch_rows_submitted :: "string \<Rightarrow> (World, unit) run" where
  "mark_batch_rows_submitted i = op_bind (ask n_leg_requests) (\<lambda>rows. mark_rows (filter (row_of_batch i) rows))"

definition stamp_awaiting_reconciliation :: "string \<Rightarrow> instant \<Rightarrow> (World, unit) run" where
  "stamp_awaiting_reconciliation i moment =
     op_bind (ask (\<lambda>s. batch_request_row s i)) (\<lambda>found.
     case found of
       None \<Rightarrow> op_return ()
     | Some row \<Rightarrow>
         if json_get (mapping_or_empty (request_row_payload row)) ''awaiting_reconciliation_at'' = JNull
         then op_bind (on_store (n_leg_request_update (request_id row) None None
                [(''awaiting_reconciliation_at'', JStr (isoformat moment))])) (\<lambda>_. op_return ())
         else op_return ())"

text \<open>What follows once the receipts are folded: the incident stop, the first reconciliation attempt, the row marks.\<close>

definition finish_submission :: "('b, 'c) Driver \<Rightarrow> string \<Rightarrow> instant \<Rightarrow> (World, TickResult) run" where
  "finish_submission env i moment =
     op_bind (ask (\<lambda>s. n_leg_batch s i)) (\<lambda>found.
     case found of
       None \<Rightarrow> op_return (Submitted i None)
     | Some b \<Rightarrow>
         if incident b \<noteq> None
         then op_bind (on_store (n_leg_requests_abandon_pending ''EXECUTION_INCIDENT_ACTIVE'')) (\<lambda>_.
              op_return (Submitted i (incident b)))
         else if batch_state b = AWAITING_RECONCILIATION
         then op_bind (try_complete_reconciliation env i) (\<lambda>complete.
              op_bind (if complete then mark_batch_rows_submitted i else stamp_awaiting_reconciliation i moment) (\<lambda>_.
              op_return (Submitted i None)))
         else if reconciled_state (batch_state b)
         then op_bind (mark_batch_rows_submitted i) (\<lambda>_. op_return (Submitted i None))
         else op_return (Submitted i None))"

definition submit_legs :: "('b, 'c) Driver \<Rightarrow> string \<Rightarrow> instant \<Rightarrow> (World, TickResult) run" where
  "submit_legs env i moment =
     op_bind (ask (\<lambda>s. n_leg_batch s i)) (\<lambda>found.
     case found of
       None \<Rightarrow> op_return (Skipped ''N_LEG_BATCH_NOT_FOUND'')
     | Some b \<Rightarrow>
         op_bind (submit_all env i (completion_order env (legs b))) (\<lambda>outcomes.
         op_bind (fold_receipts i b moment (sorted_outcomes outcomes)) (\<lambda>_.
         finish_submission env i moment)))"

subsection \<open>The watch over an open batch\<close>

text \<open>\<open>age < timeout\<close> for a stamp; a text that is no timestamp counts as written now.\<close>

definition within_window :: "NLegStore \<Rightarrow> string \<Rightarrow> instant \<Rightarrow> bool result" where
  "within_window s stamped moment =
     (let limit = reconciliation_timeout_seconds s * usec_per_second in
      case fromisoformat stamped of
        Naive \<Rightarrow> Inl TypeError
      | NotIso \<Rightarrow> Inr (0 < limit)
      | Aware t \<Rightarrow> Inr (moment - t < limit))"

definition flag_overdue :: "string \<Rightarrow> string \<Rightarrow> string \<Rightarrow> string \<Rightarrow> RequestRow \<Rightarrow> instant \<Rightarrow> (World, TickResult) run" where
  "flag_overdue i key at_key reason row moment =
     op_bind (on_store (n_leg_request_update (request_id row) None None
                [(key, JBool True), (at_key, JStr (isoformat moment))])) (\<lambda>_.
     op_return (Blocked reason i))"

definition start_window :: "string \<Rightarrow> RequestRow \<Rightarrow> instant \<Rightarrow> (World, TickResult) run" where
  "start_window key row moment =
     op_bind (on_store (n_leg_request_update (request_id row) None None [(key, JStr (isoformat moment))])) (\<lambda>_.
     op_return (Skipped ''EXECUTION_BATCH_ACTIVE''))"

definition active_batch_watchdog :: "Batch \<Rightarrow> instant \<Rightarrow> (World, TickResult) run" where
  "active_batch_watchdog b moment =
     (let i = execution_batch_id b in
      op_bind (ask (\<lambda>s. batch_request_row s i)) (\<lambda>found.
      case found of
        None \<Rightarrow> op_return (Skipped ''EXECUTION_BATCH_ACTIVE'')
      | Some row \<Rightarrow>
          let payload = mapping_or_empty (request_row_payload row);
              since = (case json_get payload ''active_batch_since'' of
                         JStr t \<Rightarrow> JStr t | _ \<Rightarrow> json_get payload ''admitted_at'')
          in
          case since of
            JStr t \<Rightarrow>
              op_bind (op_try (\<lambda>w. within_window (world_store w) t moment)) (\<lambda>young.
              if young then op_return (Skipped ''EXECUTION_BATCH_ACTIVE'')
              else flag_overdue i ''active_batch_overdue'' ''active_batch_overdue_at'' ''ACTIVE_BATCH_OVERDUE'' row moment)
          | _ \<Rightarrow> start_window ''active_batch_since'' row moment))"

definition reconciliation_watch :: "('b, 'c) Driver \<Rightarrow> string \<Rightarrow> instant \<Rightarrow> (World, TickResult) run" where
  "reconciliation_watch env i moment =
     op_bind (ask (\<lambda>s. n_leg_batch s i)) (\<lambda>found.
     case found of
       None \<Rightarrow> op_return (Skipped ''EXECUTION_BATCH_ACTIVE'')
     | Some b \<Rightarrow>
         if batch_state b \<noteq> AWAITING_RECONCILIATION then active_batch_watchdog b moment
         else
           op_bind (ask (\<lambda>s. batch_request_row s i)) (\<lambda>found.
           case found of
             None \<Rightarrow> op_return (Skipped ''EXECUTION_BATCH_ACTIVE'')
           | Some row \<Rightarrow>
               op_bind (try_complete_reconciliation env i) (\<lambda>complete.
               if complete
               then op_bind (mark_batch_rows_submitted i) (\<lambda>_. op_return (ReconciledBatch i))
               else
                 case json_get (mapping_or_empty (request_row_payload row)) ''awaiting_reconciliation_at'' of
                   JStr t \<Rightarrow>
                     op_bind (op_try (\<lambda>w. within_window (world_store w) t moment)) (\<lambda>young.
                     if young then op_return (Skipped ''EXECUTION_BATCH_ACTIVE'')
                     else flag_overdue i ''reconciliation_overdue'' ''reconciliation_overdue_at'' ''RECONCILIATION_TIMEOUT'' row moment)
                 | _ \<Rightarrow> start_window ''awaiting_reconciliation_at'' row moment)))"

subsection \<open>One tick\<close>

definition abandon :: "RequestRow \<Rightarrow> string \<Rightarrow> (World, TickResult) run" where
  "abandon row reason =
     op_bind (on_store (n_leg_request_update (request_id row) (Some ''ABANDONED'') (Some reason) [])) (\<lambda>_.
     op_return (Abandoned reason (request_id row)))"

definition admission :: "('b, 'c) Driver \<Rightarrow> (string \<times> json) list \<Rightarrow> (string \<times> json) list \<Rightarrow> instant \<Rightarrow> (World, Batch) run" where
  "admission env frozen proof_fields moment =
     op_bind (op_lift (source_factory env (JObj frozen))) (\<lambda>source.
     op_bind (op_lift (frozen_text frozen ''opportunity_episode_id'')) (\<lambda>opportunity.
     op_bind (op_lift (frozen_text frozen ''episode_lineage_id'')) (\<lambda>lineage.
     op_bind (op_lift (frozen_text frozen ''execution_batch_id'')) (\<lambda>i.
     op_bind (op_lift (partial_fill_proof_from_payload proof_fields)) (\<lambda>r.
     on_store (enter moment opportunity lineage i (decode_source env source) r ''MANUAL'' (cap_config_version_of frozen)
                 (Some (expected_versions frozen))))))))"

text \<open>\<open>except ValueError as exc\<close>: the handler sees the exception.\<close>

definition op_handle :: "(py_error \<Rightarrow> bool) \<Rightarrow> ('s, 'a) run \<Rightarrow> (py_error \<Rightarrow> ('s, 'b) run) \<Rightarrow> ('a \<Rightarrow> ('s, 'b) run) \<Rightarrow> ('s, 'b) run" where
  "op_handle caught m handler f s =
     (case m s of (Inl e, t) \<Rightarrow> if caught e then handler e t else (Inl e, t) | (Inr x, t) \<Rightarrow> f x t)"

definition drive :: "('b, 'c) Driver \<Rightarrow> RequestRow \<Rightarrow> (string \<times> json) list \<Rightarrow> (string \<times> json) list \<Rightarrow> instant \<Rightarrow> (World, TickResult) run" where
  "drive env row frozen proof_fields moment =
     op_handle is_value_error (admission env frozen proof_fields moment) (\<lambda>e. abandon row (admission_reason e)) (\<lambda>b.
     op_bind (on_store (n_leg_request_update (request_id row) (Some ''ADMITTED'') None
                [(''execution_batch_id'', JStr (execution_batch_id b)), (''admitted_at'', JStr (isoformat moment))])) (\<lambda>_.
     submit_legs env (execution_batch_id b) moment))"

definition serve_head :: "('b, 'c) Driver \<Rightarrow> RequestRow \<Rightarrow> instant \<Rightarrow> (World, TickResult) run" where
  "serve_head env row moment =
     (case request_row_payload row of
        JObj frozen \<Rightarrow>
          if \<not> all_legs_buy frozen then abandon row ''UNSUPPORTED_ACTION''
          else (case json_get frozen ''partial_fill_proof'' of
            JObj proof_fields \<Rightarrow>
              (case books_provider env (request_component_id row) of
                 None \<Rightarrow> abandon row ''BOOK_UNAVAILABLE''
               | Some books \<Rightarrow>
                   op_bind (op_try (\<lambda>w. preflight env (JObj frozen) books (driver_safety_config (world_store w))
                              (driver_policy (world_store w)) moment)) (\<lambda>refusal.
                   case refusal of
                     Some reason \<Rightarrow> abandon row reason
                   | None \<Rightarrow> drive env row frozen proof_fields moment))
          | _ \<Rightarrow> abandon row ''PARTIAL_FILL_PROOF_REQUIRED'')
      | _ \<Rightarrow> op_raise AttributeError)"

definition tick :: "('b, 'c) Driver \<Rightarrow> instant \<Rightarrow> (World, TickResult) run" where
  "tick env moment =
     op_bind (ask n_leg_control) (\<lambda>control.
     if breaker_open control then op_return (Skipped ''GLOBAL_BREAKER_OPEN'')
     else
       op_bind (ask unacknowledged_incident) (\<lambda>blocked.
       if blocked then op_return (Skipped ''EXECUTION_INCIDENT_ACTIVE'')
       else case active_batch_id control of
         Some i \<Rightarrow> reconciliation_watch env i moment
       | None \<Rightarrow>
           op_bind (ask n_leg_request_head) (\<lambda>head.
           case head of
             None \<Rightarrow> op_return (Skipped ''QUEUE_EMPTY'')
           | Some row \<Rightarrow> serve_head env row moment)))"


end
