(* ===== verification/Execution_Facts.thy ===== *)
theory Execution_Facts
  imports NLeg_Execution NLeg_Sample
begin

section \<open>What the receipt reducer guarantees\<close>

text \<open>
  Facts about the reducer of N-leg execution: legs only advance, a contradicting receipt stops trading, reservations
  stay conservative, repair prices are exact lot by lot and the planned repair loses least.
\<close>

subsection \<open>A leg only advances\<close>

definition receipt_progress :: "OrderReceipt \<Rightarrow> OrderReceipt \<Rightarrow> bool" where
  "receipt_progress p r \<longleftrightarrow>
     cumulative_filled_quantity p \<le> cumulative_filled_quantity r \<and> cumulative_cost_units p \<le> cumulative_cost_units r
     \<and> cumulative_fee_units p \<le> cumulative_fee_units r \<and> observed_at p \<le> observed_at r \<and> venue_timestamp p \<le> venue_timestamp r
     \<and> (terminal_state (receipt_state p) \<longrightarrow> terminal_state (receipt_state r))
     \<and> (receipt_venue_order_id p \<noteq> None \<longrightarrow> receipt_venue_order_id r = receipt_venue_order_id p)"

definition leg_progress :: "Leg \<Rightarrow> Leg \<Rightarrow> bool" where
  "leg_progress l l' \<longleftrightarrow>
     l'\<lparr>leg_receipt := None\<rparr> = l\<lparr>leg_receipt := None\<rparr>
     \<and> (\<forall>p. leg_receipt l = Some p \<longrightarrow> (\<exists>r. leg_receipt l' = Some r \<and> receipt_progress p r))
     \<and> (\<forall>r. leg_receipt l' = Some r \<longrightarrow> leg_receipt l' = leg_receipt l
          \<or> receipt_client_order_id r = leg_client_order_id l \<and> receipt_venue_id r = leg_venue_id l
            \<and> receipt_account_id r = leg_account_id l \<and> receipt_submitted_quantity r = leg_submitted_quantity l)"

lemma receipt_progress_refl [simp]: "receipt_progress r r"
  by (simp add: receipt_progress_def)

lemma receipt_progress_trans: "receipt_progress p q \<Longrightarrow> receipt_progress q r \<Longrightarrow> receipt_progress p r"
  by (auto simp: receipt_progress_def)

lemma leg_progress_refl [simp]: "leg_progress l l"
  by (simp add: leg_progress_def)

lemma leg_fields_same:
  assumes "l'\<lparr>leg_receipt := None\<rparr> = l\<lparr>leg_receipt := None\<rparr>"
  shows "leg_client_order_id l' = leg_client_order_id l" "leg_venue_id l' = leg_venue_id l"
    "leg_account_id l' = leg_account_id l" "leg_submitted_quantity l' = leg_submitted_quantity l"
  using assms by (cases l; cases l'; simp)+

lemma leg_progress_trans: "leg_progress l m \<Longrightarrow> leg_progress m n \<Longrightarrow> leg_progress l n"
  unfolding leg_progress_def
  by (metis (no_types, lifting) leg_fields_same receipt_progress_trans)

lemma legs_progress_trans:
  "list_all2 leg_progress xs ys \<Longrightarrow> list_all2 leg_progress ys zs \<Longrightarrow> list_all2 leg_progress xs zs"
  by (rule list_all2_trans[of leg_progress leg_progress leg_progress]) (auto intro: leg_progress_trans)

lemma resolve_conflicts_frame [simp]:
  "legs (resolve_conflicts b l r) = legs b" "receipts (resolve_conflicts b l r) = receipts b"
  "reservations (resolve_conflicts b l r) = reservations b" "execution_batch_id (resolve_conflicts b l r) = execution_batch_id b"
  "incident (resolve_conflicts b l r) = incident b" "batch_state (resolve_conflicts b l r) = batch_state b"
  by (simp_all add: resolve_conflicts_def Let_def)

lemma refresh_frame [simp]:
  "legs (refresh_reservations b) = legs b" "receipts (refresh_reservations b) = receipts b"
  "execution_batch_id (refresh_reservations b) = execution_batch_id b" "incident (refresh_reservations b) = incident b"
  "unresolved_conflicts (refresh_reservations b) = unresolved_conflicts b" "batch_state (refresh_reservations b) = batch_state b"
  by (simp_all add: refresh_reservations_def Let_def)

lemma accept_receipt_legs [simp]:
  "legs (accept_receipt b l r) = map (with_leg_receipt r) (legs b)"
  "receipts (accept_receipt b l r) = AList.update (receipt_id r) r (receipts b)"
  "execution_batch_id (accept_receipt b l r) = execution_batch_id b" "incident (accept_receipt b l r) = incident b"
  "batch_state (accept_receipt b l r) = batch_state b"
  by (simp_all add: accept_receipt_def Let_def)

lemma incident_copy_frame [simp]:
  "legs (incident_copy b r reason) = legs b" "receipts (incident_copy b r reason) = AList.update (receipt_id r) r (receipts b)"
  "execution_batch_id (incident_copy b r reason) = execution_batch_id b" "incident (incident_copy b r reason) = incident b"
  "reservations (incident_copy b r reason) = reservations b" "batch_state (incident_copy b r reason) = batch_state b"
  "unresolved_conflicts (incident_copy b r reason) = unresolved_conflicts b @ [conflict_record (legs b) r reason]"
  "repair_plan (incident_copy b r reason) = None"
  by (simp_all add: incident_copy_def Let_def)

lemma judge_prior_accept: "judge_prior p r = Accept \<Longrightarrow> receipt_progress p r"
  by (auto simp: judge_prior_def receipt_progress_def time_regressed_def Let_def split: if_splits option.splits)

lemma judge_accept:
  assumes "judge b r = Accept"
  obtains l where "filter (\<lambda>l. leg_client_order_id l = receipt_client_order_id r) (legs b) = [l]"
    "leg_venue_id l = receipt_venue_id r" "leg_account_id l = receipt_account_id r"
    "leg_submitted_quantity l = receipt_submitted_quantity r" "map_of (receipts b) (receipt_id r) = None"
    "\<forall>p. leg_receipt l = Some p \<longrightarrow> receipt_progress p r \<and> judge_prior p r = Accept"
  using assms by (auto simp: judge_def split: option.splits list.splits if_splits dest: judge_prior_accept)

lemma accept_progress:
  assumes "judge b r = Accept"
  shows "list_all2 leg_progress (legs b) (map (with_leg_receipt r) (legs b))"
proof -
  obtain l where l: "filter (\<lambda>l. leg_client_order_id l = receipt_client_order_id r) (legs b) = [l]"
    and same: "leg_venue_id l = receipt_venue_id r" "leg_account_id l = receipt_account_id r"
      "leg_submitted_quantity l = receipt_submitted_quantity r"
    and prior: "\<forall>p. leg_receipt l = Some p \<longrightarrow> receipt_progress p r \<and> judge_prior p r = Accept"
    using judge_accept[OF assms] by metis
  have "leg_progress m (with_leg_receipt r m)" if "m \<in> set (legs b)" for m
  proof (cases "leg_client_order_id m = receipt_client_order_id r")
    case True
    then have "m \<in> set (filter (\<lambda>l. leg_client_order_id l = receipt_client_order_id r) (legs b))"
      using that by simp
    then have "m = l"
      unfolding l by simp
    then show ?thesis
      using True same prior by (auto simp: leg_progress_def with_leg_receipt_def)
  qed (simp add: with_leg_receipt_def)
  then show ?thesis
    by (simp add: list_all2_map2 list.rel_refl_strong)
qed

lemma find_first_filter: "find P xs = Some x \<Longrightarrow> \<exists>ys. filter P xs = x # ys"
  by (induction xs) (auto split: if_splits)

lemma reduce_receipt_progress:
  assumes "reduce_receipt b r = Inr (b', reason, changed)"
  shows "list_all2 leg_progress (legs b) (legs b') \<and> execution_batch_id b' = execution_batch_id b"
  using assms accept_progress[of b r]
  by (auto simp: reduce_receipt_def list.rel_refl split: if_splits Verdict.splits option.splits)

lemma open_incident_frame:
  assumes "open_incident b control reason context = Inr (b', control')"
  shows "legs b' = legs b" "execution_batch_id b' = execution_batch_id b" "receipts b' = receipts b"
  using assms by (auto simp: open_incident_def planned_incident_def Let_def trip_breaker_def
      split: if_splits sum.splits option.splits)

lemma settle_frame:
  assumes "settle_receipt b control found context = Inr (b', control')"
  shows "legs b' = legs b" "execution_batch_id b' = execution_batch_id b" "receipts b' = receipts b"
  using assms by (auto simp: settle_receipt_def Let_def split: if_splits option.splits dest: open_incident_frame)

text \<open>A batch under a sequence of receipts, each with the repair context at hand when it arrives.\<close>

fun apply_receipts ::
  "(OrderReceipt \<times> RepairContext option) list \<Rightarrow> Batch \<Rightarrow> NLegControl \<Rightarrow> (Batch \<times> NLegControl) result" where
  "apply_receipts [] b control = Inr (b, control)"
| "apply_receipts ((r, context) # rest) b control =
     rbind (reduce_apply r context b control) (\<lambda>(b', control', _). apply_receipts rest b' control')"

text \<open>C14. Under any sequence of receipts a leg keeps its identity and its receipt only advances: filled lots, cost, fees and
  both clocks never go back, a terminal order never reopens, a venue order id once known never changes, and a receipt
  taken over always names the leg's own order, venue, account and quantity.\<close>

theorem receipts_only_advance:
  assumes "apply_receipts rs b control = Inr (b', control')"
  shows "list_all2 leg_progress (legs b) (legs b') \<and> execution_batch_id b' = execution_batch_id b"
  using assms
proof (induction rs b control rule: apply_receipts.induct)
  case (1 b control)
  then show ?case
    by (simp add: list.rel_refl)
next
  case (2 r ctx rest b control)
  obtain b1 control1 changed where step: "reduce_apply r ctx b control = Inr (b1, control1, changed)"
    and rest: "apply_receipts rest b1 control1 = Inr (b', control')"
    using "2.prems" by auto
  have "list_all2 leg_progress (legs b) (legs b1) \<and> execution_batch_id b1 = execution_batch_id b"
    using step reduce_receipt_progress[of b r]
    by (fastforce simp: reduce_apply_def list.rel_refl split: if_splits dest: settle_frame)
  then show ?case
    using "2.IH"[OF step refl refl rest] legs_progress_trans by auto
qed
subsection \<open>A contradicting receipt stops everything\<close>

lemma contradict_reasons: "judge b r = Contradict reason \<Longrightarrow> reason \<in> set breaker_reasons"
  by (auto simp: judge_def judge_prior_def breaker_reasons_def Let_def split: option.splits list.splits if_splits)

lemma max_ge_default: "d \<in> set xs \<Longrightarrow> d \<le> max_default e xs"
proof -
  have fold_max: "y \<le> fold max ys y \<and> (\<forall>x \<in> set ys. x \<le> fold max ys y)" for ys and y :: "'a::linorder"
  proof (induction ys arbitrary: y)
    case (Cons z zs)
    have "max z y \<le> fold max zs (max z y)" "\<forall>x \<in> set zs. x \<le> fold max zs (max z y)"
      using Cons.IH[of "max z y"] by auto
    then show ?case
      by (auto intro: order_trans[of _ "max z y"])
  qed simp
  then show "d \<in> set xs \<Longrightarrow> d \<le> max_default e xs"
    by (cases xs) (auto simp: max_default_def)
qed

lemma incident_copy_exposure:
  "\<exists>v. map_of (conflict_exposure (incident_copy b r reason)) (physical_key (conflict_record (legs b) r reason)) = Some v
     \<and> conflict_exposure_units (conflict_record (legs b) r reason) \<le> v"
  by (simp add: incident_copy_def Let_def update_conv)

text \<open>C13. A receipt that contradicts what is known (its id, its order identity, its sequence, its observation version, its
  clock, its totals or a terminal state) is never taken over into a leg. It puts the batch into an incident with the
  conflict on record, opens the breaker with the reason, drops the mode to MANUAL, keeps the batch active, and the
  capital counted for the account covers the reservations and the amount the conflicting report may still cost.\<close>

theorem contradiction_stops_trading:
  assumes "judge b r = Contradict reason" and "receipt_batch_id r = execution_batch_id b"
  shows "\<exists>b' control'. reduce_apply r context b control = Inr (b', control', True)
    \<and> legs b' = legs b \<and> batch_state b' = INCIDENT
    \<and> unresolved_conflicts b' = unresolved_conflicts b @ [conflict_record (legs b) r reason]
    \<and> map_of (receipts b') (receipt_id r) = Some r
    \<and> control_mode control' = ''MANUAL'' \<and> breaker_open control' \<and> breaker_reason control' = Some reason
    \<and> active_batch_id control' = Some (execution_batch_id b)
    \<and> total_unsettled_capital_units control' = prior_unsettled b' + batch_occupancy b'
    \<and> (\<exists>v \<ge> conflict_exposure_units (conflict_record (legs b) r reason).
         map_of (conflict_exposure b') (physical_key (conflict_record (legs b) r reason)) = Some v)"
proof -
  let ?c = "incident_copy b r reason"
  define b' where "b' = ?c\<lparr>batch_state := INCIDENT, execution_controls := execution_controls_of ?c,
    batch_unsettled_capital_units := batch_occupancy ?c, repair_plan := None,
    incident := make_incident reason ''CONFLICT_UNRESOLVED''\<rparr>"
  define control' where "control' = trip_breaker reason (control\<lparr>control_mode := ''MANUAL'',
    active_batch_id := Some (execution_batch_id b), total_unsettled_capital_units := prior_unsettled ?c + batch_occupancy ?c\<rparr>)"
  have "reduce_apply r context b control = Inr (b', control', True)"
    using assms contradict_reasons[OF assms(1)] unfolding b'_def control'_def
    by (simp add: reduce_apply_def reduce_receipt_def settle_receipt_def open_incident_def Let_def)
  moreover have "prior_unsettled b' = prior_unsettled ?c" "batch_occupancy b' = batch_occupancy ?c"
    by (simp_all add: b'_def prior_unsettled_def batch_occupancy_def terminal_ledger_cost_def)
  ultimately show ?thesis
    using incident_copy_exposure[of b r reason]
    by (auto simp: b'_def control'_def trip_breaker_def update_conv)
qed

subsection \<open>Reservations are conservative\<close>

lemma refreshed_conservative:
  "original_units (refreshed_reservation ls row) = original_units row"
  "original_units row \<le> remaining_units (refreshed_reservation ls row) + holding_units (refreshed_reservation ls row)"
  "units_for leg_key actual_units (filter (\<lambda>l. leg_receipt l \<noteq> None) ls) (reservation_key row)
     \<le> holding_units (refreshed_reservation ls row)"
  "0 \<le> remaining_units (refreshed_reservation ls row)"
  by (simp_all add: refreshed_reservation_def Let_def)

lemma units_for_ignored:
  assumes "\<And>x. \<not> P x \<Longrightarrow> f x = 0"
  shows "units_for key f (filter P xs) k = units_for key f xs k"
  using assms by (induction xs) (auto simp: units_for_def)

lemma exposures_nonnegative: "0 \<le> sum_list (filter (\<lambda>v. 0 \<le> v) (xs :: int list))"
  by (induction xs) auto

lemma reservations_sum:
  "sum_list (map original_units rows) \<le> sum_list (map (\<lambda>r. remaining_units r + holding_units r) (map (refreshed_reservation ls) rows))"
  by (induction rows) (simp, use refreshed_conservative(2) in \<open>force intro: add_mono\<close>)

text \<open>C38. After every accepted receipt the batch still counts at least its original reservations, and on every account at
  least the cash that the orders there have really spent; what is reserved for lots not yet filled is never negative
  and the amount stored with the batch is that sum.\<close>

theorem reservations_conservative:
  assumes "\<forall>(k, e) \<in> set (conflict_terminal_ledger b). 0 \<le> holding_capital_units e"
  shows "let b' = refresh_reservations b in
     sum_list (map original_units (reservations b)) \<le> batch_occupancy b'
     \<and> batch_unsettled_capital_units b' = batch_occupancy b'
     \<and> map reservation_key (reservations b') = map reservation_key (reservations b)
     \<and> (\<forall>row \<in> set (reservations b'). 0 \<le> remaining_units row
          \<and> original_units row \<le> remaining_units row + holding_units row
          \<and> units_for leg_key actual_units (legs b) (reservation_key row) \<le> holding_units row)"
proof -
  define b' where "b' = refresh_reservations b"
  have rows: "reservations b' = map (refreshed_reservation (legs b)) (reservations b)"
    by (simp add: b'_def refresh_reservations_def Let_def)
  have key: "reservation_key (refreshed_reservation ls row) = reservation_key row" for ls row
    by (simp add: refreshed_reservation_def Let_def)
  have ledger: "0 \<le> terminal_ledger_cost b'"
    using assms by (force simp: b'_def refresh_reservations_def Let_def terminal_ledger_cost_def intro!: sum_list_nonneg)
  have "sum_list (map original_units (reservations b)) \<le> batch_occupancy b'"
    using reservations_sum[of "reservations b" "legs b"] exposures_nonnegative[of "map snd (conflict_exposure b')"] ledger
    by (simp add: batch_occupancy_def rows)
  moreover have "batch_unsettled_capital_units b' = batch_occupancy b'"
    by (simp add: b'_def refresh_reservations_def Let_def batch_occupancy_def terminal_ledger_cost_def)
  moreover have "units_for leg_key actual_units (filter (\<lambda>l. leg_receipt l \<noteq> None) (legs b)) k
      = units_for leg_key actual_units (legs b) k" for k
    by (rule units_for_ignored) (simp add: actual_units_def)
  ultimately show ?thesis
    using refreshed_conservative[where ls = "legs b"] unfolding b'_def[symmetric] Let_def
    by (auto simp: rows key comp_def)
qed
subsection \<open>Prices of a fresh book\<close>

definition lot_prices :: "bool \<Rightarrow> CanonicalBookLevel list \<Rightarrow> int list" where
  "lot_prices buy ls =
     concat (map (\<lambda>l. replicate (nat (level_last_lot l - level_first_lot l + 1))
       (if buy then buy_ask_units l else sell_bid_units l)) ls)"

definition protected_total :: "int \<Rightarrow> int list \<Rightarrow> int" where
  "protected_total protection prices = sum_list (map (\<lambda>p. max 0 (p + protection)) prices)"

lemma protected_total_replicate: "protected_total q (replicate n p) = int n * max 0 (p + q)"
  by (simp add: protected_total_def sum_list_replicate)

lemma protected_total_append: "protected_total q (xs @ ys) = protected_total q xs + protected_total q ys"
  by (simp add: protected_total_def)

lemma book_units_loop_exact:
  assumes "\<forall>l \<in> set ls. level_first_lot l \<le> level_last_lot l"
  shows "book_units_loop ls buy protection n acc =
    (if 0 < n \<and> nat n \<le> length (lot_prices buy ls)
     then Inr (acc + protected_total protection (take (nat n) (lot_prices buy ls)))
     else Inl (ValueError ''fresh book lacks required depth''))"
  using assms
proof (induction ls arbitrary: n acc)
  case Nil
  then show ?case
    by (simp add: lot_prices_def)
next
  case (Cons l ls)
  define width where "width = level_last_lot l - level_first_lot l + 1"
  define price where "price = (if buy then buy_ask_units l else sell_bid_units l)"
  have width: "1 \<le> width"
    using Cons.prems by (simp add: width_def)
  have prices: "lot_prices buy (l # ls) = replicate (nat width) price @ lot_prices buy ls"
    by (simp add: lot_prices_def width_def price_def)
  show ?case
  proof (cases "n \<le> 0")
    case True
    then show ?thesis
      using Cons width by (simp add: width_def[symmetric])
  next
    case False
    show ?thesis
    proof (cases "n \<le> width")
      case True
      then show ?thesis
        using False width unfolding prices
        by (simp add: width_def[symmetric] price_def[symmetric] protected_total_append protected_total_replicate
            protected_total_def[of _ "[]"] Let_def)
    next
      case deep: False
      then have "take (nat n) (lot_prices buy (l # ls)) = replicate (nat width) price @ take (nat (n - width)) (lot_prices buy ls)"
        using width unfolding prices by (simp add: nat_diff_distrib)
      moreover have "nat n \<le> length (lot_prices buy (l # ls)) \<longleftrightarrow> nat (n - width) \<le> length (lot_prices buy ls)"
        using width deep unfolding prices by auto
      ultimately show ?thesis
        using False deep width Cons.IH[of "n - width" "acc + width * max 0 (price + protection)"] Cons.prems
        by (simp add: width_def[symmetric] price_def[symmetric] protected_total_append protected_total_replicate Let_def)
    qed
  qed
qed

text \<open>The cost of buying a repair is the sum, lot by lot, of the ask of the level that holds the lot plus tick and
  slippage protection, plus the fee rounded up; selling likewise takes the protected bids minus the fee, never below
  zero. A quantity that is not positive or exceeds the depth of the book is refused.\<close>

theorem repair_prices_exact:
  assumes "\<forall>l \<in> set (levels q). check_level l = Inr ()"
  shows "buy_cost q n =
      (if 0 < n \<and> nat n \<le> length (lot_prices True (levels q))
       then let gross = protected_total (tick_units q + slippage_units q) (take (nat n) (lot_prices True (levels q)))
            in Inr (gross + (gross * fee_ppm q + 999999) div 1000000)
       else Inl (ValueError ''fresh book lacks required depth''))
    \<and> sell_proceeds q n =
      (if 0 < n \<and> nat n \<le> length (lot_prices False (levels q))
       then let gross = protected_total (- (tick_units q + slippage_units q)) (take (nat n) (lot_prices False (levels q)))
            in Inr (max 0 (gross - (gross * fee_ppm q + 999999) div 1000000))
       else Inl (ValueError ''fresh book lacks required depth''))"
proof -
  have "\<forall>l \<in> set (levels q). level_first_lot l \<le> level_last_lot l"
    using assms by (auto simp: check_level_def require_def split: if_splits)
  then show ?thesis
    by (simp add: buy_cost_def sell_proceeds_def book_units_def book_units_loop_exact fee_of_def Let_def
        del: rbind_Inr_iff)
qed

subsection \<open>The repair plan\<close>

lemma least_loss_member: "least_loss c cs \<in> set (c # cs)"
proof (induction cs arbitrary: c)
  case (Cons d cs)
  then show ?case
    by (force simp: least_loss_def)
qed (simp add: least_loss_def)

lemma least_loss_least:
  "d \<in> set (c # cs) \<Longrightarrow> conservative_total_loss_units (least_loss c cs) \<le> conservative_total_loss_units d"
proof (induction cs arbitrary: c d)
  case (Cons e cs)
  let ?best = "if cheaper e c then e else c"
  have "conservative_total_loss_units ?best \<le> conservative_total_loss_units c"
    "conservative_total_loss_units ?best \<le> conservative_total_loss_units e"
    by (auto simp: cheaper_def)
  moreover have "conservative_total_loss_units (least_loss ?best cs) \<le> conservative_total_loss_units x"
    if "x \<in> set (?best # cs)" for x
    using Cons.IH[OF that] .
  moreover have "least_loss c (e # cs) = least_loss ?best cs"
    by (simp add: least_loss_def)
  ultimately show ?case
    using Cons.prems by (metis (no_types, lifting) list.set_intros(1,2) order_trans set_ConsD)
qed (simp add: least_loss_def)

lemma candidate_loss:
  assumes "candidate b family ls spend proceeds = Inr c"
  shows "\<exists>payout. candidate_payout b family = Inr payout \<and> candidate_family c = family \<and> candidate_legs c = ls
    \<and> conservative_total_loss_units c = max 0 (spend - proceeds - payout)"
  using assms by (auto simp: candidate_def)

definition candidates_of :: "Batch \<Rightarrow> RepairContext \<Rightarrow> RepairCandidate list" where
  "candidates_of b ctx =
     (case complete_candidate b ctx of Inr cs \<Rightarrow> cs | Inl e \<Rightarrow> []) @ (case exit_candidate b ctx of Inr cs \<Rightarrow> cs | Inl e \<Rightarrow> [])"

text \<open>C29. A repair is planned only without unresolved conflicts, from a context bound to the batch and with the exact cash
  facts of every order. The planned candidate is one of those that could be priced, none of them loses less, and it is
  marked over the cap exactly when its loss exceeds the automatic repair cap; no plan is ever eligible for automatic
  submission.\<close>

theorem repair_plan_least_loss:
  assumes "plan_repair b (Some ctx) = Inr (Some p)"
  shows "unresolved_conflicts b = [] \<and> context_binds b ctx \<and> bound_cash_flows b (repair_cash_flows ctx) (repair_now ctx)
    \<and> \<not> auto_eligible p
    \<and> (\<exists>c \<in> set (candidates_of b ctx). plan_candidate p = fingerprinted ctx c
         \<and> (\<forall>d \<in> set (candidates_of b ctx). conservative_total_loss_units c \<le> conservative_total_loss_units d)
         \<and> plan_reason p =
             (if max_auto_repair_loss b < conservative_total_loss_units c then ''REPAIR_LOSS_CAP_EXCEEDED''
              else ''REPAIR_PROOF_REQUIRED''))"
proof -
  have ok: "unresolved_conflicts b = []" "context_binds b ctx" "bound_cash_flows b (repair_cash_flows ctx) (repair_now ctx)"
    using assms by (auto simp: plan_repair_def split: if_splits)
  obtain cs1 f1 cs2 f2 where cs: "collected (complete_candidate b ctx) = Inr (cs1, f1)"
    "collected (exit_candidate b ctx) = Inr (cs2, f2)"
    using assms ok by (auto simp: plan_repair_def)
  have all: "candidates_of b ctx = cs1 @ cs2"
    using cs by (auto simp: collected_def candidates_of_def split: sum.splits if_splits)
  then obtain c rest where list: "map (fingerprinted ctx) (candidates_of b ctx) = c # rest"
    and p: "p = make_plan b (least_loss c rest)"
    using assms ok cs by (auto simp: plan_repair_def split: list.splits)
  have loss: "conservative_total_loss_units (fingerprinted ctx d) = conservative_total_loss_units d" for d
    by (simp add: fingerprinted_def)
  have "least_loss c rest \<in> fingerprinted ctx ` set (candidates_of b ctx)"
    using least_loss_member[of c rest] unfolding list[symmetric] by simp
  then obtain best where best: "best \<in> set (candidates_of b ctx)" "least_loss c rest = fingerprinted ctx best"
    by auto
  have "conservative_total_loss_units best \<le> conservative_total_loss_units d" if "d \<in> set (candidates_of b ctx)" for d
  proof -
    have "fingerprinted ctx d \<in> set (c # rest)"
      using that unfolding list[symmetric] by simp
    then show ?thesis
      using least_loss_least[of "fingerprinted ctx d" c rest] best(2) loss by simp
  qed
  then show ?thesis
    using ok best p loss by (auto simp: make_plan_def)
qed

subsection \<open>A batch of two legs\<close>

definition two_leg :: "string \<Rightarrow> OrderReceipt option \<Rightarrow> Leg" where
  "two_leg name r =
     \<lparr>leg_action_id = name, leg_client_order_id = ''B:'' @ name, leg_venue_id = ''V'', leg_account_id = ''acct'',
      leg_asset_id = name, leg_settlement_asset_id = ''USDC'', leg_side = BUY_YES, leg_submitted_quantity = 10,
      leg_max_cost_units = 100, leg_max_fee_units = 5, leg_receipt = r\<rparr>"

definition two_leg_receipt :: "string \<Rightarrow> string \<Rightarrow> int \<Rightarrow> int \<Rightarrow> OrderState \<Rightarrow> int \<Rightarrow> OrderReceipt" where
  "two_leg_receipt i name fill cost state n =
     \<lparr>receipt_id = i, receipt_batch_id = ''B'', receipt_client_order_id = ''B:'' @ name, receipt_venue_id = ''V'',
      receipt_account_id = ''acct'', receipt_venue_order_id = None, receipt_submitted_quantity = 10,
      cumulative_filled_quantity = fill, cumulative_cost_units = cost, cumulative_fee_units = 0, receipt_state = state,
      receipt_sequence = Some n, rest_confirmed = False, observed_at = n, venue_timestamp = n,
      rest_observation_version = None\<rparr>"

definition two_leg_batch :: "OrderReceipt option \<Rightarrow> OrderReceipt option \<Rightarrow> Batch" where
  "two_leg_batch ra rb =
     \<lparr>execution_batch_id = ''B'', opportunity_episode_id = ''E'', batch_component_id = None, batch_lineage_id = ''L'',
      batch_mode = ''MANUAL'', batch_state = ACTIVE, execution_solution_fingerprint = ''S'', account_fingerprint = ''F'',
      frozen_problem = sample_problem, frozen_budget = sample_budget, max_auto_repair_loss = 10,
      reservation_version = ''B:v1'', prior_unsettled_capital_units = 7, batch_unsettled_capital_units = 200,
      reservations = [\<lparr>reservation_key = (''V'', ''acct'', ''USDC''), original_units = 200, remaining_units = 200,
        holding_units = 0\<rparr>],
      legs = [two_leg ''a'' ra, two_leg ''b'' rb], receipts = [], confirmed_holdings = [], receipt_conflicts = [],
      unresolved_conflicts = [], conflict_exposure = [], capital_exposure_unknown = False,
      conflict_terminal_ledger = [], incident = None, repair_plan = None, execution_controls = [],
      reconciliation = None, entry_fingerprint = ''P''\<rparr>"

lemma two_leg_batch_fields [simp]:
  "execution_batch_id (two_leg_batch ra rb) = ''B''" "legs (two_leg_batch ra rb) = [two_leg ''a'' ra, two_leg ''b'' rb]"
  "receipts (two_leg_batch ra rb) = []" "unresolved_conflicts (two_leg_batch ra rb) = []"
  "incident (two_leg_batch ra rb) = None" "reservation_version (two_leg_batch ra rb) = ''B:v1''"
  "conflict_terminal_ledger (two_leg_batch ra rb) = []" "conflict_exposure (two_leg_batch ra rb) = []"
  "reservations (two_leg_batch ra rb) = [\<lparr>reservation_key = (''V'', ''acct'', ''USDC''), original_units = 200,
     remaining_units = 200, holding_units = 0\<rparr>]" "max_auto_repair_loss (two_leg_batch ra rb) = 10"
  by (simp_all add: two_leg_batch_def)

lemma two_leg_fields [simp]:
  "leg_client_order_id (two_leg name r) = ''B:'' @ name" "leg_receipt (two_leg name r) = r"
  "leg_venue_id (two_leg name r) = ''V''" "leg_account_id (two_leg name r) = ''acct''"
  "leg_submitted_quantity (two_leg name r) = 10" "leg_asset_id (two_leg name r) = name"
  "leg_settlement_asset_id (two_leg name r) = ''USDC''" "leg_max_cost_units (two_leg name r) = 100"
  by (simp_all add: two_leg_def)

lemma two_leg_receipt_fields [simp]:
  "receipt_id (two_leg_receipt i name fill cost state n) = i"
  "receipt_batch_id (two_leg_receipt i name fill cost state n) = ''B''"
  "receipt_client_order_id (two_leg_receipt i name fill cost state n) = ''B:'' @ name"
  "receipt_venue_id (two_leg_receipt i name fill cost state n) = ''V''"
  "receipt_account_id (two_leg_receipt i name fill cost state n) = ''acct''"
  "receipt_submitted_quantity (two_leg_receipt i name fill cost state n) = 10"
  "cumulative_filled_quantity (two_leg_receipt i name fill cost state n) = fill"
  "cumulative_cost_units (two_leg_receipt i name fill cost state n) = cost"
  "cumulative_fee_units (two_leg_receipt i name fill cost state n) = 0"
  "receipt_state (two_leg_receipt i name fill cost state n) = state"
  "receipt_sequence (two_leg_receipt i name fill cost state n) = Some n"
  "observed_at (two_leg_receipt i name fill cost state n) = n" "venue_timestamp (two_leg_receipt i name fill cost state n) = n"
  "receipt_venue_order_id (two_leg_receipt i name fill cost state n) = None"
  "rest_confirmed (two_leg_receipt i name fill cost state n) = False"
  by (simp_all add: two_leg_receipt_def)

theorem receipts_only_advance_witness:
  "\<exists>b' control'. apply_receipts [(two_leg_receipt ''r1'' ''a'' 10 90 ORDER_FILLED 1, None)] (two_leg_batch None None)
       default_control = Inr (b', control')
     \<and> list_all2 leg_progress (legs (two_leg_batch None None)) (legs b')
     \<and> map leg_receipt (legs b') = [Some (two_leg_receipt ''r1'' ''a'' 10 90 ORDER_FILLED 1), None]"
proof -
  let ?r = "two_leg_receipt ''r1'' ''a'' 10 90 ORDER_FILLED 1" and ?b = "two_leg_batch None None"
  have judged: "judge ?b ?r = Accept"
    by (simp add: judge_def)
  have "reduce_receipt ?b ?r = Inr (accept_receipt ?b (two_leg ''a'' None) ?r, None, True)"
    by (simp add: reduce_receipt_def judged accepted_incident_def)
  moreover have "\<not> all_terminal (accept_receipt ?b (two_leg ''a'' None) ?r)"
    by (simp add: all_terminal_def with_leg_receipt_def)
  ultimately have "apply_receipts [(?r, None)] ?b default_control
      = Inr (accept_receipt ?b (two_leg ''a'' None) ?r, default_control)"
    by (simp add: reduce_apply_def settle_receipt_def del: rbind_Inr_iff)
  then show ?thesis
    using receipts_only_advance[of "[(?r, None)]" ?b default_control "accept_receipt ?b (two_leg ''a'' None) ?r" default_control]
    by (auto simp: with_leg_receipt_def)
qed

theorem contradiction_stops_trading_witness:
  "\<exists>b' control'. reduce_apply (two_leg_receipt ''r2'' ''a'' 3 20 ORDER_CANCELLED 1) None
       (two_leg_batch (Some (two_leg_receipt ''r1'' ''a'' 10 90 ORDER_FILLED 1)) None)
       (default_control\<lparr>control_mode := ''AUTO''\<rparr>) = Inr (b', control', True)
     \<and> batch_state b' = INCIDENT \<and> control_mode control' = ''MANUAL''
     \<and> breaker_reason control' = Some ''SAME_SEQUENCE_CONFLICT'' \<and> active_batch_id control' = Some ''B''"
proof -
  let ?b = "two_leg_batch (Some (two_leg_receipt ''r1'' ''a'' 10 90 ORDER_FILLED 1)) None"
  let ?r = "two_leg_receipt ''r2'' ''a'' 3 20 ORDER_CANCELLED 1"
  have differs: "semantic_receipt (two_leg_receipt ''r1'' ''a'' 10 90 ORDER_FILLED 1) \<noteq> semantic_receipt ?r"
    by (simp add: semantic_receipt_def two_leg_receipt_def)
  have "judge ?b ?r = Contradict ''SAME_SEQUENCE_CONFLICT''"
    by (simp add: judge_def judge_prior_def differs Let_def)
  then show ?thesis
    using contradiction_stops_trading[of ?b ?r "''SAME_SEQUENCE_CONFLICT''" None "default_control\<lparr>control_mode := ''AUTO''\<rparr>"]
    by auto
qed

theorem reservations_conservative_witness:
  "200 \<le> batch_occupancy (refresh_reservations (two_leg_batch (Some (two_leg_receipt ''r1'' ''a'' 10 90 ORDER_FILLED 1)) None))"
  using reservations_conservative[of "two_leg_batch (Some (two_leg_receipt ''r1'' ''a'' 10 90 ORDER_FILLED 1)) None"]
  by (simp add: Let_def)

definition two_leg_quote :: "string \<Rightarrow> RepairQuote" where
  "two_leg_quote name =
     \<lparr>quote_client_order_id = ''B:'' @ name, quote_asset_id = name, quote_venue_id = ''V'', quote_account_id = ''acct'',
      quote_settlement_asset_id = ''USDC'',
      levels = [\<lparr>level_first_lot = 1, level_last_lot = 4, buy_ask_units = 9, sell_bid_units = 8\<rparr>,
                \<lparr>level_first_lot = 5, level_last_lot = 20, buy_ask_units = 10, sell_bid_units = 7\<rparr>],
      quote_source_timestamp = 5, quote_received_at = 5, fee_ppm = 20000, tick_units = 1, slippage_units = 0\<rparr>"

theorem repair_prices_exact_witness:
  "buy_cost (two_leg_quote ''a'') 10 = Inr 109 \<and> sell_proceeds (two_leg_quote ''a'') 10 = Inr 62
   \<and> buy_cost (two_leg_quote ''a'') 21 = Inl (ValueError ''fresh book lacks required depth'')"
proof -
  have "\<forall>l \<in> set (levels (two_leg_quote ''a'')). check_level l = Inr ()"
    by (simp add: two_leg_quote_def check_level_def require_def)
  note exact = repair_prices_exact[OF this]
  have "length (lot_prices True (levels (two_leg_quote ''a''))) = 20"
    "length (lot_prices False (levels (two_leg_quote ''a''))) = 20"
    "protected_total 1 (take 10 (lot_prices True (levels (two_leg_quote ''a'')))) = 106"
    "protected_total (- 1) (take 10 (lot_prices False (levels (two_leg_quote ''a'')))) = 64"
    by code_simp+
  moreover have "tick_units (two_leg_quote ''a'') = 1" "slippage_units (two_leg_quote ''a'') = 0"
    "fee_ppm (two_leg_quote ''a'') = 20000"
    by (simp_all add: two_leg_quote_def)
  ultimately show ?thesis
    using exact[of 10] exact[of 21] by simp
qed

definition two_leg_flow :: "string \<Rightarrow> int \<Rightarrow> SettlementCashFlow" where
  "two_leg_flow name cost =
     \<lparr>flow_client_order_id = ''B:'' @ name, flow_venue_order_id = None, flow_venue_id = ''V'', flow_account_id = ''acct'',
      flow_settlement_asset_id = ''USDC'', flow_cost_units = cost, flow_fee_units = 0, flow_source_timestamp = 5,
      flow_observed_at = 5, flow_observation_version = Some 1, flow_rest_confirmed = False\<rparr>"

definition two_leg_context :: RepairContext where
  "two_leg_context =
     \<lparr>repair_reservation_version = ''B:v1'', quotes = [two_leg_quote ''a'', two_leg_quote ''b''],
      repair_holdings = [\<lparr>holding_venue_id = ''V'', holding_account_id = ''acct'', holding_asset_id = ''a'',
        holding_quantity = 10, holding_source_timestamp = 5, holding_received_at = 5\<rparr>],
      repair_account_snapshot = \<lparr>captured_at = 5, balances = [\<lparr>balance_venue_id = ''V'', balance_account_id = ''acct'',
        balance_asset_id = ''USDC'', available_units = 0, allowance_units = 0\<rparr>],
        snapshot_max_per_trade_cost_units = 1000, unsettled_capital_units = 0, snapshot_max_total_unsettled_capital_units = 1000\<rparr>,
      repair_cash_flows = [two_leg_flow ''a'' 90, two_leg_flow ''b'' 0], repair_now = 6\<rparr>"

theorem repair_plan_least_loss_witness:
  "\<exists>p. plan_repair (two_leg_batch (Some (two_leg_receipt ''r1'' ''a'' 10 90 ORDER_FILLED 1))
         (Some (two_leg_receipt ''r2'' ''b'' 0 0 ORDER_REJECTED 1))) (Some two_leg_context) = Inr (Some p)
     \<and> conservative_total_loss_units (plan_candidate p) = 28 \<and> plan_reason p = ''REPAIR_LOSS_CAP_EXCEEDED''"
proof -
  let ?b = "two_leg_batch (Some (two_leg_receipt ''r1'' ''a'' 10 90 ORDER_FILLED 1))
    (Some (two_leg_receipt ''r2'' ''b'' 0 0 ORDER_REJECTED 1))"
  have quotes: "quote_of two_leg_context ''B:a'' = Some (two_leg_quote ''a'')" "quote_of two_leg_context ''B:b'' = Some (two_leg_quote ''b'')"
    by (simp_all add: quote_of_def two_leg_context_def two_leg_quote_def)
  have key: "quote_key (two_leg_quote name) = (''V'', ''acct'', ''USDC'')" for name
    by (simp add: quote_key_def two_leg_quote_def)
  have binds: "context_binds ?b two_leg_context"
    by (simp add: context_binds_def quotes leg_key_def key)
      (simp add: two_leg_context_def two_leg_quote_def two_leg_flow_def flow_key_def balance_key_def quote_key_def insert_commute)
  have flows: "bound_cash_flows ?b (repair_cash_flows two_leg_context) (repair_now two_leg_context)"
    by (simp add: bound_cash_flows_def two_leg_context_def two_leg_flow_def flow_bound_def flow_key_def leg_key_def fresh_def
        insert_commute)
  have prices: "buy_cost (two_leg_quote ''b'') 10 = Inr 109" "sell_proceeds (two_leg_quote ''a'') 10 = Inr 62"
    by code_simp+
  have unfilled: "unfilled_legs ?b = [(two_leg ''b'' (Some (two_leg_receipt ''r2'' ''b'' 0 0 ORDER_REJECTED 1)), 10)]"
    and filled: "filled_legs ?b = [(two_leg ''a'' (Some (two_leg_receipt ''r1'' ''a'' 10 90 ORDER_FILLED 1)), 10)]"
    by (simp_all add: unfilled_legs_def filled_legs_def)
  have "priced_legs buy_cost two_leg_context (unfilled_legs ?b) = Inr [((''V'', ''acct'', ''USDC''), 109)]"
    by (simp add: priced_legs_def unfilled quotes prices key del: rbind_Inr_iff)
  moreover have "\<not> affordable ?b two_leg_context [((''V'', ''acct'', ''USDC''), 109)]"
    by (simp add: affordable_def units_for_def two_leg_context_def balance_key_def Let_def)
  ultimately have complete: "complete_candidate ?b two_leg_context = Inr []"
    by (simp add: complete_candidate_def unfilled del: rbind_Inr_iff)
  have "holdings_cover two_leg_context (filled_legs ?b)"
    by (simp add: holdings_cover_def filled units_for_def two_leg_context_def holding_key_def leg_asset_key_def)
  moreover have "priced_legs sell_proceeds two_leg_context (filled_legs ?b) = Inr [((''V'', ''acct'', ''USDC''), 62)]"
    by (simp add: priced_legs_def filled quotes prices key del: rbind_Inr_iff)
  moreover have "cash_base two_leg_context = 90"
    by (simp add: cash_base_def two_leg_context_def two_leg_flow_def)
  ultimately have exit: "\<exists>c. exit_candidate ?b two_leg_context = Inr [c] \<and> conservative_total_loss_units c = 28"
    by (simp add: exit_candidate_def filled candidate_def candidate_payout_def del: rbind_Inr_iff)
  then obtain c where c: "exit_candidate ?b two_leg_context = Inr [c]" "conservative_total_loss_units c = 28"
    by blast
  have run: "plan_repair ?b (Some two_leg_context) = Inr (Some (make_plan ?b (fingerprinted two_leg_context c)))"
    by (simp add: plan_repair_def binds flows collected_def complete c least_loss_def del: rbind_Inr_iff)
  have "candidates_of ?b two_leg_context = [c]"
    by (simp add: candidates_of_def complete c)
  then show ?thesis
    using repair_plan_least_loss[OF run] run c by (auto simp: fingerprinted_def)
qed

end
