(* ===== verification/Service_Facts.thy ===== *)
theory Service_Facts
  imports NLeg_Service Execution_Facts
begin

section \<open>What admission and the durable reducer guarantee\<close>

text \<open>
  The ancestors of a lineage are computed exactly, every operation of the service keeps the N-leg tables well formed,
  and the lock on a lineage family: what it excludes, and the claims in the old format it lets through.
\<close>

subsection \<open>Ancestors\<close>

text \<open>\<open>j\<close> is a direct predecessor of \<open>i\<close> in the lineage graph.\<close>

definition precedes :: "LineageRow list \<Rightarrow> (string \<times> string) set" where
  "precedes rows = {(i, j). \<exists>r \<in> set rows. lineage_id r = i \<and> j \<in> set (predecessor_lineage_ids r)}"

lemma new_ancestors_image: "set (new_ancestors rows frontier ancestors) = precedes rows `` set frontier - set ancestors"
  by (auto simp: new_ancestors_set precedes_def)

lemma closure_step:
  "ancestor_closure rows [] ancestors = ancestors"
  "frontier \<noteq> [] \<Longrightarrow> ancestor_closure rows frontier ancestors
     = ancestor_closure rows (new_ancestors rows frontier ancestors) (ancestors @ new_ancestors rows frontier ancestors)"
  by (subst ancestor_closure.simps; simp add: Let_def)+

lemma closure_sound:
  assumes "set frontier \<subseteq> insert i ((precedes rows)\<^sup>+ `` {i})" "set ancestors \<subseteq> (precedes rows)\<^sup>+ `` {i}"
  shows "set (ancestor_closure rows frontier ancestors) \<subseteq> (precedes rows)\<^sup>+ `` {i}"
  using assms
proof (induction rows frontier ancestors rule: ancestor_closure.induct)
  case (1 rows frontier ancestors)
  let ?new = "new_ancestors rows frontier ancestors"
  have new: "set ?new \<subseteq> (precedes rows)\<^sup>+ `` {i}"
    using 1(2) by (auto simp: new_ancestors_image intro: trancl.intros)
  show ?case
  proof (cases "frontier = []")
    case False
    then have "set (ancestor_closure rows ?new (ancestors @ ?new)) \<subseteq> (precedes rows)\<^sup>+ `` {i}"
      using 1(1)[OF False refl] 1(3) new by auto
    then show ?thesis
      using False by (simp add: closure_step(2))
  qed (use 1(3) in \<open>simp add: closure_step(1)\<close>)
qed

lemma closure_closed:
  assumes "set frontier \<subseteq> insert i (set ancestors)" "i \<in> set frontier \<or> precedes rows `` {i} \<subseteq> set ancestors"
    "precedes rows `` (set ancestors - set frontier) \<subseteq> set ancestors"
  shows "set ancestors \<subseteq> set (ancestor_closure rows frontier ancestors)
    \<and> precedes rows `` insert i (set (ancestor_closure rows frontier ancestors)) \<subseteq> set (ancestor_closure rows frontier ancestors)"
  using assms
proof (induction rows frontier ancestors rule: ancestor_closure.induct)
  case (1 rows frontier ancestors)
  let ?new = "new_ancestors rows frontier ancestors"
  show ?case
  proof (cases "frontier = []")
    case True
    then show ?thesis
      using 1(3,4) by (auto simp: closure_step(1))
  next
    case False
    have step: "set ?new = precedes rows `` set frontier - set ancestors"
      by (rule new_ancestors_image)
    have "precedes rows `` {i} \<subseteq> set (ancestors @ ?new)"
      using 1(3) step by auto
    moreover have "precedes rows `` (set (ancestors @ ?new) - set ?new) \<subseteq> set (ancestors @ ?new)"
      using 1(4) unfolding step set_append by blast
    ultimately have "set (ancestors @ ?new) \<subseteq> set (ancestor_closure rows ?new (ancestors @ ?new))
        \<and> precedes rows `` insert i (set (ancestor_closure rows ?new (ancestors @ ?new)))
          \<subseteq> set (ancestor_closure rows ?new (ancestors @ ?new))"
      using 1(1)[OF False refl] by auto
    then show ?thesis
      using False by (simp add: closure_step(2))
  qed
qed

lemma set_lineage_ancestors: "set (lineage_ancestors rows i) = (precedes rows)\<^sup>+ `` {i} - {i}"
proof -
  let ?c = "set (ancestor_closure rows [i] [])"
  have "precedes rows `` insert i ?c \<subseteq> ?c"
    using closure_closed[of "[i]" i "[]" rows] by auto
  note closed = this
  have "j \<in> ?c" if "(i, j) \<in> (precedes rows)\<^sup>+" for j
    using that by (induction rule: trancl_induct) (use closed in auto)
  moreover have "?c \<subseteq> (precedes rows)\<^sup>+ `` {i}"
    by (rule closure_sound) auto
  ultimately show ?thesis
    by (auto simp: lineage_ancestors_def)
qed

text \<open>C26. The loop over the lineage graph ends, also on a graph with cycles, and returns exactly the lineages from which the
  given one descends through any number of predecessor links, itself left out.\<close>

theorem lineage_ancestors_exact:
  "set (lineage_ancestors rows i) = {j. (i, j) \<in> (precedes rows)\<^sup>+} - {i}"
  by (auto simp: set_lineage_ancestors)

subsection \<open>Admission, case by case\<close>

lemma create_batch_run:
  assumes "n_leg_batch s (execution_batch_id b) = None" "valid_entry b"
    and lock: "lineage_lock_decision s (batch_component_id b) (batch_lineage_id b) = (claim, reason)"
  shows "n_leg_create_batch now b expected s =
    (if lp_session_active s then (Inl (ValueError ''N_LEG_ACTIVE_LP_SESSION''), s)
     else if breaker_open (n_leg_control s) then (Inl (ValueError ''N_LEG_BREAKER_OPEN''), s)
     else if active_batch_id (n_leg_control s) \<noteq> None then (Inl (ValueError ''N_LEG_ACTIVE_BATCH_EXISTS''), s)
     else if reason \<noteq> None then (Inl (ValueError (or_else reason [])), s)
     else if claim = None \<and> lineage_claimed s (batch_lineage_id b)
     then (Inl (ValueError ''N_LEG_LINEAGE_ALREADY_CLAIMED''), s)
     else if admission_stale s b expected then (Inl (ValueError ''N_LEG_ADMISSION_VERSION_STALE''), s)
     else if over_unsettled_cap s b then (Inl (ValueError ''N_LEG_ADMISSION_UNSETTLED_CAP''), s)
     else let t = admitted now (or_else claim (batch_lineage_id b)) (claim \<noteq> None) b s in
       ((case n_leg_batch t (execution_batch_id b) of
           None \<Rightarrow> Inl (ValueError ''N_LEG_BATCH_NOT_FOUND'') | Some row \<Rightarrow> Inr row), t))"
  using assms(2) by (simp add: n_leg_create_batch_def assms(1) lock Let_def split: option.split)

lemma create_batch_cases:
  assumes "n_leg_create_batch now b expected s = (r, t)"
  obtains (same) "t = s" "\<And>row. r = Inr row \<Longrightarrow> n_leg_batch s (execution_batch_id b) = Some row"
    "\<And>row. r = Inr row \<Longrightarrow> entry_fingerprint row = entry_fingerprint b"
  | (fresh) claim where "n_leg_batch s (execution_batch_id b) = None" "\<not> lp_session_active s"
    "\<not> breaker_open (n_leg_control s)" "active_batch_id (n_leg_control s) = None"
    "lineage_lock_decision s (batch_component_id b) (batch_lineage_id b) = (claim, None)"
    "claim = None \<Longrightarrow> \<not> lineage_claimed s (batch_lineage_id b)"
    "\<not> admission_stale s b expected" "\<not> over_unsettled_cap s b"
    "t = admitted now (or_else claim (batch_lineage_id b)) (claim \<noteq> None) b s"
    "r = (case n_leg_batch t (execution_batch_id b) of
            None \<Rightarrow> Inl (ValueError ''N_LEG_BATCH_NOT_FOUND'') | Some row \<Rightarrow> Inr row)"
proof (cases "n_leg_batch s (execution_batch_id b)")
  case (Some row)
  then show ?thesis
    using assms by (intro same) (auto simp: n_leg_create_batch_def split: if_splits)
next
  case None
  show ?thesis
  proof (cases "valid_entry b")
    case True
    obtain claim reason where lock: "lineage_lock_decision s (batch_component_id b) (batch_lineage_id b) = (claim, reason)"
      by fastforce
    note run = create_batch_run[OF None True lock, of now expected]
    let ?ok = "\<not> lp_session_active s \<and> \<not> breaker_open (n_leg_control s) \<and> active_batch_id (n_leg_control s) = None
      \<and> reason = None \<and> \<not> (claim = None \<and> lineage_claimed s (batch_lineage_id b)) \<and> \<not> admission_stale s b expected
      \<and> \<not> over_unsettled_cap s b"
    show ?thesis
    proof (cases ?ok)
      case ok: True
      then have "r = (case n_leg_batch t (execution_batch_id b) of
            None \<Rightarrow> Inl (ValueError ''N_LEG_BATCH_NOT_FOUND'') | Some row \<Rightarrow> Inr row)"
        "t = admitted now (or_else claim (batch_lineage_id b)) (claim \<noteq> None) b s"
        using assms unfolding run Let_def by auto
      then show ?thesis
        using ok None lock by (intro fresh[of claim]) auto
    next
      case False
      then have "\<exists>e. n_leg_create_batch now b expected s = (Inl e, s)"
        unfolding run Let_def by (simp split: if_split) auto
      then show ?thesis
        using assms by (intro same) auto
    qed
  next
    case False
    then show ?thesis
      using assms by (intro same) (auto simp: n_leg_create_batch_def)
  qed
qed

subsection \<open>Reducers that keep the identity of a batch\<close>

text \<open>
  What \<open>n_leg_reduce\<close> relies on in a reducer: the batch keeps its id and its orders, and the slot of the active batch is left
  alone, released, or taken by this very batch.
\<close>

locale batch_reducer =
  fixes reduce :: "Batch \<Rightarrow> NLegControl \<Rightarrow> (Batch \<times> NLegControl \<times> bool) result"
  assumes keeps_id: "reduce b c = Inr (b', c', changed) \<Longrightarrow> execution_batch_id b' = execution_batch_id b"
    and keeps_orders: "reduce b c = Inr (b', c', changed) \<Longrightarrow> map leg_client_order_id (legs b') = map leg_client_order_id (legs b)"
    and keeps_slot: "reduce b c = Inr (b', c', changed)
      \<Longrightarrow> active_batch_id c' \<in> {active_batch_id c, None, Some (execution_batch_id b)}"
begin

lemma reduce_cases:
  assumes "n_leg_reduce i kind key reduce s = (r, t)"
  obtains (same) "t = s"
  | (changed) b b' c' where "n_leg_batch s i = Some b" "\<not> has_transition s i key"
      "reduce b (n_leg_control s) = Inr (b', c', True)" "r = Inr b'"
      "t = add_transition i kind key (Reduced b' c') (set_control (\<lambda>_. c') (write_batch i b' s))"
proof (cases "kind \<noteq> [] \<and> \<not> has_transition s i key \<and> (\<exists>b b' c'. n_leg_batch s i = Some b
    \<and> reduce b (n_leg_control s) = Inr (b', c', True))")
  case True
  then obtain b b' c' where "n_leg_batch s i = Some b" "reduce b (n_leg_control s) = Inr (b', c', True)"
    by blast
  then show ?thesis
    using assms True by (intro changed[of b b' c']) (simp_all add: n_leg_reduce_def)
next
  case False
  then have "t = s"
    using assms by (auto simp: n_leg_reduce_def split: if_splits option.splits sum.splits)
  then show ?thesis
    by (rule same)
qed

end

lemma list_all2_leg_orders: "list_all2 leg_progress xs ys \<Longrightarrow> map leg_client_order_id ys = map leg_client_order_id xs"
  by (induction rule: list_all2_induct) (auto simp: leg_progress_def dest: leg_fields_same(1))

lemma reduce_apply_progress:
  assumes "reduce_apply r ctx b c = Inr (b', c', changed)"
  shows "list_all2 leg_progress (legs b) (legs b')" "execution_batch_id b' = execution_batch_id b"
  using assms reduce_receipt_progress[of b r]
  by (fastforce simp: reduce_apply_def list.rel_refl split: if_splits dest: settle_frame)+

lemma open_incident_slot:
  "open_incident b c reason ctx = Inr (b', c') \<Longrightarrow> active_batch_id c' = Some (execution_batch_id b)"
  by (auto simp: open_incident_def planned_incident_def trip_breaker_def Let_def split: if_splits sum.splits option.splits)

lemma settle_slot:
  "settle_receipt b c found ctx = Inr (b', c') \<Longrightarrow> active_batch_id c' \<in> {active_batch_id c, Some (execution_batch_id b)}"
  by (auto simp: settle_receipt_def hold_batch_def Let_def split: if_splits option.splits dest!: open_incident_slot)

lemma reduce_apply_slot:
  assumes "reduce_apply r ctx b c = Inr (b', c', changed)"
  shows "active_batch_id c' \<in> {active_batch_id c, Some (execution_batch_id b)}"
  using assms reduce_receipt_progress[of b r]
  by (fastforce simp: reduce_apply_def split: if_splits dest!: settle_slot)

lemma merge_orders: "map leg_client_order_id (merge_canonical_resolution v ls) = map leg_client_order_id ls"
  by (induction ls) simp_all

lemma fold_resolutions_frame:
  "map leg_client_order_id (legs (fold apply_resolution items b)) = map leg_client_order_id (legs b)"
  "execution_batch_id (fold apply_resolution items b) = execution_batch_id b"
  by (induction items arbitrary: b) (auto simp: apply_resolution_def merge_orders split: prod.splits)

lemma resolve_with_evidence_frame:
  "map leg_client_order_id (legs (resolve_with_evidence b vs)) = map leg_client_order_id (legs b)"
  "execution_batch_id (resolve_with_evidence b vs) = execution_batch_id b"
  by (simp_all add: resolve_with_evidence_def Let_def fold_resolutions_frame split: option.splits)

lemma reduce_reconciliation_cases:
  assumes "reduce_reconciliation i ctx b c = Inr (b', c', changed)"
  obtains "b' = b" "c' = c" "\<not> changed"
  | "active_batch_id c = Some i" "(b', c') = reconciled ctx (resolve_with_evidence b (conflict_resolutions ctx)) c" changed
  using assms by (auto simp: reduce_reconciliation_def Let_def split: if_splits prod.splits)

interpretation receipt: batch_reducer "reduce_apply r ctx" for r ctx
proof
  show "execution_batch_id b' = execution_batch_id b" if "reduce_apply r ctx b c = Inr (b', c', changed)" for b c b' c' changed
    using that by (rule reduce_apply_progress)
  show "map leg_client_order_id (legs b') = map leg_client_order_id (legs b)"
    if "reduce_apply r ctx b c = Inr (b', c', changed)" for b c b' c' changed
    using reduce_apply_progress(1)[OF that] by (rule list_all2_leg_orders)
  show "active_batch_id c' \<in> {active_batch_id c, None, Some (execution_batch_id b)}"
    if "reduce_apply r ctx b c = Inr (b', c', changed)" for b c b' c' changed
    using reduce_apply_slot[OF that] by auto
qed

interpretation settlement: batch_reducer "reduce_reconciliation i ctx" for i ctx
proof
  fix b c b' c' changed
  assume "reduce_reconciliation i ctx b c = Inr (b', c', changed)"
  then show "execution_batch_id b' = execution_batch_id b"
    "map leg_client_order_id (legs b') = map leg_client_order_id (legs b)"
    "active_batch_id c' \<in> {active_batch_id c, None, Some (execution_batch_id b)}"
    by (auto elim!: reduce_reconciliation_cases simp: reconciled_def Let_def resolve_with_evidence_frame)
qed

subsection \<open>Well-formed tables\<close>

definition batch_ids :: "NLegStore \<Rightarrow> string list" where
  "batch_ids s = map fst (batch_rows s)"

definition well_formed_row :: "string \<times> Batch \<Rightarrow> bool" where
  "well_formed_row row \<longleftrightarrow>
     execution_batch_id (snd row) = fst row \<and> legs (snd row) \<noteq> [] \<and> distinct (map leg_client_order_id (legs (snd row)))"

definition transition_id :: "Transition \<Rightarrow> string \<times> string" where
  "transition_id t = (transition_batch_id t, transition_key t)"

definition store_wf :: "NLegStore \<Rightarrow> bool" where
  "store_wf s \<longleftrightarrow>
     distinct (batch_ids s) \<and> map claim_batch_id (claim_rows s) = batch_ids s
     \<and> distinct (map claim_lineage_id (claim_rows s)) \<and> list_all well_formed_row (batch_rows s)
     \<and> distinct (map transition_id (transition_rows s))
     \<and> list_all (\<lambda>t. transition_batch_id t \<in> set (batch_ids s)) (transition_rows s)
     \<and> (\<forall>i. active_batch_id (n_leg_control s) = Some i \<longrightarrow> i \<in> set (batch_ids s))"

lemmas store_wf_parts = store_wf_def batch_ids_def

lemma n_leg_batch_Some: "n_leg_batch s i = Some b \<Longrightarrow> (i, b) \<in> set (batch_rows s)"
  by (simp add: n_leg_batch_def map_of_SomeD)

lemma n_leg_batch_None: "n_leg_batch s i = None \<longleftrightarrow> i \<notin> set (batch_ids s)"
  by (simp add: n_leg_batch_def batch_ids_def map_of_eq_None_iff)

lemma batch_well_formed: "store_wf s \<Longrightarrow> n_leg_batch s i = Some b \<Longrightarrow> well_formed_row (i, b)"
  by (auto simp: store_wf_def list_all_iff dest: n_leg_batch_Some)

lemma has_transition_iff: "has_transition s i key \<longleftrightarrow> (i, key) \<in> set (map transition_id (transition_rows s))"
  by (auto simp: has_transition_def transition_id_def list_ex_iff)

lemma update_existing_keys: "k \<in> fst ` set xs \<Longrightarrow> map fst (AList.update k v xs) = map fst xs"
  by (induction xs) auto

lemma set_update_existing: "set (AList.update k v xs) \<subseteq> insert (k, v) (set xs)"
  using AList_update_member by fastforce

lemma wf_write:
  assumes "store_wf s" "well_formed_row (i, b)" "i \<in> set (batch_ids s)"
  shows "store_wf (write_batch i b s)"
proof -
  have ids: "batch_ids (write_batch i b s) = batch_ids s"
    using assms(3) by (simp add: batch_ids_def write_batch_def update_existing_keys)
  have "list_all well_formed_row (batch_rows (write_batch i b s))"
    using assms(1,2) set_update_existing[of i b "batch_rows s"] by (auto simp: store_wf_def list_all_iff write_batch_def)
  then show ?thesis
    using assms(1) ids by (simp add: store_wf_def write_batch_def)
qed

lemma wf_control:
  assumes "store_wf s" "\<And>i. active_batch_id (f (n_leg_control s)) = Some i \<Longrightarrow> i \<in> set (batch_ids s)"
  shows "store_wf (set_control f s)"
  using assms by (simp add: store_wf_parts)

lemma wf_transition:
  assumes "store_wf s" "i \<in> set (batch_ids s)" "\<not> has_transition s i key"
  shows "store_wf (add_transition i kind key payload s)"
  using assms by (auto simp: store_wf_parts add_transition_def has_transition_iff transition_id_def)

context batch_reducer
begin

lemma reduce_wf:
  assumes "store_wf s" "n_leg_reduce i kind key reduce s = (r, t)"
  shows "store_wf t" "batch_ids t = batch_ids s"
    "\<And>b. n_leg_batch t i' = Some b \<Longrightarrow> \<exists>b0. n_leg_batch s i' = Some b0 \<and> map leg_client_order_id (legs b) = map leg_client_order_id (legs b0)"
  using assms(2)
proof (atomize (full), cases rule: reduce_cases)
  case (changed b b' c')
  have row: "well_formed_row (i, b)"
    using assms(1) changed(1) by (rule batch_well_formed)
  note same = keeps_id[OF changed(3)] keeps_orders[OF changed(3)]
  have mem: "i \<in> set (batch_ids s)"
    using n_leg_batch_None[of s i] changed(1) by auto
  then have ids: "batch_ids t = batch_ids s"
    by (simp add: changed(5) batch_ids_def add_transition_def write_batch_def update_existing_keys)
  have "store_wf (write_batch i b' s)"
    using row same mem assms(1) by (intro wf_write) (auto simp: well_formed_row_def dest: map_eq_imp_length_eq)
  moreover have "active_batch_id c' = Some j \<Longrightarrow> j \<in> set (batch_ids s)" for j
    using keeps_slot[OF changed(3)] assms(1) row mem by (auto simp: store_wf_def well_formed_row_def)
  ultimately have "store_wf t"
    using mem changed(2) ids unfolding changed(5)
    by (intro wf_transition wf_control) (auto simp: has_transition_def batch_ids_def write_batch_def update_existing_keys)
  moreover have "n_leg_batch t i' = (if i' = i then Some b' else n_leg_batch s i')" for i'
    by (simp add: changed(5) n_leg_batch_def add_transition_def write_batch_def update_conv)
  ultimately show "store_wf t \<and> batch_ids t = batch_ids s \<and> (\<forall>b. n_leg_batch t i' = Some b \<longrightarrow> (\<exists>b0. n_leg_batch s i' = Some b0
      \<and> map leg_client_order_id (legs b) = map leg_client_order_id (legs b0)))"
    using ids changed(1) same by auto
qed (use assms(1) in auto)

end

subsection \<open>The operations of the service\<close>

lemma family_lock_unclaimed: "family_lock s rows identity current = (Some c, None) \<Longrightarrow> c = current \<and> \<not> lineage_claimed s c"
  by (auto simp: family_lock_def Let_def lineage_claimed_def list_ex_iff blocked_lineages_def image_iff split: if_splits)

lemma lock_unclaimed: "lineage_lock_decision s component frozen = (Some c, None) \<Longrightarrow> \<not> lineage_claimed s c"
  by (auto simp: lineage_lock_decision_def split: option.splits if_splits dest: family_lock_unclaimed)

definition stored_entry :: "string \<Rightarrow> bool \<Rightarrow> int \<Rightarrow> Batch \<Rightarrow> Batch" where
  "stored_entry lineage resolved prior b =
     b\<lparr>prior_unsettled_capital_units := prior, batch_lineage_id := (if resolved then lineage else batch_lineage_id b)\<rparr>"

lemma set_control_next [simp]: "next_fifo_index (set_control f s) = next_fifo_index s"
  by (simp add: set_control_def)

lemma admitted_fields [simp]:
  "batch_rows (admitted now lineage resolved b s)
     = batch_rows s @ [(execution_batch_id b, stored_entry lineage resolved (total_unsettled_capital_units (n_leg_control s)) b)]"
  "claim_rows (admitted now lineage resolved b s)
     = claim_rows s @ [\<lparr>claim_lineage_id = lineage, claim_opportunity_id = opportunity_episode_id b,
         claim_batch_id = execution_batch_id b, claim_created_at = now\<rparr>]"
  "transition_rows (admitted now lineage resolved b s) = transition_rows s"
  "request_rows (admitted now lineage resolved b s) = request_rows s"
  "next_fifo_index (admitted now lineage resolved b s) = next_fifo_index s"
  "active_batch_id (n_leg_control (admitted now lineage resolved b s)) = Some (execution_batch_id b)"
  "total_unsettled_capital_units (n_leg_control (admitted now lineage resolved b s))
     = total_unsettled_capital_units (n_leg_control s) + batch_unsettled_capital_units b"
  by (simp_all add: admitted_def Let_def stored_entry_def set_control_next)

lemma stored_entry_fields [simp]:
  "execution_batch_id (stored_entry lineage resolved prior b) = execution_batch_id b"
  "legs (stored_entry lineage resolved prior b) = legs b"
  "incident (stored_entry lineage resolved prior b) = incident b"
  "receipts (stored_entry lineage resolved prior b) = receipts b"
  "batch_state (stored_entry lineage resolved prior b) = batch_state b"
  by (simp_all add: stored_entry_def)

lemma admitted_batch:
  assumes "n_leg_batch s (execution_batch_id b) = None"
  shows "n_leg_batch (admitted now lineage resolved b s) i
    = (if i = execution_batch_id b then Some (stored_entry lineage resolved (total_unsettled_capital_units (n_leg_control s)) b)
       else n_leg_batch s i)"
  using assms by (auto simp: n_leg_batch_def map_of_append map_add_def split: option.splits)

lemma admitted_wf:
  assumes "store_wf s" "n_leg_batch s (execution_batch_id b) = None" "\<not> lineage_claimed s lineage"
    "legs b \<noteq> []" "distinct (map leg_client_order_id (legs b))"
  shows "store_wf (admitted now lineage resolved b s)"
  using assms
  by (auto simp: store_wf_parts n_leg_batch_None well_formed_row_def lineage_claimed_def list_ex_iff list_all_iff image_iff)

lemma create_batch_wf:
  assumes "store_wf s" "n_leg_create_batch now b expected s = (r, t)" "legs b \<noteq> []" "distinct (map leg_client_order_id (legs b))"
  shows "store_wf t"
  using assms(2)
proof (cases rule: create_batch_cases)
  case same
  then show ?thesis
    using assms(1) by simp
next
  case (fresh claim)
  have "\<not> lineage_claimed s (or_else claim (batch_lineage_id b))"
    using fresh(5,6) lock_unclaimed[of s "batch_component_id b" "batch_lineage_id b"] by (cases claim) auto
  then show ?thesis
    using assms fresh(1,9) by (simp add: admitted_wf)
qed

lemma enter_cases:
  assumes "enter now opportunity lineage i decoded proof mode cap expected s = (r, t)"
  obtains (refused) e where "r = Inl e" "t = s"
  | (created) d where "decoded = Inr d" "proof_is_bound_status proof (decoded_solution d) PARTIAL_FILL_SAFE"
      "proof_cap_config_version proof = cap" "solver_upper_bound proof \<le> proof_max_partial_fill_loss proof"
      "legs (entry_batch opportunity lineage i d proof mode cap) \<noteq> []"
      "distinct (map leg_client_order_id (legs (entry_batch opportunity lineage i d proof mode cap)))"
      "n_leg_create_batch now (entry_batch opportunity lineage i d proof mode cap) expected s = (r, t)"
proof -
  let ?texts = "all_required [require_text opportunity ''opportunity_episode_id'', require_text lineage ''episode_lineage_id'',
    require_text i ''execution_batch_id'']"
  let ?ok = "(\<lambda>d. proof_is_bound_status proof (decoded_solution d) PARTIAL_FILL_SAFE
      \<and> proof_cap_config_version proof = cap \<and> solver_upper_bound proof \<le> proof_max_partial_fill_loss proof
      \<and> legs (entry_batch opportunity lineage i d proof mode cap) \<noteq> []
      \<and> distinct (map leg_client_order_id (legs (entry_batch opportunity lineage i d proof mode cap))))"
  have "(\<exists>e. (r, t) = (Inl e, s)) \<or> (\<exists>d. decoded = Inr d \<and> ?ok d
      \<and> n_leg_create_batch now (entry_batch opportunity lineage i d proof mode cap) expected s = (r, t))"
    using assms
    by (cases ?texts; cases decoded; cases "mode \<in> {''MANUAL'', ''AUTO''}";
        cases "require_text cap ''cap_config_version''")
      (auto simp: enter_def Let_def split: if_splits)
  then show ?thesis
    using refused created by blast
qed

lemma transition_append_wf:
  assumes "store_wf s" "n_leg_transition_append i kind key payload s = (r, t)"
  shows "store_wf t \<and> batch_rows t = batch_rows s \<and> request_rows t = request_rows s \<and> n_leg_control t = n_leg_control s
    \<and> claim_rows t = claim_rows s \<and> next_fifo_index t = next_fifo_index s"
  using assms wf_transition[of s i key kind] n_leg_batch_None[of s i]
  by (auto simp: n_leg_transition_append_def add_transition_def split: if_splits sum.splits)

lemma acknowledge_wf:
  assumes "store_wf s" "n_leg_acknowledge_incident now i ack s = (r, t)"
  shows "store_wf t"
proof (cases "t = s")
  case False
  then obtain b where b: "n_leg_batch s i = Some b"
    using assms(2) by (cases "n_leg_batch s i") (auto simp: n_leg_acknowledge_incident_def)
  define s1 where "s1 = write_batch i (stored_batch (acknowledged_batch now ack b)) s"
  define s2 where "s2 = (if control_row s1 \<noteq> None \<and> active_batch_id (n_leg_control s1) = Some i
     then set_control (\<lambda>c. c\<lparr>active_batch_id := None\<rparr>) s1 else s1)"
  have mem: "i \<in> set (batch_ids s)"
    using n_leg_batch_None[of s i] b by auto
  have row: "well_formed_row (i, stored_batch (acknowledged_batch now ack b))"
    using batch_well_formed[OF assms(1) b] by (auto simp: well_formed_row_def stored_batch_def acknowledged_batch_def)
  have "store_wf s1"
    unfolding s1_def using assms(1) row mem by (rule wf_write)
  then have "store_wf s2"
    by (auto simp: s2_def intro!: wf_control)
  moreover have "i \<in> set (batch_ids s2)"
    using mem by (simp add: s2_def s1_def batch_ids_def write_batch_def update_existing_keys)
  moreover obtain payload where "t = (if has_transition s2 i (''incident-acknowledge:'' @ i) then s2
      else add_transition i ''INCIDENT_ACKNOWLEDGED'' (''incident-acknowledge:'' @ i) (Recorded payload) s2)"
    using assms(2) b False unfolding s1_def s2_def
    by (auto simp: n_leg_acknowledge_incident_def Let_def split: if_splits sum.splits)
  ultimately show ?thesis
    by (auto intro: wf_transition)
qed (use assms(1) in simp)

lemma breaker_reset_wf:
  assumes "store_wf s" "n_leg_breaker_reset s = (r, t)"
  shows "store_wf t"
  using assms by (auto simp: n_leg_breaker_reset_def store_wf_parts split: if_splits option.splits json.splits)

subsection \<open>Every reachable store is well formed\<close>

datatype Command =
    Enter instant string string string "DecodedEntry result" PartialFillProofRecord string string "(string \<times> json) list option"
  | Receive OrderReceipt "RepairContext option"
  | Reconcile string ReconciliationContext
  | Acknowledge instant string "(string \<times> json) list"
  | ResetBreaker
  | LogTransition string string string json

fun run_command :: "Command \<Rightarrow> NLegStore \<Rightarrow> NLegStore" where
  "run_command (Enter now opportunity lineage i decoded proof mode cap expected) s
     = snd (enter now opportunity lineage i decoded proof mode cap expected s)"
| "run_command (Receive r ctx) s = snd (apply_receipt r ctx s)"
| "run_command (Reconcile i ctx) s = snd (complete_reconciliation i ctx s)"
| "run_command (Acknowledge now i ack) s = snd (n_leg_acknowledge_incident now i ack s)"
| "run_command ResetBreaker s = snd (n_leg_breaker_reset s)"
| "run_command (LogTransition i kind key payload) s = snd (n_leg_transition_append i kind key payload s)"

lemma run_command_wf: "store_wf s \<Longrightarrow> store_wf (run_command c s)"
proof (induction c s rule: run_command.induct)
  case (1 now opportunity lineage i decoded q mode cap expected s)
  obtain r t where run: "enter now opportunity lineage i decoded q mode cap expected s = (r, t)"
    by fastforce
  then have "store_wf t"
    using 1 by (cases rule: enter_cases) (auto intro: create_batch_wf)
  then show ?case
    using run by simp
qed (auto simp: apply_receipt_def complete_reconciliation_def
       intro: receipt.reduce_wf(1) settlement.reduce_wf(1) acknowledge_wf breaker_reset_wf transition_append_wf[THEN conjunct1]
         surjective_pairing)

text \<open>
  The stores the service can reach. Between its operations the other components may change the tables that are not
  its own (the request queue, the mode contract, the lineage graph, the closed episodes).
\<close>

definition same_tables :: "NLegStore \<Rightarrow> NLegStore \<Rightarrow> bool" where
  "same_tables s t \<longleftrightarrow>
     batch_rows t = batch_rows s \<and> claim_rows t = claim_rows s \<and> transition_rows t = transition_rows s
     \<and> active_batch_id (n_leg_control t) = active_batch_id (n_leg_control s)"

inductive served :: "NLegStore \<Rightarrow> bool" where
  fresh: "batch_rows s = [] \<Longrightarrow> claim_rows s = [] \<Longrightarrow> transition_rows s = [] \<Longrightarrow> active_batch_id (n_leg_control s) = None
    \<Longrightarrow> served s"
| command: "served s \<Longrightarrow> served (run_command c s)"
| others: "served s \<Longrightarrow> same_tables s t \<Longrightarrow> served t"

lemma served_wf:
  assumes "served s"
  shows "store_wf s"
  using assms
proof (induction rule: served.induct)
  case (fresh s)
  then show ?case
    by (simp add: store_wf_parts)
next
  case (command s c)
  then show ?case
    by (simp add: run_command_wf)
next
  case (others s t)
  then show ?case
    by (simp add: store_wf_parts same_tables_def)
qed

text \<open>C25. In every store the service can reach, by any sequence of entries, receipts, reconciliations, acknowledgements, resets and
  transition writes, failing or not: batch ids are unique and each batch is stored under its own id with at least one leg
  and distinct order ids; the claims and the batches correspond one to one and no lineage is claimed twice; a
  transition belongs to a stored batch and its key occurs once per batch; the active batch is a stored one.\<close>

theorem tables_well_formed:
  assumes "served s"
  shows "store_wf s"
  using assms by (rule served_wf)

subsection \<open>Claims in the old format\<close>

lemma component_row: "row_by_component rows c = Some r \<Longrightarrow> r \<in> set rows \<and> lineage_component_id r = c"
  by (auto simp: row_by_component_def find_Some_iff)

lemma blocked_in_graph:
  assumes "x \<in> blocked_lineages s rows (lineage_id r)" "r \<in> set rows"
  shows "x \<in> lineage_id ` set rows \<union> all_predecessors rows"
proof -
  have "x \<in> all_predecessors rows" if "x \<in> set (lineage_ancestors rows i)" for i
  proof -
    have "(i, x) \<in> (precedes rows)\<^sup>+"
      using that by (simp add: set_lineage_ancestors)
    then show ?thesis
      by (induction rule: trancl_induct) (auto simp: precedes_def all_predecessors_def)
  qed
  then show ?thesis
    using assms by (auto simp: blocked_lineages_def dest: component_row)
qed

lemma legacy_family_open:
  assumes "\<forall>x \<in> lineage_id ` set rows \<union> all_predecessors rows. \<not> starts_with x legacy_prefix"
    "\<forall>x \<in> set (claim_rows s). starts_with (claim_lineage_id x) legacy_prefix"
    "row_by_component rows c = Some r"
  shows "family_lock s rows c (lineage_id r) = (Some (lineage_id r), None)"
proof -
  have r: "r \<in> set rows"
    using component_row[OF assms(3)] ..
  have "claim_lineage_id x \<notin> blocked_lineages s rows (lineage_id r)" if "x \<in> set (claim_rows s)" for x
    using blocked_in_graph[OF _ r] assms(1,2) that by blast
  then have "filter (\<lambda>x. claim_lineage_id x \<in> blocked_lineages s rows (lineage_id r)) (claim_rows s) = []"
    by (simp add: filter_empty_conv)
  then show ?thesis
    using assms(3) by (simp add: family_lock_def)
qed


definition legacy_store :: NLegStore where
  "legacy_store = empty_store\<lparr>
     lineage_rows := Some [\<lparr>lineage_component_id = ''c'', lineage_id = ''sha256:1'', predecessor_lineage_ids = [],
       lineage_status = ''ACTIVE'', lineage_generation = 1\<rparr>],
     claim_rows := [\<lparr>claim_lineage_id = ''lineage:c'', claim_opportunity_id = ''E'', claim_batch_id = ''B'', claim_created_at = 0\<rparr>]\<rparr>"


subsection \<open>An entry of two legs\<close>

definition entry_evidence :: "string \<Rightarrow> ExecutionLegEvidence" where
  "entry_evidence name =
     \<lparr>evidence_action_id = name, evidence_leg_venue_id = ''polymarket'', evidence_leg_account_id = ''acct'',
      evidence_chain_id = ''137'', evidence_native_id = name, evidence_side = BUY_YES, evidence_quantity_lots = 10,
      evidence_protected_price_units = 10, evidence_price_units_per_quote_unit = 100, evidence_max_fee_units = 0,
      evidence_max_cost_units = 100, evidence_leg_settlement_asset_id = ''USDC'', evidence_valuation_unit_id = ''USD'',
      evidence_source_fingerprint = ''q''\<rparr>"

definition entry_draft :: ExecutionSolution where
  "entry_draft =
     \<lparr>solution_market_fingerprint = ''m'', solution_account_fingerprint = ''acct-fp'',
      solution_quantities = [\<lparr>quantity_action_id = ''a'', quantity_lots = 10\<rparr>, \<lparr>quantity_action_id = ''b'', quantity_lots = 10\<rparr>],
      capital_use_units = 200, execution_legs = [entry_evidence ''a'', entry_evidence ''b''], order_ready = False,
      solution_reason = ''PARTIAL_FILL_PROOF_REQUIRED'', solution_fingerprint = []\<rparr>"

definition entry_solution :: ExecutionSolution where
  "entry_solution = entry_draft\<lparr>solution_fingerprint := expected_solution_fingerprint entry_draft\<rparr>"

definition proof_draft :: PartialFillProofRecord where
  "proof_draft =
     (let x = entry_solution; text = (\<lambda>k. case execution_solution_binding x of
        Inr binding \<Rightarrow> (case map_of binding k of Some (JStr t) \<Rightarrow> t | _ \<Rightarrow> []) | Inl _ \<Rightarrow> []) in
      \<lparr>proof_solution_fingerprint = text ''execution_solution_fingerprint'',
       proof_solution_payload_fingerprint = text ''execution_solution_payload_fingerprint'',
       proof_model_fingerprint = text ''model_fingerprint'', proof_quote_fingerprint = text ''quote_fingerprint'',
       proof_cost_fingerprint = text ''cost_fingerprint'',
       proof_order_semantics_fingerprint = text ''order_semantics_fingerprint'',
       proof_cap_config_version = ''caps-v1'', proof_max_partial_fill_loss = 50, proof_max_auto_repair_loss = 10,
       solver_lower_bound = 20, solver_upper_bound = 20, solver_termination = ''CLOSED'', solver_evidence_fingerprint = ''e'',
       proof_verifier_status = VERIFIER_QUALIFIED, verifier_fingerprint = ''v'', verifier_evidence_fingerprint = ''w'',
       partial_fill_status = PARTIAL_FILL_SAFE, partial_fill_fingerprint = []\<rparr>)"

definition entry_proof :: PartialFillProofRecord where
  "entry_proof = proof_draft\<lparr>partial_fill_fingerprint := fingerprint (JObj (proof_record_fields proof_draft))\<rparr>"

definition entry_decoded :: DecodedEntry where
  "entry_decoded = \<lparr>decoded_problem = sample_problem, decoded_budget = sample_budget, decoded_solution = entry_solution\<rparr>"

lemma entry_solution_fields [simp]:
  "decoded_solution entry_decoded = entry_solution"
  "order_ready entry_solution = False" "solution_reason entry_solution = ''PARTIAL_FILL_PROOF_REQUIRED''"
  "execution_legs entry_solution = [entry_evidence ''a'', entry_evidence ''b'']" "capital_use_units entry_solution = 200"
  "solution_fingerprint entry_solution = expected_solution_fingerprint entry_solution"
  by (simp_all add: entry_decoded_def entry_solution_def entry_draft_def expected_solution_fingerprint_def)

lemma entry_proof_bound:
  "proof_is_bound_status entry_proof entry_solution status \<longleftrightarrow> status = PARTIAL_FILL_SAFE"
  by (auto simp: proof_is_bound_status_def execution_solution_binding_def entry_proof_def proof_draft_def proof_record_fields_def)

lemma entry_proof_fields [simp]:
  "proof_cap_config_version entry_proof = ''caps-v1''" "solver_upper_bound entry_proof = 20"
  "proof_max_partial_fill_loss entry_proof = 50"
  by (simp_all add: entry_proof_def proof_draft_def Let_def)

definition entry_of :: "string \<Rightarrow> Batch" where
  "entry_of i = entry_batch ''E'' ''L'' i entry_decoded entry_proof ''MANUAL'' ''caps-v1''"

lemma entry_of_fields [simp]:
  "execution_batch_id (entry_of i) = i" "legs (entry_of i) = [entry_leg i (entry_evidence ''a''), entry_leg i (entry_evidence ''b'')]"
  "opportunity_episode_id (entry_of i) = ''E''" "batch_lineage_id (entry_of i) = ''L''" "batch_mode (entry_of i) = ''MANUAL''"
  "batch_unsettled_capital_units (entry_of i) = 200" "batch_component_id (entry_of i) = None" "incident (entry_of i) = None"
  by (simp_all add: entry_of_def entry_batch_def entry_decoded_def Let_def)

lemma enter_entry:
  assumes "require_text i ''execution_batch_id'' = Inr ()"
  shows "enter now ''E'' ''L'' i (Inr entry_decoded) entry_proof ''MANUAL'' ''caps-v1'' expected
    = n_leg_create_batch now (entry_of i) expected"
proof
  fix s
  have texts: "require_text ''E'' x = Inr ()" "require_text ''L'' x = Inr ()" "require_text ''caps-v1'' x = Inr ()" for x
    by (simp_all add: require_text_def strip_text_def py_space_def)
  have "distinct (map leg_client_order_id (legs (entry_of i)))"
    by (simp add: entry_leg_def entry_evidence_def)
  then show "enter now ''E'' ''L'' i (Inr entry_decoded) entry_proof ''MANUAL'' ''caps-v1'' expected s
      = n_leg_create_batch now (entry_of i) expected s"
    by (simp add: enter_def Let_def assms texts entry_proof_bound flip: entry_of_def)
qed

lemma create_entry:
  assumes "n_leg_batch s i = None" "i \<noteq> []" "lineage_rows s = None" "\<not> lp_session_active s" "\<not> breaker_open (n_leg_control s)"
    "active_batch_id (n_leg_control s) = None" "\<not> lineage_claimed s ''L''" "\<not> admission_stale s (entry_of i) expected"
    "unsettled_cap s = 0"
  shows "n_leg_create_batch now (entry_of i) expected s
    = (Inr (stored_entry ''L'' False (total_unsettled_capital_units (n_leg_control s)) (entry_of i)),
       admitted now ''L'' False (entry_of i) s)"
proof -
  have lock: "lineage_lock_decision s (batch_component_id (entry_of i)) (batch_lineage_id (entry_of i)) = (None, None)"
    using assms(3) by (simp add: lineage_lock_decision_def)
  have none: "n_leg_batch s (execution_batch_id (entry_of i)) = None" and valid: "valid_entry (entry_of i)"
    using assms(1,2) by (simp_all add: valid_entry_def)
  show ?thesis
    using assms unfolding create_batch_run[OF none valid lock]
    by (simp add: Let_def admitted_batch over_unsettled_cap_def)
qed

definition entry_command :: Command where
  "entry_command = Enter 0 ''E'' ''L'' ''B'' (Inr entry_decoded) entry_proof ''MANUAL'' ''caps-v1'' None"

theorem tables_well_formed_witness:
  "store_wf (run_command entry_command empty_store)
    \<and> batch_ids (run_command entry_command empty_store) = [''B'']
    \<and> active_batch_id (n_leg_control (run_command entry_command empty_store)) = Some ''B''"
proof -
  have valid_id: "require_text ''B'' ''execution_batch_id'' = Inr ()"
    by (simp add: require_text_def strip_text_def py_space_def)
  have run: "run_command entry_command empty_store = admitted 0 ''L'' False (entry_of ''B'') empty_store"
    by (simp add: entry_command_def enter_entry[OF valid_id] create_entry empty_store_def n_leg_batch_def n_leg_control_def
        default_control_def lineage_claimed_def admission_stale_def unsettled_cap_def n_leg_safety_config_latest_def latest_row_def)
  have "served empty_store"
    by (rule served.fresh) (simp_all add: empty_store_def n_leg_control_def default_control_def)
  then have "served (run_command entry_command empty_store)"
    by (rule served.command)
  then show ?thesis
    using tables_well_formed[of "run_command entry_command empty_store"]
    by (simp add: run batch_ids_def) (simp add: empty_store_def)
qed

end
