(* ===== verification/Fill_Outcomes.thy ===== *)
theory Fill_Outcomes
  imports Partial_Fill
begin

section \<open>Fills, settlements and their loss\<close>

text \<open>
  What the model of \<open>compile_fill_adversary\<close> is a model of: an outcome is a number of filled lots per leg, within what the
  order type of the leg allows, together with a settlement that the constraints allow. The integer points of the
  model are the outcomes, the objective is their loss up to negative payouts, \<open>counterexample_loss_units\<close> is the
  exact loss of an outcome, and \<open>enumerate_fill_adversary\<close> returns the largest loss of all.
\<close>

subsection \<open>Outcomes and their losses\<close>

text \<open>What the model is about: a number of filled lots per leg within what the order type allows, and a settlement.\<close>

definition unit_charge :: "FillLeg \<Rightarrow> int" where
  "unit_charge l =
     - ((- fill_max_cost_units l) div fill_quantity_lots l) + - ((- fill_max_fee_units l) div fill_quantity_lots l)"

definition leg_payout :: "ArbitrageProblem \<Rightarrow> (string \<Rightarrow> TerminalAtom) \<Rightarrow> FillLeg \<Rightarrow> int" where
  "leg_payout p w l =
     (case actions_by_id p (fill_action_id l) of
        None \<Rightarrow> 0 | Some a \<Rightarrow> payout_in (w (market_contract_id a)) (fill_action_id l))"

definition possible_fills :: "FillAdversaryProblem \<Rightarrow> (string \<Rightarrow> int) \<Rightarrow> bool" where
  "possible_fills q f \<longleftrightarrow> (\<forall>l \<in> set (fill_legs q). f (fill_action_id l) \<in> set (fill_domain l))"

definition outcome_loss :: "FillAdversaryProblem \<Rightarrow> (string \<Rightarrow> int) \<Rightarrow> (string \<Rightarrow> TerminalAtom) \<Rightarrow> int" where
  "outcome_loss q f w =
     (\<Sum>l \<leftarrow> fill_legs q. f (fill_action_id l) * (unit_charge l - leg_payout (fill_source_problem q) w l))"

text \<open>The part of a loss that comes from negative payouts, which the objective of the model leaves out.\<close>

definition negative_payout_loss :: "FillAdversaryProblem \<Rightarrow> (string \<Rightarrow> int) \<Rightarrow> (string \<Rightarrow> TerminalAtom) \<Rightarrow> int" where
  "negative_payout_loss q f w =
     (\<Sum>l \<leftarrow> fill_legs q. f (fill_action_id l) * max 0 (- leg_payout (fill_source_problem q) w l))"

lemma unit_loss_iff [simp]: "unit_loss l = Inr u \<longleftrightarrow> 0 < fill_quantity_lots l \<and> u = unit_charge l"
  by (auto simp: unit_loss_def ceil_div_def unit_charge_def)

lemma leg_term_iff [simp]:
  "leg_term l = Inr t \<longleftrightarrow>
     fill_semantics l \<noteq> UNKNOWN_SEMANTICS \<and> 0 < fill_quantity_lots l \<and> t = (fill_variable l, unit_charge l)"
  by (auto simp: leg_term_def)

lemma leg_terms:
  assumes "result_map leg_term ls = Inr terms"
  shows "terms = map (\<lambda>l. (fill_variable l, unit_charge l)) ls"
    and "\<And>l. l \<in> set ls \<Longrightarrow> fill_semantics l \<noteq> UNKNOWN_SEMANTICS \<and> 0 < fill_quantity_lots l"
proof -
  have "list_all2 (\<lambda>l t. fill_semantics l \<noteq> UNKNOWN_SEMANTICS \<and> 0 < fill_quantity_lots l
      \<and> t = (fill_variable l, unit_charge l)) ls terms"
    using assms by (simp add: result_map_Inr_iff)
  then have "terms = map (\<lambda>l. (fill_variable l, unit_charge l)) ls
      \<and> (\<forall>l \<in> set ls. fill_semantics l \<noteq> UNKNOWN_SEMANTICS \<and> 0 < fill_quantity_lots l)"
    by (induction rule: list_all2_induct) auto
  then show "terms = map (\<lambda>l. (fill_variable l, unit_charge l)) ls"
    "\<And>l. l \<in> set ls \<Longrightarrow> fill_semantics l \<noteq> UNKNOWN_SEMANTICS \<and> 0 < fill_quantity_lots l"
    by auto
qed

text \<open>The payout of a leg in an atom as the loops find it.\<close>

definition payout_piece ::
  "FillLeg \<Rightarrow> TerminalAtom \<Rightarrow> IntVariable \<times> LinearConstraint list \<times> (string \<times> int) list" where
  "payout_piece l a =
     (int_variable (payout_variable l a) 0 (fill_quantity_lots l), payout_rows l a,
      if 0 < payout_in a (fill_action_id l) then [(payout_variable l a, - payout_in a (fill_action_id l))] else [])"

lemma payout_part_piece: "payout_part l a = Inr x \<Longrightarrow> x = payout_piece l a"
  by (auto simp: payout_part_def payout_piece_def payout_in_def first_payout_def split: option.splits)

lemma payout_parts_pieces: "result_map (payout_part l) as = Inr ps \<Longrightarrow> ps = map (payout_piece l) as"
proof (unfold result_map_Inr_iff)
  assume "list_all2 (\<lambda>a x. payout_part l a = Inr x) as ps"
  then show "ps = map (payout_piece l) as"
    by (induction rule: list_all2_induct) (auto dest: payout_part_piece)
qed

text \<open>The contract of a leg, by the two lookups of the loop.\<close>

definition leg_state :: "ArbitrageProblem \<Rightarrow> FillLeg \<Rightarrow> TerminalStateSet" where
  "leg_state p l =
     the (Option.bind (actions_by_id p (fill_action_id l)) (\<lambda>a. states_by_contract p (market_contract_id a)))"

lemma leg_payout_parts_pieces:
  assumes wf: "wf_problem p" and "leg_payout_parts p l = Inr ps"
  shows "ps = map (payout_piece l) (atoms (leg_state p l))"
    "leg_state p l \<in> set (terminal_state_sets p)"
    "leg_payout p w l = payout_in (w (state_contract_id (leg_state p l))) (fill_action_id l)"
proof -
  obtain a s where a: "actions_by_id p (fill_action_id l) = Some a" and s: "states_by_contract p (market_contract_id a) = Some s"
    and ps: "result_map (payout_part l) (atoms s) = Inr ps"
    using assms(2) by (auto simp: leg_payout_parts_def)
  have st: "leg_state p l = s"
    by (simp add: leg_state_def a s)
  show "ps = map (payout_piece l) (atoms (leg_state p l))"
    using payout_parts_pieces[OF ps] by (simp add: st)
  show "leg_state p l \<in> set (terminal_state_sets p)"
    "leg_payout p w l = payout_in (w (state_contract_id (leg_state p l))) (fill_action_id l)"
    using s by (simp_all add: st leg_payout_def a states_by_contract_iff[OF wf])
qed

subsection \<open>The shape of the compiled model\<close>

abbreviation leg_pieces :: "ArbitrageProblem \<Rightarrow> FillLeg \<Rightarrow> (IntVariable \<times> LinearConstraint list \<times> (string \<times> int) list) list" where
  "leg_pieces p l \<equiv> map (payout_piece l) (atoms (leg_state p l))"

lemma all_leg_pieces:
  assumes wf: "wf_problem p" and "result_map (leg_payout_parts p) ls = Inr parts"
  shows "parts = map (leg_pieces p) ls"
    and "\<And>l. l \<in> set ls \<Longrightarrow> leg_state p l \<in> set (terminal_state_sets p)
           \<and> (\<forall>w. leg_payout p w l = payout_in (w (state_contract_id (leg_state p l))) (fill_action_id l))"
proof -
  have "list_all2 (\<lambda>l ps. leg_payout_parts p l = Inr ps) ls parts"
    using assms(2) by (simp add: result_map_Inr_iff)
  then have "parts = map (leg_pieces p) ls
      \<and> (\<forall>l \<in> set ls. leg_state p l \<in> set (terminal_state_sets p)
           \<and> (\<forall>w. leg_payout p w l = payout_in (w (state_contract_id (leg_state p l))) (fill_action_id l)))"
    by (induction rule: list_all2_induct) (use leg_payout_parts_pieces[OF wf] in auto)
  then show "parts = map (leg_pieces p) ls"
    "\<And>l. l \<in> set ls \<Longrightarrow> leg_state p l \<in> set (terminal_state_sets p)
       \<and> (\<forall>w. leg_payout p w l = payout_in (w (state_contract_id (leg_state p l))) (fill_action_id l))"
    by auto
qed

definition fill_model_of :: "ArbitrageProblem \<Rightarrow> FillLeg list \<Rightarrow> LinearModel \<Rightarrow> LinearModel" where
  "fill_model_of p ls m =
     linear_model (model_variables m @ concat (map leg_variables ls) @ map fst (concat (map (leg_pieces p) ls)))
       (model_constraints m @ concat (map leg_rows ls) @ concat (map (\<lambda>x. fst (snd x)) (concat (map (leg_pieces p) ls))))
       (Some (linear_objective MAXIMIZE
          (map (\<lambda>l. (fill_variable l, unit_charge l)) ls @ concat (map (\<lambda>x. snd (snd x)) (concat (map (leg_pieces p) ls))))))"

lemma compile_fill_adversary_shape:
  assumes "compile_fill_adversary q = Inr c"
  obtains m where "compile_terminal (fill_source_problem q) None = Inr m" "wf_problem (fill_source_problem q)"
    "fill_model c = fill_model_of (fill_source_problem q) (fill_legs q) m" "sound_model (fill_model c)"
    "fill_variables c = map (\<lambda>l. (fill_action_id l, fill_variable l)) (fill_legs q)"
    "\<And>l. l \<in> set (fill_legs q) \<Longrightarrow> fill_semantics l \<noteq> UNKNOWN_SEMANTICS \<and> 0 < fill_quantity_lots l
       \<and> leg_state (fill_source_problem q) l \<in> set (terminal_state_sets (fill_source_problem q))
       \<and> (\<forall>w. leg_payout (fill_source_problem q) w l
            = payout_in (w (state_contract_id (leg_state (fill_source_problem q) l))) (fill_action_id l))"
proof -
  let ?p = "fill_source_problem q" and ?ls = "fill_legs q"
  obtain m terms parts where m: "compile_terminal ?p None = Inr m" and terms: "result_map leg_term ?ls = Inr terms"
    and parts: "result_map (leg_payout_parts ?p) ?ls = Inr parts"
    and valid: "validate_linear_model (fill_model c) = Inr ()"
    and c: "fill_model c = linear_model (model_variables m @ concat (map leg_variables ?ls) @ map fst (concat parts))
        (model_constraints m @ concat (map leg_rows ?ls) @ concat (map (\<lambda>x. fst (snd x)) (concat parts)))
        (Some (linear_objective MAXIMIZE (terms @ concat (map (\<lambda>x. snd (snd x)) (concat parts)))))"
      "fill_variables c = map (\<lambda>l. (fill_action_id l, fill_variable l)) ?ls"
    using assms by (auto simp: compile_fill_adversary_def compile_terminal_model_def Let_def)
  have wf: "wf_problem ?p"
    using m by (auto simp: compile_terminal_def)
  show thesis
    by (rule that[OF m wf _ validate_linear_model_sound[OF valid] c(2)])
      (use c(1) leg_terms[OF terms] all_leg_pieces[OF wf parts] in \<open>auto simp: fill_model_of_def\<close>)
qed

subsection \<open>From points to outcomes\<close>

lemma feasible_fill_model:
  "feasible (fill_model_of p ls m) v \<longleftrightarrow>
     feasible m v
     \<and> (\<forall>l \<in> set ls. (\<forall>x \<in> set (leg_variables l). within_bounds x v) \<and> (\<forall>row \<in> set (leg_rows l). row_holds row v)
          \<and> (\<forall>a \<in> set (atoms (leg_state p l)).
               within_bounds (int_variable (payout_variable l a) 0 (fill_quantity_lots l)) v
               \<and> (\<forall>row \<in> set (payout_rows l a). row_holds row v)))"
  by (simp add: fill_model_of_def feasible_def[of m] payout_piece_def ball_Un ball_UN image_UN image_image) blast

lemma activity_pair [simp]: "activity [] v = 0" "activity ((n, c) # ts) v = v n * c + activity ts v"
  by (simp_all add: activity_def)

lemma leg_fill_domain:
  assumes "fill_semantics l \<noteq> UNKNOWN_SEMANTICS" and "0 < fill_quantity_lots l"
  shows "(\<forall>x \<in> set (leg_variables l). within_bounds x v) \<and> (\<forall>row \<in> set (leg_rows l). row_holds row v) \<longleftrightarrow>
      v (fill_variable l) \<in> set (fill_domain l)
      \<and> (fill_semantics l = ATOMIC \<longrightarrow> v (selector_variable l) = (if v (fill_variable l) = 0 then 0 else 1))"
proof (cases "fill_semantics l = ATOMIC")
  case True
  have "0 \<le> b \<and> b \<le> 1 \<and> 0 \<le> f \<and> f \<le> n \<and> f - b * n = 0 \<longleftrightarrow> (f = 0 \<or> f = n) \<and> b = (if f = 0 then 0 else 1)"
    if "0 < n" for b f n :: int
  proof -
    have "b = 0 \<or> b = 1" if "0 \<le> b" "b \<le> 1"
      using that by linarith
    then show ?thesis
      using that by auto
  qed
  moreover have "(\<forall>x \<in> set (leg_variables l). within_bounds x v) \<and> (\<forall>row \<in> set (leg_rows l). row_holds row v) \<longleftrightarrow>
      0 \<le> v (selector_variable l) \<and> v (selector_variable l) \<le> 1 \<and> 0 \<le> v (fill_variable l)
      \<and> v (fill_variable l) \<le> fill_quantity_lots l
      \<and> v (fill_variable l) - v (selector_variable l) * fill_quantity_lots l = 0"
    using True by (auto simp: leg_variables_def leg_rows_def within_bounds_def int_variable_def)
  ultimately show ?thesis
    using True assms(2) by (simp add: fill_domain_def)
qed (auto simp: leg_variables_def leg_rows_def fill_domain_def within_bounds_def int_variable_def)

text \<open>With the selector of an atom at 0 or 1, the three rows pin the helper variable to the product.\<close>

lemma payout_rows_product:
  assumes "0 \<le> v (fill_variable l)" "v (fill_variable l) \<le> fill_quantity_lots l"
    and "v (atom_variable a) = (if P then 1 else 0)"
  shows "within_bounds (int_variable (payout_variable l a) 0 (fill_quantity_lots l)) v
      \<and> (\<forall>row \<in> set (payout_rows l a). row_holds row v)
    \<longleftrightarrow> v (payout_variable l a) = (if P then v (fill_variable l) else 0)"
  using assms by (auto simp: payout_rows_def Let_def within_bounds_def int_variable_def)

lemma fill_domain_range:
  "f \<in> set (fill_domain l) \<Longrightarrow> 0 < fill_quantity_lots l \<Longrightarrow> 0 \<le> f \<and> f \<le> fill_quantity_lots l"
  by (auto simp: fill_domain_def split: if_splits)

lemma leg_objective:
  assumes wf: "wf_problem p" and w: "world_of p w" and s: "leg_state p l \<in> set (terminal_state_sets p)"
    and pay: "leg_payout p w l = payout_in (w (state_contract_id (leg_state p l))) (fill_action_id l)"
    and prod: "\<And>a. a \<in> set (atoms (leg_state p l)) \<Longrightarrow>
        v (payout_variable l a) = (if a = w (state_contract_id (leg_state p l)) then f else 0)"
  shows "activity (concat (map (\<lambda>x. snd (snd x)) (leg_pieces p l))) v = - f * max 0 (leg_payout p w l)"
proof -
  let ?i = "fill_action_id l" and ?s = "leg_state p l" and ?a = "w (state_contract_id (leg_state p l))"
  have concat_activity: "activity (concat xss) v = (\<Sum>xs \<leftarrow> xss. activity xs v)" for xss
    by (induction xss) auto
  have "activity (concat (map (\<lambda>x. snd (snd x)) (leg_pieces p l))) v
      = (\<Sum>a \<leftarrow> atoms ?s. if a = ?a then - f * max 0 (payout_in ?a ?i) else 0)"
    unfolding concat_activity using prod
    by (auto simp: payout_piece_def comp_def max_def intro!: arg_cong[of _ _ sum_list])
  also have "\<dots> = - f * max 0 (payout_in ?a ?i)"
    using sum_list_indicator[OF state_atoms_distinct[OF wf s], of ?a _ "\<lambda>_. True"] w s by (simp add: world_of_def)
  finally show ?thesis
    by (simp add: pay)
qed

lemma outcome_loss_split:
  "outcome_loss q f w - negative_payout_loss q f w =
     (\<Sum>l \<leftarrow> fill_legs q. f (fill_action_id l) * unit_charge l
        + - f (fill_action_id l) * max 0 (leg_payout (fill_source_problem q) w l))"
  unfolding outcome_loss_def negative_payout_loss_def sum_list_subtractf[symmetric]
  by (intro arg_cong[of _ _ sum_list] map_cong refl) (auto simp: max_def algebra_simps)

lemma fill_objective:
  assumes c: "compile_fill_adversary q = Inr c" and w: "world_of (fill_source_problem q) w"
    and f: "\<And>l. l \<in> set (fill_legs q) \<Longrightarrow> v (fill_variable l) = f (fill_action_id l)"
    and prod: "\<And>l a. l \<in> set (fill_legs q) \<Longrightarrow> a \<in> set (atoms (leg_state (fill_source_problem q) l)) \<Longrightarrow>
        v (payout_variable l a)
          = (if a = w (state_contract_id (leg_state (fill_source_problem q) l)) then f (fill_action_id l) else 0)"
  shows "objective_at (fill_model c) v = outcome_loss q f w - negative_payout_loss q f w"
proof -
  let ?p = "fill_source_problem q"
  from c obtain m where wf: "wf_problem ?p" and model: "fill_model c = fill_model_of ?p (fill_legs q) m"
    and legs: "\<And>l. l \<in> set (fill_legs q) \<Longrightarrow> leg_state ?p l \<in> set (terminal_state_sets ?p)
       \<and> (\<forall>w. leg_payout ?p w l = payout_in (w (state_contract_id (leg_state ?p l))) (fill_action_id l))"
    using compile_fill_adversary_shape[of q c] by metis
  have piece: "activity (concat (map (\<lambda>x. snd (snd x)) (leg_pieces ?p l))) v = - f (fill_action_id l) * max 0 (leg_payout ?p w l)"
    if "l \<in> set (fill_legs q)" for l
    using that legs[OF that] prod[OF that] by (intro leg_objective[OF wf w]) auto
  have "activity (map (\<lambda>l. (fill_variable l, unit_charge l)) ls
        @ concat (map (\<lambda>x. snd (snd x)) (concat (map (leg_pieces ?p) ls)))) v
      = (\<Sum>l \<leftarrow> ls. f (fill_action_id l) * unit_charge l + - f (fill_action_id l) * max 0 (leg_payout ?p w l))"
    if "set ls \<subseteq> set (fill_legs q)" for ls
    using that by (induction ls) (auto simp: f piece[unfolded map_map comp_def] comp_def)
  from this[of "fill_legs q"] show ?thesis
    unfolding outcome_loss_split by (simp add: model fill_model_of_def linear_model_def objective_at_def linear_objective_def)
qed

lemma feasible_fill_outcome:
  assumes c: "compile_fill_adversary q = Inr c" and v: "feasible (fill_model c) v"
  obtains w where "allowed_world (fill_source_problem q) w" "settles (fill_source_problem q) w v"
    "possible_fills q (\<lambda>i. v (''fill:'' @ i))"
    "objective_at (fill_model c) v
       = outcome_loss q (\<lambda>i. v (''fill:'' @ i)) w - negative_payout_loss q (\<lambda>i. v (''fill:'' @ i)) w"
proof -
  let ?p = "fill_source_problem q" and ?f = "\<lambda>i. v (''fill:'' @ i)"
  from c obtain m where m: "compile_terminal ?p None = Inr m" and wf: "wf_problem ?p"
    and model: "fill_model c = fill_model_of ?p (fill_legs q) m"
    and legs: "\<And>l. l \<in> set (fill_legs q) \<Longrightarrow> fill_semantics l \<noteq> UNKNOWN_SEMANTICS \<and> 0 < fill_quantity_lots l
       \<and> leg_state ?p l \<in> set (terminal_state_sets ?p)"
    using compile_fill_adversary_shape[of q c] by metis
  have fm: "feasible m v"
    using v by (simp add: model feasible_fill_model)
  then obtain w where w: "world_of ?p w" "settles ?p w v"
    using compile_terminal_points[OF m] by blast
  have fills: "v (fill_variable l) \<in> set (fill_domain l)" if "l \<in> set (fill_legs q)" for l
    using v that legs[OF that] leg_fill_domain[of l v] by (simp add: model feasible_fill_model)
  have prod: "v (payout_variable l a) = (if a = w (state_contract_id (leg_state ?p l)) then ?f (fill_action_id l) else 0)"
    if l: "l \<in> set (fill_legs q)" and a: "a \<in> set (atoms (leg_state ?p l))" for l a
  proof -
    have "v (atom_variable a) = (if a = w (state_contract_id (leg_state ?p l)) then 1 else 0)"
      using w(2) legs[OF l] a by (simp add: settles_def)
    then show ?thesis
      using payout_rows_product[of v l a] fill_domain_range[OF fills[OF l]] legs[OF l] v l a
      by (simp add: model feasible_fill_model fill_variable_def)
  qed
  show thesis
  proof
    show "allowed_world ?p w"
      using compile_terminal_rows[OF m w] fm by simp
    show "possible_fills q ?f"
      using fills by (simp add: possible_fills_def fill_variable_def)
    show "objective_at (fill_model c) v = outcome_loss q ?f w - negative_payout_loss q ?f w"
      using prod by (intro fill_objective[OF c w(1)]) (simp_all add: fill_variable_def)
  qed (rule w(2))
qed

subsection \<open>From outcomes to points\<close>

definition outcome_values ::
  "ArbitrageProblem \<Rightarrow> FillLeg list \<Rightarrow> LinearModel \<Rightarrow> (string \<Rightarrow> int) \<Rightarrow> (string \<Rightarrow> TerminalAtom) \<Rightarrow> (string \<times> int) list" where
  "outcome_values p ls m f w =
     map (\<lambda>x. (variable_name x, point_of p w (variable_name x))) (model_variables m)
     @ concat (map (\<lambda>l. (if fill_semantics l = ATOMIC then [(selector_variable l, if f (fill_action_id l) = 0 then 0 else 1)] else [])
                @ [(fill_variable l, f (fill_action_id l))]) ls)
     @ concat (map (\<lambda>l. map (\<lambda>a. (payout_variable l a,
                  if a = w (state_contract_id (leg_state p l)) then f (fill_action_id l) else 0)) (atoms (leg_state p l))) ls)"

lemma answer_at_distinct: "distinct (map fst vals) \<Longrightarrow> (n, x) \<in> set vals \<Longrightarrow> answer_at vals n = x"
  by (simp add: answer_at_def map_of_is_SomeI)

lemma outcome_values_names:
  "map fst (outcome_values p ls m f w)
     = map variable_name (model_variables m @ concat (map leg_variables ls) @ map fst (concat (map (leg_pieces p) ls)))"
  by (auto simp: outcome_values_def leg_variables_def int_variable_def payout_piece_def map_concat comp_def
      intro!: arg_cong[of _ _ concat])

lemma outcome_values_at:
  assumes "sound_model (fill_model_of p ls m)" and v: "v = answer_at (outcome_values p ls m f w)"
  shows "x \<in> set (model_variables m) \<Longrightarrow> v (variable_name x) = point_of p w (variable_name x)"
    "l \<in> set ls \<Longrightarrow> v (fill_variable l) = f (fill_action_id l)"
    "l \<in> set ls \<Longrightarrow> fill_semantics l = ATOMIC \<Longrightarrow> v (selector_variable l) = (if f (fill_action_id l) = 0 then 0 else 1)"
    "l \<in> set ls \<Longrightarrow> a \<in> set (atoms (leg_state p l)) \<Longrightarrow>
       v (payout_variable l a) = (if a = w (state_contract_id (leg_state p l)) then f (fill_action_id l) else 0)"
proof -
  let ?vs = "model_variables m @ concat (map leg_variables ls) @ map fst (concat (map (leg_pieces p) ls))"
  have "distinct (map variable_name ?vs)"
    using assms(1) unfolding sound_model_def fill_model_of_def linear_model_def
    by (simp add: distinct_map_sort del: map_append map_concat map_map)
  then have at: "v n = x" if "(n, x) \<in> set (outcome_values p ls m f w)" for n x
    using answer_at_distinct[OF _ that] by (simp add: v outcome_values_names)
  show "x \<in> set (model_variables m) \<Longrightarrow> v (variable_name x) = point_of p w (variable_name x)"
    by (rule at) (auto simp: outcome_values_def)
  show "l \<in> set ls \<Longrightarrow> v (fill_variable l) = f (fill_action_id l)"
    by (rule at) (auto simp: outcome_values_def)
  show "l \<in> set ls \<Longrightarrow> fill_semantics l = ATOMIC \<Longrightarrow> v (selector_variable l) = (if f (fill_action_id l) = 0 then 0 else 1)"
    by (rule at) (simp add: outcome_values_def bex_Un, blast)
  show "l \<in> set ls \<Longrightarrow> a \<in> set (atoms (leg_state p l)) \<Longrightarrow>
      v (payout_variable l a) = (if a = w (state_contract_id (leg_state p l)) then f (fill_action_id l) else 0)"
    by (rule at, unfold outcome_values_def set_append set_concat set_map image_image, intro UnI2 UN_I[of l])
      (auto simp: image_iff)
qed

lemma terminal_variables:
  assumes "compile_terminal p active = Inr m" "s \<in> set (terminal_state_sets p)" "a \<in> set (atoms s)"
  shows "\<exists>x \<in> set (model_variables m). variable_name x = atom_variable a"
  using assms by (force simp: compile_terminal_def Let_def linear_model_def state_variables_def int_variable_def)

lemma outcome_is_feasible:
  assumes c: "compile_fill_adversary q = Inr c" and w: "allowed_world (fill_source_problem q) w" and f: "possible_fills q f"
  obtains v where "feasible (fill_model c) v" "settles (fill_source_problem q) w v"
    "\<And>l. l \<in> set (fill_legs q) \<Longrightarrow> v (fill_variable l) = f (fill_action_id l)"
    "objective_at (fill_model c) v = outcome_loss q f w - negative_payout_loss q f w"
proof -
  let ?p = "fill_source_problem q" and ?ls = "fill_legs q"
  from c obtain m where m: "compile_terminal ?p None = Inr m" and wf: "wf_problem ?p"
    and model: "fill_model c = fill_model_of ?p (fill_legs q) m" and sound: "sound_model (fill_model c)"
    and legs: "\<And>l. l \<in> set (fill_legs q) \<Longrightarrow> fill_semantics l \<noteq> UNKNOWN_SEMANTICS \<and> 0 < fill_quantity_lots l
       \<and> leg_state ?p l \<in> set (terminal_state_sets ?p)"
    using compile_fill_adversary_shape[of q c] by metis
  define v where "v = answer_at (outcome_values ?p ?ls m f w)"
  note at = outcome_values_at[OF sound[unfolded model] v_def]
  have world: "world_of ?p w"
    using w by (simp add: allowed_world_def)
  have settles: "settles ?p w v"
    unfolding settles_def
  proof (intro ballI)
    fix s a assume sa: "s \<in> set (terminal_state_sets ?p)" "a \<in> set (atoms s)"
    then obtain x where "x \<in> set (model_variables m)" "variable_name x = atom_variable a"
      using terminal_variables[OF m] by blast
    then show "v (atom_variable a) = (if a = w (state_contract_id s) then 1 else 0)"
      using at(1)[of x] settles_point_of[OF wf world] sa by (simp add: settles_def)
  qed
  have "feasible m v"
    using compile_terminal_rows[OF m world settles] w by simp
  moreover have "v (fill_variable l) \<in> set (fill_domain l)
      \<and> (fill_semantics l = ATOMIC \<longrightarrow> v (selector_variable l) = (if v (fill_variable l) = 0 then 0 else 1))"
    if "l \<in> set ?ls" for l
    using f that at(2,3)[OF that] by (simp add: possible_fills_def)
  moreover have "within_bounds (int_variable (payout_variable l a) 0 (fill_quantity_lots l)) v
      \<and> (\<forall>row \<in> set (payout_rows l a). row_holds row v)" if l: "l \<in> set ?ls" and a: "a \<in> set (atoms (leg_state ?p l))" for l a
  proof (subst payout_rows_product)
    show "v (atom_variable a) = (if a = w (state_contract_id (leg_state ?p l)) then 1 else 0)"
      using settles legs[OF l] a by (simp add: settles_def)
  qed (use f l legs[OF l] fill_domain_range[of "f (fill_action_id l)" l] in \<open>auto simp: possible_fills_def at(2)[OF l] at(4)[OF l a]\<close>)
  ultimately have "feasible (fill_model c) v"
    using legs by (simp add: model feasible_fill_model leg_fill_domain[symmetric])
  then show thesis
    using that[of v] settles at(2) fill_objective[OF c world, of v f] at(4) by blast
qed

text \<open>C7. The linearised model of the fill adversary is exact. Every settlement that the constraints allow, with fills
  that the order types permit, is an integer point of the compiled model; every integer point is such an outcome; and
  the objective there is the loss of the outcome less what negative payouts add to it.\<close>

theorem fill_model_exact:
  assumes "compile_fill_adversary q = Inr c"
  shows "(\<forall>w f. allowed_world (fill_source_problem q) w \<longrightarrow> possible_fills q f \<longrightarrow>
      (\<exists>v. feasible (fill_model c) v \<and> settles (fill_source_problem q) w v
         \<and> (\<forall>l \<in> set (fill_legs q). v (fill_variable l) = f (fill_action_id l))
         \<and> objective_at (fill_model c) v = outcome_loss q f w - negative_payout_loss q f w))
    \<and> (\<forall>v. feasible (fill_model c) v \<longrightarrow>
      (\<exists>w f. allowed_world (fill_source_problem q) w \<and> possible_fills q f \<and> settles (fill_source_problem q) w v
         \<and> (\<forall>l \<in> set (fill_legs q). v (fill_variable l) = f (fill_action_id l))
         \<and> objective_at (fill_model c) v = outcome_loss q f w - negative_payout_loss q f w))"
proof (intro conjI allI impI)
  fix w f assume "allowed_world (fill_source_problem q) w" "possible_fills q f"
  then show "\<exists>v. feasible (fill_model c) v \<and> settles (fill_source_problem q) w v
      \<and> (\<forall>l \<in> set (fill_legs q). v (fill_variable l) = f (fill_action_id l))
      \<and> objective_at (fill_model c) v = outcome_loss q f w - negative_payout_loss q f w"
    using outcome_is_feasible[OF assms, of w f] by metis
next
  fix v assume "feasible (fill_model c) v"
  then show "\<exists>w f. allowed_world (fill_source_problem q) w \<and> possible_fills q f \<and> settles (fill_source_problem q) w v
      \<and> (\<forall>l \<in> set (fill_legs q). v (fill_variable l) = f (fill_action_id l))
      \<and> objective_at (fill_model c) v = outcome_loss q f w - negative_payout_loss q f w"
    using feasible_fill_outcome[OF assms, of v] fill_variable_def by metis
qed

subsection \<open>The recomputed loss\<close>

text \<open>What constructing a problem has checked of its legs.\<close>

definition wf_fill_legs :: "FillAdversaryProblem \<Rightarrow> bool" where
  "wf_fill_legs q \<longleftrightarrow>
     distinct (map fill_action_id (fill_legs q))
     \<and> (\<forall>l \<in> set (fill_legs q). 0 < fill_quantity_lots l
          \<and> (\<exists>a. actions_by_id (fill_source_problem q) (fill_action_id l) = Some a \<and> fill_venue_id l = venue_id a)
          \<and> fill_semantics l = order_semantics_lookup (fill_venue_id l) (fill_order_type l))"

lemma check_fill_problem_legs:
  assumes "check_fill_problem q = Inr u" and "\<forall>l \<in> set (fill_legs q). check_fill_leg l = Inr ()"
  shows "wf_fill_legs q"
proof -
  have step: "check_problem_leg acts l seen = Inr seen' \<longleftrightarrow>
      ((\<exists>a. acts (fill_action_id l) = Some a \<and> fill_venue_id l = venue_id a)
        \<and> fill_semantics l = order_semantics_lookup (fill_venue_id l) (fill_order_type l))
      \<and> fill_action_id l \<notin> set seen \<and> seen' = fill_action_id l # seen" for acts l seen seen'
    by (cases "acts (fill_action_id l)") (auto simp: check_problem_leg_def)
  have "\<exists>seen. result_fold (check_problem_leg (actions_by_id (fill_source_problem q))) (fill_legs q) [] = Inr seen"
    using assms(1) by (auto simp: check_fill_problem_def)
  moreover have "0 < fill_quantity_lots l" if "l \<in> set (fill_legs q)" for l
    using assms(2) that by (auto simp: check_fill_leg_def require_def split: if_splits)
  ultimately show ?thesis
    using name_loop[where f = "check_problem_leg (actions_by_id (fill_source_problem q))" and name = fill_action_id
        and seen = "[]" and xs = "fill_legs q", OF step]
    by (auto simp: wf_fill_legs_def)
qed

lemma add_leg_loss_world:
  assumes wf: "wf_problem p" and p: "p = fill_source_problem q" and w: "world_of p w"
    and act: "actions_by_id p (fill_action_id l) = Some act" and qty: "0 < fill_quantity_lots l"
    and fills: "fills (fill_action_id l) = Some n" "0 \<le> n" "n \<le> fill_quantity_lots l"
    and chosen: "\<And>s. s \<in> set (terminal_state_sets p) \<Longrightarrow> chosen (state_contract_id s) = Some (atom_id (w (state_contract_id s)))"
  shows "add_leg_loss q fills chosen l acc = Inr (acc + n * (unit_charge l - leg_payout p w l))"
proof -
  let ?i = "fill_action_id l"
  have a: "act \<in> set (actions p)" "action_id act = ?i"
    using act by (auto simp: actions_by_id_iff[OF wf])
  moreover have "state_contract_id ` set (terminal_state_sets p) = market_contract_id ` set (actions p)"
    using wf by (simp add: wf_problem_def)
  ultimately obtain s where s: "s \<in> set (terminal_state_sets p)" "state_contract_id s = market_contract_id act"
    by (metis imageE imageI)
  let ?a = "w (market_contract_id act)"
  have state: "states_by_contract p (market_contract_id act) = Some s"
    using s by (simp add: states_by_contract_iff[OF wf])
  have atom: "?a \<in> set (atoms s)"
    using w s by (auto simp: world_of_def)
  then have lookup: "atoms_by_id s (atom_id ?a) = Some ?a"
    by (simp add: atoms_by_id_iff[OF wf s(1)])
  have "payout_action_id ` set (payouts ?a) = action_id ` set (contract_actions p (state_contract_id s))"
    using wf_problem_state[OF wf s(1)] atom by (auto simp: wf_state_set_def wf_atom_def)
  then have "?i \<in> payout_action_id ` set (payouts ?a)"
    using a s by (simp add: contract_actions_def image_iff) (metis a(2))
  then obtain y where y: "first_payout ?a ?i = Some y"
    by (cases "first_payout ?a ?i") (auto simp: first_payout_def map_of_eq_None_iff comp_def image_image)
  have "unit_loss l = Inr (unit_charge l)"
    using qty by simp
  then show ?thesis
    using fills act state lookup y chosen[OF s(1)] s(2)
    by (simp add: add_leg_loss_def leg_payout_def payout_in_def flip: p first_payout_def) (simp add: first_payout_def algebra_simps)
qed

lemma result_fold_adds:
  assumes "\<And>x acc. x \<in> set xs \<Longrightarrow> g x acc = Inr (acc + h x)"
  shows "result_fold g xs acc = Inr (acc + (\<Sum>x \<leftarrow> xs. h x) :: int)"
  using assms by (induction xs arbitrary: acc) (auto simp: add.assoc)

lemma recomputed_loss:
  assumes wf: "wf_problem (fill_source_problem q)" and w: "world_of (fill_source_problem q) w"
    and legs: "wf_fill_legs q" and f: "possible_fills q f"
    and fills: "\<And>l. l \<in> set (fill_legs q) \<Longrightarrow> lots_of fills (fill_action_id l) = Some (f (fill_action_id l))"
    and sc: "set (scenario_atoms sc) = set (scenario_atoms (scenario_of_world (fill_source_problem q) w))"
      "distinct (map selected_contract_id (scenario_atoms sc))"
  shows "counterexample_loss_units q fills sc = Inr (outcome_loss q f w)"
proof -
  let ?p = "fill_source_problem q"
  define chosen where "chosen = last_wins (map (\<lambda>a. (selected_contract_id a, selected_atom_id a)) (scenario_atoms sc))"
  have chosen: "chosen (state_contract_id s) = Some (atom_id (w (state_contract_id s)))" if "s \<in> set (terminal_state_sets ?p)" for s
    unfolding chosen_def last_wins_keyed[OF sc(2)] sc(1) using that by (auto simp: scenario_of_world_atoms)
  have step: "add_leg_loss q (lots_of fills) chosen l acc
      = Inr (acc + f (fill_action_id l) * (unit_charge l - leg_payout ?p w l))" if l: "l \<in> set (fill_legs q)" for l acc
  proof -
    obtain act where act: "actions_by_id ?p (fill_action_id l) = Some act" and qty: "0 < fill_quantity_lots l"
      using legs l by (auto simp: wf_fill_legs_def)
    have "f (fill_action_id l) \<in> set (fill_domain l)"
      using f l by (simp add: possible_fills_def)
    then show ?thesis
      using fill_domain_range[of "f (fill_action_id l)" l] qty chosen fills[OF l]
      by (intro add_leg_loss_world[OF wf refl w act qty]) auto
  qed
  have "result_fold (add_leg_loss q (lots_of fills) chosen) (fill_legs q) 0 = Inr (0 + outcome_loss q f w)"
    unfolding outcome_loss_def by (rule result_fold_adds) (rule step)
  then show ?thesis
    using sc(2) by (simp add: counterexample_loss_units_def chosen_def Let_def comp_def)
qed

lemma scenario_of_world_distinct:
  "wf_problem p \<Longrightarrow> distinct (map selected_contract_id (scenario_atoms (scenario_of_world p w)))"
  using distinct_sorted_states[of p] by (simp add: scenario_of_world_atoms comp_def)

text \<open>The verifier reads the problem back in canonical order: payouts of a leg do not change.\<close>

lemma sorted_atom_id [simp]: "atom_id (sorted_atom a) = atom_id a"
  by (simp add: sorted_atom_def)

lemma payout_in_sorted_atom:
  assumes "distinct (map payout_action_id (payouts a))"
  shows "payout_in (sorted_atom a) i = payout_in a i"
proof -
  let ?kv = "\<lambda>x. (payout_action_id x, payout_lower_bound_per_lot_units x)"
  have dist: "distinct (map fst (map ?kv (payouts a)))" "distinct (map fst (map ?kv (sort_key payout_action_id (payouts a))))"
    using assms by (simp_all add: comp_def distinct_map)
  have "map_of (map ?kv (sort_key payout_action_id (payouts a))) = map_of (map ?kv (payouts a))"
    by (rule map_of_inject_set[THEN iffD2, OF dist(2,1)]) simp
  then show ?thesis
    by (simp add: payout_in_def sorted_atom_def)
qed

lemma sorted_problem_parts [simp]:
  "set (actions (sorted_problem p)) = set (actions p)"
  "set (terminal_state_sets (sorted_problem p)) = sorted_state_set ` set (terminal_state_sets p)"
  "state_contract_id (sorted_state_set s) = state_contract_id s"
  "set (atoms (sorted_state_set s)) = sorted_atom ` set (atoms s)"
  by (simp_all add: sorted_problem_def sorted_state_set_def)

lemma sorted_problem_world:
  assumes "world_of p w"
  shows "world_of (sorted_problem p) (sorted_atom \<circ> w)"
    "set (scenario_atoms (scenario_of_world (sorted_problem p) (sorted_atom \<circ> w))) = set (scenario_atoms (scenario_of_world p w))"
  using assms by (auto simp: world_of_def scenario_of_world_atoms image_image)

lemma sorted_problem_loss:
  assumes wf: "wf_problem (fill_source_problem q)" "wf_problem (sorted_problem (fill_source_problem q))"
    and w: "world_of (fill_source_problem q) w"
  shows "outcome_loss (q\<lparr>fill_source_problem := sorted_problem (fill_source_problem q)\<rparr>) f (sorted_atom \<circ> w) = outcome_loss q f w"
proof -
  let ?p = "fill_source_problem q"
  have acts: "actions_by_id (sorted_problem ?p) i = actions_by_id ?p i" for i
  proof -
    have "actions_by_id (sorted_problem ?p) i = Some a \<longleftrightarrow> actions_by_id ?p i = Some a" for a
      by (simp add: actions_by_id_iff[OF wf(1)] actions_by_id_iff[OF wf(2)])
    then show ?thesis
      by (metis not_None_eq)
  qed
  have "leg_payout (sorted_problem ?p) (sorted_atom \<circ> w) l = leg_payout ?p w l" for l
  proof (cases "actions_by_id ?p (fill_action_id l)")
    case (Some a)
    then have "a \<in> set (actions ?p)"
      by (simp add: actions_by_id_iff[OF wf(1)])
    then have "market_contract_id a \<in> state_contract_id ` set (terminal_state_sets ?p)"
      using wf(1) by (simp add: wf_problem_def)
    then obtain s where "s \<in> set (terminal_state_sets ?p)" "w (market_contract_id a) \<in> set (atoms s)"
      using w by (auto simp: world_of_def)
    then show ?thesis
      using Some acts payout_in_sorted_atom[OF atom_payouts_distinct[OF wf(1)]] by (simp add: leg_payout_def)
  qed (simp add: leg_payout_def acts)
  then show ?thesis
    by (simp add: outcome_loss_def)
qed

subsection \<open>The exhaustive reference is exact\<close>

text \<open>A loop that keeps the first largest value ends with the largest of all.\<close>

lemma keep_larger_loop:
  assumes "\<And>x best. x \<in> set xs \<Longrightarrow> g x best = Inr (if fst best < h x then (h x, k x) else best)"
  shows "\<exists>best'. result_fold g xs best = Inr best' \<and> fst best \<le> fst best' \<and> (\<forall>x \<in> set xs. h x \<le> fst best')
    \<and> (best' = best \<or> (\<exists>x \<in> set xs. fst best' = (h x :: int)))"
  using assms
proof (induction xs arbitrary: best)
  case (Cons x xs)
  let ?b = "if fst best < h x then (h x, k x) else best"
  obtain best' where "result_fold g xs ?b = Inr best'" "fst ?b \<le> fst best'" "\<forall>x \<in> set xs. h x \<le> fst best'"
    "best' = ?b \<or> (\<exists>x \<in> set xs. fst best' = h x)"
    using Cons.IH[of ?b] Cons.prems by (metis list.set_intros(2))
  then show ?case
    using Cons.prems by (auto split: if_splits)
qed simp

lemma keep_larger_loops:
  assumes "\<And>x y best. x \<in> set xs \<Longrightarrow> y \<in> set ys \<Longrightarrow> g x y best = Inr (if fst best < h x y then (h x y, k x y) else best)"
  shows "\<exists>best'. result_fold (\<lambda>x. result_fold (g x) ys) xs best = Inr best' \<and> fst best \<le> fst best'
    \<and> (\<forall>x \<in> set xs. \<forall>y \<in> set ys. h x y \<le> fst best')
    \<and> (best' = best \<or> (\<exists>x \<in> set xs. \<exists>y \<in> set ys. fst best' = (h x y :: int)))"
  using assms
proof (induction xs arbitrary: best)
  case (Cons x xs)
  obtain b where b: "result_fold (g x) ys best = Inr b" "fst best \<le> fst b" "\<forall>y \<in> set ys. h x y \<le> fst b"
    "b = best \<or> (\<exists>y \<in> set ys. fst b = h x y)"
    using keep_larger_loop[of ys "g x" "h x" "k x" best] Cons.prems by (metis list.set_intros(1))
  obtain best' where "result_fold (\<lambda>x. result_fold (g x) ys) xs b = Inr best'" "fst b \<le> fst best'"
    "\<forall>x \<in> set xs. \<forall>y \<in> set ys. h x y \<le> fst best'"
    "best' = b \<or> (\<exists>x \<in> set xs. \<exists>y \<in> set ys. fst best' = h x y)"
    using Cons.IH[of b] Cons.prems by (metis list.set_intros(2))
  then show ?case
    using b by (auto intro: order_trans)
qed simp

definition fills_at :: "FillLeg list \<Rightarrow> int list \<Rightarrow> string \<Rightarrow> int" where
  "fills_at ls fs i = (case map_of (zip (map fill_action_id ls) fs) i of None \<Rightarrow> 0 | Some n \<Rightarrow> n)"

lemma fill_vectors:
  assumes dist: "distinct (map fill_action_id ls)" and fs: "fs \<in> set (product_lists (map fill_domain ls))"
    and l: "l \<in> set ls"
  shows "lots_of (fill_quantities_of ls fs) (fill_action_id l) = Some (fills_at ls fs (fill_action_id l))"
    "fills_at ls fs (fill_action_id l) \<in> set (fill_domain l)"
proof -
  have all: "list_all2 (\<lambda>f l. f \<in> set (fill_domain l)) fs ls"
    using fs by (simp add: product_lists_set list_all2_map2)
  then have len: "length ls = length fs"
    by (simp add: list_all2_lengthD)
  obtain i where i: "i < length ls" "ls ! i = l"
    using l by (auto simp: in_set_conv_nth)
  have at: "map_of (zip (map fill_action_id ls) fs) (fill_action_id l) = Some (fs ! i)"
    using map_of_zip_nth[of "map fill_action_id ls" fs i] dist len i by simp
  have "map (\<lambda>q. (quantity_action_id q, quantity_lots q)) (fill_quantities_of ls fs) = zip (map fill_action_id ls) fs"
    unfolding fill_quantities_of_def using len by (intro nth_equalityI) auto
  then show "lots_of (fill_quantities_of ls fs) (fill_action_id l) = Some (fills_at ls fs (fill_action_id l))"
    using at dist len by (simp add: lots_of_def last_wins_distinct fills_at_def)
  show "fills_at ls fs (fill_action_id l) \<in> set (fill_domain l)"
    using all i by (auto simp: fills_at_def at list_all2_conv_all_nth)
qed

lemma possible_fills_vector:
  assumes dist: "distinct (map fill_action_id (fill_legs q))" and f: "possible_fills q f"
  obtains fs where "fs \<in> set (product_lists (map fill_domain (fill_legs q)))"
    "\<And>l. l \<in> set (fill_legs q) \<Longrightarrow> fills_at (fill_legs q) fs (fill_action_id l) = f (fill_action_id l)"
proof
  let ?fs = "map (\<lambda>l. f (fill_action_id l)) (fill_legs q)"
  show "?fs \<in> set (product_lists (map fill_domain (fill_legs q)))"
    using f by (auto simp: product_lists_set possible_fills_def list_all2_map1 list_all2_map2 intro!: list.rel_refl_strong)
  have "map_of (zip (map fill_action_id ls) (map (\<lambda>l. f (fill_action_id l)) ls)) (fill_action_id l) = Some (f (fill_action_id l))"
    if "l \<in> set ls" for l ls
    using that by (induction ls) auto
  from this[of _ "fill_legs q"]
  show "fills_at (fill_legs q) ?fs (fill_action_id l) = f (fill_action_id l)" if "l \<in> set (fill_legs q)" for l
    unfolding fills_at_def using that by (metis option.simps(5))
qed

lemma outcome_loss_cong:
  "(\<And>l. l \<in> set (fill_legs q) \<Longrightarrow> f (fill_action_id l) = g (fill_action_id l)) \<Longrightarrow> outcome_loss q f w = outcome_loss q g w"
  unfolding outcome_loss_def by (intro arg_cong[of _ _ sum_list] map_cong) auto

text \<open>The exhaustive search, when it closes, returns the largest loss over all outcomes.\<close>

definition worst_outcome :: "FillAdversaryProblem \<Rightarrow> int \<Rightarrow> bool" where
  "worst_outcome q worst \<longleftrightarrow>
     (\<forall>w f. allowed_world (fill_source_problem q) w \<longrightarrow> possible_fills q f \<longrightarrow> outcome_loss q f w \<le> worst)
     \<and> (\<exists>w f. allowed_world (fill_source_problem q) w \<and> possible_fills q f \<and> outcome_loss q f w = worst)"

lemma worst_outcome_unique: "worst_outcome q a \<Longrightarrow> worst_outcome q b \<Longrightarrow> a = b"
  unfolding worst_outcome_def by (metis order_antisym)

lemma enumerated_worst_outcome:
  assumes legs: "wf_fill_legs q" and run: "enumerate_fill_adversary q budget = Inr res" and closed: "oracle_closed res"
  shows "\<exists>worst. oracle_worst_loss res = Some worst \<and> worst_outcome q worst"
proof -
  let ?p = "fill_source_problem q" and ?ls = "fill_legs q" and ?vs = "product_lists (map fill_domain (fill_legs q))"
  obtain en scs best where en: "enumerate_allowed_scenarios ?p budget = Inr en" "scenarios en = Some scs"
    and best: "result_fold (\<lambda>fs. result_fold (keep_larger_loss q (fill_quantities_of ?ls fs)) scs) ?vs (0, [], None) = Inr best"
    and res: "oracle_worst_loss res = Some (fst best)"
    using run closed by (auto simp: enumerate_fill_adversary_def oracle_unknown_def split: if_splits option.splits)
  have wf: "wf_problem ?p"
    using en by (cases "wf_problem ?p") (auto simp: enumerate_allowed_scenarios_def enumerate_scenarios_def)
  have en': "enumerate_scenarios False ?p budget = Inr en"
    using en(1) by (simp add: enumerate_allowed_scenarios_def)
  have scs: "set scs = scenario_of_world ?p ` {w. allowed_world ?p w}" "scs \<noteq> []"
    using enumerated_scenarios[OF wf en' en(2)] enumerate_scenarios_Some(2)[OF wf en' en(2)] by auto
  have dist: "distinct (map fill_action_id ?ls)"
    using legs by (simp add: wf_fill_legs_def)
  have possible: "possible_fills q (fills_at ?ls fs)" if "fs \<in> set ?vs" for fs
    using fill_vectors(2)[OF dist that] by (simp add: possible_fills_def)
  have loss: "counterexample_loss_units q (fill_quantities_of ?ls fs) (scenario_of_world ?p w) = Inr (outcome_loss q (fills_at ?ls fs) w)"
    if "fs \<in> set ?vs" "allowed_world ?p w" for fs w
    using that possible[OF that(1)] fill_vectors(1)[OF dist that(1)] scenario_of_world_distinct[OF wf]
    by (intro recomputed_loss[OF wf _ legs]) (auto simp: allowed_world_def)
  define h where "h fs sc = (case counterexample_loss_units q (fill_quantities_of ?ls fs) sc of Inl _ \<Rightarrow> 0 | Inr n \<Rightarrow> n)" for fs sc
  have h: "h fs (scenario_of_world ?p w) = outcome_loss q (fills_at ?ls fs) w" if "fs \<in> set ?vs" "allowed_world ?p w" for fs w
    using loss[OF that] by (simp add: h_def)
  have step: "keep_larger_loss q (fill_quantities_of ?ls fs) sc b
      = Inr (if fst b < h fs sc then (h fs sc, fill_quantities_of ?ls fs, Some sc) else b)"
    if fs: "fs \<in> set ?vs" and sc: "sc \<in> set scs" for fs sc b
  proof -
    obtain w where w: "allowed_world ?p w" "sc = scenario_of_world ?p w"
      using sc scs(1) by auto
    show ?thesis
      unfolding w(2) h[OF fs w(1)] by (simp add: keep_larger_loss_def loss[OF fs w(1)])
  qed
  have loops: "0 \<le> fst best" "\<forall>fs \<in> set ?vs. \<forall>sc \<in> set scs. h fs sc \<le> fst best"
    "fst best = 0 \<or> (\<exists>fs \<in> set ?vs. \<exists>sc \<in> set scs. fst best = h fs sc)"
    using keep_larger_loops[where xs = ?vs and ys = scs and h = h and best = "(0, [], None)"
        and g = "\<lambda>fs. keep_larger_loss q (fill_quantities_of ?ls fs)"
        and k = "\<lambda>fs sc. (fill_quantities_of ?ls fs, Some sc)", OF step] best by auto
  have "outcome_loss q f w \<le> fst best" if w: "allowed_world ?p w" and f: "possible_fills q f" for w f
  proof -
    obtain fs where fs: "fs \<in> set ?vs" and at: "\<And>l. l \<in> set ?ls \<Longrightarrow> fills_at ?ls fs (fill_action_id l) = f (fill_action_id l)"
      using possible_fills_vector[OF dist f] by blast
    have "scenario_of_world ?p w \<in> set scs"
      using w by (simp add: scs(1))
    then have "h fs (scenario_of_world ?p w) \<le> fst best"
      using loops(2) fs by blast
    then show ?thesis
      using outcome_loss_cong[of q "fills_at ?ls fs" f w, OF at] h[OF fs w] by simp
  qed
  moreover have "\<exists>w f. allowed_world ?p w \<and> possible_fills q f \<and> outcome_loss q f w = fst best"
    using loops(3)
  proof
    assume "fst best = 0"
    moreover obtain w where "allowed_world ?p w"
      using scs by (metis (mono_tags, lifting) empty_Collect_eq image_empty set_empty)
    moreover have "possible_fills q (\<lambda>_. 0)"
      using legs by (auto simp: possible_fills_def fill_domain_def wf_fill_legs_def)
    moreover have "outcome_loss q (\<lambda>_. 0) w' = 0" for w'
      by (simp add: outcome_loss_def)
    ultimately show ?thesis
      by metis
  next
    assume "\<exists>fs \<in> set ?vs. \<exists>sc \<in> set scs. fst best = h fs sc"
    then obtain fs w where fs: "fs \<in> set ?vs" and w: "allowed_world ?p w" and eq: "fst best = h fs (scenario_of_world ?p w)"
      using scs(1) by auto
    show ?thesis
      using w possible[OF fs] h[OF fs w] eq by metis
  qed
  ultimately show ?thesis
    using res by (auto simp: worst_outcome_def)
qed

subsection \<open>Concrete problems\<close>

text \<open>One leg that buys two lots of NO for 800000 units with a fill-or-kill order; only the payout of the atom NO varies.\<close>

definition fill_action :: CandidateAction where
  "fill_action = \<lparr>action_id = ''a-no'', venue_id = ''polymarket'', account_id = ''acct'', chain_id = ''137'',
     market_contract_id = ''A'', settlement_observation_key = sample_key, side = BUY_NO, lot_step_units = 1,
     quantity_scale = 1, min_quantity_lots = 1, max_quantity_lots = 5, settlement_asset_id = ''usd-micro'',
     valuation_unit_id = ''usd-micro'', asset_valuation_rule_id = ''usd-micro-v1'', cost_slices = [sample_slice 1 5 400000]\<rparr>"

definition fill_source :: "int \<Rightarrow> ArbitrageProblem" where
  "fill_source pay = \<lparr>schema_version = PROBLEM_SCHEMA_V1, problem_id = ''p1'', as_of = 0,
     problem_valuation_unit_id = ''usd-micro'', actions = [fill_action],
     terminal_state_sets = [\<lparr>state_contract_id = ''A'', state_observation_key = sample_key, state_rule_version = ''v1'',
       atoms = [sample_atom ''a1'' NORMAL_YES ''a-no'' 0 5000000, sample_atom ''a2'' NORMAL_NO ''a-no'' pay 6000000]\<rparr>],
     constraint_model = \<lparr>relations = [], forbidden_atom_combinations = []\<rparr>, qualification_constraints = []\<rparr>"

definition fill_leg :: FillLeg where
  "fill_leg = \<lparr>fill_action_id = ''a-no'', fill_venue_id = ''polymarket'', fill_quantity_lots = 2, fill_order_type = ''FOK'',
     fill_semantics = ATOMIC, fill_max_cost_units = 800000, fill_max_fee_units = 0\<rparr>"

definition fill_draft :: "int \<Rightarrow> int \<Rightarrow> FillAdversaryProblem" where
  "fill_draft pay cap = \<lparr>fill_schema_version = FILL_ADVERSARY_SCHEMA_V1, fill_problem_kind = FILL_ADVERSARY_PROBLEM_KIND,
     fill_solution_fingerprint = ''s'', fill_solution_payload_fingerprint = ''p'', fill_model_fingerprint = ''m'',
     fill_quote_fingerprint = ''q'', fill_cost_fingerprint = ''c'', fill_order_semantics_fingerprint = ''o'',
     fill_order_semantics_version = ORDER_SEMANTICS_SCHEMA_V1, fill_cap_config_version = ''v1'',
     fill_max_partial_fill_loss = cap, fill_max_auto_repair_loss = 0, fill_legs = [fill_leg],
     fill_source_problem = fill_source pay, fill_fingerprint = []\<rparr>"

definition fill_sample :: "int \<Rightarrow> int \<Rightarrow> FillAdversaryProblem" where
  "fill_sample pay cap = (fill_draft pay cap)\<lparr>fill_fingerprint := fill_problem_fingerprint (fill_draft pay cap)\<rparr>"

lemma fill_sample_parts [simp]:
  "fill_source_problem (fill_sample pay cap) = fill_source pay" "fill_legs (fill_sample pay cap) = [fill_leg]"
  "fill_max_partial_fill_loss (fill_sample pay cap) = cap"
  by (simp_all add: fill_sample_def fill_draft_def)

text \<open>Compilation and recomputation read only the source problem and the legs.\<close>

lemma reads_source_and_legs:
  assumes "fill_source_problem q = fill_source_problem q'" "fill_legs q = fill_legs q'"
  shows "compile_fill_adversary q = compile_fill_adversary q'"
    "counterexample_loss_units q fills sc = counterexample_loss_units q' fills sc"
    "enumerate_fill_adversary q budget = enumerate_fill_adversary q' budget"
proof -
  show "compile_fill_adversary q = compile_fill_adversary q'"
    by (simp add: compile_fill_adversary_def assms)
  have loss: "counterexample_loss_units q fills sc = counterexample_loss_units q' fills sc" for fills sc
  proof -
    have "add_leg_loss q f c = add_leg_loss q' f c" for f c
      unfolding add_leg_loss_def assms ..
    then show ?thesis
      by (simp add: counterexample_loss_units_def assms)
  qed
  then show "counterexample_loss_units q fills sc = counterexample_loss_units q' fills sc"
    by blast
  have keep: "keep_larger_loss q = keep_larger_loss q'"
    unfolding keep_larger_loss_def loss ..
  show "enumerate_fill_adversary q budget = enumerate_fill_adversary q' budget"
    unfolding enumerate_fill_adversary_def assms keep ..
qed

definition yes_answer :: BackendResult where
  "yes_answer = \<lparr>backend_status = NATIVE_OPTIMAL,
     backend_values = [(''z:a1'', 1), (''z:a2'', 0), (''fill-b:a-no'', 1), (''fill:a-no'', 2), (''fill-payout:a-no:a1'', 2),
       (''fill-payout:a-no:a2'', 0)],
     objective_value = Some 800000, objective_bound = Some 800000, native_status = ''OPTIMAL'', solve_ns = 0\<rparr>"

definition answered :: "FillAdversaryProblem \<Rightarrow> bool" where
  "answered q = (case compile_fill_adversary q of Inl _ \<Rightarrow> False
     | Inr c \<Rightarrow> validate_backend_result (fill_model c) yes_answer = Inr ()
         \<and> counterexample_loss_units q (fills_from_values c (backend_values yes_answer))
              (scenario_from_values q (backend_values yes_answer)) = Inr 800000)"

lemma fill_draft_answered: "answered (fill_draft 1000000 0)" "answered (fill_draft (- 5000000) 0)"
  by code_simp+

definition fill_world :: "int \<Rightarrow> string \<Rightarrow> TerminalAtom" where
  "fill_world pay c = sample_atom ''a2'' NORMAL_NO ''a-no'' pay 6000000"

lemma fill_world_allowed: "allowed_world (fill_source pay) (fill_world pay)"
  by (simp add: allowed_world_def world_of_def fill_source_def fill_world_def)

lemma fill_world_loss:
  "outcome_loss (fill_sample pay cap) (\<lambda>_. 2) (fill_world pay) = 800000 - 2 * pay"
  "possible_fills (fill_sample pay cap) (\<lambda>_. 2)"
proof -
  have "actions_by_id (fill_source pay) ''a-no'' = Some fill_action"
    by (simp add: actions_by_id_def fill_source_def fill_action_def last_wins_def)
  then show "outcome_loss (fill_sample pay cap) (\<lambda>_. 2) (fill_world pay) = 800000 - 2 * pay"
    by (simp add: outcome_loss_def unit_charge_def leg_payout_def payout_in_def fill_leg_def fill_world_def sample_atom_def)
  show "possible_fills (fill_sample pay cap) (\<lambda>_. 2)"
    by (simp add: possible_fills_def fill_domain_def fill_leg_def)
qed

theorem fill_model_exact_witness:
  "(case compile_fill_adversary (fill_sample 1000000 0) of
      Inl _ \<Rightarrow> False
    | Inr c \<Rightarrow> allowed_world (fill_source 1000000) (fill_world 1000000) \<and> possible_fills (fill_sample 1000000 0) (\<lambda>_. 2)
        \<and> (\<exists>v. feasible (fill_model c) v \<and> v ''fill:a-no'' = 2 \<and> objective_at (fill_model c) v = - 1200000))"
proof -
  have same: "fill_source_problem (fill_draft 1000000 0) = fill_source_problem (fill_sample 1000000 0)"
    "fill_legs (fill_draft 1000000 0) = fill_legs (fill_sample 1000000 0)"
    by (simp_all add: fill_draft_def)
  obtain c where c: "compile_fill_adversary (fill_sample 1000000 0) = Inr c"
    using fill_draft_answered(1) unfolding answered_def reads_source_and_legs(1)[OF same] by (auto split: sum.splits)
  have act: "actions_by_id (fill_source 1000000) ''a-no'' = Some fill_action"
    by (simp add: actions_by_id_def fill_source_def fill_action_def last_wins_def)
  have "negative_payout_loss (fill_sample 1000000 0) (\<lambda>_. 2) (fill_world 1000000) = 0"
    by (simp add: negative_payout_loss_def leg_payout_def payout_in_def fill_leg_def fill_world_def sample_atom_def act)
  then show ?thesis
    using fill_model_exact[OF c] fill_world_allowed[of 1000000] fill_world_loss[of 1000000 0]
    by (fastforce simp: c fill_variable_def fill_leg_def)
qed

end
