(* ===== verification/Fill_Proofs.thy ===== *)
theory Fill_Proofs
  imports Fill_Outcomes
begin

section \<open>Partial-fill proof records\<close>

text \<open>
  What a record of \<open>prove_partial_fill\<close> says. The backend is a parameter; \<open>optimal_answers\<close> states what its documentation
  promises of an answer marked optimal. Soundness of UNSAFE needs no promise, because the verifier recomputes the loss of
  the reported outcome; soundness of SAFE needs the promise and payouts that are not negative.
\<close>

subsection \<open>Closed proofs\<close>

text \<open>What the documentation of a solver promises: an answer reported as optimal is not beaten by any other point.\<close>

definition optimal_answers :: "SolverBackend \<Rightarrow> bool" where
  "optimal_answers backend \<longleftrightarrow>
     (\<forall>m t r ob v. backend m t = Inr r \<longrightarrow> backend_status r = NATIVE_OPTIMAL \<longrightarrow> model_objective m = Some ob \<longrightarrow> feasible m v \<longrightarrow>
        (case sense ob of
           MAXIMIZE \<Rightarrow> objective_at m v \<le> objective_at m (answer_at (backend_values r))
         | MINIMIZE \<Rightarrow> objective_at m (answer_at (backend_values r)) \<le> objective_at m v))"

definition nonnegative_payouts :: "ArbitrageProblem \<Rightarrow> bool" where
  "nonnegative_payouts p \<longleftrightarrow>
     (\<forall>s \<in> set (terminal_state_sets p). \<forall>a \<in> set (atoms s). \<forall>x \<in> set (payouts a). 0 \<le> payout_lower_bound_per_lot_units x)"

lemma payout_in_nonnegative:
  assumes "\<forall>x \<in> set (payouts a). 0 \<le> payout_lower_bound_per_lot_units x"
  shows "0 \<le> payout_in a i"
proof (cases "map_of (map (\<lambda>x. (payout_action_id x, payout_lower_bound_per_lot_units x)) (payouts a)) i")
  case (Some n)
  then show ?thesis
    using assms by (auto simp: payout_in_def dest!: map_of_SomeD)
qed (simp add: payout_in_def)

lemma no_negative_payout_loss:
  assumes c: "compile_fill_adversary q = Inr c" and w: "world_of (fill_source_problem q) w"
    and pays: "nonnegative_payouts (fill_source_problem q)"
  shows "negative_payout_loss q f w = 0"
proof -
  let ?p = "fill_source_problem q"
  from c have legs: "leg_state ?p l \<in> set (terminal_state_sets ?p)
       \<and> leg_payout ?p w l = payout_in (w (state_contract_id (leg_state ?p l))) (fill_action_id l)"
    if "l \<in> set (fill_legs q)" for l
    using compile_fill_adversary_shape[of q c] that by metis
  have "0 \<le> leg_payout ?p w l" if "l \<in> set (fill_legs q)" for l
  proof -
    have "w (state_contract_id (leg_state ?p l)) \<in> set (atoms (leg_state ?p l))"
      using w legs[OF that] by (simp add: world_of_def)
    then have "0 \<le> payout_in (w (state_contract_id (leg_state ?p l))) (fill_action_id l)"
      using pays legs[OF that] by (intro payout_in_nonnegative) (auto simp: nonnegative_payouts_def)
    then show ?thesis
      using legs[OF that] by simp
  qed
  then have "map (\<lambda>l. f (fill_action_id l) * max 0 (- leg_payout ?p w l)) (fill_legs q) = map (\<lambda>l. 0) (fill_legs q)"
    by (intro map_cong) auto
  then show ?thesis
    unfolding negative_payout_loss_def by (simp only: sum_list_0)
qed

lemma unknown_record_status: "unknown_record q reason = Inr r \<Longrightarrow> partial_fill_status r = PARTIAL_FILL_UNKNOWN"
  by (auto simp: unknown_record_def make_proof_record_def record_draft_def Let_def)

lemma closed_record_fields:
  "closed_record q e v worst status = Inr r \<Longrightarrow>
     partial_fill_status r = status \<and> solver_upper_bound r = worst \<and> solver_lower_bound r = worst
     \<and> solver_termination r = TERMINATION_CLOSED \<and> proof_max_partial_fill_loss r = fill_max_partial_fill_loss q \<and> 0 \<le> worst"
  by (auto simp: closed_record_def make_proof_record_def record_draft_def check_proof_record_def require_nonnegative_def
      Let_def split: if_splits)

text \<open>A verified answer carries the loss that the verifier recomputed from the reported fills and settlement.\<close>

lemma verify_reread_qualified:
  assumes "verify_reread e backend t = Inr v" "verification_status v = VERIFIER_QUALIFIED"
    and "evidence_termination e = TERMINATION_CLOSED" "evidence_scenario e = Some sc"
  shows "\<exists>c loss. compile_fill_adversary (evidence_problem e) = Inr c
    \<and> counterexample_loss_units (evidence_problem e) (evidence_fills e) sc = Inr loss
    \<and> verification_counterexample_loss v = Some loss \<and> evidence_worst_loss e = Some loss"
proof (cases "compile_fill_adversary (evidence_problem e)")
  case c: (Inr c)
  then show ?thesis
  proof (cases "checked_backend_solve (fill_model c) backend t")
    case r: (Inr r)
    then show ?thesis
    proof (cases "counterexample_loss_units (evidence_problem e) (evidence_fills e) sc")
      case (Inr loss)
      show ?thesis
        using assms unfolding verify_reread_def Let_def by (simp add: c r Inr) (auto split: if_splits)
    qed (use assms c r in \<open>simp add: verify_reread_def Let_def\<close>)
  qed (use assms c in \<open>simp add: verify_reread_def Let_def\<close>)
qed (use assms in \<open>simp add: verify_reread_def Let_def\<close>)

lemma qualified_verification:
  assumes "verify_fill_adversary e backend t = Inr v" "verification_status v = VERIFIER_QUALIFIED"
    and "evidence_termination e = TERMINATION_CLOSED"
  obtains q' c' where "q' = (evidence_problem e)\<lparr>fill_source_problem := sorted_problem (fill_source_problem (evidence_problem e))\<rparr>"
    "verification_counterexample_loss v = evidence_worst_loss e" "compile_fill_adversary q' = Inr c'" "check_fill_problem q' = Inr ()"
    "\<And>sc. evidence_scenario e = Some sc \<Longrightarrow> \<exists>loss. counterexample_loss_units q' (evidence_fills e) sc = Inr loss
       \<and> verification_counterexample_loss v = Some loss"
proof -
  let ?q = "(evidence_problem e)\<lparr>fill_source_problem := sorted_problem (fill_source_problem (evidence_problem e))\<rparr>"
  obtain e' where e': "reread_evidence e = Inr e'" and v: "verify_reread e' backend t = Inr v"
    using assms(1,2) by (auto simp: verify_fill_adversary_def invalid_verification_def rbind_Inr_iff split: sum.splits if_splits)
  have eq: "e' = e\<lparr>evidence_problem := ?q\<rparr>" "check_fill_problem ?q = Inr ()"
    using e' by (auto simp: reread_evidence_def make_fill_evidence_def Let_def)
  have scenario: "evidence_scenario e \<noteq> None"
    using e' assms(3) by (auto simp: reread_evidence_def make_fill_evidence_def check_fill_evidence_def require_def Let_def split: if_splits)
  then obtain sc where sc: "evidence_scenario e = Some sc"
    by blast
  have "\<exists>c loss. compile_fill_adversary ?q = Inr c \<and> counterexample_loss_units ?q (evidence_fills e) sc = Inr loss
      \<and> verification_counterexample_loss v = Some loss \<and> evidence_worst_loss e = Some loss"
    using verify_reread_qualified[OF v assms(2), of sc] assms(3) sc by (simp add: eq(1))
  then obtain c' loss where c': "compile_fill_adversary ?q = Inr c'"
    and loss: "counterexample_loss_units ?q (evidence_fills e) sc = Inr loss" "verification_counterexample_loss v = Some loss"
      "evidence_worst_loss e = Some loss"
    by blast
  show thesis
    by (rule that[OF refl _ c' eq(2)]) (use loss sc assms(2) in auto)
qed

lemma closed_proof:
  assumes run: "prove_partial_fill q backend again name version t = Inr (r, ce)" and known: "partial_fill_status r \<noteq> PARTIAL_FILL_UNKNOWN"
  obtains c ans worst e v sc where "compile_fill_adversary q = Inr c" "checked_backend_solve (fill_model c) backend t = Inr ans"
    "backend_status ans = NATIVE_OPTIMAL" "objective_value ans = Some worst"
    "evidence_problem e = q" "evidence_termination e = TERMINATION_CLOSED" "evidence_worst_loss e = Some worst"
    "evidence_fills e = fills_from_values c (backend_values ans)" "evidence_scenario e = Some sc"
    "sc = scenario_from_values q (backend_values ans)"
    "verify_fill_adversary e again t = Inr v" "verification_status v = VERIFIER_QUALIFIED" "conclude_proof q e v = Inr (r, ce)"
proof -
  have not_unknown: "rbind (unknown_record q reason) (\<lambda>r. Inr (r, None)) \<noteq> Inr (r, ce)" for reason
    using known by (auto dest: unknown_record_status)
  obtain c where c: "compile_fill_adversary q = Inr c"
    using run not_unknown by (auto simp: prove_partial_fill_def Let_def split: if_splits sum.splits)
  obtain ans where ans: "checked_backend_solve (fill_model c) backend t = Inr ans"
    using run not_unknown c by (auto simp: prove_partial_fill_def Let_def split: if_splits sum.splits)
  have status: "backend_status ans = NATIVE_OPTIMAL"
    using run not_unknown c ans by (auto simp: prove_partial_fill_def Let_def split: if_splits)
  define e where "e = \<lparr>evidence_problem = q, evidence_solver_name = name, evidence_solver_version = version,
      evidence_termination = TERMINATION_CLOSED, evidence_worst_loss = objective_value ans,
      evidence_fills = fills_from_values c (backend_values ans),
      evidence_scenario = Some (scenario_from_values q (backend_values ans))\<rparr>"
  have check: "check_fill_evidence e = Inr ()"
    and rest: "rbind (verify_fill_adversary e again t) (\<lambda>v.
        if verification_status v \<noteq> VERIFIER_QUALIFIED then rbind (unknown_record q ''VERIFIER_MISMATCH'') (\<lambda>r. Inr (r, None))
        else conclude_proof q e v) = Inr (r, ce)"
    using run c ans status not_unknown
    by (auto simp: prove_partial_fill_def Let_def make_fill_evidence_def simp flip: e_def split: if_splits)
  obtain v where v: "verify_fill_adversary e again t = Inr v" "verification_status v = VERIFIER_QUALIFIED"
    "conclude_proof q e v = Inr (r, ce)"
    using rest not_unknown by (auto split: if_splits)
  have "objective_value ans \<noteq> None"
    using check by (auto simp: check_fill_evidence_def require_def e_def split: if_splits)
  then obtain worst where worst: "objective_value ans = Some worst"
    by blast
  show thesis
    by (rule that[OF c ans status worst, of e _ v]) (use v worst in \<open>auto simp: e_def\<close>)
qed

text \<open>The conclusion of a closed proof: the status is the comparison of the worst loss with the cap.\<close>

lemma conclude_proof_cases:
  assumes "conclude_proof q e v = Inr (r, ce)" "partial_fill_status r \<noteq> PARTIAL_FILL_UNKNOWN"
    and "evidence_worst_loss e = Some worst" "verification_counterexample_loss v = evidence_worst_loss e"
    and "evidence_scenario e = Some sc"
  shows "solver_upper_bound r = worst" "solver_lower_bound r = worst"
    "partial_fill_status r = (if worst \<le> fill_max_partial_fill_loss q then PARTIAL_FILL_SAFE else PARTIAL_FILL_UNSAFE)"
    "ce = (if worst \<le> fill_max_partial_fill_loss q then None
       else Some (make_counterexample (fill_max_partial_fill_loss q) (evidence_fills e) sc worst))"
  using assms by (auto simp: conclude_proof_def dest!: closed_record_fields split: if_splits)

subsection \<open>When a proof closes\<close>

lemma sha256_hexdigest_no_space: "ch \<in> set (sha256_hexdigest s) \<Longrightarrow> \<not> py_space ch"
proof -
  have digit: "\<not> py_space (hex_digit n)" if "n < 16" for n
    using that by (simp add: hex_digit_def py_space_def Let_def of_char_of)
  have bytes: "b < 256" if "b \<in> set (big_endian k n)" for b k n
    using that by (induction k arbitrary: n) auto
  assume "ch \<in> set (sha256_hexdigest s)"
  then obtain b where "b < 256" "ch = hex_digit (b div 16) \<or> ch = hex_digit (b mod 16)"
    by (auto simp: sha256_hexdigest_def hex_of_word_def Let_def dest: bytes)
  moreover from this(1) have "b div 16 < 16"
    by (simp add: less_mult_imp_div_less)
  ultimately show ?thesis
    using digit[of "b div 16"] digit[of "b mod 16"] by auto
qed

lemma require_text_fingerprint [simp]: "require_text (fingerprint j) name = Inr ()"
proof -
  obtain d ch where d: "sha256_hexdigest (json_dumps j) = d @ [ch]"
    using length_sha256_hexdigest[of "json_dumps j"] by (cases "sha256_hexdigest (json_dumps j)" rule: rev_cases) auto
  then have "\<not> py_space ch"
    using sha256_hexdigest_no_space[of ch "json_dumps j"] by simp
  then show ?thesis
    by (simp add: require_text_def strip_text_def fingerprint_def d py_space_def)
qed

text \<open>The texts of a problem that a proof record repeats.\<close>

definition plain_texts :: "FillAdversaryProblem \<Rightarrow> bool" where
  "plain_texts q \<longleftrightarrow>
     (\<forall>s \<in> {fill_solution_fingerprint q, fill_solution_payload_fingerprint q, fill_model_fingerprint q, fill_quote_fingerprint q,
        fill_cost_fingerprint q, fill_order_semantics_fingerprint q, fill_cap_config_version q}. s \<noteq> [] \<and> strip_text s = s)"

lemma status_texts [simp]:
  "require_text TERMINATION_CLOSED name = Inr ()" "require_text (verifier_status_value VERIFIER_QUALIFIED) name = Inr ()"
  "require_text (partial_fill_status_value status) name = Inr ()"
  by (simp add: require_text_def TERMINATION_CLOSED_def strip_text_def py_space_def,
      simp add: require_text_def strip_text_def py_space_def,
      cases status, simp_all add: require_text_def strip_text_def py_space_def)

lemma closed_record_total:
  assumes "plain_texts q" "0 \<le> fill_max_partial_fill_loss q" "0 \<le> fill_max_auto_repair_loss q" "0 \<le> worst"
  shows "\<exists>r. closed_record q e v worst status = Inr r"
proof -
  have "require_text s name = Inr ()" if "s \<noteq> [] \<and> strip_text s = s" for s name
    using that by (simp add: require_text_def)
  then show ?thesis
    using assms
    by (simp add: closed_record_def make_proof_record_def check_proof_record_def record_draft_def require_nonnegative_def
        require_def plain_texts_def proof_record_fields_def Let_def del: verifier_status_value.simps partial_fill_status_value.simps)
qed

lemma prove_partial_fill_run:
  assumes q: "check_fill_problem q = Inr ()" "sorted_problem (fill_source_problem q) = fill_source_problem q" "plain_texts q"
    and run: "0 < t" "name \<noteq> []" "version \<noteq> []"
    and c: "compile_fill_adversary q = Inr c" and semantics: "\<forall>l \<in> set (fill_legs q). fill_semantics l \<noteq> UNKNOWN_SEMANTICS"
    and ans: "checked_backend_solve (fill_model c) backend t = Inr ans" "backend_status ans = NATIVE_OPTIMAL"
      "objective_value ans = Some worst" "0 \<le> worst"
    and twice: "checked_backend_solve (fill_model c) again t = Inr ans'" "backend_status ans' = NATIVE_OPTIMAL" "objective_value ans' = Some worst"
    and loss: "counterexample_loss_units q (fills_from_values c (backend_values ans)) (scenario_from_values q (backend_values ans)) = Inr worst"
  shows "\<exists>r ce. prove_partial_fill q backend again name version t = Inr (r, ce) \<and> solver_upper_bound r = worst
    \<and> partial_fill_status r = (if worst \<le> fill_max_partial_fill_loss q then PARTIAL_FILL_SAFE else PARTIAL_FILL_UNSAFE)"
proof -
  let ?vals = "backend_values ans"
  define e where "e = \<lparr>evidence_problem = q, evidence_solver_name = name, evidence_solver_version = version,
      evidence_termination = TERMINATION_CLOSED, evidence_worst_loss = objective_value ans,
      evidence_fills = fills_from_values c ?vals, evidence_scenario = Some (scenario_from_values q ?vals)\<rparr>"
  have same: "q\<lparr>fill_source_problem := sorted_problem (fill_source_problem q)\<rparr> = q"
    by (simp add: q(2))
  have caps: "0 \<le> fill_max_partial_fill_loss q" "0 \<le> fill_max_auto_repair_loss q" "fill_legs q \<noteq> []"
    using q(1) by (auto simp: check_fill_problem_def require_def split: if_splits)
  have wf: "wf_problem (fill_source_problem q)"
    by (rule compile_fill_adversary_shape[OF c])
  have fills: "fills_from_values c ?vals \<noteq> []"
    by (rule compile_fill_adversary_shape[OF c]) (use caps(3) in \<open>simp add: fills_from_values_def\<close>)
  have made: "make_fill_evidence e = Inr e"
    using run fills ans(3) by (simp add: make_fill_evidence_def check_fill_evidence_def require_def e_def TERMINATION_CLOSED_def)
  have reread: "reread_evidence e = Inr e"
  proof -
    have "e\<lparr>evidence_problem := q\<rparr> = e"
      by (simp add: e_def)
    then show ?thesis
      using wf q(1) made by (simp add: reread_evidence_def same e_def)
  qed
  have e: "evidence_problem e = q" "evidence_termination e = TERMINATION_CLOSED" "evidence_fills e = fills_from_values c ?vals"
    "evidence_worst_loss e = Some worst" "evidence_scenario e = Some (scenario_from_values q ?vals)"
    by (simp_all add: e_def ans(3))
  have "\<exists>v. verify_reread e again t = Inr v \<and> verification_status v = VERIFIER_QUALIFIED
      \<and> verification_counterexample_loss v = Some worst"
    by (simp add: verify_reread_def e c twice loss termination_of_def Let_def)
  then obtain v where v: "verify_fill_adversary e again t = Inr v" "verification_status v = VERIFIER_QUALIFIED"
    "verification_counterexample_loss v = Some worst"
    by (auto simp: verify_fill_adversary_def reread)
  obtain r where r: "closed_record q e v worst (if worst \<le> fill_max_partial_fill_loss q then PARTIAL_FILL_SAFE else PARTIAL_FILL_UNSAFE) = Inr r"
    using closed_record_total[OF q(3) caps(1,2) ans(4)] by blast
  have "\<exists>ce. conclude_proof q e v = Inr (r, ce)"
    using r by (auto simp: conclude_proof_def e v(3))
  moreover have "prove_partial_fill q backend again name version t = conclude_proof q e v"
    using run(1) c semantics ans(1,2) v(1,2) made unfolding e_def
    by (simp add: prove_partial_fill_def list_ex_iff Let_def)
  ultimately show ?thesis
    using closed_record_fields[OF r] by auto
qed

lemma settled_scenario:
  assumes wf: "wf_problem (fill_source_problem q)" and w: "world_of (fill_source_problem q) w"
    and v: "settles (fill_source_problem q) w (answer_at vals)"
  shows "scenario_atoms (scenario_from_values q vals)
    = map (\<lambda>s. \<lparr>selected_contract_id = state_contract_id s, selected_atom_id = atom_id (w (state_contract_id s))\<rparr>)
        (terminal_state_sets (fill_source_problem q))"
proof -
  let ?p = "fill_source_problem q"
  have "filter (\<lambda>a. answer_at vals (atom_variable a) = 1) (atoms s) = [w (state_contract_id s)]"
    if s: "s \<in> set (terminal_state_sets ?p)" for s
  proof -
    have "filter (\<lambda>a. answer_at vals (atom_variable a) = 1) (atoms s) = filter (\<lambda>a. a = w (state_contract_id s)) (atoms s)"
      using v s by (intro filter_cong) (auto simp: settles_def)
    then show ?thesis
      using filter_single[OF state_atoms_distinct[OF wf s], of "w (state_contract_id s)"] w s by (simp add: world_of_def)
  qed
  then have "map (\<lambda>s. map (\<lambda>a. \<lparr>selected_contract_id = state_contract_id s, selected_atom_id = atom_id a\<rparr>)
        (filter (\<lambda>a. answer_at vals (atom_variable a) = 1) (atoms s))) (terminal_state_sets ?p)
      = map (\<lambda>s. [\<lparr>selected_contract_id = state_contract_id s, selected_atom_id = atom_id (w (state_contract_id s))\<rparr>]) (terminal_state_sets ?p)"
    by (intro map_cong) auto
  moreover have "concat (map (\<lambda>x. [g x]) xs) = map g xs" for g :: "TerminalStateSet \<Rightarrow> SelectedAtom" and xs
    by (induction xs) auto
  ultimately show ?thesis
    unfolding scenario_from_values_def SettlementScenario.select_convs by (simp only:)
qed

lemma compiled_maximizes:
  assumes "compile_fill_adversary q = Inr c"
  shows "\<exists>ob. model_objective (fill_model c) = Some ob \<and> sense ob = MAXIMIZE"
  by (rule compile_fill_adversary_shape[OF assms]) (simp add: fill_model_of_def linear_model_def linear_objective_def)

lemma legs_of_compiled:
  assumes "compile_fill_adversary q = Inr c" and ne: "fill_legs q \<noteq> []"
  shows "model_variables (fill_model c) \<noteq> []"
    "fills_from_values c vals
       = map (\<lambda>l. \<lparr>quantity_action_id = fill_action_id l, quantity_lots = answer_at vals (''fill:'' @ fill_action_id l)\<rparr>) (fill_legs q)"
proof -
  from assms(1) obtain m where model: "fill_model c = fill_model_of (fill_source_problem q) (fill_legs q) m"
    and vars: "fill_variables c = map (\<lambda>l. (fill_action_id l, fill_variable l)) (fill_legs q)"
    using compile_fill_adversary_shape[of q c] by metis
  show "model_variables (fill_model c) \<noteq> []"
    using ne by (cases "fill_legs q") (auto simp: model fill_model_of_def linear_model_def leg_variables_def simp flip: set_empty)
  show "fills_from_values c vals
      = map (\<lambda>l. \<lparr>quantity_action_id = fill_action_id l, quantity_lots = answer_at vals (''fill:'' @ fill_action_id l)\<rparr>) (fill_legs q)"
    by (simp add: fills_from_values_def vars fill_variable_def)
qed

text \<open>An optimal answer that passes the checks is an outcome, and its value is the objective there.\<close>

lemma answer_outcome:
  assumes c: "compile_fill_adversary q = Inr c" and ne: "fill_legs q \<noteq> []"
    and ans: "checked_backend_solve (fill_model c) backend t = Inr ans" "backend_status ans = NATIVE_OPTIMAL" "objective_value ans = Some worst"
  obtains w where "allowed_world (fill_source_problem q) w" "settles (fill_source_problem q) w (answer_at (backend_values ans))"
    "possible_fills q (\<lambda>i. answer_at (backend_values ans) (''fill:'' @ i))"
    "objective_at (fill_model c) (answer_at (backend_values ans)) = worst"
    "worst = outcome_loss q (\<lambda>i. answer_at (backend_values ans) (''fill:'' @ i)) w
       - negative_payout_loss q (\<lambda>i. answer_at (backend_values ans) (''fill:'' @ i)) w"
proof -
  have valid: "validate_backend_result (fill_model c) ans = Inr ()"
    using ans(1) by (auto simp: checked_backend_solve_def)
  note point = validated_values_feasible[OF valid validated_status_values[OF valid _ legs_of_compiled(1)[OF c ne]]]
  have feas: "feasible (fill_model c) (answer_at (backend_values ans))"
    using point(1) ans(2) by simp
  have "objective_at (fill_model c) (answer_at (backend_values ans)) = worst"
    using point(2)[OF _ ans(3)] ans(2) compiled_maximizes[OF c] by (auto simp: objective_at_def)
  then show thesis
    using feasible_fill_outcome[OF c feas] that by metis
qed

text \<open>The outcome behind a closed proof: the answer of the backend is an allowed settlement with possible fills, and
  the recorded bounds are its loss, because the verifier recomputed it.\<close>

lemma closed_proof_outcome:
  assumes run: "prove_partial_fill q backend again name version t = Inr (r, ce)" and known: "partial_fill_status r \<noteq> PARTIAL_FILL_UNKNOWN"
    and legs: "\<forall>l \<in> set (fill_legs q). check_fill_leg l = Inr ()"
  obtains c ans w f where "compile_fill_adversary q = Inr c" "checked_backend_solve (fill_model c) backend t = Inr ans"
    "backend_status ans = NATIVE_OPTIMAL" "objective_at (fill_model c) (answer_at (backend_values ans)) = solver_upper_bound r"
    "allowed_world (fill_source_problem q) w" "possible_fills q f" "outcome_loss q f w = solver_upper_bound r"
    "solver_lower_bound r = solver_upper_bound r"
    "partial_fill_status r = (if solver_upper_bound r \<le> fill_max_partial_fill_loss q then PARTIAL_FILL_SAFE else PARTIAL_FILL_UNSAFE)"
    "ce = (if solver_upper_bound r \<le> fill_max_partial_fill_loss q then None
       else Some (make_counterexample (fill_max_partial_fill_loss q)
           (map (\<lambda>l. \<lparr>quantity_action_id = fill_action_id l, quantity_lots = f (fill_action_id l)\<rparr>) (fill_legs q))
           \<lparr>scenario_atoms = map (\<lambda>s. \<lparr>selected_contract_id = state_contract_id s, selected_atom_id = atom_id (w (state_contract_id s))\<rparr>)
              (terminal_state_sets (fill_source_problem q))\<rparr> (solver_upper_bound r)))"
proof -
  let ?p = "fill_source_problem q"
  obtain c ans worst e v sc where c: "compile_fill_adversary q = Inr c" and ans: "checked_backend_solve (fill_model c) backend t = Inr ans"
    and opt: "backend_status ans = NATIVE_OPTIMAL" "objective_value ans = Some worst"
    and e: "evidence_problem e = q" "evidence_termination e = TERMINATION_CLOSED" "evidence_worst_loss e = Some worst"
      "evidence_fills e = fills_from_values c (backend_values ans)" "evidence_scenario e = Some sc"
      "sc = scenario_from_values q (backend_values ans)"
    and v: "verify_fill_adversary e again t = Inr v" "verification_status v = VERIFIER_QUALIFIED" "conclude_proof q e v = Inr (r, ce)"
    using closed_proof[OF run known] by metis
  define q' where "q' = q\<lparr>fill_source_problem := sorted_problem ?p\<rparr>"
  obtain c' where loss: "verification_counterexample_loss v = evidence_worst_loss e" and c': "compile_fill_adversary q' = Inr c'"
    and checked: "check_fill_problem q' = Inr ()" and recomputed: "counterexample_loss_units q' (evidence_fills e) sc = Inr worst"
    using qualified_verification[OF v(1,2) e(2)] e(1,3,5) by (metis option.inject q'_def)
  have ne: "fill_legs q \<noteq> []"
    using checked by (auto simp: check_fill_problem_def require_def q'_def split: if_splits)
  let ?v = "answer_at (backend_values ans)" and ?f = "\<lambda>i. answer_at (backend_values ans) (''fill:'' @ i)"
  obtain w where w: "allowed_world ?p w" "settles ?p w ?v" and f: "possible_fills q ?f" and obj: "objective_at (fill_model c) ?v = worst"
    using answer_outcome[OF c ne ans opt] by metis
  have world: "world_of ?p w"
    using w(1) by (simp add: allowed_world_def)
  have wf: "wf_problem ?p" "wf_problem (sorted_problem ?p)"
    using compile_fill_adversary_shape[OF c] compile_fill_adversary_shape[OF c'] by (metis, auto simp: q'_def)
  have sc: "sc = \<lparr>scenario_atoms = scenario_atoms sc\<rparr>" "scenario_atoms sc = map (\<lambda>s. \<lparr>selected_contract_id = state_contract_id s, selected_atom_id = atom_id (w (state_contract_id s))\<rparr>)
      (terminal_state_sets ?p)"
    unfolding e(6) by simp (rule settled_scenario[OF wf(1) world w(2)])
  have legs': "wf_fill_legs q'"
    using legs by (intro check_fill_problem_legs[OF checked]) (simp add: q'_def)
  have fills: "lots_of (evidence_fills e) (fill_action_id l) = Some (?f (fill_action_id l))" if "l \<in> set (fill_legs q')" for l
    using that legs' legs_of_compiled(2)[OF c ne]
    by (auto simp: e(4) lots_of_def comp_def wf_fill_legs_def q'_def intro!: last_wins_keyed[THEN iffD2])
  have "counterexample_loss_units q' (evidence_fills e) sc = Inr (outcome_loss q' ?f (sorted_atom \<circ> w))"
  proof (rule recomputed_loss[OF _ _ legs' _ fills])
    show "wf_problem (fill_source_problem q')" "world_of (fill_source_problem q') (sorted_atom \<circ> w)"
      using wf(2) sorted_problem_world(1)[OF world] by (simp_all add: q'_def)
    show "possible_fills q' ?f"
      using f by (simp add: possible_fills_def q'_def)
    show "set (scenario_atoms sc) = set (scenario_atoms (scenario_of_world (fill_source_problem q') (sorted_atom \<circ> w)))"
      using sorted_problem_world(2)[OF world] by (simp add: q'_def sc(2) scenario_of_world_atoms)
    show "distinct (map selected_contract_id (scenario_atoms sc))"
      using wf(1) by (simp add: sc(2) comp_def wf_problem_def)
  qed
  then have real: "outcome_loss q ?f w = worst"
    using recomputed sorted_problem_loss[OF wf world] by (simp add: q'_def)
  have whole: "\<lparr>scenario_atoms = map (\<lambda>s. \<lparr>selected_contract_id = state_contract_id s, selected_atom_id = atom_id (w (state_contract_id s))\<rparr>)
      (terminal_state_sets ?p)\<rparr> = sc"
    using sc by metis
  note concl = conclude_proof_cases[OF v(3) known e(3) loss e(5)]
  show thesis
    by (rule that[OF c ans opt(1) _ w(1) f]) (use concl real obj whole legs_of_compiled(2)[OF c ne] in \<open>simp_all add: e(4)\<close>)
qed


lemma closed_proof_worst_outcome:
  assumes run: "prove_partial_fill q backend again name version t = Inr (r, ce)" and known: "partial_fill_status r \<noteq> PARTIAL_FILL_UNKNOWN"
    and legs: "\<forall>l \<in> set (fill_legs q). check_fill_leg l = Inr ()"
    and honest: "optimal_answers backend" and pays: "nonnegative_payouts (fill_source_problem q)"
  shows "worst_outcome q (solver_upper_bound r)" "solver_lower_bound r = solver_upper_bound r"
    "partial_fill_status r = (if solver_upper_bound r \<le> fill_max_partial_fill_loss q then PARTIAL_FILL_SAFE else PARTIAL_FILL_UNSAFE)"
proof -
  let ?p = "fill_source_problem q"
  obtain c ans w f where c: "compile_fill_adversary q = Inr c" and ans: "checked_backend_solve (fill_model c) backend t = Inr ans"
    and opt: "backend_status ans = NATIVE_OPTIMAL"
    and obj: "objective_at (fill_model c) (answer_at (backend_values ans)) = solver_upper_bound r"
    and w: "allowed_world ?p w" "possible_fills q f" "outcome_loss q f w = solver_upper_bound r"
    and rest: "solver_lower_bound r = solver_upper_bound r"
      "partial_fill_status r = (if solver_upper_bound r \<le> fill_max_partial_fill_loss q then PARTIAL_FILL_SAFE else PARTIAL_FILL_UNSAFE)"
    by (rule closed_proof_outcome[OF run known legs]) blast
  show "solver_lower_bound r = solver_upper_bound r"
    "partial_fill_status r = (if solver_upper_bound r \<le> fill_max_partial_fill_loss q then PARTIAL_FILL_SAFE else PARTIAL_FILL_UNSAFE)"
    by (rule rest)+
  have backend: "backend (fill_model c) t = Inr ans"
    using ans by (auto simp: checked_backend_solve_def)
  have "outcome_loss q f' w' \<le> solver_upper_bound r" if w': "allowed_world ?p w'" and f': "possible_fills q f'" for w' f'
  proof -
    obtain v where "feasible (fill_model c) v" "objective_at (fill_model c) v = outcome_loss q f' w' - negative_payout_loss q f' w'"
      using outcome_is_feasible[OF c w' f'] by metis
    moreover have "negative_payout_loss q f' w' = 0"
      using no_negative_payout_loss[OF c _ pays] w' by (simp add: allowed_world_def)
    ultimately show ?thesis
      using honest backend opt compiled_maximizes[OF c] obj unfolding optimal_answers_def by (metis ObjectiveSense.simps(3) diff_zero)
  qed
  then show "worst_outcome q (solver_upper_bound r)"
    using w unfolding worst_outcome_def by blast
qed


text \<open>C5. The bounds of a closed proof are the largest loss that any outcome can have. If the backend reports only
  optimal answers as optimal and no payout is negative, then for every record that is not UNKNOWN the recorded bounds
  are the maximum of the loss over all settlements that the constraints allow and all fills that the order types
  permit, and the record says SAFE exactly when no such outcome loses more than the cap.\<close>

theorem closed_proof_bounds_every_outcome:
  assumes "prove_partial_fill q backend again name version t = Inr (r, ce)" and "partial_fill_status r \<noteq> PARTIAL_FILL_UNKNOWN"
    and "\<forall>l \<in> set (fill_legs q). check_fill_leg l = Inr ()"
    and "optimal_answers backend" and "nonnegative_payouts (fill_source_problem q)"
  shows "worst_outcome q (solver_upper_bound r) \<and> solver_lower_bound r = solver_upper_bound r
    \<and> (partial_fill_status r = PARTIAL_FILL_SAFE \<longleftrightarrow>
         (\<forall>w f. allowed_world (fill_source_problem q) w \<longrightarrow> possible_fills q f
            \<longrightarrow> outcome_loss q f w \<le> fill_max_partial_fill_loss q))"
  using closed_proof_worst_outcome[OF assms]
  by (metis PartialFillStatus.distinct(1) dual_order.trans worst_outcome_def)

text \<open>C6. A record that says UNSAFE comes with a counterexample that is real, whatever the backend answered: the
  reported settlement is one that the constraints allow, the reported fills are possible for the order types, and their
  exact loss is the reported one and exceeds the cap.\<close>

theorem unsafe_proof_has_counterexample:
  assumes "prove_partial_fill q backend again name version t = Inr (r, ce)" and "partial_fill_status r = PARTIAL_FILL_UNSAFE"
    and "\<forall>l \<in> set (fill_legs q). check_fill_leg l = Inr ()"
  shows "\<exists>k w f. ce = Some k \<and> allowed_world (fill_source_problem q) w \<and> possible_fills q f
    \<and> counterexample_scenario k
        = map (\<lambda>s. \<lparr>selected_contract_id = state_contract_id s, selected_atom_id = atom_id (w (state_contract_id s))\<rparr>)
            (terminal_state_sets (fill_source_problem q))
    \<and> counterexample_fills k
        = map (\<lambda>l. \<lparr>quantity_action_id = fill_action_id l, quantity_lots = f (fill_action_id l)\<rparr>)
            (filter (\<lambda>l. 0 < f (fill_action_id l)) (fill_legs q))
    \<and> counterexample_loss k = outcome_loss q f w \<and> fill_max_partial_fill_loss q < outcome_loss q f w"
proof -
  have known: "partial_fill_status r \<noteq> PARTIAL_FILL_UNKNOWN"
    using assms(2) by simp
  obtain w f where "allowed_world (fill_source_problem q) w" "possible_fills q f" "outcome_loss q f w = solver_upper_bound r"
    "partial_fill_status r = (if solver_upper_bound r \<le> fill_max_partial_fill_loss q then PARTIAL_FILL_SAFE else PARTIAL_FILL_UNSAFE)"
    "ce = (if solver_upper_bound r \<le> fill_max_partial_fill_loss q then None
       else Some (make_counterexample (fill_max_partial_fill_loss q)
           (map (\<lambda>l. \<lparr>quantity_action_id = fill_action_id l, quantity_lots = f (fill_action_id l)\<rparr>) (fill_legs q))
           \<lparr>scenario_atoms = map (\<lambda>s. \<lparr>selected_contract_id = state_contract_id s, selected_atom_id = atom_id (w (state_contract_id s))\<rparr>)
              (terminal_state_sets (fill_source_problem q))\<rparr> (solver_upper_bound r)))"
    by (rule closed_proof_outcome[OF assms(1) known assms(3)]) blast
  then show ?thesis
    using assms(2) by (intro exI[of _ "the ce"] exI[of _ w] exI[of _ f]) (auto simp: make_counterexample_def filter_map comp_def Let_def split: if_splits)
qed

text \<open>C9. The solver-based proof and the exhaustive reference agree: for a checked problem without negative payouts and a backend
  that reports only optimal answers as optimal, when the record of the proof is closed (not UNKNOWN) and the enumeration
  closes within its budget, the worst loss of the enumeration is the bound of the record.\<close>

theorem proof_agrees_with_enumeration:
  assumes "prove_partial_fill q backend again name version t = Inr (r, ce)" and "partial_fill_status r \<noteq> PARTIAL_FILL_UNKNOWN"
    and "\<forall>l \<in> set (fill_legs q). check_fill_leg l = Inr ()" and "check_fill_problem q = Inr ()"
    and "optimal_answers backend" and "nonnegative_payouts (fill_source_problem q)"
    and "enumerate_fill_adversary q budget = Inr res" and "oracle_closed res"
  shows "oracle_worst_loss res = Some (solver_upper_bound r)"
  using closed_proof_worst_outcome(1)[OF assms(1,2,3,5,6)] enumerated_worst_outcome[OF check_fill_problem_legs[OF assms(4,3)] assms(7,8)]
  by (metis worst_outcome_unique)


text \<open>Two optimal answers to the same model have the same value.\<close>

lemma optimal_values_agree:
  assumes c: "compile_fill_adversary q = Inr c" and ne: "fill_legs q \<noteq> []" and "optimal_answers backend"
    and first: "checked_backend_solve (fill_model c) backend t = Inr ans" "backend_status ans = NATIVE_OPTIMAL" "objective_value ans = Some worst"
    and "optimal_answers again"
    and second: "checked_backend_solve (fill_model c) again t = Inr ans'" "backend_status ans' = NATIVE_OPTIMAL" "objective_value ans' = Some worst'"
  shows "worst' = worst"
proof -
  have le: "v \<le> u" if h: "optimal_answers b" "checked_backend_solve (fill_model c) b t = Inr x" "backend_status x = NATIVE_OPTIMAL"
      "objective_value x = Some u" "checked_backend_solve (fill_model c) b' t = Inr y" "backend_status y = NATIVE_OPTIMAL" "objective_value y = Some v"
    for b b' x y u v
  proof -
    have "objective_at (fill_model c) (answer_at (backend_values x)) = u"
      using answer_outcome[OF c ne h(2-4)] by metis
    moreover obtain w f where "allowed_world (fill_source_problem q) w" "possible_fills q f" "v = outcome_loss q f w - negative_payout_loss q f w"
      using answer_outcome[OF c ne h(5-7)] by metis
    then obtain z where "feasible (fill_model c) z" "objective_at (fill_model c) z = v"
      using outcome_is_feasible[OF c] by metis
    moreover have "b (fill_model c) t = Inr x"
      using h(2) by (auto simp: checked_backend_solve_def)
    ultimately show ?thesis
      using h(1,3) compiled_maximizes[OF c] unfolding optimal_answers_def by (metis ObjectiveSense.simps(3))
  qed
  show ?thesis
    using le[OF assms(3) first second] le[OF assms(7) second first] by (rule antisym)
qed

text \<open>C11. A proof closes whenever the solver does its part: for a checked problem in canonical order whose fingerprints and cap
  version are plain texts (not empty, no surrounding blanks), without negative payouts, whose model compiles, and a backend that reports only optimal answers as optimal: if it answers both
  solves with a validated optimal point and its objective value, the result is a record that says SAFE when this value is
  within the cap and UNSAFE otherwise, never UNKNOWN and never an exception. The objective value has to be there: an
  optimal answer without one passes the validation and raises.\<close>

theorem proof_closes_on_optimal_answer:
  assumes "check_fill_problem q = Inr ()" "\<forall>l \<in> set (fill_legs q). check_fill_leg l = Inr ()"
    "sorted_problem (fill_source_problem q) = fill_source_problem q" "plain_texts q"
    and "0 < t" "name \<noteq> []" "version \<noteq> []"
    and "compile_fill_adversary q = Inr c" and "nonnegative_payouts (fill_source_problem q)" and "optimal_answers backend"
    and "checked_backend_solve (fill_model c) backend t = Inr ans" "backend_status ans = NATIVE_OPTIMAL" "objective_value ans = Some worst"
    and "optimal_answers again"
    and "checked_backend_solve (fill_model c) again t = Inr ans'" "backend_status ans' = NATIVE_OPTIMAL" "objective_value ans' = Some worst'"
  shows "\<exists>r ce. prove_partial_fill q backend again name version t = Inr (r, ce)
    \<and> partial_fill_status r = (if worst \<le> fill_max_partial_fill_loss q then PARTIAL_FILL_SAFE else PARTIAL_FILL_UNSAFE)"
proof -
  let ?p = "fill_source_problem q" and ?v = "answer_at (backend_values ans)"
  let ?f = "\<lambda>i. ?v (''fill:'' @ i)"
  note c = assms(8)
  have legs: "wf_fill_legs q"
    by (rule check_fill_problem_legs[OF assms(1,2)])
  have ne: "fill_legs q \<noteq> []"
    using assms(1) by (auto simp: check_fill_problem_def require_def split: if_splits)
  obtain w where w: "allowed_world ?p w" "settles ?p w ?v" and f: "possible_fills q ?f" and obj: "objective_at (fill_model c) ?v = worst"
    and val: "worst = outcome_loss q ?f w - negative_payout_loss q ?f w"
    using answer_outcome[OF c ne assms(11,12,13)] by metis
  have valid: "backend (fill_model c) t = Inr ans"
    using assms(11) by (auto simp: checked_backend_solve_def)
  have "worst' = worst"
    by (rule optimal_values_agree[OF c ne assms(10-17)])
  have world: "world_of ?p w"
    using w(1) by (simp add: allowed_world_def)
  have wf: "wf_problem ?p" and semantics: "\<forall>l \<in> set (fill_legs q). fill_semantics l \<noteq> UNKNOWN_SEMANTICS"
    by (rule compile_fill_adversary_shape[OF c], assumption, rule compile_fill_adversary_shape[OF c], blast)
  have zero: "possible_fills q (\<lambda>_. 0)"
    using legs by (auto simp: possible_fills_def fill_domain_def wf_fill_legs_def)
  obtain v0 where v0: "feasible (fill_model c) v0" "objective_at (fill_model c) v0 = 0"
    using outcome_is_feasible[OF c w(1) zero] by (auto simp: outcome_loss_def negative_payout_loss_def)
  have "0 \<le> worst"
    using assms(10) valid assms(12) compiled_maximizes[OF c] v0 obj unfolding optimal_answers_def
    by (metis ObjectiveSense.simps(3))
  moreover have "counterexample_loss_units q (fills_from_values c (backend_values ans)) (scenario_from_values q (backend_values ans))
      = Inr (outcome_loss q ?f w)"
  proof (rule recomputed_loss[OF wf world legs f])
    show "lots_of (fills_from_values c (backend_values ans)) (fill_action_id l) = Some (?f (fill_action_id l))"
      if "l \<in> set (fill_legs q)" for l
      using that legs legs_of_compiled(2)[OF c ne]
      by (auto simp: lots_of_def comp_def wf_fill_legs_def intro!: last_wins_keyed[THEN iffD2])
  qed (use wf settled_scenario[OF wf world w(2)] in \<open>simp_all add: scenario_of_world_atoms comp_def wf_problem_def\<close>)
  moreover have "outcome_loss q ?f w = worst"
    using val no_negative_payout_loss[OF c world assms(9)] by simp
  ultimately show ?thesis
    using prove_partial_fill_run[OF assms(1,3,4,5,6,7) c semantics assms(11,12,13) _ assms(15,16)] assms(17) \<open>worst' = worst\<close> by metis
qed

subsection \<open>Concrete proofs\<close>

text \<open>A backend that knows one model: the leg fills and NO loses.\<close>

definition table_backend :: "FillAdversaryProblem \<Rightarrow> SolverBackend" where
  "table_backend q m t = Inr (case compile_fill_adversary q of
       Inl _ \<Rightarrow> yes_answer\<lparr>backend_status := NATIVE_UNKNOWN\<rparr>
     | Inr c \<Rightarrow> if m = fill_model c then yes_answer else yes_answer\<lparr>backend_status := NATIVE_UNKNOWN\<rparr>)"

lemma fill_sample_answered:
  assumes "answered (fill_draft pay 0)"
  obtains c where "compile_fill_adversary (fill_sample pay cap) = Inr c"
    "validate_backend_result (fill_model c) yes_answer = Inr ()"
    "checked_backend_solve (fill_model c) (table_backend (fill_sample pay cap)) t = Inr yes_answer"
    "counterexample_loss_units (fill_sample pay cap) (fills_from_values c (backend_values yes_answer))
       (scenario_from_values (fill_sample pay cap) (backend_values yes_answer)) = Inr 800000"
proof -
  have same: "fill_source_problem (fill_draft pay 0) = fill_source_problem (fill_sample pay cap)"
    "fill_legs (fill_draft pay 0) = fill_legs (fill_sample pay cap)"
    by (simp_all add: fill_draft_def)
  have "scenario_from_values (fill_draft pay 0) vals = scenario_from_values (fill_sample pay cap) vals" for vals
    by (simp add: scenario_from_values_def same)
  then obtain c where c: "compile_fill_adversary (fill_sample pay cap) = Inr c"
    and ok: "validate_backend_result (fill_model c) yes_answer = Inr ()"
      "counterexample_loss_units (fill_sample pay cap) (fills_from_values c (backend_values yes_answer))
         (scenario_from_values (fill_sample pay cap) (backend_values yes_answer)) = Inr 800000"
    using assms unfolding answered_def reads_source_and_legs[OF same] by (auto split: sum.splits)
  show thesis
    by (rule that[OF c ok(1) _ ok(2)]) (simp add: checked_backend_solve_def table_backend_def c ok(1))
qed

lemma fill_sample_objective:
  assumes "compile_fill_adversary (fill_sample pay cap) = Inr c" "feasible (fill_model c) v"
  shows "objective_at (fill_model c) v \<le> 800000"
proof -
  obtain w where f: "possible_fills (fill_sample pay cap) (\<lambda>i. v (''fill:'' @ i))"
    and obj: "objective_at (fill_model c) v = outcome_loss (fill_sample pay cap) (\<lambda>i. v (''fill:'' @ i)) w
      - negative_payout_loss (fill_sample pay cap) (\<lambda>i. v (''fill:'' @ i)) w"
    using feasible_fill_outcome[OF assms] by metis
  have "v ''fill:a-no'' = 0 \<or> v ''fill:a-no'' = 2"
    using f by (simp add: possible_fills_def fill_domain_def fill_leg_def)
  then show ?thesis
    unfolding obj outcome_loss_split by (auto simp: unit_charge_def fill_leg_def max_def)
qed

lemma table_backend_optimal:
  assumes "answered (fill_draft pay 0)"
  shows "optimal_answers (table_backend (fill_sample pay cap))"
proof -
  obtain c where c: "compile_fill_adversary (fill_sample pay cap) = Inr c" and ok: "validate_backend_result (fill_model c) yes_answer = Inr ()"
    using fill_sample_answered[OF assms] by metis
  have obj: "objective_at (fill_model c) (answer_at (backend_values yes_answer)) = 800000"
    using validated_values_feasible(2)[OF ok] compiled_maximizes[OF c] by (auto simp: objective_at_def yes_answer_def)
  show ?thesis
    unfolding optimal_answers_def
  proof (intro allI impI)
    fix m t r ob v
    assume run: "table_backend (fill_sample pay cap) m t = Inr r" "backend_status r = NATIVE_OPTIMAL"
      and ob: "model_objective m = Some ob" and v: "feasible m v"
    have m: "m = fill_model c" "r = yes_answer"
      using run by (auto simp: table_backend_def c split: if_splits)
    have "sense ob = MAXIMIZE"
      using compiled_maximizes[OF c] ob by (auto simp: m)
    then show "case sense ob of MAXIMIZE \<Rightarrow> objective_at m v \<le> objective_at m (answer_at (backend_values r))
        | MINIMIZE \<Rightarrow> objective_at m (answer_at (backend_values r)) \<le> objective_at m v"
      using fill_sample_objective[OF c] v obj by (simp add: m)
  qed
qed

lemma fill_sample_checked:
  assumes "0 \<le> cap"
  shows "check_fill_problem (fill_sample pay cap) = Inr ()" "\<forall>l \<in> set (fill_legs (fill_sample pay cap)). check_fill_leg l = Inr ()"
    "sorted_problem (fill_source pay) = fill_source pay" "plain_texts (fill_sample pay cap)"
proof -
  have "actions_by_id (fill_source pay) ''a-no'' = Some fill_action"
    by (simp add: actions_by_id_def fill_source_def fill_action_def last_wins_def)
  then have "result_fold (check_problem_leg (actions_by_id (fill_source pay))) [fill_leg] [] = Inr [''a-no'']"
    by (simp add: check_problem_leg_def fill_leg_def fill_action_def order_semantics_lookup_def ORDER_SEMANTICS_TABLE_V1_def)
  moreover have "fill_fingerprint (fill_sample pay cap) = fill_problem_fingerprint (fill_sample pay cap)"
    by (simp add: fill_sample_def fill_problem_fingerprint_def fill_problem_fields_def)
  ultimately show "check_fill_problem (fill_sample pay cap) = Inr ()"
    using assms unfolding check_fill_problem_def by (simp add: require_def) (simp add: fill_sample_def fill_draft_def)
  show "\<forall>l \<in> set (fill_legs (fill_sample pay cap)). check_fill_leg l = Inr ()"
    by (simp add: check_fill_leg_def require_def fill_leg_def)
  show "sorted_problem (fill_source pay) = fill_source pay"
    by (simp add: sorted_problem_def fill_source_def sorted_state_set_def sorted_atom_def sample_atom_def)
  show "plain_texts (fill_sample pay cap)"
    by (simp add: plain_texts_def fill_sample_def fill_draft_def strip_text_def py_space_def)
qed

lemma fill_sample_run:
  assumes "answered (fill_draft pay 0)" "0 \<le> cap"
  shows "\<exists>r ce. prove_partial_fill (fill_sample pay cap) (table_backend (fill_sample pay cap)) (table_backend (fill_sample pay cap)) ''table'' ''1'' 1000 = Inr (r, ce)
    \<and> solver_upper_bound r = 800000
    \<and> partial_fill_status r = (if 800000 \<le> cap then PARTIAL_FILL_SAFE else PARTIAL_FILL_UNSAFE)"
proof -
  obtain c where c: "compile_fill_adversary (fill_sample pay cap) = Inr c"
    and ans: "checked_backend_solve (fill_model c) (table_backend (fill_sample pay cap)) 1000 = Inr yes_answer"
    and loss: "counterexample_loss_units (fill_sample pay cap) (fills_from_values c (backend_values yes_answer))
       (scenario_from_values (fill_sample pay cap) (backend_values yes_answer)) = Inr 800000"
    using fill_sample_answered[OF assms(1)] by metis
  show ?thesis
    using prove_partial_fill_run[OF fill_sample_checked(1)[OF assms(2)] _ fill_sample_checked(4)[OF assms(2)] _ _ _ c _ ans _ _ _ ans _ _ loss]
      fill_sample_checked(3)[OF assms(2)]
    by (simp add: fill_leg_def yes_answer_def)
qed

lemma fill_sample_payouts: "0 \<le> pay \<Longrightarrow> nonnegative_payouts (fill_source pay)"
  by (simp add: nonnegative_payouts_def fill_source_def sample_atom_def)

theorem closed_proof_bounds_every_outcome_witness:
  "\<exists>r ce. prove_partial_fill (fill_sample 1000000 900000) (table_backend (fill_sample 1000000 900000)) (table_backend (fill_sample 1000000 900000)) ''table'' ''1'' 1000 = Inr (r, ce)
     \<and> partial_fill_status r = PARTIAL_FILL_SAFE \<and> optimal_answers (table_backend (fill_sample 1000000 900000))
     \<and> nonnegative_payouts (fill_source 1000000) \<and> worst_outcome (fill_sample 1000000 900000) 800000"
proof -
  obtain r ce where run: "prove_partial_fill (fill_sample 1000000 900000) (table_backend (fill_sample 1000000 900000)) (table_backend (fill_sample 1000000 900000)) ''table'' ''1'' 1000
      = Inr (r, ce)" and up: "solver_upper_bound r = 800000" and status: "partial_fill_status r = PARTIAL_FILL_SAFE"
    using fill_sample_run[OF fill_draft_answered(1), of 900000] by auto
  have known: "partial_fill_status r \<noteq> PARTIAL_FILL_UNKNOWN" and cap: "(0 :: int) \<le> 900000"
    and pays: "nonnegative_payouts (fill_source_problem (fill_sample 1000000 900000))"
    using status fill_sample_payouts[of 1000000] by simp_all
  show ?thesis
    using closed_proof_bounds_every_outcome[OF run known fill_sample_checked(2)[OF cap] table_backend_optimal[OF fill_draft_answered(1)] pays]
      run up status pays table_backend_optimal[OF fill_draft_answered(1), of 900000] by auto
qed

theorem unsafe_proof_has_counterexample_witness:
  "\<exists>r k. prove_partial_fill (fill_sample 1000000 500000) (table_backend (fill_sample 1000000 500000)) (table_backend (fill_sample 1000000 500000)) ''table'' ''1'' 1000 = Inr (r, Some k)
     \<and> partial_fill_status r = PARTIAL_FILL_UNSAFE \<and> 500000 < counterexample_loss k"
proof -
  obtain r ce where run: "prove_partial_fill (fill_sample 1000000 500000) (table_backend (fill_sample 1000000 500000)) (table_backend (fill_sample 1000000 500000)) ''table'' ''1'' 1000
      = Inr (r, ce)" and status: "partial_fill_status r = PARTIAL_FILL_UNSAFE"
    using fill_sample_run[OF fill_draft_answered(1), of 500000] by auto
  have cap: "(0 :: int) \<le> 500000"
    by simp
  show ?thesis
    using unsafe_proof_has_counterexample[OF run status fill_sample_checked(2)[OF cap]] run status by auto
qed

lemma fill_enumeration:
  "(case enumerate_fill_adversary (fill_draft 1000000 0) sample_budget of Inl _ \<Rightarrow> False | Inr res \<Rightarrow> oracle_closed res)"
  by code_simp

theorem proof_agrees_with_enumeration_witness:
  "(case enumerate_fill_adversary (fill_sample 1000000 900000) sample_budget of
      Inl _ \<Rightarrow> False | Inr res \<Rightarrow> oracle_closed res \<and> oracle_worst_loss res = Some 800000)"
proof -
  have same: "fill_source_problem (fill_draft 1000000 0) = fill_source_problem (fill_sample 1000000 900000)"
    "fill_legs (fill_draft 1000000 0) = fill_legs (fill_sample 1000000 900000)"
    by (simp_all add: fill_draft_def)
  obtain res where res: "enumerate_fill_adversary (fill_sample 1000000 900000) sample_budget = Inr res" "oracle_closed res"
    using fill_enumeration unfolding reads_source_and_legs(3)[OF same] by (auto split: sum.splits)
  obtain r ce where run: "prove_partial_fill (fill_sample 1000000 900000) (table_backend (fill_sample 1000000 900000)) (table_backend (fill_sample 1000000 900000)) ''table'' ''1'' 1000
      = Inr (r, ce)" and up: "solver_upper_bound r = 800000" and status: "partial_fill_status r = PARTIAL_FILL_SAFE"
    using fill_sample_run[OF fill_draft_answered(1), of 900000] by auto
  have known: "partial_fill_status r \<noteq> PARTIAL_FILL_UNKNOWN" and cap: "(0 :: int) \<le> 900000"
    and pays: "nonnegative_payouts (fill_source_problem (fill_sample 1000000 900000))"
    using status fill_sample_payouts[of 1000000] by simp_all
  show ?thesis
    using proof_agrees_with_enumeration[OF run known fill_sample_checked(2)[OF cap] fill_sample_checked(1)[OF cap]
        table_backend_optimal[OF fill_draft_answered(1)] pays res] res up by simp
qed

theorem proof_closes_on_optimal_answer_witness:
  "\<exists>r ce. prove_partial_fill (fill_sample 1000000 900000) (table_backend (fill_sample 1000000 900000)) (table_backend (fill_sample 1000000 900000)) ''table'' ''1'' 1000 = Inr (r, ce)
     \<and> partial_fill_status r = PARTIAL_FILL_SAFE"
proof -
  obtain c where c: "compile_fill_adversary (fill_sample 1000000 900000) = Inr c"
    and ans: "checked_backend_solve (fill_model c) (table_backend (fill_sample 1000000 900000)) 1000 = Inr yes_answer"
    using fill_sample_answered[OF fill_draft_answered(1)] by metis
  have cap: "(0 :: int) \<le> 900000" and pays: "nonnegative_payouts (fill_source_problem (fill_sample 1000000 900000))"
    using fill_sample_payouts[of 1000000] by simp_all
  show ?thesis
    using proof_closes_on_optimal_answer[OF fill_sample_checked(1,2)[OF cap] _ fill_sample_checked(4)[OF cap] _ _ _ c pays
        table_backend_optimal[OF fill_draft_answered(1)] ans _ _ table_backend_optimal[OF fill_draft_answered(1)] ans]
      fill_sample_checked(3)[OF cap]
    by (simp add: yes_answer_def)
qed

text \<open>C12. Negative payouts are lost in the objective. The validator accepts a payout of -5000000 for the atom NO, the
  compiled objective leaves it out, and a backend that is optimal for the compiled model yields a record that says SAFE
  under a cap of 900000, although the outcome in which the leg fills and NO is the result loses 10800000.\<close>

theorem negative_payout_proved_safe:
  "wf_problem (fill_source (- 5000000)) \<and> optimal_answers (table_backend (fill_sample (- 5000000) 900000))
   \<and> (\<exists>r ce. prove_partial_fill (fill_sample (- 5000000) 900000) (table_backend (fill_sample (- 5000000) 900000)) (table_backend (fill_sample (- 5000000) 900000)) ''table'' ''1'' 1000
          = Inr (r, ce) \<and> partial_fill_status r = PARTIAL_FILL_SAFE)
   \<and> (\<exists>w f. allowed_world (fill_source (- 5000000)) w \<and> possible_fills (fill_sample (- 5000000) 900000) f
          \<and> outcome_loss (fill_sample (- 5000000) 900000) f w = 10800000)"
proof (intro conjI)
  obtain c where "compile_fill_adversary (fill_sample (- 5000000) 900000) = Inr c"
    using fill_sample_answered[OF fill_draft_answered(2)] by metis
  then show "wf_problem (fill_source (- 5000000))"
    by (rule compile_fill_adversary_shape) simp
  show "optimal_answers (table_backend (fill_sample (- 5000000) 900000))"
    by (rule table_backend_optimal[OF fill_draft_answered(2)])
  show "\<exists>r ce. prove_partial_fill (fill_sample (- 5000000) 900000) (table_backend (fill_sample (- 5000000) 900000)) (table_backend (fill_sample (- 5000000) 900000)) ''table'' ''1'' 1000
      = Inr (r, ce) \<and> partial_fill_status r = PARTIAL_FILL_SAFE"
    using fill_sample_run[OF fill_draft_answered(2), of 900000] by auto
  show "\<exists>w f. allowed_world (fill_source (- 5000000)) w \<and> possible_fills (fill_sample (- 5000000) 900000) f
      \<and> outcome_loss (fill_sample (- 5000000) 900000) f w = 10800000"
    using fill_world_allowed[of "- 5000000"] fill_world_loss[of "- 5000000" 900000]
    by (intro exI[of _ "fill_world (- 5000000)"] exI[of _ "\<lambda>_. 2"]) simp
qed

end
