(* ===== verification/Driver_Facts.thy ===== *)
theory Driver_Facts
  imports NLeg_Driver Service_Facts Fill_Proofs
begin

section \<open>What the queue driver guarantees\<close>

text \<open>
  No order of a batch is handed to the trading client twice; an UNKNOWN outcome stops everything; an outcome the driver
  cannot read leaves the tick with an exception before any of that happens.
\<close>

subsection \<open>Relations every run keeps\<close>

definition keeps :: "('s \<Rightarrow> 's \<Rightarrow> bool) \<Rightarrow> ('s, 'a) run \<Rightarrow> bool" where
  "keeps R m \<longleftrightarrow> (\<forall>s r t. m s = (r, t) \<longrightarrow> R s t)"

lemma keepsI: "(\<And>s r t. m s = (r, t) \<Longrightarrow> R s t) \<Longrightarrow> keeps R m"
  by (simp add: keeps_def)

lemma keepsD: "keeps R m \<Longrightarrow> m s = (r, t) \<Longrightarrow> R s t"
  by (simp add: keeps_def)

text \<open>A reflexive and transitive relation between the states before and after is kept by the composition of runs that keep it.\<close>

locale frame =
  fixes R :: "'s \<Rightarrow> 's \<Rightarrow> bool"
  assumes unchanged: "R s s"
    and composed: "R s t \<Longrightarrow> R t u \<Longrightarrow> R s u"
begin

lemma keeps_pure: "keeps R (op_return x)" "keeps R (op_raise e)" "keeps R (op_read f)" "keeps R (op_lift v)" "keeps R (op_try g)"
  "keeps R (Pair y)"
  by (auto simp: keeps_def unchanged)

lemma keeps_bind: "keeps R m \<Longrightarrow> (\<And>x. keeps R (f x)) \<Longrightarrow> keeps R (op_bind m f)"
  unfolding keeps_def op_bind_def by (auto split: prod.splits sum.splits) (meson composed)

lemma keeps_catch: "keeps R m \<Longrightarrow> keeps R (op_catch caught m fallback)"
  by (auto simp: keeps_def op_catch_def split: prod.splits sum.splits if_splits)

lemma keeps_if: "keeps R m \<Longrightarrow> keeps R m' \<Longrightarrow> keeps R (if ok then m else m')"
  by simp

lemmas keeps_rules = keeps_pure keeps_bind keeps_catch keeps_if

end

subsection \<open>What never changes during a tick\<close>

definition orders :: "NLegStore \<Rightarrow> string \<Rightarrow> string list option" where
  "orders s i = map_option (\<lambda>b. map leg_client_order_id (legs b)) (n_leg_batch s i)"

definition row_batch_id :: "RequestRow \<Rightarrow> string option" where
  "row_batch_id r =
     (case request_row_payload r of
        JObj kvs \<Rightarrow> (case map_of kvs ''execution_batch_id'' of Some (JStr i) \<Rightarrow> Some i | _ \<Rightarrow> None)
      | _ \<Rightarrow> None)"

definition row_step :: "RequestRow \<Rightarrow> RequestRow \<Rightarrow> bool" where
  "row_step r r' \<longleftrightarrow>
     request_id r' = request_id r \<and> (request_pending r' \<longrightarrow> request_pending r)
     \<and> (\<forall>i. row_batch_id r = Some i \<longrightarrow> row_batch_id r' = Some i)"

definition request_ids :: "NLegStore \<Rightarrow> string list" where
  "request_ids s = map request_id (request_rows s)"

definition store_step :: "NLegStore \<Rightarrow> NLegStore \<Rightarrow> bool" where
  "store_step s t \<longleftrightarrow>
     (store_wf s \<longrightarrow> store_wf t \<and> (\<forall>i os. orders s i = Some os \<longrightarrow> orders t i = Some os))
     \<and> (distinct (request_ids s) \<longrightarrow> list_all2 row_step (request_rows s) (request_rows t))"

definition calm :: "World \<Rightarrow> World \<Rightarrow> bool" where
  "calm w w' \<longleftrightarrow> sent_orders w' = sent_orders w \<and> store_step (world_store w) (world_store w')"

lemma row_step_refl [simp]: "row_step r r"
  by (simp add: row_step_def)

lemma row_step_trans: "row_step r r' \<Longrightarrow> row_step r' r'' \<Longrightarrow> row_step r r''"
  by (auto simp: row_step_def)

lemma row_steps_ids: "list_all2 row_step rs rs' \<Longrightarrow> map request_id rs' = map request_id rs"
  by (induction rule: list_all2_induct) (auto simp: row_step_def)

lemma row_steps_refl [simp]: "list_all2 row_step rs rs"
  by (simp add: list.rel_refl)

lemma store_step_refl [simp]: "store_step s s"
  by (simp add: store_step_def)

lemma store_step_trans:
  assumes "store_step s t" "store_step t u"
  shows "store_step s u"
proof -
  have "list_all2 row_step (request_rows s) (request_rows u)" if "distinct (request_ids s)"
  proof -
    have "list_all2 row_step (request_rows s) (request_rows t)"
      using that assms(1) by (simp add: store_step_def)
    moreover have "list_all2 row_step (request_rows t) (request_rows u)"
      using row_steps_ids[OF calculation] that assms(2) by (simp add: store_step_def request_ids_def)
    ultimately show ?thesis
      by (rule list_all2_trans[of row_step row_step row_step, rotated]) (rule row_step_trans)
  qed
  then show ?thesis
    using assms by (auto simp: store_step_def)
qed

interpretation store: frame store_step
  by unfold_locales (auto intro: store_step_trans)

interpretation world: frame calm
  by unfold_locales (auto simp: calm_def intro: store_step_trans)

lemma calm_on_store: "keeps store_step m \<Longrightarrow> keeps calm (on_store m)"
  by (auto simp: keeps_def on_store_def calm_def split: prod.splits)

lemma calm_ask [simp]: "keeps calm (ask f)"
  by (simp add: ask_def world.keeps_pure)

context batch_reducer
begin

lemma reduce_step: "keeps store_step (n_leg_reduce i kind key reduce)"
proof (rule keepsI)
  fix s r t
  assume run: "n_leg_reduce i kind key reduce s = (r, t)"
  have rows: "request_rows t = request_rows s"
    using run by (cases rule: reduce_cases) (simp_all add: add_transition_def write_batch_def)
  have "store_wf t \<and> (\<forall>j os. orders s j = Some os \<longrightarrow> orders t j = Some os)" if wf: "store_wf s"
  proof (intro conjI allI impI)
    show "store_wf t"
      using wf run by (rule reduce_wf)
    fix j os
    assume "orders s j = Some os"
    then obtain b0 where b0: "n_leg_batch s j = Some b0" "os = map leg_client_order_id (legs b0)"
      by (auto simp: orders_def)
    then have "j \<in> set (batch_ids t)"
      using reduce_wf(2)[OF wf run] n_leg_batch_None[of s j] by auto
    then obtain b where "n_leg_batch t j = Some b"
      using n_leg_batch_None[of t j] by blast
    then show "orders t j = Some os"
      using reduce_wf(3)[OF wf run, of j b] b0 by (auto simp: orders_def)
  qed
  then show "store_step s t"
    by (simp add: store_step_def rows)
qed

end

lemma receipt_step: "keeps store_step (apply_receipt r ctx)"
  unfolding apply_receipt_def by (rule receipt.reduce_step)

lemma reconciliation_step: "keeps store_step (complete_reconciliation i ctx)"
  unfolding complete_reconciliation_def by (rule settlement.reduce_step)

lemma transition_step: "keeps store_step (n_leg_transition_append i kind key payload)"
proof (rule keepsI)
  fix s r t
  assume run: "n_leg_transition_append i kind key payload s = (r, t)"
  then have rows: "request_rows t = request_rows s" "batch_rows t = batch_rows s"
    by (auto simp: n_leg_transition_append_def add_transition_def split: if_splits sum.splits)
  then show "store_step s t"
    using transition_append_wf[OF _ run] by (simp add: store_step_def orders_def n_leg_batch_def)
qed

lemma enter_step: "keeps store_step (enter now opportunity lineage i decoded q mode cap expected)"
proof (rule keepsI)
  fix s r t
  assume "enter now opportunity lineage i decoded q mode cap expected s = (r, t)"
  then show "store_step s t"
  proof (cases rule: enter_cases)
    case (created d)
    have "store_wf s \<Longrightarrow> store_wf t"
      using created(5-7) create_batch_wf by blast
    with created(7) show ?thesis
      by (cases rule: create_batch_cases) (auto simp: store_step_def orders_def admitted_batch)
  qed simp
qed

subsection \<open>Requests\<close>

lemma execution_batch_id_public: "\<not> dropped_field allow ''execution_batch_id''"
  by (rule public_name_kept) code_simp

lemma map_of_fold_merge:
  "map_of (fold (\<lambda>(k, v). AList.update k v) merge kvs) x
     = (case map_of (rev merge) x of None \<Rightarrow> map_of kvs x | Some v \<Rightarrow> Some v)"
  by (induction merge arbitrary: kvs) (auto simp: update_conv map_of_append map_add_def split: option.splits)

lemma dumped_batch_id:
  assumes "dump_payload (JObj kvs) = Inr (JObj kvs')" "map_of kvs ''execution_batch_id'' = Some (JStr i)"
  shows "map_of kvs' ''execution_batch_id'' = Some (JStr i)"
proof -
  have "safe_value False (JObj kvs) = JObj kvs'"
    using assms(1) by (auto simp: dump_payload_def split: json.splits)
  then show ?thesis
    using safe_value_kept[of "[Field ''execution_batch_id'']" False "JObj kvs"] execution_batch_id_public assms(2)
    by (simp split: option.splits)
qed

lemma updated_batch_id:
  assumes "updated_request state reason merge row = Inr row'" "row_batch_id row = Some i"
    "\<forall>v. (''execution_batch_id'', v) \<in> set merge \<longrightarrow> v = JStr i"
  shows "row_batch_id row' = Some i"
proof -
  obtain kvs where kvs: "request_row_payload row = JObj kvs" "map_of kvs ''execution_batch_id'' = Some (JStr i)"
    using assms(2) by (auto simp: row_batch_id_def split: json.splits option.splits)
  let ?merged = "fold (\<lambda>(k, v). AList.update k v) merge kvs"
  obtain encoded where dumped: "dump_payload (JObj ?merged) = Inr encoded" "request_row_payload row' = encoded"
    using assms(1) kvs(1) by (auto simp: updated_request_def)
  obtain kvs' where kvs': "encoded = JObj kvs'"
    using dump_payload_object[OF dumped(1)] by blast
  have "map_of ?merged ''execution_batch_id'' = Some (JStr i)"
    using assms(3) kvs(2) by (auto simp: map_of_fold_merge split: option.splits dest: map_of_SomeD)
  then have "map_of kvs' ''execution_batch_id'' = Some (JStr i)"
    using dumped_batch_id dumped(1) kvs' by blast
  then show ?thesis
    by (simp add: dumped(2) kvs' row_batch_id_def)
qed

lemma updated_row_step:
  assumes "updated_request state reason merge row = Inr row'" "\<forall>x \<in> set_option state. x \<noteq> ''PENDING''"
    "\<forall>v i. (''execution_batch_id'', v) \<in> set merge \<longrightarrow> row_batch_id row = Some i \<longrightarrow> v = JStr i"
  shows "row_step row row'" "\<exists>x \<in> set_option state. True \<Longrightarrow> \<not> request_pending row'"
  using assms updated_batch_id[OF assms(1)]
  by (cases state; auto simp: row_step_def request_pending_def updated_request_def)+

lemma request_update_step_at:
  assumes "n_leg_request_update i state reason merge s = (r, t)" "\<forall>x \<in> set_option state. x \<noteq> ''PENDING''"
    "\<forall>v j row. (''execution_batch_id'', v) \<in> set merge \<longrightarrow> row \<in> set (request_rows s) \<longrightarrow> request_id row = i
       \<longrightarrow> row_batch_id row = Some j \<longrightarrow> v = JStr j"
  shows "store_step s t"
  using assms(1)
proof (cases rule: update_cases)
  case (updated row row')
  have step: "row_step row row'"
    using updated(2-4) assms(2,3) by (intro updated_row_step(1)) auto
  have "list_all2 row_step (request_rows s) (request_rows t)" if "distinct (request_ids s)"
  proof -
    have "row_step q (if request_id q = i then row' else q)" if "q \<in> set (request_rows s)" for q
      using that step updated(2,3) \<open>distinct (request_ids s)\<close> by (auto simp: request_ids_def distinct_map inj_on_def)
    then show ?thesis
      by (simp add: updated(6) list_all2_map2 list.rel_refl_strong)
  qed
  then show ?thesis
    by (auto simp: store_step_def updated(6) store_wf_parts orders_def n_leg_batch_def)
qed simp

lemma request_update_step:
  assumes "\<forall>x \<in> set_option state. x \<noteq> ''PENDING''" "''execution_batch_id'' \<notin> fst ` set merge"
  shows "keeps store_step (n_leg_request_update i state reason merge)"
  using assms by (intro keepsI request_update_step_at[of i state reason merge]) force+

lemma abandon_pending_step: "keeps store_step (n_leg_requests_abandon_pending reason)"
proof (rule keepsI)
  fix s r t
  assume "n_leg_requests_abandon_pending reason s = (r, t)"
  from abandon_run[OF this] show "store_step s t"
    by (auto simp: store_step_def store_wf_parts orders_def n_leg_batch_def list_all2_map2 row_step_def request_pending_def
        row_batch_id_def intro!: list.rel_refl_strong)
qed

subsection \<open>Everything but the submissions is calm\<close>

lemmas calm_store =
  calm_on_store[OF receipt_step] calm_on_store[OF reconciliation_step] calm_on_store[OF transition_step]
  calm_on_store[OF enter_step] calm_on_store[OF abandon_pending_step]

lemma calm_update:
  "\<forall>x \<in> set_option state. x \<noteq> ''PENDING'' \<Longrightarrow> ''execution_batch_id'' \<notin> fst ` set merge
    \<Longrightarrow> keeps calm (on_store (n_leg_request_update i state reason merge))"
  by (intro calm_on_store request_update_step)

lemma calm_log: "keeps calm (log_attempt i client outcome)"
  unfolding log_attempt_def by (auto split: json.split intro: calm_store world.keeps_pure)

lemma calm_fold_receipt: "keeps calm (fold_receipt i b moment client outcome)"
  unfolding fold_receipt_def
  by (auto split: sum.split intro!: world.keeps_rules calm_store)

lemma calm_fold_receipts: "keeps calm (fold_receipts i b moment outcomes)"
  by (induction i b moment outcomes rule: fold_receipts.induct) (auto intro!: world.keeps_rules calm_fold_receipt)

lemma calm_reconciliation: "keeps calm (try_complete_reconciliation env i)"
  unfolding try_complete_reconciliation_def
  by (auto split: option.split intro!: world.keeps_rules calm_store)

lemma calm_mark_rows: "keeps calm (mark_rows rows)"
  by (induction rows) (auto intro!: world.keeps_rules calm_update)

lemma calm_mark: "keeps calm (mark_batch_rows_submitted i)"
  unfolding mark_batch_rows_submitted_def by (auto intro!: world.keeps_rules calm_mark_rows)

lemma calm_stamp: "keeps calm (stamp_awaiting_reconciliation i moment)"
  unfolding stamp_awaiting_reconciliation_def
  by (auto split: option.split intro!: world.keeps_bind world.keeps_pure calm_update)

lemma calm_windows:
  "keeps calm (flag_overdue i ''reconciliation_overdue'' ''reconciliation_overdue_at'' reason row moment)"
  "keeps calm (flag_overdue i ''active_batch_overdue'' ''active_batch_overdue_at'' reason row moment)"
  "keeps calm (start_window ''active_batch_since'' row moment)" "keeps calm (start_window ''awaiting_reconciliation_at'' row moment)"
  unfolding flag_overdue_def start_window_def by (intro world.keeps_bind world.keeps_pure calm_update; simp)+

lemma calm_watchdog: "keeps calm (active_batch_watchdog b moment)"
  unfolding active_batch_watchdog_def Let_def
  by (auto split: option.split json.split intro!: world.keeps_rules calm_windows)

lemma calm_watch: "keeps calm (reconciliation_watch env i moment)"
  unfolding reconciliation_watch_def
  by (auto split: option.split json.split intro!: world.keeps_rules calm_windows calm_watchdog calm_reconciliation calm_mark)

lemma calm_abandon: "keeps calm (abandon row reason)"
  unfolding abandon_def by (auto intro!: world.keeps_rules calm_update)

lemma calm_admission: "keeps calm (admission env frozen proof_fields moment)"
  unfolding admission_def by (auto intro!: world.keeps_rules calm_store)

subsection \<open>Submissions\<close>

definition submissions :: "string \<Rightarrow> Leg list \<Rightarrow> (string \<times> string) list" where
  "submissions i ls = map (\<lambda>l. (i, leg_client_order_id l)) ls"

definition sends :: "(string \<times> string) list \<Rightarrow> World \<Rightarrow> World \<Rightarrow> bool" where
  "sends xs w w' \<longleftrightarrow> sent_orders w' = sent_orders w @ xs \<and> store_step (world_store w) (world_store w')"

lemma sends_calm: "calm w w' \<longleftrightarrow> sends [] w w'"
  by (simp add: calm_def sends_def)

lemma sends_trans: "sends xs w w' \<Longrightarrow> sends ys w' w'' \<Longrightarrow> sends (xs @ ys) w w''"
  by (auto simp: sends_def intro: store_step_trans)

lemma sends_then_calm: "sends xs w w' \<Longrightarrow> calm w' w'' \<Longrightarrow> sends xs w w''"
  using sends_trans[of xs w w' "[]" w''] by (simp add: sends_calm)

lemma calm_then_sends: "calm w w' \<Longrightarrow> sends xs w' w'' \<Longrightarrow> sends xs w w''"
  using sends_trans[of "[]" w w' xs w''] by (simp add: sends_calm)

lemma submit_one_sends:
  obtains outcome w' where "submit_one env i leg w = (Inr outcome, w')" "sends [(i, leg_client_order_id leg)] w w'"
proof -
  obtain outcome w1 where sent: "send_order env i leg w = (Inr outcome, w1)" "sends [(i, leg_client_order_id leg)] w w1"
    by (simp add: send_order_def sends_def)
  let ?log = "op_catch (\<lambda>_. True) (log_attempt i (leg_client_order_id leg) outcome) False"
  obtain r w2 where log: "?log w1 = (r, w2)"
    by fastforce
  have "calm w1 w2"
    using keepsD[OF world.keeps_catch[OF calm_log] log] .
  moreover obtain x where "r = Inr x"
    using log by (auto simp: op_catch_def split: prod.splits sum.splits)
  ultimately show thesis
    using sent log that[of outcome w2] by (simp add: submit_one_def op_bind_def sends_then_calm)
qed

lemma submit_all_sends:
  obtains outcomes w' where "submit_all env i ls w = (Inr outcomes, w')" "sends (submissions i ls) w w'"
    "map fst outcomes = map leg_client_order_id ls"
proof (induction ls arbitrary: w thesis)
  case Nil
  then show ?case
    by (simp add: sends_def submissions_def)
next
  case (Cons l ls)
  obtain outcome w1 where one: "submit_one env i l w = (Inr outcome, w1)" "sends [(i, leg_client_order_id l)] w w1"
    by (rule submit_one_sends)
  obtain outcomes w2 where all: "submit_all env i ls w1 = (Inr outcomes, w2)" "sends (submissions i ls) w1 w2"
    "map fst outcomes = map leg_client_order_id ls"
    using Cons.IH by metis
  have "sends (submissions i (l # ls)) w w2"
    using sends_trans[OF one(2) all(2)] by (simp add: submissions_def)
  then show ?case
    using one(1) all(1,3) Cons.prems[of "(leg_client_order_id l, outcome) # outcomes" w2] by (simp add: op_bind_def)
qed

lemma calm_finish: "keeps calm (finish_submission env i moment)"
  unfolding finish_submission_def
  by (auto split: option.split intro!: world.keeps_rules calm_store calm_reconciliation calm_mark calm_stamp)

lemma submit_legs_sends:
  assumes "submit_legs env i moment w = (r, w')"
  shows "(case n_leg_batch (world_store w) i of None \<Rightarrow> w' = w
    | Some b \<Rightarrow> sends (submissions i (completion_order env (legs b))) w w')"
proof (cases "n_leg_batch (world_store w) i")
  case None
  then show ?thesis
    using assms by (simp add: submit_legs_def ask_def)
next
  case (Some b)
  obtain outcomes w1 where all: "submit_all env i (completion_order env (legs b)) w = (Inr outcomes, w1)"
    "sends (submissions i (completion_order env (legs b))) w w1"
    by (rule submit_all_sends)
  let ?rest = "op_bind (fold_receipts i b moment (sorted_outcomes outcomes)) (\<lambda>_. finish_submission env i moment)"
  have "keeps calm ?rest"
    by (intro world.keeps_bind calm_fold_receipts calm_finish)
  moreover have "?rest w1 = (r, w')"
    using assms Some all(1) by (simp add: submit_legs_def ask_def) (simp add: op_bind_def)
  ultimately have "calm w1 w'"
    by (rule keepsD)
  then show ?thesis
    using Some sends_then_calm[OF all(2)] by simp
qed

subsection \<open>One tick\<close>

lemma enter_id:
  assumes "store_wf s" "enter now opportunity lineage i decoded q mode cap expected s = (Inr b, t)"
  shows "execution_batch_id b = i"
  using assms(2)
proof (cases rule: enter_cases)
  case (created d)
  let ?b = "entry_batch opportunity lineage i d q mode cap"
  have id: "execution_batch_id ?b = i"
    by (simp add: entry_batch_def Let_def)
  from created(7) show ?thesis
  proof (cases rule: create_batch_cases)
    case same
    then show ?thesis
      using batch_well_formed[OF assms(1), of i b] id by (simp add: well_formed_row_def)
  next
    case (fresh claim)
    then show ?thesis
      using id by (simp add: admitted_batch split: if_splits)
  qed
qed simp

lemma admission_id:
  assumes "store_wf (world_store w)" "map_of frozen ''execution_batch_id'' = Some (JStr i)"
    "admission env frozen proof_fields moment w = (Inr b, w')"
  shows "execution_batch_id b = i"
proof -
  obtain opportunity lineage decoded q cap expected t where
    "enter moment opportunity lineage i decoded q ''MANUAL'' cap expected (world_store w) = (Inr b, t)"
    using assms(2,3)
    by (auto simp: admission_def on_store_def frozen_text_def split: sum.splits prod.splits option.splits json.splits)
  then show ?thesis
    using assms(1) enter_id by blast
qed

definition not_waiting :: "string \<Rightarrow> NLegStore \<Rightarrow> bool" where
  "not_waiting k s \<longleftrightarrow> (\<forall>q \<in> set (request_rows s). request_id q = k \<longrightarrow> \<not> request_pending q)"

lemma update_not_waiting:
  assumes "n_leg_request_update k (Some x) reason merge s = (Inr row, t)" "x \<noteq> ''PENDING''"
  shows "not_waiting k t"
  using assms(1)
proof (cases rule: update_cases)
  case (updated old new)
  then have "\<not> request_pending new"
    using assms(2) by (auto simp: updated_request_def request_pending_def)
  then show ?thesis
    by (auto simp: not_waiting_def updated(6))
qed simp

lemma list_all2_origin: "list_all2 P xs ys \<Longrightarrow> y \<in> set ys \<Longrightarrow> \<exists>x \<in> set xs. P x y"
  by (induction rule: list_all2_induct) auto

lemma step_origin:
  assumes "store_step s t" "distinct (request_ids s)" "q \<in> set (request_rows t)"
  obtains p where "p \<in> set (request_rows s)" "row_step p q"
  using assms list_all2_origin[of row_step "request_rows s" "request_rows t" q] by (auto simp: store_step_def)

lemma step_not_waiting:
  assumes "store_step s t" "not_waiting k s" "distinct (request_ids s)"
  shows "not_waiting k t"
  using assms(2) step_origin[OF assms(1,3)] by (metis not_waiting_def row_step_def)

lemma step_batch_id:
  assumes "store_step s t" "distinct (request_ids s)" "r \<in> set (request_rows s)" "row_batch_id r = Some i"
    "q \<in> set (request_rows t)" "request_id q = request_id r"
  shows "row_batch_id q = Some i"
proof -
  obtain p where p: "p \<in> set (request_rows s)" "row_step p q"
    using step_origin[OF assms(1,2,5)] .
  then have "p = r"
    using assms(2,3,6) by (auto simp: request_ids_def distinct_map inj_on_def row_step_def)
  then show ?thesis
    using p assms(4) by (auto simp: row_step_def)
qed

lemma drive_sends:
  assumes run: "drive env row frozen proof_fields moment w = (r, w')"
    and wf: "store_wf (world_store w)" and ids: "distinct (request_ids (world_store w))"
    and row: "row \<in> set (request_rows (world_store w))" "row_batch_id row = Some i" "request_row_payload row = JObj frozen"
  obtains (quiet) "calm w w'"
  | (sent) w1 b where "calm w w1" "not_waiting (request_id row) (world_store w1)" "n_leg_batch (world_store w1) i = Some b"
      "sends (submissions i (completion_order env (legs b))) w1 w'"
proof -
  have frozen_id: "map_of frozen ''execution_batch_id'' = Some (JStr i)"
    using row(2,3) by (auto simp: row_batch_id_def split: option.splits json.splits)
  obtain r1 w1 where adm: "admission env frozen proof_fields moment w = (r1, w1)"
    by fastforce
  have calm1: "calm w w1"
    using keepsD[OF calm_admission adm] .
  show thesis
  proof (cases r1)
    case (Inl e)
    have "calm w1 w'"
      using run adm Inl keepsD[OF calm_abandon] world.unchanged
      by (auto simp: drive_def op_handle_def split: if_splits)
    then show thesis
      using calm1 world.composed quiet by blast
  next
    case (Inr b)
    have id: "execution_batch_id b = i"
      using admission_id wf frozen_id adm Inr by blast
    let ?update = "n_leg_request_update (request_id row) (Some ''ADMITTED'') None
      [(''execution_batch_id'', JStr i), (''admitted_at'', JStr (isoformat moment))]"
    obtain r2 t where upd: "?update (world_store w1) = (r2, t)"
      by fastforce
    let ?w2 = "w1\<lparr>world_store := t\<rparr>"
    have step1: "store_step (world_store w) (world_store w1)"
      using calm1 by (simp add: calm_def)
    have "store_step (world_store w1) t"
      using upd step_batch_id[OF step1 ids row(1,2)] by (intro request_update_step_at[OF upd]) auto
    then have calm2: "calm w1 ?w2"
      by (simp add: calm_def)
    show thesis
    proof (cases r2)
      case (Inl e)
      then have "w' = ?w2"
        using run adm Inr upd by (simp add: drive_def op_handle_def on_store_def id op_bind_def)
      then show thesis
        using calm1 calm2 world.composed quiet by blast
    next
      case ok: (Inr new)
      have "submit_legs env i moment ?w2 = (r, w')"
        using run adm Inr upd ok by (simp add: drive_def op_handle_def on_store_def id op_bind_def)
      from this show thesis
      proof (cases "n_leg_batch (world_store ?w2) i")
        case None
        then have "w' = ?w2"
          using submit_legs_sends[OF \<open>submit_legs env i moment ?w2 = (r, w')\<close>] by simp
        then show thesis
          using calm1 calm2 world.composed quiet by blast
      next
        case (Some b')
        moreover have "not_waiting (request_id row) (world_store ?w2)"
          using update_not_waiting[of "request_id row" "''ADMITTED''"] upd ok by fastforce
        ultimately show thesis
          using submit_legs_sends[OF \<open>submit_legs env i moment ?w2 = (r, w')\<close>] world.composed[OF calm1 calm2]
          by (intro sent[of ?w2 b']) simp_all
      qed
    qed
  qed
qed

lemma head_row: "n_leg_request_head s = Some row \<Longrightarrow> row \<in> set (request_rows s) \<and> request_pending row"
  by (auto simp: n_leg_request_head_def n_leg_requests_def find_Some_iff) (metis nth_mem set_sort length_sort)

lemma serve_head_sends:
  assumes run: "serve_head env row moment w = (r, w')"
    and wf: "store_wf (world_store w)" and ids: "distinct (request_ids (world_store w))"
    and row: "row \<in> set (request_rows (world_store w))" "row_batch_id row = Some i"
  obtains (quiet) "calm w w'"
  | (sent) w1 b where "calm w w1" "not_waiting (request_id row) (world_store w1)" "n_leg_batch (world_store w1) i = Some b"
      "sends (submissions i (completion_order env (legs b))) w1 w'"
proof -
  obtain frozen where frozen: "request_row_payload row = JObj frozen"
    using row(2) by (auto simp: row_batch_id_def split: json.splits)
  have abandoned: "calm w w'" if "abandon row reason w = (r, w')" for reason
    using keepsD[OF calm_abandon that] .
  have "calm w w' \<or> (\<exists>proof_fields. drive env row frozen proof_fields moment w = (r, w'))"
    using run abandoned world.unchanged
    by (auto simp: serve_head_def frozen split: if_splits json.splits option.splits sum.splits)
  then show thesis
    using drive_sends[OF _ wf ids row frozen] quiet sent by metis
qed

lemma tick_sends:
  assumes run: "tick env moment w = (r, w')"
    and wf: "store_wf (world_store w)" and ids: "distinct (request_ids (world_store w))"
    and bound: "\<forall>q \<in> set (request_rows (world_store w)). row_batch_id q \<noteq> None"
  obtains (quiet) "calm w w'"
  | (sent) row i w1 b where "row \<in> set (request_rows (world_store w))" "request_pending row" "row_batch_id row = Some i"
      "calm w w1" "not_waiting (request_id row) (world_store w1)" "n_leg_batch (world_store w1) i = Some b"
      "sends (submissions i (completion_order env (legs b))) w1 w'"
proof -
  have "calm w w' \<or> (\<exists>row. n_leg_request_head (world_store w) = Some row \<and> serve_head env row moment w = (r, w'))"
    using run world.unchanged keepsD[OF calm_watch]
    by (auto simp: tick_def ask_def split: if_splits option.splits)
  then consider "calm w w'" | row where "n_leg_request_head (world_store w) = Some row" "serve_head env row moment w = (r, w')"
    by blast
  then show thesis
  proof cases
    case 1
    then show thesis
      by (rule quiet)
  next
    case 2
    note row = head_row[OF 2(1)]
    then obtain i where i: "row_batch_id row = Some i"
      using bound by blast
    from row have mem: "row \<in> set (request_rows (world_store w))" ..
    show thesis
      using 2(2) wf ids mem i
    proof (cases rule: serve_head_sends)
      case quiet
      then show thesis
        by (rule that(1))
    next
      case (sent w1 b)
      then show thesis
        using that(2)[of row i w1 b] row i by blast
    qed
  qed
qed

subsection \<open>At most one submission per order\<close>

definition once_inv :: "World \<Rightarrow> bool" where
  "once_inv w \<longleftrightarrow>
     (let s = world_store w in
      store_wf s \<and> distinct (request_ids s) \<and> (\<forall>r \<in> set (request_rows s). row_batch_id r \<noteq> None)
      \<and> distinct (map row_batch_id (request_rows s)) \<and> distinct (sent_orders w)
      \<and> (\<forall>x \<in> set (sent_orders w). \<exists>os. orders s (fst x) = Some os \<and> snd x \<in> set os)
      \<and> Some ` fst ` set (sent_orders w) \<subseteq> set (map row_batch_id (request_rows s))
      \<and> (\<forall>r \<in> set (request_rows s). request_pending r \<longrightarrow> the (row_batch_id r) \<notin> fst ` set (sent_orders w)))"

lemma once_pending:
  assumes "once_inv w" "q \<in> set (request_rows (world_store w))" "request_pending q" "row_batch_id q = Some j"
  shows "j \<notin> fst ` set (sent_orders w)"
proof -
  have "the (row_batch_id q) \<notin> fst ` set (sent_orders w)"
    using assms(1-3) unfolding once_inv_def Let_def by blast
  then show ?thesis
    by (simp add: assms(4))
qed

lemma once_requested: "once_inv w \<Longrightarrow> Some ` fst ` set (sent_orders w) \<subseteq> set (map row_batch_id (request_rows (world_store w)))"
  by (simp add: once_inv_def Let_def)

lemma steps_batch_ids:
  "list_all2 row_step rs rs' \<Longrightarrow> \<forall>r \<in> set rs. row_batch_id r \<noteq> None \<Longrightarrow> map row_batch_id rs' = map row_batch_id rs"
  by (induction rule: list_all2_induct) (auto simp: row_step_def)

lemma once_calm:
  assumes "once_inv w" "calm w w'"
  shows "once_inv w'"
proof -
  let ?s = "world_store w" and ?t = "world_store w'"
  have inv: "store_wf ?s" "distinct (request_ids ?s)" "\<forall>r \<in> set (request_rows ?s). row_batch_id r \<noteq> None"
    "distinct (map row_batch_id (request_rows ?s))" "distinct (sent_orders w)"
    "\<forall>x \<in> set (sent_orders w). \<exists>os. orders ?s (fst x) = Some os \<and> snd x \<in> set os"
    "\<forall>r \<in> set (request_rows ?s). request_pending r \<longrightarrow> the (row_batch_id r) \<notin> fst ` set (sent_orders w)"
    "Some ` fst ` set (sent_orders w) \<subseteq> set (map row_batch_id (request_rows ?s))"
    using assms(1) unfolding once_inv_def Let_def by blast+
  have sent: "sent_orders w' = sent_orders w" and step: "store_step ?s ?t"
    using assms(2) by (simp_all add: calm_def)
  have rows: "list_all2 row_step (request_rows ?s) (request_rows ?t)"
    using step inv(2) by (simp add: store_step_def)
  have ids: "request_ids ?t = request_ids ?s" "map row_batch_id (request_rows ?t) = map row_batch_id (request_rows ?s)"
    using row_steps_ids[OF rows] steps_batch_ids[OF rows inv(3)] by (simp_all add: request_ids_def)
  have "row_batch_id q \<noteq> None \<and> (request_pending q \<longrightarrow> the (row_batch_id q) \<notin> fst ` set (sent_orders w))"
    if mem: "q \<in> set (request_rows ?t)" for q
  proof -
    obtain p where p: "p \<in> set (request_rows ?s)" "row_step p q"
      by (rule step_origin[OF step inv(2) mem])
    then obtain i where "row_batch_id p = Some i"
      using inv(3) by blast
    then show ?thesis
      using p inv(7) by (force simp: row_step_def)
  qed
  moreover have "store_wf ?t" "\<forall>x \<in> set (sent_orders w). \<exists>os. orders ?t (fst x) = Some os \<and> snd x \<in> set os"
    using step inv(1,6) by (auto simp: store_step_def)
  ultimately show ?thesis
    using inv(2,4,5,8) unfolding once_inv_def Let_def sent ids by blast
qed

lemma once_sends:
  assumes inv: "once_inv w" and batch: "n_leg_batch (world_store w) i = Some b" and same: "mset ls = mset (legs b)"
    and fresh: "i \<notin> fst ` set (sent_orders w)" and requested: "Some i \<in> set (map row_batch_id (request_rows (world_store w)))"
    and alone: "\<forall>q \<in> set (request_rows (world_store w)). row_batch_id q = Some i \<longrightarrow> \<not> request_pending q"
    and sends: "sends (submissions i ls) w w'"
  shows "once_inv w'"
proof -
  let ?w = "w\<lparr>sent_orders := sent_orders w @ submissions i ls\<rparr>"
  have clients: "mset (map leg_client_order_id ls) = mset (map leg_client_order_id (legs b))"
    using same by (simp add: mset_map)
  have "distinct (map leg_client_order_id (legs b))"
    using inv batch batch_well_formed by (fastforce simp: once_inv_def Let_def well_formed_row_def)
  then have "distinct (map leg_client_order_id ls)"
    using clients mset_eq_imp_distinct_iff by blast
  then have "distinct (submissions i ls)"
    by (simp add: submissions_def distinct_map inj_on_def)
  moreover have subs: "set (submissions i ls) = Pair i ` set (map leg_client_order_id (legs b))"
    unfolding mset_eq_setD[OF clients, symmetric] by (auto simp: submissions_def)
  then have ids: "fst ` set (sent_orders ?w) \<subseteq> insert i (fst ` set (sent_orders w))"
    by auto
  have "orders (world_store w) i = Some (map leg_client_order_id (legs b))"
    using batch by (simp add: orders_def)
  with subs have known: "\<forall>x \<in> set (submissions i ls). \<exists>os. orders (world_store w) (fst x) = Some os \<and> snd x \<in> set os"
    by auto
  have "the (row_batch_id q) \<notin> fst ` set (sent_orders ?w)"
    if q: "q \<in> set (request_rows (world_store w))" "request_pending q" for q
  proof -
    obtain j where j: "row_batch_id q = Some j"
      using inv q(1) by (auto simp: once_inv_def Let_def)
    then have "j \<noteq> i" "j \<notin> fst ` set (sent_orders w)"
      using alone once_pending[OF inv] q by auto
    then have "j \<notin> fst ` set (sent_orders ?w)"
      using ids by blast
    then show ?thesis
      by (simp add: j)
  qed
  moreover have "set (sent_orders w) \<inter> set (submissions i ls) = {}"
    unfolding subs using fresh by (auto simp: image_iff)
  moreover have "Some ` fst ` set (sent_orders ?w) \<subseteq> set (map row_batch_id (request_rows (world_store w)))"
    using once_requested[OF inv] ids requested by blast
  ultimately have "once_inv ?w"
    using inv known by (simp add: once_inv_def Let_def ball_Un)
  moreover have "calm ?w w'"
    using sends by (simp add: sends_def calm_def)
  ultimately show ?thesis
    by (rule once_calm)
qed

lemma once_tick:
  assumes inv: "once_inv w" and fair: "\<And>ls. mset (completion_order env ls) = mset ls" and run: "tick env moment w = (r, w')"
  shows "once_inv w'"
proof -
  have parts: "store_wf (world_store w)" "distinct (request_ids (world_store w))"
    "\<forall>q \<in> set (request_rows (world_store w)). row_batch_id q \<noteq> None"
    using inv by (auto simp: once_inv_def Let_def)
  from run parts show ?thesis
  proof (cases rule: tick_sends)
    case quiet
    then show ?thesis
      by (rule once_calm[OF inv])
  next
    case (sent row i w1 b)
    have inv1: "once_inv w1"
      using inv sent(4) by (rule once_calm)
    have step: "store_step (world_store w) (world_store w1)" "sent_orders w1 = sent_orders w"
      using sent(4) by (simp_all add: calm_def)
    have "\<not> request_pending q" if q: "q \<in> set (request_rows (world_store w1))" "row_batch_id q = Some i" for q
    proof -
      obtain p where p: "p \<in> set (request_rows (world_store w))" "row_step p q"
        by (rule step_origin[OF step(1) parts(2) q(1)])
      then have "row_batch_id p = Some i"
        using parts(3) q(2) by (force simp: row_step_def)
      then have "p = row"
        using inv p(1) sent(1,3) by (auto simp: once_inv_def Let_def distinct_map inj_on_def)
      then show ?thesis
        using p(2) sent(5) q(1) by (simp add: row_step_def not_waiting_def)
    qed
    moreover have "i \<notin> fst ` set (sent_orders w1)"
      using once_pending[OF inv sent(1-3)] step(2) by simp
    moreover have "map row_batch_id (request_rows (world_store w1)) = map row_batch_id (request_rows (world_store w))"
      using step(1) parts steps_batch_ids by (simp add: store_step_def)
    then have "Some i \<in> set (map row_batch_id (request_rows (world_store w1)))"
      using sent(1,3) by (metis image_eqI set_map)
    ultimately show ?thesis
      using fair by (intro once_sends[OF inv1 sent(6) _ _ _ _ sent(7)]) blast+
  qed
qed

text \<open>
  The worlds a driver can reach: ticks with any of the given collaborators at any moment, confirmations that enqueue a request
  under a batch id of its own, and the operator's acknowledgements and resets. The confirmation builds that id from the second of
  the clock and eight digits of a hash of the idempotency key; that two confirmations do not share it is assumed here.
\<close>

definition enqueue_payload :: "string \<Rightarrow> (string \<times> json) list \<Rightarrow> bool" where
  "enqueue_payload i kvs \<longleftrightarrow> map_of kvs ''execution_batch_id'' = Some (JStr i)"

inductive driven :: "('b, 'c) Driver set \<Rightarrow> World \<Rightarrow> bool" for drivers where
  start: "served (world_store w) \<Longrightarrow> request_rows (world_store w) = [] \<Longrightarrow> sent_orders w = [] \<Longrightarrow> driven drivers w"
| ticked: "driven drivers w \<Longrightarrow> env \<in> drivers \<Longrightarrow> driven drivers (snd (tick env moment w))"
| confirmed: "driven drivers w \<Longrightarrow> enqueue_payload i kvs \<Longrightarrow> Some i \<notin> row_batch_id ` set (request_rows (world_store w))
    \<Longrightarrow> driven drivers (snd (on_store (n_leg_request_enqueue component key (JObj kvs) limit new_id) w))"
| operated: "driven drivers w \<Longrightarrow> c = ResetBreaker \<or> (\<exists>now i ack. c = Acknowledge now i ack)
    \<Longrightarrow> driven drivers (w\<lparr>world_store := run_command c (world_store w)\<rparr>)"

lemma enqueued_payload:
  assumes "n_leg_request_enqueue component key payload limit new_id s = (Inr row, t)" "key \<notin> idempotency_key ` set (request_rows s)"
  shows "dump_payload payload = Inr (request_row_payload row)"
proof -
  have "n_leg_request_by_idempotency_key s key = None"
    using assms(2) by (auto simp: n_leg_request_by_idempotency_key_def find_None_iff)
  then show ?thesis
    using assms(1) by (auto simp: n_leg_request_enqueue_def split: if_splits sum.splits)
qed

lemma once_confirmed:
  assumes inv: "once_inv w" and payload: "enqueue_payload i kvs"
    and fresh: "Some i \<notin> row_batch_id ` set (request_rows (world_store w))"
    and run: "n_leg_request_enqueue component key (JObj kvs) limit new_id (world_store w) = (r, t)"
  shows "once_inv (w\<lparr>world_store := t\<rparr>)"
  using run
proof (cases rule: enqueue_cases)
  case (added row)
  obtain kvs' where kvs': "request_row_payload row = JObj kvs'"
    using added(10) ..
  then have "dump_payload (JObj kvs) = Inr (JObj kvs')"
    using enqueued_payload run added(1,11) by force
  then have id: "row_batch_id row = Some i"
    using dumped_batch_id payload by (simp add: row_batch_id_def kvs' enqueue_payload_def)
  have same: "orders t = orders (world_store w)" "store_wf t = store_wf (world_store w)"
    by (auto simp: added(4) orders_def n_leg_batch_def store_wf_parts fun_eq_iff)
  have unsent: "i \<notin> fst ` set (sent_orders w)"
    using fresh once_requested[OF inv] by auto
  have "Some ` fst ` set (sent_orders w) \<subseteq> set (map row_batch_id (request_rows t))"
    using once_requested[OF inv] by (auto simp: added(2))
  then show ?thesis
    using inv fresh id unsent added(12)
    by (simp add: once_inv_def Let_def same added(2) request_ids_def added(8))
qed (use inv in simp_all)

lemma acknowledge_step: "keeps store_step (n_leg_acknowledge_incident now i ack)"
proof (rule keepsI)
  fix s r t
  assume run: "n_leg_acknowledge_incident now i ack s = (r, t)"
  have rows: "request_rows t = request_rows s"
    using run by (auto simp: n_leg_acknowledge_incident_def Let_def write_batch_def add_transition_def split: option.splits if_splits sum.splits)
  have same: "orders t j = Some os" if "orders s j = Some os" for j os
    using run that
    by (auto simp: n_leg_acknowledge_incident_def Let_def write_batch_def add_transition_def orders_def n_leg_batch_def
        stored_batch_def acknowledged_batch_def update_conv split: option.splits if_splits sum.splits)
  show "store_step s t"
    using acknowledge_wf[OF _ run] same by (simp add: store_step_def rows)
qed

lemma reset_step: "keeps store_step n_leg_breaker_reset"
proof (rule keepsI)
  fix s r t
  assume run: "n_leg_breaker_reset s = (r, t)"
  then have "request_rows t = request_rows s" "batch_rows t = batch_rows s"
    by (auto simp: n_leg_breaker_reset_def split: if_splits option.splits json.splits)
  then show "store_step s t"
    using breaker_reset_wf[OF _ run] by (simp add: store_step_def orders_def n_leg_batch_def)
qed

lemma operated_step:
  assumes "c = ResetBreaker \<or> (\<exists>now i ack. c = Acknowledge now i ack)"
  shows "store_step s (run_command c s)"
  using assms keepsD[OF reset_step surjective_pairing] keepsD[OF acknowledge_step surjective_pairing] by auto

lemma driven_once:
  assumes "driven drivers w" and fair: "\<forall>env \<in> drivers. \<forall>ls. mset (completion_order env ls) = mset ls"
  shows "once_inv w"
  using assms(1)
proof (induction rule: driven.induct)
  case (start w)
  then show ?case
    by (simp add: once_inv_def served_wf request_ids_def)
next
  case (ticked w env moment)
  then show ?case
    using once_tick[of w env moment] fair by (metis prod.collapse)
next
  case (confirmed w i kvs component key limit new_id)
  then show ?case
    using once_confirmed by (auto simp: on_store_def split: prod.split)
next
  case (operated w c)
  then have "calm w (w\<lparr>world_store := run_command c (world_store w)\<rparr>)"
    by (simp add: calm_def operated_step)
  then show ?case
    by (rule once_calm[OF operated.IH])
qed

text \<open>C15. Whatever the ticks, confirmations and operator actions in between, with any trading client, any books, any preflight and any
  order in which the parallel submissions finish, confirmations having batch ids of their own: no order is handed to the trading client twice, and only orders
  of a batch that was admitted and stored under that id are handed to it.\<close>

theorem submitted_at_most_once:
  assumes "driven drivers w" "\<forall>env \<in> drivers. \<forall>ls. mset (completion_order env ls) = mset ls"
  shows "distinct (sent_orders w)
    \<and> (\<forall>(i, client) \<in> set (sent_orders w). \<exists>b. n_leg_batch (world_store w) i = Some b \<and> client \<in> leg_client_order_id ` set (legs b))"
proof -
  have inv: "distinct (sent_orders w)" "\<forall>x \<in> set (sent_orders w). \<exists>os. orders (world_store w) (fst x) = Some os \<and> snd x \<in> set os"
    using driven_once[OF assms] unfolding once_inv_def Let_def by blast+
  then show ?thesis
    by (fastforce simp: orders_def)
qed

subsection \<open>The proof record of a row, read back\<close>

definition proof_payload :: "PartialFillProofRecord \<Rightarrow> (string \<times> json) list" where
  "proof_payload r = proof_record_fields r @ [(''fingerprint'', JStr (partial_fill_fingerprint r))]"

lemma read_values [simp]:
  "read_status (partial_fill_status_value st) = st" "read_verifier_status (verifier_status_value v) = v"
  by (cases st; simp add: read_status_def) (cases v; simp add: read_verifier_status_def)

lemma read_proof_payload [simp]: "read_proof (proof_payload r) = r"
  by (simp add: read_proof_def proof_payload_def proof_record_fields_def json_get_def)

lemma proof_payload_names: "set (map fst (proof_payload r)) = set (''schema_version'' # PROOF_TEXTS @ PROOF_NUMBERS)"
  by (simp add: proof_payload_def proof_record_fields_def PROOF_TEXTS_def PROOF_NUMBERS_def insert_commute)

lemma proof_payload_rest: "filter (\<lambda>(k, _). k \<noteq> ''fingerprint'') (proof_payload r) = proof_record_fields r"
  by (simp add: proof_payload_def proof_record_fields_def)

lemma checked_record:
  assumes "check_proof_record r = Inr ()"
  shows "\<exists>ts. result_map (proof_text (proof_payload r)) PROOF_TEXTS = Inr ts"
    "\<exists>ns. result_map (proof_nonnegative (proof_payload r)) PROOF_NUMBERS = Inr ns"
    "solver_lower_bound r \<le> solver_upper_bound r" "partial_fill_fingerprint r = fingerprint (JObj (proof_record_fields r))"
    "json_get (proof_payload r) ''schema_version'' = JStr PARTIAL_FILL_PROOF_SCHEMA_V1"
  using assms
  by (simp_all add: PROOF_TEXTS_def PROOF_NUMBERS_def check_proof_record_def proof_text_def proof_nonnegative_def proof_payload_def
      proof_record_fields_def json_get_def require_def split: if_splits)

lemma proof_record_read:
  assumes "check_proof_record r = Inr ()"
  shows "partial_fill_proof_from_payload (proof_payload r) = Inr r"
  using checked_record[OF assms]
  by (auto simp: partial_fill_proof_from_payload_def proof_payload_names proof_payload_rest Let_def
    simp del: set_map)

text \<open>A partial-fill proof that passes the checks of its constructor is read back unchanged from the payload it is stored as.\<close>

theorem proof_record_round_trip:
  assumes "check_proof_record r = Inr ()"
  shows "partial_fill_proof_from_payload (proof_payload r) = Inr r"
  using assms by (rule proof_record_read)

lemma fingerprints_are_text [simp]:
  "require_text (quote_binding x) k = Inr ()" "require_text (order_semantics_fingerprint_for ls) k = Inr ()"
  "require_text (expected_solution_fingerprint x) k = Inr ()"
  by (simp_all only: quote_binding_def order_semantics_fingerprint_for_def expected_solution_fingerprint_def require_text_fingerprint)

lemma entry_market [simp]: "solution_market_fingerprint entry_solution = ''m''"
  by (simp add: entry_solution_def entry_draft_def)

lemma entry_proof_text:
  "require_text (proof_solution_fingerprint proof_draft) k = Inr ()" "require_text (proof_solution_payload_fingerprint proof_draft) k = Inr ()"
  "require_text (proof_model_fingerprint proof_draft) k = Inr ()" "require_text (proof_quote_fingerprint proof_draft) k = Inr ()"
  "require_text (proof_cost_fingerprint proof_draft) k = Inr ()" "require_text (proof_order_semantics_fingerprint proof_draft) k = Inr ()"
  by (simp_all add: proof_draft_def execution_solution_binding_def Let_def) (simp add: require_text_def strip_text_def py_space_def)

lemma entry_proof_rest:
  "proof_cap_config_version proof_draft = ''caps-v1''" "proof_max_partial_fill_loss proof_draft = 50" "proof_max_auto_repair_loss proof_draft = 10"
  "solver_lower_bound proof_draft = 20" "solver_upper_bound proof_draft = 20" "solver_termination proof_draft = ''CLOSED''"
  "solver_evidence_fingerprint proof_draft = ''e''" "proof_verifier_status proof_draft = VERIFIER_QUALIFIED" "verifier_fingerprint proof_draft = ''v''"
  "verifier_evidence_fingerprint proof_draft = ''w''" "partial_fill_status proof_draft = PARTIAL_FILL_SAFE"
  by (simp_all add: proof_draft_def Let_def)

lemma proof_fields_fingerprint [simp]: "proof_record_fields (r\<lparr>partial_fill_fingerprint := f\<rparr>) = proof_record_fields r"
  by (simp add: proof_record_fields_def)

lemma entry_proof_checked: "check_proof_record entry_proof = Inr ()"
proof -
  have "require_text ''caps-v1'' k = Inr ()" "require_text ''CLOSED'' k = Inr ()" "require_text ''e'' k = Inr ()" "require_text ''v'' k = Inr ()"
    "require_text ''w'' k = Inr ()" "require_text ''QUALIFIED_VERIFIED'' k = Inr ()" "require_text ''PARTIAL_FILL_SAFE'' k = Inr ()" for k
    by (simp_all add: require_text_def strip_text_def py_space_def)
  then show ?thesis
    by (simp add: check_proof_record_def entry_proof_def entry_proof_text entry_proof_rest require_def require_nonnegative_def)
qed

theorem proof_record_round_trip_witness:
  "partial_fill_proof_from_payload (proof_payload entry_proof) = Inr entry_proof"
  using proof_record_round_trip[of entry_proof] entry_proof_checked by simp

subsection \<open>A driver that submits\<close>

definition open_driver :: "json result \<Rightarrow> (unit, unit) Driver" where
  "open_driver outcome =
     \<lparr>books_provider = (\<lambda>_. Some ()), preflight = (\<lambda>_ _ _ _ _. Inr None), source_factory = (\<lambda>_. Inr ()),
      decode_source = (\<lambda>_. Inr entry_decoded), submit_n_leg_leg_once = (\<lambda>_ _ _ _ _. outcome),
      reconciliation_context_factory = None, submit_timeout_seconds = 10, completion_order = rev\<rparr>"

definition entry_request :: "(string \<times> json) list" where
  "entry_request =
     [(''execution_batch_id'', JStr ''B''), (''opportunity_episode_id'', JStr ''E''), (''episode_lineage_id'', JStr ''L''),
      (''versions'', JObj [(''mode'', JStr ''MANUAL''), (''contract_generation'', JInt 1), (''qualification_policy_version'', JInt 1)]),
      (''execution'', JObj [(''fingerprint'', JStr (solution_fingerprint entry_solution))]),
      (''partial_fill_proof'', JObj (proof_payload entry_proof))]"

lemma entry_names_public:
  "list_all public_name PROOF_TEXTS" "list_all public_name PROOF_NUMBERS"
  "list_all public_name [''execution_batch_id'', ''opportunity_episode_id'', ''episode_lineage_id'', ''versions'', ''mode'',
     ''contract_generation'', ''qualification_policy_version'', ''execution'', ''partial_fill_proof'', ''schema_version'']"
  by code_simp+

lemma entry_request_kept: "dump_payload (JObj entry_request) = Inr (JObj entry_request)"
proof -
  have "list_all (\<lambda>k. \<not> dropped_field False k) PROOF_TEXTS" "list_all (\<lambda>k. \<not> dropped_field False k) PROOF_NUMBERS"
    "list_all (\<lambda>k. \<not> dropped_field False k) [''execution_batch_id'', ''opportunity_episode_id'', ''episode_lineage_id'', ''versions'', ''mode'',
     ''contract_generation'', ''qualification_policy_version'', ''execution'', ''partial_fill_proof'', ''schema_version'']"
    using entry_names_public public_name_kept by (simp_all only: list_all_iff) blast+
  then show ?thesis
    by (simp add: dump_payload_def entry_request_def proof_payload_def proof_record_fields_def PROOF_TEXTS_def PROOF_NUMBERS_def)
qed

definition start_world :: World where
  "start_world = \<lparr>world_store = empty_store, sent_orders = []\<rparr>"

definition entry_row :: "(string \<times> json) list \<Rightarrow> RequestRow" where
  "entry_row extra =
     \<lparr>request_id = ''R'', fifo_index = next_fifo_index empty_store, idempotency_key = ''K'', request_component_id = ''c'',
      request_row_state = ''PENDING'', abandon_reason = None, request_row_payload = JObj (entry_request @ extra)\<rparr>"

definition queued_world :: "(string \<times> json) list \<Rightarrow> World" where
  "queued_world extra = snd (on_store (n_leg_request_enqueue ''c'' ''K'' (JObj (entry_request @ extra)) 5 ''R'') start_world)"

lemma queued_store:
  assumes "dump_payload (JObj extra) = Inr (JObj extra)"
  shows "world_store (queued_world extra) = empty_store\<lparr>request_rows := [entry_row extra], next_fifo_index := next_fifo_index empty_store + 1\<rparr>"
    "sent_orders (queued_world extra) = []"
proof -
  have "dump_payload (JObj (entry_request @ extra)) = Inr (JObj (entry_request @ extra))"
    using assms entry_request_kept by (simp add: dump_payload_def)
  then show "world_store (queued_world extra) = empty_store\<lparr>request_rows := [entry_row extra], next_fifo_index := next_fifo_index empty_store + 1\<rparr>"
    "sent_orders (queued_world extra) = []"
    by (simp_all add: queued_world_def start_world_def on_store_def n_leg_request_enqueue_def entry_row_def
        n_leg_request_by_idempotency_key_def empty_store_def)
qed

lemma queued_driven: "driven drivers (queued_world extra)"
proof -
  have "served empty_store"
    by (rule served.fresh) (simp_all add: empty_store_def n_leg_control_def default_control_def)
  then have "driven drivers start_world"
    by (intro driven.start) (simp_all add: start_world_def empty_store_def)
  then show ?thesis
    unfolding queued_world_def
    by (rule driven.confirmed[where i = "''B''"]) (simp_all add: enqueue_payload_def entry_request_def start_world_def empty_store_def)
qed

text \<open>Further fields of the row and other collaborators do not change its admission.\<close>

lemma entry_admission:
  assumes "world_store w = empty_store\<lparr>request_rows := rs, next_fifo_index := n\<rparr>"
    and source: "source_factory env = (\<lambda>_. Inr ())" "decode_source env = (\<lambda>_. Inr entry_decoded)"
  shows "admission env (entry_request @ extra) (proof_payload entry_proof) 0 w
    = (Inr (stored_entry ''L'' False 0 (entry_of ''B'')), w\<lparr>world_store := admitted 0 ''L'' False (entry_of ''B'') (world_store w)\<rparr>)"
proof -
  have valid_id: "require_text ''B'' ''execution_batch_id'' = Inr ()"
    by (simp add: require_text_def strip_text_def py_space_def)
  have cap: "cap_config_version_of (entry_request @ extra) = ''caps-v1''"
    by (simp add: cap_config_version_of_def entry_request_def json_get_def falsy.simps)
  have control: "n_leg_control (world_store w) = default_control"
    by (simp add: assms(1) n_leg_control_def empty_store_def)
  have caps: "caps_fingerprint (world_store w) = None"
    by (simp add: assms(1) caps_fingerprint_def n_leg_safety_config_latest_def latest_row_def empty_store_def)
  have solution: "execution_solution_fingerprint (entry_of ''B'') = expected_solution_fingerprint entry_solution"
    by (simp add: entry_of_def entry_batch_def Let_def)
  have fresh: "\<not> admission_stale (world_store w) (entry_of ''B'') (Some (expected_versions (entry_request @ extra)))"
    by (simp add: admission_stale_def admission_version_mismatch_def expected_versions_def entry_request_def json_get_def
        admission_facts_def control default_control_def expected_scope_def json_option_def caps solution)
  have "n_leg_create_batch 0 (entry_of ''B'') (Some (expected_versions (entry_request @ extra))) (world_store w)
    = (Inr (stored_entry ''L'' False 0 (entry_of ''B'')), admitted 0 ''L'' False (entry_of ''B'') (world_store w))"
    using create_entry[OF _ _ _ _ _ _ _ fresh]
    by (simp add: control default_control_def)
      (simp add: assms(1) empty_store_def n_leg_batch_def lineage_claimed_def unsettled_cap_def n_leg_safety_config_latest_def latest_row_def)
  moreover have "frozen_text (entry_request @ extra) ''opportunity_episode_id'' = Inr ''E''" "frozen_text (entry_request @ extra) ''episode_lineage_id'' = Inr ''L''"
    "frozen_text (entry_request @ extra) ''execution_batch_id'' = Inr ''B''"
    by (simp_all add: entry_request_def frozen_text_def)
  ultimately show ?thesis
    by (simp add: admission_def source cap proof_record_read[OF entry_proof_checked])
      (simp add: on_store_def enter_entry[OF valid_id])
qed

text \<open>A row that is alone in the queue and not refused is admitted, and its two orders are sent.\<close>

lemma queued_tick:
  assumes kept: "dump_payload (JObj extra) = Inr (JObj extra)" and buys: "all_legs_buy (entry_request @ extra)"
    and env: "source_factory env = (\<lambda>_. Inr ())" "decode_source env = (\<lambda>_. Inr entry_decoded)" "completion_order env = rev"
    and books: "books_provider env ''c'' = Some books"
    and passes: "preflight env (JObj (entry_request @ extra)) books (driver_safety_config (world_store (queued_world extra)))
      (driver_policy (world_store (queued_world extra))) 0 = Inr None"
  obtains r w where "tick env 0 (queued_world extra) = (r, w)" "sent_orders w = [(''B'', ''B:b''), (''B'', ''B:a'')]"
proof -
  note store = queued_store[OF kept]
  let ?w1 = "(queued_world extra)\<lparr>world_store := admitted 0 ''L'' False (entry_of ''B'') (world_store (queued_world extra))\<rparr>"
  let ?update = "n_leg_request_update ''R'' (Some ''ADMITTED'') None
      [(''execution_batch_id'', JStr ''B''), (''admitted_at'', JStr (isoformat 0))]"
  obtain row t where upd: "?update (world_store ?w1) = (Inr row, t)"
    by (auto simp: n_leg_request_update_def updated_request_def store entry_row_def REQUEST_STATES_def dump_payload_def)
  have "batch_rows t = batch_rows (world_store ?w1)"
    using upd by (cases rule: update_cases) simp_all
  then have batch: "n_leg_batch t ''B'' = Some (stored_entry ''L'' False 0 (entry_of ''B''))"
    by (simp add: n_leg_batch_def store) (simp add: empty_store_def n_leg_control_def default_control_def)
  obtain r w where legs: "submit_legs env ''B'' 0 (?w1\<lparr>world_store := t\<rparr>) = (r, w)"
    by fastforce
  have "n_leg_control (world_store (queued_world extra)) = default_control" "\<not> unacknowledged_incident (world_store (queued_world extra))"
    "n_leg_request_head (world_store (queued_world extra)) = Some (entry_row extra)"
    by (simp_all add: store empty_store_def n_leg_control_def unacknowledged_incident_def n_leg_request_head_def n_leg_requests_def
        entry_row_def request_pending_def)
  then have "tick env 0 (queued_world extra) = serve_head env (entry_row extra) 0 (queued_world extra)"
    by (simp add: tick_def ask_def default_control_def)
  also have "\<dots> = drive env (entry_row extra) (entry_request @ extra) (proof_payload entry_proof) 0 (queued_world extra)"
    using buys books passes by (simp add: serve_head_def entry_row_def) (simp add: entry_request_def json_get_def)
  also have "\<dots> = (r, w)"
    using upd legs entry_admission[OF store(1) env(1,2), of extra]
    by (simp add: drive_def op_handle_def on_store_def entry_row_def op_bind_def)
  finally show thesis
    using submit_legs_sends[OF legs] batch that[of r w]
    by (simp add: sends_def submissions_def store env(3) entry_leg_def entry_evidence_def)
qed

theorem submitted_at_most_once_witness:
  "driven {open_driver (Inr unknown_outcome)} (snd (tick (open_driver (Inr unknown_outcome)) 0 (queued_world [])))
    \<and> distinct (sent_orders (snd (tick (open_driver (Inr unknown_outcome)) 0 (queued_world []))))
    \<and> sent_orders (snd (tick (open_driver (Inr unknown_outcome)) 0 (queued_world []))) = [(''B'', ''B:b''), (''B'', ''B:a'')]"
proof -
  let ?env = "open_driver (Inr unknown_outcome)"
  have run: "driven {?env} (snd (tick ?env 0 (queued_world [])))"
    using queued_driven by (rule driven.ticked) simp
  have fair: "\<forall>env \<in> {?env}. \<forall>ls. mset (completion_order env ls) = mset ls"
    by (simp add: open_driver_def)
  have "dump_payload (JObj []) = Inr (JObj [])" "all_legs_buy (entry_request @ [])"
    by (simp_all add: dump_payload_def all_legs_buy_def entry_request_def json_get_def)
  then obtain r w where w: "tick ?env 0 (queued_world []) = (r, w)" "sent_orders w = [(''B'', ''B:b''), (''B'', ''B:a'')]"
    by (rule queued_tick[where env = ?env]) (simp_all add: open_driver_def)
  then show ?thesis
    using submitted_at_most_once[OF run fair] run by simp
qed

end
