(* ===== verification/Driver_Outcomes.thy ===== *)
theory Driver_Outcomes
  imports Driver_Facts
begin

section \<open>What the driver does with the outcomes of its submissions\<close>

text \<open>
  The two ends of a submission whose outcome is not a fill: an UNKNOWN outcome stops everything, an outcome the
  driver cannot read makes the tick raise after the orders have been sent.
\<close>

subsection \<open>Logging the attempts\<close>

definition attempts_only :: "World \<Rightarrow> World \<Rightarrow> bool" where
  "attempts_only w w' \<longleftrightarrow>
     (let s = world_store w; t = world_store w' in
      batch_rows t = batch_rows s \<and> control_row t = control_row s \<and> request_rows t = request_rows s
      \<and> (\<forall>x \<in> set (transition_rows t). x \<in> set (transition_rows s) \<or> (\<exists>client. transition_key x = ''submission:'' @ client)))"

interpretation attempts: frame attempts_only
  by unfold_locales (auto simp: attempts_only_def Let_def)

lemma transition_append_attempt:
  assumes "n_leg_transition_append i kind (''submission:'' @ client) payload s = (r, t)"
  shows "batch_rows t = batch_rows s \<and> control_row t = control_row s \<and> request_rows t = request_rows s
    \<and> (\<forall>x \<in> set (transition_rows t). x \<in> set (transition_rows s) \<or> (\<exists>client. transition_key x = ''submission:'' @ client))"
  using assms
  by (auto simp: n_leg_transition_append_def add_transition_def split: if_splits sum.splits simp del: append_Cons)

lemma attempts_log: "keeps attempts_only (log_attempt i client outcome)"
  unfolding log_attempt_def
  by (auto split: json.split intro!: attempts.keeps_pure keepsI simp del: append_Cons)
    (auto simp: on_store_def attempts_only_def Let_def simp del: append_Cons split: prod.splits dest!: transition_append_attempt)

lemma attempts_send: "keeps attempts_only (send_order env i leg)"
  by (auto simp: keeps_def send_order_def attempts_only_def Let_def)

lemma attempts_submit_all: "keeps attempts_only (submit_all env i ls)"
  by (induction ls) (auto simp: submit_one_def intro!: attempts.keeps_rules attempts_send attempts_log)

text \<open>The outcome of an order under a timeout: an exception counts as UNKNOWN.\<close>

definition order_outcome :: "('b, 'c) Driver \<Rightarrow> Leg \<Rightarrow> int \<Rightarrow> json" where
  "order_outcome env leg timeout =
     (case submit_n_leg_leg_once env (leg_client_order_id leg) (leg_asset_id leg) (leg_submitted_quantity leg)
             (leg_max_cost_units leg) timeout of
        Inl _ \<Rightarrow> unknown_outcome | Inr outcome \<Rightarrow> outcome)"

lemma submit_one_outcome:
  assumes "submit_one env i leg w = (Inr outcome, w')"
  shows "outcome = order_outcome env leg (configured_submit_timeout env (world_store w))"
  using assms by (auto simp: submit_one_def send_order_def order_outcome_def op_bind_def op_catch_def split: prod.splits sum.splits)

lemma submit_all_outcomes:
  assumes "submit_all env i ls w = (Inr outcomes, w')"
  shows "list_all2 (\<lambda>l (client, outcome). client = leg_client_order_id l \<and> (\<exists>timeout. outcome = order_outcome env l timeout)) ls outcomes"
  using assms
proof (induction ls arbitrary: w outcomes)
  case (Cons l ls)
  obtain outcome w1 where one: "submit_one env i l w = (Inr outcome, w1)"
    by (rule submit_one_sends)
  then obtain rest where "submit_all env i ls w1 = (Inr rest, w')" "outcomes = (leg_client_order_id l, outcome) # rest"
    using Cons.prems by (auto simp: op_bind_def split: prod.splits sum.splits)
  then show ?case
    using Cons.IH submit_one_outcome[OF one] by auto
qed simp

lemma sorted_outcomes_distinct:
  assumes "distinct (map fst outcomes)"
  shows "mset (sorted_outcomes outcomes) = mset outcomes"
proof -
  have "fold (\<lambda>(k, v). AList.update k v) xs ys = ys @ xs" if "distinct (map fst (ys @ xs))" for xs ys :: "(string \<times> json) list"
    using that by (induction xs arbitrary: ys) (auto simp: AList_update_absent)
  then show ?thesis
    using assms by (simp add: sorted_outcomes_def)
qed

text \<open>What \<open>submit_legs\<close> folds: one outcome for each leg of the batch, in some order.\<close>

lemma submitted_outcomes:
  assumes batch: "n_leg_batch (world_store w) i = Some b" and distinct: "distinct (map leg_client_order_id (legs b))"
    and same: "mset (completion_order env (legs b)) = mset (legs b)"
  obtains outcomes w1 where "submit_legs env i moment w
      = op_bind (fold_receipts i b moment outcomes) (\<lambda>_. finish_submission env i moment) w1"
    "attempts_only w w1" "sends (submissions i (completion_order env (legs b))) w w1" "distinct (map fst outcomes)"
    "fst ` set outcomes = leg_client_order_id ` set (legs b)"
    "\<forall>(client, outcome) \<in> set outcomes. \<exists>l \<in> set (legs b). \<exists>timeout. client = leg_client_order_id l \<and> leg_by_id b client = Some l
       \<and> outcome = order_outcome env l timeout"
proof -
  let ?ls = "completion_order env (legs b)"
  obtain outcomes w1 where all: "submit_all env i ?ls w = (Inr outcomes, w1)" "sends (submissions i ?ls) w w1"
    "map fst outcomes = map leg_client_order_id ?ls"
    by (rule submit_all_sends)
  have clients: "mset (map leg_client_order_id ?ls) = mset (map leg_client_order_id (legs b))"
    using same by simp
  then have ids: "distinct (map fst outcomes)"
    using distinct mset_eq_imp_distinct_iff all(3) by metis
  then have sorted: "mset (sorted_outcomes outcomes) = mset outcomes"
    by (rule sorted_outcomes_distinct)
  have known: "\<exists>l \<in> set (legs b). \<exists>timeout. client = leg_client_order_id l \<and> leg_by_id b client = Some l \<and> outcome = order_outcome env l timeout"
    if mem: "(client, outcome) \<in> set outcomes" for client outcome
  proof -
    obtain l timeout where l: "l \<in> set ?ls" "client = leg_client_order_id l" "outcome = order_outcome env l timeout"
      using submit_all_outcomes[OF all(1)] mem by (force simp: list_all2_conv_all_nth in_set_conv_nth)
    then have "l \<in> set (legs b)"
      using same mset_eq_setD by blast
    moreover have "leg_by_id b client = Some l"
      unfolding leg_by_id_def l(2) using distinct calculation by (rule find_by_key)
    ultimately show ?thesis
      using l by blast
  qed
  have "submit_legs env i moment w = op_bind (fold_receipts i b moment (sorted_outcomes outcomes)) (\<lambda>_. finish_submission env i moment) w1"
    using batch all(1) by (simp add: submit_legs_def ask_def) (simp add: op_bind_def)
  moreover have "attempts_only w w1"
    using keepsD[OF attempts_submit_all all(1)] .
  moreover have "distinct (map fst (sorted_outcomes outcomes))"
    using ids sorted by (metis mset_eq_imp_distinct_iff mset_map)
  moreover have "fst ` set (sorted_outcomes outcomes) = leg_client_order_id ` set (legs b)"
    using mset_eq_setD[OF sorted] mset_eq_setD[OF clients] all(3) by (metis set_map)
  moreover have "\<forall>(client, outcome) \<in> set (sorted_outcomes outcomes). \<exists>l \<in> set (legs b). \<exists>timeout.
      client = leg_client_order_id l \<and> leg_by_id b client = Some l \<and> outcome = order_outcome env l timeout"
    unfolding mset_eq_setD[OF sorted] using known by blast
  ultimately show thesis
    using that all(2) by blast
qed

subsection \<open>An outcome that cannot be read\<close>

definition same_requests :: "World \<Rightarrow> World \<Rightarrow> bool" where
  "same_requests w w' \<longleftrightarrow> request_rows (world_store w') = request_rows (world_store w) \<and> sent_orders w' = sent_orders w"

interpretation requests_kept: frame same_requests
  by unfold_locales (auto simp: same_requests_def)

lemma apply_receipt_requests: "keeps same_requests (on_store (apply_receipt r ctx))"
proof (rule keepsI)
  fix w x w'
  assume run: "on_store (apply_receipt r ctx) w = (x, w')"
  obtain y t where t: "apply_receipt r ctx (world_store w) = (y, t)"
    by fastforce
  have "request_rows t = request_rows (world_store w)"
    using t unfolding apply_receipt_def
    by (cases rule: receipt.reduce_cases) (simp_all add: add_transition_def write_batch_def)
  then show "same_requests w w'"
    using run t by (auto simp: on_store_def same_requests_def)
qed

lemma fold_receipt_requests: "keeps same_requests (fold_receipt i b moment client outcome)"
  unfolding fold_receipt_def by (auto split: sum.split intro!: requests_kept.keeps_rules apply_receipt_requests)

lemma fold_receipts_requests: "keeps same_requests (fold_receipts i b moment outcomes)"
  by (induction i b moment outcomes rule: fold_receipts.induct) (auto intro!: requests_kept.keeps_rules fold_receipt_requests)

lemma fold_receipt_result:
  "fst (fold_receipt i b moment client outcome w)
     = (case receipt_for i client (leg_by_id b client) outcome moment of Inl _ \<Rightarrow> Inl TypeError | Inr _ \<Rightarrow> Inr ())"
  by (auto simp: fold_receipt_def op_catch_def split: sum.splits prod.splits)

lemma fold_receipts_unreadable:
  assumes "(client, outcome) \<in> set outcomes" "receipt_for i client (leg_by_id b client) outcome moment = Inl e"
  shows "fst (fold_receipts i b moment outcomes w) = Inl TypeError"
  using assms(1)
proof (induction outcomes arbitrary: w)
  case (Cons p rest)
  obtain c x where p: "p = (c, x)"
    by fastforce
  obtain r w1 where one: "fold_receipt i b moment c x w = (r, w1)"
    by fastforce
  show ?case
  proof (cases r)
    case (Inl err)
    then show ?thesis
      using fold_receipt_result[of i b moment c x w] one by (auto simp: p op_bind_def split: sum.splits)
  next
    case (Inr u)
    then have "(client, outcome) \<noteq> (c, x)"
      using fold_receipt_result[of i b moment c x w] one assms(2) by (auto split: sum.splits)
    then have "(client, outcome) \<in> set rest"
      using Cons.prems p by auto
    then show ?thesis
      using Cons.IH one Inr by (simp add: p op_bind_def)
  qed
qed simp

text \<open>C17. When the trading client answers one order of a batch with something the driver cannot turn into a receipt, for instance a
  state outside the known ones, \<open>submit_legs\<close> raises \<open>TypeError\<close>. By then every order of the batch has been handed to
  the client, and no waiting request has been abandoned: the stop that the driver promises for such an answer
  does not happen.\<close>

theorem unreadable_outcome_escapes:
  assumes "n_leg_batch (world_store w) i = Some b" "distinct (map leg_client_order_id (legs b))"
    and "mset (completion_order env (legs b)) = mset (legs b)" and "l \<in> set (legs b)"
    and "\<forall>timeout. \<exists>e. receipt_for i (leg_client_order_id l) (Some l) (order_outcome env l timeout) moment = Inl e"
  shows "\<exists>w'. submit_legs env i moment w = (Inl TypeError, w')
    \<and> sent_orders w' = sent_orders w @ submissions i (completion_order env (legs b))
    \<and> request_rows (world_store w') = request_rows (world_store w)"
proof -
  obtain outcomes w1 where run: "submit_legs env i moment w
      = op_bind (fold_receipts i b moment outcomes) (\<lambda>_. finish_submission env i moment) w1"
    and w1: "attempts_only w w1" "sends (submissions i (completion_order env (legs b))) w w1"
    and outcomes: "distinct (map fst outcomes)" "fst ` set outcomes = leg_client_order_id ` set (legs b)"
      "\<forall>(client, outcome) \<in> set outcomes. \<exists>l \<in> set (legs b). \<exists>timeout. client = leg_client_order_id l \<and> leg_by_id b client = Some l
         \<and> outcome = order_outcome env l timeout"
    by (rule submitted_outcomes[OF assms(1-3)])
  obtain outcome where mem: "(leg_client_order_id l, outcome) \<in> set outcomes"
    using outcomes(2) assms(4) by force
  then obtain l' timeout where l': "leg_client_order_id l' = leg_client_order_id l" "l' \<in> set (legs b)"
    "leg_by_id b (leg_client_order_id l) = Some l'" "outcome = order_outcome env l' timeout"
    using outcomes(3) by fastforce
  then have "l' = l"
    using assms(2,4) by (auto simp: distinct_map inj_on_def)
  then obtain e where "receipt_for i (leg_client_order_id l) (leg_by_id b (leg_client_order_id l)) outcome moment = Inl e"
    using l' assms(5) by metis
  then obtain w' where fold: "fold_receipts i b moment outcomes w1 = (Inl TypeError, w')"
    using fold_receipts_unreadable[OF mem] by (metis prod.collapse)
  have "same_requests w1 w'"
    using keepsD[OF fold_receipts_requests fold] .
  moreover have "submit_legs env i moment w = (Inl TypeError, w')"
    unfolding run using fold by (simp add: op_bind_def)
  ultimately show ?thesis
    using w1 by (auto simp: same_requests_def attempts_only_def sends_def Let_def)
qed

definition admitted_world :: World where
  "admitted_world = \<lparr>world_store = admitted 0 ''L'' False (entry_of ''B'') empty_store, sent_orders = []\<rparr>"

lemma admitted_world_batch: "n_leg_batch (world_store admitted_world) ''B'' = Some (stored_entry ''L'' False 0 (entry_of ''B''))"
  by (simp add: admitted_world_def n_leg_batch_def) (simp add: empty_store_def n_leg_control_def default_control_def)

lemma entry_orders: "map leg_client_order_id (legs (entry_of ''B'')) = [''B:a'', ''B:b'']"
  by (simp add: entry_leg_def entry_evidence_def)

lemma strange_unreadable:
  "receipt_for i client leg (order_outcome (open_driver (Inr (JObj [(''state'', JStr ''EXPIRED'')]))) l timeout) moment
     = Inl (ValueError ''invalid cumulative order receipt'')"
  by (simp add: receipt_for_def order_outcome_def open_driver_def json_get_def display_text_def Let_def order_state_of_def)

theorem unreadable_outcome_escapes_witness:
  "\<exists>w'. submit_legs (open_driver (Inr (JObj [(''state'', JStr ''EXPIRED'')]))) ''B'' 0 admitted_world = (Inl TypeError, w')
    \<and> sent_orders w' = [(''B'', ''B:b''), (''B'', ''B:a'')] \<and> request_rows (world_store w') = []"
proof -
  let ?env = "open_driver (Inr (JObj [(''state'', JStr ''EXPIRED'')]))"
  have l: "entry_leg ''B'' (entry_evidence ''a'') \<in> set (legs (stored_entry ''L'' False 0 (entry_of ''B'')))"
    by simp
  have "distinct (map leg_client_order_id (legs (stored_entry ''L'' False 0 (entry_of ''B''))))"
    using entry_orders by simp
  note escapes = unreadable_outcome_escapes[OF admitted_world_batch this _ l, of ?env 0]
  have "submissions ''B'' (completion_order ?env (legs (stored_entry ''L'' False 0 (entry_of ''B'')))) = [(''B'', ''B:b''), (''B'', ''B:a'')]"
    by (simp add: submissions_def open_driver_def entry_leg_def entry_evidence_def)
  moreover have "sent_orders admitted_world = []" "request_rows (world_store admitted_world) = []"
    by (simp_all add: admitted_world_def) (simp add: empty_store_def)
  ultimately show ?thesis
    using escapes strange_unreadable by (simp add: open_driver_def)
qed

subsection \<open>An UNKNOWN outcome\<close>

definition stopped :: "string \<Rightarrow> NLegStore \<Rightarrow> bool" where
  "stopped i s \<longleftrightarrow>
     (\<exists>b. n_leg_batch s i = Some b \<and> execution_batch_id b = i \<and> incident b \<noteq> None) \<and> breaker_open (n_leg_control s)
     \<and> control_mode (n_leg_control s) = ''MANUAL'' \<and> active_batch_id (n_leg_control s) = Some i"

text \<open>The leg \<open>l\<close> of the batch is as it was when the batch was admitted: no receipt of it has been seen.\<close>

definition unseen :: "string \<Rightarrow> Leg \<Rightarrow> NLegStore \<Rightarrow> bool" where
  "unseen i l s \<longleftrightarrow>
     (\<exists>b. n_leg_batch s i = Some b \<and> execution_batch_id b = i \<and> l \<in> set (legs b) \<and> distinct (map leg_client_order_id (legs b))
        \<and> leg_receipt l = None \<and> map_of (receipts b) (leg_client_order_id l @ '':1'') = None)
     \<and> (\<forall>t \<in> set (transition_rows s). \<forall>text. transition_batch_id t = i \<longrightarrow> length text = 71
          \<longrightarrow> transition_key t \<noteq> ''receipt:'' @ (leg_client_order_id l @ '':1'') @ '':'' @ text)"

lemma reduced_incident:
  assumes "reduce_apply r ctx b c = Inr (b', c', True)" "incident b \<noteq> None" "breaker_open c" "control_mode c = ''MANUAL''"
    "active_batch_id c = Some (execution_batch_id b)"
  shows "incident b' \<noteq> None" "breaker_open c'" "control_mode c' = ''MANUAL''" "active_batch_id c' = Some (execution_batch_id b)"
proof -
  obtain b1 reason where reduced: "reduce_receipt b r = Inr (b1, reason, True)" "settle_receipt b1 c reason ctx = Inr (b', c')"
    using assms(1) by (auto simp: reduce_apply_def split: if_splits prod.splits)
  have b1: "incident b1 \<noteq> None" "execution_batch_id b1 = execution_batch_id b"
    using reduced(1) assms(2) by (auto simp: reduce_receipt_def split: if_splits Verdict.splits option.splits)
  have opened: "incident b' \<noteq> None \<and> breaker_open c' \<and> control_mode c' = ''MANUAL'' \<and> active_batch_id c' = Some (execution_batch_id b2)"
    if "open_incident b2 c why ctx = Inr (b', c')" for b2 why
    using that assms(3)
    by (auto simp: open_incident_def planned_incident_def Let_def trip_breaker_def make_incident_def split: if_splits sum.splits option.splits)
  have "incident b' \<noteq> None \<and> breaker_open c' \<and> control_mode c' = ''MANUAL'' \<and> active_batch_id c' = Some (execution_batch_id b)"
  proof (cases reason)
    case (Some why)
    then show ?thesis
      using reduced(2) opened b1(2) by (simp add: settle_receipt_def)
  next
    case None
    then show ?thesis
      using reduced(2) b1 assms(3-5) opened
      by (fastforce simp: settle_receipt_def hold_batch_def Let_def split: if_splits option.splits)
  qed
  then show "incident b' \<noteq> None" "breaker_open c'" "control_mode c' = ''MANUAL''" "active_batch_id c' = Some (execution_batch_id b)"
    by blast+
qed

lemma n_leg_batch_written: "n_leg_batch (add_transition i kind key p (set_control f (write_batch i b s))) i = Some b"
  by (simp add: n_leg_batch_def add_transition_def write_batch_def update_conv set_control_def)

lemma control_written: "n_leg_control (add_transition i kind key p (set_control (\<lambda>_. c) (write_batch i b s))) = c"
  by (simp add: n_leg_control_def add_transition_def set_control_def)

lemma stopped_stays:
  assumes "stopped i s" "apply_receipt r ctx s = (x, t)" "receipt_batch_id r = i"
  shows "stopped i t"
  using assms(2) unfolding apply_receipt_def
proof (cases rule: receipt.reduce_cases)
  case same
  then show ?thesis
    using assms(1) by simp
next
  case (changed b b' c')
  have b: "execution_batch_id b = i" "incident b \<noteq> None" "breaker_open (n_leg_control s)"
    "control_mode (n_leg_control s) = ''MANUAL''" "active_batch_id (n_leg_control s) = Some i"
    using assms(1,3) changed(1) by (auto simp: stopped_def)
  note next_state = reduced_incident[OF changed(3) b(2-4)] receipt.keeps_id[OF changed(3)]
  show ?thesis
    using next_state b unfolding stopped_def changed(5) assms(3) n_leg_batch_written control_written by simp
qed

lemma unseen_stays:
  assumes "unseen i l s" "apply_receipt r ctx s = (x, t)" "receipt_batch_id r = i" "receipt_id r = c @ '':1''"
    "receipt_client_order_id r = c" "c \<noteq> leg_client_order_id l"
  shows "unseen i l t"
  using assms(2) unfolding apply_receipt_def
proof (cases rule: receipt.reduce_cases)
  case same
  then show ?thesis
    using assms(1) by simp
next
  case (changed b b' c')
  have b: "n_leg_batch s i = Some b" "execution_batch_id b = i" "l \<in> set (legs b)" "distinct (map leg_client_order_id (legs b))"
    "leg_receipt l = None" "map_of (receipts b) (leg_client_order_id l @ '':1'') = None"
    using assms(1,3) changed(1) by (auto simp: unseen_def)
  obtain b1 reason where reduced: "reduce_receipt b r = Inr (b1, reason, True)" "settle_receipt b1 (n_leg_control s) reason ctx = Inr (b', c')"
    using changed(3) by (auto simp: reduce_apply_def split: if_splits prod.splits)
  have "with_leg_receipt r l = l"
    using assms(5,6) by (simp add: with_leg_receipt_def)
  then have "l \<in> set (legs b1)" "map_of (receipts b1) (leg_client_order_id l @ '':1'') = None"
    using reduced(1) b(3,6) assms(4,6)
    by (auto simp: reduce_receipt_def update_conv image_iff split: if_splits Verdict.splits option.splits intro!: bexI[of _ l])
  then have b': "l \<in> set (legs b')" "map_of (receipts b') (leg_client_order_id l @ '':1'') = None"
    using settle_frame[OF reduced(2)] by simp_all
  have key: "receipt_key r \<noteq> ''receipt:'' @ (leg_client_order_id l @ '':1'') @ '':'' @ mark" if "length mark = 71" for mark
    using that assms(4,6) by (simp add: receipt_key_def length_fingerprint)
  show ?thesis
    using assms(1,3) b b' key receipt.keeps_id[OF changed(3)] receipt.keeps_orders[OF changed(3)]
    unfolding unseen_def changed(5) assms(3) n_leg_batch_written
    by (auto simp: add_transition_def write_batch_def)
qed

lemma receipt_for_names:
  assumes "receipt_for i client leg outcome moment = Inr r"
  shows "receipt_id r = client @ '':1''" "receipt_batch_id r = i" "receipt_client_order_id r = client"
proof -
  obtain filled cost state where "r = driver_receipt i client leg filled cost state moment"
    using assms by (auto simp: receipt_for_def Let_def split: json.splits option.splits if_splits)
  then show "receipt_id r = client @ '':1''" "receipt_batch_id r = i" "receipt_client_order_id r = client"
    by (simp_all add: driver_receipt_def)
qed

fun unknown_state :: "json \<Rightarrow> bool" where
  "unknown_state (JObj kvs) \<longleftrightarrow> falsy (json_get kvs ''state'') \<or> json_get kvs ''state'' = JStr ''UNKNOWN''"
| "unknown_state _ \<longleftrightarrow> False"

lemma receipt_for_unknown:
  assumes "receipt_for i client leg outcome moment = Inr r" "unknown_state outcome"
  shows "r = driver_receipt i client leg 0 0 ORDER_UNKNOWN moment"
proof -
  obtain kvs where kvs: "outcome = JObj kvs"
    using assms(2) by (cases outcome) auto
  then have "(if falsy (json_get kvs ''state'') then ''UNKNOWN'' else display_text (json_get kvs ''state'')) = ''UNKNOWN''"
    using assms(2) by (auto simp: display_text_def)
  then show ?thesis
    using assms(1) unfolding kvs receipt_for_def by (auto simp: Let_def order_state_of_def)
qed

lemma filter_by_key:
  assumes "distinct (map key xs)" "x \<in> set xs"
  shows "filter (\<lambda>q. key q = key x) xs = [x]"
proof -
  obtain ys zs where xs: "xs = ys @ x # zs"
    using assms(2) by (auto dest: split_list)
  then have "key x \<notin> key ` set ys" "key x \<notin> key ` set zs"
    using assms(1) by auto
  then have "filter (\<lambda>q. key q = key x) ys = []" "filter (\<lambda>q. key q = key x) zs = []"
    by (auto simp: filter_empty_conv image_iff)
  then show ?thesis
    by (simp add: xs)
qed

lemma unknown_opens_incident:
  assumes "legs b = ls" "l \<in> set ls" "\<exists>r. leg_receipt l = Some r \<and> \<not> terminal_state (receipt_state r)" "reason \<in> set breaker_reasons"
  obtains b' c' where "open_incident b c reason ctx = Inr (b', c')" "incident b' \<noteq> None" "breaker_open c'"
    "control_mode c' = ''MANUAL''" "active_batch_id c' = Some (execution_batch_id b)"
proof -
  have "\<not> all_terminal b"
    using assms(1-3) by (fastforce simp: all_terminal_def list_all_iff)
  then show thesis
    using that assms(4) by (cases "unresolved_conflicts b = []") (auto simp: open_incident_def Let_def trip_breaker_def make_incident_def)
qed

lemma unknown_stops:
  assumes "unseen i l s" "r = driver_receipt i (leg_client_order_id l) (Some l) 0 0 ORDER_UNKNOWN moment"
    "apply_receipt r ctx s = (x, t)"
  shows "stopped i t"
proof -
  obtain b where b: "n_leg_batch s i = Some b" "execution_batch_id b = i" "l \<in> set (legs b)" "distinct (map leg_client_order_id (legs b))"
    "leg_receipt l = None" "map_of (receipts b) (leg_client_order_id l @ '':1'') = None"
    using assms(1) by (auto simp: unseen_def)
  have "transition_key t' \<noteq> receipt_key r" if "t' \<in> set (transition_rows s)" "transition_batch_id t' = i" for t'
    using assms(1,2) that length_fingerprint unfolding unseen_def receipt_key_def by (auto simp: driver_receipt_def simp del: append_Cons)
  then have new: "\<not> has_transition s i (receipt_key r)"
    by (auto simp: has_transition_def list_ex_iff)
  have "judge b r = Accept"
    using b(5,6) filter_by_key[OF b(4,3)] by (simp add: judge_def assms(2) driver_receipt_def)
  moreover have "find (\<lambda>q. leg_client_order_id q = leg_client_order_id l) (legs b) = Some l"
    using b(4,3) by (rule find_by_key)
  moreover define why where "why = (if leg_max_cost_units l < 0 then ''COST_RESERVATION_BREACH'' else ''UNKNOWN_ORDER_STATE'')"
  moreover have why: "accepted_incident l r = Some why" "why \<in> set breaker_reasons"
    by (simp_all add: why_def accepted_incident_def assms(2) driver_receipt_def breaker_reasons_def)
  ultimately have reduced: "reduce_receipt b r = Inr (accept_receipt b l r, Some why, True)"
    by (simp add: reduce_receipt_def b(2) assms(2) driver_receipt_def)
  have "with_leg_receipt r l \<in> set (map (with_leg_receipt r) (legs b))"
    using b(3) by simp
  moreover have "\<exists>q. leg_receipt (with_leg_receipt r l) = Some q \<and> \<not> terminal_state (receipt_state q)"
    by (simp add: with_leg_receipt_def assms(2) driver_receipt_def terminal_state_def)
  ultimately obtain b' c' where opened: "open_incident (accept_receipt b l r) (n_leg_control s) why ctx = Inr (b', c')" "incident b' \<noteq> None"
    "breaker_open c'" "control_mode c' = ''MANUAL''" "active_batch_id c' = Some (execution_batch_id (accept_receipt b l r))"
    using unknown_opens_incident[OF accept_receipt_legs(1) _ _ why(2)] by metis
  have "reduce_apply r ctx b (n_leg_control s) = Inr (b', c', True)"
    using reduced opened(1) by (simp add: reduce_apply_def settle_receipt_def)
  then have "t = add_transition i ''ORDER_RECEIPT'' (receipt_key r) (Reduced b' c') (set_control (\<lambda>_. c') (write_batch i b' s))"
    using assms(3) b(1) new by (simp add: apply_receipt_def n_leg_reduce_def assms(2) driver_receipt_def)
  moreover have "execution_batch_id b' = i"
    using open_incident_frame(2)[OF opened(1)] b(2) by simp
  ultimately show ?thesis
    using opened b(2) by (simp add: stopped_def n_leg_batch_written control_written)
qed

lemma fold_receipts_step:
  assumes "receipt_for i client (leg_by_id b client) outcome moment = Inr r"
  obtains x w1 where "apply_receipt r None (world_store w) = (x, world_store w1)"
    "fold_receipts i b moment ((client, outcome) # rest) w = fold_receipts i b moment rest w1"
proof -
  obtain x t where x: "apply_receipt r None (world_store w) = (x, t)"
    by fastforce
  then have "fold_receipt i b moment client outcome w = (Inr (), w\<lparr>world_store := t\<rparr>)"
    by (cases x) (simp_all add: fold_receipt_def assms op_catch_def on_store_def op_bind_def)
  then show thesis
    using x by (intro that[of x "w\<lparr>world_store := t\<rparr>"]) (simp_all add: op_bind_def)
qed

definition readable :: "string \<Rightarrow> Batch \<Rightarrow> instant \<Rightarrow> (string \<times> json) list \<Rightarrow> bool" where
  "readable i b moment outcomes \<longleftrightarrow>
     (\<forall>(client, outcome) \<in> set outcomes. \<exists>r. receipt_for i client (leg_by_id b client) outcome moment = Inr r)"

lemma fold_stopped:
  assumes "stopped i (world_store w)" "readable i b moment outcomes"
  shows "\<exists>w'. fold_receipts i b moment outcomes w = (Inr (), w') \<and> stopped i (world_store w')"
  using assms
proof (induction outcomes arbitrary: w)
  case (Cons p rest)
  obtain c o' where p: "p = (c, o')"
    by fastforce
  obtain r where r: "receipt_for i c (leg_by_id b c) o' moment = Inr r"
    using Cons.prems(2) by (auto simp: p readable_def)
  obtain x w1 where one: "apply_receipt r None (world_store w) = (x, world_store w1)"
    "fold_receipts i b moment ((c, o') # rest) w = fold_receipts i b moment rest w1"
    by (rule fold_receipts_step[OF r])
  have "stopped i (world_store w1)"
    using stopped_stays[OF Cons.prems(1) one(1)] receipt_for_names(2)[OF r] by simp
  moreover have "readable i b moment rest"
    using Cons.prems(2) by (simp add: readable_def)
  ultimately show ?case
    unfolding p one(2) by (rule Cons.IH)
qed simp

lemma fold_unknown:
  assumes "unseen i l (world_store w)" "readable i b moment outcomes" "distinct (map fst outcomes)"
    "(leg_client_order_id l, outcome) \<in> set outcomes" "leg_by_id b (leg_client_order_id l) = Some l" "unknown_state outcome"
  shows "\<exists>w'. fold_receipts i b moment outcomes w = (Inr (), w') \<and> stopped i (world_store w')"
  using assms(1-4)
proof (induction outcomes arbitrary: w)
  case (Cons p rest)
  obtain c o' where p: "p = (c, o')"
    by fastforce
  obtain r where r: "receipt_for i c (leg_by_id b c) o' moment = Inr r"
    using Cons.prems(2) by (auto simp: p readable_def)
  obtain x w1 where one: "apply_receipt r None (world_store w) = (x, world_store w1)"
    "fold_receipts i b moment ((c, o') # rest) w = fold_receipts i b moment rest w1"
    by (rule fold_receipts_step[OF r])
  have rest: "readable i b moment rest"
    using Cons.prems(2) by (simp add: readable_def)
  show ?case
  proof (cases "c = leg_client_order_id l")
    case True
    then have "o' = outcome"
      using Cons.prems(3,4) by (force simp: p)
    then have "r = driver_receipt i (leg_client_order_id l) (Some l) 0 0 ORDER_UNKNOWN moment"
      using receipt_for_unknown[OF r] assms(5,6) True by simp
    then have "stopped i (world_store w1)"
      using unknown_stops[OF Cons.prems(1) _ one(1)] by simp
    then show ?thesis
      unfolding p one(2) using rest by (rule fold_stopped)
  next
    case False
    then have "unseen i l (world_store w1)"
      using unseen_stays[OF Cons.prems(1) one(1)] receipt_for_names[OF r] by blast
    then show ?thesis
      unfolding p one(2) using Cons.IH rest Cons.prems(3,4) False by (auto simp: p)
  qed
qed simp

lemma finish_stopped:
  assumes "stopped i (world_store w)"
  obtains found w' where "finish_submission env i moment w = (Inr (Submitted i (Some found)), w')"
    "waiting (world_store w') = []" "stopped i (world_store w')"
proof -
  obtain b found where b: "n_leg_batch (world_store w) i = Some b" "incident b = Some found"
    using assms by (auto simp: stopped_def)
  obtain n t where run: "n_leg_requests_abandon_pending ''EXECUTION_INCIDENT_ACTIVE'' (world_store w) = (Inr n, t)"
    "t = world_store w\<lparr>request_rows := map (\<lambda>r. if request_pending r
       then r\<lparr>request_row_state := ''ABANDONED'', abandon_reason := Some ''EXECUTION_INCIDENT_ACTIVE''\<rparr> else r) (request_rows (world_store w))\<rparr>"
    by (simp add: n_leg_requests_abandon_pending_def)
  have "finish_submission env i moment w = (Inr (Submitted i (Some found)), w\<lparr>world_store := t\<rparr>)"
    using b run(1) by (simp add: finish_submission_def ask_def on_store_def op_bind_def)
  moreover have "waiting t = []"
    by (auto simp: waiting_def run(2) request_pending_def filter_empty_conv)
  moreover have "n_leg_control t = n_leg_control (world_store w)" "n_leg_batch t i = n_leg_batch (world_store w) i"
    by (simp_all add: run(2) n_leg_control_def n_leg_batch_def)
  then have "stopped i t"
    using assms by (simp add: stopped_def)
  ultimately show thesis
    using that[of found "w\<lparr>world_store := t\<rparr>"] by simp
qed

lemma stopped_tick: "stopped i (world_store w) \<Longrightarrow> tick env moment w = (Inr (Skipped ''GLOBAL_BREAKER_OPEN''), w)"
  by (simp add: tick_def ask_def stopped_def)

text \<open>C16. When one order of a freshly admitted batch ends UNKNOWN, by its answer or because the trading client raised, and every
  outcome of the batch can be turned into a receipt (otherwise an exception can escape before the incident): the submission reports an incident on the batch, no request waits any longer, the breaker is
  open, the mode is MANUAL, the batch keeps the active slot, and every later tick, of any driver, does nothing.\<close>

theorem unknown_outcome_stops:
  assumes "n_leg_batch (world_store w) i = Some b" "execution_batch_id b = i" "distinct (map leg_client_order_id (legs b))"
    and "mset (completion_order env (legs b)) = mset (legs b)"
    and "receipts b = []" "\<forall>l \<in> set (legs b). leg_receipt l = None" "\<forall>t \<in> set (transition_rows (world_store w)). transition_batch_id t \<noteq> i"
    and "\<forall>l \<in> set (legs b). \<forall>timeout. \<exists>r. receipt_for i (leg_client_order_id l) (Some l) (order_outcome env l timeout) moment = Inr r"
    and "l \<in> set (legs b)" "\<forall>timeout. unknown_state (order_outcome env l timeout)"
  shows "\<exists>found w'. submit_legs env i moment w = (Inr (Submitted i (Some found)), w')
    \<and> waiting (world_store w') = [] \<and> breaker_open (n_leg_control (world_store w'))
    \<and> control_mode (n_leg_control (world_store w')) = ''MANUAL'' \<and> active_batch_id (n_leg_control (world_store w')) = Some i
    \<and> (\<forall>later moment'. tick (later :: ('b, 'c) Driver) moment' w' = (Inr (Skipped ''GLOBAL_BREAKER_OPEN''), w'))"
proof -
  obtain outcomes w1 where run: "submit_legs env i moment w
      = op_bind (fold_receipts i b moment outcomes) (\<lambda>_. finish_submission env i moment) w1"
    and w1: "attempts_only w w1" "sends (submissions i (completion_order env (legs b))) w w1"
    and outcomes: "distinct (map fst outcomes)" "fst ` set outcomes = leg_client_order_id ` set (legs b)"
      "\<forall>(client, outcome) \<in> set outcomes. \<exists>l \<in> set (legs b). \<exists>timeout. client = leg_client_order_id l \<and> leg_by_id b client = Some l
         \<and> outcome = order_outcome env l timeout"
    by (rule submitted_outcomes[OF assms(1,3,4)])
  have "readable i b moment outcomes"
    using outcomes(3) assms(8) by (fastforce simp: readable_def)
  moreover have "leg_by_id b (leg_client_order_id l) = Some l"
    unfolding leg_by_id_def using assms(3,9) by (rule find_by_key)
  moreover obtain outcome where mem: "(leg_client_order_id l, outcome) \<in> set outcomes"
    using outcomes(2) assms(9) by force
  moreover have "unknown_state outcome"
    using outcomes(3) mem assms(10) calculation(2) by fastforce
  moreover have "unseen i l (world_store w1)"
    using w1(1) assms(1-3,5-7,9) unfolding unseen_def attempts_only_def Let_def n_leg_batch_def by fastforce
  ultimately obtain w2 where folded: "fold_receipts i b moment outcomes w1 = (Inr (), w2)" "stopped i (world_store w2)"
    using fold_unknown outcomes(1) by blast
  obtain found w' where "finish_submission env i moment w2 = (Inr (Submitted i (Some found)), w')"
    and rest: "waiting (world_store w') = []" "stopped i (world_store w')"
    by (rule finish_stopped[OF folded(2)])
  then have "submit_legs env i moment w = (Inr (Submitted i (Some found)), w')"
    unfolding run using folded(1) by (simp add: op_bind_def)
  then show ?thesis
    using rest stopped_tick[OF rest(2)] by (auto simp: stopped_def)
qed

lemma raising_unknown: "order_outcome (open_driver (Inl e)) l timeout = unknown_outcome"
  by (simp add: order_outcome_def open_driver_def)

lemma entry_receipts_read:
  "l \<in> set (legs (entry_of ''B'')) \<Longrightarrow> \<exists>r. receipt_for ''B'' (leg_client_order_id l) (Some l) unknown_outcome 0 = Inr r"
  by (auto simp: receipt_for_def unknown_outcome_def json_get_def display_text_def order_state_of_def Let_def driver_receipt_def
      check_receipt_def require_def require_text_def require_nonnegative_def strip_text_def py_space_def entry_leg_def entry_evidence_def)

theorem unknown_outcome_stops_witness:
  "\<exists>found w'. submit_legs (open_driver (Inl AttributeError)) ''B'' 0 admitted_world = (Inr (Submitted ''B'' (Some found)), w')
    \<and> waiting (world_store w') = [] \<and> breaker_open (n_leg_control (world_store w'))
    \<and> tick (open_driver (Inr unknown_outcome)) 1 w' = (Inr (Skipped ''GLOBAL_BREAKER_OPEN''), w')"
proof -
  let ?env = "open_driver (Inl AttributeError)" and ?b = "stored_entry ''L'' False 0 (entry_of ''B'')"
  have fresh: "receipts ?b = []" "\<forall>l \<in> set (legs ?b). leg_receipt l = None"
    "\<forall>t \<in> set (transition_rows (world_store admitted_world)). transition_batch_id t \<noteq> ''B''"
    by (simp add: entry_of_def entry_batch_def Let_def) (simp add: entry_leg_def, simp add: admitted_world_def empty_store_def)
  have ids: "execution_batch_id ?b = ''B''" "distinct (map leg_client_order_id (legs ?b))"
    using entry_orders by simp_all
  have same: "mset (completion_order ?env (legs ?b)) = mset (legs ?b)"
    by (simp add: open_driver_def)
  have read: "\<forall>l \<in> set (legs ?b). \<forall>timeout. \<exists>r. receipt_for ''B'' (leg_client_order_id l) (Some l) (order_outcome ?env l timeout) 0 = Inr r"
    using entry_receipts_read by (simp only: raising_unknown stored_entry_fields) blast
  have "entry_leg ''B'' (entry_evidence ''a'') \<in> set (legs ?b)" "\<forall>timeout. unknown_state (order_outcome ?env l timeout)" for l
    by (simp, simp add: raising_unknown unknown_outcome_def json_get_def)
  from unknown_outcome_stops[OF admitted_world_batch ids same fresh read this] show ?thesis
    by blast
qed

end
