(* ===== verification/Snapshot_Scheduler.thy ===== *)
theory Snapshot_Scheduler
  imports NLeg_Canonical Decimal_Text "HOL-Library.AList"
begin

section \<open>The latest-snapshot-wins scheduler\<close>

text \<open>
  \<^verbatim>\<open>prediction_snapshot_scheduler.py\<close>. The scheduler keeps per component the newest book snapshot, at most one solve in
  flight and at most one pending replacement, and the last recorded result. The solver server is outside: whether
  building the request and handing it to \<open>submit\<close> raises is an argument of every operation that may do so
  (\<open>accepts\<close>), and a submission that does not raise creates a new future, numbered here by \<open>next_future\<close>. The
  callbacks that \<open>add_done_callback\<close> registers are kept in \<open>callbacks\<close>; a future that is done when its callback is
  registered is the same as one that completes right afterwards, since the lock is reentrant.

  Timestamps are UTC instants. The comparisons of \<open>total_seconds()\<close> are comparisons of microseconds: two spans below
  \<open>2 ^ 33\<close> seconds that differ by a microsecond differ as floats.
\<close>

subsection \<open>Snapshots\<close>

record BookLevel =
  level_price :: decimal
  level_size :: decimal

record LegBook =
  bids :: "BookLevel list"
  asks :: "BookLevel list"
  taker_fee_bps :: "decimal option"
  book_available :: bool
  book_convention :: string

record SnapshotLeg =
  leg_id :: string
  leg_book :: LegBook
  received_at :: "instant option"
  exchange_time :: "instant option"
  leg_sequence :: "int option"

record ComponentSnapshot =
  snapshot_component_id :: string
  snapshot_legs :: "SnapshotLeg list"

definition GENERIC_BOOK_CONVENTION :: string where
  "GENERIC_BOOK_CONVENTION = ''generic''"

definition OUTCOME_TOKEN_BOOK_CONVENTION :: string where
  "OUTCOME_TOKEN_BOOK_CONVENTION = ''outcome-token''"

definition level_pairs :: "BookLevel list \<Rightarrow> json" where
  "level_pairs levels = JList (map (\<lambda>l. JList [JStr (decimal_fixed (level_price l)), JStr (decimal_fixed (level_size l))]) levels)"

definition leg_economics :: "SnapshotLeg \<Rightarrow> json" where
  "leg_economics l = JObj
     [(''leg_id'', JStr (leg_id l)), (''bids'', level_pairs (bids (leg_book l))), (''asks'', level_pairs (asks (leg_book l))),
      (''taker_fee_bps'', json_option (\<lambda>d. JStr (decimal_fixed d)) (taker_fee_bps (leg_book l))),
      (''available'', JBool (book_available (leg_book l))), (''book_convention'', JStr (book_convention (leg_book l)))]"

definition economic_fingerprint :: "ComponentSnapshot \<Rightarrow> string result" where
  "economic_fingerprint s =
     (if snapshot_legs s = [] then Inl (ValueError ''component snapshot must have at least one leg'')
      else Inr (fingerprint (JObj
        [(''component_id'', JStr (snapshot_component_id s)), (''legs'', JList (map leg_economics (snapshot_legs s)))])))"

definition order_ready :: "ComponentSnapshot \<Rightarrow> instant \<Rightarrow> int \<Rightarrow> bool" where
  "order_ready s now freshness \<longleftrightarrow>
     snapshot_legs s \<noteq> []
     \<and> list_all (\<lambda>l. case (received_at l, exchange_time l, leg_sequence l) of
          (Some received, Some exchanged, Some _) \<Rightarrow> now - received \<le> freshness \<and> now - exchanged \<le> freshness
        | _ \<Rightarrow> False) (snapshot_legs s)"

subsection \<open>Results of the solver\<close>

datatype raw_status = Feasible | Infeasible | Unknown

record SnapshotSolveResult =
  result_component_id :: string
  result_status :: raw_status
  result_cost_bound :: "int option"
  result_fingerprint :: string
  result_order_ready :: bool

text \<open>The part of a \<open>WorkerOutcome\<close> that is read; \<open>None\<close> for the evidence is a missing response or evidence that is no mapping.\<close>

record WorkerOutcome =
  outcome_status :: string
  cleanup_proven :: bool
  outcome_evidence :: "(string \<times> json) list option"

text \<open>A Boolean is an \<open>int\<close> of Python.\<close>

fun python_int :: "json \<Rightarrow> int option" where
  "python_int (JInt n) = Some n"
| "python_int (JBool b) = Some (if b then 1 else 0)"
| "python_int _ = None"

definition raw_solve_result :: "WorkerOutcome \<Rightarrow> raw_status \<times> int option" where
  "raw_solve_result out =
     (if cleanup_proven out \<and> outcome_status out = ''OK''
      then case outcome_evidence out of
        None \<Rightarrow> (Unknown, None)
      | Some evidence \<Rightarrow>
          (case map_of evidence ''native_status'' of
             Some (JStr native) \<Rightarrow>
               if native = ''OPTIMAL'' \<or> native = ''FEASIBLE''
               then (Feasible, Option.bind (map_of evidence ''cost_upper_bound_units'') python_int)
               else if native = ''INFEASIBLE'' then (Infeasible, None)
               else (Unknown, None)
           | _ \<Rightarrow> (Unknown, None))
      else (Unknown, None))"

subsection \<open>The state of the scheduler\<close>

record SelectedComponent =
  component_id :: string
  component_contract_ids :: "string list"
  component_constraint_ids :: "string list"
  component_action_ids :: "string list"
  admission_score :: int
  component_portfolio :: "ActionQuantity list"
  relation_fingerprint :: string
  terminal_fingerprint :: string
  component_portfolio_fingerprint :: string
  component_status :: string

type_synonym future = nat

record ComponentState =
  latest_snapshot :: "ComponentSnapshot option"
  latest_fingerprint :: "string option"
  in_flight :: "(future \<times> string) option"
  pending :: "(SelectedComponent \<times> ComponentSnapshot) option"
  last_solved_fingerprint :: "string option"
  latest_result :: "SnapshotSolveResult option"

definition new_state :: ComponentState where
  "new_state = \<lparr>latest_snapshot = None, latest_fingerprint = None, in_flight = None, pending = None,
     last_solved_fingerprint = None, latest_result = None\<rparr>"

record SnapshotScheduler =
  freshness :: int
  states :: "(string \<times> ComponentState) list"
  closed :: bool
  next_future :: future
  callbacks :: "(future \<times> string \<times> string) list"

type_synonym server = "SelectedComponent \<Rightarrow> ComponentSnapshot \<Rightarrow> bool"

text \<open>\<open>__init__\<close>: a freshness of zero or less is refused.\<close>

definition new_scheduler :: "int \<Rightarrow> SnapshotScheduler result" where
  "new_scheduler fresh =
     (if fresh \<le> 0 then Inl (ValueError ''freshness must be positive'')
      else Inr \<lparr>freshness = fresh, states = [], closed = False, next_future = 0, callbacks = []\<rparr>)"

definition state_of :: "SnapshotScheduler \<Rightarrow> string \<Rightarrow> ComponentState option" where
  "state_of S c = map_of (states S) c"

definition set_state :: "string \<Rightarrow> ComponentState \<Rightarrow> SnapshotScheduler \<Rightarrow> SnapshotScheduler" where
  "set_state c st S = S\<lparr>states := AList.update c st (states S)\<rparr>"

definition quoted :: "string \<Rightarrow> string" where
  "quoted s = [CHR 0x27] @ s @ [CHR 0x27]"

subsection \<open>Operations\<close>

definition refresh_order_ready :: "instant \<Rightarrow> int \<Rightarrow> ComponentState \<Rightarrow> ComponentState" where
  "refresh_order_ready now fresh st =
     (case (latest_result st, latest_snapshot st) of
        (Some r, Some s) \<Rightarrow> st\<lparr>latest_result := Some (r\<lparr>result_order_ready := order_ready s now fresh\<rparr>)\<rparr>
      | _ \<Rightarrow> st)"

text \<open>\<open>_dispatch\<close>, which works on the state of the component it is given.\<close>

definition dispatch ::
  "server \<Rightarrow> instant \<Rightarrow> SelectedComponent \<Rightarrow> ComponentSnapshot \<Rightarrow> string \<Rightarrow> string \<Rightarrow> ComponentState \<Rightarrow> SnapshotScheduler
     \<Rightarrow> string \<times> SnapshotScheduler" where
  "dispatch accepts now c s current key st S =
     (if accepts c s
      then (''scheduled'',
        set_state key (st\<lparr>in_flight := Some (next_future S, current)\<rparr>) S
          \<lparr>next_future := Suc (next_future S), callbacks := callbacks S @ [(next_future S, component_id c, current)]\<rparr>)
      else (''failed'',
        set_state key
          (st\<lparr>last_solved_fingerprint := Some current,
              latest_result := Some \<lparr>result_component_id = component_id c, result_status = Unknown, result_cost_bound = None,
                result_fingerprint = current, result_order_ready = order_ready s now (freshness S)\<rparr>\<rparr>) S))"

text \<open>\<open>setdefault\<close> and the two assignments that store the newest snapshot.\<close>

definition noticed :: "ComponentSnapshot \<Rightarrow> string \<Rightarrow> ComponentState option \<Rightarrow> ComponentState" where
  "noticed s current known =
     (case known of None \<Rightarrow> new_state | Some st \<Rightarrow> st)\<lparr>latest_snapshot := Some s, latest_fingerprint := Some current\<rparr>"

definition observe_snapshot ::
  "server \<Rightarrow> instant \<Rightarrow> SelectedComponent \<Rightarrow> ComponentSnapshot \<Rightarrow> SnapshotScheduler \<Rightarrow> (string \<times> SnapshotScheduler) result" where
  "observe_snapshot accepts now c s S =
     rbind (economic_fingerprint s) (\<lambda>current.
     if closed S then Inr (''closed'', S)
     else
       let key = component_id c;
           st = noticed s current (state_of S key)
       in
       if last_solved_fingerprint st = Some current
       then Inr (''deduped'', set_state key (refresh_order_ready now (freshness S) st) S)
       else
         case in_flight st of
           Some (_, flying) \<Rightarrow>
             if flying = current then Inr (''deduped'', set_state key (st\<lparr>pending := None\<rparr>) S)
             else Inr (''replaced'', set_state key (st\<lparr>pending := Some (c, s)\<rparr>) S)
         | None \<Rightarrow> Inr (dispatch accepts now c s current key st S))"

text \<open>
  \<open>_completed\<close>: the callback of a future, with what \<open>completed.result()\<close> returned, or \<open>None\<close> when it raised. The
  fingerprint of a pending snapshot was computed when it was observed.
\<close>

definition completed_status :: "WorkerOutcome option \<Rightarrow> raw_status \<times> int option" where
  "completed_status out = (case out of None \<Rightarrow> (Unknown, None) | Some x \<Rightarrow> raw_solve_result x)"

definition completed ::
  "server \<Rightarrow> instant \<Rightarrow> string \<Rightarrow> string \<Rightarrow> future \<Rightarrow> WorkerOutcome option \<Rightarrow> SnapshotScheduler \<Rightarrow> SnapshotScheduler" where
  "completed accepts now key input fut out S =
     (let (status, bound) = completed_status out in
      case state_of S key of
        None \<Rightarrow> S
      | Some st \<Rightarrow>
          if in_flight st \<noteq> Some (fut, input) then S
          else
            let waiting = pending st;
                st = st\<lparr>in_flight := None, pending := None\<rparr>
            in
            if latest_fingerprint st \<noteq> Some input
            then
              (case waiting of
                 None \<Rightarrow> set_state key st S
               | Some (c, s) \<Rightarrow>
                   (case economic_fingerprint s of
                      Inl _ \<Rightarrow> set_state key st S
                    | Inr current \<Rightarrow> snd (dispatch accepts now c s current key st S)))
            else
              set_state key
                (st\<lparr>last_solved_fingerprint := Some input,
                    latest_result := Some \<lparr>result_component_id = key, result_status = status, result_cost_bound = bound,
                      result_fingerprint = input,
                      result_order_ready = (case latest_snapshot st of None \<Rightarrow> False | Some s \<Rightarrow> order_ready s now (freshness S))\<rparr>\<rparr>) S)"

text \<open>A future completes, or is cancelled: its callbacks run once.\<close>

definition settle :: "server \<Rightarrow> instant \<Rightarrow> future \<Rightarrow> WorkerOutcome option \<Rightarrow> SnapshotScheduler \<Rightarrow> SnapshotScheduler" where
  "settle accepts now fut out S =
     fold (\<lambda>(_, key, input) S. completed accepts now key input fut out S) (filter (\<lambda>cb. fst cb = fut) (callbacks S))
       (S\<lparr>callbacks := filter (\<lambda>cb. fst cb \<noteq> fut) (callbacks S)\<rparr>)"

text \<open>\<open>close\<close>; \<open>cancels\<close> says for which futures \<open>cancel()\<close> succeeds, which it does unless the future is running or done.\<close>

definition close_scheduler :: "server \<Rightarrow> instant \<Rightarrow> (future \<Rightarrow> bool) \<Rightarrow> SnapshotScheduler \<Rightarrow> SnapshotScheduler" where
  "close_scheduler accepts now cancels S =
     fold (\<lambda>key S.
       case state_of S key of
         Some st \<Rightarrow>
           (case in_flight st of
              Some (fut, _) \<Rightarrow> if cancels fut then settle accepts now fut None S else S
            | None \<Rightarrow> S)
       | None \<Rightarrow> S) (map fst (states S)) (S\<lparr>closed := True\<rparr>)"

definition result_of :: "SnapshotScheduler \<Rightarrow> string \<Rightarrow> SnapshotSolveResult option" where
  "result_of S c = Option.bind (state_of S c) latest_result"

text \<open>\<open>refresh\<close>: one pass over the selected components; a wrong snapshot stops the pass after the earlier ones took effect.\<close>

fun refresh ::
  "server \<Rightarrow> instant \<Rightarrow> (SelectedComponent \<Rightarrow> ComponentSnapshot option) \<Rightarrow> SelectedComponent list
     \<Rightarrow> (string \<times> string) list \<Rightarrow> SnapshotScheduler \<Rightarrow> (string \<times> string) list result \<times> SnapshotScheduler" where
  "refresh accepts now snapshot_for [] outcomes S = (Inr outcomes, S)"
| "refresh accepts now snapshot_for (c # cs) outcomes S =
     (case snapshot_for c of
        None \<Rightarrow> refresh accepts now snapshot_for cs outcomes S
      | Some s \<Rightarrow>
          if snapshot_component_id s \<noteq> component_id c
          then (Inl (ValueError (''snapshot_for returned '' @ quoted (snapshot_component_id s) @ '' for component '' @ quoted (component_id c))), S)
          else
            (case observe_snapshot accepts now c s S of
               Inl e \<Rightarrow> (Inl e, S)
             | Inr (word, S') \<Rightarrow>
                 refresh accepts now snapshot_for cs (AList.update (component_id c) word outcomes) S'))"

subsection \<open>Steps and reachable states\<close>

text \<open>
  The events are the atomic sections under the lock, in any order: an observation, the completion of a future and
  \<open>close\<close>. The parameter restricts what the solver server does in a step.
\<close>

inductive scheduler_step :: "(server \<Rightarrow> bool) \<Rightarrow> SnapshotScheduler \<Rightarrow> SnapshotScheduler \<Rightarrow> bool" for behaves where
  observed: "behaves accepts \<Longrightarrow> observe_snapshot accepts now c s S = Inr (word, S') \<Longrightarrow> scheduler_step behaves S S'"
| settled: "behaves accepts \<Longrightarrow> scheduler_step behaves S (settle accepts now fut out S)"
| closed: "behaves accepts \<Longrightarrow> scheduler_step behaves S (close_scheduler accepts now cancels S)"

inductive scheduler_reachable :: "(server \<Rightarrow> bool) \<Rightarrow> SnapshotScheduler \<Rightarrow> bool" for behaves where
  started: "new_scheduler fresh = Inr S \<Longrightarrow> scheduler_reachable behaves S"
| stepped: "scheduler_reachable behaves S \<Longrightarrow> scheduler_step behaves S S' \<Longrightarrow> scheduler_reachable behaves S'"

text \<open>What holds of one component, and of the whole scheduler.\<close>

definition snapshot_matches :: "ComponentState \<Rightarrow> bool" where
  "snapshot_matches st \<longleftrightarrow>
     (\<exists>s fp. latest_snapshot st = Some s \<and> latest_fingerprint st = Some fp \<and> economic_fingerprint s = Inr fp)"

definition pending_matches :: "string \<Rightarrow> ComponentState \<Rightarrow> bool" where
  "pending_matches key st \<longleftrightarrow>
     (\<forall>c s. pending st = Some (c, s) \<longrightarrow> component_id c = key \<and> snapshot_legs s \<noteq> [] \<and> in_flight st \<noteq> None)"

definition result_matches :: "string \<Rightarrow> ComponentState \<Rightarrow> bool" where
  "result_matches key st \<longleftrightarrow>
     last_solved_fingerprint st = map_option result_fingerprint (latest_result st)
     \<and> (\<forall>r. latest_result st = Some r \<longrightarrow> result_component_id r = key)"

definition component_ok :: "string \<Rightarrow> ComponentState \<Rightarrow> bool" where
  "component_ok key st \<longleftrightarrow> snapshot_matches st \<and> pending_matches key st \<and> result_matches key st"

text \<open>The callbacks that wait are exactly those of the solves in flight.\<close>

definition flights_registered :: "SnapshotScheduler \<Rightarrow> bool" where
  "flights_registered S \<longleftrightarrow>
     (\<forall>fut key fp. (fut, key, fp) \<in> set (callbacks S) \<longleftrightarrow> (\<exists>st. state_of S key = Some st \<and> in_flight st = Some (fut, fp)))
     \<and> distinct (map fst (callbacks S)) \<and> (\<forall>cb \<in> set (callbacks S). fst cb < next_future S)"

definition scheduler_ok :: "SnapshotScheduler \<Rightarrow> bool" where
  "scheduler_ok S \<longleftrightarrow>
     flights_registered S \<and> (\<forall>key st. state_of S key = Some st \<longrightarrow> component_ok key st)"

text \<open>The newest snapshot of the component is solved, being solved, or waits to be solved.\<close>

definition tracks_newest :: "ComponentState \<Rightarrow> bool" where
  "tracks_newest st \<longleftrightarrow>
     last_solved_fingerprint st = latest_fingerprint st
     \<or> map_option snd (in_flight st) = latest_fingerprint st
     \<or> in_flight st \<noteq> None \<and> (\<exists>c s. pending st = Some (c, s) \<and> latest_fingerprint st = (case economic_fingerprint s of Inr fp \<Rightarrow> Some fp | Inl _ \<Rightarrow> None))"

subsection \<open>The invariant\<close>

lemma state_of_set_state [simp]: "state_of (set_state k st S) k' = (if k' = k then Some st else state_of S k')"
  by (simp add: state_of_def set_state_def update_conv')

lemma set_state_fields [simp]:
  "callbacks (set_state k st S) = callbacks S" "next_future (set_state k st S) = next_future S"
  "closed (set_state k st S) = closed S" "freshness (set_state k st S) = freshness S"
  by (simp_all add: set_state_def)

lemma state_of_update [simp]:
  "state_of (S\<lparr>next_future := n\<rparr>) k = state_of S k" "state_of (S\<lparr>callbacks := cbs\<rparr>) k = state_of S k" "state_of (S\<lparr>closed := b\<rparr>) k = state_of S k"
  by (simp_all add: state_of_def)

text \<open>Replacing the state of a component that has no solve in flight, before and after.\<close>

lemma flights_set_state:
  assumes "flights_registered S" "Option.bind (state_of S key) in_flight = in_flight st"
  shows "flights_registered (set_state key st S)"
  using assms unfolding flights_registered_def by (auto split: bind_splits)

lemma dispatch_flights:
  assumes ok: "flights_registered S" and idle: "Option.bind (state_of S (component_id c)) in_flight = None" "in_flight st = None"
  shows "flights_registered (snd (dispatch accepts now c s current (component_id c) st S))"
proof (cases "accepts c s")
  case True
  have "(fut, component_id c, fp) \<notin> set (callbacks S)" for fut fp
    using ok idle(1) by (auto simp: flights_registered_def split: bind_splits)
  moreover have "next_future S \<notin> fst ` set (callbacks S)"
    using ok by (auto simp: flights_registered_def)
  ultimately show ?thesis
    using ok True unfolding flights_registered_def by (auto simp: dispatch_def less_Suc_eq)
next
  case False
  then show ?thesis
    using assms by (simp add: dispatch_def flights_set_state)
qed

lemma dispatch_states:
  "state_of (snd (dispatch accepts now c s current key st S)) k =
     (if k = key
      then Some (if accepts c s then st\<lparr>in_flight := Some (next_future S, current)\<rparr>
        else st\<lparr>last_solved_fingerprint := Some current,
            latest_result := Some \<lparr>result_component_id = component_id c, result_status = Unknown, result_cost_bound = None,
              result_fingerprint = current, result_order_ready = order_ready s now (freshness S)\<rparr>\<rparr>)
      else state_of S k)"
  by (simp add: dispatch_def)

lemma dispatch_ok:
  assumes "scheduler_ok S" "Option.bind (state_of S (component_id c)) in_flight = None" "in_flight st = None"
    and st: "snapshot_matches st" "pending st = None" "result_matches (component_id c) st"
  shows "scheduler_ok (snd (dispatch accepts now c s current (component_id c) st S))"
  using assms dispatch_flights
  unfolding scheduler_ok_def dispatch_states component_ok_def
  by (auto simp: snapshot_matches_def pending_matches_def result_matches_def)

lemma set_state_ok:
  assumes "scheduler_ok S" "Option.bind (state_of S key) in_flight = in_flight st" "component_ok key st"
  shows "scheduler_ok (set_state key st S)"
  using assms flights_set_state unfolding scheduler_ok_def by auto

lemma refresh_order_ready_keeps:
  "in_flight (refresh_order_ready now fresh st) = in_flight st" "pending (refresh_order_ready now fresh st) = pending st"
  "latest_snapshot (refresh_order_ready now fresh st) = latest_snapshot st"
  "latest_fingerprint (refresh_order_ready now fresh st) = latest_fingerprint st"
  "last_solved_fingerprint (refresh_order_ready now fresh st) = last_solved_fingerprint st"
  "map_option result_fingerprint (latest_result (refresh_order_ready now fresh st)) = map_option result_fingerprint (latest_result st)"
  "result_matches key (refresh_order_ready now fresh st) = result_matches key st"
  by (auto simp: refresh_order_ready_def result_matches_def split: option.splits)

lemma noticed_ok:
  assumes "scheduler_ok S" "economic_fingerprint s = Inr current"
  shows "component_ok key (noticed s current (state_of S key))"
    "Option.bind (state_of S key) in_flight = in_flight (noticed s current (state_of S key))"
  using assms
  by (auto simp: noticed_def scheduler_ok_def component_ok_def snapshot_matches_def pending_matches_def result_matches_def
      new_state_def split: option.splits bind_splits)

text \<open>The outcomes of an observation: the state of the component it leaves, or a dispatch.\<close>

lemma observe_cases [consumes 1, case_names shut same_result same_flight replaced started]:
  assumes "observe_snapshot accepts now c s S = Inr (word, S')"
  obtains "closed S" "S' = S"
  | current st where "economic_fingerprint s = Inr current" "st = noticed s current (state_of S (component_id c))"
      "last_solved_fingerprint st = Some current" "S' = set_state (component_id c) (refresh_order_ready now (freshness S) st) S"
  | current st fut where "economic_fingerprint s = Inr current" "st = noticed s current (state_of S (component_id c))"
      "in_flight st = Some (fut, current)" "S' = set_state (component_id c) (st\<lparr>pending := None\<rparr>) S"
  | current st fut flying where "economic_fingerprint s = Inr current" "st = noticed s current (state_of S (component_id c))"
      "in_flight st = Some (fut, flying)" "flying \<noteq> current" "S' = set_state (component_id c) (st\<lparr>pending := Some (c, s)\<rparr>) S"
  | current st where "economic_fingerprint s = Inr current" "st = noticed s current (state_of S (component_id c))"
      "in_flight st = None" "S' = snd (dispatch accepts now c s current (component_id c) st S)"
proof -
  obtain current where fp: "economic_fingerprint s = Inr current"
    using assms by (auto simp: observe_snapshot_def)
  show thesis
  proof (cases "closed S")
    case True
    then have "S' = S"
      using assms by (simp add: observe_snapshot_def fp)
    then show thesis
      using that(1) True by blast
  next
    case False
    let ?st = "noticed s current (state_of S (component_id c))"
    have run: "(if last_solved_fingerprint ?st = Some current
        then Inr (''deduped'', set_state (component_id c) (refresh_order_ready now (freshness S) ?st) S)
        else case in_flight ?st of
          Some (_, flying) \<Rightarrow>
            if flying = current then Inr (''deduped'', set_state (component_id c) (?st\<lparr>pending := None\<rparr>) S)
            else Inr (''replaced'', set_state (component_id c) (?st\<lparr>pending := Some (c, s)\<rparr>) S)
        | None \<Rightarrow> Inr (dispatch accepts now c s current (component_id c) ?st S)) = (Inr (word, S') :: (string \<times> SnapshotScheduler) result)"
      using assms False by (simp only: observe_snapshot_def fp rbind_simps Let_def if_False)
    show thesis
      using run that(2)[OF fp refl] that(3)[OF fp refl] that(4)[OF fp refl] that(5)[OF fp refl]
      by (cases "last_solved_fingerprint ?st = Some current"; cases "in_flight ?st") (auto split: if_splits)
  qed
qed

lemma idle_pending: "component_ok key st \<Longrightarrow> in_flight st = None \<Longrightarrow> pending st = None"
  by (cases "pending st") (auto simp: component_ok_def pending_matches_def)

lemma component_ok_refreshed: "component_ok key (refresh_order_ready now fresh st) = component_ok key st"
  unfolding component_ok_def snapshot_matches_def pending_matches_def refresh_order_ready_keeps ..

lemma component_ok_pending:
  assumes "component_ok key st"
  shows "component_ok key (st\<lparr>pending := None\<rparr>)"
    "in_flight st \<noteq> None \<Longrightarrow> component_id c = key \<Longrightarrow> snapshot_legs s \<noteq> [] \<Longrightarrow> component_ok key (st\<lparr>pending := Some (c, s)\<rparr>)"
  using assms by (simp_all add: component_ok_def snapshot_matches_def pending_matches_def result_matches_def)

lemma observe_ok:
  assumes ok: "scheduler_ok S" and run: "observe_snapshot accepts now c s S = Inr (word, S')"
  shows "scheduler_ok S'"
  using run
proof (cases rule: observe_cases)
  case shut
  then show ?thesis
    using ok by simp
next
  case (same_result current st)
  note n = noticed_ok[OF ok same_result(1), of "component_id c", folded same_result(2)]
  show ?thesis
    unfolding same_result(4) by (rule set_state_ok[OF ok]) (simp_all only: refresh_order_ready_keeps component_ok_refreshed n)
next
  case (same_flight current st fut)
  note n = noticed_ok[OF ok same_flight(1), of "component_id c", folded same_flight(2)]
  show ?thesis
    unfolding same_flight(4) using n by (intro set_state_ok[OF ok] component_ok_pending) simp_all
next
  case (replaced current st fut flying)
  note n = noticed_ok[OF ok replaced(1), of "component_id c", folded replaced(2)]
  have "snapshot_legs s \<noteq> []"
    using replaced(1) by (auto simp: economic_fingerprint_def split: if_splits)
  then show ?thesis
    unfolding replaced(5) using n replaced(3) by (intro set_state_ok[OF ok] component_ok_pending) simp_all
next
  case (started current st)
  note n = noticed_ok[OF ok started(1), of "component_id c", folded started(2)]
  show ?thesis
    unfolding started(4) using n started(3) idle_pending[OF n(1)]
    by (intro dispatch_ok[OF ok]) (simp_all add: component_ok_def)
qed

subsection \<open>Completions\<close>

text \<open>The state a component is left in once its future is done and before anything new is started.\<close>

definition landed :: "future \<Rightarrow> string \<Rightarrow> ComponentState \<Rightarrow> SnapshotScheduler \<Rightarrow> SnapshotScheduler" where
  "landed fut key st S =
     set_state key (st\<lparr>in_flight := None, pending := None\<rparr>) (S\<lparr>callbacks := filter (\<lambda>cb. fst cb \<noteq> fut) (callbacks S)\<rparr>)"

lemma set_state_again [simp]: "set_state key st (set_state key st' S) = set_state key st S"
  by (simp add: set_state_def update_last)

lemma dispatch_again [simp]: "dispatch accepts now c s current key st (set_state key st' S) = dispatch accepts now c s current key st S"
  by (simp add: dispatch_def set_state_def update_last)

lemma settle_unknown:
  assumes "scheduler_ok S" "\<And>key st fp. state_of S key = Some st \<Longrightarrow> in_flight st \<noteq> Some (fut, fp)"
  shows "settle accepts now fut out S = S"
proof -
  have "\<forall>cb \<in> set (callbacks S). fst cb \<noteq> fut"
    using assms by (fastforce simp: scheduler_ok_def flights_registered_def)
  then have "filter (\<lambda>cb. fst cb = fut) (callbacks S) = []" "filter (\<lambda>cb. fst cb \<noteq> fut) (callbacks S) = callbacks S"
    by (auto simp: filter_empty_conv filter_id_conv)
  then show ?thesis
    by (simp add: settle_def)
qed

lemma filter_distinct_key: "distinct (map fst xs) \<Longrightarrow> (k, v) \<in> set xs \<Longrightarrow> filter (\<lambda>x. fst x = k) xs = [(k, v)]"
  by (induction xs) (auto simp: filter_empty_conv image_iff)

lemma settle_flight:
  assumes ok: "scheduler_ok S" and st: "state_of S key = Some st" "in_flight st = Some (fut, input)"
  shows "settle accepts now fut out S =
    (let L = landed fut key st S; st' = st\<lparr>in_flight := None, pending := None\<rparr>; (status, bound) = completed_status out in
     if latest_fingerprint st = Some input
     then set_state key (st'\<lparr>last_solved_fingerprint := Some input,
            latest_result := Some \<lparr>result_component_id = key, result_status = status, result_cost_bound = bound,
              result_fingerprint = input,
              result_order_ready = (case latest_snapshot st of None \<Rightarrow> False | Some s \<Rightarrow> order_ready s now (freshness S))\<rparr>\<rparr>) L
     else case pending st of
       None \<Rightarrow> L
     | Some (c, s) \<Rightarrow> (case economic_fingerprint s of Inl _ \<Rightarrow> L | Inr current \<Rightarrow> snd (dispatch accepts now c s current key st' L)))"
proof -
  have "(fut, key, input) \<in> set (callbacks S)" "distinct (map fst (callbacks S))"
    using assms by (auto simp: scheduler_ok_def flights_registered_def)
  then have "filter (\<lambda>cb. fst cb = fut) (callbacks S) = [(fut, key, input)]"
    by (intro filter_distinct_key)
  then show ?thesis
    using st by (simp add: settle_def completed_def landed_def Let_def split: option.splits sum.splits prod.splits)
qed

lemma landed_ok:
  assumes ok: "scheduler_ok S" and st: "state_of S key = Some st" "in_flight st = Some (fut, input)"
  shows "scheduler_ok (landed fut key st S)"
proof -
  have reg: "flights_registered S" and comp: "\<And>k st. state_of S k = Some st \<Longrightarrow> component_ok k st"
    using ok by (auto simp: scheduler_ok_def)
  have mine: "(f, key, fp) \<in> set (callbacks S) \<longleftrightarrow> f = fut \<and> fp = input" for f fp
    using reg st by (auto simp: flights_registered_def)
  have other: "f \<noteq> fut" if "state_of S k = Some st'" "in_flight st' = Some (f, fp)" "k \<noteq> key" for f k fp st'
  proof
    assume "f = fut"
    then have "(fut, k, fp) \<in> set (callbacks S)" "(fut, key, input) \<in> set (callbacks S)"
      using that mine reg by (auto simp: flights_registered_def)
    moreover have "distinct (map fst (callbacks S))"
      using reg by (simp add: flights_registered_def)
    ultimately show False
      using \<open>k \<noteq> key\<close> by (metis Pair_inject eq_key_imp_eq_value)
  qed
  have "flights_registered (landed fut key st S)"
    using reg mine unfolding flights_registered_def landed_def
    by (auto simp: distinct_map_filter dest: other)
  moreover have "component_ok key (st\<lparr>in_flight := None, pending := None\<rparr>)"
    using comp[OF st(1)] by (simp add: component_ok_def snapshot_matches_def pending_matches_def result_matches_def)
  ultimately show ?thesis
    using comp by (simp add: scheduler_ok_def landed_def)
qed

lemma landed_state: "state_of (landed fut key st S) k = (if k = key then Some (st\<lparr>in_flight := None, pending := None\<rparr>) else state_of S k)"
  by (simp add: landed_def)

lemma settle_flight_ok:
  assumes ok: "scheduler_ok S" and st: "state_of S key = Some st" "in_flight st = Some (fut, input)"
  shows "scheduler_ok (settle accepts now fut out S)"
proof -
  let ?L = "landed fut key st S"
  have L: "scheduler_ok ?L" "component_ok key (st\<lparr>in_flight := None, pending := None\<rparr>)"
    using landed_ok[OF assms] landed_state[of fut key st S key] by (auto simp: scheduler_ok_def)
  have known: "component_ok key st"
    using ok st by (simp add: scheduler_ok_def)
  show ?thesis
  proof (cases "latest_fingerprint st = Some input")
    case True
    obtain status bound where res: "completed_status out = (status, bound)"
      by (cases "completed_status out")
    show ?thesis
      unfolding settle_flight[OF assms] Let_def res prod.case if_P[OF True] using L
      by (intro set_state_ok) (simp_all add: landed_state component_ok_def snapshot_matches_def pending_matches_def result_matches_def)
  next
    case False
    show ?thesis
    proof (cases "pending st")
      case None
      then show ?thesis
        using L False by (simp add: settle_flight[OF assms] Let_def split: prod.split)
    next
      case (Some cs)
      then obtain c s where cs: "pending st = Some (c, s)" "component_id c = key"
        using known by (cases cs) (auto simp: component_ok_def pending_matches_def)
      have "scheduler_ok (snd (dispatch accepts now c s current key (st\<lparr>in_flight := None, pending := None\<rparr>) ?L))" for current
        unfolding cs(2)[symmetric] using L cs(2) by (intro dispatch_ok) (simp_all add: landed_state component_ok_def)
      then show ?thesis
        using L(1) False cs by (simp add: settle_flight[OF assms] Let_def split: prod.split sum.split)
    qed
  qed
qed

lemma settle_ok:
  assumes "scheduler_ok S"
  shows "scheduler_ok (settle accepts now fut out S)"
proof (cases "\<exists>key st fp. state_of S key = Some st \<and> in_flight st = Some (fut, fp)")
  case True
  then show ?thesis
    using settle_flight_ok[OF assms] by blast
next
  case False
  then have "settle accepts now fut out S = S"
    by (intro settle_unknown[OF assms]) blast
  then show ?thesis
    using assms by simp
qed

text \<open>\<open>close\<close> only settles futures, so it keeps what every completion keeps.\<close>

lemma close_invariant:
  assumes "P (S\<lparr>closed := True\<rparr>)" "\<And>S fut. P S \<Longrightarrow> P (settle accepts now fut None S)"
  shows "P (close_scheduler accepts now cancels S)"
  unfolding close_scheduler_def
  by (rule fold_invariant[where Q = "\<lambda>_. True"]) (use assms in \<open>auto split: option.splits\<close>)

lemma closed_flag_ok: "scheduler_ok (S\<lparr>closed := b\<rparr>) = scheduler_ok S"
  by (simp add: scheduler_ok_def flights_registered_def)

lemma step_ok: "scheduler_step behaves S S' \<Longrightarrow> scheduler_ok S \<Longrightarrow> scheduler_ok S'"
proof (induction rule: scheduler_step.induct)
  case (closed accepts S now cancels)
  then show ?case
    by (intro close_invariant[where P = scheduler_ok]) (simp_all add: closed_flag_ok settle_ok)
qed (auto intro: observe_ok settle_ok)

lemma reachable_ok: "scheduler_reachable behaves S \<Longrightarrow> scheduler_ok S"
proof (induction rule: scheduler_reachable.induct)
  case (started fresh S)
  then show ?case
    by (auto simp: new_scheduler_def scheduler_ok_def flights_registered_def state_of_def split: if_splits)
qed (rule step_ok)

subsection \<open>What a reader of the results sees\<close>

text \<open>C21. One solve at a time per component: in every state the scheduler can reach, whatever the solver server answers
  and in whatever order observations, completions and \<open>close\<close> come, at most one future waits per component, a
  replacement is pending only while a solve is in flight, and a recorded result carries the id of its component and the
  fingerprint of the input that counts as solved.\<close>

theorem one_solve_per_component:
  assumes "scheduler_reachable behaves S"
  shows "distinct (map (\<lambda>cb. fst (snd cb)) (callbacks S))
    \<and> (\<forall>key st. state_of S key = Some st \<longrightarrow>
         (pending st \<noteq> None \<longrightarrow> in_flight st \<noteq> None)
         \<and> last_solved_fingerprint st = map_option result_fingerprint (latest_result st)
         \<and> (\<forall>r. latest_result st = Some r \<longrightarrow> result_component_id r = key))"
proof -
  have ok: "scheduler_ok S"
    using assms by (rule reachable_ok)
  have "x = y" if "x \<in> set (callbacks S)" "y \<in> set (callbacks S)" "fst (snd x) = fst (snd y)" for x y
    using ok that by (cases x; cases y) (auto simp: scheduler_ok_def flights_registered_def)
  moreover have "distinct (callbacks S)"
    using ok by (auto simp: scheduler_ok_def flights_registered_def distinct_map)
  ultimately have "distinct (map (\<lambda>cb. fst (snd cb)) (callbacks S))"
    by (auto simp: distinct_map inj_on_def)
  then show ?thesis
    using ok by (auto simp: scheduler_ok_def component_ok_def pending_matches_def result_matches_def)
qed

subsection \<open>The newest snapshot is solved\<close>

definition always_accepts :: "server \<Rightarrow> bool" where
  "always_accepts accepts \<longleftrightarrow> (\<forall>c s. accepts c s)"

definition all_track :: "SnapshotScheduler \<Rightarrow> bool" where
  "all_track S \<longleftrightarrow> (\<forall>key st. state_of S key = Some st \<longrightarrow> tracks_newest st)"

lemma all_track_set_state: "all_track S \<Longrightarrow> tracks_newest st \<Longrightarrow> all_track (set_state key st S)"
  by (simp add: all_track_def)

lemma all_track_closed: "all_track (S\<lparr>closed := b\<rparr>) = all_track S"
  by (simp add: all_track_def)

lemma noticed_fields [simp]:
  "latest_fingerprint (noticed s current known) = Some current" "latest_snapshot (noticed s current known) = Some s"
  by (simp_all add: noticed_def)

lemma dispatch_tracks:
  assumes "all_track S" "latest_fingerprint st = Some current"
  shows "all_track (snd (dispatch accepts now c s current key st S))"
  using assms by (auto simp: all_track_def dispatch_states tracks_newest_def)

lemma observe_tracks:
  assumes track: "all_track S" and run: "observe_snapshot accepts now c s S = Inr (word, S')"
  shows "all_track S'"
  using run
proof (cases rule: observe_cases)
  case shut
  then show ?thesis
    using track by simp
next
  case (same_result current st)
  then show ?thesis
    using track by (auto intro!: all_track_set_state simp: tracks_newest_def refresh_order_ready_keeps)
next
  case (same_flight current st fut)
  then show ?thesis
    using track by (auto intro!: all_track_set_state simp: tracks_newest_def)
next
  case (replaced current st fut flying)
  then show ?thesis
    using track by (auto intro!: all_track_set_state simp: tracks_newest_def)
next
  case (started current st)
  then show ?thesis
    using track by (auto intro!: dispatch_tracks)
qed

lemma all_track_landed:
  assumes "all_track S" "last_solved_fingerprint st = latest_fingerprint st"
  shows "all_track (landed fut key st S)"
  using assms by (simp add: all_track_def landed_state tracks_newest_def)

lemma settle_tracks:
  assumes ok: "scheduler_ok S" and track: "all_track S" and server: "always_accepts accepts"
  shows "all_track (settle accepts now fut out S)"
proof (cases "\<exists>key st fp. state_of S key = Some st \<and> in_flight st = Some (fut, fp)")
  case False
  then have "settle accepts now fut out S = S"
    by (intro settle_unknown[OF ok]) blast
  then show ?thesis
    using track by simp
next
  case True
  then obtain key st input where st: "state_of S key = Some st" "in_flight st = Some (fut, input)"
    by blast
  obtain status bound where res: "completed_status out = (status, bound)"
    by (cases "completed_status out")
  note run = settle_flight[OF ok st, of accepts now out, unfolded Let_def res prod.case]
  have others: "tracks_newest st'" if "state_of S k = Some st'" for k st'
    using track that by (simp add: all_track_def)
  have known: "component_ok key st" "tracks_newest st"
    using ok st others by (auto simp: scheduler_ok_def)
  show ?thesis
  proof (cases "latest_fingerprint st = Some input")
    case True
    then show ?thesis
      using others unfolding run by (simp add: all_track_def landed_state tracks_newest_def)
  next
    case False
    show ?thesis
    proof (cases "pending st")
      case None
      then have "last_solved_fingerprint st = latest_fingerprint st"
        using known(2) False st by (auto simp: tracks_newest_def)
      then show ?thesis
        using None False all_track_landed[OF track] by (simp add: run)
    next
      case (Some cs)
      then obtain c s current where cs: "pending st = Some (c, s)" "economic_fingerprint s = Inr current"
        using known(1) by (cases cs) (auto simp: component_ok_def pending_matches_def economic_fingerprint_def)
      then have "last_solved_fingerprint st = latest_fingerprint st \<or> latest_fingerprint st = Some current"
        using known(2) False st by (auto simp: tracks_newest_def)
      then show ?thesis
        using False cs others server
        by (auto simp: run all_track_def dispatch_states landed_state always_accepts_def tracks_newest_def split: if_splits)
    qed
  qed
qed

lemma reachable_tracks:
  assumes "scheduler_reachable always_accepts S"
  shows "all_track S"
  using assms
proof (induction rule: scheduler_reachable.induct)
  case (started fresh S)
  then show ?case
    by (auto simp: new_scheduler_def all_track_def state_of_def split: if_splits)
next
  case (stepped S S')
  have ok: "scheduler_ok S"
    using stepped.hyps(1) by (rule reachable_ok)
  from stepped.hyps(2) show ?case
  proof (cases rule: scheduler_step.cases)
    case (closed accepts now cancels)
    have "scheduler_ok (close_scheduler accepts now cancels S) \<and> all_track (close_scheduler accepts now cancels S)"
      using ok stepped.IH closed(2)
      by (intro close_invariant[where P = "\<lambda>S. scheduler_ok S \<and> all_track S"])
        (simp_all add: closed_flag_ok settle_ok settle_tracks all_track_closed)
    then show ?thesis
      using closed(1) by simp
  qed (use ok stepped.IH in \<open>auto intro: observe_tracks settle_tracks\<close>)
qed

text \<open>The solve a component waits for, if any, completes.\<close>

definition await :: "server \<Rightarrow> instant \<Rightarrow> string \<Rightarrow> WorkerOutcome option \<Rightarrow> SnapshotScheduler \<Rightarrow> SnapshotScheduler" where
  "await accepts now key out S =
     (case Option.bind (state_of S key) in_flight of
        Some (fut, _) \<Rightarrow> settle accepts now fut out S
      | None \<Rightarrow> S)"

lemma await_state:
  assumes ok: "scheduler_ok S" and st: "state_of S key = Some st"
  obtains st' where "state_of (await accepts now key out S) key = Some st'" "latest_snapshot st' = latest_snapshot st"
    "latest_fingerprint st' = latest_fingerprint st" "pending st' = None" "pending st = None \<Longrightarrow> in_flight st' = None"
proof (cases "in_flight st")
  case None
  then show thesis
    using that[of st] st idle_pending[of key st] ok by (auto simp: await_def scheduler_ok_def)
next
  case (Some flight)
  then obtain fut input where fl: "in_flight st = Some (fut, input)"
    by (cases flight) simp
  obtain status bound where res: "completed_status out = (status, bound)"
    by (cases "completed_status out")
  note run = settle_flight[OF ok st fl, of accepts now out, unfolded Let_def res prod.case]
  have "await accepts now key out S = settle accepts now fut out S"
    by (simp add: await_def st fl)
  then show thesis
    using that unfolding run
    by (cases "latest_fingerprint st = Some input"; cases "pending st")
      (auto simp: landed_state dispatch_states split: sum.splits)
qed

lemma await_reachable:
  assumes "scheduler_reachable behaves S" "behaves accepts"
  shows "scheduler_reachable behaves (await accepts now key out S)"
  using assms by (auto simp: await_def split: option.splits intro: scheduler_reachable.stepped scheduler_step.settled)

text \<open>C22. The newest snapshot wins: as long as the solver server takes every request, two completions after any history
  leave a component idle, with a recorded result whose fingerprint is that of the newest snapshot seen, whatever the
  two solves return and however many snapshots arrived while they ran.\<close>

theorem newest_snapshot_is_solved:
  assumes "scheduler_reachable always_accepts S" "always_accepts accepts" "state_of S key = Some st"
  shows "\<exists>st' r s. state_of (await accepts now' key out' (await accepts now key out S)) key = Some st' \<and> in_flight st' = None
    \<and> latest_snapshot st' = latest_snapshot st \<and> latest_snapshot st' = Some s
    \<and> latest_result st' = Some r \<and> economic_fingerprint s = Inr (result_fingerprint r)"
proof -
  let ?S1 = "await accepts now key out S"
  let ?S2 = "await accepts now' key out' ?S1"
  have r1: "scheduler_reachable always_accepts ?S1" and r2: "scheduler_reachable always_accepts ?S2"
    using assms(1,2) await_reachable by blast+
  obtain st1 where st1: "state_of ?S1 key = Some st1" "latest_snapshot st1 = latest_snapshot st" "pending st1 = None"
    using await_state[OF reachable_ok[OF assms(1)] assms(3)] by metis
  obtain st2 where st2: "state_of ?S2 key = Some st2" "latest_snapshot st2 = latest_snapshot st1" "in_flight st2 = None"
    using await_state[OF reachable_ok[OF r1] st1(1)] st1(3) by metis
  have "component_ok key st2" "tracks_newest st2"
    using reachable_ok[OF r2] reachable_tracks[OF r2] st2(1) by (auto simp: scheduler_ok_def all_track_def)
  then show ?thesis
    using st1 st2 by (auto simp: component_ok_def snapshot_matches_def result_matches_def tracks_newest_def)
qed

subsection \<open>A concrete run, and the replacement that outlives its snapshot\<close>

definition lone_component :: SelectedComponent where
  "lone_component = \<lparr>component_id = ''k'', component_contract_ids = [''A''], component_constraint_ids = [], component_action_ids = [''a''],
     admission_score = 1, component_portfolio = [], relation_fingerprint = [], terminal_fingerprint = [],
     component_portfolio_fingerprint = [], component_status = ''ACTIVE''\<rparr>"

lemma lone_component_id [simp]: "component_id lone_component = ''k''"
  by (simp add: lone_component_def)

definition one_leg :: "SnapshotLeg \<Rightarrow> ComponentSnapshot" where
  "one_leg l = \<lparr>snapshot_component_id = ''k'', snapshot_legs = [l]\<rparr>"

definition leg_economics_id :: "SnapshotLeg \<Rightarrow> string" where
  "leg_economics_id l = fingerprint (JObj [(''component_id'', JStr ''k''), (''legs'', JList [leg_economics l])])"

lemma one_leg_fingerprint [simp]: "economic_fingerprint (one_leg l) = Inr (leg_economics_id l)"
  by (simp add: economic_fingerprint_def one_leg_def leg_economics_id_def)

definition pull :: "bool \<Rightarrow> SnapshotLeg \<Rightarrow> SnapshotScheduler \<Rightarrow> SnapshotScheduler" where
  "pull taken l S = snd (refresh (\<lambda>_ _. taken) 0 (\<lambda>_. Some (one_leg l)) [lone_component] [] S)"

lemma pull_reachable:
  assumes "scheduler_reachable behaves S" "behaves (\<lambda>_ _. taken)"
  shows "scheduler_reachable behaves (pull taken l S)"
proof (cases "observe_snapshot (\<lambda>_ _. taken) 0 lone_component (one_leg l) S")
  case (Inl e)
  then show ?thesis
    using assms by (simp add: pull_def)
next
  case (Inr res)
  then show ?thesis
    using assms by (cases res) (auto simp: pull_def intro: scheduler_reachable.stepped scheduler_step.observed)
qed

definition sample_scheduler :: SnapshotScheduler where
  "sample_scheduler = \<lparr>freshness = 30, states = [], closed = False, next_future = 0, callbacks = []\<rparr>"

lemma sample_started: "scheduler_reachable behaves sample_scheduler"
  by (rule scheduler_reachable.started[of 30]) (simp add: new_scheduler_def sample_scheduler_def)

text \<open>
  A first snapshot is solved; while the second is being solved a third arrives and becomes pending; then the books go
  back to the first. It counts as solved, so nothing is dispatched, but the third stays pending. When the second solve
  completes, the third is dispatched; if the server refuses it, an unknown result for it replaces the result of the
  newest snapshot.
\<close>

definition superseded_run :: "SnapshotLeg \<Rightarrow> SnapshotLeg \<Rightarrow> SnapshotLeg \<Rightarrow> WorkerOutcome \<Rightarrow> SnapshotScheduler" where
  "superseded_run first second third out =
     settle (\<lambda>_ _. False) 0 1 (Some out)
       (pull True first (pull True third (pull True second (settle (\<lambda>_ _. True) 0 0 (Some out) (pull True first sample_scheduler)))))"

lemma one_leg_component [simp]: "snapshot_component_id (one_leg l) = ''k''"
  by (simp add: one_leg_def)

text \<open>A scheduler that knows one component, and what the operations of the run make of it.\<close>

definition lone :: "bool \<Rightarrow> ComponentState \<Rightarrow> nat \<Rightarrow> (future \<times> string \<times> string) list \<Rightarrow> SnapshotScheduler" where
  "lone shut st n cbs = \<lparr>freshness = 30, states = [(''k'', st)], closed = shut, next_future = n, callbacks = cbs\<rparr>"

lemma lone_simps [simp]:
  "state_of (lone shut st n cbs) ''k'' = Some st" "set_state ''k'' st' (lone shut st n cbs) = lone shut st' n cbs" "callbacks (lone shut st n cbs) = cbs"
  "next_future (lone shut st n cbs) = n" "closed (lone shut st n cbs) = shut" "freshness (lone shut st n cbs) = 30" "states (lone shut st n cbs) = [(''k'', st)]"
  "(lone shut st n cbs)\<lparr>next_future := n'\<rparr> = lone shut st n' cbs" "(lone shut st n cbs)\<lparr>callbacks := cbs'\<rparr> = lone shut st n cbs'"
  "(lone shut st n cbs)\<lparr>closed := b\<rparr> = lone b st n cbs"
  by (simp_all add: lone_def state_of_def set_state_def)

lemma pull_new: "pull True l sample_scheduler = lone False ((noticed (one_leg l) (leg_economics_id l) None)\<lparr>in_flight := Some (0, leg_economics_id l)\<rparr>)
    1 [(0, ''k'', leg_economics_id l)]"
  by (simp add: pull_def observe_snapshot_def dispatch_def sample_scheduler_def state_of_def set_state_def lone_def
      noticed_def new_state_def)

lemma pull_lone:
  assumes "st' = st\<lparr>latest_snapshot := Some (one_leg l), latest_fingerprint := Some (leg_economics_id l)\<rparr>"
  shows "last_solved_fingerprint st = Some (leg_economics_id l) \<Longrightarrow> pull taken l (lone False st n cbs) = lone False (refresh_order_ready 0 30 st') n cbs"
    "last_solved_fingerprint st \<noteq> Some (leg_economics_id l) \<Longrightarrow> in_flight st = Some (f, fp) \<Longrightarrow> fp \<noteq> leg_economics_id l
       \<Longrightarrow> pull taken l (lone False st n cbs) = lone False (st'\<lparr>pending := Some (lone_component, one_leg l)\<rparr>) n cbs"
    "last_solved_fingerprint st \<noteq> Some (leg_economics_id l) \<Longrightarrow> in_flight st = None
       \<Longrightarrow> pull True l (lone False st n cbs) = lone False (st'\<lparr>in_flight := Some (n, leg_economics_id l)\<rparr>) (Suc n) (cbs @ [(n, ''k'', leg_economics_id l)])"
  using assms by (simp_all add: pull_def observe_snapshot_def dispatch_def noticed_def)

lemma settle_lone:
  assumes "in_flight st = Some (f, input)" "st' = st\<lparr>in_flight := None, pending := None\<rparr>"
  shows "latest_fingerprint st = Some input
      \<Longrightarrow> \<exists>r. settle accepts now f out (lone shut st n [(f, ''k'', input)]) = lone shut (st'\<lparr>last_solved_fingerprint := Some input, latest_result := Some r\<rparr>) n []"
    "latest_fingerprint st \<noteq> Some input \<Longrightarrow> pending st = Some (lone_component, one_leg l) \<Longrightarrow> taken = accepts lone_component (one_leg l)
      \<Longrightarrow> settle accepts now f out (lone shut st n [(f, ''k'', input)])
        = snd (dispatch (\<lambda>_ _. taken) now lone_component (one_leg l) (leg_economics_id l) ''k'' st' (lone shut st n []))"
  using assms by (auto simp: settle_def completed_def dispatch_def split: prod.splits)

text \<open>C23. A refused replacement overwrites the newest result: in the run above, unless two of the three fingerprints
  collide, the newest snapshot is the first one, which has been solved, yet the recorded result is \<open>unknown\<close> and belongs
  to the third snapshot, which nobody asks about any more.\<close>

theorem superseded_replacement_overwrites:
  "leg_economics_id first = leg_economics_id second \<or> leg_economics_id second = leg_economics_id third
   \<or> leg_economics_id third = leg_economics_id first
   \<or> (\<exists>st r. state_of (superseded_run first second third out) ''k'' = Some st
        \<and> latest_snapshot st = Some (one_leg first) \<and> in_flight st = None
        \<and> latest_result st = Some r \<and> result_status r = Unknown \<and> result_fingerprint r = leg_economics_id third)"
proof (cases "leg_economics_id first = leg_economics_id second \<or> leg_economics_id second = leg_economics_id third
   \<or> leg_economics_id third = leg_economics_id first")
  case False
  obtain r where solved: "settle (\<lambda>_ _. True) 0 0 (Some out) (pull True first sample_scheduler)
      = lone False ((noticed (one_leg first) (leg_economics_id first) None)\<lparr>in_flight := None, pending := None,
          last_solved_fingerprint := Some (leg_economics_id first), latest_result := Some r\<rparr>) 1 []"
    using settle_lone(1)[of "(noticed (one_leg first) (leg_economics_id first) None)\<lparr>in_flight := Some (0, leg_economics_id first)\<rparr>" 0
        "leg_economics_id first", OF _ refl, where accepts = "\<lambda>_ _. True" and now = 0 and out = "Some out" and shut = False and n = 1]
    unfolding pull_new by auto
  have "leg_economics_id first \<noteq> leg_economics_id third"
    using False by metis
  then show ?thesis
    using False unfolding superseded_run_def solved
    by (simp add: pull_lone[OF refl] settle_lone(2)[OF _ refl] refresh_order_ready_def dispatch_def noticed_def new_state_def)
qed blast

text \<open>\<open>close\<close> cancels the solve in flight, whose callback then submits the pending replacement to the solver server.\<close>

lemma closing_submits_replacement:
  "leg_economics_id first = leg_economics_id second
   \<or> (let S = close_scheduler (\<lambda>_ _. True) 0 (\<lambda>_. True) (pull True second (pull True first sample_scheduler)) in
      closed S \<and> callbacks S = [(1, ''k'', leg_economics_id second)])"
proof (cases "leg_economics_id first = leg_economics_id second")
  case False
  then show ?thesis
    unfolding pull_new
    by (simp add: pull_lone[OF refl] close_scheduler_def noticed_def new_state_def settle_lone(2)[OF _ refl] dispatch_def)
qed simp

subsection \<open>Witnesses\<close>

definition sample_leg :: SnapshotLeg where
  "sample_leg = \<lparr>leg_id = ''a'', leg_book = \<lparr>bids = [], asks = [\<lparr>level_price = Finite False 42 (- 2), level_size = Finite False 5 0\<rparr>],
     taker_fee_bps = None, book_available = True, book_convention = GENERIC_BOOK_CONVENTION\<rparr>,
     received_at = Some 0, exchange_time = Some 0, leg_sequence = Some 1\<rparr>"

lemma sample_pulled:
  "scheduler_reachable always_accepts (pull True sample_leg sample_scheduler)"
  "\<exists>st. state_of (pull True sample_leg sample_scheduler) ''k'' = Some st \<and> in_flight st = Some (0, leg_economics_id sample_leg)
     \<and> latest_snapshot st = Some (one_leg sample_leg)"
  by (auto intro!: pull_reachable sample_started simp: always_accepts_def) (simp add: pull_new)

theorem one_solve_per_component_witness:
  "distinct (map (\<lambda>cb. fst (snd cb)) (callbacks (pull True sample_leg sample_scheduler)))"
  using one_solve_per_component[OF sample_pulled(1)] by blast

theorem newest_snapshot_is_solved_witness:
  "\<exists>st r. state_of (await (\<lambda>_ _. True) 0 ''k'' None (await (\<lambda>_ _. True) 0 ''k'' None (pull True sample_leg sample_scheduler))) ''k'' = Some st
     \<and> in_flight st = None \<and> latest_result st = Some r \<and> result_fingerprint r = leg_economics_id sample_leg"
proof -
  obtain st where st: "state_of (pull True sample_leg sample_scheduler) ''k'' = Some st" "latest_snapshot st = Some (one_leg sample_leg)"
    using sample_pulled(2) by blast
  have "always_accepts (\<lambda>_ _. True)"
    by (simp add: always_accepts_def)
  then show ?thesis
    using newest_snapshot_is_solved[OF sample_pulled(1) _ st(1), of "\<lambda>_ _. True" 0 None 0 None] st(2) by auto
qed

end
