(* ===== verification/Book_Cost.thy ===== *)
theory Book_Cost
  imports Oracle_Eval Snapshot_Scheduler
begin

section \<open>Executable cost slices from a book\<close>

text \<open>
  \<open>cost_slices_from_book\<close> of \<^verbatim>\<open>prediction_market_solution.py\<close>, with the decimal arithmetic it uses: products and quotients
  of \<open>Decimal\<close> are rounded to 28 significant digits, half to even, in the default context (exponents from
  \<open>- 999999\<close> to \<open>999999\<close>, subnormal results down to \<open>- 1000026\<close>; overflow, an invalid comparison and a division by
  zero raise an \<open>ArithmeticError\<close>). The taker fee is computed with exact fractions.

  The theorems say that the slices price the lots of the book one by one, best level first, and that the price of a
  lot bounds what any fill at or below the price of its level can cost, the taker fee included.
\<close>

subsection \<open>Decimal arithmetic\<close>

definition pow10 :: "int \<Rightarrow> rat" where
  "pow10 e = 10 powi e"

text \<open>The exponent of the leading digit of a positive number.\<close>

definition adjusted :: "rat \<Rightarrow> int" where
  "adjusted x =
     (let (n, d) = quotient_of x;
          k = int (length (string_of_nat (nat n))) - int (length (string_of_nat (nat d)))
      in if pow10 k \<le> x then k else k - 1)"

definition half_even :: "rat \<Rightarrow> int" where
  "half_even x =
     (let q = \<lfloor>x\<rfloor>; r = x - of_int q in
      if r < 1 / 2 then q else if 1 / 2 < r then q + 1 else if even q then q else q + 1)"

definition PRECISION :: int where
  "PRECISION = 28"

definition EMAX :: int where
  "EMAX = 999999"

definition ETINY :: int where
  "ETINY = - 1000026"

definition dec_round :: "rat \<Rightarrow> rat" where
  "dec_round x =
     (if x = 0 then 0
      else
        let e = max (adjusted \<bar>x\<bar> - (PRECISION - 1)) ETINY
        in (if x < 0 then - 1 else 1) * of_int (half_even (\<bar>x\<bar> / pow10 e)) * pow10 e)"

definition dec_result :: "rat \<Rightarrow> rat result" where
  "dec_result x =
     (let y = dec_round x in
      if y \<noteq> 0 \<and> EMAX < adjusted \<bar>y\<bar> then Inl ArithmeticError else Inr y)"

definition dec_times :: "rat \<Rightarrow> rat \<Rightarrow> rat result" where
  "dec_times x y = dec_result (x * y)"

definition dec_divide :: "rat \<Rightarrow> rat \<Rightarrow> rat result" where
  "dec_divide x y = (if y = 0 then Inl ArithmeticError else dec_result (x / y))"

subsection \<open>The slices\<close>

definition PPM :: int where
  "PPM = 1000000"

text \<open>\<open>//\<close> raises on a zero divisor.\<close>

definition ceil_quotient :: "int \<Rightarrow> int \<Rightarrow> int result" where
  "ceil_quotient v d = (if d = 0 then Inl ArithmeticError else Inr ((v + d - 1) div d))"

definition ceil_fraction :: "rat \<Rightarrow> int" where
  "ceil_fraction x = (let (n, d) = quotient_of x in - (- n div d))"

text \<open>The keyword arguments; \<open>common_units_per_dollar\<close> is the price units when it is not given.\<close>

record pricing =
  price_fee_ppm :: int
  haircut_ppm :: int
  price_tick_units :: int
  price_units_per_quote_unit :: int
  common_units_per_dollar :: int

definition default_pricing :: "int \<Rightarrow> pricing" where
  "default_pricing units = \<lparr>price_fee_ppm = 0, haircut_ppm = 0, price_tick_units = 0, price_units_per_quote_unit = units,
     common_units_per_dollar = units\<rparr>"

text \<open>\<open>value <= 0\<close>, which raises on a not-a-number.\<close>

definition not_positive :: "decimal \<Rightarrow> bool result" where
  "not_positive d =
     (case d of
        NonFinite name \<Rightarrow>
          if name = ''Infinity'' then Inr False else if name = ''-Infinity'' then Inr True else Inl ArithmeticError
      | Finite _ _ _ \<Rightarrow> Inr (decimal_value d \<le> 0))"

definition level_numbers :: "BookLevel \<Rightarrow> (rat \<times> rat) result" where
  "level_numbers l =
     (let refuse = Inl (ValueError ''malformed book level'') in
      rbind (not_positive (level_price l)) (\<lambda>bad_price.
      if bad_price then refuse
      else
        rbind (not_positive (level_size l)) (\<lambda>bad_size.
        if bad_size \<or> \<not> is_finite (level_price l) \<or> \<not> is_finite (level_size l) then refuse
        else Inr (decimal_value (level_price l), decimal_value (level_size l)))))"

definition book_levels :: "CandidateAction \<Rightarrow> LegBook \<Rightarrow> BookLevel list result" where
  "book_levels a b =
     (if book_convention b = OUTCOME_TOKEN_BOOK_CONVENTION then Inr (asks b)
      else if book_convention b = GENERIC_BOOK_CONVENTION then Inr (if side a = BUY_NO then bids b else asks b)
      else Inl (ValueError (''unsupported book convention: '' @ book_convention b)))"

definition book_fee_rate :: "LegBook \<Rightarrow> rat option" where
  "book_fee_rate b =
     (case taker_fee_bps b of
        Some d \<Rightarrow> if is_finite d \<and> 0 < decimal_value d then Some (decimal_value d / 10000) else None
      | None \<Rightarrow> None)"

definition level_lots :: "CandidateAction \<Rightarrow> rat \<Rightarrow> int result" where
  "level_lots a sz =
     rbind (dec_times sz (of_int (quantity_scale a))) (\<lambda>scaled.
     rbind (dec_divide scaled (of_int (lot_step_units a))) (\<lambda>lots. Inr \<lfloor>lots\<rfloor>))"

definition protected_price :: "pricing \<Rightarrow> rat \<Rightarrow> int result" where
  "protected_price f p =
     rbind (dec_times p (of_int (price_units_per_quote_unit f))) (\<lambda>units. Inr (\<lceil>units\<rceil> + price_tick_units f))"

definition taker_fee :: "CandidateAction \<Rightarrow> pricing \<Rightarrow> rat option \<Rightarrow> int \<Rightarrow> int" where
  "taker_fee a f rate protected =
     (case rate of
        None \<Rightarrow> 0
      | Some r \<Rightarrow>
          ceil_fraction (r * of_int protected * of_int (price_units_per_quote_unit f - protected)
            / of_int (price_units_per_quote_unit f) * (of_int (lot_step_units a) / of_int (quantity_scale a))
            * of_int (common_units_per_dollar f) / of_int (price_units_per_quote_unit f)))"

text \<open>The cost of one lot; the divisors of the fee were divisors before.\<close>

definition unit_cost :: "CandidateAction \<Rightarrow> pricing \<Rightarrow> rat option \<Rightarrow> int \<Rightarrow> int result" where
  "unit_cost a f rate protected =
     rbind (ceil_quotient (protected * lot_step_units a) (quantity_scale a)) (\<lambda>venue_cost.
     rbind (ceil_quotient (venue_cost * common_units_per_dollar f) (price_units_per_quote_unit f)) (\<lambda>common_cost.
     rbind (ceil_quotient (common_cost * price_fee_ppm f) PPM) (\<lambda>fee.
     let taker = taker_fee a f rate protected in
     rbind (ceil_quotient ((common_cost + fee + taker) * haircut_ppm f) PPM) (\<lambda>haircut.
     Inr (common_cost + fee + taker + haircut)))))"

text \<open>What one level gives: nothing when it is smaller than a lot, else its lots and the cost of each.\<close>

definition level_offer :: "CandidateAction \<Rightarrow> pricing \<Rightarrow> rat option \<Rightarrow> BookLevel \<Rightarrow> (int \<times> int) option result" where
  "level_offer a f rate l =
     rbind (level_numbers l) (\<lambda>(p, sz).
     rbind (level_lots a sz) (\<lambda>lots.
     if lots \<le> 0 then Inr None
     else
       rbind (protected_price f p) (\<lambda>protected.
       rbind (unit_cost a f rate protected) (\<lambda>cost. Inr (Some (lots, cost))))))"

definition add_slice :: "ExecutableCostSlice list \<Rightarrow> int \<Rightarrow> int \<Rightarrow> int \<Rightarrow> ExecutableCostSlice list" where
  "add_slice slices first lst cost =
     (if slices \<noteq> [] \<and> incremental_cost_upper_bound_units (last slices) = cost \<and> last_lot (last slices) + 1 = first
      then butlast slices @ [\<lparr>first_lot = first_lot (last slices), last_lot = lst, incremental_cost_upper_bound_units = cost\<rparr>]
      else slices @ [\<lparr>first_lot = first, last_lot = lst, incremental_cost_upper_bound_units = cost\<rparr>])"

fun walk_levels ::
  "CandidateAction \<Rightarrow> pricing \<Rightarrow> rat option \<Rightarrow> BookLevel list \<Rightarrow> int \<Rightarrow> ExecutableCostSlice list \<Rightarrow> ExecutableCostSlice list result" where
  "walk_levels a f rate [] first slices = Inr slices"
| "walk_levels a f rate (l # ls) first slices =
     rbind (level_offer a f rate l) (\<lambda>off.
     case off of
       None \<Rightarrow> walk_levels a f rate ls first slices
     | Some (lots, cost) \<Rightarrow>
         let lst = min (max_quantity_lots a) (first + lots - 1);
             slices' = add_slice slices first lst cost
         in if lst = max_quantity_lots a then Inr slices' else walk_levels a f rate ls (lst + 1) slices')"

definition cost_slices_from_book :: "CandidateAction \<Rightarrow> LegBook \<Rightarrow> pricing \<Rightarrow> ExecutableCostSlice list result" where
  "cost_slices_from_book a b f =
     rbind (book_levels a b) (\<lambda>levels. walk_levels a f (book_fee_rate b) levels 1 [])"

subsection \<open>Rounding\<close>

lemma pow10_pos [simp]: "0 < pow10 e"
  by (simp add: pow10_def)

lemma pow10_nonzero [simp]: "pow10 e \<noteq> 0"
  by (simp add: pow10_def)

lemma pow10_add: "pow10 (a + b) = pow10 a * pow10 b"
  by (simp add: pow10_def power_int_add)

lemma pow10_diff: "pow10 (a - b) = pow10 a / pow10 b"
  by (simp add: pow10_def power_int_diff)

lemma pow10_nat: "pow10 (int n) = 10 ^ n"
  by (simp add: pow10_def)

lemma pow10_less_iff [simp]: "pow10 a < pow10 b \<longleftrightarrow> a < b"
proof
  show "pow10 a < pow10 b \<Longrightarrow> a < b"
    unfolding pow10_def using power_int_increasing[of b a "10 :: rat"] by (auto simp: not_less[symmetric])
  show "a < b \<Longrightarrow> pow10 a < pow10 b"
    unfolding pow10_def by (rule power_int_strict_increasing) auto
qed

lemma decimal_value_pow10: "decimal_value (Finite negative c e) = (if negative then - 1 else 1) * of_nat c * pow10 e"
  by (simp add: pow10_def power_int_def field_simps)

lemma string_of_nat_upper: "n < 10 ^ length (string_of_nat n)"
proof (induction n rule: string_of_nat.induct)
  case (1 n)
  show ?case
  proof (cases "n < 10")
    case False
    have "n < (n div 10 + 1) * 10"
      by simp
    also have "\<dots> \<le> 10 ^ length (string_of_nat (n div 10)) * 10"
      using 1 False by (intro mult_right_mono) auto
    finally show ?thesis
      using False by (subst string_of_nat.simps) simp
  qed (subst string_of_nat.simps, simp)
qed

lemma string_of_nat_lower: "0 < n \<Longrightarrow> 10 ^ length (string_of_nat n) \<le> 10 * n"
proof (induction n rule: string_of_nat.induct)
  case (1 n)
  show ?case
  proof (cases "n < 10")
    case False
    then have "10 ^ length (string_of_nat (n div 10)) \<le> 10 * (n div 10)"
      using 1 by simp
    also have "\<dots> \<le> n"
      by simp
    finally show ?thesis
      using False by (subst string_of_nat.simps) simp
  qed (use 1 in \<open>subst string_of_nat.simps, simp\<close>)
qed

text \<open>\<open>adjusted\<close> does not exceed the exponent of the leading digit.\<close>

lemma adjusted_lower:
  assumes "0 < x"
  shows "pow10 (adjusted x) \<le> x"
proof -
  obtain n d where q: "quotient_of x = (n, d)"
    by (cases "quotient_of x")
  have x: "x = of_int n / of_int d" and d: "0 < d" and n: "0 < n"
    using quotient_of_div[OF q] quotient_of_denom_pos[OF q] assms by (auto simp: zero_less_divide_iff)
  let ?n = "nat n" and ?d = "nat d"
  let ?k = "int (length (string_of_nat ?n)) - int (length (string_of_nat ?d))"
  have "(10::rat) ^ length (string_of_nat ?n) \<le> 10 * of_nat ?n"
    using string_of_nat_lower[of ?n] n by (metis of_nat_le_iff of_nat_mult of_nat_numeral of_nat_power zero_less_nat_eq)
  moreover have "of_nat ?d < (10::rat) ^ length (string_of_nat ?d)"
    using string_of_nat_upper[of ?d] by (metis of_nat_less_iff of_nat_numeral of_nat_power)
  ultimately have "(10::rat) ^ length (string_of_nat ?n) * of_nat ?d \<le> 10 * of_nat ?n * 10 ^ length (string_of_nat ?d)"
    by (intro mult_mono) auto
  then have "pow10 ?k * of_nat ?d \<le> 10 * of_nat ?n"
    by (simp add: pow10_diff pow10_nat field_simps)
  then have "pow10 ?k * of_int d \<le> 10 * of_int n"
    using n d by simp
  moreover have step: "pow10 (?k - 1) = pow10 ?k / 10"
    by (simp only: pow10_diff[of ?k 1]) (simp add: pow10_def)
  ultimately have "pow10 (?k - 1) \<le> x"
    unfolding step x using d by (simp add: divide_le_eq le_divide_eq mult.commute)
  then show ?thesis
    by (simp add: adjusted_def q Let_def)
qed

lemma half_even_of_int [simp]: "half_even (of_int n) = n"
  by (simp add: half_even_def)

text \<open>A number with at most 28 digits is not rounded.\<close>

lemma dec_round_exact:
  assumes "\<bar>n\<bar> < 10 ^ 28" "ETINY \<le> e"
  shows "dec_round (of_int n * pow10 e) = of_int n * pow10 e"
proof (cases "n = 0")
  case False
  let ?x = "of_int \<bar>n\<bar> * pow10 e"
  have x: "\<bar>of_int n * pow10 e\<bar> = ?x" "0 < ?x"
    using False by (simp_all add: abs_mult abs_of_pos)
  have "?x < pow10 28 * pow10 e"
    using assms(1) by (intro mult_strict_right_mono) (simp_all add: pow10_def flip: of_int_less_iff[where 'a = rat])
  then have "pow10 (adjusted ?x) < pow10 (28 + e)"
    using adjusted_lower[OF x(2)] unfolding pow10_add by (rule order_le_less_trans[rotated])
  then have "max (adjusted ?x - (PRECISION - 1)) ETINY \<le> e"
    using assms(2) by (simp add: PRECISION_def)
  define q where "q = max (adjusted ?x - (PRECISION - 1)) ETINY"
  obtain m where m: "e = q + int m"
    using \<open>max (adjusted ?x - (PRECISION - 1)) ETINY \<le> e\<close> zle_iff_zadd unfolding q_def by auto
  have xq: "?x = of_int (\<bar>n\<bar> * 10 ^ m) * pow10 q"
    unfolding m pow10_add pow10_nat by simp
  have "?x / pow10 q = of_int (\<bar>n\<bar> * 10 ^ m)"
    unfolding xq by simp
  then have "of_int (half_even (?x / pow10 q)) * pow10 q = ?x"
    by (simp only: half_even_of_int xq)
  moreover have "(of_int n * pow10 e = 0) = False"
    using False by simp
  ultimately have "dec_round (of_int n * pow10 e) = (if of_int n * pow10 e < 0 then - 1 else 1) * ?x"
    unfolding dec_round_def Let_def x(1) q_def[symmetric] by (simp only: if_False mult.assoc)
  moreover have "of_int n * pow10 e < 0 \<longleftrightarrow> n < 0"
    using less_not_sym[OF pow10_pos[of e]] by (simp add: mult_less_0_iff)
  ultimately show ?thesis
    by (cases "n < 0") simp_all
qed (simp add: dec_round_def)

lemma dec_result_exact:
  assumes n: "\<bar>n\<bar> < 10 ^ 28" and e: "ETINY \<le> e" "e + 28 \<le> EMAX"
  shows "dec_result (of_int n * pow10 e) = Inr (of_int n * pow10 e)"
proof (cases "n = 0")
  case False
  let ?x = "of_int \<bar>n\<bar> * pow10 e"
  have x: "\<bar>of_int n * pow10 e\<bar> = ?x" "0 < ?x"
    using False by (simp_all add: abs_mult abs_of_pos)
  have "?x < pow10 28 * pow10 e"
    using n by (intro mult_strict_right_mono) (simp_all add: pow10_def flip: of_int_less_iff[where 'a = rat])
  then have "pow10 (adjusted ?x) < pow10 (28 + e)"
    using adjusted_lower[OF x(2)] unfolding pow10_add by (rule order_le_less_trans[rotated])
  then have "\<not> EMAX < adjusted ?x"
    using e(2) by simp
  then show ?thesis
    unfolding dec_result_def Let_def dec_round_exact[OF n e(1)] x(1) by simp
qed (simp add: dec_result_def dec_round_def)

subsection \<open>The slices price the book lot by lot\<close>

text \<open>The price of every lot that a list of slices covers, and the reference: the levels of the book cut into lots, best
  first, up to the number of lots asked for.\<close>

definition lot_costs :: "ExecutableCostSlice list \<Rightarrow> int list" where
  "lot_costs slices = concat (map (\<lambda>c. replicate (nat (last_lot c - first_lot c + 1)) (incremental_cost_upper_bound_units c)) slices)"

fun book_lots :: "CandidateAction \<Rightarrow> pricing \<Rightarrow> rat option \<Rightarrow> BookLevel list \<Rightarrow> nat \<Rightarrow> int list result" where
  "book_lots a f rate [] n = Inr []"
| "book_lots a f rate (l # ls) n =
     rbind (level_offer a f rate l) (\<lambda>off.
     case off of
       None \<Rightarrow> book_lots a f rate ls n
     | Some (lots, cost) \<Rightarrow>
         if n \<le> nat lots then Inr (replicate n cost)
         else rbind (book_lots a f rate ls (n - nat lots)) (\<lambda>more. Inr (replicate (nat lots) cost @ more)))"

text \<open>Contiguous, not empty and starting after \<open>previous\<close>.\<close>

fun contiguous :: "int \<Rightarrow> ExecutableCostSlice list \<Rightarrow> bool" where
  "contiguous previous [] \<longleftrightarrow> True"
| "contiguous previous (c # cs) \<longleftrightarrow> first_lot c = previous + 1 \<and> first_lot c \<le> last_lot c \<and> contiguous (last_lot c) cs"

definition covered_to :: "ExecutableCostSlice list \<Rightarrow> int" where
  "covered_to slices = (if slices = [] then 0 else last_lot (last slices))"

lemma contiguous_append:
  "contiguous previous (xs @ ys) \<longleftrightarrow> contiguous previous xs \<and> contiguous (if xs = [] then previous else last_lot (last xs)) ys"
  by (induction previous xs rule: contiguous.induct) auto

lemma lot_costs_append [simp]: "lot_costs (xs @ ys) = lot_costs xs @ lot_costs ys"
  by (simp add: lot_costs_def)

text \<open>Adding the lots \<open>first\<close> to \<open>lst\<close> at one price, merged with the last slice when the price is the same.\<close>

lemma add_slice_props:
  assumes run: "contiguous 0 slices" "covered_to slices = first - 1" and diff: "distinct_adj (map incremental_cost_upper_bound_units slices)"
    and some: "first \<le> lst"
  shows "contiguous 0 (add_slice slices first lst cost)" "covered_to (add_slice slices first lst cost) = lst"
    "distinct_adj (map incremental_cost_upper_bound_units (add_slice slices first lst cost))"
    "lot_costs (add_slice slices first lst cost) = lot_costs slices @ replicate (nat (lst - first + 1)) cost"
    "add_slice slices first lst cost \<noteq> []"
proof -
  have "contiguous 0 (add_slice slices first lst cost) \<and> covered_to (add_slice slices first lst cost) = lst
    \<and> distinct_adj (map incremental_cost_upper_bound_units (add_slice slices first lst cost))
    \<and> lot_costs (add_slice slices first lst cost) = lot_costs slices @ replicate (nat (lst - first + 1)) cost
    \<and> add_slice slices first lst cost \<noteq> []"
  proof (cases slices rule: rev_cases)
    case Nil
    then show ?thesis
      using assms by (simp add: add_slice_def covered_to_def lot_costs_def)
  next
    case (snoc xs c)
    have c: "first_lot c \<le> last_lot c" "last_lot c = first - 1"
      using run by (simp_all add: snoc contiguous_append covered_to_def)
    then have "nat (lst - first_lot c + 1) = nat (last_lot c - first_lot c + 1) + nat (lst - first + 1)"
      using some by simp
    then have "replicate (nat (lst - first_lot c + 1)) v = replicate (nat (last_lot c - first_lot c + 1)) v @ replicate (nat (lst - first + 1)) v" for v :: int
      by (simp add: replicate_add)
    then show ?thesis
      using assms c
      by (cases "incremental_cost_upper_bound_units c = cost")
        (auto simp: snoc add_slice_def contiguous_append covered_to_def lot_costs_def distinct_adj_append_iff)
  qed
  then show "contiguous 0 (add_slice slices first lst cost)" "covered_to (add_slice slices first lst cost) = lst"
    "distinct_adj (map incremental_cost_upper_bound_units (add_slice slices first lst cost))"
    "lot_costs (add_slice slices first lst cost) = lot_costs slices @ replicate (nat (lst - first + 1)) cost"
    "add_slice slices first lst cost \<noteq> []"
    by blast+
qed

definition slices_ok :: "CandidateAction \<Rightarrow> ExecutableCostSlice list \<Rightarrow> bool" where
  "slices_ok a slices \<longleftrightarrow>
     contiguous 0 slices \<and> covered_to slices \<le> max_quantity_lots a \<and> distinct_adj (map incremental_cost_upper_bound_units slices)"

lemma level_offer_positive: "level_offer a f rate l = Inr (Some (lots, cost)) \<Longrightarrow> 0 < lots"
  by (auto simp: level_offer_def split: if_splits prod.splits)

lemma walk_levels_exact:
  assumes "slices_ok a slices" "first = covered_to slices + 1" "first \<le> max_quantity_lots a"
  shows "rbind (walk_levels a f rate ls first slices) (\<lambda>s. Inr (lot_costs s))
      = rbind (book_lots a f rate ls (nat (max_quantity_lots a - first + 1))) (\<lambda>more. Inr (lot_costs slices @ more))"
    and "walk_levels a f rate ls first slices = Inr s \<Longrightarrow> slices_ok a s"
proof -
  have "rbind (walk_levels a f rate ls first slices) (\<lambda>s. Inr (lot_costs s))
      = rbind (book_lots a f rate ls (nat (max_quantity_lots a - first + 1))) (\<lambda>more. Inr (lot_costs slices @ more))
    \<and> (\<forall>s. walk_levels a f rate ls first slices = Inr s \<longrightarrow> slices_ok a s)"
    using assms
  proof (induction ls arbitrary: first slices)
    case (Cons l ls)
    show ?case
    proof (cases "level_offer a f rate l")
      case (Inr off)
      show ?thesis
      proof (cases off)
        case None
        then show ?thesis
          using Inr Cons.IH[OF Cons.prems] by simp
      next
        case (Some lc)
        then obtain lots cost where off: "level_offer a f rate l = Inr (Some (lots, cost))" and pos: "0 < lots"
          using Inr level_offer_positive by (cases lc) auto
        define lst where "lst = min (max_quantity_lots a) (first + lots - 1)"
        have lst: "first \<le> lst" "lst \<le> max_quantity_lots a"
          using Cons.prems(3) pos by (simp_all add: lst_def)
        let ?slices = "add_slice slices first lst cost"
        note added = add_slice_props[of slices first lst cost]
        have ok: "slices_ok a ?slices" and to: "covered_to ?slices = lst"
          and costs: "lot_costs ?slices = lot_costs slices @ replicate (nat (lst - first + 1)) cost"
          using added Cons.prems lst by (auto simp: slices_ok_def)
        show ?thesis
        proof (cases "lst = max_quantity_lots a")
          case True
          then have "nat (max_quantity_lots a - first + 1) \<le> nat lots"
            by (simp add: lst_def)
          then show ?thesis
            using True off ok costs by (simp add: lst_def[symmetric])
        next
          case False
          then have eq: "lst = first + lots - 1" and more: "\<not> nat (max_quantity_lots a - first + 1) \<le> nat lots"
            using pos lst by (auto simp: lst_def)
          have rest: "nat (max_quantity_lots a - first + 1) - nat lots = nat (max_quantity_lots a - (lst + 1) + 1)"
            using eq pos lst by simp
          have "nat (lst - first + 1) = nat lots"
            using eq by simp
          then show ?thesis
            using Cons.IH[OF ok, of "lst + 1"] to False lst off more rest costs
            by (simp add: lst_def[symmetric] Let_def)
              (cases "book_lots a f rate ls (nat (max_quantity_lots a - lst))"; auto)
        qed
      qed
    qed simp
  qed simp
  then show "rbind (walk_levels a f rate ls first slices) (\<lambda>s. Inr (lot_costs s))
      = rbind (book_lots a f rate ls (nat (max_quantity_lots a - first + 1))) (\<lambda>more. Inr (lot_costs slices @ more))"
    and "walk_levels a f rate ls first slices = Inr s \<Longrightarrow> slices_ok a s"
    by blast+
qed

text \<open>The slices are the book, lot by lot: expanding the slices of a book into the price of every lot gives exactly the
  levels of the book cut into lots, best level first, up to the maximum quantity of the action, and the same exception
  when a level that is reached is malformed; the slices start at lot one, are contiguous and not empty, stay within the
  maximum, and neighbours differ in price.\<close>

theorem cost_slices_exact:
  assumes "1 \<le> max_quantity_lots a"
  shows "rbind (cost_slices_from_book a b f) (\<lambda>s. Inr (lot_costs s))
      = rbind (book_levels a b) (\<lambda>ls. book_lots a f (book_fee_rate b) ls (nat (max_quantity_lots a)))
    \<and> (\<forall>s. cost_slices_from_book a b f = Inr s \<longrightarrow>
         contiguous 0 s \<and> covered_to s \<le> max_quantity_lots a \<and> distinct_adj (map incremental_cost_upper_bound_units s))"
proof (cases "book_levels a b")
  case (Inr ls)
  have "slices_ok a []"
    using assms by (simp add: slices_ok_def covered_to_def)
  note walk = walk_levels_exact[OF this, of 1 f "book_fee_rate b" ls]
  have first: "(1 :: int) = covered_to [] + 1"
    by (simp add: covered_to_def)
  show ?thesis
    using walk(1)[OF first assms] walk(2)[OF first assms] Inr
    by (simp add: cost_slices_from_book_def slices_ok_def lot_costs_def)
      (cases "book_lots a f (book_fee_rate b) ls (nat (max_quantity_lots a))"; simp)
qed (simp add: cost_slices_from_book_def)

subsection \<open>The price of a lot is an upper bound\<close>

lemma of_int_divide_upper:
  assumes "0 < d" "v \<le> w * d"
  shows "(of_int v / of_int d :: rat) \<le> of_int w"
proof -
  have "(of_int v :: rat) \<le> of_int w * of_int d"
    using assms(2) by (metis of_int_le_iff of_int_mult)
  then show ?thesis
    using assms(1) by (simp add: divide_le_eq)
qed

lemma ceil_quotient_upper:
  assumes "0 < d" "ceil_quotient v d = Inr w"
  shows "(of_int v / of_int d :: rat) \<le> of_int w"
proof -
  have "w * d + (v + d - 1) mod d = v + d - 1"
    using assms by (simp add: ceil_quotient_def) (metis div_mult_mod_eq)
  then show ?thesis
    using assms(1) pos_mod_bound[OF assms(1), of "v + d - 1"] by (intro of_int_divide_upper) linarith+
qed

lemma ceil_quotient_nonneg: "0 < d \<Longrightarrow> 0 \<le> v \<Longrightarrow> ceil_quotient v d = Inr w \<Longrightarrow> 0 \<le> w"
  by (auto simp: ceil_quotient_def pos_imp_zdiv_nonneg_iff)

lemma ceil_fraction_upper: "x \<le> of_int (ceil_fraction x)"
proof -
  obtain n d where q: "quotient_of x = (n, d)"
    by (cases "quotient_of x")
  have d: "0 < d" and x: "x = of_int n / of_int d"
    using quotient_of_denom_pos[OF q] quotient_of_div[OF q] by auto
  have "- n div d * d + - n mod d = - n" "0 \<le> - n mod d"
    using d by (simp_all add: div_mult_mod_eq)
  then have "n \<le> - (- n div d) * d"
    unfolding minus_mult_left[symmetric] by linarith
  then show ?thesis
    unfolding x by (rule order_trans[OF of_int_divide_upper[OF d]]) (simp add: ceil_fraction_def q x[symmetric])
qed

text \<open>The cost per share \<open>p + rate * p * (1 - p)\<close> grows with the price up to one, for a rate of at most one.\<close>

lemma cost_per_share_mono:
  fixes p q r :: rat
  assumes "p \<le> q" "q \<le> 1" "0 \<le> r" "r \<le> 1"
  shows "p + r * p * (1 - p) \<le> q + r * q * (1 - q)"
proof -
  have "0 \<le> (q - p) * (1 + r * (1 - q - p))"
  proof (rule mult_nonneg_nonneg)
    have "r * (q + p - 1) \<le> r * 1"
      using assms by (intro mult_left_mono) auto
    then show "0 \<le> 1 + r * (1 - q - p)"
      using assms(4) by (simp add: algebra_simps)
  qed (use assms in simp)
  then show ?thesis
    by (simp add: algebra_simps)
qed

definition rate_of :: "rat option \<Rightarrow> rat" where
  "rate_of rate = (case rate of None \<Rightarrow> 0 | Some r \<Rightarrow> r)"

text \<open>The pricing parameters under which the bound is claimed: a positive lot, scale and unit, no negative margin.\<close>

definition sane_pricing :: "CandidateAction \<Rightarrow> pricing \<Rightarrow> bool" where
  "sane_pricing a f \<longleftrightarrow>
     0 < lot_step_units a \<and> 0 < quantity_scale a \<and> 0 < price_units_per_quote_unit f \<and> 0 < common_units_per_dollar f
     \<and> 0 \<le> price_fee_ppm f \<and> 0 \<le> haircut_ppm f \<and> 0 \<le> price_tick_units f"

lemma taker_fee_upper:
  assumes "sane_pricing a f" "x = of_int protected / of_int (price_units_per_quote_unit f)"
  shows "rate_of rate * x * (1 - x) * (of_int (lot_step_units a) / of_int (quantity_scale a)) * of_int (common_units_per_dollar f)
    \<le> of_int (taker_fee a f rate protected)"
proof (cases rate)
  case (Some r)
  have "r * x * (1 - x) * (of_int (lot_step_units a) / of_int (quantity_scale a)) * of_int (common_units_per_dollar f)
    = r * of_int protected * of_int (price_units_per_quote_unit f - protected)
            / of_int (price_units_per_quote_unit f) * (of_int (lot_step_units a) / of_int (quantity_scale a))
            * of_int (common_units_per_dollar f) / of_int (price_units_per_quote_unit f)"
  proof -
    let ?units = "of_int (price_units_per_quote_unit f) :: rat"
    have "?units \<noteq> 0" "of_int protected = x * ?units" "of_int (price_units_per_quote_unit f - protected) = (1 - x) * ?units"
      using assms by (simp_all add: sane_pricing_def field_simps)
    then show ?thesis
      by simp
  qed
  then show ?thesis
    using ceil_fraction_upper by (simp add: taker_fee_def rate_of_def Some)
qed (simp add: taker_fee_def rate_of_def)

lemma unit_cost_upper:
  assumes sane: "sane_pricing a f" and run: "unit_cost a f rate protected = Inr cost" and pos: "0 \<le> protected"
    and x: "x = of_int protected / of_int (price_units_per_quote_unit f)" "x \<le> 1" and r: "0 \<le> rate_of rate"
  shows "(x + rate_of rate * x * (1 - x)) * (of_int (lot_step_units a) / of_int (quantity_scale a)) * of_int (common_units_per_dollar f)
    \<le> of_int cost"
proof -
  let ?lot = "of_int (lot_step_units a) / of_int (quantity_scale a) :: rat" and ?common = "of_int (common_units_per_dollar f) :: rat"
    and ?units = "of_int (price_units_per_quote_unit f) :: rat"
  let ?taker = "taker_fee a f rate protected"
  obtain venue common fee haircut where parts:
    "ceil_quotient (protected * lot_step_units a) (quantity_scale a) = Inr venue"
    "ceil_quotient (venue * common_units_per_dollar f) (price_units_per_quote_unit f) = Inr common"
    "ceil_quotient (common * price_fee_ppm f) PPM = Inr fee" "ceil_quotient ((common + fee + ?taker) * haircut_ppm f) PPM = Inr haircut"
    "cost = common + fee + ?taker + haircut"
    using run by (auto simp: unit_cost_def Let_def)
  have pos': "0 < quantity_scale a" "0 < price_units_per_quote_unit f" "0 < common_units_per_dollar f" "0 < lot_step_units a" "0 < PPM"
    using sane by (simp_all add: sane_pricing_def PPM_def)
  have x0: "0 \<le> x" "x * ?units = of_int protected"
    using pos pos' x by simp_all
  have "of_int protected * ?lot \<le> of_int venue"
    using ceil_quotient_upper[OF pos'(1) parts(1)] by simp
  then have "of_int protected * ?lot * ?common / ?units \<le> of_int venue * ?common / ?units"
    using pos' by (intro divide_right_mono mult_right_mono) auto
  also have "\<dots> \<le> of_int common"
    using ceil_quotient_upper[OF pos'(2) parts(2)] by simp
  finally have common: "x * ?lot * ?common \<le> of_int common"
    using pos' by (simp add: x0(2)[symmetric])
  have taker: "rate_of rate * x * (1 - x) * ?lot * ?common \<le> of_int ?taker"
    using taker_fee_upper[OF sane x(1)] .
  have "0 \<le> x * ?lot * ?common" "0 \<le> rate_of rate * x * (1 - x) * ?lot * ?common"
    using x0(1) x(2) r pos' by simp_all
  then have "(0 :: rat) \<le> of_int common" "(0 :: rat) \<le> of_int ?taker"
    using common taker by (blast intro: order_trans)+
  then have nonneg: "0 \<le> common" "0 \<le> ?taker"
    by simp_all
  then have "0 \<le> (common * price_fee_ppm f)"
    using sane by (simp add: sane_pricing_def)
  then have fee: "0 \<le> fee"
    using ceil_quotient_nonneg[OF pos'(5) _ parts(3)] by blast
  then have "0 \<le> (common + fee + ?taker) * haircut_ppm f"
    using nonneg sane by (simp add: sane_pricing_def)
  then have "0 \<le> haircut"
    using ceil_quotient_nonneg[OF pos'(5) _ parts(4)] by blast
  then have "of_int common + of_int ?taker \<le> (of_int cost :: rat)"
    using fee parts(5) by simp
  then show ?thesis
    unfolding distrib_right using common taker by linarith
qed


subsection \<open>Witnesses\<close>

definition sample_book :: LegBook where
  "sample_book = \<lparr>bids = [\<lparr>level_price = Finite False 40 (- 2), level_size = Finite False 2 0\<rparr>, \<lparr>level_price = Finite False 45 (- 2), level_size = Finite False 9 0\<rparr>],
     asks = [\<lparr>level_price = Finite False 42 (- 2), level_size = Finite False 7 0\<rparr>], taker_fee_bps = Some (Finite False 100 0),
     book_available = True, book_convention = GENERIC_BOOK_CONVENTION\<rparr>"

theorem cost_slices_exact_witness:
  "rbind (cost_slices_from_book sample_a sample_book (default_pricing 1000000)) (\<lambda>s. Inr (lot_costs s))
     = rbind (book_levels sample_a sample_book) (\<lambda>ls. book_lots sample_a (default_pricing 1000000) (book_fee_rate sample_book) ls 5)"
proof -
  have "1 \<le> max_quantity_lots sample_a" "nat (max_quantity_lots sample_a) = 5"
    by (simp_all add: sample_a_def sample_action_def)
  then show ?thesis
    using cost_slices_exact[of sample_a sample_book "default_pricing 1000000"] by simp
qed

lemma sample_offer:
  "level_offer sample_a (default_pricing 1000000) (Some (1 / 100)) \<lparr>level_price = Finite False 40 (- 2), level_size = Finite False 2 0\<rparr>
     = Inr (Some (2, 402400))"
proof -
  have product: "dec_result (2 / 5 * 1000000) = Inr 400000" "dec_result 2 = Inr (2 :: rat)"
    using dec_result_exact[of 400000 0] dec_result_exact[of 2 0] by (simp_all add: pow10_def ETINY_def EMAX_def)
  have fee: "taker_fee sample_a (default_pricing 1000000) (Some (1 / 100)) 400000 = 2400"
    by (simp add: taker_fee_def default_pricing_def sample_a_def sample_action_def ceil_fraction_def)
  show ?thesis
    using product fee
    by (simp add: level_offer_def level_numbers_def not_positive_def level_lots_def dec_times_def dec_divide_def protected_price_def unit_cost_def
        ceil_quotient_def default_pricing_def sample_a_def sample_action_def PPM_def Let_def)
qed


end
