(* ===== verification/NLeg_Decode.thy ===== *)
theory NLeg_Decode
  imports Oracle_Eval Datetime_Text
begin

section \<open>Reading problems and requests from JSON\<close>

text \<open>
  \<open>problem_from_payload\<close> and \<open>request_from_payload\<close> of \<^verbatim>\<open>prediction_n_leg.py\<close> with the field readers under them. A
  \<open>ModelDecodeError\<close> is a \<open>ValueError\<close> here, its superclass. Timestamps are read in the format
  \<open>YYYY-MM-DDTHH:MM:SS[.ffffff]Z\<close>, the one the encoder writes; the other ISO 8601 formats that newer versions of
  \<open>fromisoformat\<close> also take are refused by the model. The main result is that a valid problem, encoded and read
  back, is the same problem in canonical order.
\<close>

subsection \<open>Field readers\<close>

definition list_repr :: "string list \<Rightarrow> string" where
  "list_repr xs = ''['' @ join_text '', '' (map (\<lambda>x. [CHR 0x27] @ x @ [CHR 0x27]) xs) @ '']''"

definition decode_error :: "string \<Rightarrow> string \<Rightarrow> 'a result" where
  "decode_error name what = Inl (ValueError (name @ what))"

definition decode_object :: "json \<Rightarrow> string \<Rightarrow> string list \<Rightarrow> (string \<times> json) list result" where
  "decode_object v name required =
     (case v of
        JObj kvs \<Rightarrow>
          if set (map fst kvs) = set required then Inr kvs
          else decode_error name ('' must contain exactly '' @ list_repr (sort required))
      | _ \<Rightarrow> decode_error name ('' must contain exactly '' @ list_repr (sort required)))"

definition field_of :: "(string \<times> json) list \<Rightarrow> string \<Rightarrow> json" where
  "field_of kvs k = (case map_of kvs k of None \<Rightarrow> JNull | Some v \<Rightarrow> v)"

definition decode_array :: "json \<Rightarrow> string \<Rightarrow> json list result" where
  "decode_array v name = (case v of JList xs \<Rightarrow> Inr xs | _ \<Rightarrow> decode_error name '' must be a JSON array'')"

definition decode_string :: "json \<Rightarrow> string \<Rightarrow> string result" where
  "decode_string v name =
     (case v of
        JStr s \<Rightarrow> if blank s then decode_error name '' must be a non-empty string'' else Inr s
      | _ \<Rightarrow> decode_error name '' must be a non-empty string'')"

definition decode_text :: "json \<Rightarrow> string \<Rightarrow> string result" where
  "decode_text v name = (case v of JStr s \<Rightarrow> Inr s | _ \<Rightarrow> decode_error name '' must be a string'')"

definition decode_integer :: "json \<Rightarrow> string \<Rightarrow> int result" where
  "decode_integer v name =
     (case v of
        JInt n \<Rightarrow> if in_int64 n then Inr n else decode_error name '' must be a signed 64-bit integer''
      | _ \<Rightarrow> decode_error name '' must be a signed 64-bit integer'')"

definition decode_datetime :: "json \<Rightarrow> string \<Rightarrow> instant result" where
  "decode_datetime v name =
     rbind (decode_string v name) (\<lambda>s.
     if s = [] \<or> last s \<noteq> CHR ''Z'' then decode_error name '' must be an RFC3339 UTC datetime ending in Z''
     else case fromisoformat (butlast s @ ''+00:00'') of
       NotIso \<Rightarrow> decode_error name '' must be an RFC3339 UTC datetime ending in Z''
     | Naive \<Rightarrow> decode_error name '' must be UTC''
     | Aware t \<Rightarrow> Inr t)"

text \<open>\<open>enum_type(value)\<close>; the members are listed in the order of their declaration.\<close>

definition decode_enum :: "('a \<Rightarrow> string) \<Rightarrow> 'a list \<Rightarrow> string \<Rightarrow> json \<Rightarrow> string \<Rightarrow> 'a result" where
  "decode_enum value_of members type_name v name =
     (case rbind (decode_string v name) (\<lambda>s. case find (\<lambda>x. value_of x = s) members of Some x \<Rightarrow> Inr x | None \<Rightarrow> decode_error s []) of
        Inr x \<Rightarrow> Inr x
      | Inl _ \<Rightarrow> decode_error name ('' is not a valid '' @ type_name))"

definition decode_list :: "(json \<Rightarrow> 'a result) \<Rightarrow> json \<Rightarrow> string \<Rightarrow> 'a list result" where
  "decode_list f v name = rbind (decode_array v name) (result_map f)"

subsection \<open>Parts of a problem\<close>

definition OBSERVATION_FIELDS :: "string list" where
  "OBSERVATION_FIELDS = [''schema_version'', ''oracle_id'', ''indicator_id'', ''observation_start'', ''observation_end'', ''timezone'', ''rule_version'']"

definition observation_from_payload :: "json \<Rightarrow> SettlementObservationKey result" where
  "observation_from_payload v =
     rbind (decode_object v ''settlement_observation_key'' OBSERVATION_FIELDS) (\<lambda>kvs.
     rbind (decode_string (field_of kvs ''schema_version'') ''schema_version'') (\<lambda>schema.
     if schema \<noteq> OBSERVATION_SCHEMA_V1 then decode_error ''schema_version must equal '' OBSERVATION_SCHEMA_V1
     else
       rbind (decode_string (field_of kvs ''oracle_id'') ''oracle_id'') (\<lambda>oracle.
       rbind (decode_string (field_of kvs ''indicator_id'') ''indicator_id'') (\<lambda>indicator.
       rbind (decode_datetime (field_of kvs ''observation_start'') ''observation_start'') (\<lambda>starts.
       rbind (decode_datetime (field_of kvs ''observation_end'') ''observation_end'') (\<lambda>ends.
       rbind (decode_string (field_of kvs ''timezone'') ''timezone'') (\<lambda>zone.
       rbind (decode_string (field_of kvs ''rule_version'') ''rule_version'') (\<lambda>rule.
       Inr \<lparr>obs_schema_version = schema, oracle_id = oracle, indicator_id = indicator, observation_start = starts,
            observation_end = ends, obs_timezone = zone, obs_rule_version = rule\<rparr>))))))))"

definition cost_slice_from_payload :: "json \<Rightarrow> ExecutableCostSlice result" where
  "cost_slice_from_payload v =
     rbind (decode_object v ''cost_slice'' [''first_lot'', ''last_lot'', ''incremental_cost_upper_bound_units'']) (\<lambda>kvs.
     rbind (decode_integer (field_of kvs ''first_lot'') ''first_lot'') (\<lambda>first.
     rbind (decode_integer (field_of kvs ''last_lot'') ''last_lot'') (\<lambda>lst.
     rbind (decode_integer (field_of kvs ''incremental_cost_upper_bound_units'') ''incremental_cost_upper_bound_units'') (\<lambda>cost.
     Inr \<lparr>first_lot = first, last_lot = lst, incremental_cost_upper_bound_units = cost\<rparr>))))"

definition ACTION_FIELDS :: "string list" where
  "ACTION_FIELDS =
     [''action_id'', ''venue_id'', ''account_id'', ''chain_id'', ''market_contract_id'', ''settlement_observation_key'', ''side'',
      ''lot_step_units'', ''quantity_scale'', ''min_quantity_lots'', ''max_quantity_lots'', ''settlement_asset_id'',
      ''valuation_unit_id'', ''asset_valuation_rule_id'', ''cost_slices'']"

definition action_from_payload :: "json \<Rightarrow> CandidateAction result" where
  "action_from_payload v =
     rbind (decode_object v ''action'' ACTION_FIELDS) (\<lambda>kvs.
     rbind (decode_string (field_of kvs ''action_id'') ''action_id'') (\<lambda>i.
     rbind (decode_string (field_of kvs ''venue_id'') ''venue_id'') (\<lambda>venue.
     rbind (decode_string (field_of kvs ''account_id'') ''account_id'') (\<lambda>account.
     rbind (decode_string (field_of kvs ''chain_id'') ''chain_id'') (\<lambda>chain.
     rbind (decode_string (field_of kvs ''market_contract_id'') ''market_contract_id'') (\<lambda>contract.
     rbind (observation_from_payload (field_of kvs ''settlement_observation_key'')) (\<lambda>key.
     rbind (decode_enum side_value [BUY_YES, BUY_NO] ''ActionSide'' (field_of kvs ''side'') ''side'') (\<lambda>s.
     rbind (decode_integer (field_of kvs ''lot_step_units'') ''lot_step_units'') (\<lambda>lot_step.
     rbind (decode_integer (field_of kvs ''quantity_scale'') ''quantity_scale'') (\<lambda>scale.
     rbind (decode_integer (field_of kvs ''min_quantity_lots'') ''min_quantity_lots'') (\<lambda>least.
     rbind (decode_integer (field_of kvs ''max_quantity_lots'') ''max_quantity_lots'') (\<lambda>most.
     rbind (decode_string (field_of kvs ''settlement_asset_id'') ''settlement_asset_id'') (\<lambda>asset.
     rbind (decode_string (field_of kvs ''valuation_unit_id'') ''valuation_unit_id'') (\<lambda>unit.
     rbind (decode_text (field_of kvs ''asset_valuation_rule_id'') ''asset_valuation_rule_id'') (\<lambda>rule.
     rbind (decode_list cost_slice_from_payload (field_of kvs ''cost_slices'') ''cost_slices'') (\<lambda>slices.
     Inr \<lparr>action_id = i, venue_id = venue, account_id = account, chain_id = chain, market_contract_id = contract,
          settlement_observation_key = key, side = s, lot_step_units = lot_step, quantity_scale = scale,
          min_quantity_lots = least, max_quantity_lots = most, settlement_asset_id = asset, valuation_unit_id = unit,
          asset_valuation_rule_id = rule, cost_slices = slices\<rparr>))))))))))))))))"

definition payout_from_payload :: "json \<Rightarrow> ActionPayout result" where
  "payout_from_payload v =
     rbind (decode_object v ''action_payout'' [''action_id'', ''payout_lower_bound_per_lot_units'']) (\<lambda>kvs.
     rbind (decode_string (field_of kvs ''action_id'') ''action_id'') (\<lambda>i.
     rbind (decode_integer (field_of kvs ''payout_lower_bound_per_lot_units'') ''payout_lower_bound_per_lot_units'') (\<lambda>n.
     Inr \<lparr>payout_action_id = i, payout_lower_bound_per_lot_units = n\<rparr>)))"

text \<open>\<open>None if value is None else read(value)\<close>.\<close>

definition decode_optional :: "(json \<Rightarrow> 'a result) \<Rightarrow> json \<Rightarrow> 'a option result" where
  "decode_optional f v = (if v = JNull then Inr None else rbind (f v) (\<lambda>x. Inr (Some x)))"

definition TERMINAL_KINDS :: "TerminalKind list" where
  "TERMINAL_KINDS = [NORMAL_YES, NORMAL_NO, VOID, REFUND, SPLIT]"

definition atom_fields_ok :: "(string \<times> json) list \<Rightarrow> bool" where
  "atom_fields_ok kvs \<longleftrightarrow>
     {''atom_id'', ''kind'', ''payouts''} \<subseteq> set (map fst kvs)
     \<and> set (map fst kvs) \<subseteq> {''atom_id'', ''kind'', ''payouts'', ''rule_version'', ''capital_release_at''}"

definition atom_from_payload :: "json \<Rightarrow> TerminalAtom result" where
  "atom_from_payload v =
     (let refuse = decode_error ''terminal_atom must contain ''
        (list_repr [''atom_id'', ''kind'', ''payouts''] @ '' and only optional rule_version/capital_release_at'') in
      case v of
        JObj kvs \<Rightarrow>
          if \<not> atom_fields_ok kvs then refuse
          else
            rbind (decode_string (field_of kvs ''atom_id'') ''atom_id'') (\<lambda>i.
            rbind (decode_enum kind_value TERMINAL_KINDS ''TerminalKind'' (field_of kvs ''kind'') ''kind'') (\<lambda>k.
            rbind (decode_optional (\<lambda>x. decode_text x ''rule_version'') (field_of kvs ''rule_version'')) (\<lambda>rule.
            rbind (decode_list payout_from_payload (field_of kvs ''payouts'') ''payouts'') (\<lambda>ps.
            rbind (decode_optional (\<lambda>x. decode_datetime x ''capital_release_at'') (field_of kvs ''capital_release_at'')) (\<lambda>release.
            Inr \<lparr>atom_id = i, atom_kind = k, atom_rule_version = rule, payouts = ps, capital_release_at = release\<rparr>)))))
      | _ \<Rightarrow> refuse)"

definition state_set_from_payload :: "json \<Rightarrow> TerminalStateSet result" where
  "state_set_from_payload v =
     rbind (decode_object v ''terminal_state_set'' [''market_contract_id'', ''settlement_observation_key'', ''rule_version'', ''atoms'']) (\<lambda>kvs.
     rbind (decode_string (field_of kvs ''market_contract_id'') ''market_contract_id'') (\<lambda>contract.
     rbind (observation_from_payload (field_of kvs ''settlement_observation_key'')) (\<lambda>key.
     rbind (decode_string (field_of kvs ''rule_version'') ''rule_version'') (\<lambda>rule.
     rbind (decode_list atom_from_payload (field_of kvs ''atoms'') ''atoms'') (\<lambda>ats.
     Inr \<lparr>state_contract_id = contract, state_observation_key = key, state_rule_version = rule, atoms = ats\<rparr>)))))"

definition relation_from_payload :: "json \<Rightarrow> RelationConstraint result" where
  "relation_from_payload v =
     rbind (decode_object v ''relation'' [''constraint_id'', ''kind'', ''contract_ids'', ''rule_version'']) (\<lambda>kvs.
     rbind (decode_string (field_of kvs ''constraint_id'') ''constraint_id'') (\<lambda>i.
     rbind (decode_enum relation_kind_value [IMPLIES, MUTUALLY_EXCLUSIVE, EXACTLY_ONE, NATIVE_COMPLEMENT] ''RelationKind''
              (field_of kvs ''kind'') ''kind'') (\<lambda>k.
     rbind (decode_list (\<lambda>x. decode_string x ''contract_ids[]'') (field_of kvs ''contract_ids'') ''contract_ids'') (\<lambda>cs.
     rbind (decode_string (field_of kvs ''rule_version'') ''rule_version'') (\<lambda>rule.
     Inr \<lparr>relation_constraint_id = i, relation_kind = k, contract_ids = cs, relation_rule_version = rule\<rparr>)))))"

definition forbidden_from_payload :: "json \<Rightarrow> ForbiddenAtomCombination result" where
  "forbidden_from_payload v =
     rbind (decode_object v ''forbidden_atom_combination'' [''constraint_id'', ''atom_ids'', ''rule_version'']) (\<lambda>kvs.
     rbind (decode_string (field_of kvs ''constraint_id'') ''constraint_id'') (\<lambda>i.
     rbind (decode_list (\<lambda>x. decode_string x ''atom_ids[]'') (field_of kvs ''atom_ids'') ''atom_ids'') (\<lambda>ats.
     rbind (decode_string (field_of kvs ''rule_version'') ''rule_version'') (\<lambda>rule.
     Inr \<lparr>forbidden_constraint_id = i, forbidden_atom_ids = ats, forbidden_rule_version = rule\<rparr>))))"

definition METRICS :: "QualificationMetric list" where
  "METRICS = [GUARANTEED_PROFIT_UNITS, NET_MARGIN_PPM, RETURN_ON_COST_PPM, ANNUALIZED_RETURN_PPM, MAX_CAPITAL_RELEASE_DELAY_SECONDS]"

definition qualification_from_payload :: "json \<Rightarrow> QualificationConstraint result" where
  "qualification_from_payload v =
     rbind (decode_object v ''qualification_constraint''
              [''constraint_id'', ''rule_version'', ''metric'', ''comparison'', ''threshold_numerator'', ''threshold_denominator'']) (\<lambda>kvs.
     rbind (decode_string (field_of kvs ''constraint_id'') ''constraint_id'') (\<lambda>i.
     rbind (decode_string (field_of kvs ''rule_version'') ''rule_version'') (\<lambda>rule.
     rbind (decode_enum metric_value METRICS ''QualificationMetric'' (field_of kvs ''metric'') ''metric'') (\<lambda>m.
     rbind (decode_enum comparison_value [GREATER_THAN_OR_EQUAL, LESS_THAN_OR_EQUAL] ''Comparison'' (field_of kvs ''comparison'') ''comparison'') (\<lambda>c.
     rbind (decode_integer (field_of kvs ''threshold_numerator'') ''threshold_numerator'') (\<lambda>num.
     rbind (decode_integer (field_of kvs ''threshold_denominator'') ''threshold_denominator'') (\<lambda>den.
     Inr \<lparr>qualification_id = i, qualification_rule_version = rule, metric = m, comparison = c, threshold_numerator = num,
          threshold_denominator = den\<rparr>)))))))"

subsection \<open>Problems and requests\<close>

definition PROBLEM_FIELDS :: "string list" where
  "PROBLEM_FIELDS =
     [''schema_version'', ''problem_id'', ''as_of'', ''valuation_unit_id'', ''actions'', ''terminal_state_sets'', ''constraint_model'',
      ''qualification_constraints'']"

definition UNKNOWN_DATA :: "issue_code list" where
  "UNKNOWN_DATA = [MISSING_ACTION_PAYOUT, MISSING_TERMINAL_RULE_IDENTITY, MISSING_CAPITAL_RELEASE_AT, MISSING_ASSET_VALUATION_RULE]"

definition accepted_problem :: "bool \<Rightarrow> ArbitrageProblem \<Rightarrow> ArbitrageProblem result" where
  "accepted_problem allow_unknown_data p =
     (let issues = validate_problem p in
      if issues \<noteq> [] \<and> \<not> (allow_unknown_data \<and> list_all (\<lambda>i. code i \<in> set UNKNOWN_DATA) issues)
      then decode_error ''invalid problem: '' (join_text ''; '' (map (\<lambda>i. path i @ '': '' @ issue_code_value (code i)) issues))
      else Inr (sorted_problem p))"

definition problem_from_payload :: "bool \<Rightarrow> json \<Rightarrow> ArbitrageProblem result" where
  "problem_from_payload allow_unknown_data v =
     rbind (decode_object v ''problem'' PROBLEM_FIELDS) (\<lambda>kvs.
     rbind (decode_string (field_of kvs ''schema_version'') ''schema_version'') (\<lambda>schema.
     if schema \<noteq> PROBLEM_SCHEMA_V1 then decode_error ''schema_version must equal '' PROBLEM_SCHEMA_V1
     else
       rbind (decode_object (field_of kvs ''constraint_model'') ''constraint_model'' [''relations'', ''forbidden_atom_combinations'']) (\<lambda>model.
       rbind (decode_string (field_of kvs ''problem_id'') ''problem_id'') (\<lambda>i.
       rbind (decode_datetime (field_of kvs ''as_of'') ''as_of'') (\<lambda>moment.
       rbind (decode_string (field_of kvs ''valuation_unit_id'') ''valuation_unit_id'') (\<lambda>unit.
       rbind (decode_list action_from_payload (field_of kvs ''actions'') ''actions'') (\<lambda>acts.
       rbind (decode_list state_set_from_payload (field_of kvs ''terminal_state_sets'') ''terminal_state_sets'') (\<lambda>states.
       rbind (decode_list relation_from_payload (field_of model ''relations'') ''relations'') (\<lambda>rels.
       rbind (decode_list forbidden_from_payload (field_of model ''forbidden_atom_combinations'') ''forbidden_atom_combinations'') (\<lambda>forbidden.
       rbind (decode_list qualification_from_payload (field_of kvs ''qualification_constraints'') ''qualification_constraints'') (\<lambda>quals.
       accepted_problem allow_unknown_data
         \<lparr>schema_version = schema, problem_id = i, as_of = moment, problem_valuation_unit_id = unit, actions = acts,
          terminal_state_sets = states, constraint_model = \<lparr>relations = rels, forbidden_atom_combinations = forbidden\<rparr>,
          qualification_constraints = quals\<rparr>)))))))))))"

definition budget_from_payload :: "json \<Rightarrow> OracleBudget result" where
  "budget_from_payload v =
     rbind (decode_object v ''budget'' [''max_quantity_vectors'', ''max_joint_states'', ''max_support_rechecks'']) (\<lambda>kvs.
     rbind (decode_integer (field_of kvs ''max_quantity_vectors'') ''max_quantity_vectors'') (\<lambda>vectors.
     rbind (decode_integer (field_of kvs ''max_joint_states'') ''max_joint_states'') (\<lambda>states.
     rbind (decode_integer (field_of kvs ''max_support_rechecks'') ''max_support_rechecks'') (\<lambda>rechecks.
     if vectors \<le> 0 \<or> states \<le> 0 \<or> rechecks \<le> 0 then decode_error ''budget limits must be positive'' []
     else Inr \<lparr>max_quantity_vectors = vectors, max_joint_states = states, max_support_rechecks = rechecks\<rparr>))))"

definition request_from_payload :: "json \<Rightarrow> OracleRequest result" where
  "request_from_payload v =
     rbind (decode_object v ''request'' [''schema_version'', ''mode'', ''problem'', ''budget'']) (\<lambda>kvs.
     rbind (decode_string (field_of kvs ''schema_version'') ''schema_version'') (\<lambda>schema.
     if schema \<noteq> REQUEST_SCHEMA_V1 then decode_error ''schema_version must equal '' REQUEST_SCHEMA_V1
     else
       rbind (decode_enum search_mode_value [ADMISSION, OPTIMIZATION, RAW_ARBITRAGE_DIAGNOSTIC] ''SearchMode'' (field_of kvs ''mode'') ''mode'') (\<lambda>mode.
       rbind (decode_object (field_of kvs ''problem'') ''problem'' PROBLEM_FIELDS) (\<lambda>problem.
       rbind (problem_from_payload True (JObj problem)) (\<lambda>p.
       rbind (budget_from_payload (field_of kvs ''budget'')) (\<lambda>budget.
       Inr \<lparr>request_schema_version = schema, request_mode = mode, request_problem = p, request_budget = budget\<rparr>))))))"

subsection \<open>A reader undoes its encoder\<close>

named_theorems decode_simps \<open>what a reader makes of a field its encoder wrote\<close>

lemma decode_object_fields [decode_simps]:
  "set (map fst kvs) = set required \<Longrightarrow> decode_object (JObj kvs) name required = Inr kvs"
  by (simp add: decode_object_def)

lemma field_of_Cons [decode_simps]: "field_of ((k, v) # kvs) k' = (if k = k' then v else field_of kvs k')"
  by (simp add: field_of_def)

lemma decode_string_JStr [decode_simps]: "\<not> blank s \<Longrightarrow> decode_string (JStr s) name = Inr s"
  by (simp add: decode_string_def)

lemma decode_text_JStr [decode_simps]: "decode_text (JStr s) name = Inr s"
  by (simp add: decode_text_def)

lemma decode_integer_JInt [decode_simps]: "in_int64 n \<Longrightarrow> decode_integer (JInt n) name = Inr n"
  by (simp add: decode_integer_def)

lemma decode_list_map [decode_simps]:
  assumes "\<And>x. x \<in> set xs \<Longrightarrow> f (g x) = Inr (h x)"
  shows "decode_list f (JList (map g xs)) name = Inr (map h xs)"
proof -
  have "result_map f (map g xs) = Inr (map (\<lambda>x. h x) xs)"
    using assms by (induction xs) auto
  then show ?thesis
    by (simp add: decode_list_def decode_array_def)
qed

lemma decode_list_same:
  assumes "\<And>x. x \<in> set xs \<Longrightarrow> f (g x) = Inr x"
  shows "decode_list f (JList (map g xs)) name = Inr xs"
  using decode_list_map[of xs f g "\<lambda>x. x" name] assms by simp

lemma decode_strings [decode_simps]:
  assumes "\<And>x. x \<in> set xs \<Longrightarrow> \<not> blank x"
  shows "decode_list (\<lambda>x. decode_string x item) (json_strings xs) name = Inr xs"
  using assms by (intro decode_list_same decode_string_JStr)

lemma decode_optional_Some [decode_simps]:
  "f v = Inr x \<Longrightarrow> v \<noteq> JNull \<Longrightarrow> decode_optional f v = Inr (Some x)"
  by (simp add: decode_optional_def)

lemma decode_datetime_canonical [decode_simps]:
  assumes "representable t"
  shows "decode_datetime (json_datetime t) name = Inr t"
proof -
  have "last (canonical_datetime t) = CHR ''Z'' \<and> canonical_datetime t \<noteq> []"
    by (cases "ymd_of_ordinal (719163 + t div usec_per_day)") (simp add: canonical_datetime_def Let_def)
  then obtain s where s: "canonical_datetime t = s @ ''Z''"
    by (metis append_butlast_last_id)
  have "\<not> blank (canonical_datetime t)"
    by (simp add: s blank_def py_space_def)
  then show ?thesis
    using fromisoformat_isoformat[OF assms] by (simp add: decode_datetime_def decode_string_JStr s)
qed

text \<open>An enum whose values are distinct and not blank, with all its members listed.\<close>

lemma decode_enum_member:
  assumes "x \<in> set members" "distinct (map value_of members)" "\<not> blank (value_of x)"
  shows "decode_enum value_of members type_name (JStr (value_of x)) name = Inr x"
proof -
  have "find (\<lambda>y. value_of y = value_of x) members = Some x"
    using assms(1,2) by (induction members) (auto simp: rev_image_eqI)
  then show ?thesis
    using assms(3) by (simp add: decode_enum_def decode_string_JStr)
qed

lemma decode_enums [decode_simps]:
  "decode_enum side_value [BUY_YES, BUY_NO] type_name (JStr (side_value s)) name = Inr s"
  "decode_enum kind_value TERMINAL_KINDS type_name (JStr (kind_value k)) name = Inr k"
  "decode_enum relation_kind_value [IMPLIES, MUTUALLY_EXCLUSIVE, EXACTLY_ONE, NATIVE_COMPLEMENT] type_name
     (JStr (relation_kind_value r)) name = Inr r"
  "decode_enum metric_value METRICS type_name (JStr (metric_value m)) name = Inr m"
  "decode_enum comparison_value [GREATER_THAN_OR_EQUAL, LESS_THAN_OR_EQUAL] type_name (JStr (comparison_value c)) name = Inr c"
  "decode_enum search_mode_value [ADMISSION, OPTIMIZATION, RAW_ARBITRAGE_DIAGNOSTIC] type_name
     (JStr (search_mode_value w)) name = Inr w"
  subgoal by (cases s; rule decode_enum_member) (simp_all add: blank_def py_space_def)
  subgoal by (cases k; rule decode_enum_member) (simp_all add: blank_def py_space_def TERMINAL_KINDS_def)
  subgoal by (cases r; rule decode_enum_member) (simp_all add: blank_def py_space_def)
  subgoal by (cases m; rule decode_enum_member) (simp_all add: blank_def py_space_def METRICS_def)
  subgoal by (cases c; rule decode_enum_member) (simp_all add: blank_def py_space_def)
  subgoal by (cases w; rule decode_enum_member) (simp_all add: blank_def py_space_def)
  done

lemma observation_read [decode_simps]:
  assumes "wf_observation_key k" "representable (observation_start k)" "representable (observation_end k)"
  shows "observation_from_payload (observation_payload k) = Inr k"
proof -
  have "\<not> blank OBSERVATION_SCHEMA_V1"
    by (simp add: OBSERVATION_SCHEMA_V1_def blank_def py_space_def)
  then show ?thesis
    using assms by (simp add: observation_from_payload_def observation_payload_def wf_observation_key_def decode_simps OBSERVATION_FIELDS_def)
qed

lemma cost_slice_read [decode_simps]:
  assumes "in_int64 (first_lot c)" "in_int64 (last_lot c)" "in_int64 (incremental_cost_upper_bound_units c)"
  shows "cost_slice_from_payload (cost_slice_payload c) = Inr c"
  using assms by (simp add: cost_slice_from_payload_def cost_slice_payload_def decode_simps)

lemma wf_cost_slices_int64:
  "wf_cost_slices prev cs \<Longrightarrow> c \<in> set cs
     \<Longrightarrow> in_int64 (first_lot c) \<and> in_int64 (last_lot c) \<and> in_int64 (incremental_cost_upper_bound_units c)"
  by (induction prev cs rule: wf_cost_slices.induct) auto

lemma cost_slices_read:
  "wf_cost_slices prev cs \<Longrightarrow> decode_list cost_slice_from_payload (JList (map cost_slice_payload cs)) name = Inr cs"
  using wf_cost_slices_int64 by (intro decode_list_same cost_slice_read) blast+

lemma action_read:
  assumes wf: "wf_action unit a" "\<not> blank unit"
    and dates: "representable (observation_start (settlement_observation_key a))" "representable (observation_end (settlement_observation_key a))"
  shows "action_from_payload (action_payload a) = Inr a"
proof -
  have "in_int64 (min_quantity_lots a) \<and> in_int64 (max_quantity_lots a)"
    using wf(1) wf_cost_slices_last[of 0 "cost_slices a"] by (auto simp: wf_action_def int64_defs)
  then show ?thesis
    using assms by (simp add: action_from_payload_def action_payload_def wf_action_def decode_simps ACTION_FIELDS_def
        cost_slices_read[of 0])
qed

lemma payout_read [decode_simps]:
  assumes "\<not> blank (payout_action_id x)" "in_int64 (payout_lower_bound_per_lot_units x)"
  shows "payout_from_payload (payout_payload x) = Inr x"
  using assms by (simp add: payout_from_payload_def payout_payload_def decode_simps)

lemma payouts_read [decode_simps]:
  assumes "\<And>x. x \<in> set xs \<Longrightarrow> \<not> blank (payout_action_id x) \<and> in_int64 (payout_lower_bound_per_lot_units x)"
  shows "decode_list payout_from_payload (JList (map payout_payload xs)) name = Inr xs"
  using assms by (intro decode_list_same payout_read) blast+

lemma atom_read:
  assumes wf: "wf_atom now rule required a" "\<And>i. i \<in> set required \<Longrightarrow> \<not> blank i"
    and date: "\<And>t. capital_release_at a = Some t \<Longrightarrow> representable t"
  shows "atom_from_payload (atom_payload a) = Inr (sorted_atom a)"
proof -
  obtain t where t: "capital_release_at a = Some t" "representable t"
    using wf(1) date by (auto simp: wf_atom_def)
  have named: "\<not> blank (payout_action_id x) \<and> in_int64 (payout_lower_bound_per_lot_units x)" if "x \<in> set (payouts a)" for x
    using that wf by (auto simp: wf_atom_def)
  have read: "decode_list payout_from_payload (JList (map payout_payload (sort_key payout_action_id (payouts a)))) ''payouts''
      = Inr (sort_key payout_action_id (payouts a))"
    using named by (intro payouts_read) simp
  show ?thesis
    using wf(1) t read
    by (simp add: atom_from_payload_def atom_payload_def wf_atom_def sorted_atom_def decode_simps atom_fields_ok_def json_option_def)
qed

lemma state_set_read:
  assumes wf: "wf_state_set p s" "\<And>a. a \<in> set (actions p) \<Longrightarrow> \<not> blank (action_id a)"
    and dates: "representable (observation_start (state_observation_key s))" "representable (observation_end (state_observation_key s))"
      "\<And>a t. a \<in> set (atoms s) \<Longrightarrow> capital_release_at a = Some t \<Longrightarrow> representable t"
  shows "state_set_from_payload (state_set_payload s) = Inr (sorted_state_set s)"
proof -
  have "atom_from_payload (atom_payload a) = Inr (sorted_atom a)" if "a \<in> set (atoms s)" for a
    using that wf dates(3)
    by (intro atom_read[of "as_of p" "state_rule_version s" "map action_id (contract_actions p (state_contract_id s))"])
      (auto simp: wf_state_set_def contract_actions_def)
  then have read: "decode_list atom_from_payload (JList (map atom_payload (sort_key atom_id (atoms s)))) ''atoms''
      = Inr (map sorted_atom (sort_key atom_id (atoms s)))"
    by (intro decode_list_map) simp
  have "sort_key atom_id (map sorted_atom (atoms s)) = map sorted_atom (sort_key atom_id (atoms s))"
    by (simp add: sort_key_map sorted_atom_def)
  then show ?thesis
    using wf(1) dates(1,2) read
    by (simp add: state_set_from_payload_def state_set_payload_def wf_state_set_def decode_simps sorted_state_set_def)
qed

lemma relation_read:
  assumes "wf_relation p r" "\<And>s. s \<in> set (terminal_state_sets p) \<Longrightarrow> \<not> blank (state_contract_id s)"
  shows "relation_from_payload (relation_payload r) = Inr (sorted_relation r)"
proof -
  have "\<not> blank c" if "c \<in> set (contract_ids r)" for c
    using that assms by (auto simp: wf_relation_def)
  moreover from this have "decode_list (\<lambda>x. decode_string x ''contract_ids[]'') (json_strings (sort (contract_ids r))) ''contract_ids''
      = Inr (sort (contract_ids r))"
    by (intro decode_strings) simp
  ultimately show ?thesis
    using assms(1)
    by (simp add: relation_from_payload_def relation_payload_def wf_relation_def decode_simps sorted_relation_def)
qed

lemma forbidden_read:
  assumes "wf_forbidden p f" "\<And>s a. s \<in> set (terminal_state_sets p) \<Longrightarrow> a \<in> set (atoms s) \<Longrightarrow> \<not> blank (atom_id a)"
  shows "forbidden_from_payload (forbidden_payload f) = Inr (sorted_forbidden f)"
proof -
  have "\<not> blank i" if "i \<in> set (forbidden_atom_ids f)" for i
    using that assms by (fastforce simp: wf_forbidden_def)
  then have "decode_list (\<lambda>x. decode_string x ''atom_ids[]'') (json_strings (sort (forbidden_atom_ids f))) ''atom_ids''
      = Inr (sort (forbidden_atom_ids f))"
    by (intro decode_strings) simp
  then show ?thesis
    using assms(1)
    by (simp add: forbidden_from_payload_def forbidden_payload_def wf_forbidden_def decode_simps sorted_forbidden_def)
qed

lemma qualification_read [decode_simps]:
  "wf_qualification q \<Longrightarrow> qualification_from_payload (qualification_payload q) = Inr q"
  by (simp add: qualification_from_payload_def qualification_payload_def wf_qualification_def decode_simps)

subsection \<open>The canonical order keeps a problem valid\<close>

lemma sorted_parts [simp]:
  "as_of (sorted_problem p) = as_of p" "schema_version (sorted_problem p) = schema_version p" "problem_id (sorted_problem p) = problem_id p"
  "problem_valuation_unit_id (sorted_problem p) = problem_valuation_unit_id p"
  "state_contract_id (sorted_state_set s) = state_contract_id s" "state_observation_key (sorted_state_set s) = state_observation_key s"
  "state_rule_version (sorted_state_set s) = state_rule_version s" "atom_id (sorted_atom a) = atom_id a" "atom_kind (sorted_atom a) = atom_kind a"
  by (simp_all add: sorted_problem_def sorted_state_set_def sorted_atom_def)

lemma sorted_atom_wf [simp]: "wf_atom now rule required (sorted_atom a) \<longleftrightarrow> wf_atom now rule required a"
  by (auto simp: wf_atom_def sorted_atom_def distinct_map)

lemma contract_actions_sorted: "contract_actions (sorted_problem p) c = sort_key action_id (contract_actions p c)"
  by (simp add: contract_actions_def sorted_problem_def filter_sort)

lemma sorted_state_set_wf:
  "wf_state_set (sorted_problem p) (sorted_state_set s) \<longleftrightarrow> wf_state_set p s"
proof -
  have "wf_atom now rule (map action_id (sort_key action_id xs)) a = wf_atom now rule (map action_id xs) a" for now rule a and xs :: "CandidateAction list"
    by (simp add: wf_atom_def)
  moreover have "set (atoms (sorted_state_set s)) = sorted_atom ` set (atoms s)" "atoms (sorted_state_set s) = [] \<longleftrightarrow> atoms s = []"
    by (simp_all add: sorted_state_set_def flip: length_0_conv)
  ultimately show ?thesis
    by (simp add: wf_state_set_def contract_actions_sorted)
qed

lemma state_of_contract_sorted:
  assumes "distinct (map state_contract_id (terminal_state_sets p))"
  shows "state_of_contract (sorted_problem p) c = map_option sorted_state_set (state_of_contract p c)"
proof -
  have found: "find (\<lambda>s. state_contract_id s = c) xs = Some s \<longleftrightarrow> s \<in> set xs \<and> state_contract_id s = c"
    if "distinct (map state_contract_id xs)" for xs s
    using that by (induction xs) (auto simp: rev_image_eqI)
  let ?xs = "sort_key state_contract_id (terminal_state_sets p)"
  have d: "distinct (map state_contract_id ?xs)"
    using assms by (simp add: distinct_map)
  have "find (\<lambda>s. state_contract_id s = c) ?xs = Some s \<longleftrightarrow> find (\<lambda>s. state_contract_id s = c) (terminal_state_sets p) = Some s" for s
    unfolding found[OF d] found[OF assms] by simp
  then have "find (\<lambda>s. state_contract_id s = c) ?xs = find (\<lambda>s. state_contract_id s = c) (terminal_state_sets p)"
    by (metis not_Some_eq)
  moreover have "find (\<lambda>s. state_contract_id s = c) (map sorted_state_set xs) = map_option sorted_state_set (find (\<lambda>s. state_contract_id s = c) xs)" for xs
    by (induction xs) auto
  ultimately show ?thesis
    by (simp add: state_of_contract_def sorted_problem_def sort_key_map)
qed

lemma sorted_native_complement:
  assumes "wf_native_complement p left right" "distinct (map state_contract_id (terminal_state_sets p))"
  shows "wf_native_complement (sorted_problem p) left right" "wf_native_complement (sorted_problem p) right left"
proof -
  have "length (atoms (sorted_state_set s)) = length (atoms s)" "atom_kind ` set (atoms (sorted_state_set s)) = atom_kind ` set (atoms s)" for s
    by (simp_all add: sorted_state_set_def image_image)
  then show one: "wf_native_complement (sorted_problem p) left right"
    using assms by (fastforce simp: wf_native_complement_def contract_actions_sorted state_of_contract_sorted)
  then show "wf_native_complement (sorted_problem p) right left"
    by (fastforce simp: wf_native_complement_def insert_commute)
qed

lemma sorted_relation_wf:
  assumes wf: "wf_relation p r" and d: "distinct (map state_contract_id (terminal_state_sets p))"
  shows "wf_relation (sorted_problem p) (sorted_relation r)"
proof -
  have ids: "state_contract_id ` set (terminal_state_sets (sorted_problem p)) = state_contract_id ` set (terminal_state_sets p)"
    by (simp add: sorted_problem_def image_image)
  show ?thesis
  proof (cases "relation_kind r")
    case NATIVE_COMPLEMENT
    then obtain left right where pair: "contract_ids r = [left, right]" "wf_native_complement p left right"
      using wf by (auto simp: wf_relation_def)
    then have "sort (contract_ids r) = [left, right] \<or> sort (contract_ids r) = [right, left]"
      by auto
    then show ?thesis
      using wf pair sorted_native_complement[OF pair(2) d] NATIVE_COMPLEMENT ids
      by (auto simp: wf_relation_def sorted_relation_def)
  qed (use wf ids in \<open>simp_all add: wf_relation_def sorted_relation_def\<close>)
qed

lemma sorted_problem_lists:
  "actions (sorted_problem p) = sort_key action_id (actions p)"
  "terminal_state_sets (sorted_problem p) = map sorted_state_set (sort_key state_contract_id (terminal_state_sets p))"
  "relations (constraint_model (sorted_problem p)) = map sorted_relation (sort_key relation_constraint_id (relations (constraint_model p)))"
  "forbidden_atom_combinations (constraint_model (sorted_problem p))
     = map sorted_forbidden (sort_key forbidden_constraint_id (forbidden_atom_combinations (constraint_model p)))"
  "qualification_constraints (sorted_problem p) = sort_key qualification_id (qualification_constraints p)"
  by (simp_all add: sorted_problem_def sort_key_map sorted_state_set_def sorted_relation_def sorted_forbidden_def)

lemma sorted_atom_ids:
  "distinct (map atom_id (concat (map atoms (terminal_state_sets (sorted_problem p)))))
     \<longleftrightarrow> distinct (map atom_id (concat (map atoms (terminal_state_sets p))))"
proof -
  have "mset (map atom_id (atoms (sorted_state_set s))) = mset (map atom_id (atoms s))" for s
    by (simp add: sorted_state_set_def multiset.map_comp comp_def)
  then have one: "mset (map atom_id (concat (map atoms (map sorted_state_set xs)))) = mset (map atom_id (concat (map atoms xs)))" for xs
    by (induction xs) auto
  have "mset (map atom_id (concat (map atoms xs))) = image_mset atom_id (\<Sum>\<^sub># (image_mset (mset \<circ> atoms) (mset xs)))" for xs :: "TerminalStateSet list"
    by (induction xs) auto
  then have "mset (map atom_id (concat (map atoms (sort_key state_contract_id xs)))) = mset (map atom_id (concat (map atoms xs)))" for xs :: "TerminalStateSet list"
    by simp
  then show ?thesis
    unfolding sorted_problem_lists using one by (metis mset_eq_imp_distinct_iff)
qed

lemma sorted_problem_wf:
  assumes wf: "wf_problem p"
  shows "wf_problem (sorted_problem p)"
proof -
  have d: "distinct (map state_contract_id (terminal_state_sets p))"
    using wf by (simp add: wf_problem_def)
  have states: "\<forall>s \<in> set (terminal_state_sets (sorted_problem p)). wf_state_set (sorted_problem p) s"
    using wf by (simp add: wf_problem_def sorted_problem_lists sorted_state_set_wf)
  have rels: "\<forall>r \<in> set (relations (constraint_model (sorted_problem p))). wf_relation (sorted_problem p) r"
    using wf sorted_relation_wf[OF _ d] by (auto simp: wf_problem_def sorted_problem_lists)
  have "(\<Union>s \<in> set (terminal_state_sets (sorted_problem p)). atom_id ` set (atoms s)) = (\<Union>s \<in> set (terminal_state_sets p). atom_id ` set (atoms s))"
    by (simp add: sorted_problem_lists sorted_state_set_def image_image)
  then have forb: "\<forall>f \<in> set (forbidden_atom_combinations (constraint_model (sorted_problem p))). wf_forbidden (sorted_problem p) f"
    using wf by (auto simp: wf_problem_def wf_forbidden_def sorted_problem_lists sorted_forbidden_def image_UN)
  have ids: "map relation_constraint_id (relations (constraint_model (sorted_problem p)))
      = map relation_constraint_id (sort_key relation_constraint_id (relations (constraint_model p)))"
    "map forbidden_constraint_id (forbidden_atom_combinations (constraint_model (sorted_problem p)))
      = map forbidden_constraint_id (sort_key forbidden_constraint_id (forbidden_atom_combinations (constraint_model p)))"
    "map state_contract_id (terminal_state_sets (sorted_problem p)) = map state_contract_id (sort_key state_contract_id (terminal_state_sets p))"
    by (simp_all add: sorted_problem_lists sorted_relation_def sorted_forbidden_def)
  have contracts: "state_contract_id ` set (terminal_state_sets (sorted_problem p)) = market_contract_id ` set (actions (sorted_problem p))"
    using wf by (simp add: wf_problem_def sorted_problem_lists image_image)
  show ?thesis
    using wf states rels forb contracts sorted_atom_ids[of p] unfolding wf_problem_def distinct_append ids
    by (simp add: sorted_problem_lists(1,5) distinct_map_sort)
qed

lemma sorted_problem_idem [simp]: "sorted_problem (sorted_problem p) = sorted_problem p"
proof -
  have atom: "sorted_atom (sorted_atom a) = sorted_atom a" for a
    by (simp add: sorted_atom_def)
  have state: "sorted_state_set (sorted_state_set s) = sorted_state_set s" for s
    by (simp add: sorted_state_set_def sort_key_map comp_def atom)
  have relation: "sorted_relation (sorted_relation r) = sorted_relation r" for r
    by (simp add: sorted_relation_def)
  have forbidden: "sorted_forbidden (sorted_forbidden f) = sorted_forbidden f" for f
    by (simp add: sorted_forbidden_def)
  have keys: "relation_constraint_id (sorted_relation r) = relation_constraint_id r"
    "forbidden_constraint_id (sorted_forbidden f) = forbidden_constraint_id f" for r f
    by (simp_all add: sorted_relation_def sorted_forbidden_def)
  show ?thesis
    unfolding sorted_problem_def by (simp add: sort_key_map comp_def state relation forbidden keys)
qed

subsection \<open>Round trips\<close>

text \<open>Every timestamp of the problem lies in the years 1 to 9999 of \<open>datetime\<close>.\<close>

definition representable_key :: "SettlementObservationKey \<Rightarrow> bool" where
  "representable_key k \<longleftrightarrow> representable (observation_start k) \<and> representable (observation_end k)"

definition representable_problem :: "ArbitrageProblem \<Rightarrow> bool" where
  "representable_problem p \<longleftrightarrow>
     representable (as_of p)
     \<and> list_all (\<lambda>a. representable_key (settlement_observation_key a)) (actions p)
     \<and> list_all (\<lambda>s. representable_key (state_observation_key s)
          \<and> list_all (\<lambda>a. pred_option representable (capital_release_at a)) (atoms s)) (terminal_state_sets p)"

lemma problem_read:
  assumes wf: "wf_problem p" and dates: "representable_problem p"
  shows "problem_from_payload allow (problem_payload p) = accepted_problem allow (sorted_problem p)"
proof -
  have acts: "decode_list action_from_payload (JList (map action_payload (sort_key action_id (actions p)))) name
      = Inr (actions (sorted_problem p))" for name
    unfolding sorted_problem_lists using wf dates
    by (intro decode_list_same action_read[of "problem_valuation_unit_id p"])
      (simp_all add: wf_problem_def representable_problem_def representable_key_def list_all_iff)
  have named: "\<not> blank (action_id a)" if "a \<in> set (actions p)" for a
    using that wf by (simp add: wf_problem_def wf_action_def)
  have states: "decode_list state_set_from_payload (JList (map state_set_payload (sort_key state_contract_id (terminal_state_sets p)))) name
      = Inr (terminal_state_sets (sorted_problem p))" for name
    unfolding sorted_problem_lists
  proof (rule decode_list_map)
    fix s assume "s \<in> set (sort_key state_contract_id (terminal_state_sets p))"
    then show "state_set_from_payload (state_set_payload s) = Inr (sorted_state_set s)"
      using wf dates named
      by (intro state_set_read[of p]) (auto simp: wf_problem_def representable_problem_def representable_key_def list_all_iff pred_option_def)
  qed
  have rels: "decode_list relation_from_payload (JList (map relation_payload (sort_key relation_constraint_id (relations (constraint_model p))))) name
      = Inr (relations (constraint_model (sorted_problem p)))" for name
    unfolding sorted_problem_lists using wf
    by (intro decode_list_map relation_read[of p]) (auto simp: wf_problem_def wf_state_set_def)
  have forb: "decode_list forbidden_from_payload
        (JList (map forbidden_payload (sort_key forbidden_constraint_id (forbidden_atom_combinations (constraint_model p))))) name
      = Inr (forbidden_atom_combinations (constraint_model (sorted_problem p)))" for name
    unfolding sorted_problem_lists using wf
    by (intro decode_list_map forbidden_read[of p]) (auto simp: wf_problem_def wf_state_set_def wf_atom_def)
  have quals: "decode_list qualification_from_payload
        (JList (map qualification_payload (sort_key qualification_id (qualification_constraints p)))) name
      = Inr (qualification_constraints (sorted_problem p))" for name
    unfolding sorted_problem_lists using wf
    by (intro decode_list_same qualification_read) (simp add: wf_problem_def)
  have schema: "\<not> blank PROBLEM_SCHEMA_V1"
    by (simp add: PROBLEM_SCHEMA_V1_def blank_def py_space_def)
  have parts: "schema_version p = PROBLEM_SCHEMA_V1" "\<not> blank (problem_id p)" "\<not> blank (problem_valuation_unit_id p)"
      "representable (as_of p)"
    using wf dates by (simp_all add: wf_problem_def representable_problem_def)
  have whole: "\<lparr>schema_version = PROBLEM_SCHEMA_V1, problem_id = problem_id p, as_of = as_of p,
      problem_valuation_unit_id = problem_valuation_unit_id p, actions = actions (sorted_problem p),
      terminal_state_sets = terminal_state_sets (sorted_problem p),
      constraint_model = \<lparr>relations = relations (constraint_model (sorted_problem p)),
        forbidden_atom_combinations = forbidden_atom_combinations (constraint_model (sorted_problem p))\<rparr>,
      qualification_constraints = qualification_constraints (sorted_problem p)\<rparr> = sorted_problem p"
    using parts(1) by (simp add: sorted_problem_def)
  show ?thesis
    by (simp add: problem_from_payload_def problem_payload_def constraint_model_payload_def decode_simps acts states rels forb quals
        PROBLEM_FIELDS_def schema parts whole)
qed

text \<open>C24. Reading back what the encoder wrote gives the problem in canonical order: for every valid problem whose
  timestamps are in the range of \<open>datetime\<close>, \<open>problem_from_payload\<close> applied to the canonical payload returns the sorted
  problem, with every id, integer, enum, timestamp and rule version unchanged, whether or not unknown data is allowed.\<close>

theorem problem_round_trip:
  assumes "wf_problem p" "representable_problem p"
  shows "problem_from_payload allow (problem_payload p) = Inr (sorted_problem p)"
proof -
  have "validate_problem (sorted_problem p) = []"
    using sorted_problem_wf[OF assms(1)] by (simp add: validate_problem_Nil_iff)
  then show ?thesis
    by (simp add: problem_read[OF assms] accepted_problem_def)
qed

lemma sample_representable: "representable_problem sample_problem"
  by (simp add: representable_problem_def representable_key_def sample_defs representable_def usec_per_day_def)

theorem problem_round_trip_witness: "problem_from_payload False (problem_payload sample_problem) = Inr (sorted_problem sample_problem)"
  using problem_round_trip[OF sample_wf sample_representable] .

text \<open>What the strict reader accepts is valid and canonical: whatever the JSON value, a problem that
  \<open>problem_from_payload\<close> returns without \<open>allow_unknown_data\<close> is well formed and already in the canonical order.\<close>

theorem decoded_problem_valid:
  assumes "problem_from_payload False v = Inr p"
  shows "wf_problem p \<and> sorted_problem p = p"
proof -
  obtain q where "accepted_problem False q = Inr p"
    using assms by (auto simp: problem_from_payload_def decode_error_def split: if_splits)
  then have "wf_problem q" "p = sorted_problem q"
    by (auto simp: accepted_problem_def decode_error_def Let_def validate_problem_Nil_iff split: if_splits)
  then show ?thesis
    using sorted_problem_wf by simp
qed

theorem decoded_problem_valid_witness:
  "wf_problem (sorted_problem sample_problem) \<and> sorted_problem (sorted_problem sample_problem) = sorted_problem sample_problem"
  using decoded_problem_valid[of "problem_payload sample_problem"] sorted_problem_wf[OF sample_wf]
    problem_read[OF sample_wf sample_representable, of False]
  by (simp add: accepted_problem_def validate_problem_Nil_iff)

text \<open>The same for a request, whose problem part is read with unknown data allowed.\<close>

definition wf_request :: "OracleRequest \<Rightarrow> bool" where
  "wf_request r \<longleftrightarrow>
     request_schema_version r = REQUEST_SCHEMA_V1 \<and> wf_problem (request_problem r)
     \<and> (\<forall>n \<in> {max_quantity_vectors (request_budget r), max_joint_states (request_budget r), max_support_rechecks (request_budget r)}.
          0 < n \<and> in_int64 n)"

lemma request_round_trip:
  assumes "wf_request r" "representable_problem (request_problem r)"
  shows "request_from_payload (request_payload r) = Inr (r\<lparr>request_problem := sorted_problem (request_problem r)\<rparr>)"
proof -
  obtain kvs where kvs: "problem_payload (request_problem r) = JObj kvs" "set (map fst kvs) = set PROBLEM_FIELDS"
    by (simp add: problem_payload_def PROBLEM_FIELDS_def)
  have "wf_problem (request_problem r)"
    using assms(1) by (simp add: wf_request_def)
  then have "problem_from_payload True (JObj kvs) = Inr (sorted_problem (request_problem r))"
    using problem_read[OF _ assms(2), of True] sorted_problem_wf
    by (simp add: accepted_problem_def validate_problem_Nil_iff flip: kvs(1))
  moreover have "budget_from_payload (budget_payload (request_budget r)) = Inr (request_budget r)"
    using assms(1) by (simp add: budget_from_payload_def budget_payload_def wf_request_def decode_simps)
  moreover have "\<not> blank REQUEST_SCHEMA_V1" "request_schema_version r = REQUEST_SCHEMA_V1"
    using assms(1) by (simp_all add: wf_request_def REQUEST_SCHEMA_V1_def blank_def py_space_def)
  ultimately show ?thesis
    using kvs(2) by (simp add: request_from_payload_def request_payload_def decode_simps kvs(1))
qed

end
