(* ===== verification/NLeg_Preflight.thy ===== *)
theory NLeg_Preflight
  imports Book_Cost NLeg_Decode Driver_Facts
begin

section \<open>The preflight of a frozen solution\<close>

text \<open>
  \<open>preflight\<close> of \<^verbatim>\<open>prediction_n_leg_preflight.py\<close>: a frozen row is checked against fresh books right before its admission.
  The checks run in the order of the code and the first one that fails gives the reason: age of the quotes, skew between the
  legs, sequences, depth and cost of the frozen quantities, fees, qualification, the cap per trade and the price
  bounds. The result carries the rows recorded on the way. A value that the code fills in with figures of different kinds
  is a \<open>detail\<close>. The driver passes the policy of the mode contract, so it is a \<open>Policy\<close> here; spans are in microseconds.

  The main results: a preflight passes exactly when its conditions hold, and a driver that runs it sends orders only for
  rows that passed.
\<close>

datatype detail =
    NoDetail
  | Amount int
  | Named string
  | Span int
  | Spans "(string \<times> int) list"
  | Amounts "(string \<times> int) list"
  | MarginDays rat int

record CheckRow =
  row_key :: string
  row_passed :: bool
  row_value :: detail
  row_threshold :: detail

record PreflightResult =
  preflight_ok :: bool
  preflight_reason :: string
  preflight_checks :: "CheckRow list"
  result_fresh_cost :: detail
  result_net_profit :: detail

definition check :: "string \<Rightarrow> bool \<Rightarrow> detail \<Rightarrow> detail \<Rightarrow> CheckRow" where
  "check key passed v t = \<lparr>row_key = key, row_passed = passed, row_value = v, row_threshold = t\<rparr>"

definition fail :: "CheckRow list \<Rightarrow> string \<Rightarrow> detail \<Rightarrow> detail \<Rightarrow> PreflightResult" where
  "fail checks reason cost profit = \<lparr>preflight_ok = False, preflight_reason = reason, preflight_checks = checks,
     result_fresh_cost = cost, result_net_profit = profit\<rparr>"

subsection \<open>Reading the configuration and the frozen row\<close>

definition config_int :: "json \<Rightarrow> string \<Rightarrow> int \<Rightarrow> int" where
  "config_int config key fallback =
     (case map_of (mapping_or_empty config) key of
        None \<Rightarrow> fallback
      | Some v \<Rightarrow> (case int_of_json v of Inl _ \<Rightarrow> fallback | Inr n \<Rightarrow> if 0 < n then n else fallback))"

definition int_or_zero :: "json \<Rightarrow> int" where
  "int_or_zero v = (case int_of_json v of Inl _ \<Rightarrow> 0 | Inr n \<Rightarrow> n)"

text \<open>\<open>str(row.get("action_id") or "")\<close> and \<open>int(row.get("quantity_lots") or 0)\<close>; no action is named like the text of a container.\<close>

definition row_quantity :: "(string \<times> json) list \<Rightarrow> (string \<times> int) result" where
  "row_quantity row =
     (let lots = json_get row ''quantity_lots'' in
      rbind (if falsy lots then Inr 0 else int_of_json lots) (\<lambda>n. Inr (display_text (json_get row ''action_id''), n)))"

definition block_quantities :: "json \<Rightarrow> (string \<times> int) list result" where
  "block_quantities block =
     (case json_get (mapping_or_empty block) ''quantities'' of
        JList rows \<Rightarrow>
          rbind (result_map row_quantity (concat (map (\<lambda>r. case r of JObj kvs \<Rightarrow> [kvs] | _ \<Rightarrow> []) rows)))
            (\<lambda>qs. Inr (fold (\<lambda>(k, n). AList.update k n) qs []))
      | _ \<Rightarrow> Inr [])"

definition frozen_quantities :: "(string \<times> json) list \<Rightarrow> (string \<times> int) list result" where
  "frozen_quantities frozen =
     rbind (block_quantities (json_get frozen ''execution'')) (\<lambda>qs.
     if qs \<noteq> [] then Inr qs else block_quantities (json_get frozen ''market''))"

text \<open>The blocks of the frozen row and the figures the code reads from them.\<close>

definition frozen_market :: "(string \<times> json) list \<Rightarrow> (string \<times> json) list" where
  "frozen_market frozen = mapping_or_empty (json_get frozen ''market'')"

definition units_per_dollar :: "(string \<times> json) list \<Rightarrow> int" where
  "units_per_dollar market =
     (let n = int_or_zero (json_get market ''component_usd_units_per_dollar'') in if n = 0 then USD_UNITS_PER_DOLLAR else n)"

definition frozen_payout :: "(string \<times> json) list \<Rightarrow> int" where
  "frozen_payout market = int_or_zero (json_get market ''bounded_payout_units'')"

definition proven_bound :: "(string \<times> json) list \<Rightarrow> int" where
  "proven_bound market = int_or_zero (json_get market ''bounded_cost_units'')"

definition executed_cost :: "(string \<times> json) list \<Rightarrow> int" where
  "executed_cost frozen =
     int_or_zero (or_else (map_of (mapping_or_empty (json_get frozen ''execution'')) ''capital_use_units'')
       (json_get (frozen_market frozen) ''bounded_cost_units''))"

definition DEFAULT_MAX_QUOTE_AGE_SECONDS :: int where
  "DEFAULT_MAX_QUOTE_AGE_SECONDS = 10"

definition DEFAULT_MAX_CROSS_LEG_SKEW_SECONDS :: int where
  "DEFAULT_MAX_CROSS_LEG_SKEW_SECONDS = 5"

definition legs_by_id :: "ComponentSnapshot \<Rightarrow> (string \<times> SnapshotLeg) list" where
  "legs_by_id s = fold (\<lambda>l. AList.update (SnapshotLeg.leg_id l) l) (snapshot_legs s) []"

definition sorted_items :: "(string \<times> 'a) list \<Rightarrow> (string \<times> 'a) list" where
  "sorted_items kvs = sort_key fst kvs"

subsection \<open>Freshness, skew and sequences\<close>

definition leg_age :: "instant \<Rightarrow> SnapshotLeg \<Rightarrow> int option" where
  "leg_age now l = map_option (\<lambda>t. now - t) (received_at l)"

definition leg_stale :: "instant \<Rightarrow> int \<Rightarrow> SnapshotLeg \<Rightarrow> bool" where
  "leg_stale now max_age l = (case leg_age now l of None \<Rightarrow> True | Some age \<Rightarrow> age < 0 \<or> max_age * usec_per_second < age)"

definition leg_ages :: "instant \<Rightarrow> (string \<times> SnapshotLeg) list \<Rightarrow> (string \<times> int) list" where
  "leg_ages now lmap = concat (map (\<lambda>(i, l). case leg_age now l of None \<Rightarrow> [] | Some age \<Rightarrow> [(i, age)]) (sorted_items lmap))"

definition leg_skew :: "(string \<times> SnapshotLeg) list \<Rightarrow> int option" where
  "leg_skew lmap =
     (let times = List.map_filter (\<lambda>(_, l). exchange_time l) lmap in
      case times of
        t # ts \<Rightarrow> if length times = length lmap then Some (fold max ts t - fold min ts t) else None
      | [] \<Rightarrow> None)"

datatype sequence_verdict = SequenceMissing | SequenceRegressed int int | SequenceFine int

definition judge_sequence :: "(string \<times> json) list \<Rightarrow> string \<times> SnapshotLeg \<Rightarrow> sequence_verdict" where
  "judge_sequence baselines il =
     (case leg_sequence (snd il) of
        None \<Rightarrow> SequenceMissing
      | Some n \<Rightarrow>
          if n < 0 then SequenceMissing
          else (case json_get baselines (fst il) of
                  JInt b \<Rightarrow> if n < b then SequenceRegressed n b else SequenceFine n
                | _ \<Rightarrow> SequenceFine n))"

fun sequence_check :: "string \<Rightarrow> sequence_verdict \<Rightarrow> CheckRow list" where
  "sequence_check i SequenceMissing = [check ''sequence'' False (Named i) (Named ''present+monotonic'')]"
| "sequence_check i (SequenceRegressed n b) = [check ''sequence'' False (Amount n) (Amount b)]"
| "sequence_check i (SequenceFine n) = []"

fun is_regressed :: "sequence_verdict \<Rightarrow> bool" where
  "is_regressed (SequenceRegressed _ _) = True"
| "is_regressed _ = False"

definition sequence_values :: "(string \<times> json) list \<Rightarrow> (string \<times> SnapshotLeg) list \<Rightarrow> (string \<times> int) list" where
  "sequence_values baselines items =
     concat (map (\<lambda>il. case judge_sequence baselines il of SequenceFine n \<Rightarrow> [(fst il, n)] | _ \<Rightarrow> []) items)"

subsection \<open>Depth and cost\<close>

fun leg_cost_loop :: "int \<Rightarrow> ExecutableCostSlice list \<Rightarrow> int \<Rightarrow> int \<Rightarrow> int \<times> int" where
  "leg_cost_loop quantity [] spent covered = (spent, covered)"
| "leg_cost_loop quantity (c # cs) spent covered =
     (let lots = min quantity (last_lot c) - max 1 (first_lot c) + 1;
          spent' = (if 0 < lots then spent + lots * incremental_cost_upper_bound_units c else spent);
          covered' = (if 0 < lots then covered + lots else covered)
      in if quantity \<le> covered' then (spent', covered') else leg_cost_loop quantity cs spent' covered')"

definition leg_cost :: "SnapshotLeg \<Rightarrow> CandidateAction \<Rightarrow> int \<Rightarrow> int \<Rightarrow> (int \<times> bool) result" where
  "leg_cost l a quantity units =
     rbind (cost_slices_from_book a (leg_book l) (default_pricing units)) (\<lambda>slices.
     let (spent, covered) = leg_cost_loop quantity slices 0 0 in Inr (spent, quantity \<le> covered))"

definition frozen_actions :: "(string \<times> json) list \<Rightarrow> (string \<times> CandidateAction) list result" where
  "frozen_actions market =
     (case json_get market ''problem'' of
        JObj kvs \<Rightarrow>
          (case problem_from_payload False (JObj kvs) of
             Inl e \<Rightarrow> if e = TypeError \<or> is_value_error e then Inr [] else Inl e
           | Inr p \<Rightarrow> Inr (fold (\<lambda>a. AList.update (action_id a) a) (actions p) []))
      | _ \<Rightarrow> Inr [])"

text \<open>One frozen quantity: its cost in the fresh book, or the row that says that it cannot be filled.\<close>

definition frozen_leg_cost ::
  "(string \<times> SnapshotLeg) list \<Rightarrow> (string \<times> CandidateAction) list \<Rightarrow> int \<Rightarrow> string \<times> int \<Rightarrow> (int \<times> bool) result" where
  "frozen_leg_cost lmap acts units iq =
     (case (map_of lmap (fst iq), map_of acts (fst iq)) of
        (Some l, Some a) \<Rightarrow> if snd iq \<le> 0 then Inr (0, False) else leg_cost l a (snd iq) units
      | _ \<Rightarrow> Inr (0, False))"

subsection \<open>Qualification\<close>

definition special_error :: "string \<Rightarrow> py_error" where
  "special_error name =
     (if name = ''Infinity'' \<or> name = ''-Infinity'' then OverflowError
      else if take 4 name = ''sNaN'' \<or> take 5 name = ''-sNaN'' then ArithmeticError
      else ValueError ''cannot convert NaN to integer'')"

text \<open>\<open>int(d * units)\<close>, truncated towards zero, and \<open>x < d\<close>.\<close>

definition dec_units :: "decimal \<Rightarrow> int \<Rightarrow> int result" where
  "dec_units d units =
     (case d of
        NonFinite name \<Rightarrow> Inl (special_error name)
      | Finite _ _ _ \<Rightarrow>
          rbind (dec_times (decimal_value d) (of_int units)) (\<lambda>x. Inr (if x < 0 then \<lceil>x\<rceil> else \<lfloor>x\<rfloor>)))"

definition dec_less :: "rat \<Rightarrow> decimal \<Rightarrow> bool result" where
  "dec_less x d =
     (case d of
        NonFinite name \<Rightarrow>
          if name = ''Infinity'' then Inr True else if name = ''-Infinity'' then Inr False else Inl ArithmeticError
      | Finite _ _ _ \<Rightarrow> Inr (x < decimal_value d))"

definition parse_release_at :: "json \<Rightarrow> instant option" where
  "parse_release_at v =
     (case v of
        JStr s \<Rightarrow>
          (case fromisoformat (concat (map (\<lambda>ch. if ch = CHR ''Z'' then ''+00:00'' else [ch]) s)) of
             Aware t \<Rightarrow> Some t
           | _ \<Rightarrow> None)
      | _ \<Rightarrow> None)"

definition release_days :: "instant \<Rightarrow> instant \<Rightarrow> int" where
  "release_days release_at now = max 1 (- (- (release_at - now) div (24 * 3600 * usec_per_second)))"

definition qualification_check ::
  "Policy option \<Rightarrow> int \<Rightarrow> int \<Rightarrow> (string \<times> json) list \<Rightarrow> instant \<Rightarrow> (bool \<times> detail) result" where
  "qualification_check policy net_profit payout market now =
     (case policy of
        None \<Rightarrow> Inr (False, Named ''min_profit'')
      | Some pol \<Rightarrow>
          (case parse_decimal (min_profit_usd pol) of
             None \<Rightarrow> Inr (False, Named ''min_profit'')
           | Some least \<Rightarrow>
               rbind (dec_units least USD_UNITS_PER_DOLLAR) (\<lambda>least_units.
               if net_profit < least_units then Inr (False, Named ''min_profit'')
               else
                 case parse_decimal (min_net_margin pol) of
                   None \<Rightarrow> Inr (False, Named ''net_margin'')
                 | Some least_margin \<Rightarrow>
                     if payout \<le> 0 then Inr (False, Named ''net_margin'')
                     else
                       rbind (dec_divide (of_int net_profit) (of_int payout)) (\<lambda>margin.
                       rbind (dec_less margin least_margin) (\<lambda>thin.
                       if thin then Inr (False, Named ''net_margin'')
                       else
                         case parse_release_at (json_get market ''capital_release_at'') of
                           None \<Rightarrow> Inr (False, Named ''capital_release'')
                         | Some release_at \<Rightarrow>
                             let days = release_days release_at now in
                             if release_at \<le> now \<or> max_capital_release_days pol < days then Inr (False, Named ''capital_release'')
                             else
                               case parse_decimal (min_annualized_return pol) of
                                 None \<Rightarrow> Inr (False, Named ''annualized_return'')
                               | Some least_return \<Rightarrow>
                                   rbind (dec_times margin 365) (\<lambda>yearly.
                                   rbind (dec_divide yearly (of_int days)) (\<lambda>annualized.
                                   rbind (dec_less annualized least_return) (\<lambda>low.
                                   if low then Inr (False, Named ''annualized_return'') else Inr (True, MarginDays margin days)))))))))"

subsection \<open>The preflight\<close>

text \<open>The later half, from the fees on: \<open>checks\<close> are the rows recorded so far.\<close>

definition preflight_prices ::
  "(string \<times> json) list \<Rightarrow> (string \<times> SnapshotLeg) list \<Rightarrow> json \<Rightarrow> Policy option \<Rightarrow> instant \<Rightarrow> CheckRow list \<Rightarrow> int
     \<Rightarrow> PreflightResult result" where
  "preflight_prices frozen lmap config policy now checks fresh_cost =
     (let fee_known = list_all (\<lambda>(_, l). taker_fee_bps (leg_book l) \<noteq> None) lmap;
          checks = checks @ [check ''fee_known'' fee_known (Amount fresh_cost) (Named ''modeled'')]
      in
      if \<not> fee_known then Inr (fail checks ''FEE_UNKNOWN'' (Amount fresh_cost) NoDetail)
      else
        let market = frozen_market frozen;
            payout = frozen_payout market;
            net_profit = payout - fresh_cost
        in
        rbind (qualification_check policy net_profit payout market now) (\<lambda>(qualified, facts).
        let checks = checks @ [check ''qualification'' qualified (Amount net_profit) facts] in
        if \<not> qualified then Inr (fail checks ''NOT_QUALIFIED'' (Amount fresh_cost) (Amount net_profit))
        else
          let cap = config_int config ''max_per_trade_cost_units'' 0;
              cap_ok = (cap \<le> 0 \<or> fresh_cost \<le> cap);
              checks = checks @ [check ''per_trade_cap'' cap_ok (Amount fresh_cost) (if cap = 0 then NoDetail else Amount cap)]
          in
          if \<not> cap_ok then Inr (fail checks ''PER_TRADE_CAP_EXCEEDED'' (Amount fresh_cost) (Amount cap))
          else
            let bound = proven_bound market;
                better = (fresh_cost \<le> executed_cost frozen);
                in_bound = (better \<or> fresh_cost \<le> bound \<and> 0 \<le> net_profit);
                checks = checks @ [check ''price_bounds'' in_bound (Amount fresh_cost) (Amount bound)]
            in
            if in_bound
            then Inr \<lparr>preflight_ok = True, preflight_reason = (if better then ''PASS'' else ''PRICE_WITHIN_BOUNDS''), preflight_checks = checks,
                   result_fresh_cost = Amount fresh_cost, result_net_profit = Amount net_profit\<rparr>
            else Inr (fail checks ''PRICE_BEYOND_BOUND'' (Amount fresh_cost) (Amount bound))))"

text \<open>The middle: depth and cost of the frozen quantities.\<close>

definition preflight_depth ::
  "(string \<times> json) list \<Rightarrow> (string \<times> SnapshotLeg) list \<Rightarrow> (string \<times> int) list \<Rightarrow> json \<Rightarrow> Policy option \<Rightarrow> instant \<Rightarrow> CheckRow list
     \<Rightarrow> PreflightResult result" where
  "preflight_depth frozen lmap quantities config policy now checks =
     (let market = frozen_market frozen;
          wanted = sorted_items quantities
      in
      rbind (frozen_actions market) (\<lambda>acts.
      rbind (result_map (frozen_leg_cost lmap acts (units_per_dollar market)) wanted) (\<lambda>costs.
      let fresh_cost = sum_list (map fst costs);
          deep = (quantities \<noteq> [] \<and> set (map fst quantities) = set (map fst lmap) \<and> list_all snd costs);
          thin = filter (\<lambda>(_, c). \<not> snd c) (zip wanted costs);
          checks = checks @ map (\<lambda>(iq, _). check ''depth'' False (Named (fst iq)) (Amount (snd iq))) thin
      in
      if \<not> deep then Inr (fail checks ''DEPTH_EXHAUSTED'' (Amount fresh_cost) (Amount (sum_list (map snd quantities))))
      else
        preflight_prices frozen lmap config policy now
          (checks @ [check ''depth'' True (Amount fresh_cost) (Named ''frozen quantities covered'')]) fresh_cost)))"

definition preflight_check ::
  "(string \<times> json) list \<Rightarrow> ComponentSnapshot \<Rightarrow> json \<Rightarrow> Policy option \<Rightarrow> instant \<Rightarrow> PreflightResult result" where
  "preflight_check frozen books config policy now =
     (let lmap = legs_by_id books;
          items = sorted_items lmap
      in
      rbind (frozen_quantities frozen) (\<lambda>quantities.
      let max_age = config_int config ''max_quote_age_seconds'' DEFAULT_MAX_QUOTE_AGE_SECONDS;
          max_skew = config_int config ''max_cross_leg_skew_seconds'' DEFAULT_MAX_CROSS_LEG_SKEW_SECONDS;
          stale = filter (\<lambda>il. leg_stale now max_age (snd il)) items;
          checks = map (\<lambda>il. check ''quote_age'' False (Named (fst il)) (Amount max_age)) stale
      in
      if stale \<noteq> [] then Inr (fail checks ''QUOTE_STALE'' (Spans (leg_ages now lmap)) NoDetail)
      else
        let skew = leg_skew lmap;
            skew_ok = (case skew of None \<Rightarrow> False | Some d \<Rightarrow> d \<le> max_skew * usec_per_second);
            spread = (case skew of None \<Rightarrow> NoDetail | Some d \<Rightarrow> Span d);
            checks = checks @ [check ''cross_leg_skew'' skew_ok spread (Amount max_skew)]
        in
        if \<not> skew_ok then Inr (fail checks ''CROSS_LEG_SKEW'' spread (Amount max_skew))
        else
          let baselines = mapping_or_empty (json_get frozen ''sequences'');
              verdicts = map (judge_sequence baselines) items;
              checks = checks @ concat (map (\<lambda>(il, v). sequence_check (fst il) v) (zip items verdicts))
          in
          if SequenceMissing \<in> set verdicts then Inr (fail checks ''SEQUENCE_MISSING'' (Amounts (sequence_values baselines items)) NoDetail)
          else if list_ex is_regressed verdicts
          then Inr (fail checks ''SEQUENCE_REGRESSED'' (Amounts (sequence_values baselines items)) NoDetail)
          else preflight_depth frozen lmap quantities config policy now checks))"

text \<open>What the driver reads of the result: the reason of a refusal.\<close>

definition checked_preflight :: "json \<Rightarrow> ComponentSnapshot \<Rightarrow> json \<Rightarrow> Policy option \<Rightarrow> instant \<Rightarrow> string option result" where
  "checked_preflight frozen books config policy now =
     rbind (preflight_check (mapping_or_empty frozen) books config policy now) (\<lambda>r.
     Inr (if preflight_ok r then None else Some (preflight_reason r)))"

subsection \<open>The cost of a leg is the price of its first lots\<close>

definition offered_lots :: "CandidateAction \<Rightarrow> LegBook \<Rightarrow> int \<Rightarrow> int list result" where
  "offered_lots a b units =
     rbind (book_levels a b) (\<lambda>ls. book_lots a (default_pricing units) (book_fee_rate b) ls (nat (max_quantity_lots a)))"

lemma leg_cost_loop_sum:
  assumes "contiguous covered cs" "0 \<le> covered" "covered < q"
  shows "leg_cost_loop q cs spent covered
    = (spent + sum_list (take (nat (q - covered)) (lot_costs cs)), covered + min (q - covered) (int (length (lot_costs cs))))"
  using assms
proof (induction cs arbitrary: spent covered)
  case (Cons c cs)
  let ?n = "last_lot c - first_lot c + 1" and ?v = "incremental_cost_upper_bound_units c"
  have c: "first_lot c = covered + 1" "0 < ?n" "contiguous (last_lot c) cs" "last_lot c = covered + ?n"
    using Cons.prems by simp_all
  have costs: "lot_costs (c # cs) = replicate (nat ?n) ?v @ lot_costs cs"
    by (simp add: lot_costs_def)
  show ?case
  proof (cases "q \<le> last_lot c")
    case True
    then have "take (nat (q - covered)) (lot_costs (c # cs)) = replicate (nat (q - covered)) ?v"
      using c Cons.prems unfolding costs by (simp add: take_append min_def)
    then show ?thesis
      using True c Cons.prems unfolding costs by (simp add: sum_list_replicate Let_def)
  next
    case False
    then have lots: "min q (last_lot c) - max 1 (first_lot c) + 1 = ?n"
      using c Cons.prems by simp
    have "nat (q - covered) = nat ?n + nat (q - last_lot c)"
      using False c by simp
    then have first: "sum_list (take (nat (q - covered)) (lot_costs (c # cs))) = ?n * ?v + sum_list (take (nat (q - last_lot c)) (lot_costs cs))"
      unfolding costs using c(2) by (simp add: sum_list_replicate)
    have "leg_cost_loop q (c # cs) spent covered = leg_cost_loop q cs (spent + ?n * ?v) (last_lot c)"
      unfolding leg_cost_loop.simps Let_def lots using False c(2) by (simp only: c(4)[symmetric] if_True if_False)
    also have "\<dots> = (spent + ?n * ?v + sum_list (take (nat (q - last_lot c)) (lot_costs cs)),
        last_lot c + min (q - last_lot c) (int (length (lot_costs cs))))"
      using False c Cons.prems by (intro Cons.IH) auto
    also have "last_lot c + min (q - last_lot c) (int (length (lot_costs cs))) = covered + min (q - covered) (int (length (lot_costs (c # cs))))"
      using c unfolding costs by (simp add: min_def)
    finally show ?thesis
      by (simp add: first)
  qed
qed (simp add: lot_costs_def)

lemma leg_cost_exact:
  assumes "1 \<le> max_quantity_lots a" "0 < q"
  shows "leg_cost l a q units
    = rbind (offered_lots a (leg_book l) units) (\<lambda>cs. Inr (sum_list (take (nat q) cs), nat q \<le> length cs))"
proof (cases "cost_slices_from_book a (leg_book l) (default_pricing units)")
  case (Inl e)
  then have "offered_lots a (leg_book l) units = Inl e"
    using cost_slices_exact[OF assms(1), of "leg_book l" "default_pricing units"] by (simp add: offered_lots_def)
  then show ?thesis
    using Inl by (simp add: leg_cost_def)
next
  case (Inr s)
  then have "offered_lots a (leg_book l) units = Inr (lot_costs s)" "contiguous 0 s"
    using cost_slices_exact[OF assms(1), of "leg_book l" "default_pricing units"] by (simp_all add: offered_lots_def)
  then show ?thesis
    using Inr assms(2) leg_cost_loop_sum[of 0 s q 0] by (simp add: leg_cost_def) (auto simp: min_def)
qed

subsection \<open>The checks, declaratively\<close>

definition timely :: "instant \<Rightarrow> int \<Rightarrow> (string \<times> SnapshotLeg) list \<Rightarrow> bool" where
  "timely now max_age lmap \<longleftrightarrow>
     (\<forall>(_, l) \<in> set lmap. \<exists>t. received_at l = Some t \<and> t \<le> now \<and> now - t \<le> max_age * usec_per_second)"

definition aligned :: "int \<Rightarrow> (string \<times> SnapshotLeg) list \<Rightarrow> bool" where
  "aligned max_skew lmap \<longleftrightarrow>
     lmap \<noteq> [] \<and> (\<forall>(_, l) \<in> set lmap. \<forall>(_, l') \<in> set lmap.
       \<exists>t t'. exchange_time l = Some t \<and> exchange_time l' = Some t' \<and> t - t' \<le> max_skew * usec_per_second)"

definition sequenced :: "(string \<times> json) list \<Rightarrow> (string \<times> SnapshotLeg) list \<Rightarrow> bool" where
  "sequenced baselines lmap \<longleftrightarrow>
     (\<forall>(i, l) \<in> set lmap. \<exists>n. leg_sequence l = Some n \<and> 0 \<le> n \<and> (\<forall>b. json_get baselines i = JInt b \<longrightarrow> b \<le> n))"

text \<open>Every quantity is filled by the first lots that the fresh book of its leg offers, and \<open>cost\<close> is what these lots cost.\<close>

definition fillable ::
  "(string \<times> SnapshotLeg) list \<Rightarrow> (string \<times> CandidateAction) list \<Rightarrow> int \<Rightarrow> (string \<times> int) list \<Rightarrow> int \<Rightarrow> bool" where
  "fillable lmap acts units quantities cost \<longleftrightarrow>
     quantities \<noteq> [] \<and> fst ` set quantities = fst ` set lmap
     \<and> (\<exists>lots. (\<forall>(i, q) \<in> set quantities. 0 < q \<and> nat q \<le> length (lots i)
             \<and> (\<exists>l a. map_of lmap i = Some l \<and> map_of acts i = Some a \<and> offered_lots a (leg_book l) units = Inr (lots i)))
         \<and> cost = (\<Sum>(i, q) \<leftarrow> quantities. sum_list (take (nat q) (lots i))))"

lemma set_sorted_items [simp]: "set (sorted_items kvs) = set kvs"
  by (simp add: sorted_items_def)

lemma stale_iff: "filter (\<lambda>il. leg_stale now max_age (snd il)) (sorted_items lmap) = [] \<longleftrightarrow> timely now max_age lmap"
  by (force simp: filter_empty_conv timely_def leg_stale_def leg_age_def not_less split: option.splits)

lemma fold_max_min:
  fixes t :: int
  shows "fold max ts t - fold min ts t \<le> d \<longleftrightarrow> (\<forall>x \<in> set (t # ts). \<forall>y \<in> set (t # ts). x - y \<le> d)"
proof -
  have "fold max ts t = Max (set (t # ts))" "fold min ts t = Min (set (t # ts))"
    by (simp_all only: Max.set_eq_fold Min.set_eq_fold)
  moreover have "Max (set (t # ts)) - Min (set (t # ts)) \<le> d \<longleftrightarrow> (\<forall>x \<in> set (t # ts). \<forall>y \<in> set (t # ts). x - y \<le> d)"
  proof
    assume le: "Max (set (t # ts)) - Min (set (t # ts)) \<le> d"
    show "\<forall>x \<in> set (t # ts). \<forall>y \<in> set (t # ts). x - y \<le> d"
    proof (intro ballI)
      fix x y
      assume "x \<in> set (t # ts)" "y \<in> set (t # ts)"
      then have "x \<le> Max (set (t # ts))" "Min (set (t # ts)) \<le> y"
        by (intro Max_ge Min_le; simp)+
      then show "x - y \<le> d"
        using le by linarith
    qed
  next
    assume all: "\<forall>x \<in> set (t # ts). \<forall>y \<in> set (t # ts). x - y \<le> d"
    have "Max (set (t # ts)) \<in> set (t # ts)" "Min (set (t # ts)) \<in> set (t # ts)"
      by (intro Max_in Min_in; simp)+
    then show "Max (set (t # ts)) - Min (set (t # ts)) \<le> d"
      using all by blast
  qed
  ultimately show ?thesis
    by simp
qed

lemma map_filter_all: "length (List.map_filter f xs) = length xs \<longleftrightarrow> (\<forall>x \<in> set xs. f x \<noteq> None)"
  unfolding map_filter_def length_map by (metis (mono_tags, lifting) filter_True length_filter_less less_irrefl)

lemma set_map_filter_some: "set (List.map_filter f xs) = {y. \<exists>x \<in> set xs. f x = Some y}"
  by (force simp: map_filter_def image_iff)

lemma skew_iff: "(case leg_skew lmap of None \<Rightarrow> False | Some d \<Rightarrow> d \<le> max_skew * usec_per_second) \<longleftrightarrow> aligned max_skew lmap"
proof (cases "lmap \<noteq> [] \<and> (\<forall>il \<in> set lmap. exchange_time (snd il) \<noteq> None)")
  case True
  let ?times = "List.map_filter (\<lambda>(_, l). exchange_time l) lmap"
  have len: "length ?times = length lmap"
    using True by (simp add: map_filter_all case_prod_unfold)
  then obtain t ts where times: "?times = t # ts"
    using True by (cases ?times) auto
  have "(case leg_skew lmap of None \<Rightarrow> False | Some d \<Rightarrow> d \<le> max_skew * usec_per_second)
    \<longleftrightarrow> (\<forall>x \<in> set ?times. \<forall>y \<in> set ?times. x - y \<le> max_skew * usec_per_second)"
    using len by (simp only: leg_skew_def times Let_def list.case if_True option.case fold_max_min simp_thms)
  also have "set ?times = (\<lambda>il. the (exchange_time (snd il))) ` set lmap"
    using True by (force simp: set_map_filter_some)
  also have "(\<forall>x \<in> (\<lambda>il. the (exchange_time (snd il))) ` set lmap. \<forall>y \<in> (\<lambda>il. the (exchange_time (snd il))) ` set lmap.
      x - y \<le> max_skew * usec_per_second)
    \<longleftrightarrow> (\<forall>il \<in> set lmap. \<forall>il' \<in> set lmap. \<exists>t t'. exchange_time (snd il) = Some t \<and> exchange_time (snd il') = Some t'
          \<and> t - t' \<le> max_skew * usec_per_second)"
    unfolding ball_simps using True by (intro ball_cong refl) (metis option.collapse option.sel)
  also have "\<dots> \<longleftrightarrow> aligned max_skew lmap"
    using True by (simp add: aligned_def case_prod_unfold)
  finally show ?thesis .
next
  case False
  then have "\<not> aligned max_skew lmap"
    unfolding aligned_def by fastforce
  moreover have "leg_skew lmap = None"
  proof (cases "lmap = []")
    case False
    then have "length (List.map_filter (\<lambda>(_, l). exchange_time l) lmap) \<noteq> length lmap"
      using \<open>\<not> (lmap \<noteq> [] \<and> _)\<close> by (simp add: map_filter_all case_prod_unfold)
    then show ?thesis
      by (cases "List.map_filter (\<lambda>(_, l). exchange_time l) lmap") (simp_all add: leg_skew_def)
  qed (simp add: leg_skew_def map_filter_simps Let_def)
  ultimately show ?thesis
    by simp
qed

lemma judged_fine_iff:
  "(\<exists>n. judge_sequence baselines (i, l) = SequenceFine n)
    \<longleftrightarrow> (\<exists>n. leg_sequence l = Some n \<and> 0 \<le> n \<and> (\<forall>b. json_get baselines i = JInt b \<longrightarrow> b \<le> n))"
  by (auto simp: judge_sequence_def not_less split: option.splits json.splits)

lemma verdicts_iff:
  "SequenceMissing \<notin> set (map (judge_sequence baselines) items) \<and> \<not> list_ex is_regressed (map (judge_sequence baselines) items)
    \<longleftrightarrow> sequenced baselines items"
proof -
  have "v \<noteq> SequenceMissing \<and> \<not> is_regressed v \<longleftrightarrow> (\<exists>n. v = SequenceFine n)" for v
    by (cases v) auto
  then have "sequenced baselines items
      \<longleftrightarrow> (\<forall>il \<in> set items. judge_sequence baselines il \<noteq> SequenceMissing \<and> \<not> is_regressed (judge_sequence baselines il))"
    by (simp add: sequenced_def judged_fine_iff[symmetric] case_prod_unfold)
  then show ?thesis
    by (simp add: list_ex_iff image_iff) metis
qed

lemma sequenced_sorted [simp]: "sequenced baselines (sorted_items lmap) \<longleftrightarrow> sequenced baselines lmap"
  by (simp add: sequenced_def)

text \<open>The lots the fresh book of a leg offers, and that they fill a quantity.\<close>

definition fresh_lots :: "(string \<times> SnapshotLeg) list \<Rightarrow> (string \<times> CandidateAction) list \<Rightarrow> int \<Rightarrow> string \<Rightarrow> int list" where
  "fresh_lots lmap acts units i =
     (case (map_of lmap i, map_of acts i) of
        (Some l, Some a) \<Rightarrow> (case offered_lots a (leg_book l) units of Inr cs \<Rightarrow> cs | Inl _ \<Rightarrow> [])
      | _ \<Rightarrow> [])"

definition filled :: "(string \<times> SnapshotLeg) list \<Rightarrow> (string \<times> CandidateAction) list \<Rightarrow> int \<Rightarrow> (string \<Rightarrow> int list) \<Rightarrow> string \<times> int \<Rightarrow> bool" where
  "filled lmap acts units lots = (\<lambda>(i, q). 0 < q \<and> nat q \<le> length (lots i)
     \<and> (\<exists>l a. map_of lmap i = Some l \<and> map_of acts i = Some a \<and> offered_lots a (leg_book l) units = Inr (lots i)))"

definition first_lots_cost :: "(string \<Rightarrow> int list) \<Rightarrow> string \<times> int \<Rightarrow> int" where
  "first_lots_cost lots = (\<lambda>(i, q). sum_list (take (nat q) (lots i)))"

lemma filled_lots: "filled lmap acts units lots (i, q) \<Longrightarrow> lots i = fresh_lots lmap acts units i"
  by (auto simp: filled_def fresh_lots_def)

lemma fillable_iff:
  "fillable lmap acts units quantities cost \<longleftrightarrow>
     quantities \<noteq> [] \<and> fst ` set quantities = fst ` set lmap
     \<and> (\<forall>iq \<in> set quantities. filled lmap acts units (fresh_lots lmap acts units) iq)
     \<and> cost = sum_list (map (first_lots_cost (fresh_lots lmap acts units)) quantities)"
proof -
  let ?L = "fresh_lots lmap acts units"
  have "(\<forall>iq \<in> set quantities. filled lmap acts units lots iq) \<Longrightarrow>
      (\<forall>iq \<in> set quantities. filled lmap acts units ?L iq)
      \<and> map (first_lots_cost lots) quantities = map (first_lots_cost ?L) quantities" for lots
    using filled_lots by (fastforce simp: filled_def first_lots_cost_def)
  then have "(\<exists>lots. (\<forall>iq \<in> set quantities. filled lmap acts units lots iq) \<and> cost = sum_list (map (first_lots_cost lots) quantities))
    \<longleftrightarrow> (\<forall>iq \<in> set quantities. filled lmap acts units ?L iq) \<and> cost = sum_list (map (first_lots_cost ?L) quantities)"
    by metis
  then show ?thesis
    unfolding fillable_def by (simp only: filled_def first_lots_cost_def)
qed

lemma frozen_leg_cost_iff:
  assumes "\<And>i a. map_of acts i = Some a \<Longrightarrow> 1 \<le> max_quantity_lots a"
  shows "frozen_leg_cost lmap acts units iq = Inr cd \<and> snd cd
    \<longleftrightarrow> filled lmap acts units (fresh_lots lmap acts units) iq \<and> cd = (first_lots_cost (fresh_lots lmap acts units) iq, True)"
proof (cases "0 < snd iq \<and> (\<exists>l a. map_of lmap (fst iq) = Some l \<and> map_of acts (fst iq) = Some a)")
  case True
  then obtain l a where la: "map_of lmap (fst iq) = Some l" "map_of acts (fst iq) = Some a" and q: "0 < snd iq"
    by blast
  have cost: "frozen_leg_cost lmap acts units iq
      = rbind (offered_lots a (leg_book l) units) (\<lambda>cs. Inr (sum_list (take (nat (snd iq)) cs), nat (snd iq) \<le> length cs))"
    using la q leg_cost_exact[OF assms[OF la(2)] q] by (simp add: frozen_leg_cost_def)
  show ?thesis
    using la q unfolding cost
    by (cases "offered_lots a (leg_book l) units"; cases cd) (auto simp: filled_def first_lots_cost_def fresh_lots_def case_prod_unfold)
next
  case False
  have "\<not> filled lmap acts units (fresh_lots lmap acts units) iq"
    using False by (cases iq) (auto simp: filled_def)
  moreover have "frozen_leg_cost lmap acts units iq = Inr (0, False)"
    using False by (auto simp: frozen_leg_cost_def split: option.splits)
  ultimately show ?thesis
    by auto
qed

lemma result_map_total_iff:
  assumes "\<And>x y. f x = Inr y \<and> P y \<longleftrightarrow> Q x \<and> y = g x"
  shows "result_map f xs = Inr ys \<and> list_all P ys \<longleftrightarrow> (\<forall>x \<in> set xs. Q x) \<and> ys = map g xs"
proof (induction xs arbitrary: ys)
  case (Cons x xs)
  show ?case
    using Cons assms[of x] by (cases ys) (simp_all, blast)
qed auto

lemma sum_sorted_items: "sum_list (map g (sorted_items kvs)) = (sum_list (map g kvs) :: int)"
  unfolding sorted_items_def by (metis mset_map mset_sort sum_mset_sum_list)

lemma deep_iff:
  assumes "\<And>i a. map_of acts i = Some a \<Longrightarrow> 1 \<le> max_quantity_lots a"
  shows "(\<exists>costs. result_map (frozen_leg_cost lmap acts units) (sorted_items quantities) = Inr costs \<and> cost = sum_list (map fst costs)
      \<and> quantities \<noteq> [] \<and> set (map fst quantities) = set (map fst lmap) \<and> list_all snd costs)
    \<longleftrightarrow> fillable lmap acts units quantities cost"
proof -
  let ?L = "fresh_lots lmap acts units"
  have "result_map (frozen_leg_cost lmap acts units) (sorted_items quantities) = Inr costs \<and> list_all snd costs
    \<longleftrightarrow> (\<forall>iq \<in> set quantities. filled lmap acts units ?L iq) \<and> costs = map (\<lambda>iq. (first_lots_cost ?L iq, True)) (sorted_items quantities)" for costs
    using result_map_total_iff[where f = "frozen_leg_cost lmap acts units" and P = snd, OF frozen_leg_cost_iff[OF assms]] by simp
  moreover have "sum_list (map fst (map (\<lambda>iq. (first_lots_cost ?L iq, True)) (sorted_items quantities))) = sum_list (map (first_lots_cost ?L) quantities)"
    by (simp add: o_def sum_sorted_items)
  ultimately show ?thesis
    unfolding fillable_iff set_map by metis
qed

lemma map_of_indexed: "map_of (fold (\<lambda>a. AList.update (key a) a) xs kvs) i = Some a \<Longrightarrow> a \<in> set xs \<or> map_of kvs i = Some a"
  by (induction xs arbitrary: kvs) (fastforce simp: update_conv' split: if_splits)+

lemma frozen_actions_valid:
  assumes "frozen_actions market = Inr acts" "map_of acts i = Some a"
  shows "1 \<le> max_quantity_lots a"
proof -
  obtain v p where p: "problem_from_payload False v = Inr p" "acts = fold (\<lambda>a. AList.update (action_id a) a) (actions p) []"
    using assms by (auto simp: frozen_actions_def split: json.splits sum.splits if_splits)
  then have "a \<in> set (actions p)"
    using map_of_indexed[of action_id "actions p" "[]" i a] assms(2) by simp
  then show ?thesis
    using decoded_problem_valid[OF p(1)] by (auto simp: wf_problem_def wf_action_def)
qed

subsection \<open>When a preflight passes\<close>

definition passes_at :: "int \<Rightarrow> PreflightResult result \<Rightarrow> bool" where
  "passes_at cost m \<longleftrightarrow> (\<exists>r. m = Inr r \<and> preflight_ok r \<and> result_fresh_cost r = Amount cost)"

lemma passes_at_simps [simp]:
  "\<not> passes_at cost (Inl e)" "\<not> passes_at cost (Inr (fail checks reason c p))"
  "passes_at cost (rbind m f) \<longleftrightarrow> (\<exists>x. m = Inr x \<and> passes_at cost (f x))"
  by (auto simp: passes_at_def fail_def)

lemma passes_at_result [simp]:
  "passes_at cost (Inr \<lparr>preflight_ok = True, preflight_reason = reason, preflight_checks = checks, result_fresh_cost = Amount c, result_net_profit = p\<rparr>)
    \<longleftrightarrow> c = cost"
  by (auto simp: passes_at_def)

definition well_priced :: "(string \<times> json) list \<Rightarrow> (string \<times> SnapshotLeg) list \<Rightarrow> json \<Rightarrow> Policy option \<Rightarrow> instant \<Rightarrow> int \<Rightarrow> bool" where
  "well_priced frozen lmap config policy now cost \<longleftrightarrow>
     (let market = frozen_market frozen; payout = frozen_payout market; cap = config_int config ''max_per_trade_cost_units'' 0 in
      (\<forall>(_, l) \<in> set lmap. taker_fee_bps (leg_book l) \<noteq> None)
      \<and> (\<exists>facts. qualification_check policy (payout - cost) payout market now = Inr (True, facts))
      \<and> (0 < cap \<longrightarrow> cost \<le> cap)
      \<and> (cost \<le> executed_cost frozen \<or> cost \<le> proven_bound market \<and> cost \<le> payout))"

lemma prices_pass: "passes_at cost (preflight_prices frozen lmap config policy now checks c)
    \<longleftrightarrow> c = cost \<and> well_priced frozen lmap config policy now cost"
  unfolding preflight_prices_def Let_def well_priced_def
  by (auto simp: list_all_iff split: prod.splits)

lemma depth_pass: "passes_at cost (preflight_depth frozen lmap quantities config policy now checks)
    \<longleftrightarrow> (\<exists>acts. frozen_actions (frozen_market frozen) = Inr acts
          \<and> fillable lmap acts (units_per_dollar (frozen_market frozen)) quantities cost
          \<and> well_priced frozen lmap config policy now cost)"
proof -
  have pass: "passes_at cost (preflight_depth frozen lmap quantities config policy now checks)
    \<longleftrightarrow> (\<exists>acts. frozen_actions (frozen_market frozen) = Inr acts
          \<and> (\<exists>costs. result_map (frozen_leg_cost lmap acts (units_per_dollar (frozen_market frozen))) (sorted_items quantities) = Inr costs
               \<and> cost = sum_list (map fst costs) \<and> quantities \<noteq> [] \<and> set (map fst quantities) = set (map fst lmap) \<and> list_all snd costs)
          \<and> well_priced frozen lmap config policy now cost)"
    unfolding preflight_depth_def Let_def by (auto simp: prices_pass)
  show ?thesis
    unfolding pass by (intro iff_exI conj_cong refl) (rule deep_iff[OF frozen_actions_valid])
qed

text \<open>What has to hold for a pass at the price \<open>cost\<close>.\<close>

definition admissible :: "(string \<times> json) list \<Rightarrow> ComponentSnapshot \<Rightarrow> json \<Rightarrow> Policy option \<Rightarrow> instant \<Rightarrow> int \<Rightarrow> bool" where
  "admissible frozen books config policy now cost \<longleftrightarrow>
     timely now (config_int config ''max_quote_age_seconds'' DEFAULT_MAX_QUOTE_AGE_SECONDS) (legs_by_id books)
     \<and> aligned (config_int config ''max_cross_leg_skew_seconds'' DEFAULT_MAX_CROSS_LEG_SKEW_SECONDS) (legs_by_id books)
     \<and> sequenced (mapping_or_empty (json_get frozen ''sequences'')) (legs_by_id books)
     \<and> (\<exists>quantities acts. frozen_quantities frozen = Inr quantities \<and> frozen_actions (frozen_market frozen) = Inr acts
          \<and> fillable (legs_by_id books) acts (units_per_dollar (frozen_market frozen)) quantities cost)
     \<and> well_priced frozen (legs_by_id books) config policy now cost"

lemma preflight_pass: "passes_at cost (preflight_check frozen books config policy now) \<longleftrightarrow> admissible frozen books config policy now cost"
proof -
  have step: "passes_at cost (if b then Inr (fail checks reason c p) else m) \<longleftrightarrow> \<not> b \<and> passes_at cost m" for b checks reason c p m
    by simp
  have nested: "\<not> a \<and> \<not> b \<and> c \<longleftrightarrow> (\<not> a \<and> \<not> b) \<and> c" for a b c
    by blast
  show ?thesis
    unfolding admissible_def preflight_check_def Let_def passes_at_simps(3) step not_not stale_iff skew_iff nested verdicts_iff
      sequenced_sorted depth_pass
    by blast
qed

lemma passing_cost:
  assumes "preflight_check frozen books config policy now = Inr r" "preflight_ok r"
  shows "\<exists>cost. result_fresh_cost r = Amount cost"
proof -
  define priced where "priced m \<longleftrightarrow> (\<forall>r. m = Inr r \<longrightarrow> preflight_ok r \<longrightarrow> (\<exists>cost. result_fresh_cost r = Amount cost))"
    for m :: "PreflightResult result"
  have simps: "priced (Inl e)" "priced (Inr (fail checks reason c p))" "priced (rbind m f) \<longleftrightarrow> (\<forall>x. m = Inr x \<longrightarrow> priced (f x))"
    for e checks reason c p and m :: "'x result" and f
    by (auto simp: priced_def fail_def)
  have "priced (preflight_prices frozen lmap config policy now checks c)" for lmap checks c
    unfolding preflight_prices_def Let_def by (auto simp: simps split: prod.splits) (auto simp: priced_def)
  then have "priced (preflight_depth frozen lmap quantities config policy now checks)" for lmap quantities checks
    unfolding preflight_depth_def Let_def by (simp add: simps)
  then have "priced (preflight_check frozen books config policy now)"
    unfolding preflight_check_def Let_def by (simp add: simps)
  then show ?thesis
    using assms by (simp add: priced_def)
qed

text \<open>C18. A preflight passes at the price \<open>cost\<close> exactly when the frozen row is admissible at that price: every quote is at most as old as
  the configuration allows and not from the future, the exchange times of any two legs differ by at most the allowed skew, every leg has a
  sequence that is not behind the frozen one, the legs are those of the frozen quantities, every quantity is positive and filled by the first
  lots of the fresh book of its leg, \<open>cost\<close> is the sum of the prices of exactly these lots, every fee is present, the policy qualifies the
  payout at that cost, and \<open>cost\<close> is within the cap per trade and within what was executed, or within the proven bound and the payout.\<close>

theorem preflight_passes_iff:
  "(\<exists>r. preflight_check frozen books config policy now = Inr r \<and> preflight_ok r \<and> result_fresh_cost r = Amount cost)
    \<longleftrightarrow> admissible frozen books config policy now cost"
  using preflight_pass by (simp add: passes_at_def)

subsection \<open>The driver\<close>

lemma tick_serves:
  assumes "tick env now w = (r, w')"
  shows "calm w w' \<or> (\<exists>row. n_leg_request_head (world_store w) = Some row \<and> serve_head env row now w = (r, w'))"
  using assms world.unchanged keepsD[OF calm_watch] by (auto simp: tick_def ask_def split: if_splits option.splits)

lemma serve_head_drives:
  assumes "serve_head env row now w = (r, w')"
  shows "calm w w' \<or> (\<exists>frozen books proof_fields. request_row_payload row = JObj frozen
    \<and> books_provider env (request_component_id row) = Some books
    \<and> preflight env (JObj frozen) books (driver_safety_config (world_store w)) (driver_policy (world_store w)) now = Inr None
    \<and> drive env row frozen proof_fields now w = (r, w'))"
  using assms keepsD[OF calm_abandon] world.unchanged
  by (auto simp: serve_head_def split: if_splits json.splits option.splits sum.splits)

text \<open>The orders of a batch that a tick sends: one per leg of the batch as it is stored afterwards.\<close>

definition sends_batch :: "string \<Rightarrow> World \<Rightarrow> World \<Rightarrow> bool" where
  "sends_batch i w w' \<longleftrightarrow>
     (\<exists>b clients. n_leg_batch (world_store w') i = Some b \<and> mset clients = mset (map leg_client_order_id (legs b))
        \<and> sent_orders w' = sent_orders w @ map (Pair i) clients)"

lemma drive_sends_batch:
  assumes run: "drive env row frozen proof_fields now w = (r, w')" and inv: "once_inv w"
    and row: "row \<in> set (request_rows (world_store w))" "row_batch_id row = Some i" "request_row_payload row = JObj frozen"
    and fair: "\<forall>ls. mset (completion_order env ls) = mset ls"
  shows "calm w w' \<or> sends_batch i w w'"
proof -
  have wf: "store_wf (world_store w)" "distinct (request_ids (world_store w))"
    using inv by (simp_all add: once_inv_def Let_def)
  from run wf row show ?thesis
  proof (cases rule: drive_sends)
    case (sent w1 b)
    let ?clients = "map leg_client_order_id (completion_order env (legs b))"
    have "store_wf (world_store w1)"
      using sent(1) wf(1) by (simp add: calm_def store_step_def)
    moreover have "orders (world_store w1) i = Some (map leg_client_order_id (legs b))"
      using sent(3) by (simp add: orders_def)
    ultimately have "orders (world_store w') i = Some (map leg_client_order_id (legs b))"
      using sent(4) by (simp add: sends_def store_step_def)
    then obtain b' where "n_leg_batch (world_store w') i = Some b'" "map leg_client_order_id (legs b') = map leg_client_order_id (legs b)"
      by (auto simp: orders_def)
    moreover have "mset ?clients = mset (map leg_client_order_id (legs b))"
      using fair by (simp add: mset_map)
    moreover have "sent_orders w' = sent_orders w @ map (Pair i) ?clients"
      using sent(1,4) by (simp add: calm_def sends_def submissions_def comp_def)
    ultimately have "sends_batch i w w'"
      unfolding sends_batch_def by (intro exI[of _ b'] exI[of _ ?clients]) simp
    then show ?thesis ..
  qed simp
qed

text \<open>C19. In every world that ticks, confirmations and operator actions can reach, a tick of a driver that runs this preflight either sends no
  order, or sends exactly the orders of one batch, one per leg: the batch that the row at the head of the queue names, and
  that row is admissible, at some price, with the books the driver was given at that moment, under the stored configuration and
  policy.\<close>

theorem orders_only_after_preflight:
  assumes "driven drivers w" and "\<forall>env \<in> drivers. \<forall>ls. mset (completion_order env ls) = mset ls"
    and "env \<in> drivers" "preflight env = checked_preflight" and "tick env now w = (r, w')"
  shows "sent_orders w' = sent_orders w
    \<or> (\<exists>row frozen i books cost. n_leg_request_head (world_store w) = Some row \<and> request_row_payload row = JObj frozen
        \<and> map_of frozen ''execution_batch_id'' = Some (JStr i) \<and> sends_batch i w w'
        \<and> books_provider env (request_component_id row) = Some books
        \<and> admissible frozen books (driver_safety_config (world_store w)) (driver_policy (world_store w)) now cost)"
proof (cases "calm w w'")
  case True
  then show ?thesis
    by (simp add: calm_def)
next
  case False
  have inv: "once_inv w"
    by (rule driven_once[OF assms(1,2)])
  obtain row where head: "n_leg_request_head (world_store w) = Some row" and serve: "serve_head env row now w = (r, w')"
    using tick_serves[OF assms(5)] False by blast
  obtain frozen books proof_fields where row: "request_row_payload row = JObj frozen" "books_provider env (request_component_id row) = Some books"
    and pass: "checked_preflight (JObj frozen) books (driver_safety_config (world_store w)) (driver_policy (world_store w)) now = Inr None"
    and drive: "drive env row frozen proof_fields now w = (r, w')"
    using serve_head_drives[OF serve] False assms(4) by auto
  have mem: "row \<in> set (request_rows (world_store w))"
    using head_row[OF head] by blast
  then obtain i where i: "row_batch_id row = Some i"
    using inv unfolding once_inv_def Let_def by blast
  then have "map_of frozen ''execution_batch_id'' = Some (JStr i)"
    by (auto simp: row_batch_id_def row(1) split: option.splits json.splits)
  moreover have "sends_batch i w w'"
    using drive_sends_batch[OF drive inv mem i row(1)] assms(2,3) False by blast
  moreover obtain cost where "admissible frozen books (driver_safety_config (world_store w)) (driver_policy (world_store w)) now cost"
  proof -
    obtain res where res: "preflight_check frozen books (driver_safety_config (world_store w)) (driver_policy (world_store w)) now = Inr res"
      "preflight_ok res"
      using pass by (auto simp: checked_preflight_def split: if_splits)
    then obtain cost where "result_fresh_cost res = Amount cost"
      using passing_cost by blast
    then have "passes_at cost (preflight_check frozen books (driver_safety_config (world_store w)) (driver_policy (world_store w)) now)"
      using res unfolding passes_at_def by blast
    then show thesis
      unfolding preflight_pass by (rule that)
  qed
  ultimately show ?thesis
    using head row by blast
qed

subsection \<open>A row that passes\<close>

definition preflight_book :: "BookLevel list \<Rightarrow> BookLevel list \<Rightarrow> LegBook" where
  "preflight_book bs ss = \<lparr>bids = bs, asks = ss, taker_fee_bps = Some (Finite False 100 0), book_available = True,
     book_convention = GENERIC_BOOK_CONVENTION\<rparr>"

definition preflight_leg :: "string \<Rightarrow> LegBook \<Rightarrow> SnapshotLeg" where
  "preflight_leg i b = \<lparr>leg_id = i, leg_book = b, received_at = Some 0, exchange_time = Some 0, leg_sequence = Some 7\<rparr>"

definition preflight_books :: ComponentSnapshot where
  "preflight_books = \<lparr>snapshot_component_id = ''c'', snapshot_legs =
     [preflight_leg ''a-no'' (preflight_book [\<lparr>level_price = Finite False 40 (- 2), level_size = Finite False 2 0\<rparr>] []),
      preflight_leg ''b-yes'' (preflight_book [] [\<lparr>level_price = Finite False 42 (- 2), level_size = Finite False 7 0\<rparr>])]\<rparr>"

definition preflight_row :: "(string \<times> json) list" where
  "preflight_row =
     [(''market'', JObj [(''problem'', problem_payload sample_problem), (''bounded_payout_units'', JInt 4124180),
        (''bounded_cost_units'', JInt 1700000), (''capital_release_at'', JStr ''1970-01-31T00:00:00Z''),
        (''quantities'', JList [JObj [(''action_id'', JStr ''a-no''), (''quantity_lots'', JInt 2)],
           JObj [(''action_id'', JStr ''b-yes''), (''quantity_lots'', JInt 2)]])]),
      (''sequences'', JObj [(''a-no'', JInt 7)])]"

lemma policy_decimals: "parse_decimal ''1.00'' = Some (Finite False 100 (- 2))" "parse_decimal ''0.01'' = Some (Finite False 1 (- 2))"
  "parse_decimal ''0.15'' = Some (Finite False 15 (- 2))"
  by code_simp+

lemma row_release: "parse_release_at (JStr ''1970-01-31T00:00:00Z'') = Some 2592000000000"
  by code_simp

lemma exact_results:
  "dec_result 1000000 = Inr 1000000" "dec_result (3 / 5) = Inr (3 / 5)" "dec_result 219 = Inr 219" "dec_result (73 / 10) = Inr (73 / 10)"
  "dec_result 420000 = Inr 420000" "dec_result 7 = Inr 7"
  using dec_result_exact[of 1000000 0] dec_result_exact[of 6 "- 1"] dec_result_exact[of 219 0] dec_result_exact[of 73 "- 1"]
    dec_result_exact[of 420000 0] dec_result_exact[of 7 0]
  by (simp_all add: pow10_def ETINY_def EMAX_def)

lemma row_qualified:
  "qualification_check (Some DEFAULT_QUALIFICATION_POLICY) 2474508 4124180 (frozen_market preflight_row) 0 = Inr (True, MarginDays (3 / 5) 30)"
  by (simp add: qualification_check_def DEFAULT_QUALIFICATION_POLICY_def policy_decimals dec_units_def dec_times_def dec_divide_def dec_less_def
      exact_results frozen_market_def preflight_row_def json_get_def row_release release_days_def USD_UNITS_PER_DOLLAR_def)

lemma row_actions: "frozen_actions (frozen_market preflight_row) = Inr [(''a-no'', sample_a), (''b-yes'', sample_b)]"
proof -
  have "problem_from_payload False (problem_payload sample_problem) = Inr (sorted_problem sample_problem)"
    using problem_read[OF sample_wf sample_representable, of False] sorted_problem_wf[OF sample_wf]
    by (simp add: accepted_problem_def validate_problem_Nil_iff)
  moreover have "\<exists>kvs. problem_payload sample_problem = JObj kvs"
    by (simp add: problem_payload_def)
  moreover have "fold (\<lambda>a. AList.update (action_id a) a) (actions (sorted_problem sample_problem)) []
      = [(''a-no'', sample_a), (''b-yes'', sample_b)]"
    by code_simp
  ultimately show ?thesis
    by (auto simp: frozen_actions_def frozen_market_def preflight_row_def json_get_def)
qed

lemma row_quantities: "frozen_quantities preflight_row = Inr [(''a-no'', 2), (''b-yes'', 2)]"
  by (simp add: frozen_quantities_def block_quantities_def preflight_row_def json_get_def row_quantity_def display_text_def)

lemma row_lots:
  "offered_lots sample_a (preflight_book [\<lparr>level_price = Finite False 40 (- 2), level_size = Finite False 2 0\<rparr>] []) 1000000
    = Inr (replicate 2 402400)"
  "offered_lots sample_b (preflight_book [] [\<lparr>level_price = Finite False 42 (- 2), level_size = Finite False 7 0\<rparr>]) 1000000
    = Inr (replicate 5 422436)"
proof -
  have rate: "book_fee_rate (preflight_book bs ss) = Some (1 / 100)" for bs ss
    by (simp add: book_fee_rate_def preflight_book_def)
  have fee: "taker_fee sample_b (default_pricing 1000000) (Some (1 / 100)) 420000 = 2436"
    by (simp add: taker_fee_def default_pricing_def sample_b_def sample_action_def ceil_fraction_def)
  have offer: "level_offer sample_b (default_pricing 1000000) (Some (1 / 100)) \<lparr>level_price = Finite False 42 (- 2), level_size = Finite False 7 0\<rparr>
    = Inr (Some (7, 422436))"
    using fee exact_results(5,6)
    by (simp add: level_offer_def level_numbers_def not_positive_def level_lots_def dec_times_def dec_divide_def protected_price_def unit_cost_def
        ceil_quotient_def default_pricing_def sample_b_def sample_action_def PPM_def Let_def)
  have levels: "book_levels sample_a (preflight_book bs ss) = Inr bs" "book_levels sample_b (preflight_book bs ss) = Inr ss"
    "max_quantity_lots sample_a = 5" "max_quantity_lots sample_b = 5" for bs ss
    by (simp_all add: book_levels_def preflight_book_def GENERIC_BOOK_CONVENTION_def OUTCOME_TOKEN_BOOK_CONVENTION_def sample_a_def sample_b_def
        sample_action_def)
  show "offered_lots sample_a (preflight_book [\<lparr>level_price = Finite False 40 (- 2), level_size = Finite False 2 0\<rparr>] []) 1000000
      = Inr (replicate 2 402400)"
    by (simp add: offered_lots_def rate levels sample_offer)
  show "offered_lots sample_b (preflight_book [] [\<lparr>level_price = Finite False 42 (- 2), level_size = Finite False 7 0\<rparr>]) 1000000
      = Inr (replicate 5 422436)"
    by (simp add: offered_lots_def rate levels offer)
qed

lemma row_legs: "legs_by_id preflight_books =
  [(''a-no'', preflight_leg ''a-no'' (preflight_book [\<lparr>level_price = Finite False 40 (- 2), level_size = Finite False 2 0\<rparr>] [])),
   (''b-yes'', preflight_leg ''b-yes'' (preflight_book [] [\<lparr>level_price = Finite False 42 (- 2), level_size = Finite False 7 0\<rparr>]))]"
  by (simp add: legs_by_id_def preflight_books_def preflight_leg_def)

lemma sample_row_admissible: "admissible preflight_row preflight_books (JObj []) (Some DEFAULT_QUALIFICATION_POLICY) 0 1649672"
proof -
  have config: "config_int (JObj []) key n = n" for key n
    by (simp add: config_int_def)
  have units: "units_per_dollar (frozen_market preflight_row) = 1000000"
    by (simp add: units_per_dollar_def frozen_market_def preflight_row_def json_get_def int_or_zero_def USD_UNITS_PER_DOLLAR_def)
  have figures: "frozen_payout (frozen_market preflight_row) = 4124180" "executed_cost preflight_row = 1700000"
    by (simp_all add: frozen_payout_def executed_cost_def frozen_market_def preflight_row_def json_get_def int_or_zero_def)
  have "well_priced preflight_row (legs_by_id preflight_books) (JObj []) (Some DEFAULT_QUALIFICATION_POLICY) 0 1649672"
    using row_qualified by (simp add: well_priced_def figures config row_legs preflight_leg_def preflight_book_def)
  moreover have "fillable (legs_by_id preflight_books) [(''a-no'', sample_a), (''b-yes'', sample_b)] 1000000 [(''a-no'', 2), (''b-yes'', 2)] 1649672"
  proof -
    let ?L = "fresh_lots (legs_by_id preflight_books) [(''a-no'', sample_a), (''b-yes'', sample_b)] 1000000"
    have lots: "?L ''a-no'' = replicate 2 402400" "?L ''b-yes'' = replicate 5 422436"
      by (simp_all add: fresh_lots_def row_legs preflight_leg_def row_lots)
    have "sum_list (map (first_lots_cost ?L) [(''a-no'', 2), (''b-yes'', 2)]) = 1649672"
      by (simp add: first_lots_cost_def lots sum_list_replicate)
    then show ?thesis
      unfolding fillable_iff by (simp add: row_legs preflight_leg_def filled_def lots[unfolded row_legs preflight_leg_def] row_lots)
  qed
  ultimately show ?thesis
    unfolding admissible_def units row_actions row_quantities
    by (simp add: config row_legs timely_def aligned_def sequenced_def preflight_leg_def preflight_row_def json_get_def
        DEFAULT_MAX_QUOTE_AGE_SECONDS_def DEFAULT_MAX_CROSS_LEG_SKEW_SECONDS_def)
qed

text \<open>The same row behind an admissible request, in the queue of a driver with these books.\<close>

lemma queued_row_reads:
  "frozen_market (entry_request @ preflight_row) = frozen_market preflight_row" "executed_cost (entry_request @ preflight_row) = executed_cost preflight_row"
  "frozen_quantities (entry_request @ preflight_row) = frozen_quantities preflight_row"
  "json_get (entry_request @ preflight_row) ''sequences'' = json_get preflight_row ''sequences''"
  by (simp_all add: frozen_market_def executed_cost_def frozen_quantities_def block_quantities_def json_get_def entry_request_def preflight_row_def)

lemma queued_row_admissible:
  "admissible (entry_request @ preflight_row) preflight_books (JObj []) (Some DEFAULT_QUALIFICATION_POLICY) 0 1649672"
  using sample_row_admissible by (simp only: admissible_def well_priced_def queued_row_reads)

text \<open>A problem crosses the store boundary unchanged: none of its field names is private.\<close>

definition row_names :: "string list" where
  "row_names =
     [''account_id'', ''action_id'', ''actions'', ''as_of'', ''asset_valuation_rule_id'', ''atom_id'', ''atom_ids'', ''atoms'',
      ''capital_release_at'', ''chain_id'', ''comparison'', ''constraint_id'', ''constraint_model'', ''contract_ids'', ''cost_slices'',
      ''first_lot'', ''forbidden_atom_combinations'', ''incremental_cost_upper_bound_units'', ''indicator_id'', ''kind'', ''last_lot'',
      ''lot_step_units'', ''market_contract_id'', ''max_quantity_lots'', ''metric'', ''min_quantity_lots'', ''observation_end'',
      ''observation_start'', ''oracle_id'', ''payout_lower_bound_per_lot_units'', ''payouts'', ''problem_id'', ''qualification_constraints'',
      ''quantity_scale'', ''relations'', ''rule_version'', ''schema_version'', ''settlement_asset_id'', ''settlement_observation_key'',
      ''side'', ''terminal_state_sets'', ''threshold_denominator'', ''threshold_numerator'', ''timezone'', ''valuation_unit_id'',
      ''venue_id'', ''market'', ''problem'', ''bounded_payout_units'', ''bounded_cost_units'', ''quantities'', ''quantity_lots'',
      ''sequences'']"

lemma row_names_public: "list_all public_name row_names"
  by code_simp

lemma problem_names: "set (field_names (problem_payload p)) \<subseteq> set row_names"
proof -
  have "set (field_names (action_payload a)) \<subseteq> set row_names" for a
    by (auto simp: action_payload_def observation_payload_def cost_slice_payload_def row_names_def)
  moreover have "set (field_names (state_set_payload st)) \<subseteq> set row_names" for st
  proof -
    have none: "set (field_names (json_option JStr v)) = {}" "set (field_names (json_option (\<lambda>t. json_datetime t) d)) = {}" for v d
      by (simp_all add: json_option_def split: option.splits)
    have "set (field_names (atom_payload atom)) \<subseteq> set row_names" for atom
      by (auto simp: atom_payload_def payout_payload_def row_names_def none split: if_splits)
    then show ?thesis
      by (fastforce simp: state_set_payload_def observation_payload_def row_names_def)
  qed
  moreover have "set (field_names (constraint_model_payload m)) \<subseteq> set row_names" for m
    by (auto simp: constraint_model_payload_def relation_payload_def forbidden_payload_def row_names_def)
  moreover have "set (field_names (qualification_payload q)) \<subseteq> set row_names" for q
    by (auto simp: qualification_payload_def row_names_def)
  moreover have "{''schema_version'', ''problem_id'', ''as_of'', ''valuation_unit_id'', ''actions'', ''terminal_state_sets'', ''constraint_model'',
      ''qualification_constraints''} \<subseteq> set row_names"
    by (simp add: row_names_def)
  ultimately show ?thesis
    by (simp add: problem_payload_def UN_subset_iff)
qed

lemma preflight_row_kept: "dump_payload (JObj preflight_row) = Inr (JObj preflight_row)"
proof -
  have "set (field_names (JObj preflight_row)) \<subseteq> insert ''a-no'' (set row_names)"
    using problem_names[of sample_problem] by (auto simp: preflight_row_def) (auto simp: row_names_def)
  moreover have "\<not> dropped_field False ''a-no''"
    by code_simp
  ultimately have "safe_value False (JObj preflight_row) = JObj preflight_row"
    using row_names_public public_name_kept by (intro safe_value_clean) (auto simp: list_all_iff)
  then show ?thesis
    by (simp only: dump_payload_def json.case)
qed

definition preflight_driver :: "(ComponentSnapshot, unit) Driver" where
  "preflight_driver =
     \<lparr>books_provider = (\<lambda>_. Some preflight_books), preflight = checked_preflight, source_factory = (\<lambda>_. Inr ()),
      decode_source = (\<lambda>_. Inr entry_decoded), submit_n_leg_leg_once = (\<lambda>_ _ _ _ _. Inr unknown_outcome),
      reconciliation_context_factory = None, submit_timeout_seconds = 10, completion_order = rev\<rparr>"

lemma queued_policy:
  "driver_safety_config (world_store (queued_world preflight_row)) = JObj []"
  "driver_policy (world_store (queued_world preflight_row)) = Some DEFAULT_QUALIFICATION_POLICY"
  by (simp_all add: queued_store[OF preflight_row_kept] driver_safety_config_def driver_policy_def n_leg_mode_contract_def current_policy_def
      current_safety_config_def n_leg_safety_config_latest_def n_leg_qualification_policy_latest_def latest_row_def empty_store_def n_leg_control_def
      default_control_def Let_def)

theorem orders_only_after_preflight_witness:
  "\<exists>r w'. tick preflight_driver 0 (queued_world preflight_row) = (r, w') \<and> sent_orders w' = [(''B'', ''B:b''), (''B'', ''B:a'')]
    \<and> sends_batch ''B'' (queued_world preflight_row) w'
    \<and> (\<exists>cost. admissible (entry_request @ preflight_row) preflight_books (JObj []) (Some DEFAULT_QUALIFICATION_POLICY) 0 cost)"
proof -
  let ?w = "queued_world preflight_row" and ?row = "entry_request @ preflight_row"
  have fair: "\<forall>env \<in> {preflight_driver}. \<forall>ls. mset (completion_order env ls) = mset ls"
    by (simp add: preflight_driver_def)
  have "passes_at 1649672 (preflight_check ?row preflight_books (JObj []) (Some DEFAULT_QUALIFICATION_POLICY) 0)"
    using queued_row_admissible preflight_pass by blast
  then have passes: "checked_preflight (JObj ?row) preflight_books (driver_safety_config (world_store ?w)) (driver_policy (world_store ?w)) 0 = Inr None"
    by (auto simp: checked_preflight_def passes_at_def queued_policy)
  have buys: "all_legs_buy ?row"
    by (simp add: all_legs_buy_def json_get_def entry_request_def preflight_row_def)
  obtain r w' where run: "tick preflight_driver 0 ?w = (r, w')" and sent: "sent_orders w' = [(''B'', ''B:b''), (''B'', ''B:a'')]"
    by (rule queued_tick[OF preflight_row_kept buys, where env = preflight_driver and books = preflight_books])
      (use passes in \<open>simp_all add: preflight_driver_def\<close>)
  have head: "n_leg_request_head (world_store ?w) = Some (entry_row preflight_row)"
    by (simp add: queued_store[OF preflight_row_kept] n_leg_request_head_def n_leg_requests_def entry_row_def request_pending_def)
  have "sent_orders w' \<noteq> sent_orders ?w"
    using sent queued_store(2)[OF preflight_row_kept] by simp
  then obtain row frozen i books cost where found: "n_leg_request_head (world_store ?w) = Some row" "request_row_payload row = JObj frozen"
      "map_of frozen ''execution_batch_id'' = Some (JStr i)" "sends_batch i ?w w'"
      "books_provider preflight_driver (request_component_id row) = Some books"
      "admissible frozen books (driver_safety_config (world_store ?w)) (driver_policy (world_store ?w)) 0 cost"
    using orders_only_after_preflight[OF queued_driven fair _ _ run] by (auto simp: preflight_driver_def)
  have "frozen = ?row" "books = preflight_books"
    using found(1,2,5) head by (auto simp: entry_row_def preflight_driver_def)
  moreover have "i = ''B''"
    using found(3) calculation(1) by (simp add: entry_request_def)
  ultimately show ?thesis
    using run sent found(4,6) by (auto simp: queued_policy)
qed

end
