(* ===== verification/Spec2Isabelle.thy ===== *)
theory Spec2Isabelle
  imports Episodes Oracle_Optimality Mode_Contract Driver_Outcomes NLeg_Preflight
begin

text \<open>
  \<^bold>\<open>N-leg prediction arbitrage of open-trader.\<close>

  The repository (\<^verbatim>\<open>src/src/open_trader/\<close>) trades several strategies. This development covers the N-leg prediction
  arbitrage: a problem of contracts on prediction venues is validated and fingerprinted, an exact oracle searches
  it for a portfolio whose guaranteed profit qualifies, an episode tracker follows an opportunity over time, and a
  versioned mode contract with its store tables decides who may send orders for it.

  \<^bold>\<open>Theories, in the order of the data flow.\<close>

  \<^item> \<^verbatim>\<open>Py_Prelude\<close>: errors as values of \<open>py_error\<close>, the result type and its sequencing, loops over lists that may
    raise, dicts as association lists behind the interface \<open>keyed_store\<close>, 64 bit bounds, sorting facts.
  \<^item> \<^verbatim>\<open>NLeg_Model\<close>, \<^verbatim>\<open>NLeg_Validate\<close>: the enums and dataclasses of \<^verbatim>\<open>prediction_n_leg.py\<close>, legacy normalisation, the
    canonical order, and \<open>validate_problem\<close>, which reports no issue exactly on the problems that satisfy the
    declarative well-formedness.
  \<^item> \<^verbatim>\<open>Sha256\<close>, \<^verbatim>\<open>NLeg_Canonical\<close>: canonical JSON and the SHA-256 fingerprints; hashing is computed, not assumed
    to be injective, and a theorem that needs a collision to be absent says so.
  \<^item> \<^verbatim>\<open>Oracle_Eval\<close> (\<^verbatim>\<open>prediction_n_leg_oracle.py\<close>): checked arithmetic, the scenario enumeration, lot costs,
    qualification rules and the evaluation of a fixed portfolio. The enumeration is exact, the guaranteed profit is
    the worst case over the settlements the constraints allow, and an evaluation fails only by overflow.
  \<^item> \<^verbatim>\<open>Union_Find\<close>, \<^verbatim>\<open>Oracle_Components\<close>: the union-find of \<open>build_relation_components\<close> behind the interface
    \<open>partition_structure\<close>, and that its components are the classes of the link relation.
  \<^item> \<^verbatim>\<open>Oracle_Search\<close>, \<^verbatim>\<open>Oracle_Optimality\<close>: the support graph, the payout proofs and the exhaustive searches.
    \<open>solve_optimal\<close> is optimal over the portfolios of one connected component, its negative answers are exhaustive,
    and \<open>find_qualified\<close> decides requests the same way.
  \<^item> \<^verbatim>\<open>Episodes\<close> (\<^verbatim>\<open>prediction_n_leg_episodes.py\<close>): the tracker and its tables as a state machine over observations;
    an episode closes only after an unbroken window of negative proofs, a restart resumes it, a closed row is final.
  \<^item> \<^verbatim>\<open>Decimal_Text\<close>, \<^verbatim>\<open>Store_Payload\<close>: Python's \<open>Decimal\<close> text, and \<open>_safe_value\<close> of
    \<^verbatim>\<open>prediction_arbitrage_store.py\<close>, which keeps credentials out of every stored payload.
  \<^item> \<^verbatim>\<open>Datetime_Text\<close>, \<^verbatim>\<open>NLeg_Decode\<close>: Python's \<open>fromisoformat\<close> on the format the encoder writes, and the readers of problems and
    requests (\<open>problem_from_payload\<close>, \<open>request_from_payload\<close>). A valid problem, encoded and read back, is the problem in canonical
    order; what the strict reader accepts is well formed and canonical.
  \<^item> \<^verbatim>\<open>Snapshot_Scheduler\<close> (\<^verbatim>\<open>prediction_snapshot_scheduler.py\<close>): the scheduler that turns book snapshots into solves, as a state machine
    over observations, completions and \<open>close\<close>. One solve per component is outstanding at a time, the newest snapshot is solved
    when the solver server takes every request, and a refused replacement can overwrite the result of the newest snapshot.
  \<^item> \<^verbatim>\<open>NLeg_Batch\<close>: receipts, fresh facts and the batch payload of \<^verbatim>\<open>prediction_n_leg_execution.py\<close>.
  \<^item> \<^verbatim>\<open>NLeg_Store\<close>: the N-leg tables as a record and the operations on them. An operation maps the store to a result
    and the store it leaves behind, so a write before an exception stays.
  \<^item> \<^verbatim>\<open>NLeg_Mode\<close>, \<^verbatim>\<open>Mode_Contract\<close> (\<^verbatim>\<open>prediction_n_leg_mode.py\<close>): policies, safety caps, scopes and readiness. The
    interface \<open>mode_mutation\<close> states what every mutation promises (it answers with the contract it leaves behind, or
    changes nothing) and is interpreted on each of them under the invariant \<open>mode_inv\<close>.

  \<^item> \<^verbatim>\<open>NLeg_Requests\<close> (the \<^verbatim>\<open>n_leg_request_*\<close> operations of the store): the queue of confirmed executions behind the
    interface \<open>fifo_queue\<close>. Requests are served in the order of arrival, a repeat is answered from the stored row,
    and the number of waiting requests stays within the cap.
  \<^item> \<^verbatim>\<open>NLeg_Execution\<close>, \<^verbatim>\<open>Execution_Facts\<close> (\<^verbatim>\<open>prediction_n_leg_execution.py\<close>): the reducer of venue receipts with its
    conflicts, incidents, repair plans and reconciliation. Accepted receipts only advance, a contradiction stops
    trading, the counted capital never falls below what was reserved or spent, repairs are priced lot by lot.
  \<^item> \<^verbatim>\<open>Linear_Model\<close>, \<^verbatim>\<open>Terminal_Model\<close> (\<^verbatim>\<open>prediction_solver.py\<close>): integer linear models, the checks on a model and on the
    answer of a backend, and the rows that describe settlements. A validated answer is an exact integer point, and the
    points of a compiled model are the settlements that the constraints allow.
  \<^item> \<^verbatim>\<open>Partial_Fill\<close>, \<^verbatim>\<open>Fill_Outcomes\<close>, \<^verbatim>\<open>Fill_Proofs\<close> (\<^verbatim>\<open>prediction_partial_fill.py\<close>): the adversary that chooses fills and
    settlement, its linearisation, evidence, verification, proof records and the exhaustive reference. The linearisation is
    exact up to negative payouts; UNSAFE records carry a real counterexample for any backend; the bounds of closed
    records are the worst loss when the backend keeps the promise \<open>optimal_answers\<close> and no payout is negative.
  \<^item> \<^verbatim>\<open>NLeg_Service\<close>, \<^verbatim>\<open>Service_Facts\<close> (the \<^verbatim>\<open>n_leg_*\<close> transactions of the store and \<^verbatim>\<open>NLegExecutionService\<close>): the lineage lock,
    admission, transitions, reductions, acknowledgement, reset and \<open>enter\<close>. The tables stay consistent over every sequence of
    operations (\<open>store_wf\<close>, by the interface \<open>batch_reducer\<close> for the two reductions), the walk over the lineage graph ends with
    exactly the ancestors, and claims in the old format block nothing.
  \<^item> \<^verbatim>\<open>NLeg_Driver\<close>, \<^verbatim>\<open>Driver_Facts\<close>, \<^verbatim>\<open>Driver_Outcomes\<close> (\<^verbatim>\<open>prediction_n_leg_driver.py\<close>): one tick of the queue driver with its gates, the submissions, the
    receipts and the watchdogs; its collaborators are fields of the record \<open>Driver\<close>. What a run keeps is proved along its
    structure with the interface \<open>frame\<close>: no order is submitted twice, an UNKNOWN outcome stops all trading, an outcome that
    cannot be read escapes as an exception, and a proof record survives its payload.
  \<^item> \<^verbatim>\<open>Book_Cost\<close> (\<open>cost_slices_from_book\<close> of \<^verbatim>\<open>prediction_market_solution.py\<close>): the executable cost of a live book with Python's decimal
    arithmetic. The slices price the book lot by lot, and the price of a lot bounds what any fill at or below its level can cost, fee included.
  \<^item> \<^verbatim>\<open>NLeg_Preflight\<close> (\<^verbatim>\<open>prediction_n_leg_preflight.py\<close>): the last check of a frozen row against fresh books. It passes exactly on
    admissible rows, and a tick of a driver that runs it sends either nothing or exactly the orders of the batch that the head of the
    queue names, which is then admissible with the books of that moment.

  \<^bold>\<open>Correspondence.\<close> A dataclass is a record, an enum a datatype, a raised exception \<open>Inl\<close> of the error. Timestamps are
  microseconds since 1970. JSON values that come from outside stay JSON values and are checked by the model as by
  the code; checks that only ask for a Python type of a typed field have no counterpart.

  \<^bold>\<open>Loops.\<close> Loops over collections are structural; the scenario enumeration and the searches recurse over lists whose
  length the budget bounds. The climb to a union-find root takes one more than the number of entries as fuel, which is enough
  because the parent map has no cycle; the support closure recurses on the constraints not yet reached.

  \<^bold>\<open>Not modelled.\<close> SQL text and the file format of the tables, row timestamps and random row ids, logging, threads; the
  liquidity-provision, trend and Kelly strategies, the legacy two-leg execution, account synchronisation, venue
  adapters and parsers, dashboards and the command line; external solver backends, which are parameters, and the master
  model with its constraint-generation loop; the readers of stored results,
  and the market solution that is built from the cost slices.
\<close>

end
